(* ===== verification/Prelude.thy ===== *)
theory Prelude
  imports Complex_Main "HOL-Library.List_Lexorder"
begin

text \<open>
  What the components share: JavaScript strings as lists of UTF-16 code units, JavaScript
  numbers with their NaN and infinities, results of fallible operations, the values an
  unvalidated request body may hold, and the generic lemmas and rule collections that the
  component proofs use.

  A string of the source is a \<open>jstring\<close>, the list of its UTF-16 code units; string literals
  of the source that are ASCII are written \<open>js ''...''\<close>. Timestamps (\<open>Date\<close> and epoch
  milliseconds) are integers. A raised error is \<open>Inl\<close>, a returned value \<open>Inr\<close>.
\<close>

named_theorems authz_defs \<open>definitions of the authorization decisions\<close>
named_theorems str_simps \<open>evaluation of the string operations\<close>
named_theorems db_simps \<open>reads after writes on the tables\<close>

section \<open>Strings\<close>

type_synonym jstring = "nat list"

definition js :: "string \<Rightarrow> jstring" where
  "js s = map of_char s"

lemma js_eq_iff [simp]: "js s = js t \<longleftrightarrow> s = t"
proof -
  have "inj (of_char :: char \<Rightarrow> nat)" by (rule inj_of_char)
  then show ?thesis by (simp add: js_def inj_map_eq_map)
qed

lemma js_Nil [simp]: "js [] = []"
  by (simp add: js_def)

lemma js_eq_Nil [simp]: "js s = [] \<longleftrightarrow> s = []"
  by (simp add: js_def)

lemma Nil_eq_js [simp]: "[] = js s \<longleftrightarrow> s = []"
  by (auto simp: js_def)

lemma js_append: "js (s @ t) = js s @ js t"
  by (simp add: js_def)

lemma length_js [simp]: "length (js s) = length s"
  by (simp add: js_def)

subsection \<open>White space and trim\<close>

text \<open>
  The code units \<open>String.prototype.trim\<close> and the class \<open>\s\<close> of a regular expression
  recognise: WhiteSpace and LineTerminator of ECMAScript.
\<close>

definition is_space :: "nat \<Rightarrow> bool" where
  "is_space c \<longleftrightarrow> c = 9 \<or> c = 10 \<or> c = 11 \<or> c = 12 \<or> c = 13 \<or> c = 32 \<or> c = 160 \<or> c = 5760
     \<or> (8192 \<le> c \<and> c \<le> 8202) \<or> c = 8232 \<or> c = 8233 \<or> c = 8239 \<or> c = 8287 \<or> c = 12288
     \<or> c = 65279"

definition trim :: "jstring \<Rightarrow> jstring" where
  "trim s = rev (dropWhile is_space (rev (dropWhile is_space s)))"

definition trimmed :: "jstring \<Rightarrow> bool" where
  "trimmed s \<longleftrightarrow> s = [] \<or> \<not> is_space (hd s) \<and> \<not> is_space (last s)"

lemma last_dropWhile_eq: "dropWhile P xs \<noteq> [] \<Longrightarrow> last (dropWhile P xs) = last xs"
  by (induction xs) (auto split: if_splits)

lemma trimmed_trim: "trimmed (trim s)"
proof -
  let ?d = "dropWhile is_space s"
  let ?r = "dropWhile is_space (rev ?d)"
  show ?thesis
  proof (cases "?r = []")
    case True
    then show ?thesis by (simp add: trimmed_def trim_def)
  next
    case False
    have ne: "?d \<noteq> []"
    proof
      assume e: "?d = []"
      have "?r = []" by (subst e) simp
      with False show False by simp
    qed
    have "hd (rev ?r) = last ?r" by (rule hd_rev)
    also have "\<dots> = last (rev ?d)" by (rule last_dropWhile_eq [OF False])
    also have "\<dots> = hd ?d" by (rule last_rev)
    finally have h: "\<not> is_space (hd (rev ?r))" using hd_dropWhile [OF ne] by simp
    have "last (rev ?r) = hd ?r" by (rule last_rev)
    then have "\<not> is_space (last (rev ?r))" using hd_dropWhile [OF False] by simp
    with h show ?thesis by (simp add: trimmed_def trim_def)
  qed
qed

lemma dropWhile_keeps: "s = [] \<or> \<not> P (hd s) \<Longrightarrow> dropWhile P s = s"
  by (cases s) auto

lemma trim_trimmed:
  assumes "trimmed s"
  shows "trim s = s"
proof -
  from assms have d: "dropWhile is_space s = s"
    by (intro dropWhile_keeps) (auto simp: trimmed_def)
  from assms have "dropWhile is_space (rev s) = rev s"
    by (intro dropWhile_keeps) (auto simp: trimmed_def hd_rev)
  with d show ?thesis by (simp add: trim_def)
qed

lemma trim_idem [simp]: "trim (trim s) = trim s"
  by (rule trim_trimmed [OF trimmed_trim])

lemma trim_Nil [simp]: "trim [] = []"
  by (simp add: trim_def)

lemma set_trim: "set (trim s) \<subseteq> set s"
  by (auto simp: trim_def dest!: set_dropWhileD)

subsection \<open>Code points\<close>

text \<open>
  \<open>[...s]\<close> iterates over code points: a high surrogate followed by a low surrogate is one
  element, every other code unit is one of its own.
\<close>

definition is_high_surrogate :: "nat \<Rightarrow> bool" where
  "is_high_surrogate c \<longleftrightarrow> 55296 \<le> c \<and> c \<le> 56319"

definition is_low_surrogate :: "nat \<Rightarrow> bool" where
  "is_low_surrogate c \<longleftrightarrow> 56320 \<le> c \<and> c \<le> 57343"

fun code_points :: "jstring \<Rightarrow> jstring list" where
  "code_points [] = []"
| "code_points [c] = [[c]]"
| "code_points (c # d # cs) =
     (if is_high_surrogate c \<and> is_low_surrogate d then [c, d] # code_points cs
      else [c] # code_points (d # cs))"

lemma concat_code_points [simp]: "concat (code_points s) = s"
  by (induction s rule: code_points.induct) auto

lemma code_points_Nil_iff [simp]: "code_points s = [] \<longleftrightarrow> s = []"
  by (induction s rule: code_points.induct) auto

lemma code_points_nonempty: "p \<in> set (code_points s) \<Longrightarrow> p \<noteq> []"
  by (induction s rule: code_points.induct) (auto split: if_splits)

lemma code_points_length: "length (code_points s) \<le> length s"
  by (induction s rule: code_points.induct) auto

lemma length_code_points: "length s \<le> 2 * length (code_points s)"
  by (induction s rule: code_points.induct) auto

text \<open>A string without surrogates has one code point per code unit.\<close>

lemma code_points_plain:
  "\<forall>c \<in> set s. \<not> is_high_surrogate c \<Longrightarrow> code_points s = map (\<lambda>c. [c]) s"
  by (induction s rule: code_points.induct) auto

subsection \<open>Searching and slicing\<close>

text \<open>\<open>s.indexOf(c)\<close> for a one-character needle; \<open>None\<close> is the source's \<open>-1\<close>.\<close>

fun index_of :: "nat \<Rightarrow> jstring \<Rightarrow> nat option" where
  "index_of c [] = None"
| "index_of c (d # ds) = (if d = c then Some 0 else map_option Suc (index_of c ds))"

definition last_index_of :: "nat \<Rightarrow> jstring \<Rightarrow> nat option" where
  "last_index_of c s = map_option (\<lambda>i. length s - 1 - i) (index_of c (rev s))"

lemma index_of_None_iff [simp]: "index_of c s = None \<longleftrightarrow> c \<notin> set s"
  by (induction s) auto

lemma index_of_SomeD:
  "index_of c s = Some i \<Longrightarrow> i < length s \<and> s ! i = c \<and> c \<notin> set (take i s)"
  by (induction s arbitrary: i) (auto split: if_splits)

lemma last_index_of_None_iff [simp]: "last_index_of c s = None \<longleftrightarrow> c \<notin> set s"
  by (simp add: last_index_of_def)

lemma last_index_of_SomeD:
  assumes "last_index_of c s = Some i"
  shows "i < length s \<and> s ! i = c \<and> c \<notin> set (drop (Suc i) s)"
proof -
  from assms obtain j where j: "index_of c (rev s) = Some j" and i: "i = length s - 1 - j"
    by (auto simp: last_index_of_def)
  from index_of_SomeD [OF j] have jl: "j < length s" and at: "rev s ! j = c"
    and nt: "c \<notin> set (take j (rev s))" by auto
  from jl at i have "s ! i = c" by (simp add: rev_nth)
  moreover have "take j (rev s) = rev (drop (length s - j) s)" by (simp add: take_rev)
  with nt jl i have "c \<notin> set (drop (Suc i) s)" by (simp add: Suc_diff_Suc)
  ultimately show ?thesis using jl i by simp
qed

text \<open>\<open>s.split(c)\<close> for a one-character separator.\<close>

fun split_on :: "nat \<Rightarrow> jstring \<Rightarrow> jstring list" where
  "split_on c [] = [[]]"
| "split_on c (d # ds) =
     (if d = c then [] # split_on c ds
      else (case split_on c ds of [] \<Rightarrow> [[d]] | p # ps \<Rightarrow> (d # p) # ps))"

text \<open>\<open>parts.join(c)\<close> for a one-character separator.\<close>

fun join_with :: "nat \<Rightarrow> jstring list \<Rightarrow> jstring" where
  "join_with c [] = []"
| "join_with c [p] = p"
| "join_with c (p # q # ps) = p @ c # join_with c (q # ps)"

lemma split_on_nonempty [simp]: "split_on c s \<noteq> []"
  by (induction s) (auto split: list.splits)

lemma split_on_no_sep: "p \<in> set (split_on c s) \<Longrightarrow> c \<notin> set p"
  by (induction s arbitrary: p) (auto split: list.splits if_splits)

lemma split_on_absent: "c \<notin> set s \<Longrightarrow> split_on c s = [s]"
  by (induction s) auto

lemma split_on_append: "c \<notin> set p \<Longrightarrow> split_on c (p @ c # s) = p # split_on c s"
  by (induction p) auto

lemma join_split [simp]: "join_with c (split_on c s) = s"
proof (induction s)
  case (Cons d ds)
  obtain p ps where s: "split_on c ds = p # ps" by (cases "split_on c ds") auto
  with Cons show ?case by (cases ps) auto
qed simp

section \<open>Numbers\<close>

text \<open>
  A JavaScript number as the guards of the code see it: NaN, an infinity, or a finite value.
  The finite values the model computes with stay in the range where doubles are exact.
\<close>

datatype jsnum = NaN | PosInf | NegInf | Fin rat

definition is_finite :: "jsnum \<Rightarrow> bool" where
  "is_finite n \<longleftrightarrow> (case n of Fin _ \<Rightarrow> True | _ \<Rightarrow> False)"

definition is_integer :: "jsnum \<Rightarrow> bool" where
  "is_integer n \<longleftrightarrow> (case n of Fin q \<Rightarrow> of_int \<lfloor>q\<rfloor> = q | _ \<Rightarrow> False)"

text \<open>The comparisons \<open><\<close> and \<open>>=\<close>: false as soon as one side is NaN.\<close>

fun num_less :: "jsnum \<Rightarrow> jsnum \<Rightarrow> bool" where
  "num_less NaN _ = False"
| "num_less _ NaN = False"
| "num_less (Fin a) (Fin b) = (a < b)"
| "num_less NegInf y = (y \<noteq> NegInf)"
| "num_less x NegInf = False"
| "num_less x PosInf = (x \<noteq> PosInf)"
| "num_less PosInf y = False"

fun num_ge :: "jsnum \<Rightarrow> jsnum \<Rightarrow> bool" where
  "num_ge NaN _ = False"
| "num_ge _ NaN = False"
| "num_ge x y = (\<not> num_less x y)"

definition of_nat_num :: "nat \<Rightarrow> jsnum" where
  "of_nat_num n = Fin (of_nat n)"

lemma is_integer_Fin_of_int [simp]: "is_integer (Fin (of_int i))"
  by (simp add: is_integer_def)

lemma is_integer_Fin_of_nat [simp]: "is_integer (Fin (of_nat n))"
  by (simp add: is_integer_def)

lemma is_integer_obtain:
  assumes "is_integer n" and "\<not> num_less n (Fin 0)"
  obtains k where "n = Fin (of_nat k)"
proof -
  from assms obtain q where q: "n = Fin q" and i: "of_int \<lfloor>q\<rfloor> = q" and p: "0 \<le> q"
    by (auto simp: is_integer_def split: jsnum.splits)
  from p have "0 \<le> \<lfloor>q\<rfloor>" by simp
  then have "of_nat (nat \<lfloor>q\<rfloor>) = q" using i by (metis of_int_of_nat_eq int_nat_eq)
  with q that show thesis by metis
qed

section \<open>Values of an unvalidated body\<close>

text \<open>
  A value of type \<open>unknown\<close>: what a parsed JSON body, a query string or a Prisma argument
  may hold. Objects keep their keys in order and have each key once; \<open>undefined\<close> is a value of
  its own.
\<close>

datatype jsv =
    JUndef
  | JNull
  | JBool bool
  | JNum jsnum
  | JStr jstring
  | JArr "jsv list"
  | JObj "(jstring \<times> jsv) list"

section \<open>Results\<close>

definition rbind :: "'e + 'a \<Rightarrow> ('a \<Rightarrow> 'e + 'b) \<Rightarrow> 'e + 'b" where
  "rbind r k = (case r of Inl e \<Rightarrow> Inl e | Inr x \<Rightarrow> k x)"

lemma rbind_simps [simp]: "rbind (Inl e) k = Inl e" "rbind (Inr x) k = k x"
  by (simp_all add: rbind_def)

lemma rbind_Inr_iff: "rbind r k = Inr y \<longleftrightarrow> (\<exists>x. r = Inr x \<and> k x = Inr y)"
  by (cases r) auto

lemma rbind_Inl_iff: "rbind r k = Inl e \<longleftrightarrow> r = Inl e \<or> (\<exists>x. r = Inr x \<and> k x = Inl e)"
  by (cases r) auto

definition is_ok :: "'e + 'a \<Rightarrow> bool" where
  "is_ok r \<longleftrightarrow> (case r of Inl _ \<Rightarrow> False | Inr _ \<Rightarrow> True)"

lemma is_ok_simps [simp]: "\<not> is_ok (Inl e)" "is_ok (Inr x)"
  by (simp_all add: is_ok_def)

text \<open>Results of a list of computations, up to the first error.\<close>

fun sequence :: "('e + 'a) list \<Rightarrow> 'e + 'a list" where
  "sequence [] = Inr []"
| "sequence (r # rs) = rbind r (\<lambda>x. rbind (sequence rs) (\<lambda>xs. Inr (x # xs)))"

lemma sequence_map_ok: "(\<And>x. x \<in> set xs \<Longrightarrow> f x = Inr (g x)) \<Longrightarrow> sequence (map f xs) = Inr (map g xs)"
  by (induction xs) auto

section \<open>Lists\<close>

lemma find_SomeD: "find P xs = Some x \<Longrightarrow> x \<in> set xs \<and> P x"
  by (auto simp: find_Some_iff)

lemma find_None_D: "find P xs = None \<Longrightarrow> x \<in> set xs \<Longrightarrow> \<not> P x"
  by (auto simp: find_None_iff)

lemma find_cong_set: "(\<And>x. x \<in> set xs \<Longrightarrow> P x = Q x) \<Longrightarrow> find P xs = find Q xs"
  by (induction xs) auto

text \<open>Reading a table through a key that is unique in it.\<close>

lemma find_append: "find P (xs @ ys) = (case find P xs of None \<Rightarrow> find P ys | Some x \<Rightarrow> Some x)"
  by (induction xs) auto

lemma find_unique:
  assumes "x \<in> set xs" and "P x" and "\<And>y. y \<in> set xs \<Longrightarrow> P y \<Longrightarrow> y = x"
  shows "find P xs = Some x"
proof (cases "find P xs")
  case None
  with assms(1,2) show ?thesis by (auto simp: find_None_iff)
next
  case (Some y)
  with assms(3) show ?thesis by (auto dest: find_SomeD)
qed

end
