(* ===== verification/Authz.thy ===== *)
theory Authz
  imports Prelude
begin

text \<open>
  Capabilities and the two decisions every membership operation shares:
  \<open>packages/core-domain/src/auth/capabilities.ts\<close> and
  \<open>packages/core-domain/src/orgs/member-authz.ts\<close>. A role is its list of capability names;
  \<open>full_access\<close> is the wildcard that makes a role an Owner.
\<close>

section \<open>Capabilities\<close>

definition CAPABILITY_MANAGE_MEMBERS :: jstring where
  "CAPABILITY_MANAGE_MEMBERS = js ''manage_members''"

definition CAPABILITY_MANAGE_ORG_SETTINGS :: jstring where
  "CAPABILITY_MANAGE_ORG_SETTINGS = js ''manage_org_settings''"

definition CAPABILITY_FULL_ACCESS :: jstring where
  "CAPABILITY_FULL_ACCESS = js ''full_access''"

lemmas capability_names =
  CAPABILITY_MANAGE_MEMBERS_def CAPABILITY_MANAGE_ORG_SETTINGS_def CAPABILITY_FULL_ACCESS_def

lemma capabilities_distinct [simp]:
  "CAPABILITY_MANAGE_MEMBERS \<noteq> CAPABILITY_FULL_ACCESS"
  "CAPABILITY_FULL_ACCESS \<noteq> CAPABILITY_MANAGE_MEMBERS"
  "CAPABILITY_MANAGE_ORG_SETTINGS \<noteq> CAPABILITY_FULL_ACCESS"
  "CAPABILITY_FULL_ACCESS \<noteq> CAPABILITY_MANAGE_ORG_SETTINGS"
  "CAPABILITY_MANAGE_ORG_SETTINGS \<noteq> CAPABILITY_MANAGE_MEMBERS"
  "CAPABILITY_MANAGE_MEMBERS \<noteq> CAPABILITY_MANAGE_ORG_SETTINGS"
  by (simp_all add: capability_names)

definition hasCapability :: "jstring list \<Rightarrow> jstring \<Rightarrow> bool" where
  "hasCapability capabilities required \<longleftrightarrow>
     List.member capabilities CAPABILITY_FULL_ACCESS \<or> List.member capabilities required"

lemma hasCapability_iff [authz_defs]:
  "hasCapability caps r \<longleftrightarrow> CAPABILITY_FULL_ACCESS \<in> set caps \<or> r \<in> set caps"
  by (simp add: hasCapability_def)

lemma full_access_grants_all: "CAPABILITY_FULL_ACCESS \<in> set caps \<Longrightarrow> hasCapability caps r"
  by (simp add: hasCapability_iff)

lemma hasCapability_mono: "set caps \<subseteq> set caps' \<Longrightarrow> hasCapability caps r \<Longrightarrow> hasCapability caps' r"
  by (auto simp: hasCapability_iff)

section \<open>Owner roles\<close>

definition isOwnerRole :: "jstring list \<Rightarrow> bool" where
  "isOwnerRole capabilities \<longleftrightarrow> List.member capabilities CAPABILITY_FULL_ACCESS"

lemma isOwnerRole_iff [authz_defs]: "isOwnerRole caps \<longleftrightarrow> CAPABILITY_FULL_ACCESS \<in> set caps"
  by (simp add: isOwnerRole_def)

lemma hasCapability_full_iff: "hasCapability caps CAPABILITY_FULL_ACCESS \<longleftrightarrow> isOwnerRole caps"
  by (simp add: hasCapability_iff isOwnerRole_iff)

section \<open>May the actor change this membership?\<close>

record CanAssignRoleInput =
  car_actorCapabilities :: "jstring list"
  car_targetIsOwner :: bool
  car_newRoleIsOwner :: bool

definition canAssignRole :: "CanAssignRoleInput \<Rightarrow> bool" where
  "canAssignRole i =
     (if car_targetIsOwner i \<or> car_newRoleIsOwner i
      then hasCapability (car_actorCapabilities i) CAPABILITY_FULL_ACCESS
      else hasCapability (car_actorCapabilities i) CAPABILITY_MANAGE_MEMBERS)"

lemma canAssignRole_iff [authz_defs]:
  "canAssignRole \<lparr>car_actorCapabilities = caps, car_targetIsOwner = t, car_newRoleIsOwner = n\<rparr> \<longleftrightarrow>
     hasCapability caps CAPABILITY_MANAGE_MEMBERS \<and> (t \<or> n \<longrightarrow> isOwnerRole caps)"
  by (auto simp: canAssignRole_def hasCapability_iff isOwnerRole_iff)

lemma canAssignRole_owner_only:
  "canAssignRole i \<Longrightarrow> car_targetIsOwner i \<or> car_newRoleIsOwner i \<Longrightarrow>
     isOwnerRole (car_actorCapabilities i)"
  by (simp add: canAssignRole_def hasCapability_full_iff)

lemma canAssignRole_floor:
  "canAssignRole i \<Longrightarrow> hasCapability (car_actorCapabilities i) CAPABILITY_MANAGE_MEMBERS"
  by (auto simp: canAssignRole_def hasCapability_iff split: if_splits)

end
