(* ===== verification/OwnerInvariant.thy ===== *)
theory OwnerInvariant
  imports Authz
begin

text \<open>
  \<open>packages/core-domain/src/orgs/owner-invariant.ts\<close>: who would still be an active Owner after
  a membership change, and the guard that refuses a change that leaves nobody. The loop of
  \<open>activeOwnersAfter\<close> is kept with its two accumulators; the abstract specification is the
  change applied to the membership table itself (\<open>apply_change\<close>).
\<close>

section \<open>Data\<close>

datatype MembershipStatus = MActive | MInvited | MRevoked

record OwnerMembership =
  om_userId :: jstring
  om_status :: MembershipStatus
  om_capabilities :: "jstring list"

datatype OwnerChange = RoleChange jstring "jstring list" | Revoke jstring

fun change_userId :: "OwnerChange \<Rightarrow> jstring" where
  "change_userId (RoleChange u _) = u"
| "change_userId (Revoke u) = u"

datatype LastOwnerError = LAST_OWNER_error

section \<open>The decision\<close>

text \<open>One iteration: is the row skipped by one of the source's \<open>continue\<close> statements?\<close>

definition owner_row_kept :: "OwnerChange \<Rightarrow> OwnerMembership \<Rightarrow> bool" where
  "owner_row_kept change m \<longleftrightarrow>
     om_status m = MActive \<and> isOwnerRole (om_capabilities m) \<and>
     (om_userId m = change_userId change \<longrightarrow>
        (case change of Revoke _ \<Rightarrow> False | RoleChange _ caps \<Rightarrow> isOwnerRole caps))"

fun owners_loop ::
    "OwnerChange \<Rightarrow> OwnerMembership list \<Rightarrow> jstring list \<Rightarrow> jstring list \<Rightarrow> jstring list \<times> jstring list" where
  "owners_loop change [] remaining seen = (remaining, seen)"
| "owners_loop change (m # ms) remaining seen =
     (if \<not> owner_row_kept change m then owners_loop change ms remaining seen
      else if List.member seen (om_userId m) then owners_loop change ms remaining seen
      else owners_loop change ms (remaining @ [om_userId m]) (om_userId m # seen))"

definition activeOwnersAfter :: "OwnerMembership list \<Rightarrow> OwnerChange \<Rightarrow> jstring list" where
  "activeOwnersAfter owners change =
     (let targetIsKnownOwnerRow = list_ex (\<lambda>m. om_userId m = change_userId change) owners;
          (remaining, seen) = owners_loop change owners [] []
      in case change of
           Revoke _ \<Rightarrow> remaining
         | RoleChange u caps \<Rightarrow>
             if \<not> targetIsKnownOwnerRow \<and> isOwnerRole caps \<and> \<not> List.member seen u
             then remaining @ [u] else remaining)"

definition assertOwnerRemains ::
    "OwnerMembership list \<Rightarrow> OwnerChange \<Rightarrow> LastOwnerError + unit" where
  "assertOwnerRemains owners change =
     (if length (activeOwnersAfter owners change) = 0 then Inl LAST_OWNER_error else Inr ())"

section \<open>What the loop computes\<close>

lemma owners_loop_seen:
  "set (snd (owners_loop change ms remaining seen)) =
     set seen \<union> om_userId ` {m \<in> set ms. owner_row_kept change m}"
  by (induction change ms remaining seen rule: owners_loop.induct) auto

lemma owners_loop_agree:
  "set seen = set remaining \<Longrightarrow>
     set (fst (owners_loop change ms remaining seen)) = set (snd (owners_loop change ms remaining seen))"
  by (induction change ms remaining seen rule: owners_loop.induct) auto

lemma owners_loop_distinct:
  "set seen = set remaining \<Longrightarrow> distinct remaining \<Longrightarrow>
     distinct (fst (owners_loop change ms remaining seen))"
  by (induction change ms remaining seen rule: owners_loop.induct) auto

lemma owners_loop_start:
  obtains r s where "owners_loop change ms [] [] = (r, s)" and "set r = set s" and "distinct r"
    and "set r = om_userId ` {m \<in> set ms. owner_row_kept change m}"
  using owners_loop_seen [of change ms "[]" "[]"] owners_loop_agree [of "[]" "[]" change ms]
    owners_loop_distinct [of "[]" "[]" change ms]
  by (cases "owners_loop change ms [] []") auto

definition promotes :: "OwnerMembership list \<Rightarrow> OwnerChange \<Rightarrow> bool" where
  "promotes owners change \<longleftrightarrow>
     (case change of Revoke _ \<Rightarrow> False
      | RoleChange u caps \<Rightarrow> (\<forall>m \<in> set owners. om_userId m \<noteq> u) \<and> isOwnerRole caps)"

lemma activeOwnersAfter_set:
  "set (activeOwnersAfter owners change) =
     om_userId ` {m \<in> set owners. owner_row_kept change m} \<union>
     (if promotes owners change then {change_userId change} else {})"
proof -
  obtain r s where e: "owners_loop change owners [] [] = (r, s)" and rs: "set r = set s"
    and r: "set r = om_userId ` {m \<in> set owners. owner_row_kept change m}"
    by (rule owners_loop_start)
  show ?thesis
  proof (cases change)
    case (Revoke u)
    with e r show ?thesis by (simp add: activeOwnersAfter_def promotes_def)
  next
    case (RoleChange u caps)
    then show ?thesis
      using e r rs by (auto simp: activeOwnersAfter_def promotes_def list_ex_iff)
  qed
qed

lemma activeOwnersAfter_distinct: "distinct (activeOwnersAfter owners change)"
proof -
  obtain r s where e: "owners_loop change owners [] [] = (r, s)" and rs: "set r = set s"
    and d: "distinct r" by (rule owners_loop_start)
  then show ?thesis by (auto simp: activeOwnersAfter_def split: OwnerChange.splits)
qed

lemma assertOwnerRemains_ok_iff:
  "assertOwnerRemains owners change = Inr () \<longleftrightarrow> set (activeOwnersAfter owners change) \<noteq> {}"
  by (simp add: assertOwnerRemains_def)

section \<open>Specification: the change applied to the table\<close>

definition apply_change :: "OwnerChange \<Rightarrow> OwnerMembership list \<Rightarrow> OwnerMembership list" where
  "apply_change change =
     map (\<lambda>m. if om_userId m = change_userId change
              then (case change of Revoke _ \<Rightarrow> m\<lparr>om_status := MRevoked\<rparr>
                    | RoleChange _ caps \<Rightarrow> m\<lparr>om_capabilities := caps\<rparr>)
              else m)"

definition active_owner_row :: "OwnerMembership \<Rightarrow> bool" where
  "active_owner_row m \<longleftrightarrow> om_status m = MActive \<and> isOwnerRole (om_capabilities m)"

definition active_owners :: "OwnerMembership list \<Rightarrow> jstring set" where
  "active_owners ms = om_userId ` {m \<in> set ms. active_owner_row m}"

definition owner_rows :: "OwnerMembership list \<Rightarrow> OwnerMembership list" where
  "owner_rows ms = filter (\<lambda>m. isOwnerRole (om_capabilities m)) ms"

lemma active_owner_row_change:
  "active_owner_row (hd (apply_change change [m])) \<longleftrightarrow>
     (if om_userId m = change_userId change
      then (case change of Revoke _ \<Rightarrow> False
            | RoleChange _ caps \<Rightarrow> om_status m = MActive \<and> isOwnerRole caps)
      else active_owner_row m)"
  by (auto simp: apply_change_def active_owner_row_def split: OwnerChange.splits)

lemma active_owners_apply_change:
  "active_owners (apply_change change ms) =
     om_userId ` {m \<in> set ms. active_owner_row (hd (apply_change change [m]))}"
proof -
  have "om_userId (hd (apply_change change [m])) = om_userId m" for m
    by (auto simp: apply_change_def split: OwnerChange.splits)
  moreover have "set (apply_change change ms) = (\<lambda>m. hd (apply_change change [m])) ` set ms"
    by (simp add: apply_change_def)
  ultimately show ?thesis
    unfolding active_owners_def by (auto simp: image_iff) (metis+)
qed

text \<open>
  The refinement: on the Owner rows of a table whose user ids are unique and whose target is
  active, the loop answers exactly the active Owners of the changed table.
\<close>

lemma activeOwnersAfter_refines:
  assumes uniq: "distinct (map om_userId ms)"
    and target: "t \<in> set ms" "om_userId t = change_userId change" "om_status t = MActive"
  shows "set (activeOwnersAfter (owner_rows ms) change) = active_owners (apply_change change ms)"
proof -
  have only: "m = t" if "m \<in> set ms" "om_userId m = change_userId change" for m
    using uniq target(1,2) that by (metis (no_types) distinct_map inj_onD)
  show ?thesis
  proof (cases change)
    case (Revoke u)
    show ?thesis
      unfolding activeOwnersAfter_set active_owners_apply_change active_owner_row_change
      by (auto simp: Revoke promotes_def owner_row_kept_def owner_rows_def active_owner_row_def)
  next
    case (RoleChange u caps)
    have t: "om_userId t = u" using target(2) RoleChange by simp
    have kept: "owner_row_kept change m \<longleftrightarrow>
        active_owner_row m \<and> (om_userId m = u \<longrightarrow> isOwnerRole caps)" for m
      by (auto simp: RoleChange owner_row_kept_def active_owner_row_def)
    have changed: "active_owner_row (hd (apply_change change [m])) \<longleftrightarrow>
        (if om_userId m = u then isOwnerRole caps else active_owner_row m)" if "m \<in> set ms" for m
      unfolding active_owner_row_change
      using only [OF that] target(3) t by (auto simp: RoleChange)
    have owner_row: "(\<exists>m \<in> set (owner_rows ms). om_userId m = u) \<longleftrightarrow>
        (\<exists>m \<in> set ms. active_owner_row m \<and> om_userId m = u)"
    proof
      assume "\<exists>m \<in> set (owner_rows ms). om_userId m = u"
      then obtain m where "m \<in> set ms" "om_userId m = u" "isOwnerRole (om_capabilities m)"
        by (auto simp: owner_rows_def)
      moreover from this only have "om_status m = MActive" using target(3) t RoleChange by auto
      ultimately show "\<exists>m \<in> set ms. active_owner_row m \<and> om_userId m = u"
        by (auto simp: active_owner_row_def)
    qed (auto simp: owner_rows_def active_owner_row_def)
    have rows: "{m \<in> set (owner_rows ms). owner_row_kept change m} =
        {m \<in> set ms. active_owner_row m \<and> (om_userId m = u \<longrightarrow> isOwnerRole caps)}"
      by (auto simp: kept owner_rows_def active_owner_row_def)
    have prom: "promotes (owner_rows ms) change \<longleftrightarrow>
        isOwnerRole caps \<and> \<not> (\<exists>m \<in> set ms. active_owner_row m \<and> om_userId m = u)"
      by (auto simp: RoleChange promotes_def simp flip: owner_row)
    have "set (activeOwnersAfter (owner_rows ms) change) =
        om_userId ` {m \<in> set ms. active_owner_row m \<and> om_userId m \<noteq> u} \<union>
        (if isOwnerRole caps then {u} else {})"
      unfolding activeOwnersAfter_set rows prom by (auto simp: RoleChange)
    also have "\<dots> = active_owners (apply_change change ms)"
      unfolding active_owners_apply_change using target(1) t
      by (auto simp: changed split: if_splits)
    finally show ?thesis .
  qed
qed

section \<open>The interface of the guarded writers\<close>

text \<open>
  What an operation that runs behind \<open>assertOwnerRemains\<close> relies on: a view of its state as a
  membership table, the change a write \<open>w\<close> stands for, and that an admissible write acts on the
  view as \<open>apply_change\<close>. Each such write keeps at least one active Owner, whatever the state it
  starts from.
\<close>

locale owner_guarded =
  fixes view :: "'s \<Rightarrow> OwnerMembership list"
    and writes :: "'w \<Rightarrow> 's \<Rightarrow> 's"
    and change :: "'w \<Rightarrow> 's \<Rightarrow> OwnerChange"
    and admissible :: "'w \<Rightarrow> 's \<Rightarrow> bool"
    and wf :: "'s \<Rightarrow> bool"
  assumes view_distinct: "wf s \<Longrightarrow> distinct (map om_userId (view s))"
    and view_writes: "wf s \<Longrightarrow> admissible w s \<Longrightarrow> view (writes w s) = apply_change (change w s) (view s)"
begin

lemma guarded_write_owners:
  assumes "wf s" and "admissible w s"
    and "t \<in> set (view s)" "om_userId t = change_userId (change w s)" "om_status t = MActive"
  shows "set (activeOwnersAfter (owner_rows (view s)) (change w s)) = active_owners (view (writes w s))"
  using assms by (simp add: view_writes activeOwnersAfter_refines [OF view_distinct])

lemma guarded_write_keeps_owner:
  assumes "wf s" and "admissible w s"
    and "t \<in> set (view s)" "om_userId t = change_userId (change w s)" "om_status t = MActive"
    and "assertOwnerRemains (owner_rows (view s)) (change w s) = Inr ()"
  shows "active_owners (view (writes w s)) \<noteq> {}"
  using assms by (simp add: assertOwnerRemains_ok_iff guarded_write_owners)

lemma guard_exact:
  assumes "wf s" and "admissible w s"
    and "t \<in> set (view s)" "om_userId t = change_userId (change w s)" "om_status t = MActive"
  shows "assertOwnerRemains (owner_rows (view s)) (change w s) = Inl LAST_OWNER_error \<longleftrightarrow>
    active_owners (view (writes w s)) = {}"
  using guarded_write_owners [OF assms] by (simp add: assertOwnerRemains_def flip: set_empty)

end

interpretation table: owner_guarded "\<lambda>ms. ms" apply_change "\<lambda>c ms. c" "\<lambda>c ms. True"
    "\<lambda>ms. distinct (map om_userId ms)"
  by unfold_locales auto

end
