(* ===== verification/AdminReset.thy ===== *)
theory AdminReset
  imports OwnerInvariant
begin

text \<open>
  \<open>packages/core-domain/src/orgs/admin-reset-authz.ts\<close>: may this admin reset this member's
  password? A refusal is a list of reasons; the order of the checks is the source's.
\<close>

section \<open>Data\<close>

datatype AdminResetRefusal =
    Caller_not_authorized
  | Target_not_active_member
  | Target_active_in_other_org
  | Target_is_owner
  | Caller_is_target

text \<open>\<open>arm_status = None\<close> is the source's \<open>status: null\<close>: no membership row at all.\<close>

record AdminResetMembershipFacts =
  arm_status :: "MembershipStatus option"
  arm_capabilities :: "jstring list"

record AdminResetInput =
  ari_caller :: AdminResetMembershipFacts
  ari_target :: AdminResetMembershipFacts
  ari_targetActiveMembershipsInOtherOrgs :: nat
  ari_targetUserExists :: bool
  ari_callerIsTarget :: bool

datatype AdminResetDecision = Reset_allowed | Reset_refused "AdminResetRefusal list"

section \<open>The gate\<close>

definition isAdminResetCallerAuthorized :: "AdminResetMembershipFacts \<Rightarrow> bool" where
  "isAdminResetCallerAuthorized c \<longleftrightarrow>
     arm_status c = Some MActive \<and> hasCapability (arm_capabilities c) CAPABILITY_MANAGE_MEMBERS"

definition decideAdminReset :: "AdminResetInput \<Rightarrow> AdminResetDecision" where
  "decideAdminReset i =
     (if \<not> isAdminResetCallerAuthorized (ari_caller i) then Reset_refused [Caller_not_authorized]
      else if \<not> (ari_targetUserExists i \<and> arm_status (ari_target i) = Some MActive)
      then Reset_refused [Target_not_active_member]
      else
        (let r1 = (if ari_callerIsTarget i then [Caller_is_target] else []);
             r2 = (if ari_targetActiveMembershipsInOtherOrgs i > 0
                   then r1 @ [Target_active_in_other_org] else r1);
             targetIsOwner = isOwnerRole (arm_capabilities (ari_target i));
             r3 = (if targetIsOwner \<and>
                      \<not> canAssignRole \<lparr>car_actorCapabilities = arm_capabilities (ari_caller i),
                                       car_targetIsOwner = True, car_newRoleIsOwner = False\<rparr>
                   then r2 @ [Target_is_owner] else r2)
         in if length r3 > 0 then Reset_refused r3 else Reset_allowed))"

section \<open>What it decides\<close>

lemma isAdminResetCallerAuthorized_iff [authz_defs]:
  "isAdminResetCallerAuthorized c \<longleftrightarrow>
     arm_status c = Some MActive \<and> hasCapability (arm_capabilities c) CAPABILITY_MANAGE_MEMBERS"
  by (simp add: isAdminResetCallerAuthorized_def)

lemma decideAdminReset_caller:
  "\<not> isAdminResetCallerAuthorized (ari_caller i) \<Longrightarrow>
     decideAdminReset i = Reset_refused [Caller_not_authorized]"
  by (simp add: decideAdminReset_def)

lemma decideAdminReset_cases:
  assumes "isAdminResetCallerAuthorized (ari_caller i)"
    and "ari_targetUserExists i" and "arm_status (ari_target i) = Some MActive"
  shows "decideAdminReset i = Reset_refused rs \<longleftrightarrow>
     rs \<noteq> [] \<and>
     rs = (if ari_callerIsTarget i then [Caller_is_target] else []) @
          (if ari_targetActiveMembershipsInOtherOrgs i > 0 then [Target_active_in_other_org] else []) @
          (if isOwnerRole (arm_capabilities (ari_target i)) \<and>
              \<not> isOwnerRole (arm_capabilities (ari_caller i)) then [Target_is_owner] else [])"
  using assms by (auto simp: decideAdminReset_def canAssignRole_def hasCapability_full_iff)

text \<open>
  The whole admin-reset gate, as an equivalence. A reset is allowed exactly when the caller
  is an active member holding manage_members, the target user exists and is an active member,
  the caller is not the target, the target is active in no other organization, and a target who
  is an Owner is only reset by an Owner.
\<close>

theorem admin_reset_allowed_iff:
  "decideAdminReset i = Reset_allowed \<longleftrightarrow>
     arm_status (ari_caller i) = Some MActive \<and>
     hasCapability (arm_capabilities (ari_caller i)) CAPABILITY_MANAGE_MEMBERS \<and>
     ari_targetUserExists i \<and> arm_status (ari_target i) = Some MActive \<and>
     \<not> ari_callerIsTarget i \<and> ari_targetActiveMembershipsInOtherOrgs i = 0 \<and>
     (\<not> isOwnerRole (arm_capabilities (ari_target i)) \<or>
        isOwnerRole (arm_capabilities (ari_caller i)))"
  by (auto simp: decideAdminReset_def canAssignRole_def hasCapability_full_iff authz_defs)

definition reset_allowed_example :: AdminResetInput where
  "reset_allowed_example =
     \<lparr>ari_caller = \<lparr>arm_status = Some MActive, arm_capabilities = [js ''manage_members'']\<rparr>,
      ari_target = \<lparr>arm_status = Some MActive, arm_capabilities = []\<rparr>,
      ari_targetActiveMembershipsInOtherOrgs = 0, ari_targetUserExists = True,
      ari_callerIsTarget = False\<rparr>"

lemma admin_reset_allowed_iff_witness: "decideAdminReset reset_allowed_example = Reset_allowed"
  unfolding admin_reset_allowed_iff
  by (simp add: reset_allowed_example_def authz_defs capability_names)

text \<open>
  No refusal is swallowed by another one. For an authorized caller and an active target,
  the multi-organization and the Owner-target refusals are reported together with every other
  refusal that applies; each is listed exactly when its own condition holds.
\<close>

theorem admin_reset_refusals_complete:
  assumes "isAdminResetCallerAuthorized (ari_caller i)"
    and "ari_targetUserExists i" and "arm_status (ari_target i) = Some MActive"
    and "decideAdminReset i = Reset_refused rs"
  shows "(Target_active_in_other_org \<in> set rs \<longleftrightarrow> ari_targetActiveMembershipsInOtherOrgs i > 0) \<and>
     (Target_is_owner \<in> set rs \<longleftrightarrow>
        isOwnerRole (arm_capabilities (ari_target i)) \<and>
        \<not> isOwnerRole (arm_capabilities (ari_caller i))) \<and>
     (Caller_is_target \<in> set rs \<longleftrightarrow> ari_callerIsTarget i) \<and> distinct rs"
  using assms(4) unfolding decideAdminReset_cases [OF assms(1-3)] by auto

definition reset_example :: AdminResetInput where
  "reset_example =
     \<lparr>ari_caller = \<lparr>arm_status = Some MActive, arm_capabilities = [js ''manage_members'']\<rparr>,
      ari_target = \<lparr>arm_status = Some MActive, arm_capabilities = [js ''full_access'']\<rparr>,
      ari_targetActiveMembershipsInOtherOrgs = 2, ari_targetUserExists = True,
      ari_callerIsTarget = False\<rparr>"

theorem admin_reset_refusals_complete_witness:
  "decideAdminReset reset_example = Reset_refused [Target_active_in_other_org, Target_is_owner] \<and>
     Target_is_owner \<in> set [Target_active_in_other_org, Target_is_owner]"
proof -
  have a: "isAdminResetCallerAuthorized (ari_caller reset_example)"
    "ari_targetUserExists reset_example" "arm_status (ari_target reset_example) = Some MActive"
    by (simp_all add: reset_example_def authz_defs capability_names)
  have d: "decideAdminReset reset_example = Reset_refused [Target_active_in_other_org, Target_is_owner]"
    by (simp add: decideAdminReset_def reset_example_def canAssignRole_def authz_defs capability_names)
  from d admin_reset_refusals_complete [OF a d] show ?thesis
    by (simp add: reset_example_def authz_defs capability_names)
qed

end
