(* ===== verification/Credentials.thy ===== *)
theory Credentials
  imports Prelude
begin

text \<open>
  The pure authentication policy of \<open>packages/core-domain/src/auth\<close>: email normalization and
  shape (\<open>email.ts\<close>), the password policy with the breached list (\<open>password-policy.ts\<close>,
  \<open>common-passwords.ts\<close>), the throttle curve (\<open>backoff.ts\<close>) and the access-token claims
  (\<open>access-claims.ts\<close>).

  \<open>lower\<close> is \<open>String.prototype.toLowerCase\<close>, whose Unicode case table is data of the runtime:
  the definitions take it as an argument. The lines of the breached list are the argument
  \<open>raw\<close>, the string \<open>COMMON_PASSWORDS_RAW\<close> of the generated data module.
\<close>

section \<open>Lower case\<close>

definition ascii_lower :: "jstring \<Rightarrow> jstring" where
  "ascii_lower = map (\<lambda>c. if 65 \<le> c \<and> c \<le> 90 then c + 32 else c)"

text \<open>
  What the code relies on of \<open>toLowerCase\<close>: a lower-cased string is its own lower case, and
  white space is neither created nor removed at the ends. Both hold of the Unicode mapping and
  of its restriction to ASCII.
\<close>

definition lower_laws :: "(jstring \<Rightarrow> jstring) \<Rightarrow> bool" where
  "lower_laws lower \<longleftrightarrow> (\<forall>s. lower (lower s) = lower s) \<and> (\<forall>s. trim (lower s) = lower (trim s))"

lemma dropWhile_map_same: "(\<And>c. P (f c) = P c) \<Longrightarrow> dropWhile P (map f s) = map f (dropWhile P s)"
  by (induction s) auto

lemma ascii_lower_laws: "lower_laws ascii_lower"
proof -
  let ?f = "\<lambda>c::nat. if 65 \<le> c \<and> c \<le> 90 then c + 32 else c"
  have "is_space (?f c) = is_space c" for c by (simp add: is_space_def)
  then have "trim (map ?f s) = map ?f (trim s)" for s
    by (simp only: trim_def dropWhile_map_same rev_map)
  then show ?thesis by (simp add: lower_laws_def ascii_lower_def)
qed

section \<open>Email\<close>

datatype IdentifierType = Email_identifier

record Identifier =
  ident_type :: IdentifierType
  ident_value :: jstring

definition normalizeEmail :: "(jstring \<Rightarrow> jstring) \<Rightarrow> jstring \<Rightarrow> jstring" where
  "normalizeEmail lower raw = lower (trim raw)"

definition char_at :: nat where "char_at = 64"
definition char_dot :: nat where "char_dot = 46"

definition isValidEmailShape :: "jstring \<Rightarrow> bool" where
  "isValidEmailShape normalized =
     (if length normalized = 0 \<or> length normalized > 254 then False
      else if list_ex is_space normalized then False
      else (case index_of char_at normalized of
              None \<Rightarrow> False
            | Some atPos \<Rightarrow>
                if atPos = 0 then False
                else (let domain = drop (Suc atPos) normalized in
                  if index_of char_at domain \<noteq> None then False
                  else if length domain = 0 then False
                  else if \<not> List.member domain char_dot then False
                  else if hd domain = char_dot \<or> last domain = char_dot then False
                  else True)))"

definition emailIdentifier :: "(jstring \<Rightarrow> jstring) \<Rightarrow> jstring \<Rightarrow> Identifier" where
  "emailIdentifier lower rawEmail =
     \<lparr>ident_type = Email_identifier, ident_value = normalizeEmail lower rawEmail\<rparr>"

lemma normalizeEmail_idem:
  "lower_laws lower \<Longrightarrow> normalizeEmail lower (normalizeEmail lower s) = normalizeEmail lower s"
  by (simp add: normalizeEmail_def lower_laws_def)

lemma normalizeEmail_trimmed:
  assumes "lower_laws lower"
  shows "trim (normalizeEmail lower s) = normalizeEmail lower s"
  using assms by (simp add: normalizeEmail_def lower_laws_def)

lemma isValidEmailShape_split:
  assumes "isValidEmailShape s"
  obtains local domain where "s = local @ char_at # domain" and "local \<noteq> []" and "domain \<noteq> []"
    and "char_at \<notin> set local" and "char_at \<notin> set domain" and "char_dot \<in> set domain"
    and "hd domain \<noteq> char_dot" and "last domain \<noteq> char_dot"
proof -
  from assms obtain atPos where at: "index_of char_at s = Some atPos"
    by (auto simp: isValidEmailShape_def split: if_splits option.splits)
  from index_of_SomeD [OF at] have lt: "atPos < length s" and c: "s ! atPos = char_at"
    and nt: "char_at \<notin> set (take atPos s)" by auto
  from lt c have s: "s = take atPos s @ char_at # drop (Suc atPos) s" by (metis id_take_nth_drop)
  from assms at have "atPos \<noteq> 0" "index_of char_at (drop (Suc atPos) s) = None"
    "drop (Suc atPos) s \<noteq> []" "char_dot \<in> set (drop (Suc atPos) s)"
    "hd (drop (Suc atPos) s) \<noteq> char_dot" "last (drop (Suc atPos) s) \<noteq> char_dot"
    by (auto simp: isValidEmailShape_def Let_def split: if_splits)
  moreover from this lt have "take atPos s \<noteq> []" by auto
  ultimately show thesis using that [OF s] nt by simp
qed

lemma isValidEmailShape_intro:
  assumes "s = local @ char_at # domain" and "local \<noteq> []" and "domain \<noteq> []"
    and "char_at \<notin> set local" and "char_at \<notin> set domain" and "char_dot \<in> set domain"
    and "hd domain \<noteq> char_dot" and "last domain \<noteq> char_dot"
    and "length s \<le> 254" and "\<forall>c \<in> set s. \<not> is_space c"
  shows "isValidEmailShape s"
proof -
  have i: "index_of c (xs @ c # ys) = Some (length xs)" if "c \<notin> set xs" for c :: nat and xs ys
    using that by (induction xs) auto
  have "index_of char_at s = Some (length local)" using i assms(1,4) by simp
  moreover have "drop (Suc (length local)) s = domain" using assms(1) by simp
  moreover have "\<not> list_ex is_space s" using assms(10) by (auto simp: list_ex_iff)
  ultimately show ?thesis
    using assms(2,3,5-9) assms(1) by (simp add: isValidEmailShape_def Let_def)
qed

text \<open>
  The shape check accepts exactly the addresses of at most 254 code units without white
  space that have one at-sign, a non-empty local part, and a domain with a dot that is neither
  its first nor its last character.
\<close>

theorem email_shape_exact:
  "isValidEmailShape s \<longleftrightarrow>
     length s \<le> 254 \<and> (\<nexists>c. c \<in> set s \<and> is_space c) \<and>
     (\<exists>local domain. s = local @ char_at # domain \<and> local \<noteq> [] \<and> domain \<noteq> [] \<and>
        char_at \<notin> set local \<and> char_at \<notin> set domain \<and> char_dot \<in> set domain \<and>
        hd domain \<noteq> char_dot \<and> last domain \<noteq> char_dot)"
  (is "?L \<longleftrightarrow> ?R")
proof
  assume v: ?L
  then have "length s \<le> 254" "\<not> list_ex is_space s"
    by (auto simp: isValidEmailShape_def split: if_splits)
  with isValidEmailShape_split [OF v] show ?R by (auto simp: list_ex_iff) metis
next
  assume ?R
  then show ?L by (auto intro!: isValidEmailShape_intro)
qed

section \<open>Password policy\<close>

definition PASSWORD_MIN_LENGTH :: nat where "PASSWORD_MIN_LENGTH = 8"
definition PASSWORD_MAX_LENGTH :: nat where "PASSWORD_MAX_LENGTH = 128"

datatype PasswordPolicyError = PASSWORD_TOO_SHORT | PASSWORD_TOO_LONG | PASSWORD_BREACHED

definition loadCommonPasswords :: "jstring \<Rightarrow> jstring list" where
  "loadCommonPasswords raw = remdups (filter (\<lambda>p. length p > 0) (map trim (split_on 10 raw)))"

definition isBreachedPassword :: "(jstring \<Rightarrow> jstring) \<Rightarrow> jstring list \<Rightarrow> jstring \<Rightarrow> bool" where
  "isBreachedPassword lower breachedSet password = List.member breachedSet (lower password)"

text \<open>
  \<open>isBreached\<close> is the option of the same name: \<open>None\<close> when the caller passes none, and then the
  pinned list decides.
\<close>

definition checkPasswordPolicy ::
    "(jstring \<Rightarrow> jstring) \<Rightarrow> jstring \<Rightarrow> jstring \<Rightarrow> (jstring \<Rightarrow> bool) option \<Rightarrow> PasswordPolicyError + unit"
  where
  "checkPasswordPolicy lower raw password isBreached =
     (let len = length (code_points password) in
      if len < PASSWORD_MIN_LENGTH then Inl PASSWORD_TOO_SHORT
      else if len > PASSWORD_MAX_LENGTH then Inl PASSWORD_TOO_LONG
      else (let breached = (case isBreached of
                  Some f \<Rightarrow> f
                | None \<Rightarrow> isBreachedPassword lower (loadCommonPasswords raw))
            in if breached password then Inl PASSWORD_BREACHED else Inr ()))"

lemma loadCommonPasswords_iff:
  "p \<in> set (loadCommonPasswords raw) \<longleftrightarrow> p \<noteq> [] \<and> (\<exists>l \<in> set (split_on 10 raw). p = trim l)"
  by (auto simp: loadCommonPasswords_def)

text \<open>
  The policy, on every branch. A password is accepted exactly when it has 8 to 128 code
  points and its lower case is no line of the breached list; too short and too long take
  precedence over breached, whatever the list says.
\<close>

theorem password_policy_exact:
  "(checkPasswordPolicy lower raw p None = Inr () \<longleftrightarrow>
      8 \<le> length (code_points p) \<and> length (code_points p) \<le> 128 \<and>
      (lower p = [] \<or> lower p \<notin> trim ` set (split_on 10 raw))) \<and>
   (checkPasswordPolicy lower raw p None = Inl PASSWORD_TOO_SHORT \<longleftrightarrow> length (code_points p) < 8) \<and>
   (checkPasswordPolicy lower raw p None = Inl PASSWORD_TOO_LONG \<longleftrightarrow> 128 < length (code_points p)) \<and>
   (checkPasswordPolicy lower raw p None = Inl PASSWORD_BREACHED \<longleftrightarrow>
      8 \<le> length (code_points p) \<and> length (code_points p) \<le> 128 \<and>
      lower p \<noteq> [] \<and> lower p \<in> trim ` set (split_on 10 raw))"
proof -
  have m: "isBreachedPassword lower (loadCommonPasswords raw) p \<longleftrightarrow>
      lower p \<noteq> [] \<and> lower p \<in> trim ` set (split_on 10 raw)"
    by (auto simp: isBreachedPassword_def loadCommonPasswords_iff)
  show ?thesis
    by (auto simp: checkPasswordPolicy_def Let_def PASSWORD_MIN_LENGTH_def PASSWORD_MAX_LENGTH_def m)
qed

lemma password_policy_exact_witness:
  "checkPasswordPolicy ascii_lower [] (replicate 9 97) None = Inr ()"
proof -
  have c: "code_points (replicate 9 97) = replicate 9 [97]"
    by (subst code_points_plain) (simp_all add: is_high_surrogate_def)
  have "ascii_lower (replicate 9 97) = replicate 9 97" by (simp add: ascii_lower_def)
  then show ?thesis unfolding password_policy_exact [THEN conjunct1] by (simp add: c)
qed

section \<open>Backoff curve\<close>

definition BACKOFF_THRESHOLD :: nat where "BACKOFF_THRESHOLD = 5"
definition BACKOFF_BASE_SECONDS :: nat where "BACKOFF_BASE_SECONDS = 1"
definition BACKOFF_CEILING_SECONDS :: nat where "BACKOFF_CEILING_SECONDS = 15 * 60"

datatype RangeError = RangeError

text \<open>The computation behind the guard, on a failure count that passed it.\<close>

definition backoff_window :: "nat \<Rightarrow> nat" where
  "backoff_window failureCount =
     (if failureCount < BACKOFF_THRESHOLD then 0
      else (let exponent = failureCount - BACKOFF_THRESHOLD;
                safeExponent = min exponent 40;
                raw = BACKOFF_BASE_SECONDS * 2 ^ safeExponent
            in min raw BACKOFF_CEILING_SECONDS))"

definition backoffSeconds :: "jsnum \<Rightarrow> RangeError + nat" where
  "backoffSeconds failureCount =
     (if \<not> is_integer failureCount \<or> num_less failureCount (Fin 0) then Inl RangeError
      else (case failureCount of
              Fin q \<Rightarrow> Inr (backoff_window (nat \<lfloor>q\<rfloor>))
            | _ \<Rightarrow> Inl RangeError))"

definition isBackedOff :: "jsnum \<Rightarrow> bool" where
  "isBackedOff failureCount = num_ge failureCount (of_nat_num BACKOFF_THRESHOLD)"

lemma backoffSeconds_nat [simp]: "backoffSeconds (of_nat_num n) = Inr (backoff_window n)"
  by (simp add: backoffSeconds_def of_nat_num_def)

lemma backoff_window_unclamped:
  "backoff_window n = (if n < 5 then 0 else min (2 ^ (n - 5)) 900)"
proof (cases "n - 5 \<le> 40")
  case False
  then have "(2::nat) ^ 40 \<le> 2 ^ (n - 5)" by (intro power_increasing) auto
  then have "900 \<le> (2::nat) ^ (n - 5)" by (rule order_trans [rotated]) simp
  with False show ?thesis
    by (simp add: backoff_window_def BACKOFF_THRESHOLD_def BACKOFF_BASE_SECONDS_def
        BACKOFF_CEILING_SECONDS_def Let_def)
qed (simp add: backoff_window_def BACKOFF_THRESHOLD_def BACKOFF_BASE_SECONDS_def
    BACKOFF_CEILING_SECONDS_def Let_def)

lemma backoff_window_mono: "m \<le> n \<Longrightarrow> backoff_window m \<le> backoff_window n"
proof -
  assume mn: "m \<le> n"
  then have "(2::nat) ^ (m - 5) \<le> 2 ^ (n - 5)" by (intro power_increasing) auto
  with mn show ?thesis by (auto simp: backoff_window_unclamped intro: min.coboundedI1)
qed

lemma backoff_window_le: "backoff_window n \<le> 900"
  by (simp add: backoff_window_unclamped)

lemma backoff_window_pos: "0 < backoff_window n \<longleftrightarrow> 5 \<le> n"
  by (simp add: backoff_window_unclamped)

text \<open>
  The throttle curve. On every count the exponent guard changes nothing: the window is 0
  below five failures and then the doubling curve clamped at 900 seconds; it never shrinks when
  failures grow, never exceeds 15 minutes, and a count that is NaN, infinite, negative or not
  an integer raises instead of granting a window.
\<close>

theorem backoff_curve:
  "backoffSeconds (of_nat_num n) = Inr (if n < 5 then 0 else min (2 ^ (n - 5)) 900) \<and>
   backoff_window n \<le> backoff_window (n + k) \<and> backoff_window n \<le> 900 \<and>
   (backoffSeconds x = Inl RangeError \<longleftrightarrow> (\<nexists>k. x = of_nat_num k))"
proof -
  have "(\<exists>k. x = of_nat_num k) \<longleftrightarrow> backoffSeconds x \<noteq> Inl RangeError"
  proof
    assume ok: "backoffSeconds x \<noteq> Inl RangeError"
    then have "is_integer x" "\<not> num_less x (Fin 0)"
      by (auto simp: backoffSeconds_def split: if_splits)
    then show "\<exists>k. x = of_nat_num k" by (metis is_integer_obtain of_nat_num_def)
  qed auto
  then show ?thesis
    by (simp add: backoff_window_unclamped [symmetric] backoff_window_mono backoff_window_le)
qed

section \<open>Access-token claims\<close>

definition ACCESS_TOKEN_TTL_SECONDS :: int where "ACCESS_TOKEN_TTL_SECONDS = 15 * 60"

definition ACCESS_TOKEN_TYP :: jstring where "ACCESS_TOKEN_TYP = js ''access''"

record AccessTokenClaims =
  atc_sub :: jstring
  atc_iat :: int
  atc_exp :: int
  atc_jti :: jstring
  atc_typ :: jstring

record BuildAccessClaimsInput =
  bac_userId :: jstring
  bac_jti :: jstring
  bac_nowSeconds :: int
  bac_ttlSeconds :: "int option"

definition buildAccessClaims :: "BuildAccessClaimsInput \<Rightarrow> AccessTokenClaims" where
  "buildAccessClaims i =
     (let ttl = (case bac_ttlSeconds i of None \<Rightarrow> ACCESS_TOKEN_TTL_SECONDS | Some t \<Rightarrow> t);
          iat = bac_nowSeconds i
      in \<lparr>atc_sub = bac_userId i, atc_iat = iat, atc_exp = iat + ttl, atc_jti = bac_jti i,
          atc_typ = ACCESS_TOKEN_TYP\<rparr>)"

lemma buildAccessClaims_lifetime:
  "atc_exp (buildAccessClaims i) - atc_iat (buildAccessClaims i) =
     (case bac_ttlSeconds i of None \<Rightarrow> 900 | Some t \<Rightarrow> t)"
  by (simp add: buildAccessClaims_def Let_def ACCESS_TOKEN_TTL_SECONDS_def split: option.splits)

end
