(* ===== verification/SessionPolicy.thy ===== *)
theory SessionPolicy
  imports Prelude
begin

text \<open>
  The pure refresh-token policy of \<open>packages/core-domain/src/auth\<close>: what to do with a presented
  token (\<open>reuse-decision.ts\<close>) and the lifetimes and live-family cap (\<open>token-lifetime.ts\<close>).
  All times are epoch milliseconds.
\<close>

section \<open>Reuse decision\<close>

definition REUSE_LEEWAY_MS :: int where "REUSE_LEEWAY_MS = 60000"

datatype ReuseAction = ALLOW_ROTATE | REVOKE_FAMILY | REJECT_EXPIRED | REJECT_BENIGN_RETRY

record Successor =
  suc_createdAt :: int
  suc_isCurrent :: bool

record ReuseDecisionInput =
  rdi_now :: int
  rdi_presentedRevokedAt :: "int option"
  rdi_presentedExpiresAt :: int
  rdi_presentedFamilyExpiresAt :: int
  rdi_successor :: "Successor option"

definition decideReuse :: "ReuseDecisionInput \<Rightarrow> ReuseAction" where
  "decideReuse i =
     (if rdi_presentedFamilyExpiresAt i \<le> rdi_now i then REJECT_EXPIRED
      else if rdi_presentedRevokedAt i \<noteq> None then REVOKE_FAMILY
      else if rdi_presentedExpiresAt i \<le> rdi_now i then REJECT_EXPIRED
      else (case rdi_successor i of
              Some s \<Rightarrow>
                (let withinLeeway = rdi_now i - suc_createdAt s \<le> REUSE_LEEWAY_MS in
                 if suc_isCurrent s \<and> withinLeeway then REJECT_BENIGN_RETRY else REVOKE_FAMILY)
            | None \<Rightarrow> ALLOW_ROTATE))"

text \<open>
  The complete rotation matrix, as four equivalences. A token rotates exactly when it is
  unexpired on both clocks, unrevoked and has no successor. The family is revoked exactly when
  its cap has not passed and the token is revoked, or is unexpired with a successor that is not
  the current one or is older than the 60-second leeway. Everything past a clock is a plain
  expiry, unless revoked before its per-token expiry mattered.
\<close>

theorem reuse_decision_matrix:
  "(decideReuse i = ALLOW_ROTATE \<longleftrightarrow>
      rdi_now i < rdi_presentedFamilyExpiresAt i \<and> rdi_presentedRevokedAt i = None \<and>
      rdi_now i < rdi_presentedExpiresAt i \<and> rdi_successor i = None) \<and>
   (decideReuse i = REVOKE_FAMILY \<longleftrightarrow>
      rdi_now i < rdi_presentedFamilyExpiresAt i \<and>
      (rdi_presentedRevokedAt i \<noteq> None \<or>
       rdi_now i < rdi_presentedExpiresAt i \<and>
       (\<exists>s. rdi_successor i = Some s \<and>
            (suc_isCurrent s = False \<or> 60000 < rdi_now i - suc_createdAt s)))) \<and>
   (decideReuse i = REJECT_BENIGN_RETRY \<longleftrightarrow>
      rdi_now i < rdi_presentedFamilyExpiresAt i \<and> rdi_presentedRevokedAt i = None \<and>
      rdi_now i < rdi_presentedExpiresAt i \<and>
      (\<exists>s. rdi_successor i = Some s \<and> suc_isCurrent s \<and> rdi_now i - suc_createdAt s \<le> 60000)) \<and>
   (decideReuse i = REJECT_EXPIRED \<longleftrightarrow>
      rdi_presentedFamilyExpiresAt i \<le> rdi_now i \<or>
      rdi_presentedRevokedAt i = None \<and> rdi_presentedExpiresAt i \<le> rdi_now i)"
  by (cases "rdi_successor i") (auto simp: decideReuse_def REUSE_LEEWAY_MS_def Let_def)

lemma reuse_decision_matrix_witness:
  "decideReuse \<lparr>rdi_now = 20, rdi_presentedRevokedAt = None, rdi_presentedExpiresAt = 100,
     rdi_presentedFamilyExpiresAt = 200,
     rdi_successor = Some \<lparr>suc_createdAt = 10, suc_isCurrent = False\<rparr>\<rparr> = REVOKE_FAMILY"
  by (simp add: reuse_decision_matrix)

section \<open>Lifetimes\<close>

definition REFRESH_TOKEN_TTL_MS :: int where "REFRESH_TOKEN_TTL_MS = 60 * 24 * 60 * 60 * 1000"

definition FAMILY_LIFETIME_CAP_MS :: int where "FAMILY_LIFETIME_CAP_MS = 90 * 24 * 60 * 60 * 1000"

definition LIVE_FAMILY_CAP :: nat where "LIVE_FAMILY_CAP = 20"

definition tokenExpiresAt :: "int \<Rightarrow> int" where
  "tokenExpiresAt nowMs = nowMs + REFRESH_TOKEN_TTL_MS"

definition familyExpiresAt :: "int \<Rightarrow> int" where
  "familyExpiresAt loginMs = loginMs + FAMILY_LIFETIME_CAP_MS"

lemma tokenExpiresAt_future: "t < tokenExpiresAt t"
  by (simp add: tokenExpiresAt_def REFRESH_TOKEN_TTL_MS_def)

lemma familyExpiresAt_future: "t < familyExpiresAt t"
  by (simp add: familyExpiresAt_def FAMILY_LIFETIME_CAP_MS_def)

section \<open>Live-family cap\<close>

record LiveFamily =
  lf_familyId :: jstring
  lf_createdAt :: int

text \<open>The comparison inside the loop: older, or as old with a smaller id.\<close>

definition family_before :: "LiveFamily \<Rightarrow> LiveFamily \<Rightarrow> bool" where
  "family_before f oldest \<longleftrightarrow>
     lf_createdAt f < lf_createdAt oldest \<or>
     (lf_createdAt f = lf_createdAt oldest \<and> lf_familyId f < lf_familyId oldest)"

fun oldest_loop :: "LiveFamily \<Rightarrow> LiveFamily list \<Rightarrow> LiveFamily" where
  "oldest_loop oldest [] = oldest"
| "oldest_loop oldest (f # fs) =
     (if family_before f oldest then oldest_loop f fs else oldest_loop oldest fs)"

text \<open>
  \<open>None\<close> is \<open>revokeFamilyId: null\<close>. With a cap of 0 and no family the source reads
  \<open>liveFamilies[0]\<close> of an empty array and throws: that is the outer \<open>None\<close>.
\<close>

definition decideFamilyCap :: "LiveFamily list \<Rightarrow> nat \<Rightarrow> (jstring option) option" where
  "decideFamilyCap liveFamilies cap =
     (if length liveFamilies < cap then Some None
      else (case liveFamilies of
              [] \<Rightarrow> None
            | f # _ \<Rightarrow> Some (Some (lf_familyId (oldest_loop f liveFamilies)))))"

lemma family_before_trans: "family_before a b \<Longrightarrow> family_before b c \<Longrightarrow> family_before a c"
  by (auto simp: family_before_def)

lemma oldest_loop_in: "oldest_loop o1 fs \<in> insert o1 (set fs)"
  by (induction fs arbitrary: o1) auto

lemma not_before_trans: "\<not> family_before b a \<Longrightarrow> \<not> family_before c b \<Longrightarrow> \<not> family_before c a"
  by (auto simp: family_before_def not_less)

lemma before_not_before: "family_before a b \<Longrightarrow> \<not> family_before b a"
  by (auto simp: family_before_def)

lemma oldest_loop_least: "\<forall>f \<in> insert o1 (set fs). \<not> family_before f (oldest_loop o1 fs)"
proof (induction fs arbitrary: o1)
  case Nil
  then show ?case by (simp add: family_before_def)
next
  case (Cons f fs)
  show ?case
  proof (cases "family_before f o1")
    case True
    have "\<not> family_before f (oldest_loop f fs)" using Cons [of f] by simp
    then have "\<not> family_before o1 (oldest_loop f fs)"
      using before_not_before [OF True] not_before_trans by blast
    with True Cons [of f] show ?thesis by simp
  next
    case False
    have "\<not> family_before o1 (oldest_loop o1 fs)" using Cons [of o1] by simp
    with False have "\<not> family_before f (oldest_loop o1 fs)" using not_before_trans by blast
    with False Cons [of o1] show ?thesis by simp
  qed
qed

lemma decideFamilyCap_default: "fs = [] \<Longrightarrow> decideFamilyCap fs LIVE_FAMILY_CAP = Some None"
  by (simp add: decideFamilyCap_def LIVE_FAMILY_CAP_def)

lemma decideFamilyCap_evicts:
  assumes "0 < cap" and "cap \<le> length fs"
  shows "\<exists>f \<in> set fs. decideFamilyCap fs cap = Some (Some (lf_familyId f)) \<and>
     (\<forall>g \<in> set fs. \<not> family_before g f)"
proof -
  from assms obtain f gs where fs: "fs = f # gs" by (cases fs) auto
  have "oldest_loop f fs \<in> set fs" using oldest_loop_in [of f fs] fs by auto
  moreover have "\<forall>g \<in> set fs. \<not> family_before g (oldest_loop f fs)"
    using oldest_loop_least [of f fs] by simp
  ultimately show ?thesis using assms fs by (auto simp: decideFamilyCap_def)
qed

text \<open>
  The live-family cap never refuses a login. Below the cap nothing is evicted; at or above
  a positive cap exactly one of the listed families is evicted, and it is the least recently
  created one, ties broken by the smaller family id.
\<close>

theorem family_cap_evicts_oldest:
  assumes "0 < cap"
  shows "(length fs < cap \<longrightarrow> decideFamilyCap fs cap = Some None) \<and>
     (cap \<le> length fs \<longrightarrow>
        (\<exists>f \<in> set fs. decideFamilyCap fs cap = Some (Some (lf_familyId f)) \<and>
           (\<forall>g \<in> set fs. lf_createdAt f < lf_createdAt g \<or>
              lf_createdAt f = lf_createdAt g \<and> lf_familyId f \<le> lf_familyId g)))"
proof (intro conjI impI)
  show "decideFamilyCap fs cap = Some None" if "length fs < cap"
    using that by (simp add: decideFamilyCap_def)
  show "\<exists>f \<in> set fs. decideFamilyCap fs cap = Some (Some (lf_familyId f)) \<and>
     (\<forall>g \<in> set fs. lf_createdAt f < lf_createdAt g \<or>
        lf_createdAt f = lf_createdAt g \<and> lf_familyId f \<le> lf_familyId g)" if "cap \<le> length fs"
  proof -
    from decideFamilyCap_evicts [OF assms that] obtain f where
      "f \<in> set fs" "decideFamilyCap fs cap = Some (Some (lf_familyId f))"
      and least: "\<forall>g \<in> set fs. \<not> family_before g f" by blast
    moreover have "lf_createdAt f < lf_createdAt g \<or>
        lf_createdAt f = lf_createdAt g \<and> lf_familyId f \<le> lf_familyId g" if "g \<in> set fs" for g
      using least that by (auto simp: family_before_def not_less)
    ultimately show ?thesis by blast
  qed
qed

theorem family_cap_evicts_oldest_witness:
  "(0::nat) < 2 \<and> (\<exists>f \<in> set [\<lparr>lf_familyId = js ''b'', lf_createdAt = 5\<rparr>, \<lparr>lf_familyId = js ''a'', lf_createdAt = 5\<rparr>].
     decideFamilyCap [\<lparr>lf_familyId = js ''b'', lf_createdAt = 5\<rparr>, \<lparr>lf_familyId = js ''a'', lf_createdAt = 5\<rparr>] 2
       = Some (Some (lf_familyId f)))"
  using family_cap_evicts_oldest [of 2 "[\<lparr>lf_familyId = js ''b'', lf_createdAt = 5\<rparr>, \<lparr>lf_familyId = js ''a'', lf_createdAt = 5\<rparr>]"]
  by auto

end
