(* ===== verification/Instants.thy ===== *)
theory Instants
  imports Prelude
begin

text \<open>
  Instants and their text. A \<open>Date\<close> is its epoch-millisecond value; \<open>toISOString\<close> is the text
  the wire carries, computed as ECMAScript computes it: civil date from the day number, then
  the fixed-width fields. Decimal and hexadecimal rendering of numbers is here too.
\<close>

section \<open>Digits\<close>

fun dec_digits :: "nat \<Rightarrow> jstring" where
  "dec_digits n = (if n < 10 then [48 + n] else dec_digits (n div 10) @ [48 + n mod 10])"

declare dec_digits.simps [simp del]

definition hex_digit :: "nat \<Rightarrow> nat" where
  "hex_digit d = (if d < 10 then 48 + d else 87 + d)"

fun hex_digits :: "nat \<Rightarrow> jstring" where
  "hex_digits n =
     (if n < 16 then [hex_digit n] else hex_digits (n div 16) @ [hex_digit (n mod 16)])"

declare hex_digits.simps [simp del]

definition is_digit :: "nat \<Rightarrow> bool" where
  "is_digit c \<longleftrightarrow> 48 \<le> c \<and> c \<le> 57"

text \<open>\<open>Number(s)\<close> and \<open>parseInt(s, 16)\<close> on the digit strings the code passes them.\<close>

definition dec_value :: "jstring \<Rightarrow> nat" where
  "dec_value s = foldl (\<lambda>v c. 10 * v + (c - 48)) 0 s"

definition hex_digit_value :: "nat \<Rightarrow> nat" where
  "hex_digit_value c = (if c \<le> 57 then c - 48 else c - 87)"

definition hex_value :: "jstring \<Rightarrow> nat" where
  "hex_value s = foldl (\<lambda>v c. 16 * v + hex_digit_value c) 0 s"

lemma dec_digits_are_digits: "c \<in> set (dec_digits n) \<Longrightarrow> is_digit c"
proof (induction n rule: dec_digits.induct)
  case (1 n)
  then show ?case by (cases "n < 10") (auto simp: dec_digits.simps [of n] is_digit_def)
qed

lemma dec_digits_nonempty [simp]: "dec_digits n \<noteq> []"
  by (subst dec_digits.simps) simp

lemma hex_digits_nonempty [simp]: "hex_digits n \<noteq> []"
  by (subst hex_digits.simps) simp

lemma dec_value_dec_digits [simp]: "dec_value (dec_digits n) = n"
proof (induction n rule: dec_digits.induct)
  case (1 n)
  show ?case
  proof (cases "n < 10")
    case True
    then show ?thesis by (simp add: dec_digits.simps [of n] dec_value_def)
  next
    case False
    with 1 have "dec_value (dec_digits (n div 10)) = n div 10" by simp
    with False show ?thesis by (simp add: dec_digits.simps [of n] dec_value_def)
  qed
qed

lemma hex_digit_value_hex_digit [simp]: "d < 16 \<Longrightarrow> hex_digit_value (hex_digit d) = d"
  by (simp add: hex_digit_value_def hex_digit_def)

lemma hex_value_hex_digits [simp]: "hex_value (hex_digits n) = n"
proof (induction n rule: hex_digits.induct)
  case (1 n)
  show ?case
  proof (cases "n < 16")
    case True
    then show ?thesis by (simp add: hex_digits.simps [of n] hex_value_def)
  next
    case False
    with 1 have "hex_value (hex_digits (n div 16)) = n div 16" by simp
    with False show ?thesis by (simp add: hex_digits.simps [of n] hex_value_def)
  qed
qed

lemma dec_digits_inj: "dec_digits m = dec_digits n \<Longrightarrow> m = n"
  by (metis dec_value_dec_digits)

lemma hex_digits_inj: "hex_digits m = hex_digits n \<Longrightarrow> m = n"
  by (metis hex_value_hex_digits)

definition is_hex_digit :: "nat \<Rightarrow> bool" where
  "is_hex_digit c \<longleftrightarrow> is_digit c \<or> (97 \<le> c \<and> c \<le> 102)"

lemma hex_digits_are_hex: "c \<in> set (hex_digits n) \<Longrightarrow> is_hex_digit c"
proof (induction n rule: hex_digits.induct)
  case (1 n)
  have "is_hex_digit (hex_digit d)" if "d < 16" for d
    using that by (auto simp: is_hex_digit_def hex_digit_def is_digit_def)
  with 1 show ?case by (cases "n < 16") (auto simp: hex_digits.simps [of n])
qed

section \<open>Civil dates and ISO-8601 text\<close>

record civil =
  c_year :: int
  c_month :: int
  c_day :: int

definition civil_of_days :: "int \<Rightarrow> civil" where
  "civil_of_days days =
     (let z = days + 719468;
          era = z div 146097;
          doe = z mod 146097;
          yoe = (doe - doe div 1460 + doe div 36524 - doe div 146096) div 365;
          doy = doe - (365 * yoe + yoe div 4 - yoe div 100);
          mp = (5 * doy + 2) div 153;
          m = (if mp < 10 then mp + 3 else mp - 9)
      in \<lparr>c_year = yoe + era * 400 + (if m \<le> 2 then 1 else 0), c_month = m,
          c_day = doy - (153 * mp + 2) div 5 + 1\<rparr>)"

definition pad_to :: "nat \<Rightarrow> int \<Rightarrow> jstring" where
  "pad_to w n = (let d = dec_digits (nat n) in replicate (w - length d) 48 @ d)"

definition iso_year :: "int \<Rightarrow> jstring" where
  "iso_year y = (if 0 \<le> y \<and> y \<le> 9999 then pad_to 4 y
                 else (if y < 0 then 45 else 43) # pad_to 6 \<bar>y\<bar>)"

definition toISOString :: "int \<Rightarrow> jstring" where
  "toISOString t =
     (let c = civil_of_days (t div 86400000); r = t mod 86400000
      in iso_year (c_year c) @ [45] @ pad_to 2 (c_month c) @ [45] @ pad_to 2 (c_day c) @ [84] @
         pad_to 2 (r div 3600000) @ [58] @ pad_to 2 (r div 60000 mod 60) @ [58] @
         pad_to 2 (r div 1000 mod 60) @ [46] @ pad_to 3 (r mod 1000) @ [90])"

definition toIso :: "int option \<Rightarrow> jstring option" where
  "toIso value = map_option toISOString value"

lemma toISOString_epoch: "toISOString 0 = js ''1970-01-01T00:00:00.000Z''"
  by code_simp

lemma toISOString_leap_day: "toISOString 1709164800123 = js ''2024-02-29T00:00:00.123Z''"
  by code_simp

end
