(* ===== verification/InvitationPolicy.thy ===== *)
theory InvitationPolicy
  imports Credentials OwnerInvariant Instants
begin

text \<open>
  The pure invitation rules of \<open>packages/core-domain/src/orgs\<close>: the derived status
  (\<open>invitation-status.ts\<close>), the lifetime of a link and the accept decision
  (\<open>invitation-policy.ts\<close>), the masked address of the public preview (\<open>invitation-email.ts\<close>)
  and the rows that leave on the wire (\<open>invitation-view.ts\<close>, \<open>invitation-redemption-view.ts\<close>,
  \<open>member-view.ts\<close>).
\<close>

section \<open>Derived status\<close>

datatype StoredInvitationStatus = SPending | SAccepted | SExpired | SCancelled
datatype ResolvedInvitationStatus = RPending | RAccepted | RCancelled | RExpired

record ResolvableInvitation =
  rin_status :: StoredInvitationStatus
  rin_expiresAt :: int

fun resolveInvitationStatus :: "StoredInvitationStatus \<Rightarrow> int \<Rightarrow> int \<Rightarrow> ResolvedInvitationStatus" where
  "resolveInvitationStatus SAccepted expiresAt now = RAccepted"
| "resolveInvitationStatus SCancelled expiresAt now = RCancelled"
| "resolveInvitationStatus SExpired expiresAt now = RExpired"
| "resolveInvitationStatus SPending expiresAt now = (if expiresAt \<le> now then RExpired else RPending)"

lemma resolve_pending_iff:
  "resolveInvitationStatus st e now = RPending \<longleftrightarrow> st = SPending \<and> now < e"
  by (cases st) auto

lemma resolve_terminal:
  "resolveInvitationStatus st e now = RAccepted \<longleftrightarrow> st = SAccepted"
  "resolveInvitationStatus st e now = RCancelled \<longleftrightarrow> st = SCancelled"
  by (cases st; simp)+

text \<open>Time only ever moves a pending invitation to expired.\<close>

lemma resolve_monotone:
  assumes "now \<le> later"
  shows "resolveInvitationStatus st e later = resolveInvitationStatus st e now \<or>
    (resolveInvitationStatus st e now = RPending \<and> resolveInvitationStatus st e later = RExpired)"
  using assms by (cases st) auto

section \<open>Lifetime of a link\<close>

definition INVITATION_TTL_HOURS_ELEVATED :: int where "INVITATION_TTL_HOURS_ELEVATED = 24"
definition INVITATION_TTL_HOURS_STANDARD :: int where "INVITATION_TTL_HOURS_STANDARD = 168"

definition isElevatedRole :: "jstring list \<Rightarrow> bool" where
  "isElevatedRole roleCapabilities = hasCapability roleCapabilities CAPABILITY_MANAGE_MEMBERS"

definition invitationTtlHours :: "jstring list \<Rightarrow> int" where
  "invitationTtlHours roleCapabilities =
     (if isElevatedRole roleCapabilities then INVITATION_TTL_HOURS_ELEVATED
      else INVITATION_TTL_HOURS_STANDARD)"

definition invitationExpiryFrom :: "int \<Rightarrow> int \<Rightarrow> int" where
  "invitationExpiryFrom now ttlHours = now + ttlHours * 60 * 60 * 1000"

lemma invitationTtlHours_cases:
  "invitationTtlHours caps = (if CAPABILITY_FULL_ACCESS \<in> set caps \<or> CAPABILITY_MANAGE_MEMBERS \<in> set caps
     then 24 else 168)"
  by (simp add: invitationTtlHours_def isElevatedRole_def hasCapability_iff
      INVITATION_TTL_HOURS_ELEVATED_def INVITATION_TTL_HOURS_STANDARD_def)

lemma expiry_after_issue: "now < invitationExpiryFrom now (invitationTtlHours caps)"
  by (simp add: invitationExpiryFrom_def invitationTtlHours_cases)

lemma expiry_at_most_week:
  "invitationExpiryFrom now (invitationTtlHours caps) \<le> now + 604800000"
  by (simp add: invitationExpiryFrom_def invitationTtlHours_cases)

lemma more_power_shorter_link:
  assumes "set caps \<subseteq> set caps'"
  shows "invitationExpiryFrom now (invitationTtlHours caps') \<le> invitationExpiryFrom now (invitationTtlHours caps)"
  using assms by (auto simp: invitationExpiryFrom_def invitationTtlHours_cases)

section \<open>The accept decision\<close>

datatype AcceptInvitationDecision =
    AccOk | AccExpired | AccCancelled | AccAlreadyAccepted | AccAlreadyMember | AccSuperseded
  | AccRoleUnavailable

record AcceptableInvitation =
  ai_status :: StoredInvitationStatus
  ai_expiresAt :: int
  ai_tokenIssuedAt :: int

record AcceptorMembership =
  am_status :: MembershipStatus
  am_revokedAt :: "int option"

record CanAcceptInvitationInput =
  cai_invitation :: AcceptableInvitation
  cai_membership :: "AcceptorMembership option"
  cai_roleExistsInOrg :: bool
  cai_now :: int

definition canAcceptInvitation :: "CanAcceptInvitationInput \<Rightarrow> AcceptInvitationDecision" where
  "canAcceptInvitation i =
     (let invitation = cai_invitation i;
          status = resolveInvitationStatus (ai_status invitation) (ai_expiresAt invitation) (cai_now i)
      in if status = RExpired then AccExpired
         else if status = RCancelled then AccCancelled
         else if status = RAccepted then AccAlreadyAccepted
         else if \<not> cai_roleExistsInOrg i then AccRoleUnavailable
         else (case cai_membership i of
                 None \<Rightarrow> AccOk
               | Some m \<Rightarrow>
                   if am_status m = MActive then AccAlreadyMember
                   else if am_status m = MRevoked then
                     (case am_revokedAt m of
                        None \<Rightarrow> AccSuperseded
                      | Some r \<Rightarrow> if r \<ge> ai_tokenIssuedAt invitation then AccSuperseded else AccOk)
                   else AccSuperseded))"

text \<open>The state of a membership that an invitation may open.\<close>

definition opens_for :: "AcceptorMembership option \<Rightarrow> int \<Rightarrow> bool" where
  "opens_for m issued \<longleftrightarrow>
     (case m of None \<Rightarrow> True
      | Some m' \<Rightarrow> am_status m' = MRevoked \<and> (\<exists>r. am_revokedAt m' = Some r \<and> r < issued))"

lemma canAccept_ok_iff:
  "canAcceptInvitation i = AccOk \<longleftrightarrow>
     ai_status (cai_invitation i) = SPending \<and> cai_now i < ai_expiresAt (cai_invitation i) \<and>
     cai_roleExistsInOrg i \<and> opens_for (cai_membership i) (ai_tokenIssuedAt (cai_invitation i))"
  by (cases "ai_status (cai_invitation i)"; cases "cai_membership i")
    (auto simp: canAcceptInvitation_def opens_for_def Let_def split: option.splits)

lemma canAccept_clock_first:
  "canAcceptInvitation i = AccExpired \<longleftrightarrow>
     resolveInvitationStatus (ai_status (cai_invitation i)) (ai_expiresAt (cai_invitation i)) (cai_now i) = RExpired"
  by (auto simp: canAcceptInvitation_def Let_def split: option.splits)

text \<open>
  When an invitation may be accepted, and the order of the refusals. It is accepted exactly
  when it is stored pending, has not reached its expiry instant, its role still exists in the
  organization, and the caller has no membership row or one revoked strictly before the current
  link was issued; an active member, an invited row and a revoked row without a timestamp are
  never accepted. An expired link answers expired whoever holds it and whatever its role.
\<close>

theorem accept_decision_exact:
  "(canAcceptInvitation i = AccOk \<longleftrightarrow>
      ai_status (cai_invitation i) = SPending \<and> cai_now i < ai_expiresAt (cai_invitation i) \<and>
      cai_roleExistsInOrg i \<and>
      (cai_membership i = None \<or>
       (\<exists>r. cai_membership i = Some \<lparr>am_status = MRevoked, am_revokedAt = Some r\<rparr> \<and>
            r < ai_tokenIssuedAt (cai_invitation i)))) \<and>
   (canAcceptInvitation i = AccExpired \<longleftrightarrow>
      ai_status (cai_invitation i) = SExpired \<or>
      ai_status (cai_invitation i) = SPending \<and> ai_expiresAt (cai_invitation i) \<le> cai_now i) \<and>
   (canAcceptInvitation i = AccAlreadyMember \<longleftrightarrow>
      ai_status (cai_invitation i) = SPending \<and> cai_now i < ai_expiresAt (cai_invitation i) \<and>
      cai_roleExistsInOrg i \<and> (\<exists>m. cai_membership i = Some m \<and> am_status m = MActive))"
proof -
  have e: "opens_for m t \<longleftrightarrow> m = None \<or> (\<exists>r. m = Some \<lparr>am_status = MRevoked, am_revokedAt = Some r\<rparr> \<and> r < t)"
    for m :: "AcceptorMembership option" and t
  proof (cases m)
    case (Some a)
    then show ?thesis by (cases a) (auto simp: opens_for_def)
  qed (simp add: opens_for_def)
  have x: "resolveInvitationStatus st ex now = RExpired \<longleftrightarrow> st = SExpired \<or> st = SPending \<and> ex \<le> now"
    for st ex now by (cases st) auto
  have a: "canAcceptInvitation i = AccAlreadyMember \<longleftrightarrow>
      ai_status (cai_invitation i) = SPending \<and> cai_now i < ai_expiresAt (cai_invitation i) \<and>
      cai_roleExistsInOrg i \<and> (\<exists>m. cai_membership i = Some m \<and> am_status m = MActive)"
    by (cases "ai_status (cai_invitation i)"; cases "cai_membership i")
      (auto simp: canAcceptInvitation_def Let_def split: option.splits)
  show ?thesis
    unfolding canAccept_ok_iff canAccept_clock_first e x a by simp
qed

section \<open>The masked address\<close>

definition EMAIL_MASK :: jstring where "EMAIL_MASK = js ''***''"

datatype MaskEmailError = MaskEmailError

definition maskEmail :: "(jstring \<Rightarrow> jstring) \<Rightarrow> jstring \<Rightarrow> MaskEmailError + jstring" where
  "maskEmail lower email =
     (let normalized = normalizeEmail lower email in
      case last_index_of char_at normalized of
        None \<Rightarrow> Inl MaskEmailError
      | Some pos \<Rightarrow>
          if pos = 0 then Inl MaskEmailError
          else (let local = take pos normalized; domain = drop (Suc pos) normalized in
                if length domain = 0 then Inl MaskEmailError
                else Inr (hd (code_points local) @ EMAIL_MASK @ [char_at] @ domain)))"

lemma last_index_of_split:
  assumes "c \<notin> set ys"
  shows "last_index_of c (xs @ c # ys) = Some (length xs)"
proof -
  have i: "index_of c (as @ c # bs) = Some (length as)" if "c \<notin> set as" for as bs
    using that by (induction as) auto
  have "index_of c (rev (xs @ c # ys)) = Some (length ys)" using i [of "rev ys" "rev xs"] assms by simp
  then show ?thesis by (simp add: last_index_of_def)
qed

lemma maskEmail_split:
  assumes "normalizeEmail lower email = local @ char_at # domain" and "char_at \<notin> set domain"
    and "local \<noteq> []" and "domain \<noteq> []"
  shows "maskEmail lower email = Inr (hd (code_points local) @ EMAIL_MASK @ [char_at] @ domain)"
  using assms by (simp add: maskEmail_def last_index_of_split Let_def)

text \<open>
  Masking never fails on an address the system stores, and reveals the first code point and
  the domain only: for an address that passes the shape check, raw or already normalized, the
  masked text is the first code point of the local part, a fixed three stars whatever the length
  of the local part, the at-sign and the domain.
\<close>

theorem mask_of_valid_email:
  assumes "lower_laws lower" and "isValidEmailShape (normalizeEmail lower email)"
  shows "\<exists>local domain.
      normalizeEmail lower email = local @ char_at # domain \<and>
      local \<noteq> [] \<and> char_at \<notin> set local \<and> char_at \<notin> set domain \<and>
      maskEmail lower email = Inr (hd (code_points local) @ js ''***@'' @ domain) \<and>
      maskEmail lower (normalizeEmail lower email) = maskEmail lower email"
proof -
  obtain local domain where s: "normalizeEmail lower email = local @ char_at # domain"
    and ne: "local \<noteq> []" "domain \<noteq> []" and nt: "char_at \<notin> set local" "char_at \<notin> set domain"
    by (rule isValidEmailShape_split [OF assms(2)])
  have "maskEmail lower email = Inr (hd (code_points local) @ EMAIL_MASK @ [char_at] @ domain)"
    by (rule maskEmail_split [OF s nt(2) ne])
  moreover have "EMAIL_MASK @ [char_at] = js ''***@''"
    by (simp add: EMAIL_MASK_def char_at_def js_def)
  ultimately have "maskEmail lower email = Inr (hd (code_points local) @ js ''***@'' @ domain)"
    by (metis append_assoc)
  moreover have "maskEmail lower (normalizeEmail lower email) = maskEmail lower email"
    by (simp add: maskEmail_def normalizeEmail_idem [OF assms(1)])
  ultimately show ?thesis using s ne nt by blast
qed

lemma mask_of_valid_email_witness:
  "\<exists>local domain. js ''ann@shop.co'' = local @ char_at # domain \<and>
     maskEmail ascii_lower (js '' Ann@shop.co'') =
       Inr (hd (code_points local) @ js ''***@'' @ domain)"
proof -
  have n: "normalizeEmail ascii_lower (js '' Ann@shop.co'') = js ''ann@shop.co''"
    by (simp add: normalizeEmail_def trim_def is_space_def ascii_lower_def js_def)
  have v: "isValidEmailShape (js ''ann@shop.co'')"
    by (simp add: isValidEmailShape_def char_at_def char_dot_def is_space_def js_def)
  from mask_of_valid_email [of ascii_lower "js '' Ann@shop.co''", unfolded n, OF ascii_lower_laws v]
  show ?thesis by blast
qed

section \<open>Rows that leave on the wire\<close>

record InvitationRowSource =
  irs_id :: jstring
  irs_email :: jstring
  irs_roleId :: jstring
  irs_status :: ResolvedInvitationStatus
  irs_expiresAt :: int
  irs_tokenIssuedAt :: int
  irs_invitedByUserId :: jstring
  irs_createdAt :: int
  irs_acceptedAt :: "int option"
  irs_acceptedByUserId :: "jstring option"
  irs_acceptedUserCreatedAt :: "int option"

record InvitationRowRole =
  irr_name :: jstring
  irr_key :: "jstring option"

record InvitationRow =
  ir_id :: jstring
  ir_email :: jstring
  ir_roleId :: jstring
  ir_roleName :: jstring
  ir_roleKey :: "jstring option"
  ir_status :: ResolvedInvitationStatus
  ir_expiresAt :: jstring
  ir_tokenIssuedAt :: jstring
  ir_invitedByUserId :: jstring
  ir_createdAt :: jstring
  ir_acceptedAt :: "jstring option"
  ir_acceptedByUserId :: "jstring option"
  ir_acceptedUserCreatedAfterInvite :: "bool option"

definition acceptedUserCreatedAfterInvite :: "int \<Rightarrow> int option \<Rightarrow> bool option" where
  "acceptedUserCreatedAfterInvite createdAt acceptedUserCreatedAt =
     (case acceptedUserCreatedAt of None \<Rightarrow> None | Some u \<Rightarrow> Some (u > createdAt))"

definition userCreatedAfterTokenIssued :: "int \<Rightarrow> int \<Rightarrow> bool" where
  "userCreatedAfterTokenIssued userCreatedAt tokenIssuedAt \<longleftrightarrow> userCreatedAt > tokenIssuedAt"

definition toInvitationRow :: "InvitationRowSource \<Rightarrow> InvitationRowRole \<Rightarrow> InvitationRow" where
  "toInvitationRow invitation role =
     \<lparr>ir_id = irs_id invitation, ir_email = irs_email invitation, ir_roleId = irs_roleId invitation,
      ir_roleName = irr_name role, ir_roleKey = irr_key role, ir_status = irs_status invitation,
      ir_expiresAt = toISOString (irs_expiresAt invitation),
      ir_tokenIssuedAt = toISOString (irs_tokenIssuedAt invitation),
      ir_invitedByUserId = irs_invitedByUserId invitation,
      ir_createdAt = toISOString (irs_createdAt invitation),
      ir_acceptedAt = map_option toISOString (irs_acceptedAt invitation),
      ir_acceptedByUserId = irs_acceptedByUserId invitation,
      ir_acceptedUserCreatedAfterInvite =
        acceptedUserCreatedAfterInvite (irs_createdAt invitation) (irs_acceptedUserCreatedAt invitation)\<rparr>"

record InvitationPreviewSource =
  ips_organizationName :: jstring
  ips_roleName :: jstring
  ips_roleKey :: "jstring option"
  ips_email :: jstring
  ips_expiresAt :: int
  ips_status :: ResolvedInvitationStatus

record InvitationPreview =
  ipv_organizationName :: jstring
  ipv_roleName :: jstring
  ipv_roleKey :: "jstring option"
  ipv_emailMasked :: jstring
  ipv_expiresAt :: jstring
  ipv_status :: ResolvedInvitationStatus

definition toInvitationPreview ::
    "(jstring \<Rightarrow> jstring) \<Rightarrow> InvitationPreviewSource \<Rightarrow> MaskEmailError + InvitationPreview" where
  "toInvitationPreview lower source =
     rbind (maskEmail lower (ips_email source)) (\<lambda>masked. Inr
       \<lparr>ipv_organizationName = ips_organizationName source, ipv_roleName = ips_roleName source,
        ipv_roleKey = ips_roleKey source, ipv_emailMasked = masked,
        ipv_expiresAt = toISOString (ips_expiresAt source), ipv_status = ips_status source\<rparr>)"

record InvitationAcceptSource =
  ias_organizationId :: jstring
  ias_organizationName :: jstring
  ias_roleId :: jstring
  ias_roleName :: jstring
  ias_roleKey :: "jstring option"

record InvitationAcceptResult =
  iar_organizationId :: jstring
  iar_organizationName :: jstring
  iar_roleId :: jstring
  iar_roleName :: jstring
  iar_roleKey :: "jstring option"
  iar_status :: MembershipStatus

definition toInvitationAcceptResult :: "InvitationAcceptSource \<Rightarrow> InvitationAcceptResult" where
  "toInvitationAcceptResult source =
     \<lparr>iar_organizationId = ias_organizationId source, iar_organizationName = ias_organizationName source,
      iar_roleId = ias_roleId source, iar_roleName = ias_roleName source,
      iar_roleKey = ias_roleKey source, iar_status = MActive\<rparr>"

record MemberRowMembership =
  mrm_userId :: jstring
  mrm_roleId :: jstring
  mrm_status :: MembershipStatus
  mrm_activatedAt :: "int option"
  mrm_revokedAt :: "int option"
  mrm_createdAt :: int

record MemberRowRole =
  mrr_name :: jstring
  mrr_key :: "jstring option"
  mrr_capabilities :: "jstring list"

record MemberRow =
  mr_userId :: jstring
  mr_email :: jstring
  mr_roleId :: jstring
  mr_roleName :: jstring
  mr_roleKey :: "jstring option"
  mr_status :: MembershipStatus
  mr_activatedAt :: "jstring option"
  mr_revokedAt :: "jstring option"
  mr_createdAt :: jstring
  mr_isMe :: bool
  mr_isOwner :: bool

definition toMemberRow ::
    "MemberRowMembership \<Rightarrow> MemberRowRole \<Rightarrow> jstring \<Rightarrow> jstring \<Rightarrow> MemberRow" where
  "toMemberRow membership role userEmail viewerUserId =
     \<lparr>mr_userId = mrm_userId membership, mr_email = userEmail, mr_roleId = mrm_roleId membership,
      mr_roleName = mrr_name role, mr_roleKey = mrr_key role, mr_status = mrm_status membership,
      mr_activatedAt = toIso (mrm_activatedAt membership),
      mr_revokedAt = toIso (mrm_revokedAt membership),
      mr_createdAt = toISOString (mrm_createdAt membership),
      mr_isMe = (mrm_userId membership = viewerUserId),
      mr_isOwner = isOwnerRole (mrr_capabilities role)\<rparr>"

text \<open>An account that existed before the invitation is never flagged, whatever a reissue did.\<close>

lemma reissue_keeps_flag:
  "ir_acceptedUserCreatedAfterInvite (toInvitationRow (s\<lparr>irs_tokenIssuedAt := t\<rparr>) r) =
   ir_acceptedUserCreatedAfterInvite (toInvitationRow s r)"
  by (simp add: toInvitationRow_def)

end
