(* ===== verification/WeightedAverage.thy ===== *)
theory WeightedAverage
  imports Prelude
begin

text \<open>
  \<open>packages/core-domain/src/cost/weighted-average.ts\<close>: the weighted-average unit cost after a
  stock receipt. \<open>decimal.js\<close> is a library the code calls: its constructor is the argument
  \<open>parse\<close> (a text is read to a value, or refused), and \<open>rnd\<close> is the rounding that each of
  \<open>times\<close>, \<open>plus\<close> and \<open>dividedBy\<close> applies to the exact result (20 significant digits by
  default). The constructor does not round.
\<close>

datatype Money = MoneyText jstring | MoneyDecimal rat

record WeightedAverageInput =
  wai_onHand :: jsnum
  wai_oldAvg :: Money
  wai_qtyIn :: jsnum
  wai_unitCostIn :: Money

datatype CostError = StockRangeError | DecimalError

definition assertInteger :: "jsnum \<Rightarrow> CostError + unit" where
  "assertInteger v =
     (if \<not> is_integer v then Inl StockRangeError
      else if num_less v (Fin 0) then Inl StockRangeError
      else Inr ())"

definition new_Decimal :: "(jstring \<Rightarrow> rat option) \<Rightarrow> Money \<Rightarrow> CostError + rat" where
  "new_Decimal parse m =
     (case m of MoneyDecimal d \<Rightarrow> Inr d
      | MoneyText t \<Rightarrow> (case parse t of None \<Rightarrow> Inl DecimalError | Some d \<Rightarrow> Inr d))"

text \<open>The value of a number that passed \<open>assertInteger\<close>.\<close>

definition num_value :: "jsnum \<Rightarrow> rat" where
  "num_value n = (case n of Fin q \<Rightarrow> q | _ \<Rightarrow> 0)"

definition weightedAverageCost ::
    "(rat \<Rightarrow> rat) \<Rightarrow> (jstring \<Rightarrow> rat option) \<Rightarrow> WeightedAverageInput \<Rightarrow> CostError + rat" where
  "weightedAverageCost rnd parse input =
     rbind (assertInteger (wai_onHand input)) (\<lambda>_.
     rbind (assertInteger (wai_qtyIn input)) (\<lambda>_.
     rbind (new_Decimal parse (wai_oldAvg input)) (\<lambda>oldAvg.
     rbind (new_Decimal parse (wai_unitCostIn input)) (\<lambda>unitCostIn.
       let onHand = num_value (wai_onHand input); qtyIn = num_value (wai_qtyIn input) in
       if qtyIn = 0 then Inr oldAvg
       else
         (let totalUnits = onHand + qtyIn;
              totalCost = rnd (rnd (oldAvg * onHand) + rnd (unitCostIn * qtyIn))
          in Inr (rnd (totalCost / totalUnits)))))))"

lemma assertInteger_nat [simp]: "assertInteger (of_nat_num n) = Inr ()"
  by (simp add: assertInteger_def of_nat_num_def)

lemma assertInteger_ok: "assertInteger v = Inr () \<longleftrightarrow> (\<exists>k. v = of_nat_num k)"
proof
  assume "assertInteger v = Inr ()"
  then have "is_integer v" "\<not> num_less v (Fin 0)" by (auto simp: assertInteger_def split: if_splits)
  then show "\<exists>k. v = of_nat_num k" by (metis is_integer_obtain of_nat_num_def)
qed auto

lemma assertInteger_cases: "assertInteger v = Inr () \<or> assertInteger v = Inl StockRangeError"
  by (simp add: assertInteger_def)

lemma num_value_nat [simp]: "num_value (of_nat_num n) = of_nat n"
  by (simp add: num_value_def of_nat_num_def)

definition receipt :: "nat \<Rightarrow> rat \<Rightarrow> nat \<Rightarrow> rat \<Rightarrow> WeightedAverageInput" where
  "receipt h a q c = \<lparr>wai_onHand = of_nat_num h, wai_oldAvg = MoneyDecimal a,
     wai_qtyIn = of_nat_num q, wai_unitCostIn = MoneyDecimal c\<rparr>"

lemma weightedAverage_receipt:
  "weightedAverageCost rnd parse (receipt h a q c) =
     Inr (if q = 0 then a
          else rnd (rnd (rnd (a * of_nat h) + rnd (c * of_nat q)) / (of_nat h + of_nat q)))"
  by (simp add: weightedAverageCost_def receipt_def new_Decimal_def Let_def)

lemma average_between:
  fixes a c h q :: rat
  assumes "0 \<le> h" "0 < q"
  shows "min a c \<le> (a * h + c * q) / (h + q)" "(a * h + c * q) / (h + q) \<le> max a c"
proof -
  have p: "0 < h + q" using assms by simp
  have "min a c * (h + q) \<le> a * h + c * q"
    using assms by (simp add: distrib_left add_mono mult_right_mono)
  then show "min a c \<le> (a * h + c * q) / (h + q)" using p by (simp add: pos_le_divide_eq)
  have "a * h + c * q \<le> max a c * (h + q)"
    using assms by (simp add: distrib_left add_mono mult_right_mono)
  then show "(a * h + c * q) / (h + q) \<le> max a c" using p by (simp add: pos_divide_le_eq)
qed

text \<open>Bad stock quantities are refused before any money is read.\<close>

lemma weightedAverage_refuses:
  assumes "(\<nexists>k. wai_onHand i = of_nat_num k) \<or> (\<nexists>k. wai_qtyIn i = of_nat_num k)"
  shows "weightedAverageCost rnd parse i = Inl StockRangeError"
  using assms assertInteger_cases [of "wai_onHand i"] assertInteger_cases [of "wai_qtyIn i"]
  by (auto simp: weightedAverageCost_def assertInteger_ok [symmetric])

text \<open>
  The recomputed unit cost. With no units received it is the old average; on a first
  receipt it is the received unit cost; otherwise it is the correctly rounded quotient of total
  cost and total units, and lies between the two unit costs. The hypotheses are what decimal
  arithmetic guarantees when the two extended costs and their sum fit its precision: those
  intermediate results are exact, both unit costs are representable, and rounding is monotone.
\<close>

theorem weighted_average_correct:
  assumes "mono rnd" and "rnd a = a" and "rnd c = c"
    and "rnd (a * of_nat h) = a * of_nat h" and "rnd (c * of_nat q) = c * of_nat q"
    and "rnd (a * of_nat h + c * of_nat q) = a * of_nat h + c * of_nat q"
  shows "weightedAverageCost rnd parse (receipt h a 0 c) = Inr a \<and>
    (q = 0 \<or> (\<exists>avg. weightedAverageCost rnd parse (receipt h a q c) = Inr avg \<and>
       avg = rnd ((a * of_nat h + c * of_nat q) / of_nat (h + q)) \<and>
       min a c \<le> avg \<and> avg \<le> max a c \<and> (h \<noteq> 0 \<or> avg = c)))"
proof -
  have bounds: "min a c \<le> rnd x \<and> rnd x \<le> max a c" if "min a c \<le> x" "x \<le> max a c" for x
  proof -
    have "rnd (min a c) \<le> rnd x" "rnd x \<le> rnd (max a c)"
      using that monoD [OF assms(1)] by blast+
    moreover have "rnd (min a c) = min a c" "rnd (max a c) = max a c"
      using assms(2,3) by (simp_all add: min_def max_def)
    ultimately show ?thesis by simp
  qed
  have "q = 0 \<or> min a c \<le> rnd ((a * of_nat h + c * of_nat q) / of_nat (h + q)) \<and>
      rnd ((a * of_nat h + c * of_nat q) / of_nat (h + q)) \<le> max a c"
    using bounds average_between [of "of_nat h" "of_nat q" a c] by auto
  then show ?thesis
    using assms(3-6) by (cases "h = 0") (auto simp: weightedAverage_receipt)
qed

lemma weighted_average_correct_witness:
  "\<exists>avg. weightedAverageCost (\<lambda>x. x) (\<lambda>_. None) (receipt 3 10 1 20) = Inr avg \<and>
     10 \<le> avg \<and> avg \<le> 20"
  using weighted_average_correct [of "\<lambda>x. x" 10 20 3 1 "\<lambda>_. None"]
  by (auto simp: mono_def)

end
