(* ===== verification/TaxId.thy ===== *)
theory TaxId
  imports Authz Instants
begin

text \<open>
  The Thai tax identity of \<open>packages/core-domain/src/orgs\<close>: the 13-digit number and its check
  digit (\<open>thai-tax-id.ts\<close>), the mask (\<open>tax-id-mask.ts\<close>), and the write and reveal of the tax
  profile (\<open>tax-profile.ts\<close>). An optional string is \<open>None\<close> for \<open>null\<close> and \<open>undefined\<close>.
\<close>

section \<open>The number\<close>

definition THAI_TAX_ID_LENGTH :: nat where "THAI_TAX_ID_LENGTH = 13"
definition BRANCH_CODE_LENGTH :: nat where "BRANCH_CODE_LENGTH = 5"
definition HEAD_OFFICE_BRANCH_CODE :: jstring where "HEAD_OFFICE_BRANCH_CODE = js ''00000''"

text \<open>The class \<open>[\s\-\<dots>]\<close> of the source: white space, the ASCII hyphen, U+2010 to U+2015.\<close>

definition is_separator :: "nat \<Rightarrow> bool" where
  "is_separator c \<longleftrightarrow> is_space c \<or> c = 45 \<or> (8208 \<le> c \<and> c \<le> 8213)"

definition normalizeThaiTaxId :: "jstring option \<Rightarrow> jstring" where
  "normalizeThaiTaxId raw =
     (case raw of None \<Rightarrow> [] | Some s \<Rightarrow> filter (\<lambda>c. \<not> is_separator c) s)"

text \<open>\<open>Number(d)\<close> of one digit.\<close>

definition digit :: "nat \<Rightarrow> nat" where "digit c = c - 48"

function checkDigit_loop :: "jstring \<Rightarrow> nat \<Rightarrow> nat \<Rightarrow> nat" where
  "checkDigit_loop first12 acc i =
     (if i < 12 then checkDigit_loop first12 (acc + digit (first12 ! i) * (THAI_TAX_ID_LENGTH - i)) (Suc i)
      else acc)"
  by pat_completeness auto

termination checkDigit_loop
  by (relation "measure (\<lambda>(_, _, i). 12 - i)") auto

declare checkDigit_loop.simps [simp del]

definition checkDigit :: "jstring \<Rightarrow> nat" where
  "checkDigit first12 = (let weighted = checkDigit_loop first12 0 0 in (11 - weighted mod 11) mod 10)"

definition isValidThaiTaxId :: "jstring option \<Rightarrow> bool" where
  "isValidThaiTaxId value =
     (let digits = normalizeThaiTaxId value in
      if length digits \<noteq> THAI_TAX_ID_LENGTH then False
      else if \<not> (length digits = 13 \<and> list_all is_digit digits) then False
      else if length digits = 13 \<and> list_all (\<lambda>c. c = hd digits) digits then False
      else digit (digits ! 12) = checkDigit digits)"

definition isValidBranchCode :: "jstring option \<Rightarrow> bool" where
  "isValidBranchCode value =
     (case value of None \<Rightarrow> True
      | Some s \<Rightarrow> length (trim s) = 5 \<and> list_all is_digit (trim s))"

definition weighted_sum :: "jstring \<Rightarrow> nat" where
  "weighted_sum s = (\<Sum>i<12. digit (s ! i) * (13 - i))"

lemma checkDigit_loop_sum:
  "i \<le> 12 \<Longrightarrow> checkDigit_loop s a i = a + (\<Sum>j = i..<12. digit (s ! j) * (13 - j))"
proof (induction s a i rule: checkDigit_loop.induct)
  case (1 s a i)
  show ?case
  proof (cases "i < 12")
    case True
    with 1 show ?thesis
      by (subst checkDigit_loop.simps)
        (simp add: THAI_TAX_ID_LENGTH_def sum.atLeast_Suc_lessThan [of i 12])
  next
    case False
    with 1 have "i = 12" by simp
    then show ?thesis by (subst checkDigit_loop.simps) simp
  qed
qed

lemma checkDigit_eq: "checkDigit s = (11 - weighted_sum s mod 11) mod 10"
  by (simp add: checkDigit_def checkDigit_loop_sum weighted_sum_def lessThan_atLeast0)

lemma checkDigit_cases:
  "checkDigit s = checkDigit t \<longleftrightarrow>
     weighted_sum s mod 11 = weighted_sum t mod 11 \<or>
     {weighted_sum s mod 11, weighted_sum t mod 11} = {0, 10}"
proof -
  have k: "(11 - a) mod 10 = (11 - b) mod 10 \<longleftrightarrow> a = b \<or> {a, b} = {0, 10}"
    if "a < 11" "b < 11" for a b :: nat
  proof -
    have "a \<in> {0..<11}" "b \<in> {0..<11}" using that by auto
    then have "a \<in> set [0..<11]" "b \<in> set [0..<11]" by auto
    then show ?thesis by (auto simp: upt_rec doubleton_eq_iff)
  qed
  show ?thesis unfolding checkDigit_eq by (rule k) auto
qed

definition well_formed_tin :: "jstring \<Rightarrow> bool" where
  "well_formed_tin s \<longleftrightarrow>
     length s = 13 \<and> (\<forall>c \<in> set s. is_digit c) \<and> (\<exists>c \<in> set s. c \<noteq> hd s) \<and>
     digit (s ! 12) = (11 - weighted_sum s mod 11) mod 10"

lemma isValid_iff: "isValidThaiTaxId v \<longleftrightarrow> well_formed_tin (normalizeThaiTaxId v)"
  by (auto simp: isValidThaiTaxId_def well_formed_tin_def Let_def THAI_TAX_ID_LENGTH_def
      checkDigit_eq list_all_iff)

lemma digit_not_separator: "is_digit c \<Longrightarrow> \<not> is_separator c"
  by (simp add: is_digit_def is_separator_def is_space_def)

lemma digit_not_space: "is_digit c \<Longrightarrow> \<not> is_space c"
  by (simp add: is_digit_def is_space_def)

lemma normalize_digits: "\<forall>c \<in> set s. is_digit c \<Longrightarrow> normalizeThaiTaxId (Some s) = s"
  by (simp add: normalizeThaiTaxId_def digit_not_separator)

lemma normalize_idem:
  "normalizeThaiTaxId (Some (normalizeThaiTaxId v)) = normalizeThaiTaxId v"
  by (simp add: normalizeThaiTaxId_def split: option.splits)

lemma valid_normalized: "isValidThaiTaxId v \<Longrightarrow> isValidThaiTaxId (Some (normalizeThaiTaxId v))"
  by (simp add: isValid_iff normalize_idem)

lemma weighted_sum_update:
  assumes "length s = 13" and "i < 12"
  shows "int (weighted_sum (s[i := d])) =
    int (weighted_sum s) + (int (digit d) - int (digit (s ! i))) * (13 - int i)"
proof -
  have sp: "(\<Sum>j<12. digit (t ! j) * (13 - j)) =
      digit (t ! i) * (13 - i) + (\<Sum>j \<in> {..<12} - {i}. digit (t ! j) * (13 - j))" for t
    by (rule sum.remove) (use assms in auto)
  have r: "(\<Sum>j \<in> {..<12} - {i}. digit (s[i := d] ! j) * (13 - j)) =
      (\<Sum>j \<in> {..<12} - {i}. digit (s ! j) * (13 - j))"
    by (rule sum.cong) auto
  have "weighted_sum (s[i := d]) + digit (s ! i) * (13 - i) = weighted_sum s + digit d * (13 - i)"
    unfolding weighted_sum_def sp [of s] sp [of "s[i := d]"] r using assms by simp
  then have "int (weighted_sum (s[i := d]) + digit (s ! i) * (13 - i)) =
      int (weighted_sum s + digit d * (13 - i))" by simp
  moreover have "int (13 - i) = 13 - int i" using assms(2) by simp
  ultimately show ?thesis
    by (simp only: of_nat_add of_nat_mult) (simp add: algebra_simps)
qed

lemma eleven_prime:
  assumes "(11::int) dvd x * y"
  shows "11 dvd x \<or> 11 dvd y"
proof -
  from assms have z: "11 dvd (x mod 11) * y"
    by (simp add: dvd_eq_mod_eq_0 mod_mult_left_eq)
  have "x mod 11 = 0 \<or> x mod 11 = 1 \<or> x mod 11 = 2 \<or> x mod 11 = 3 \<or> x mod 11 = 4 \<or>
    x mod 11 = 5 \<or> x mod 11 = 6 \<or> x mod 11 = 7 \<or> x mod 11 = 8 \<or> x mod 11 = 9 \<or> x mod 11 = 10"
    by presburger
  then show ?thesis
    using z by (elim disjE; simp; presburger)
qed

text \<open>
  What the check digit guards. Changing any one of the first twelve digits of a valid
  number gives a number the check refuses, unless the changed digit is the third (its weight is
  the modulus 11) or the weighted sums of the two numbers leave the residues 0 and 10, which the
  final reduction modulo 10 makes equal; a changed check digit is always refused.
\<close>

theorem tin_single_digit_errors:
  assumes valid: "isValidThaiTaxId (Some s)" and s: "length s = 13" "\<forall>c \<in> set s. is_digit c"
    and i: "i < 13" and d: "is_digit d" "d \<noteq> s ! i"
  shows "i = 2 \<or>
    i < 12 \<and> {weighted_sum s mod 11, weighted_sum (s[i := d]) mod 11} = {0, 10} \<or>
    \<not> isValidThaiTaxId (Some (s[i := d]))"
proof (rule ccontr)
  assume "\<not> ?thesis"
  then have i2: "i \<noteq> 2" and col: "\<not> (i < 12 \<and> {weighted_sum s mod 11, weighted_sum (s[i := d]) mod 11} = {0, 10})"
    and ok: "isValidThaiTaxId (Some (s[i := d]))" by auto
  have ds: "\<forall>c \<in> set (s[i := d]). is_digit c" using s(2) d(1) set_update_subset_insert by fastforce
  have cs: "digit (s ! 12) = checkDigit s" and ct: "digit (s[i := d] ! 12) = checkDigit (s[i := d])"
    using valid ok normalize_digits [OF s(2)] normalize_digits [OF ds]
    by (auto simp: isValid_iff well_formed_tin_def checkDigit_eq)
  have si: "is_digit (s ! i)" using s i by simp
  then have dig: "digit d \<noteq> digit (s ! i)" using d unfolding digit_def is_digit_def by arith
  have dl: "digit d < 10" "digit (s ! i) < 10" using d(1) si by (auto simp: digit_def is_digit_def)
  show False
  proof (cases "i = 12")
    case True
    have "weighted_sum (s[12 := d]) = weighted_sum s" by (simp add: weighted_sum_def)
    then show False using cs ct True s(1) dig by (simp add: checkDigit_eq)
  next
    case False
    with i have i12: "i < 12" by simp
    then have "checkDigit s = checkDigit (s[i := d])" using cs ct by simp
    with col i12 have "weighted_sum s mod 11 = weighted_sum (s[i := d]) mod 11"
      by (simp add: checkDigit_cases)
    then have "int (weighted_sum (s[i := d])) mod 11 = int (weighted_sum s) mod 11"
      by (metis of_nat_mod of_nat_numeral)
    then have dv: "11 dvd (int (digit d) - int (digit (s ! i))) * (13 - int i)"
      by (simp add: weighted_sum_update [OF s(1) i12] mod_eq_dvd_iff)
    from eleven_prime [OF dv] show False
    proof
      assume "11 dvd int (digit d) - int (digit (s ! i))"
      then show False using dig dl by presburger
    next
      assume "11 dvd 13 - int i"
      then obtain k where "13 - int i = 11 * k" by (auto simp: dvd_def)
      with i12 i2 show False by presburger
    qed
  qed
qed

lemma tin_single_digit_errors_witness:
  "\<not> isValidThaiTaxId (Some (js ''1101800207366''))"
proof -
  let ?s = "js ''1101700207366''"
  have w: "weighted_sum (js ''1101700207366'') = 159" "weighted_sum (js ''1101800207366'') = 168"
    by (simp_all add: weighted_sum_def digit_def js_def eval_nat_numeral)
  have d: "\<forall>c \<in> set ?s. is_digit c" by (simp add: js_def is_digit_def)
  have v: "isValidThaiTaxId (Some ?s)"
    unfolding isValid_iff normalize_digits [OF d]
    using w(1) d by (simp add: well_formed_tin_def) (simp add: js_def digit_def)
  have u: "?s[4 := 56] = js ''1101800207366''" by (simp add: js_def)
  from tin_single_digit_errors [OF v _ d, of 4 56] show ?thesis
    by (simp add: u w is_digit_def doubleton_eq_iff) (simp add: js_def)
qed

section \<open>The mask\<close>

definition TAX_ID_MASK_CHAR :: jstring where "TAX_ID_MASK_CHAR = [8226]"
definition TAX_ID_VISIBLE_SUFFIX_LENGTH :: nat where "TAX_ID_VISIBLE_SUFFIX_LENGTH = 4"

definition maskTaxId :: "jstring option \<Rightarrow> jstring option" where
  "maskTaxId taxId =
     (case taxId of None \<Rightarrow> None
      | Some t \<Rightarrow>
          (let characters = code_points (trim t) in
           if length characters = 0 then None
           else (let hiddenLength =
                   (if length characters > TAX_ID_VISIBLE_SUFFIX_LENGTH
                    then length characters - TAX_ID_VISIBLE_SUFFIX_LENGTH else length characters)
                 in Some (concat (replicate hiddenLength TAX_ID_MASK_CHAR) @
                          concat (drop hiddenLength characters)))))"

lemma maskTaxId_None_iff: "maskTaxId v = None \<longleftrightarrow> v = None \<or> (\<exists>t. v = Some t \<and> trim t = [])"
  by (auto simp: maskTaxId_def Let_def split: option.splits)

lemma concat_singletons: "concat (map (\<lambda>c. [c]) s) = s"
  by (induction s) auto

lemma concat_replicate_mask: "concat (replicate n TAX_ID_MASK_CHAR) = replicate n 8226"
  by (induction n) (auto simp: TAX_ID_MASK_CHAR_def)

lemma maskTaxId_plain:
  assumes "\<forall>c \<in> set s. is_digit c" and "s \<noteq> []"
  shows "maskTaxId (Some s) =
    Some (if length s \<le> 4 then replicate (length s) 8226
          else replicate (length s - 4) 8226 @ drop (length s - 4) s)"
proof -
  have "hd s \<in> set s" "last s \<in> set s" using assms(2) by auto
  then have t: "trim s = s"
    using assms digit_not_space by (intro trim_trimmed) (auto simp: trimmed_def)
  have c: "code_points s = map (\<lambda>c. [c]) s"
    using assms(1) by (intro code_points_plain) (auto simp: is_digit_def is_high_surrogate_def)
  show ?thesis
    using assms(2) by (simp add: maskTaxId_def t c Let_def TAX_ID_VISIBLE_SUFFIX_LENGTH_def
        concat_replicate_mask drop_map concat_singletons not_less)
qed

section \<open>The tax profile\<close>

definition TAX_ENTITY_TYPES :: "jstring list" where
  "TAX_ENTITY_TYPES = [js ''personal'', js ''company'']"

datatype TaxMessage =
    TAX_ID_INVALID_MESSAGE | TAX_ENTITY_TYPE_INVALID_MESSAGE | VAT_REGISTERED_INVALID_MESSAGE
  | BRANCH_CODE_INVALID_MESSAGE | TAX_PROFILE_INCOMPLETE_MESSAGE

record TaxProfileWrite =
  tpw_taxEntityType :: "jstring option"
  tpw_taxId :: "jstring option"
  tpw_vatRegistered :: "bool option"
  tpw_taxBranchCode :: "jstring option"

definition TAX_PROFILE_CLEARED :: TaxProfileWrite where
  "TAX_PROFILE_CLEARED = \<lparr>tpw_taxEntityType = None, tpw_taxId = None, tpw_vatRegistered = None,
     tpw_taxBranchCode = None\<rparr>"

datatype TaxProfileErrorCode = TAX_ID_INVALID_code | TAX_VALIDATION_FAILED_code

record TaxProfileInput =
  tpi_entityType :: jsv
  tpi_taxId :: jsv
  tpi_vatRegistered :: jsv
  tpi_branchCode :: jsv

definition provided :: "jsv \<Rightarrow> bool" where
  "provided v \<longleftrightarrow> v \<noteq> JUndef \<and> v \<noteq> JNull"

type_synonym tax_errors = "(jstring \<times> TaxMessage) list"

text \<open>
  One step per field, in the order of the source: the cleaned value and the message the field
  adds to \<open>fieldErrors\<close>, if any.
\<close>

definition check_entityType :: "jsv \<Rightarrow> jstring option \<times> TaxMessage option" where
  "check_entityType v =
     (if \<not> provided v then (None, Some TAX_PROFILE_INCOMPLETE_MESSAGE)
      else (case v of
              JStr s \<Rightarrow> if List.member TAX_ENTITY_TYPES (trim s) then (Some (trim s), None)
                        else (None, Some TAX_ENTITY_TYPE_INVALID_MESSAGE)
            | _ \<Rightarrow> (None, Some TAX_ENTITY_TYPE_INVALID_MESSAGE)))"

definition check_taxId :: "jsv \<Rightarrow> jstring option \<times> TaxMessage option \<times> bool" where
  "check_taxId v =
     (if \<not> provided v then (None, Some TAX_PROFILE_INCOMPLETE_MESSAGE, False)
      else (case v of
              JStr s \<Rightarrow> if isValidThaiTaxId (Some s) then (Some (normalizeThaiTaxId (Some s)), None, False)
                        else (None, Some TAX_ID_INVALID_MESSAGE, True)
            | _ \<Rightarrow> (None, Some TAX_ID_INVALID_MESSAGE, True)))"

definition check_vatRegistered :: "jsv \<Rightarrow> bool option \<times> TaxMessage option" where
  "check_vatRegistered v =
     (if \<not> provided v then (None, Some TAX_PROFILE_INCOMPLETE_MESSAGE)
      else (case v of JBool b \<Rightarrow> (Some b, None) | _ \<Rightarrow> (None, Some VAT_REGISTERED_INVALID_MESSAGE)))"

definition check_branchCode :: "jsv \<Rightarrow> jstring option \<times> TaxMessage option" where
  "check_branchCode v =
     (if \<not> provided v then (None, None)
      else (case v of
              JStr s \<Rightarrow> if isValidBranchCode (Some s) then (Some (trim s), None)
                        else (None, Some BRANCH_CODE_INVALID_MESSAGE)
            | _ \<Rightarrow> (None, Some BRANCH_CODE_INVALID_MESSAGE)))"

definition field_error :: "jstring \<Rightarrow> 'm option \<Rightarrow> (jstring \<times> 'm) list" where
  "field_error k m = (case m of None \<Rightarrow> [] | Some x \<Rightarrow> [(k, x)])"

definition validateTaxProfilePut ::
    "TaxProfileInput \<Rightarrow> (TaxProfileErrorCode \<times> tax_errors) + TaxProfileWrite" where
  "validateTaxProfilePut input =
     (let anyProvided = provided (tpi_entityType input) \<or> provided (tpi_taxId input) \<or>
            provided (tpi_vatRegistered input) \<or> provided (tpi_branchCode input)
      in if \<not> anyProvided then Inr TAX_PROFILE_CLEARED
         else
           (let (taxEntityType, e1) = check_entityType (tpi_entityType input);
                (taxId, e2, taxIdRejected) = check_taxId (tpi_taxId input);
                (vatRegistered, e3) = check_vatRegistered (tpi_vatRegistered input);
                (taxBranchCode, e4) = check_branchCode (tpi_branchCode input);
                fieldErrors = field_error (js ''entityType'') e1 @ field_error (js ''taxId'') e2 @
                  field_error (js ''vatRegistered'') e3 @ field_error (js ''branchCode'') e4
            in if fieldErrors \<noteq> [] then
                 Inl (if taxIdRejected then TAX_ID_INVALID_code else TAX_VALIDATION_FAILED_code, fieldErrors)
               else Inr \<lparr>tpw_taxEntityType = taxEntityType, tpw_taxId = taxId,
                         tpw_vatRegistered = vatRegistered, tpw_taxBranchCode = taxBranchCode\<rparr>))"

record RevealedTaxProfile =
  rtp_taxId :: jstring
  rtp_entityType :: "jstring option"
  rtp_revealedAt :: jstring

definition toTaxProfileReveal ::
    "jstring option \<Rightarrow> jstring option \<Rightarrow> int \<Rightarrow> RevealedTaxProfile option" where
  "toTaxProfileReveal taxEntityType taxId0 now =
     (let taxId = (case taxId0 of None \<Rightarrow> [] | Some t \<Rightarrow> trim t) in
      if taxId = [] then None
      else (let revealed = \<lparr>rtp_taxId = taxId, rtp_entityType = None, rtp_revealedAt = toISOString now\<rparr> in
            case taxEntityType of
              None \<Rightarrow> Some revealed
            | Some e \<Rightarrow> if trim e = [] then Some revealed else Some (revealed\<lparr>rtp_entityType := Some e\<rparr>)))"

section \<open>All or nothing\<close>

definition profile_cleared :: "TaxProfileWrite \<Rightarrow> bool" where
  "profile_cleared w \<longleftrightarrow> tpw_taxEntityType w = None \<and> tpw_taxId w = None \<and> tpw_vatRegistered w = None
     \<and> tpw_taxBranchCode w = None"

definition profile_complete :: "TaxProfileWrite \<Rightarrow> bool" where
  "profile_complete w \<longleftrightarrow>
     (\<exists>e t b. tpw_taxEntityType w = Some e \<and> e \<in> {js ''personal'', js ''company''} \<and>
        tpw_taxId w = Some t \<and> well_formed_tin t \<and> tpw_vatRegistered w = Some b) \<and>
     (\<forall>c. tpw_taxBranchCode w = Some c \<longrightarrow> length c = 5 \<and> (\<forall>d \<in> set c. is_digit d))"

lemma check_entityType_ok:
  "check_entityType v = (x, None) \<Longrightarrow> \<exists>e. x = Some e \<and> e \<in> {js ''personal'', js ''company''}"
  by (auto simp: check_entityType_def TAX_ENTITY_TYPES_def split: if_splits jsv.splits)

lemma check_taxId_ok:
  "check_taxId v = (x, None, r) \<Longrightarrow> \<exists>t. x = Some t \<and> well_formed_tin t"
  by (auto simp: check_taxId_def isValid_iff split: if_splits jsv.splits)

lemma check_taxId_rejected:
  "snd (snd (check_taxId v)) \<longleftrightarrow>
     provided v \<and> (\<nexists>s. v = JStr s \<and> isValidThaiTaxId (Some s))"
  by (auto simp: check_taxId_def split: jsv.splits)

lemma check_taxId_rejected_message:
  "snd (snd (check_taxId v)) \<Longrightarrow> fst (snd (check_taxId v)) = Some TAX_ID_INVALID_MESSAGE"
  by (auto simp: check_taxId_def split: jsv.splits if_splits)

lemma check_vatRegistered_ok: "check_vatRegistered v = (x, None) \<Longrightarrow> \<exists>b. x = Some b"
  by (auto simp: check_vatRegistered_def split: if_splits jsv.splits)

lemma check_branchCode_ok:
  "check_branchCode v = (Some c, None) \<Longrightarrow> length c = 5 \<and> (\<forall>d \<in> set c. is_digit d)"
  by (auto simp: check_branchCode_def isValidBranchCode_def list_all_iff split: if_splits jsv.splits)

lemma field_error_Nil [simp]: "field_error k m = [] \<longleftrightarrow> m = None"
  by (simp add: field_error_def split: option.splits)

lemma validate_not_provided:
  assumes "\<not> provided (tpi_entityType i)" "\<not> provided (tpi_taxId i)"
    "\<not> provided (tpi_vatRegistered i)" "\<not> provided (tpi_branchCode i)"
  shows "validateTaxProfilePut i = Inr TAX_PROFILE_CLEARED"
  using assms by (simp add: validateTaxProfilePut_def)

lemma validate_accepts_complete:
  assumes "validateTaxProfilePut i = Inr w"
  shows "profile_cleared w \<or> profile_complete w"
proof -
  obtain e1 m1 where 1: "check_entityType (tpi_entityType i) = (e1, m1)" by (cases "check_entityType (tpi_entityType i)")
  obtain e2 m2 r where 2: "check_taxId (tpi_taxId i) = (e2, m2, r)" by (cases "check_taxId (tpi_taxId i)")
  obtain e3 m3 where 3: "check_vatRegistered (tpi_vatRegistered i) = (e3, m3)"
    by (cases "check_vatRegistered (tpi_vatRegistered i)")
  obtain e4 m4 where 4: "check_branchCode (tpi_branchCode i) = (e4, m4)" by (cases "check_branchCode (tpi_branchCode i)")
  from assms consider "w = TAX_PROFILE_CLEARED"
    | "m1 = None" "m2 = None" "m3 = None" "m4 = None"
      "w = \<lparr>tpw_taxEntityType = e1, tpw_taxId = e2, tpw_vatRegistered = e3, tpw_taxBranchCode = e4\<rparr>"
    by (auto simp: validateTaxProfilePut_def Let_def 1 2 3 4 split: if_splits)
  then show ?thesis
  proof cases
    case 1
    then show ?thesis by (simp add: profile_cleared_def TAX_PROFILE_CLEARED_def)
  next
    case c: 2
    from c(1) 1 check_entityType_ok obtain e where "e1 = Some e" "e \<in> {js ''personal'', js ''company''}"
      by blast
    moreover from c(2) 2 check_taxId_ok obtain t where "e2 = Some t" "well_formed_tin t" by blast
    moreover from c(3) 3 check_vatRegistered_ok obtain b where "e3 = Some b" by blast
    moreover from c(4) 4 check_branchCode_ok
    have "\<forall>d. e4 = Some d \<longrightarrow> length d = 5 \<and> (\<forall>x \<in> set d. is_digit x)" by blast
    ultimately show ?thesis using c(5) unfolding profile_complete_def by simp
  qed
qed

lemma validate_code:
  "(\<exists>es. validateTaxProfilePut i = Inl (TAX_ID_INVALID_code, es)) \<longleftrightarrow> snd (snd (check_taxId (tpi_taxId i)))"
proof -
  have p: "snd (snd (check_taxId (tpi_taxId i))) \<Longrightarrow> provided (tpi_taxId i)"
    by (simp add: check_taxId_rejected)
  show ?thesis
    using p check_taxId_rejected_message [of "tpi_taxId i"]
    by (auto simp: validateTaxProfilePut_def Let_def split: prod.splits)
qed

text \<open>
  The tax profile is written all or nothing. Every accepted body writes either the cleared
  profile or a complete one: an entity type of the two, a number of thirteen digits that passes
  the checksum and carries no separator, a VAT flag, and a branch code that is absent or five
  digits. The code \<open>TAX_ID_INVALID\<close> is answered exactly when a tax id was provided that is not
  a valid number.
\<close>

theorem tax_profile_all_or_nothing:
  "(\<forall>w. validateTaxProfilePut i = Inr w \<longrightarrow>
      w = TAX_PROFILE_CLEARED \<or>
      (\<exists>e t b. tpw_taxEntityType w = Some e \<and> e \<in> {js ''personal'', js ''company''} \<and>
         tpw_taxId w = Some t \<and> well_formed_tin t \<and> tpw_vatRegistered w = Some b) \<and>
      (tpw_taxBranchCode w = None \<or>
       (\<exists>c. tpw_taxBranchCode w = Some c \<and> length c = 5 \<and> (\<forall>d \<in> set c. is_digit d)))) \<and>
   ((\<exists>es. validateTaxProfilePut i = Inl (TAX_ID_INVALID_code, es)) \<longleftrightarrow>
      provided (tpi_taxId i) \<and> (\<nexists>s. tpi_taxId i = JStr s \<and> isValidThaiTaxId (Some s)))"
proof -
  have "w = TAX_PROFILE_CLEARED \<or>
      (\<exists>e t b. tpw_taxEntityType w = Some e \<and> e \<in> {js ''personal'', js ''company''} \<and>
         tpw_taxId w = Some t \<and> well_formed_tin t \<and> tpw_vatRegistered w = Some b) \<and>
      (tpw_taxBranchCode w = None \<or>
       (\<exists>c. tpw_taxBranchCode w = Some c \<and> length c = 5 \<and> (\<forall>d \<in> set c. is_digit d)))"
    if "validateTaxProfilePut i = Inr w" for w
    using validate_accepts_complete [OF that]
  proof
    assume "profile_cleared w"
    then have "w = TAX_PROFILE_CLEARED" by (simp add: profile_cleared_def TAX_PROFILE_CLEARED_def)
    then show ?thesis ..
  next
    assume "profile_complete w"
    then show ?thesis unfolding profile_complete_def by (cases "tpw_taxBranchCode w") auto
  qed
  then show ?thesis unfolding validate_code check_taxId_rejected by blast
qed

lemma tax_profile_all_or_nothing_witness:
  "\<exists>w. validateTaxProfilePut \<lparr>tpi_entityType = JNull, tpi_taxId = JNull, tpi_vatRegistered = JNull,
       tpi_branchCode = JNull\<rparr> = Inr w \<and>
     (w = TAX_PROFILE_CLEARED \<or> (\<exists>t. tpw_taxId w = Some t \<and> well_formed_tin t))"
proof -
  let ?i = "\<lparr>tpi_entityType = JNull, tpi_taxId = JNull, tpi_vatRegistered = JNull, tpi_branchCode = JNull\<rparr>"
  have "\<exists>w. validateTaxProfilePut ?i = Inr w" by (simp add: validateTaxProfilePut_def provided_def)
  then obtain w where w: "validateTaxProfilePut ?i = Inr w" by blast
  with tax_profile_all_or_nothing [of ?i] show ?thesis by blast
qed

end
