(* ===== verification/OrgProfile.thy ===== *)
theory OrgProfile
  imports TaxId OwnerInvariant
begin

text \<open>
  The pure organization rules of \<open>packages/core-domain/src/orgs\<close>: what a new organization
  starts with and how many a user may create (\<open>org-provisioning.ts\<close>), the profile patch and the
  three-tier profile view (\<open>org-profile.ts\<close>). The time zones of the runtime's ICU table
  (\<open>Intl.supportedValuesOf\<close>) are the argument \<open>zones\<close>, \<open>None\<close> when the call throws.
\<close>

section \<open>The shape of a new organization\<close>

definition ORG_DEFAULT_TIMEZONE :: jstring where "ORG_DEFAULT_TIMEZONE = js ''Asia/Bangkok''"
definition ORG_DEFAULT_CURRENCY :: jstring where "ORG_DEFAULT_CURRENCY = js ''THB''"
definition DEFAULT_WAREHOUSE_NAME :: jstring where
  "DEFAULT_WAREHOUSE_NAME = [3588, 3621, 3633, 3591, 3627, 3621, 3633, 3585]"

definition ORG_NAME_MIN_LENGTH :: nat where "ORG_NAME_MIN_LENGTH = 1"
definition ORG_NAME_MAX_LENGTH :: nat where "ORG_NAME_MAX_LENGTH = 120"

record SystemRoleBlueprint =
  srb_name :: jstring
  srb_key :: jstring
  srb_isSystem :: bool
  srb_capabilities :: "jstring list"

definition SYSTEM_ROLE_BLUEPRINT :: "SystemRoleBlueprint list" where
  "SYSTEM_ROLE_BLUEPRINT =
     [\<lparr>srb_name = js ''Owner'', srb_key = js ''owner'', srb_isSystem = True,
       srb_capabilities = [CAPABILITY_FULL_ACCESS]\<rparr>,
      \<lparr>srb_name = js ''Admin'', srb_key = js ''admin'', srb_isSystem = False,
       srb_capabilities = [CAPABILITY_MANAGE_MEMBERS, CAPABILITY_MANAGE_ORG_SETTINGS,
         js ''manage_products'', js ''manage_stock'', js ''manage_channels'', js ''manage_orders'',
         js ''view_financials'']\<rparr>,
      \<lparr>srb_name = js ''Staff'', srb_key = js ''staff'', srb_isSystem = False,
       srb_capabilities = [js ''manage_products'', js ''manage_stock'', js ''manage_orders'']\<rparr>]"

datatype BlueprintError = BlueprintError nat

definition ownerRoleBlueprint ::
    "SystemRoleBlueprint list \<Rightarrow> BlueprintError + SystemRoleBlueprint" where
  "ownerRoleBlueprint blueprint =
     (let owner = filter (\<lambda>role. isOwnerRole (srb_capabilities role)) blueprint in
      if length owner \<noteq> 1 then Inl (BlueprintError (length owner)) else Inr (hd owner))"

lemma ownerRoleBlueprint_sound:
  assumes "ownerRoleBlueprint bp = Inr r"
  shows "r \<in> set bp \<and> isOwnerRole (srb_capabilities r) \<and>
    (\<forall>r' \<in> set bp. isOwnerRole (srb_capabilities r') \<longrightarrow> r' = r)"
proof -
  let ?f = "filter (\<lambda>role. isOwnerRole (srb_capabilities role)) bp"
  from assms have "length ?f = 1" "hd ?f = r"
    by (auto simp: ownerRoleBlueprint_def Let_def split: if_splits)
  then have f: "?f = [r]" by (cases ?f) auto
  then have "set ?f = {r}" by simp
  then show ?thesis by (auto simp: set_eq_iff)
qed

lemma owner_of_system_blueprint:
  "ownerRoleBlueprint SYSTEM_ROLE_BLUEPRINT = Inr (hd SYSTEM_ROLE_BLUEPRINT)"
  by (simp add: ownerRoleBlueprint_def SYSTEM_ROLE_BLUEPRINT_def isOwnerRole_iff
      capability_names)

section \<open>The cap on created organizations\<close>

definition isOrgCapReached :: "jsnum \<Rightarrow> jsnum \<Rightarrow> bool" where
  "isOrgCapReached createdOrgCount limit =
     (if \<not> is_finite createdOrgCount \<or> num_less createdOrgCount (Fin 0) then True
      else if \<not> is_integer limit \<or> num_less limit (Fin 0) then True
      else num_ge createdOrgCount limit)"

lemma cap_nat [simp]: "isOrgCapReached (of_nat_num n) (of_nat_num k) \<longleftrightarrow> k \<le> n"
  by (auto simp: isOrgCapReached_def of_nat_num_def is_finite_def not_less)

lemma cap_fail_closed:
  "\<not> isOrgCapReached c l \<Longrightarrow> \<exists>q k. c = Fin q \<and> 0 \<le> q \<and> l = of_nat_num k \<and> q < of_nat k"
proof -
  assume n: "\<not> isOrgCapReached c l"
  then have "is_integer l" "\<not> num_less l (Fin 0)" by (auto simp: isOrgCapReached_def split: if_splits)
  then obtain k where l: "l = Fin (of_nat k)" by (rule is_integer_obtain)
  from n obtain q where "c = Fin q" "0 \<le> q" "q < of_nat k"
    by (cases c) (auto simp: isOrgCapReached_def l is_finite_def split: if_splits)
  with l show ?thesis by (auto simp: of_nat_num_def)
qed

section \<open>Input validation\<close>

datatype OrgMessage =
    ORG_NAME_REQUIRED_MESSAGE | ORG_NAME_TOO_LONG_MESSAGE | ORG_TIMEZONE_INVALID_MESSAGE
  | ORG_LOGO_UNSUPPORTED_MESSAGE

type_synonym org_errors = "(jstring \<times> OrgMessage) list"

definition validateOrgName :: "jsv \<Rightarrow> org_errors + jstring" where
  "validateOrgName raw =
     (case raw of
        JStr s \<Rightarrow>
          (let value = trim s; len = length (code_points value) in
           if len < ORG_NAME_MIN_LENGTH then Inl [(js ''name'', ORG_NAME_REQUIRED_MESSAGE)]
           else if len > ORG_NAME_MAX_LENGTH then Inl [(js ''name'', ORG_NAME_TOO_LONG_MESSAGE)]
           else Inr value)
      | _ \<Rightarrow> Inl [(js ''name'', ORG_NAME_REQUIRED_MESSAGE)])"

definition supportedTimezones :: "jstring list option \<Rightarrow> jstring list" where
  "supportedTimezones zones =
     (let values = (case zones of None \<Rightarrow> [ORG_DEFAULT_TIMEZONE] | Some z \<Rightarrow> z) in
      if length values > 0 then values else [ORG_DEFAULT_TIMEZONE])"

definition isSupportedTimezone :: "jstring list option \<Rightarrow> jsv \<Rightarrow> jstring option" where
  "isSupportedTimezone zones value =
     (case value of JStr s \<Rightarrow> if List.member (supportedTimezones zones) s then Some s else None
      | _ \<Rightarrow> None)"

record NewOrganizationInput =
  noi_name :: jstring
  noi_timezone :: jstring

definition timezone_choice :: "jstring list option \<Rightarrow> jsv \<Rightarrow> org_errors + jstring" where
  "timezone_choice zones v =
     (if v = JUndef \<or> v = JNull then Inr ORG_DEFAULT_TIMEZONE
      else (case isSupportedTimezone zones v of
              Some tz \<Rightarrow> Inr tz
            | None \<Rightarrow> Inl [(js ''timezone'', ORG_TIMEZONE_INVALID_MESSAGE)]))"

definition validateNewOrganization ::
    "jstring list option \<Rightarrow> jsv \<Rightarrow> jsv \<Rightarrow> org_errors + NewOrganizationInput" where
  "validateNewOrganization zones nameValue timezoneValue =
     (let name = validateOrgName nameValue;
          timezone = timezone_choice zones timezoneValue;
          fieldErrors = (case name of Inl es \<Rightarrow> es | Inr _ \<Rightarrow> []) @
                        (case timezone of Inl es \<Rightarrow> es | Inr _ \<Rightarrow> [])
      in case (name, timezone) of
           (Inr n, Inr tz) \<Rightarrow> Inr \<lparr>noi_name = n, noi_timezone = tz\<rparr>
         | _ \<Rightarrow> Inl fieldErrors)"

lemma validateOrgName_ok_iff:
  "validateOrgName v = Inr n \<longleftrightarrow>
     (\<exists>s. v = JStr s \<and> n = trim s \<and> n \<noteq> [] \<and> length (code_points n) \<le> 120)"
  by (auto simp: validateOrgName_def Let_def ORG_NAME_MIN_LENGTH_def ORG_NAME_MAX_LENGTH_def
      split: jsv.splits)

section \<open>The profile patch\<close>

text \<open>\<open>opp_logo\<close> is true when the patch clears the logo: \<open>null\<close> is its only allowed value.\<close>

record OrgProfilePatch =
  opp_name :: "jstring option"
  opp_logo :: bool
  opp_timezone :: "jstring option"

definition validateOrgProfilePatch ::
    "jstring list option \<Rightarrow> jsv \<Rightarrow> jsv \<Rightarrow> jsv \<Rightarrow> org_errors + OrgProfilePatch" where
  "validateOrgProfilePatch zones nameValue logo timezone =
     (let (name, e1) = (if nameValue \<noteq> JUndef
                        then (case validateOrgName nameValue of Inr n \<Rightarrow> (Some n, []) | Inl es \<Rightarrow> (None, es))
                        else (None, []));
          (clear, e2) = (if logo \<noteq> JUndef
                         then (if logo = JNull then (True, []) else (False, [(js ''logo'', ORG_LOGO_UNSUPPORTED_MESSAGE)]))
                         else (False, []));
          (tz, e3) = (if timezone \<noteq> JUndef
                      then (case isSupportedTimezone zones timezone of
                              Some z \<Rightarrow> (Some z, [])
                            | None \<Rightarrow> (None, [(js ''timezone'', ORG_TIMEZONE_INVALID_MESSAGE)]))
                      else (None, []));
          fieldErrors = e1 @ e2 @ e3
      in if length fieldErrors > 0 then Inl fieldErrors
         else Inr \<lparr>opp_name = name, opp_logo = clear, opp_timezone = tz\<rparr>)"

section \<open>The profile view\<close>

record OrgProfileRow =
  opr_id :: jstring
  opr_name :: jstring
  opr_logo :: "jstring option"
  opr_timezone :: jstring
  opr_currency :: jstring
  opr_taxEntityType :: "jstring option"
  opr_taxId :: "jstring option"
  opr_vatRegistered :: "bool option"
  opr_taxBranchCode :: "jstring option"

record OrgProfileViewer =
  opv_userId :: jstring
  opv_roleId :: jstring
  opv_roleName :: jstring
  opv_roleKey :: "jstring option"
  opv_capabilities :: "jstring list"
  opv_status :: MembershipStatus

record OrgProfileCounts =
  opc_activeMembers :: nat
  opc_pendingInvitations :: nat

record OrgEntitlementView =
  oev_planKey :: jstring
  oev_tierLabel :: "jstring option"

record TaxProfileView =
  tpv_entityType :: "jstring option"
  tpv_taxIdMasked :: "jstring option"
  tpv_vatRegistered :: "bool option"
  tpv_branchCode :: "jstring option"

record OrgProfileView =
  opw_id :: jstring
  opw_name :: jstring
  opw_logo :: "jstring option"
  opw_timezone :: jstring
  opw_currency :: jstring
  opw_taxProfile :: "TaxProfileView option"
  opw_taxProfileComplete :: bool
  opw_entitlement :: "OrgEntitlementView option"
  opw_roleId :: jstring
  opw_roleName :: jstring
  opw_roleKey :: "jstring option"
  opw_capabilities :: "jstring list"
  opw_status :: MembershipStatus
  opw_counts :: OrgProfileCounts

definition isTaxProfileComplete :: "jstring option \<Rightarrow> jstring option \<Rightarrow> bool option \<Rightarrow> bool" where
  "isTaxProfileComplete taxEntityType taxId vatRegistered \<longleftrightarrow>
     (case taxEntityType of None \<Rightarrow> False | Some e \<Rightarrow> trim e \<noteq> []) \<and>
     (case taxId of None \<Rightarrow> False | Some t \<Rightarrow> trim t \<noteq> []) \<and>
     vatRegistered \<noteq> None"

definition toTaxProfileView :: "OrgProfileRow \<Rightarrow> jstring list \<Rightarrow> TaxProfileView option" where
  "toTaxProfileView row capabilities =
     (if \<not> (opr_taxEntityType row \<noteq> None \<or> opr_taxId row \<noteq> None \<or> opr_vatRegistered row \<noteq> None)
      then None
      else
        (let view = \<lparr>tpv_entityType = None, tpv_taxIdMasked = None,
                     tpv_vatRegistered = opr_vatRegistered row, tpv_branchCode = None\<rparr>
         in if \<not> hasCapability capabilities CAPABILITY_MANAGE_ORG_SETTINGS then Some view
            else Some (view\<lparr>tpv_entityType := opr_taxEntityType row,
                            tpv_taxIdMasked := maskTaxId (opr_taxId row),
                            tpv_branchCode := opr_taxBranchCode row\<rparr>)))"

definition toOrgProfileView ::
    "OrgProfileRow \<Rightarrow> OrgProfileViewer \<Rightarrow> OrgEntitlementView option \<Rightarrow> OrgProfileCounts \<Rightarrow> OrgProfileView"
  where
  "toOrgProfileView organization viewer entitlement counts =
     \<lparr>opw_id = opr_id organization, opw_name = opr_name organization, opw_logo = opr_logo organization,
      opw_timezone = opr_timezone organization, opw_currency = opr_currency organization,
      opw_taxProfile = toTaxProfileView organization (opv_capabilities viewer),
      opw_taxProfileComplete = isTaxProfileComplete (opr_taxEntityType organization)
        (opr_taxId organization) (opr_vatRegistered organization),
      opw_entitlement = entitlement, opw_roleId = opv_roleId viewer,
      opw_roleName = opv_roleName viewer, opw_roleKey = opv_roleKey viewer,
      opw_capabilities = opv_capabilities viewer, opw_status = opv_status viewer, opw_counts = counts\<rparr>"

record MyOrganizationSource =
  mos_id :: jstring
  mos_name :: jstring
  mos_logo :: "jstring option"
  mos_status :: MembershipStatus
  mos_roleId :: jstring
  mos_roleName :: jstring
  mos_roleKey :: "jstring option"
  mos_revokedAt :: "int option"
  mos_entitlement :: "OrgEntitlementView option"

datatype MyOrganizationItem =
    FullItem jstring jstring "jstring option" jstring jstring "jstring option" MembershipStatus
      "OrgEntitlementView option"
  | ShortItem jstring jstring "jstring option" MembershipStatus "jstring option"

definition toMyOrganizationItem :: "MyOrganizationSource \<Rightarrow> MyOrganizationItem" where
  "toMyOrganizationItem source =
     (if mos_status source \<noteq> MActive
      then ShortItem (mos_id source) (mos_name source) (mos_logo source) (mos_status source)
             (map_option toISOString (mos_revokedAt source))
      else FullItem (mos_id source) (mos_name source) (mos_logo source) (mos_roleId source)
             (mos_roleName source) (mos_roleKey source) (mos_status source) (mos_entitlement source))"

text \<open>
  Who sees what of the tax identity. Two organizations that differ only in their tax
  number, entity type and branch code, and have both declared something, are shown identically
  to a member without \<open>manage_org_settings\<close>; a member with it sees the number only through the
  mask, so two numbers of thirteen digits with the same last four digits are shown identically
  too.
\<close>

theorem tax_identity_hidden:
  assumes "opr_vatRegistered row \<noteq> None"
  shows "(\<not> hasCapability caps CAPABILITY_MANAGE_ORG_SETTINGS \<longrightarrow>
      toTaxProfileView (row\<lparr>opr_taxEntityType := e, opr_taxId := t, opr_taxBranchCode := b\<rparr>) caps =
      toTaxProfileView row caps) \<and>
    (length s = 13 \<and> length s' = 13 \<and> drop 9 s = drop 9 s' \<and>
     (\<forall>c \<in> set s \<union> set s'. is_digit c) \<longrightarrow>
      toTaxProfileView (row\<lparr>opr_taxId := Some s\<rparr>) caps = toTaxProfileView (row\<lparr>opr_taxId := Some s'\<rparr>) caps)"
proof -
  have "maskTaxId (Some s) = maskTaxId (Some s')"
    if "length s = 13" "length s' = 13" "drop 9 s = drop 9 s'" "\<forall>c \<in> set s \<union> set s'. is_digit c"
  proof -
    from that have "s \<noteq> []" "s' \<noteq> []" by auto
    with that show ?thesis using maskTaxId_plain [of s] maskTaxId_plain [of s'] by simp
  qed
  with assms show ?thesis by (auto simp: toTaxProfileView_def Let_def)
qed

lemma tax_identity_hidden_witness:
  "\<exists>row s s'. s \<noteq> s' \<and> opr_vatRegistered row = Some True \<and>
     toTaxProfileView (row\<lparr>opr_taxId := Some s\<rparr>) [CAPABILITY_FULL_ACCESS] =
     toTaxProfileView (row\<lparr>opr_taxId := Some s'\<rparr>) [CAPABILITY_FULL_ACCESS]"
proof -
  let ?row = "\<lparr>opr_id = [], opr_name = [], opr_logo = None, opr_timezone = [], opr_currency = [],
    opr_taxEntityType = None, opr_taxId = None, opr_vatRegistered = Some True, opr_taxBranchCode = None\<rparr>"
  let ?s = "js ''1101700207366''" and ?s' = "js ''0000000007366''"
  have "toTaxProfileView (?row\<lparr>opr_taxId := Some ?s\<rparr>) [CAPABILITY_FULL_ACCESS] =
      toTaxProfileView (?row\<lparr>opr_taxId := Some ?s'\<rparr>) [CAPABILITY_FULL_ACCESS]"
    by (rule tax_identity_hidden [of ?row "[CAPABILITY_FULL_ACCESS]" None None None ?s ?s',
        THEN conjunct2, THEN mp]) (auto simp: js_def is_digit_def)
  moreover have "?s \<noteq> ?s'" by simp
  ultimately show ?thesis by (metis OrgProfileRow.select_convs(8))
qed

end
