(* ===== verification/Errors.thy ===== *)
theory Errors
  imports OrgProfile Credentials
begin

text \<open>
  What a failing request answers: the error registry and the status fallback
  (\<open>apps/api/src/common/error-codes.ts\<close>), the typed exception (\<open>domain-exception.ts\<close>), the
  classification of database contention (\<open>packages/db/src/org-lock.ts\<close>,
  \<open>apps/api/src/prisma/org-busy.ts\<close>) and the exception filter that writes every error response
  (\<open>domain-exception.filter.ts\<close>). The Thai copy of a message is named, not spelled.
\<close>

section \<open>The registry\<close>

datatype ErrorCode =
    E_UNSUPPORTED_MEDIA_TYPE | E_VALIDATION_FAILED | E_EMAIL_INVALID | E_PASSWORD_TOO_SHORT |
    E_PASSWORD_TOO_LONG | E_PASSWORD_BREACHED | E_ORG_CONTEXT_REQUIRED | E_ORG_MISMATCH |
    E_TAX_ID_INVALID | E_ROLE_INVALID | E_EMAIL_TAKEN | E_CONFLICT | E_INVITATION_PENDING |
    E_INVITATION_LIMIT_REACHED | E_ALREADY_MEMBER | E_INVITATION_SUPERSEDED |
    E_INVITATION_ROLE_UNAVAILABLE | E_INVITATION_EXPIRED | E_INVITATION_CANCELLED |
    E_INVITATION_ALREADY_ACCEPTED | E_INVITATION_INVALID | E_INVITATION_EMAIL_MISMATCH |
    E_ORG_LIMIT_REACHED | E_LAST_OWNER | E_INVALID_CREDENTIALS | E_NO_REFRESH_TOKEN |
    E_INVALID_REFRESH | E_UNAUTHENTICATED | E_CSRF_FAILED | E_FORBIDDEN | E_ORG_ACCESS_DENIED
    | E_NOT_FOUND | E_RATE_LIMITED | E_ORG_PROVISIONING_UNAVAILABLE | E_INTERNAL

text \<open>The machine code on the wire and the HTTP status of each entry.\<close>

fun code_string :: "ErrorCode \<Rightarrow> jstring" where
  "code_string E_UNSUPPORTED_MEDIA_TYPE = js ''UNSUPPORTED_MEDIA_TYPE''"
| "code_string E_VALIDATION_FAILED = js ''VALIDATION_FAILED''"
| "code_string E_EMAIL_INVALID = js ''EMAIL_INVALID''"
| "code_string E_PASSWORD_TOO_SHORT = js ''PASSWORD_TOO_SHORT''"
| "code_string E_PASSWORD_TOO_LONG = js ''PASSWORD_TOO_LONG''"
| "code_string E_PASSWORD_BREACHED = js ''PASSWORD_BREACHED''"
| "code_string E_ORG_CONTEXT_REQUIRED = js ''ORG_CONTEXT_REQUIRED''"
| "code_string E_ORG_MISMATCH = js ''ORG_MISMATCH''"
| "code_string E_TAX_ID_INVALID = js ''TAX_ID_INVALID''"
| "code_string E_ROLE_INVALID = js ''ROLE_INVALID''"
| "code_string E_EMAIL_TAKEN = js ''EMAIL_TAKEN''"
| "code_string E_CONFLICT = js ''CONFLICT''"
| "code_string E_INVITATION_PENDING = js ''INVITATION_PENDING''"
| "code_string E_INVITATION_LIMIT_REACHED = js ''INVITATION_LIMIT_REACHED''"
| "code_string E_ALREADY_MEMBER = js ''ALREADY_MEMBER''"
| "code_string E_INVITATION_SUPERSEDED = js ''INVITATION_SUPERSEDED''"
| "code_string E_INVITATION_ROLE_UNAVAILABLE = js ''INVITATION_ROLE_UNAVAILABLE''"
| "code_string E_INVITATION_EXPIRED = js ''INVITATION_EXPIRED''"
| "code_string E_INVITATION_CANCELLED = js ''INVITATION_CANCELLED''"
| "code_string E_INVITATION_ALREADY_ACCEPTED = js ''INVITATION_ALREADY_ACCEPTED''"
| "code_string E_INVITATION_INVALID = js ''INVITATION_INVALID''"
| "code_string E_INVITATION_EMAIL_MISMATCH = js ''INVITATION_EMAIL_MISMATCH''"
| "code_string E_ORG_LIMIT_REACHED = js ''ORG_LIMIT_REACHED''"
| "code_string E_LAST_OWNER = js ''LAST_OWNER''"
| "code_string E_INVALID_CREDENTIALS = js ''INVALID_CREDENTIALS''"
| "code_string E_NO_REFRESH_TOKEN = js ''NO_REFRESH_TOKEN''"
| "code_string E_INVALID_REFRESH = js ''INVALID_REFRESH''"
| "code_string E_UNAUTHENTICATED = js ''UNAUTHENTICATED''"
| "code_string E_CSRF_FAILED = js ''CSRF_FAILED''"
| "code_string E_FORBIDDEN = js ''FORBIDDEN''"
| "code_string E_ORG_ACCESS_DENIED = js ''ORG_ACCESS_DENIED''"
| "code_string E_NOT_FOUND = js ''NOT_FOUND''"
| "code_string E_RATE_LIMITED = js ''RATE_LIMITED''"
| "code_string E_ORG_PROVISIONING_UNAVAILABLE = js ''ORG_PROVISIONING_UNAVAILABLE''"
| "code_string E_INTERNAL = js ''INTERNAL''"

fun status_of :: "ErrorCode \<Rightarrow> nat" where
  "status_of E_UNSUPPORTED_MEDIA_TYPE = 415"
| "status_of E_VALIDATION_FAILED = 422"
| "status_of E_EMAIL_INVALID = 422"
| "status_of E_PASSWORD_TOO_SHORT = 422"
| "status_of E_PASSWORD_TOO_LONG = 422"
| "status_of E_PASSWORD_BREACHED = 422"
| "status_of E_ORG_CONTEXT_REQUIRED = 422"
| "status_of E_ORG_MISMATCH = 422"
| "status_of E_TAX_ID_INVALID = 422"
| "status_of E_ROLE_INVALID = 422"
| "status_of E_EMAIL_TAKEN = 409"
| "status_of E_CONFLICT = 409"
| "status_of E_INVITATION_PENDING = 409"
| "status_of E_INVITATION_LIMIT_REACHED = 409"
| "status_of E_ALREADY_MEMBER = 409"
| "status_of E_INVITATION_SUPERSEDED = 409"
| "status_of E_INVITATION_ROLE_UNAVAILABLE = 409"
| "status_of E_INVITATION_EXPIRED = 409"
| "status_of E_INVITATION_CANCELLED = 409"
| "status_of E_INVITATION_ALREADY_ACCEPTED = 409"
| "status_of E_INVITATION_INVALID = 404"
| "status_of E_INVITATION_EMAIL_MISMATCH = 403"
| "status_of E_ORG_LIMIT_REACHED = 409"
| "status_of E_LAST_OWNER = 409"
| "status_of E_INVALID_CREDENTIALS = 401"
| "status_of E_NO_REFRESH_TOKEN = 401"
| "status_of E_INVALID_REFRESH = 401"
| "status_of E_UNAUTHENTICATED = 401"
| "status_of E_CSRF_FAILED = 403"
| "status_of E_FORBIDDEN = 403"
| "status_of E_ORG_ACCESS_DENIED = 403"
| "status_of E_NOT_FOUND = 404"
| "status_of E_RATE_LIMITED = 429"
| "status_of E_ORG_PROVISIONING_UNAVAILABLE = 503"
| "status_of E_INTERNAL = 500"

lemma code_string_inj: "code_string c = code_string d \<longleftrightarrow> c = d"
  by (cases c; cases d) simp_all

definition codeForStatus :: "nat \<Rightarrow> ErrorCode" where
  "codeForStatus status =
     (if status = 415 then E_UNSUPPORTED_MEDIA_TYPE
      else if status = 422 then E_VALIDATION_FAILED
      else if status = 409 then E_CONFLICT
      else if status = 401 then E_UNAUTHENTICATED
      else if status = 403 then E_FORBIDDEN
      else if status = 404 then E_NOT_FOUND
      else if status = 429 then E_RATE_LIMITED
      else E_INTERNAL)"

text \<open>The fallback code of a status is a registry entry of that status, or INTERNAL.\<close>

lemma codeForStatus_status: "status_of (codeForStatus s) = s \<or> codeForStatus s = E_INTERNAL"
  by (simp add: codeForStatus_def)

section \<open>The typed exception\<close>

datatype Copy = DefaultMessage ErrorCode | Literal jstring

datatype FieldCopy =
    TaxCopy TaxMessage | OrgCopy OrgMessage | ROLE_INVALID_COPY | EMAIL_INVALID_COPY
  | CURSOR_INVALID_MESSAGE | LIMIT_INVALID_MESSAGE | STATUS_INVALID_MESSAGE | EMAIL_REQUIRED_MESSAGE
  | ROLE_ID_REQUIRED_MESSAGE | TOKEN_REQUIRED_MESSAGE | LiteralCopy jstring

record DomainExceptionOptions =
  dxo_message :: "jstring option"
  dxo_details :: "jsv option"
  dxo_fieldErrors :: "(jstring \<times> FieldCopy) list option"
  dxo_headers :: "(jstring \<times> jstring) list option"

record DomainException =
  dx_code :: ErrorCode
  dx_message :: Copy
  dx_details :: "jsv option"
  dx_fieldErrors :: "(jstring \<times> FieldCopy) list option"
  dx_responseHeaders :: "(jstring \<times> jstring) list option"

definition no_options :: DomainExceptionOptions where
  "no_options = \<lparr>dxo_message = None, dxo_details = None, dxo_fieldErrors = None, dxo_headers = None\<rparr>"

definition domainError :: "ErrorCode \<Rightarrow> DomainExceptionOptions \<Rightarrow> DomainException" where
  "domainError key opts =
     \<lparr>dx_code = key,
      dx_message = (case dxo_message opts of None \<Rightarrow> DefaultMessage key | Some m \<Rightarrow> Literal m),
      dx_details = dxo_details opts, dx_fieldErrors = dxo_fieldErrors opts,
      dx_responseHeaders = dxo_headers opts\<rparr>"

lemma dx_code_domainError [simp]: "dx_code (domainError k opts) = k"
  by (simp add: domainError_def)

section \<open>Database contention\<close>

datatype OrgBusyReason = Busy_lock_timeout | Busy_deadlock | Busy_serialization | Busy_tx_timeout | Busy_pool_timeout

record OrgBusyError =
  obe_reason :: OrgBusyReason
  obe_sqlState :: "jstring option"
  obe_prismaCode :: "jstring option"
  obe_operation :: "jstring option"

definition ORG_BUSY_HTTP_STATUS :: nat where "ORG_BUSY_HTTP_STATUS = 409"
definition ORG_BUSY_ERROR_CODE :: jstring where "ORG_BUSY_ERROR_CODE = js ''CONFLICT''"
definition ORG_BUSY_DETAILS :: jsv where
  "ORG_BUSY_DETAILS = JObj [(js ''reason'', JStr (js ''busy''))]"

definition OrgBusyError_alert :: "OrgBusyReason \<Rightarrow> bool" where
  "OrgBusyError_alert reason \<longleftrightarrow> reason = Busy_deadlock \<or> reason = Busy_serialization"

definition SQLSTATE_REASON :: "jstring \<Rightarrow> OrgBusyReason option" where
  "SQLSTATE_REASON s =
     (if s = js ''55P03'' then Some Busy_lock_timeout
      else if s = js ''40P01'' then Some Busy_deadlock
      else if s = js ''40001'' then Some Busy_serialization
      else None)"

definition PRISMA_CODE_REASON :: "jstring \<Rightarrow> OrgBusyReason option" where
  "PRISMA_CODE_REASON s =
     (if s = js ''P2034'' then Some Busy_serialization
      else if s = js ''P2028'' then Some Busy_tx_timeout
      else if s = js ''P2024'' then Some Busy_pool_timeout
      else None)"

text \<open>\<open>v.k\<close> on a value that is not \<open>null\<close> or \<open>undefined\<close>; other values have no such member.\<close>

definition get_prop :: "jsv \<Rightarrow> jstring \<Rightarrow> jsv" where
  "get_prop v k = (case v of JObj kvs \<Rightarrow> (case map_of kvs k of Some x \<Rightarrow> x | None \<Rightarrow> JUndef) | _ \<Rightarrow> JUndef)"

definition is_object :: "jsv \<Rightarrow> bool" where
  "is_object v \<longleftrightarrow> (case v of JObj _ \<Rightarrow> True | JArr _ \<Rightarrow> True | _ \<Rightarrow> False)"

definition is_prisma_code :: "jstring \<Rightarrow> bool" where
  "is_prisma_code s \<longleftrightarrow> length s = 5 \<and> hd s = 80 \<and> list_all is_digit (tl s)"

definition readErrorCodes :: "jsv \<Rightarrow> jstring option \<times> jstring option" where
  "readErrorCodes error =
     (if \<not> is_object error then (None, None)
      else
        (let code = get_prop error (js ''code'');
             prismaCode = (case code of JStr c \<Rightarrow> if is_prisma_code c then Some c else None | _ \<Rightarrow> None);
             metaCode = get_prop (get_prop error (js ''meta'')) (js ''code'');
             sqlState = (case metaCode of
                 JStr m \<Rightarrow> Some m
               | _ \<Rightarrow> (case code of JStr c \<Rightarrow> if prismaCode = None then Some c else None | _ \<Rightarrow> None))
         in (sqlState, prismaCode)))"

definition classifyOrgLockError :: "jsv \<Rightarrow> OrgBusyReason option" where
  "classifyOrgLockError error =
     (let (sqlState, prismaCode) = readErrorCodes error in
      case Option.bind sqlState SQLSTATE_REASON of
        Some r \<Rightarrow> Some r
      | None \<Rightarrow> Option.bind prismaCode PRISMA_CODE_REASON)"

definition toOrgBusyError :: "jsv \<Rightarrow> jstring option \<Rightarrow> OrgBusyError option" where
  "toOrgBusyError error operation =
     (case classifyOrgLockError error of
        None \<Rightarrow> None
      | Some reason \<Rightarrow>
          (let (sqlState, prismaCode) = readErrorCodes error in
           Some \<lparr>obe_reason = reason, obe_sqlState = sqlState, obe_prismaCode = prismaCode,
                 obe_operation = operation\<rparr>))"

text \<open>Only the six contention codes are ever classified.\<close>

lemma classify_narrow:
  assumes "classifyOrgLockError e = Some r"
  shows "\<exists>c. (fst (readErrorCodes e) = Some c \<and> c \<in> {js ''55P03'', js ''40P01'', js ''40001''}) \<or>
             (snd (readErrorCodes e) = Some c \<and> c \<in> {js ''P2034'', js ''P2028'', js ''P2024''})"
proof -
  obtain s p where e: "readErrorCodes e = (s, p)" by (cases "readErrorCodes e")
  from assms show ?thesis
    by (cases s; cases p)
      (auto simp: classifyOrgLockError_def e SQLSTATE_REASON_def PRISMA_CODE_REASON_def split: if_splits)
qed

section \<open>What may be thrown\<close>

text \<open>
  The values a request may throw: a typed exception, a classified contention error, a framework
  exception with its status and response, or anything else (a driver error, a plain
  \<open>Error\<close>).
\<close>

datatype Thrown =
    TDomain DomainException
  | TBusy OrgBusyError
  | THttp nat jsv
  | TRaw jsv

definition derr :: "ErrorCode \<Rightarrow> Thrown" where
  "derr key = TDomain (domainError key no_options)"

definition derr_details :: "ErrorCode \<Rightarrow> (jstring \<times> jsv) list \<Rightarrow> Thrown" where
  "derr_details key d = TDomain (domainError key (no_options\<lparr>dxo_details := Some (JObj d)\<rparr>))"

definition derr_fields :: "ErrorCode \<Rightarrow> (jstring \<times> FieldCopy) list \<Rightarrow> Thrown" where
  "derr_fields key f = TDomain (domainError key (no_options\<lparr>dxo_fieldErrors := Some f\<rparr>))"

text \<open>The registry code a thrown value carries, if it is one of ours.\<close>

definition code_of :: "Thrown \<Rightarrow> ErrorCode option" where
  "code_of t = (case t of TDomain d \<Rightarrow> Some (dx_code d) | _ \<Rightarrow> None)"

lemma code_of_simps [simp]:
  "code_of (derr k) = Some k" "code_of (derr_details k d) = Some k" "code_of (derr_fields k f) = Some k"
  "code_of (TBusy b) = None" "code_of (TRaw v) = None" "code_of (THttp s v) = None"
  by (simp_all add: code_of_def derr_def derr_details_def derr_fields_def)

definition rethrowOrgLockError :: "Thrown \<Rightarrow> jstring option \<Rightarrow> Thrown" where
  "rethrowOrgLockError t operation =
     (case t of TRaw e \<Rightarrow> (case toOrgBusyError e operation of Some b \<Rightarrow> TBusy b | None \<Rightarrow> t)
      | _ \<Rightarrow> t)"

lemma rethrow_domain [simp]:
  "rethrowOrgLockError (derr k) op = derr k"
  "rethrowOrgLockError (derr_details k d) op = derr_details k d"
  "rethrowOrgLockError (derr_fields k f) op = derr_fields k f"
  by (simp_all add: rethrowOrgLockError_def derr_def derr_details_def derr_fields_def)

lemma code_of_rethrow [simp]: "code_of (rethrowOrgLockError t op) = code_of t"
  by (cases t) (auto simp: rethrowOrgLockError_def code_of_def split: option.splits)

section \<open>The exception filter\<close>

record OrgBusyDescription =
  obd_status :: jsnum
  obd_code :: jstring
  obd_details :: jsv

definition looks_like_busy :: "jsv \<Rightarrow> bool" where
  "looks_like_busy v \<longleftrightarrow> is_object v \<and> get_prop v (js ''name'') = JStr (js ''OrgBusyError'') \<and>
     (\<exists>n. get_prop v (js ''httpStatus'') = JNum n) \<and> (\<exists>c. get_prop v (js ''errorCode'') = JStr c) \<and>
     is_object (get_prop v (js ''details''))"

lemma looks_like_busy_code [code]:
  "looks_like_busy v \<longleftrightarrow> is_object v \<and> get_prop v (js ''name'') = JStr (js ''OrgBusyError'') \<and>
     (case get_prop v (js ''httpStatus'') of JNum _ \<Rightarrow> True | _ \<Rightarrow> False) \<and>
     (case get_prop v (js ''errorCode'') of JStr _ \<Rightarrow> True | _ \<Rightarrow> False) \<and>
     is_object (get_prop v (js ''details''))"
  by (auto simp: looks_like_busy_def split: jsv.splits)

definition busy_description :: OrgBusyDescription where
  "busy_description = \<lparr>obd_status = of_nat_num ORG_BUSY_HTTP_STATUS, obd_code = ORG_BUSY_ERROR_CODE,
     obd_details = ORG_BUSY_DETAILS\<rparr>"

definition describeOrgBusy :: "Thrown \<Rightarrow> OrgBusyDescription option" where
  "describeOrgBusy t =
     (case t of
        TBusy b \<Rightarrow> Some busy_description
      | TRaw v \<Rightarrow>
          (if looks_like_busy v then
             (case (get_prop v (js ''httpStatus''), get_prop v (js ''errorCode'')) of
                (JNum n, JStr c) \<Rightarrow> Some \<lparr>obd_status = n, obd_code = c, obd_details = get_prop v (js ''details'')\<rparr>
              | _ \<Rightarrow> None)
           else map_option (\<lambda>_. busy_description) (toOrgBusyError v None))
      | _ \<Rightarrow> None)"

text \<open>
  The envelope's fields; \<open>fieldErrors\<close> of a foreign envelope is carried as the value it holds.
\<close>

datatype FieldErrorsBody = Named "(jstring \<times> FieldCopy) list" | Foreign jsv

record WireError =
  we_code :: jstring
  we_message :: Copy
  we_details :: "jsv option"
  we_fieldErrors :: "FieldErrorsBody option"
  we_traceId :: jstring

datatype LogLevel = LogWarn | LogError

record WireResponse =
  wr_status :: jsnum
  wr_headers :: "(jstring \<times> jstring) list"
  wr_error :: WireError
  wr_log :: LogLevel
  wr_upstream :: "jstring option"

text \<open>\<open>res.setHeader\<close>: the name is compared without case, the new value replaces the old one.\<close>

definition same_header :: "jstring \<Rightarrow> jstring \<Rightarrow> bool" where
  "same_header a b \<longleftrightarrow> ascii_lower a = ascii_lower b"

definition setHeader :: "jstring \<Rightarrow> jstring \<Rightarrow> (jstring \<times> jstring) list \<Rightarrow> (jstring \<times> jstring) list" where
  "setHeader name value hs = filter (\<lambda>h. \<not> same_header (fst h) name) hs @ [(name, value)]"

definition applyHeaders ::
    "(jstring \<times> jstring) list option \<Rightarrow> (jstring \<times> jstring) list \<Rightarrow> (jstring \<times> jstring) list" where
  "applyHeaders headers res =
     (case headers of None \<Rightarrow> res | Some hs \<Rightarrow> fold (\<lambda>(n, v). setHeader n v) hs res)"

definition REQUEST_ID_HEADER :: jstring where "REQUEST_ID_HEADER = js ''X-Request-Id''"

definition header_values :: "jstring \<Rightarrow> (jstring \<times> jstring) list \<Rightarrow> jstring list" where
  "header_values name hs = map snd (filter (\<lambda>h. same_header (fst h) name) hs)"

definition is_request_id_char :: "nat \<Rightarrow> bool" where
  "is_request_id_char c \<longleftrightarrow> (65 \<le> c \<and> c \<le> 90) \<or> (97 \<le> c \<and> c \<le> 122) \<or> is_digit c \<or> c = 46 \<or> c = 95 \<or> c = 45"

text \<open>\<open>None\<close> for an absent header; a repeated header is the list of its values.\<close>

definition extractUpstreamRequestId ::
    "jstring list option \<Rightarrow> jstring list option \<Rightarrow> jstring option" where
  "extractUpstreamRequestId xRequestId xTraceId =
     (let raw = (case xRequestId of Some r \<Rightarrow> Some r | None \<Rightarrow> xTraceId) in
      case raw of
        None \<Rightarrow> None
      | Some [] \<Rightarrow> None
      | Some (v # _) \<Rightarrow>
          if v = [] then None
          else if 1 \<le> length v \<and> length v \<le> 128 \<and> list_all is_request_id_char v then Some v
          else Some (js ''<rejected>''))"

definition is_envelope :: "jsv \<Rightarrow> bool" where
  "is_envelope x \<longleftrightarrow> is_object x \<and> is_object (get_prop x (js ''error'')) \<and>
     (case get_prop (get_prop x (js ''error'')) (js ''code'') of JStr _ \<Rightarrow> True | _ \<Rightarrow> False) \<and>
     (case get_prop (get_prop x (js ''error'')) (js ''message'') of JStr _ \<Rightarrow> True | _ \<Rightarrow> False)"

definition str_of :: "jsv \<Rightarrow> jstring" where
  "str_of v = (case v of JStr s \<Rightarrow> s | _ \<Rightarrow> [])"

definition truthy :: "jsv \<Rightarrow> bool" where
  "truthy v = (case v of JUndef \<Rightarrow> False | JNull \<Rightarrow> False | JBool b \<Rightarrow> b
     | JNum n \<Rightarrow> n \<noteq> NaN \<and> n \<noteq> Fin 0 | JStr s \<Rightarrow> s \<noteq> [] | _ \<Rightarrow> True)"

definition is_str :: "jsv \<Rightarrow> bool" where
  "is_str v = (case v of JStr _ \<Rightarrow> True | _ \<Rightarrow> False)"

fun join_comma :: "jstring list \<Rightarrow> jstring" where
  "join_comma [] = []"
| "join_comma [p] = p"
| "join_comma (p # q # ps) = p @ [44, 32] @ join_comma (q # ps)"

definition extractPlainMessage :: "jsv \<Rightarrow> jstring option" where
  "extractPlainMessage body =
     (case body of
        JStr s \<Rightarrow> Some s
      | _ \<Rightarrow>
          if is_object body then
            (case get_prop body (js ''message'') of
               JStr m \<Rightarrow> Some m
             | JArr ms \<Rightarrow> if list_all is_str ms then Some (join_comma (map str_of ms)) else None
             | _ \<Rightarrow> None)
          else None)"

definition fromHttpException :: "jsv \<Rightarrow> nat \<Rightarrow> jstring \<Rightarrow> WireError" where
  "fromHttpException body status traceId =
     (if is_envelope body then
        (let e = get_prop body (js ''error''); d = get_prop e (js ''details'');
             f = get_prop e (js ''fieldErrors'')
         in \<lparr>we_code = str_of (get_prop e (js ''code'')), we_message = Literal (str_of (get_prop e (js ''message''))),
             we_details = (if truthy d then Some d else None),
             we_fieldErrors = (if truthy f then Some (Foreign f) else None), we_traceId = traceId\<rparr>)
      else
        \<lparr>we_code = code_string (codeForStatus status),
         we_message = (if status \<ge> 500 then DefaultMessage E_INTERNAL
                       else (case extractPlainMessage body of Some m \<Rightarrow> Literal m | None \<Rightarrow> DefaultMessage E_INTERNAL)),
         we_details = None, we_fieldErrors = None, we_traceId = traceId\<rparr>)"

definition send ::
    "(jstring \<times> jstring) list \<Rightarrow> jsnum \<Rightarrow> WireError \<Rightarrow> jstring option \<Rightarrow> WireResponse" where
  "send res status err upstreamRequestId =
     \<lparr>wr_status = status, wr_headers = setHeader REQUEST_ID_HEADER (we_traceId err) res, wr_error = err,
      wr_log = (if num_ge status (Fin 500) then LogError else LogWarn), wr_upstream = upstreamRequestId\<rparr>"

definition catch_exception ::
    "(jstring \<times> jstring) list \<Rightarrow> jstring \<Rightarrow> jstring option \<Rightarrow> Thrown \<Rightarrow> WireResponse" where
  "catch_exception res traceId upstream exception =
     (case exception of
        TDomain d \<Rightarrow>
          send (applyHeaders (dx_responseHeaders d) res) (of_nat_num (status_of (dx_code d)))
            \<lparr>we_code = code_string (dx_code d), we_message = dx_message d, we_details = dx_details d,
             we_fieldErrors = map_option Named (dx_fieldErrors d), we_traceId = traceId\<rparr> upstream
      | _ \<Rightarrow>
         (case describeOrgBusy exception of
            Some busy \<Rightarrow>
              send res (obd_status busy)
                \<lparr>we_code = obd_code busy, we_message = DefaultMessage E_CONFLICT,
                 we_details = Some (obd_details busy), we_fieldErrors = None, we_traceId = traceId\<rparr> upstream
          | None \<Rightarrow>
             (case exception of
                THttp status body \<Rightarrow>
                  send res (of_nat_num status) (fromHttpException body status traceId) upstream
              | _ \<Rightarrow>
                  send res (of_nat_num 500)
                    \<lparr>we_code = code_string E_INTERNAL, we_message = DefaultMessage E_INTERNAL,
                     we_details = None, we_fieldErrors = None, we_traceId = traceId\<rparr> upstream)))"

lemma setHeader_values: "header_values name (setHeader name v hs) = [v]"
proof -
  have "filter (\<lambda>h. same_header (fst h) name) (filter (\<lambda>h. \<not> same_header (fst h) name) hs) = []"
    by (simp add: filter_empty_conv)
  moreover have "same_header name name" by (simp add: same_header_def)
  ultimately show ?thesis by (simp add: header_values_def setHeader_def del: filter_filter)
qed

lemma send_trace: "header_values REQUEST_ID_HEADER (wr_headers (send res s e u)) = [we_traceId e]"
  by (simp add: send_def setHeader_values)

lemma catch_exception_send:
  "\<exists>hs status err. catch_exception res traceId u t = send hs status err u \<and> we_traceId err = traceId"
  by (cases t; cases "describeOrgBusy t")
    (auto simp: catch_exception_def fromHttpException_def Let_def intro!: exI)

text \<open>
  Every error response, whatever was thrown. It carries the server-issued trace id in the
  body and as the only value of X-Request-Id, even when the exception brings a header of that
  name; the identifier the client sent changes only the log. Contention raised by the database
  (SQLSTATE 55P03, 40P01, 40001, Prisma P2034, P2028, P2024) is 409 CONFLICT with the fixed
  details, and a thrown value that is neither ours, nor contention, nor a framework exception is
  500 INTERNAL with no detail of it.
\<close>

theorem error_response_envelope:
  "header_values REQUEST_ID_HEADER (wr_headers (catch_exception res traceId u t)) = [traceId] \<and>
   we_traceId (wr_error (catch_exception res traceId u t)) = traceId \<and>
   catch_exception res traceId u' t = (catch_exception res traceId u t)\<lparr>wr_upstream := u'\<rparr> \<and>
   (let r = catch_exception res traceId u (rethrowOrgLockError (TRaw e) operation) in
      looks_like_busy e \<or>
      (wr_status r, we_code (wr_error r), we_details (wr_error r), we_fieldErrors (wr_error r)) =
        (if classifyOrgLockError e = None then (Fin 500, js ''INTERNAL'', None, None)
         else (Fin 409, js ''CONFLICT'', Some (JObj [(js ''reason'', JStr (js ''busy''))]), None)))"
proof (intro conjI)
  obtain hs status err where c: "catch_exception res traceId u t = send hs status err u"
    and tr: "we_traceId err = traceId"
    using catch_exception_send by blast
  show "header_values REQUEST_ID_HEADER (wr_headers (catch_exception res traceId u t)) = [traceId]"
    by (simp add: c send_trace tr)
  show "we_traceId (wr_error (catch_exception res traceId u t)) = traceId"
    by (simp add: c send_def tr)
  show "catch_exception res traceId u' t = (catch_exception res traceId u t)\<lparr>wr_upstream := u'\<rparr>"
    by (cases t) (simp_all add: catch_exception_def send_def Let_def split: option.splits)
  show "let r = catch_exception res traceId u (rethrowOrgLockError (TRaw e) operation) in
      looks_like_busy e \<or>
      (wr_status r, we_code (wr_error r), we_details (wr_error r), we_fieldErrors (wr_error r)) =
        (if classifyOrgLockError e = None then (Fin 500, js ''INTERNAL'', None, None)
         else (Fin 409, js ''CONFLICT'', Some (JObj [(js ''reason'', JStr (js ''busy''))]), None))"
    by (cases "classifyOrgLockError e")
      (auto simp: Let_def catch_exception_def rethrowOrgLockError_def toOrgBusyError_def
        describeOrgBusy_def send_def busy_description_def ORG_BUSY_HTTP_STATUS_def
        ORG_BUSY_ERROR_CODE_def ORG_BUSY_DETAILS_def of_nat_num_def split: prod.splits)
qed

end
