(* ===== verification/SecurityEvents.thy ===== *)
theory SecurityEvents
  imports Errors
begin

text \<open>
  The audit events of \<open>apps/api/src/auth/security-events.service.ts\<close>: their types, the keys each
  may carry, and the filter every payload passes before it leaves the service. A payload is the
  list of its entries. The services of the model return the events they emit after their
  transaction committed.
\<close>

section \<open>Types and keys\<close>

datatype SecurityEventType =
    Ev_auth_refresh_reuse_detected | Ev_auth_password_admin_reset |
    Ev_auth_password_self_changed | Ev_auth_throttle_fail_open | Ev_org_created |
    Ev_org_invitation_created | Ev_org_invitation_link_reissued | Ev_org_invitation_cancelled |
    Ev_org_invitation_accepted | Ev_org_member_reactivated | Ev_org_member_role_changed |
    Ev_org_member_revoked | Ev_org_member_left | Ev_org_tax_profile_set |
    Ev_org_tax_profile_revealed | Ev_org_access_denied | Ev_org_access_capability_denied |
    Ev_auth_password_admin_reset_blocked_multi_org |
    Ev_auth_password_admin_reset_blocked_owner_target

definition F001_SECURITY_EVENT_TYPES :: "SecurityEventType list" where
  "F001_SECURITY_EVENT_TYPES =
     [Ev_auth_refresh_reuse_detected, Ev_auth_password_admin_reset,
      Ev_auth_password_self_changed, Ev_auth_throttle_fail_open]"

definition F002_SECURITY_EVENT_TYPES :: "SecurityEventType list" where
  "F002_SECURITY_EVENT_TYPES =
     [Ev_org_created, Ev_org_invitation_created, Ev_org_invitation_link_reissued,
      Ev_org_invitation_cancelled, Ev_org_invitation_accepted, Ev_org_member_reactivated,
      Ev_org_member_role_changed, Ev_org_member_revoked, Ev_org_member_left,
      Ev_org_tax_profile_set, Ev_org_tax_profile_revealed, Ev_org_access_denied,
      Ev_org_access_capability_denied, Ev_auth_password_admin_reset_blocked_multi_org,
      Ev_auth_password_admin_reset_blocked_owner_target]"

definition SECURITY_EVENT_TYPES :: "SecurityEventType list" where
  "SECURITY_EVENT_TYPES = F001_SECURITY_EVENT_TYPES @ F002_SECURITY_EVENT_TYPES"

fun SECURITY_EVENT_PAYLOAD_KEYS :: "SecurityEventType \<Rightarrow> jstring list" where
  "SECURITY_EVENT_PAYLOAD_KEYS Ev_auth_refresh_reuse_detected =
     [js ''userId'', js ''familyId'', js ''deviceId'']"
| "SECURITY_EVENT_PAYLOAD_KEYS Ev_auth_password_admin_reset =
     [js ''actorUserId'', js ''orgId'', js ''targetUserId'']"
| "SECURITY_EVENT_PAYLOAD_KEYS Ev_auth_password_self_changed =
     [js ''userId'']"
| "SECURITY_EVENT_PAYLOAD_KEYS Ev_auth_throttle_fail_open =
     [js ''ip'']"
| "SECURITY_EVENT_PAYLOAD_KEYS Ev_org_created =
     [js ''actorUserId'', js ''organizationId'', js ''planKey'']"
| "SECURITY_EVENT_PAYLOAD_KEYS Ev_org_invitation_created =
     [js ''actorUserId'', js ''organizationId'', js ''emailMasked'', js ''roleId'',
      js ''invitationId'']"
| "SECURITY_EVENT_PAYLOAD_KEYS Ev_org_invitation_link_reissued =
     [js ''actorUserId'', js ''organizationId'', js ''invitationId'']"
| "SECURITY_EVENT_PAYLOAD_KEYS Ev_org_invitation_cancelled =
     [js ''actorUserId'', js ''organizationId'', js ''invitationId'']"
| "SECURITY_EVENT_PAYLOAD_KEYS Ev_org_invitation_accepted =
     [js ''userId'', js ''organizationId'', js ''invitationId'', js ''roleId'',
      js ''acceptedByUserId'', js ''userCreatedAt'', js ''userCreatedAfterTokenIssued'']"
| "SECURITY_EVENT_PAYLOAD_KEYS Ev_org_member_reactivated =
     [js ''userId'', js ''organizationId'', js ''invitationId'', js ''roleId'',
      js ''previousRevokedAt'']"
| "SECURITY_EVENT_PAYLOAD_KEYS Ev_org_member_role_changed =
     [js ''actorUserId'', js ''organizationId'', js ''targetUserId'', js ''fromRoleId'',
      js ''toRoleId'', js ''grantsFullAccess'']"
| "SECURITY_EVENT_PAYLOAD_KEYS Ev_org_member_revoked =
     [js ''actorUserId'', js ''organizationId'', js ''targetUserId'',
      js ''cancelledInvitationIds'']"
| "SECURITY_EVENT_PAYLOAD_KEYS Ev_org_member_left =
     [js ''userId'', js ''organizationId'', js ''roleId'', js ''cancelledInvitationIds'']"
| "SECURITY_EVENT_PAYLOAD_KEYS Ev_org_tax_profile_set =
     [js ''actorUserId'', js ''organizationId'', js ''taxEntityType'', js ''vatRegistered'',
      js ''taxIdPresent'']"
| "SECURITY_EVENT_PAYLOAD_KEYS Ev_org_tax_profile_revealed =
     [js ''actorUserId'', js ''organizationId'']"
| "SECURITY_EVENT_PAYLOAD_KEYS Ev_org_access_denied =
     [js ''userId'', js ''organizationId'', js ''reason'']"
| "SECURITY_EVENT_PAYLOAD_KEYS Ev_org_access_capability_denied =
     [js ''userId'', js ''organizationId'', js ''route'', js ''requiredCapability'',
      js ''reason'']"
| "SECURITY_EVENT_PAYLOAD_KEYS Ev_auth_password_admin_reset_blocked_multi_org =
     [js ''actorUserId'', js ''orgId'', js ''targetUserId'']"
| "SECURITY_EVENT_PAYLOAD_KEYS Ev_auth_password_admin_reset_blocked_owner_target =
     [js ''actorUserId'', js ''orgId'', js ''targetUserId'']"

definition STRICT_PAYLOAD_EVENT_TYPES :: "SecurityEventType list" where
  "STRICT_PAYLOAD_EVENT_TYPES =
     [Ev_org_tax_profile_set, Ev_org_tax_profile_revealed,
      Ev_auth_password_admin_reset_blocked_multi_org,
      Ev_auth_password_admin_reset_blocked_owner_target, Ev_org_invitation_created,
      Ev_org_invitation_accepted, Ev_org_invitation_link_reissued, Ev_org_invitation_cancelled,
      Ev_org_member_reactivated]"

definition REDACTED_PAYLOAD_KEYS :: "jstring list" where
  "REDACTED_PAYLOAD_KEYS =
     [js ''email'', js ''password'', js ''newpassword'', js ''currentpassword'',
      js ''passwordhash'', js ''hash'', js ''secret'', js ''token'', js ''rawtoken'',
      js ''tokenhash'', js ''accesstoken'', js ''refreshtoken'', js ''taxid'',
      js ''taxidmasked'', js ''nationalid'']"

lemma every_type_listed: "t \<in> set SECURITY_EVENT_TYPES"
  by (cases t) (simp_all add: SECURITY_EVENT_TYPES_def F001_SECURITY_EVENT_TYPES_def
      F002_SECURITY_EVENT_TYPES_def)

lemma F002_count: "length F002_SECURITY_EVENT_TYPES = 15 \<and> distinct SECURITY_EVENT_TYPES"
  by (simp add: SECURITY_EVENT_TYPES_def F001_SECURITY_EVENT_TYPES_def F002_SECURITY_EVENT_TYPES_def)

section \<open>The filter\<close>

type_synonym payload = "(jstring \<times> jsv) list"

text \<open>\<open>lower\<close> is \<open>toLowerCase\<close>; the result is the kept payload and the names of the dropped keys.\<close>

fun sanitize_loop ::
    "(jstring \<Rightarrow> jstring) \<Rightarrow> bool \<Rightarrow> jstring list \<Rightarrow> payload \<Rightarrow> payload \<Rightarrow> jstring list \<Rightarrow> payload \<times> jstring list"
  where
  "sanitize_loop lower strict allowed [] kept dropped = (kept, dropped)"
| "sanitize_loop lower strict allowed ((key, v) # rest) kept dropped =
     (if List.member REDACTED_PAYLOAD_KEYS (lower key)
      then sanitize_loop lower strict allowed rest kept (dropped @ [key])
      else if strict \<and> \<not> List.member allowed key
      then sanitize_loop lower strict allowed rest kept (dropped @ [key])
      else sanitize_loop lower strict allowed rest (kept @ [(key, v)]) dropped)"

definition sanitizePayload ::
    "(jstring \<Rightarrow> jstring) \<Rightarrow> SecurityEventType \<Rightarrow> payload \<Rightarrow> payload \<times> jstring list" where
  "sanitizePayload lower type payload =
     (let strict = List.member STRICT_PAYLOAD_EVENT_TYPES type;
          allowed = SECURITY_EVENT_PAYLOAD_KEYS type
      in sanitize_loop lower strict allowed payload [] [])"

record SecurityEvent =
  ev_type :: SecurityEventType
  ev_payload :: payload
  ev_at :: int

text \<open>\<open>emit\<close>: the event the sinks receive and the keys named in the warning, if any.\<close>

definition emit ::
    "(jstring \<Rightarrow> jstring) \<Rightarrow> int \<Rightarrow> SecurityEventType \<Rightarrow> payload \<Rightarrow> SecurityEvent \<times> jstring list" where
  "emit lower now type payload =
     (let (safePayload, dropped) = sanitizePayload lower type payload
      in (\<lparr>ev_type = type, ev_payload = safePayload, ev_at = now\<rparr>, dropped))"

definition keeps :: "(jstring \<Rightarrow> jstring) \<Rightarrow> SecurityEventType \<Rightarrow> jstring \<Rightarrow> bool" where
  "keeps lower type key \<longleftrightarrow>
     lower key \<notin> set REDACTED_PAYLOAD_KEYS \<and>
     (type \<in> set STRICT_PAYLOAD_EVENT_TYPES \<longrightarrow> key \<in> set (SECURITY_EVENT_PAYLOAD_KEYS type))"

lemma sanitize_loop_eq:
  "sanitize_loop lower strict allowed p kept dropped =
     (let k = (\<lambda>e. lower (fst e) \<notin> set REDACTED_PAYLOAD_KEYS \<and> (strict \<longrightarrow> fst e \<in> set allowed))
      in (kept @ filter k p, dropped @ map fst (filter (\<lambda>e. \<not> k e) p)))"
  by (induction lower strict allowed p kept dropped rule: sanitize_loop.induct)
    (auto simp: Let_def)

lemma sanitize_eq:
  "sanitizePayload lower type p =
     (filter (\<lambda>e. keeps lower type (fst e)) p, map fst (filter (\<lambda>e. \<not> keeps lower type (fst e)) p))"
  by (auto simp: sanitizePayload_def sanitize_loop_eq Let_def keeps_def)

lemma sanitize_idem:
  "fst (sanitizePayload lower type (fst (sanitizePayload lower type p))) = fst (sanitizePayload lower type p)"
  by (simp add: sanitize_eq)

lemma emit_payload: "ev_payload (fst (emit lower now type p)) = filter (\<lambda>e. keeps lower type (fst e)) p"
  by (simp add: emit_def sanitize_eq)

lemma emit_type [simp]: "ev_type (fst (emit lower now type p)) = type"
  by (simp add: emit_def sanitize_eq)

text \<open>
  What an audit event may carry. Of every event the filter keeps exactly the entries, in
  order and unchanged, whose lower-cased key is not a secret name and, for the strict families,
  whose key is documented for the event; so an event never carries an entry named password,
  token, hash, email or tax id in any case, and a tax-profile event carries nothing beyond the
  five (or two) documented keys. The names of the dropped entries are what the warning lists.
\<close>

theorem audit_payload_filtered:
  "ev_payload (fst (emit lower now type p)) =
     filter (\<lambda>e. lower (fst e) \<notin> set REDACTED_PAYLOAD_KEYS \<and>
       (type \<notin> set STRICT_PAYLOAD_EVENT_TYPES \<or> fst e \<in> set (SECURITY_EVENT_PAYLOAD_KEYS type))) p \<and>
   set (snd (emit lower now type p)) = fst ` set p - fst ` set (ev_payload (fst (emit lower now type p))) \<and>
   (\<nexists>e. e \<in> set (ev_payload (fst (emit lower now type p))) \<and>
     lower (fst e) \<in> {js ''password'', js ''email'', js ''token'', js ''tokenhash'', js ''taxid''}) \<and>
   fst ` set (ev_payload (fst (emit lower now Ev_org_tax_profile_set p))) \<subseteq>
     {js ''actorUserId'', js ''organizationId'', js ''taxEntityType'', js ''vatRegistered'', js ''taxIdPresent''}"
proof (intro conjI)
  have k: "keeps lower type = (\<lambda>key. lower key \<notin> set REDACTED_PAYLOAD_KEYS \<and>
      (type \<notin> set STRICT_PAYLOAD_EVENT_TYPES \<or> key \<in> set (SECURITY_EVENT_PAYLOAD_KEYS type)))"
    by (auto simp: keeps_def)
  show "ev_payload (fst (emit lower now type p)) =
     filter (\<lambda>e. lower (fst e) \<notin> set REDACTED_PAYLOAD_KEYS \<and>
       (type \<notin> set STRICT_PAYLOAD_EVENT_TYPES \<or> fst e \<in> set (SECURITY_EVENT_PAYLOAD_KEYS type))) p"
    by (simp add: emit_payload k)
  show "set (snd (emit lower now type p)) = fst ` set p - fst ` set (ev_payload (fst (emit lower now type p)))"
    by (force simp: emit_def sanitize_eq)
  show "\<nexists>e. e \<in> set (ev_payload (fst (emit lower now type p))) \<and>
     lower (fst e) \<in> {js ''password'', js ''email'', js ''token'', js ''tokenhash'', js ''taxid''}"
    by (auto simp: emit_payload keeps_def REDACTED_PAYLOAD_KEYS_def)
  have "Ev_org_tax_profile_set \<in> set STRICT_PAYLOAD_EVENT_TYPES" by (simp add: STRICT_PAYLOAD_EVENT_TYPES_def)
  then show "fst ` set (ev_payload (fst (emit lower now Ev_org_tax_profile_set p))) \<subseteq>
     {js ''actorUserId'', js ''organizationId'', js ''taxEntityType'', js ''vatRegistered'', js ''taxIdPresent''}"
    by (auto simp: emit_payload keeps_def)
qed

lemma audit_payload_filtered_witness:
  "ev_payload (fst (emit ascii_lower 7 Ev_org_created
      [(js ''planKey'', JStr (js ''free'')), (js ''Token'', JStr (js ''t''))])) = [(js ''planKey'', JStr (js ''free''))]"
  unfolding audit_payload_filtered [THEN conjunct1]
  by (simp add: REDACTED_PAYLOAD_KEYS_def STRICT_PAYLOAD_EVENT_TYPES_def ascii_lower_def js_def)

text \<open>
  The strict list does not keep a full address out of an invitation event. The filter
  decides by key alone, and \<open>emailMasked\<close> is a documented key of the invitation events, so any
  value under it passes, an unmasked address included: the masking rests on the call site.
\<close>

theorem unmasked_address_passes_filter:
  "ev_payload (fst (emit ascii_lower now Ev_org_invitation_created [(js ''emailMasked'', JStr address)])) =
     [(js ''emailMasked'', JStr address)]"
proof -
  have "ascii_lower (js ''emailMasked'') = js ''emailmasked''" by (simp add: ascii_lower_def js_def)
  then have "keeps ascii_lower Ev_org_invitation_created (js ''emailMasked'')"
    by (simp add: keeps_def STRICT_PAYLOAD_EVENT_TYPES_def REDACTED_PAYLOAD_KEYS_def)
  then show ?thesis by (simp add: emit_payload)
qed

end
