(* ===== verification/OrgDb.thy ===== *)
theory OrgDb
  imports Errors InvitationPolicy
begin

text \<open>
  The tables of \<open>packages/db/prisma/schema.prisma\<close> that membership and invitations live in, with
  the constraints the schema and its migrations declare, and the queries the services issue: the
  organization-scoped ones (every filter carries the organization of the request, as the scoped
  client adds it) and the writes, which fail when a constraint would break. A table is the list
  of its rows. The operations run inside \<open>runInOrgLockTransaction\<close>
  (\<open>packages/db/src/org-lock.ts\<close>), modelled here with its rollback.
\<close>

section \<open>Rows\<close>

record User =
  usr_id :: jstring
  usr_email :: jstring
  usr_passwordHash :: jstring
  usr_verified :: bool
  usr_createdAt :: int

record Organization =
  org_id :: jstring
  org_name :: jstring
  org_logo :: "jstring option"
  org_timezone :: jstring
  org_currency :: jstring
  org_taxEntityType :: "jstring option"
  org_taxId :: "jstring option"
  org_vatRegistered :: "bool option"
  org_taxBranchCode :: "jstring option"
  org_createdByUserId :: "jstring option"
  org_createdAt :: int

record Role =
  role_id :: jstring
  role_org :: jstring
  role_name :: jstring
  role_key :: "jstring option"
  role_isSystem :: bool
  role_capabilities :: "jstring list"
  role_createdAt :: int

record Membership =
  mem_id :: jstring
  mem_org :: jstring
  mem_userId :: jstring
  mem_roleId :: jstring
  mem_status :: MembershipStatus
  mem_activatedAt :: "int option"
  mem_revokedAt :: "int option"
  mem_revokedByUserId :: "jstring option"
  mem_createdAt :: int

record Invitation =
  inv_id :: jstring
  inv_org :: jstring
  inv_email :: jstring
  inv_roleId :: jstring
  inv_status :: StoredInvitationStatus
  inv_tokenHash :: jstring
  inv_tokenIssuedAt :: int
  inv_expiresAt :: int
  inv_invitedByUserId :: "jstring option"
  inv_acceptedAt :: "int option"
  inv_acceptedByUserId :: "jstring option"
  inv_acceptedUserCreatedAt :: "int option"
  inv_cancelledAt :: "int option"
  inv_createdAt :: int

record Warehouse =
  wh_id :: jstring
  wh_org :: jstring
  wh_name :: jstring
  wh_isDefault :: bool

record PlanDefinition =
  plan_id :: jstring
  plan_key :: jstring
  plan_tierLabel :: "jstring option"

record OrgEntitlement =
  ent_id :: jstring
  ent_org :: jstring
  ent_planDefinitionId :: jstring

record OrgDb =
  db_users :: "User list"
  db_orgs :: "Organization list"
  db_roles :: "Role list"
  db_memberships :: "Membership list"
  db_invitations :: "Invitation list"
  db_warehouses :: "Warehouse list"
  db_plans :: "PlanDefinition list"
  db_entitlements :: "OrgEntitlement list"

section \<open>Constraints\<close>

definition unique_by :: "('r \<Rightarrow> 'k) \<Rightarrow> 'r list \<Rightarrow> bool" where
  "unique_by key rows \<longleftrightarrow> distinct (map key rows)"

definition pending :: "Invitation \<Rightarrow> bool" where
  "pending i \<longleftrightarrow> inv_status i = SPending"

definition memberships_unique :: "Membership list \<Rightarrow> bool" where
  "memberships_unique rows \<longleftrightarrow>
     unique_by mem_id rows \<and> unique_by (\<lambda>m. (mem_org m, mem_userId m)) rows"

definition invitations_unique :: "Invitation list \<Rightarrow> bool" where
  "invitations_unique rows \<longleftrightarrow>
     unique_by inv_id rows \<and> unique_by inv_tokenHash rows \<and>
     unique_by (\<lambda>i. (inv_org i, inv_email i)) (filter pending rows)"

definition roles_unique :: "Role list \<Rightarrow> bool" where
  "roles_unique rows \<longleftrightarrow>
     unique_by role_id rows \<and> unique_by (\<lambda>r. (role_org r, role_name r)) rows \<and>
     unique_by (\<lambda>r. (role_org r, role_key r)) (filter (\<lambda>r. role_key r \<noteq> None) rows)"

definition users_unique :: "User list \<Rightarrow> bool" where
  "users_unique rows \<longleftrightarrow> unique_by usr_id rows \<and> unique_by usr_email rows"

definition warehouses_unique :: "Warehouse list \<Rightarrow> bool" where
  "warehouses_unique rows \<longleftrightarrow>
     unique_by wh_id rows \<and> unique_by wh_org (filter wh_isDefault rows)"

definition entitlements_unique :: "OrgEntitlement list \<Rightarrow> bool" where
  "entitlements_unique rows \<longleftrightarrow> unique_by ent_id rows \<and> unique_by ent_org rows"

definition plans_unique :: "PlanDefinition list \<Rightarrow> bool" where
  "plans_unique rows \<longleftrightarrow> unique_by plan_id rows \<and> unique_by plan_key rows"

definition role_fk :: "OrgDb \<Rightarrow> jstring \<Rightarrow> jstring \<Rightarrow> bool" where
  "role_fk db o' r \<longleftrightarrow> list_ex (\<lambda>x. role_org x = o' \<and> role_id x = r) (db_roles db)"

definition org_fk :: "OrgDb \<Rightarrow> jstring \<Rightarrow> bool" where
  "org_fk db o' \<longleftrightarrow> list_ex (\<lambda>x. org_id x = o') (db_orgs db)"

definition user_fk :: "OrgDb \<Rightarrow> jstring \<Rightarrow> bool" where
  "user_fk db u \<longleftrightarrow> list_ex (\<lambda>x. usr_id x = u) (db_users db)"

definition plan_fk :: "OrgDb \<Rightarrow> jstring \<Rightarrow> bool" where
  "plan_fk db p \<longleftrightarrow> list_ex (\<lambda>x. plan_id x = p) (db_plans db)"

definition db_ok :: "OrgDb \<Rightarrow> bool" where
  "db_ok db \<longleftrightarrow>
     users_unique (db_users db) \<and> unique_by org_id (db_orgs db) \<and> roles_unique (db_roles db) \<and>
     memberships_unique (db_memberships db) \<and> invitations_unique (db_invitations db) \<and>
     warehouses_unique (db_warehouses db) \<and> entitlements_unique (db_entitlements db) \<and>
     plans_unique (db_plans db) \<and>
     list_all (\<lambda>w. org_fk db (wh_org w)) (db_warehouses db) \<and>
     list_all (\<lambda>e. org_fk db (ent_org e) \<and> plan_fk db (ent_planDefinitionId e)) (db_entitlements db) \<and>
     list_all (\<lambda>r. org_fk db (role_org r)) (db_roles db) \<and>
     list_all (\<lambda>m. org_fk db (mem_org m) \<and> user_fk db (mem_userId m) \<and> role_fk db (mem_org m) (mem_roleId m))
       (db_memberships db) \<and>
     list_all (\<lambda>i. org_fk db (inv_org i) \<and> role_fk db (inv_org i) (inv_roleId i)) (db_invitations db)"

section \<open>Errors of the driver\<close>

definition prisma_error :: "string \<Rightarrow> Thrown" where
  "prisma_error c = TRaw (JObj [(js ''code'', JStr (js c))])"

abbreviation unique_violation :: Thrown where "unique_violation \<equiv> prisma_error ''P2002''"
abbreviation fk_violation :: Thrown where "fk_violation \<equiv> prisma_error ''P2003''"
abbreviation row_not_found :: Thrown where "row_not_found \<equiv> prisma_error ''P2025''"

section \<open>Scoped queries\<close>

definition find_scoped :: "('r \<Rightarrow> jstring) \<Rightarrow> jstring \<Rightarrow> ('r \<Rightarrow> bool) \<Rightarrow> 'r list \<Rightarrow> 'r option" where
  "find_scoped orgOf o' P rows = find (\<lambda>r. orgOf r = o' \<and> P r) rows"

definition filter_scoped :: "('r \<Rightarrow> jstring) \<Rightarrow> jstring \<Rightarrow> ('r \<Rightarrow> bool) \<Rightarrow> 'r list \<Rightarrow> 'r list" where
  "filter_scoped orgOf o' P rows = filter (\<lambda>r. orgOf r = o' \<and> P r) rows"

definition update_scoped ::
    "('r \<Rightarrow> jstring) \<Rightarrow> jstring \<Rightarrow> ('r \<Rightarrow> bool) \<Rightarrow> ('r \<Rightarrow> 'r) \<Rightarrow> 'r list \<Rightarrow> 'r list" where
  "update_scoped orgOf o' P f rows = map (\<lambda>r. if orgOf r = o' \<and> P r then f r else r) rows"

definition other_orgs :: "('r \<Rightarrow> jstring) \<Rightarrow> jstring \<Rightarrow> 'r list \<Rightarrow> 'r list" where
  "other_orgs orgOf o' rows = filter (\<lambda>r. orgOf r \<noteq> o') rows"

lemma find_scoped_SomeD:
  "find_scoped orgOf o' P rows = Some r \<Longrightarrow> r \<in> set rows \<and> orgOf r = o' \<and> P r"
  unfolding find_scoped_def by (drule find_SomeD) simp

lemma find_scoped_NoneD:
  "find_scoped orgOf o' P rows = None \<Longrightarrow> r \<in> set rows \<Longrightarrow> orgOf r = o' \<Longrightarrow> \<not> P r"
  unfolding find_scoped_def by (drule find_None_D) auto

lemma set_update_scoped:
  "set (update_scoped orgOf o' P f rows) =
     (\<lambda>r. if orgOf r = o' \<and> P r then f r else r) ` set rows"
  by (simp add: update_scoped_def)

lemma map_update_scoped [db_simps]:
  "(\<And>r. key (f r) = key r) \<Longrightarrow> map key (update_scoped orgOf o' P f rows) = map key rows"
  by (simp add: update_scoped_def)

lemma other_orgs_update [db_simps]:
  assumes "\<And>r. orgOf (f r) = orgOf r"
  shows "other_orgs orgOf o' (update_scoped orgOf o' P f rows) = other_orgs orgOf o' rows"
  using assms by (induction rows) (auto simp: other_orgs_def update_scoped_def)

lemma other_orgs_insert [db_simps]: "orgOf r = o' \<Longrightarrow> other_orgs orgOf o' (rows @ [r]) = other_orgs orgOf o' rows"
  by (simp add: other_orgs_def)

lemma update_scoped_frame:
  assumes "\<And>r. orgOf (f r) = orgOf r" and "a \<noteq> o'"
  shows "filter (\<lambda>r. orgOf r = a) (update_scoped orgOf o' P f rows) = filter (\<lambda>r. orgOf r = a) rows"
  using assms by (induction rows) (auto simp: update_scoped_def)

section \<open>The interface of a tenant table\<close>

text \<open>
  What the operations rely on of a table of the database: reading it back after writing it, and
  the column that holds the organization. Updating and inserting through it stays inside one
  organization.
\<close>

locale tenant_table =
  fixes rows :: "OrgDb \<Rightarrow> 'r list"
    and put :: "'r list \<Rightarrow> OrgDb \<Rightarrow> OrgDb"
    and orgOf :: "'r \<Rightarrow> jstring"
  assumes rows_put: "rows (put rs db) = rs"
    and put_rows: "put (rows db) db = db"
    and put_put: "put rs (put rs' db) = put rs db"
begin

lemma update_isolated:
  assumes "\<And>r. orgOf (f r) = orgOf r"
  shows "other_orgs orgOf o' (rows (put (update_scoped orgOf o' P f (rows db)) db)) =
    other_orgs orgOf o' (rows db)"
  using assms by (simp add: rows_put other_orgs_update)

lemma insert_isolated:
  "orgOf r = o' \<Longrightarrow>
     other_orgs orgOf o' (rows (put (rows db @ [r]) db)) = other_orgs orgOf o' (rows db)"
  by (simp add: rows_put other_orgs_insert)

lemma no_match_no_change:
  assumes "find_scoped orgOf o' P (rows db) = None"
  shows "put (update_scoped orgOf o' P f (rows db)) db = db"
proof -
  have "update_scoped orgOf o' P f (rows db) = rows db"
    unfolding update_scoped_def using find_scoped_NoneD [OF assms] by (intro map_idI) auto
  then show ?thesis by (simp add: put_rows)
qed

end

definition put_memberships :: "Membership list \<Rightarrow> OrgDb \<Rightarrow> OrgDb" where
  "put_memberships rs db = db\<lparr>db_memberships := rs\<rparr>"

definition put_invitations :: "Invitation list \<Rightarrow> OrgDb \<Rightarrow> OrgDb" where
  "put_invitations rs db = db\<lparr>db_invitations := rs\<rparr>"

definition put_roles :: "Role list \<Rightarrow> OrgDb \<Rightarrow> OrgDb" where
  "put_roles rs db = db\<lparr>db_roles := rs\<rparr>"

interpretation mem_table: tenant_table db_memberships put_memberships mem_org
  by unfold_locales (simp_all add: put_memberships_def)

interpretation inv_table: tenant_table db_invitations put_invitations inv_org
  by unfold_locales (simp_all add: put_invitations_def)

interpretation role_table: tenant_table db_roles put_roles role_org
  by unfold_locales (simp_all add: put_roles_def)

section \<open>Writes\<close>

text \<open>
  A write of a table answers the changed database, or the driver's error when a constraint of
  the changed table does not hold.
\<close>

definition write_memberships :: "Membership list \<Rightarrow> OrgDb \<Rightarrow> Thrown + OrgDb" where
  "write_memberships rs db =
     (if \<not> memberships_unique rs then Inl unique_violation
      else if \<not> list_all (\<lambda>m. org_fk db (mem_org m) \<and> user_fk db (mem_userId m) \<and>
                 role_fk db (mem_org m) (mem_roleId m)) rs then Inl fk_violation
      else Inr (put_memberships rs db))"

definition write_invitations :: "Invitation list \<Rightarrow> OrgDb \<Rightarrow> Thrown + OrgDb" where
  "write_invitations rs db =
     (if \<not> invitations_unique rs then Inl unique_violation
      else if \<not> list_all (\<lambda>i. org_fk db (inv_org i) \<and> role_fk db (inv_org i) (inv_roleId i)) rs
      then Inl fk_violation
      else Inr (put_invitations rs db))"

text \<open>\<open>tx.membership.update({ where: organizationId_userId })\<close>: the row must exist.\<close>

definition update_membership ::
    "jstring \<Rightarrow> jstring \<Rightarrow> (Membership \<Rightarrow> Membership) \<Rightarrow> OrgDb \<Rightarrow> Thrown + OrgDb" where
  "update_membership o' u f db =
     (if find_scoped mem_org o' (\<lambda>m. mem_userId m = u) (db_memberships db) = None then Inl row_not_found
      else write_memberships (update_scoped mem_org o' (\<lambda>m. mem_userId m = u) f (db_memberships db)) db)"

definition insert_membership :: "Membership \<Rightarrow> OrgDb \<Rightarrow> Thrown + OrgDb" where
  "insert_membership m db = write_memberships (db_memberships db @ [m]) db"

definition update_invitation ::
    "jstring \<Rightarrow> jstring \<Rightarrow> (Invitation \<Rightarrow> Invitation) \<Rightarrow> OrgDb \<Rightarrow> Thrown + OrgDb" where
  "update_invitation o' i f db =
     (if find_scoped inv_org o' (\<lambda>x. inv_id x = i) (db_invitations db) = None then Inl row_not_found
      else write_invitations (update_scoped inv_org o' (\<lambda>x. inv_id x = i) f (db_invitations db)) db)"

definition updateMany_invitations ::
    "jstring \<Rightarrow> (Invitation \<Rightarrow> bool) \<Rightarrow> (Invitation \<Rightarrow> Invitation) \<Rightarrow> OrgDb \<Rightarrow> Thrown + OrgDb" where
  "updateMany_invitations o' P f db =
     write_invitations (update_scoped inv_org o' P f (db_invitations db)) db"

definition insert_invitation :: "Invitation \<Rightarrow> OrgDb \<Rightarrow> Thrown + OrgDb" where
  "insert_invitation i db = write_invitations (db_invitations db @ [i]) db"

lemma write_memberships_ok:
  assumes "write_memberships rs db = Inr db'"
  shows "db' = put_memberships rs db" "memberships_unique rs"
    "\<forall>m \<in> set rs. org_fk db (mem_org m) \<and> user_fk db (mem_userId m) \<and> role_fk db (mem_org m) (mem_roleId m)"
  using assms by (auto simp: write_memberships_def list_all_iff split: if_splits)

lemma write_invitations_ok:
  assumes "write_invitations rs db = Inr db'"
  shows "db' = put_invitations rs db" "invitations_unique rs"
    "\<forall>i \<in> set rs. org_fk db (inv_org i) \<and> role_fk db (inv_org i) (inv_roleId i)"
  using assms by (auto simp: write_invitations_def list_all_iff split: if_splits)

lemma write_memberships_db_ok:
  "db_ok db \<Longrightarrow> write_memberships rs db = Inr db' \<Longrightarrow> db_ok db'"
  by (frule write_memberships_ok(1), frule write_memberships_ok(2), frule write_memberships_ok(3))
    (auto simp: db_ok_def put_memberships_def list_all_iff org_fk_def user_fk_def role_fk_def plan_fk_def)

lemma write_invitations_db_ok:
  "db_ok db \<Longrightarrow> write_invitations rs db = Inr db' \<Longrightarrow> db_ok db'"
  by (frule write_invitations_ok(1), frule write_invitations_ok(2), frule write_invitations_ok(3))
    (auto simp: db_ok_def put_invitations_def list_all_iff org_fk_def user_fk_def role_fk_def plan_fk_def)

lemmas write_defs = update_membership_def insert_membership_def update_invitation_def
  updateMany_invitations_def insert_invitation_def

lemma writes_db_ok:
  "db_ok db \<Longrightarrow> update_membership o' u f db = Inr db' \<Longrightarrow> db_ok db'"
  "db_ok db \<Longrightarrow> insert_membership m db = Inr db' \<Longrightarrow> db_ok db'"
  "db_ok db \<Longrightarrow> update_invitation o' i g db = Inr db' \<Longrightarrow> db_ok db'"
  "db_ok db \<Longrightarrow> updateMany_invitations o' P g db = Inr db' \<Longrightarrow> db_ok db'"
  "db_ok db \<Longrightarrow> insert_invitation i' db = Inr db' \<Longrightarrow> db_ok db'"
  by (auto simp: write_defs intro: write_memberships_db_ok write_invitations_db_ok split: if_splits)

section \<open>Isolation\<close>

text \<open>Everything outside one organization: what no operation of that organization may change.\<close>

definition outside_unchanged :: "jstring \<Rightarrow> OrgDb \<Rightarrow> OrgDb \<Rightarrow> bool" where
  "outside_unchanged o' db db' \<longleftrightarrow>
     other_orgs mem_org o' (db_memberships db') = other_orgs mem_org o' (db_memberships db) \<and>
     other_orgs inv_org o' (db_invitations db') = other_orgs inv_org o' (db_invitations db) \<and>
     other_orgs org_id o' (db_orgs db') = other_orgs org_id o' (db_orgs db) \<and>
     map org_id (db_orgs db') = map org_id (db_orgs db) \<and>
     db_roles db' = db_roles db \<and> db_users db' = db_users db \<and>
     db_warehouses db' = db_warehouses db \<and> db_entitlements db' = db_entitlements db \<and>
     db_plans db' = db_plans db"

lemma outside_refl [simp]: "outside_unchanged o' db db"
  by (simp add: outside_unchanged_def)

lemma outside_trans:
  "outside_unchanged o' db db' \<Longrightarrow> outside_unchanged o' db' db'' \<Longrightarrow> outside_unchanged o' db db''"
  by (simp add: outside_unchanged_def)

lemma update_membership_outside:
  assumes "update_membership o' u f db = Inr db'" and "\<And>m. mem_org (f m) = mem_org m"
  shows "outside_unchanged o' db db'"
proof -
  let ?rs = "update_scoped mem_org o' (\<lambda>m. mem_userId m = u) f (db_memberships db)"
  from assms(1) have "write_memberships ?rs db = Inr db'"
    by (simp add: update_membership_def split: if_splits)
  from write_memberships_ok(1) [OF this] show ?thesis
    by (simp add: outside_unchanged_def put_memberships_def other_orgs_update assms(2))
qed

lemma insert_membership_outside:
  assumes "insert_membership m db = Inr db'" and "mem_org m = o'"
  shows "outside_unchanged o' db db'"
  using write_memberships_ok(1) [OF assms(1) [unfolded insert_membership_def]]
  by (simp add: outside_unchanged_def put_memberships_def other_orgs_insert assms(2))

lemma updateMany_invitations_outside:
  assumes "updateMany_invitations o' P f db = Inr db'" and "\<And>i. inv_org (f i) = inv_org i"
  shows "outside_unchanged o' db db'"
  using write_invitations_ok(1) [OF assms(1) [unfolded updateMany_invitations_def]]
  by (simp add: outside_unchanged_def put_invitations_def other_orgs_update assms(2))

lemma update_invitation_many:
  "update_invitation o' i f db = Inr db' \<Longrightarrow> updateMany_invitations o' (\<lambda>x. inv_id x = i) f db = Inr db'"
  by (simp add: update_invitation_def updateMany_invitations_def split: if_splits)

lemma insert_invitation_outside:
  assumes "insert_invitation i db = Inr db'" and "inv_org i = o'"
  shows "outside_unchanged o' db db'"
  using write_invitations_ok(1) [OF assms(1) [unfolded insert_invitation_def]]
  by (simp add: outside_unchanged_def put_invitations_def other_orgs_insert assms(2))

end
