(* ===== verification/OrgLock.thy ===== *)
theory OrgLock
  imports OrgDb
begin

text \<open>
  The organization lock of \<open>packages/db/src/org-lock.ts\<close>: resolving the request's organization,
  refusing to run outside a transaction, and the transaction every membership and invitation
  write runs in. A transaction of the model is one step: the row lock taken as its first
  statement makes the transactions of one organization run one after another.

  The driver is a record: the lock timeout that \<open>ORG_TX_TIMEOUTS\<close> resolves from the environment,
  and the error it raises during this transaction, if any (a lock timeout, a lost connection at
  commit).
\<close>

section \<open>The register\<close>

record OrgLockRequiredOperation =
  olo_operationKey :: jstring
  olo_method :: jstring
  olo_path :: jstring
  olo_serviceMethod :: jstring

definition ORG_LOCK_REQUIRED_OPERATIONS :: "OrgLockRequiredOperation list" where
  "ORG_LOCK_REQUIRED_OPERATIONS =
     [\<lparr>olo_operationKey = js ''updateMemberRole'', olo_method = js ''PATCH'',
       olo_path = js ''/orgs/{orgId}/members/{userId}'', olo_serviceMethod = js ''MembersService.updateRole''\<rparr>,
      \<lparr>olo_operationKey = js ''revokeMember'', olo_method = js ''DELETE'',
       olo_path = js ''/orgs/{orgId}/members/{userId}'', olo_serviceMethod = js ''MembersService.revoke''\<rparr>,
      \<lparr>olo_operationKey = js ''leaveOrganization'', olo_method = js ''DELETE'',
       olo_path = js ''/orgs/{orgId}/membership'', olo_serviceMethod = js ''MembersService.leave''\<rparr>,
      \<lparr>olo_operationKey = js ''acceptInvitation'', olo_method = js ''POST'',
       olo_path = js ''/invitations/accept'', olo_serviceMethod = js ''InvitationsService.accept''\<rparr>,
      \<lparr>olo_operationKey = js ''createInvitation'', olo_method = js ''POST'',
       olo_path = js ''/orgs/{orgId}/invitations'', olo_serviceMethod = js ''InvitationsService.create''\<rparr>,
      \<lparr>olo_operationKey = js ''reissueInvitationLink'', olo_method = js ''POST'',
       olo_path = js ''/orgs/{orgId}/invitations/{invitationId}/link'',
       olo_serviceMethod = js ''InvitationsService.reissueLink''\<rparr>,
      \<lparr>olo_operationKey = js ''cancelInvitation'', olo_method = js ''DELETE'',
       olo_path = js ''/orgs/{orgId}/invitations/{invitationId}'',
       olo_serviceMethod = js ''InvitationsService.cancel''\<rparr>]"

section \<open>Context\<close>

record OrgRequestContext =
  ctx_organizationId :: jstring
  ctx_userId :: "jstring option"
  ctx_membershipId :: "jstring option"
  ctx_roleId :: "jstring option"
  ctx_capabilities :: "jstring list option"

text \<open>An \<open>Error\<close> of a named class; it carries neither \<open>code\<close> nor \<open>meta\<close>.\<close>

definition error_named :: "string \<Rightarrow> Thrown" where
  "error_named n = TRaw (JObj [(js ''name'', JStr (js n))])"

abbreviation MissingOrgContextError :: Thrown where
  "MissingOrgContextError \<equiv> error_named ''MissingOrgContextError''"
abbreviation OrgScopeViolationError :: Thrown where
  "OrgScopeViolationError \<equiv> error_named ''OrgScopeViolationError''"
abbreviation OrgLockContextMismatchError :: Thrown where
  "OrgLockContextMismatchError \<equiv> error_named ''OrgLockContextMismatchError''"
abbreviation OrgLockOutsideTransactionError :: Thrown where
  "OrgLockOutsideTransactionError \<equiv> error_named ''OrgLockOutsideTransactionError''"
abbreviation OrgLockAnchorMissingError :: Thrown where
  "OrgLockAnchorMissingError \<equiv> error_named ''OrgLockAnchorMissingError''"
abbreviation LockTimeoutConfigError :: Thrown where
  "LockTimeoutConfigError \<equiv> error_named ''Error''"

definition assertContextShape :: "jsv \<Rightarrow> Thrown + jstring" where
  "assertContextShape ctx =
     (case ctx of
        JStr _ \<Rightarrow> Inl OrgScopeViolationError
      | JObj _ \<Rightarrow> (case get_prop ctx (js ''organizationId'') of
                    JStr o' \<Rightarrow> Inr o' | _ \<Rightarrow> Inl OrgScopeViolationError)
      | _ \<Rightarrow> Inl OrgScopeViolationError)"

text \<open>\<open>ambient\<close> is the context of the request's asynchronous store, \<open>passed\<close> the optional bridge.\<close>

definition resolveOrgContext :: "OrgRequestContext option \<Rightarrow> jsv \<Rightarrow> Thrown + jstring" where
  "resolveOrgContext ambient passed =
     rbind (if passed = JUndef \<or> passed = JNull then Inr None
            else rbind (assertContextShape passed) (\<lambda>p.
              case ambient of
                Some a \<Rightarrow> if ctx_organizationId a \<noteq> p then Inl OrgLockContextMismatchError else Inr (Some p)
              | None \<Rightarrow> Inr (Some p)))
       (\<lambda>p. let org = (case ambient of Some a \<Rightarrow> Some (ctx_organizationId a) | None \<Rightarrow> p) in
            case org of
              None \<Rightarrow> Inl MissingOrgContextError
            | Some o' \<Rightarrow> if trim o' = [] then Inl MissingOrgContextError else Inr o')"

lemma resolve_ambient:
  assumes "resolveOrgContext (Some a) p = Inr o'"
  shows "o' = ctx_organizationId a"
  using assms by (auto simp: resolveOrgContext_def rbind_Inr_iff Let_def split: if_splits)

lemma resolve_no_context: "resolveOrgContext None JUndef = Inl MissingOrgContextError"
  by (simp add: resolveOrgContext_def)

text \<open>A bare organization id is never used as a context.\<close>

lemma resolve_bare_string: "resolveOrgContext ambient (JStr s) = Inl OrgScopeViolationError"
  by (simp add: resolveOrgContext_def assertContextShape_def)

section \<open>The lock\<close>

definition NON_TX_MEMBERS :: "jstring list" where
  "NON_TX_MEMBERS = [js ''$transaction'', js ''$connect'', js ''$disconnect'', js ''$extends'', js ''$use'']"

text \<open>A client is the list of its function members; \<open>None\<close> is a value that is no object.\<close>

definition assertInsideTransaction :: "jstring list option \<Rightarrow> Thrown + unit" where
  "assertInsideTransaction tx =
     (case tx of
        None \<Rightarrow> Inl OrgLockOutsideTransactionError
      | Some members \<Rightarrow>
          if length (filter (List.member members) NON_TX_MEMBERS) > 0 then Inl OrgLockOutsideTransactionError
          else if length (filter (\<lambda>m. \<not> List.member members m) [js ''$executeRawUnsafe'', js ''$queryRawUnsafe'']) > 0
          then Inl OrgLockOutsideTransactionError
          else Inr ())"

datatype Statement = SetLocalLockTimeout jsnum | SelectOrganizationForUpdate jstring

record Driver =
  drv_lockTimeoutMs :: jsnum
  drv_fault :: "jsv option"

definition readLockTimeoutMs :: "jsnum \<Rightarrow> Thrown + jsnum" where
  "readLockTimeoutMs ms =
     (if \<not> is_integer ms \<or> \<not> num_less (Fin 0) ms then Inl LockTimeoutConfigError else Inr ms)"

text \<open>The statements the lock sends, in order.\<close>

definition lockCurrentOrganization ::
    "Driver \<Rightarrow> OrgRequestContext option \<Rightarrow> jsv \<Rightarrow> jstring list option \<Rightarrow> OrgDb \<Rightarrow> Thrown + Statement list" where
  "lockCurrentOrganization drv ambient ctx tx db =
     rbind (resolveOrgContext ambient ctx) (\<lambda>organizationId.
     rbind (assertInsideTransaction tx) (\<lambda>_.
     rbind (readLockTimeoutMs (drv_lockTimeoutMs drv)) (\<lambda>lockTimeoutMs.
       if length (filter (\<lambda>r. org_id r = organizationId) (db_orgs db)) = 0
       then Inl OrgLockAnchorMissingError
       else Inr [SetLocalLockTimeout lockTimeoutMs, SelectOrganizationForUpdate organizationId])))"

text \<open>The members of an interactive-transaction client.\<close>

definition tx_client :: "jstring list" where
  "tx_client = [js ''$executeRawUnsafe'', js ''$queryRawUnsafe'', js ''$executeRaw'', js ''$queryRaw'']"

lemma tx_client_accepted [simp]: "assertInsideTransaction (Some tx_client) = Inr ()"
  by (simp add: assertInsideTransaction_def NON_TX_MEMBERS_def tx_client_def)

lemma full_client_refused:
  "js ''$transaction'' \<in> set members \<Longrightarrow> assertInsideTransaction (Some members) = Inl OrgLockOutsideTransactionError"
  by (simp add: assertInsideTransaction_def NON_TX_MEMBERS_def)

definition driver_ok :: "Driver \<Rightarrow> bool" where
  "driver_ok drv \<longleftrightarrow> drv_fault drv = None \<and> readLockTimeoutMs (drv_lockTimeoutMs drv) = Inr (drv_lockTimeoutMs drv)"

lemma driver_ok_example: "driver_ok \<lparr>drv_lockTimeoutMs = Fin 3000, drv_fault = None\<rparr>"
  using is_integer_Fin_of_nat [of 3000] by (simp add: driver_ok_def readLockTimeoutMs_def)

section \<open>The transaction\<close>

type_synonym 'a tx = "OrgDb \<Rightarrow> Thrown + ('a \<times> OrgDb)"

definition runInOrgLockTransaction ::
    "Driver \<Rightarrow> OrgRequestContext option \<Rightarrow> jsv \<Rightarrow> jstring option \<Rightarrow> 'a tx \<Rightarrow> OrgDb \<Rightarrow> (Thrown + 'a) \<times> OrgDb"
  where
  "runInOrgLockTransaction drv ambient passed operation fn db =
     (case resolveOrgContext ambient passed of
        Inl e \<Rightarrow> (Inl e, db)
      | Inr organizationId \<Rightarrow>
          (case (case drv_fault drv of
                   Some e \<Rightarrow> Inl (TRaw e)
                 | None \<Rightarrow>
                     rbind (lockCurrentOrganization drv ambient
                              (JObj [(js ''organizationId'', JStr organizationId)]) (Some tx_client) db)
                       (\<lambda>_. fn db)) of
             Inl e \<Rightarrow> (Inl (rethrowOrgLockError e operation), db)
           | Inr (x, db') \<Rightarrow> (Inr x, db')))"

text \<open>What a committed transaction guarantees, and what a failed one leaves.\<close>

lemma run_committed:
  assumes "runInOrgLockTransaction drv (Some ctx) p op fn db = (Inr x, db')"
  shows "fn db = Inr (x, db')" "org_fk db (ctx_organizationId ctx)" "drv_fault drv = None"
    "trim (ctx_organizationId ctx) \<noteq> []"
proof -
  from assms obtain o' where r: "resolveOrgContext (Some ctx) p = Inr o'"
    by (auto simp: runInOrgLockTransaction_def split: sum.splits)
  have o': "o' = ctx_organizationId ctx" by (rule resolve_ambient [OF r])
  from assms r show f: "drv_fault drv = None"
    by (auto simp: runInOrgLockTransaction_def split: sum.splits option.splits)
  from assms r f obtain sts where l: "lockCurrentOrganization drv (Some ctx) (JObj [(js ''organizationId'', JStr o')])
      (Some tx_client) db = Inr sts" and fn: "fn db = Inr (x, db')"
    by (auto simp: runInOrgLockTransaction_def rbind_def split: sum.splits)
  from fn show "fn db = Inr (x, db')" .
  from l have rc: "resolveOrgContext (Some ctx) (JObj [(js ''organizationId'', JStr o')]) = Inr o'"
    and ne: "filter (\<lambda>r. org_id r = o') (db_orgs db) \<noteq> []"
    using resolve_ambient o' by (auto simp: lockCurrentOrganization_def rbind_Inr_iff split: if_splits)
  from ne show "org_fk db (ctx_organizationId ctx)"
    by (auto simp: org_fk_def list_ex_iff filter_empty_conv o')
  from rc show "trim (ctx_organizationId ctx) \<noteq> []"
    by (auto simp: resolveOrgContext_def rbind_Inr_iff Let_def o' split: if_splits)
qed

lemma run_failed:
  assumes "runInOrgLockTransaction drv ambient p op fn db = (Inl e, db')"
  shows "db' = db"
  using assms by (auto simp: runInOrgLockTransaction_def split: sum.splits)

lemma run_succeeds:
  assumes "driver_ok drv" and "trim (ctx_organizationId ctx) \<noteq> []" and "org_fk db (ctx_organizationId ctx)"
    and "fn db = Inr (x, db')"
  shows "runInOrgLockTransaction drv (Some ctx) JUndef op fn db = (Inr x, db')"
proof -
  have r: "resolveOrgContext (Some ctx) JUndef = Inr (ctx_organizationId ctx)"
    using assms(2) by (simp add: resolveOrgContext_def)
  have "\<exists>sts. lockCurrentOrganization drv (Some ctx)
      (JObj [(js ''organizationId'', JStr (ctx_organizationId ctx))]) (Some tx_client) db = Inr sts"
    using assms(1-3)
    by (auto simp: lockCurrentOrganization_def resolveOrgContext_def assertContextShape_def get_prop_def
        org_fk_def list_ex_iff filter_empty_conv driver_ok_def)
  then show ?thesis using assms(1) by (auto simp: runInOrgLockTransaction_def r assms(4) driver_ok_def)
qed

lemma run_refuses:
  assumes "driver_ok drv" and "trim (ctx_organizationId ctx) \<noteq> []" and "org_fk db (ctx_organizationId ctx)"
    and "fn db = Inl e"
  shows "runInOrgLockTransaction drv (Some ctx) JUndef op fn db = (Inl (rethrowOrgLockError e op), db)"
proof -
  have r: "resolveOrgContext (Some ctx) JUndef = Inr (ctx_organizationId ctx)"
    using assms(2) by (simp add: resolveOrgContext_def)
  have "\<exists>sts. lockCurrentOrganization drv (Some ctx)
      (JObj [(js ''organizationId'', JStr (ctx_organizationId ctx))]) (Some tx_client) db = Inr sts"
    using assms(1-3)
    by (auto simp: lockCurrentOrganization_def resolveOrgContext_def assertContextShape_def get_prop_def
        org_fk_def list_ex_iff filter_empty_conv driver_ok_def)
  then show ?thesis using assms(1) by (auto simp: runInOrgLockTransaction_def r assms(4) driver_ok_def)
qed

end
