(* ===== verification/DemoDb.thy ===== *)
theory DemoDb
  imports OrgDb
begin

text \<open>
  A small database the witnesses run on: two organizations; in the first, Ann is an Owner, Bob an
  Admin and Cat was removed, and an invitation to Dan is pending; Dan and Eve have accounts.
\<close>

definition demo_user :: "string \<Rightarrow> User" where
  "demo_user n = \<lparr>usr_id = js n, usr_email = js (n @ ''@x.co''), usr_passwordHash = js ''h'', usr_verified = False, usr_createdAt = 5\<rparr>"

definition demo_org :: "string \<Rightarrow> Organization" where
  "demo_org n = \<lparr>org_id = js n, org_name = js n, org_logo = None, org_timezone = js ''Asia/Bangkok'',
     org_currency = js ''THB'', org_taxEntityType = None, org_taxId = None, org_vatRegistered = None,
     org_taxBranchCode = None, org_createdByUserId = Some (js ''ann''), org_createdAt = 1\<rparr>"

definition demo_role :: "string \<Rightarrow> string \<Rightarrow> string \<Rightarrow> jstring list \<Rightarrow> Role" where
  "demo_role i n k caps = \<lparr>role_id = js i, role_org = js ''o1'', role_name = js n, role_key = Some (js k),
     role_isSystem = False, role_capabilities = caps, role_createdAt = 1\<rparr>"

definition demo_member :: "string \<Rightarrow> string \<Rightarrow> string \<Rightarrow> MembershipStatus \<Rightarrow> int option \<Rightarrow> Membership" where
  "demo_member i u r st rv = \<lparr>mem_id = js i, mem_org = js ''o1'', mem_userId = js u, mem_roleId = js r,
     mem_status = st, mem_activatedAt = Some 2, mem_revokedAt = rv, mem_revokedByUserId = None,
     mem_createdAt = 2\<rparr>"

definition demo_invitation :: Invitation where
  "demo_invitation = \<lparr>inv_id = js ''i1'', inv_org = js ''o1'', inv_email = js ''dan@x.co'',
     inv_roleId = js ''r3'', inv_status = SPending, inv_tokenHash = js ''t1'', inv_tokenIssuedAt = 10,
     inv_expiresAt = 100, inv_invitedByUserId = Some (js ''ann''), inv_acceptedAt = None,
     inv_acceptedByUserId = None, inv_acceptedUserCreatedAt = None, inv_cancelledAt = None,
     inv_createdAt = 10\<rparr>"

definition demo_db :: OrgDb where
  "demo_db =
     \<lparr>db_users = [demo_user ''ann'', demo_user ''bob'', demo_user ''cat'', demo_user ''dan'', demo_user ''eve''],
      db_orgs = [demo_org ''o1'', demo_org ''o2''],
      db_roles = [demo_role ''r1'' ''Owner'' ''owner'' [CAPABILITY_FULL_ACCESS],
                  demo_role ''r2'' ''Admin'' ''admin'' [CAPABILITY_MANAGE_MEMBERS],
                  demo_role ''r3'' ''Staff'' ''staff'' []],
      db_memberships = [demo_member ''m1'' ''ann'' ''r1'' MActive None,
                        demo_member ''m2'' ''bob'' ''r2'' MActive None,
                        demo_member ''m3'' ''cat'' ''r3'' MRevoked (Some 20)],
      db_invitations = [demo_invitation],
      db_warehouses = [], db_plans = [], db_entitlements = []\<rparr>"

lemmas demo_rows = demo_user_def demo_org_def demo_role_def demo_member_def demo_invitation_def

lemma demo_db_ok: "db_ok demo_db"
  by (simp add: db_ok_def demo_db_def demo_rows users_unique_def roles_unique_def memberships_unique_def
      invitations_unique_def warehouses_unique_def entitlements_unique_def unique_by_def pending_def
      org_fk_def user_fk_def role_fk_def plans_unique_def plan_fk_def js_append)

end
