(* ===== verification/MembersService.thy ===== *)
theory MembersService
  imports OrgLock SecurityEvents DemoDb
begin

text \<open>
  \<open>apps/api/src/orgs/members.service.ts\<close>: changing a member's role, removing a member and leaving.
  Each runs in the organization lock, re-reads target and actor through the transaction, asks
  \<open>canAssignRole\<close> and \<open>assertOwnerRemains\<close>, and writes; its audit event is emitted after the
  commit. An operation answers its result or error, the database, and the events emitted.
\<close>

section \<open>Context of a call\<close>

record ServiceEnv =
  se_lower :: "jstring \<Rightarrow> jstring"
  se_driver :: Driver
  se_now :: int
  se_emitAt :: int

type_synonym 'a outcome = "(Thrown + 'a) \<times> OrgDb \<times> SecurityEvent list"

definition requireOrganizationId :: "OrgRequestContext option \<Rightarrow> Thrown + jstring" where
  "requireOrganizationId ctx =
     (case ctx of
        None \<Rightarrow> Inl (derr E_INTERNAL)
      | Some c \<Rightarrow> if ctx_organizationId c = [] then Inl (derr E_INTERNAL) else Inr (ctx_organizationId c))"

definition requireUserId :: "OrgRequestContext option \<Rightarrow> Thrown + jstring" where
  "requireUserId ctx =
     (case ctx of
        None \<Rightarrow> Inl (derr E_INTERNAL)
      | Some c \<Rightarrow> (case ctx_userId c of
          None \<Rightarrow> Inl (derr E_INTERNAL)
        | Some u \<Rightarrow> if u = [] then Inl (derr E_INTERNAL) else Inr u))"

definition event :: "ServiceEnv \<Rightarrow> SecurityEventType \<Rightarrow> payload \<Rightarrow> SecurityEvent" where
  "event env type payload = fst (emit (se_lower env) (se_emitAt env) type payload)"

text \<open>
  The shape the write operations share: the organization and the caller of the context, one
  locked transaction, and after its commit the result with its audit events.
\<close>

definition prologue :: "OrgRequestContext option \<Rightarrow> Thrown + (jstring \<times> jstring)" where
  "prologue ctx = rbind (requireOrganizationId ctx) (\<lambda>o'. rbind (requireUserId ctx) (\<lambda>u. Inr (o', u)))"

definition in_org_transaction ::
    "ServiceEnv \<Rightarrow> OrgRequestContext option \<Rightarrow> jstring \<Rightarrow> (jstring \<Rightarrow> jstring \<Rightarrow> 'b tx) \<Rightarrow>
     (jstring \<Rightarrow> jstring \<Rightarrow> 'b \<Rightarrow> 'a \<times> SecurityEvent list) \<Rightarrow> OrgDb \<Rightarrow> 'a outcome" where
  "in_org_transaction env ctx operation body finish db =
     (case prologue ctx of
        Inl e \<Rightarrow> (Inl e, db, [])
      | Inr (organizationId, actorUserId) \<Rightarrow>
          (case runInOrgLockTransaction (se_driver env) ctx JUndef (Some operation)
                  (body organizationId actorUserId) db of
             (Inl e, db') \<Rightarrow> (Inl e, db', [])
           | (Inr x, db') \<Rightarrow>
               (case finish organizationId actorUserId x of (r, evs) \<Rightarrow> (Inr r, db', evs))))"

definition caller :: "OrgRequestContext \<Rightarrow> jstring \<Rightarrow> bool" where
  "caller c u \<longleftrightarrow> ctx_organizationId c \<noteq> [] \<and> ctx_userId c = Some u \<and> u \<noteq> []"

lemma prologue_ok: "prologue ctx = Inr (o', u) \<longleftrightarrow> (\<exists>c. ctx = Some c \<and> caller c u \<and> o' = ctx_organizationId c)"
  by (auto simp: prologue_def rbind_Inr_iff requireOrganizationId_def requireUserId_def caller_def
      split: option.splits)

lemma prologue_fails: "prologue ctx = Inl e \<Longrightarrow> code_of e = Some E_INTERNAL"
  by (auto simp: prologue_def rbind_Inl_iff requireOrganizationId_def requireUserId_def
      split: option.splits if_splits)

lemma in_org_commits:
  assumes "in_org_transaction env ctx operation body finish db = (Inr r, db', evs)"
  shows "\<exists>c u x. ctx = Some c \<and> caller c u \<and> org_fk db (ctx_organizationId c) \<and>
    body (ctx_organizationId c) u db = Inr (x, db') \<and> finish (ctx_organizationId c) u x = (r, evs)"
proof (cases "prologue ctx")
  case (Inl e)
  with assms show ?thesis by (simp add: in_org_transaction_def)
next
  case (Inr p)
  obtain o' u where p: "p = (o', u)" by (cases p)
  from Inr p obtain c where c: "ctx = Some c" "caller c u" "o' = ctx_organizationId c"
    using prologue_ok by blast
  from assms Inr p obtain x where
    run: "runInOrgLockTransaction (se_driver env) (Some c) JUndef (Some operation) (body o' u) db = (Inr x, db')"
    and fin: "finish o' u x = (r, evs)"
    by (auto simp: in_org_transaction_def c(1) split: sum.splits prod.splits)
  from run_committed(1,2) [OF run] fin c show ?thesis by auto
qed

lemma in_org_fails:
  "in_org_transaction env ctx operation body finish db = (Inl e, db', evs) \<Longrightarrow> db' = db \<and> evs = []"
  by (auto simp: in_org_transaction_def split: sum.splits prod.splits dest: run_failed)

text \<open>A call that may run: a known caller, a working driver and an existing organization.\<close>

definition may_run :: "ServiceEnv \<Rightarrow> OrgRequestContext \<Rightarrow> jstring \<Rightarrow> jstring \<Rightarrow> OrgDb \<Rightarrow> bool" where
  "may_run env c o' u db \<longleftrightarrow>
     caller c u \<and> ctx_organizationId c = o' \<and> driver_ok (se_driver env) \<and> trim o' \<noteq> [] \<and> org_fk db o'"

lemma in_org_refuses:
  assumes "may_run env c o' u db" and "body o' u db = Inl e"
  shows "in_org_transaction env (Some c) operation body finish db =
    (Inl (rethrowOrgLockError e (Some operation)), db, [])"
proof -
  have p: "prologue (Some c) = Inr (o', u)" using assms(1) by (simp add: prologue_ok may_run_def)
  show ?thesis
    using run_refuses [of "se_driver env" c db "body o' u" e] assms
    by (simp add: in_org_transaction_def p may_run_def)
qed

lemma in_org_succeeds:
  assumes "may_run env c o' u db" and "body o' u db = Inr (x, db')"
  shows "in_org_transaction env (Some c) operation body finish db =
    (Inr (fst (finish o' u x)), db', snd (finish o' u x))"
proof -
  have p: "prologue (Some c) = Inr (o', u)" using assms(1) by (simp add: prologue_ok may_run_def)
  show ?thesis
    using run_succeeds [of "se_driver env" c db "body o' u" x db'] assms
    by (simp add: in_org_transaction_def p may_run_def split: prod.split)
qed

section \<open>Reads of a decision\<close>

definition member_role :: "OrgDb \<Rightarrow> Membership \<Rightarrow> Role option" where
  "member_role db m = find (\<lambda>r. role_org r = mem_org m \<and> role_id r = mem_roleId m) (db_roles db)"

definition member_user :: "OrgDb \<Rightarrow> Membership \<Rightarrow> User option" where
  "member_user db m = find (\<lambda>u. usr_id u = mem_userId m) (db_users db)"

record MemberDecision =
  md_membership :: Membership
  md_role :: Role
  md_email :: jstring

text \<open>A required relation without its row: the driver's inconsistency error.\<close>

definition inconsistent_relation :: Thrown where
  "inconsistent_relation = error_named ''PrismaClientUnknownRequestError''"

definition select_decision :: "OrgDb \<Rightarrow> Membership \<Rightarrow> Thrown + MemberDecision" where
  "select_decision db m =
     (case (member_role db m, member_user db m) of
        (Some r, Some u) \<Rightarrow> Inr \<lparr>md_membership = m, md_role = r, md_email = usr_email u\<rparr>
      | _ \<Rightarrow> Inl inconsistent_relation)"

definition readActiveMembership :: "jstring \<Rightarrow> jstring \<Rightarrow> OrgDb \<Rightarrow> Thrown + MemberDecision option" where
  "readActiveMembership o' userId db =
     (case find_scoped mem_org o' (\<lambda>m. mem_userId m = userId) (db_memberships db) of
        None \<Rightarrow> Inr None
      | Some m \<Rightarrow>
          rbind (select_decision db m) (\<lambda>d.
            Inr (if mem_status (md_membership d) = MActive then Some d else None)))"

definition readActorCapabilities :: "jstring \<Rightarrow> jstring \<Rightarrow> OrgDb \<Rightarrow> Thrown + jstring list" where
  "readActorCapabilities o' actorUserId db =
     rbind (readActiveMembership o' actorUserId db) (\<lambda>actor.
       case actor of
         None \<Rightarrow> Inl (derr E_ORG_ACCESS_DENIED)
       | Some a \<Rightarrow> Inr (role_capabilities (md_role a)))"

definition owner_row_of :: "OrgDb \<Rightarrow> Membership \<Rightarrow> OwnerMembership" where
  "owner_row_of db m =
     \<lparr>om_userId = mem_userId m, om_status = mem_status m,
      om_capabilities = (case member_role db m of Some r \<Rightarrow> role_capabilities r | None \<Rightarrow> [])\<rparr>"

definition owner_candidates :: "jstring \<Rightarrow> OrgDb \<Rightarrow> OwnerMembership list" where
  "owner_candidates o' db =
     map (owner_row_of db)
       (filter_scoped mem_org o'
         (\<lambda>m. case member_role db m of
                Some r \<Rightarrow> role_org r = o' \<and> List.member (role_capabilities r) (js ''full_access'')
              | None \<Rightarrow> False)
         (db_memberships db))"

definition assertOwnerRemainsInTx :: "jstring \<Rightarrow> OwnerChange \<Rightarrow> OrgDb \<Rightarrow> Thrown + unit" where
  "assertOwnerRemainsInTx o' change db =
     (case assertOwnerRemains (owner_candidates o' db) change of
        Inl _ \<Rightarrow> Inl (derr E_LAST_OWNER)
      | Inr _ \<Rightarrow> Inr ())"

section \<open>Change a role\<close>

record RoleChangeOutcome =
  rco_fromRoleId :: jstring
  rco_toRoleId :: jstring
  rco_grantsFullAccess :: bool
  rco_row :: MemberRow

definition member_row_of :: "jstring \<Rightarrow> MemberDecision \<Rightarrow> MemberRow" where
  "member_row_of viewer d =
     toMemberRow
       \<lparr>mrm_userId = mem_userId (md_membership d), mrm_roleId = mem_roleId (md_membership d),
        mrm_status = mem_status (md_membership d), mrm_activatedAt = mem_activatedAt (md_membership d),
        mrm_revokedAt = mem_revokedAt (md_membership d), mrm_createdAt = mem_createdAt (md_membership d)\<rparr>
       \<lparr>mrr_name = role_name (md_role d), mrr_key = role_key (md_role d),
        mrr_capabilities = role_capabilities (md_role d)\<rparr>
       (md_email d) viewer"

text \<open>What the update statement selects back, and the outcome built from it.\<close>

definition role_change_outcome ::
    "jstring \<Rightarrow> jstring \<Rightarrow> jstring \<Rightarrow> jstring \<Rightarrow> Role \<Rightarrow> RoleChangeOutcome tx" where
  "role_change_outcome o' actorUserId targetUserId fromRoleId newRole db =
     (case find_scoped mem_org o' (\<lambda>m. mem_userId m = targetUserId) (db_memberships db) of
        None \<Rightarrow> Inl row_not_found
      | Some updated \<Rightarrow>
          rbind (select_decision db updated) (\<lambda>d.
            Inr (\<lparr>rco_fromRoleId = fromRoleId, rco_toRoleId = role_id newRole,
                  rco_grantsFullAccess = isOwnerRole (role_capabilities newRole),
                  rco_row = member_row_of actorUserId d\<rparr>, db)))"

definition updateRole_tx ::
    "jstring \<Rightarrow> jstring \<Rightarrow> jstring \<Rightarrow> jstring \<Rightarrow> RoleChangeOutcome tx" where
  "updateRole_tx o' actorUserId targetUserId roleId db =
     rbind (readActiveMembership o' targetUserId db) (\<lambda>target.
     case target of None \<Rightarrow> Inl (derr E_NOT_FOUND) | Some t \<Rightarrow>
     rbind (readActorCapabilities o' actorUserId db) (\<lambda>actorCapabilities.
     case find_scoped role_org o' (\<lambda>r. role_id r = roleId) (db_roles db) of
       None \<Rightarrow> Inl (derr_fields E_ROLE_INVALID [(js ''roleId'', ROLE_INVALID_COPY)])
     | Some newRole \<Rightarrow>
         if \<not> canAssignRole \<lparr>car_actorCapabilities = actorCapabilities,
                car_targetIsOwner = isOwnerRole (role_capabilities (md_role t)),
                car_newRoleIsOwner = isOwnerRole (role_capabilities newRole)\<rparr>
         then Inl (derr E_FORBIDDEN)
         else
           rbind (assertOwnerRemainsInTx o' (RoleChange targetUserId (role_capabilities newRole)) db) (\<lambda>_.
           rbind (update_membership o' targetUserId (\<lambda>m. m\<lparr>mem_roleId := role_id newRole\<rparr>) db) (\<lambda>db'.
           role_change_outcome o' actorUserId targetUserId (mem_roleId (md_membership t)) newRole db'))))"

definition updateRole ::
    "ServiceEnv \<Rightarrow> OrgRequestContext option \<Rightarrow> jstring \<Rightarrow> jstring \<Rightarrow> OrgDb \<Rightarrow> MemberRow outcome" where
  "updateRole env ctx targetUserId roleId db =
     in_org_transaction env ctx (js ''updateMemberRole'')
       (\<lambda>organizationId actorUserId. updateRole_tx organizationId actorUserId targetUserId roleId)
       (\<lambda>organizationId actorUserId oc.
          (rco_row oc,
           [event env Ev_org_member_role_changed
              [(js ''actorUserId'', JStr actorUserId), (js ''organizationId'', JStr organizationId),
               (js ''targetUserId'', JStr targetUserId), (js ''fromRoleId'', JStr (rco_fromRoleId oc)),
               (js ''toRoleId'', JStr (rco_toRoleId oc)),
               (js ''grantsFullAccess'', JBool (rco_grantsFullAccess oc))]]))
       db"

section \<open>Remove and leave\<close>

record Revocation =
  rev_revokedAt :: int
  rev_cancelledInvitationIds :: "jstring list"

definition writeRevocation ::
    "int \<Rightarrow> jstring \<Rightarrow> jstring \<Rightarrow> jstring \<Rightarrow> jstring \<Rightarrow> Revocation tx" where
  "writeRevocation revokedAt o' targetUserId email revokedByUserId db =
     rbind (update_membership o' targetUserId
              (\<lambda>m. m\<lparr>mem_status := MRevoked, mem_revokedAt := Some revokedAt,
                     mem_revokedByUserId := Some revokedByUserId\<rparr>) db) (\<lambda>db1.
     let pendingRows = filter_scoped inv_org o' (\<lambda>i. inv_email i = email \<and> pending i) (db_invitations db1);
         ids = map inv_id pendingRows
     in rbind (if length pendingRows > 0
               then updateMany_invitations o' (\<lambda>i. List.member ids (inv_id i))
                      (\<lambda>i. i\<lparr>inv_status := SCancelled, inv_cancelledAt := Some revokedAt\<rparr>) db1
               else Inr db1) (\<lambda>db2.
        Inr (\<lparr>rev_revokedAt = revokedAt, rev_cancelledInvitationIds = ids\<rparr>, db2)))"

definition revoke_tx :: "int \<Rightarrow> jstring \<Rightarrow> jstring \<Rightarrow> jstring \<Rightarrow> Revocation tx" where
  "revoke_tx now o' actorUserId targetUserId db =
     rbind (readActiveMembership o' targetUserId db) (\<lambda>target.
     case target of None \<Rightarrow> Inl (derr E_NOT_FOUND) | Some t \<Rightarrow>
     rbind (readActorCapabilities o' actorUserId db) (\<lambda>actorCapabilities.
       if \<not> canAssignRole \<lparr>car_actorCapabilities = actorCapabilities,
              car_targetIsOwner = isOwnerRole (role_capabilities (md_role t)),
              car_newRoleIsOwner = False\<rparr>
       then Inl (derr E_FORBIDDEN)
       else
         rbind (assertOwnerRemainsInTx o' (Revoke targetUserId) db) (\<lambda>_.
           writeRevocation now o' targetUserId (md_email t) actorUserId db)))"

record RevokeMemberResult =
  rmr_userId :: jstring
  rmr_status :: MembershipStatus
  rmr_revokedAt :: jstring
  rmr_cancelledInvitations :: nat

definition revoke ::
    "ServiceEnv \<Rightarrow> OrgRequestContext option \<Rightarrow> jstring \<Rightarrow> OrgDb \<Rightarrow> RevokeMemberResult outcome" where
  "revoke env ctx targetUserId db =
     in_org_transaction env ctx (js ''revokeMember'')
       (\<lambda>organizationId actorUserId. revoke_tx (se_now env) organizationId actorUserId targetUserId)
       (\<lambda>organizationId actorUserId oc.
          (\<lparr>rmr_userId = targetUserId, rmr_status = MRevoked,
            rmr_revokedAt = toISOString (rev_revokedAt oc),
            rmr_cancelledInvitations = length (rev_cancelledInvitationIds oc)\<rparr>,
           [event env Ev_org_member_revoked
              [(js ''actorUserId'', JStr actorUserId), (js ''organizationId'', JStr organizationId),
               (js ''targetUserId'', JStr targetUserId),
               (js ''cancelledInvitationIds'', JArr (map JStr (rev_cancelledInvitationIds oc)))]]))
       db"

definition leave_tx :: "int \<Rightarrow> jstring \<Rightarrow> jstring \<Rightarrow> (Revocation \<times> jstring) tx" where
  "leave_tx now o' actorUserId db =
     rbind (readActiveMembership o' actorUserId db) (\<lambda>self.
     case self of None \<Rightarrow> Inl (derr E_ORG_ACCESS_DENIED) | Some s \<Rightarrow>
     rbind (assertOwnerRemainsInTx o' (Revoke actorUserId) db) (\<lambda>_.
     rbind (writeRevocation now o' actorUserId (md_email s) actorUserId db) (\<lambda>(written, db').
       Inr ((written, mem_roleId (md_membership s)), db'))))"

record LeaveOrgResult =
  lor_organizationId :: jstring
  lor_status :: MembershipStatus
  lor_revokedAt :: jstring
  lor_cancelledInvitations :: nat

definition leave ::
    "ServiceEnv \<Rightarrow> OrgRequestContext option \<Rightarrow> OrgDb \<Rightarrow> LeaveOrgResult outcome" where
  "leave env ctx db =
     in_org_transaction env ctx (js ''leaveOrganization'')
       (\<lambda>organizationId actorUserId. leave_tx (se_now env) organizationId actorUserId)
       (\<lambda>organizationId actorUserId (oc, roleId).
          (\<lparr>lor_organizationId = organizationId, lor_status = MRevoked,
            lor_revokedAt = toISOString (rev_revokedAt oc),
            lor_cancelledInvitations = length (rev_cancelledInvitationIds oc)\<rparr>,
           [event env Ev_org_member_left
              [(js ''userId'', JStr actorUserId), (js ''organizationId'', JStr organizationId),
               (js ''roleId'', JStr roleId),
               (js ''cancelledInvitationIds'', JArr (map JStr (rev_cancelledInvitationIds oc)))]]))
       db"

section \<open>The membership table as the Owner rule sees it\<close>

definition owner_view :: "jstring \<Rightarrow> OrgDb \<Rightarrow> OwnerMembership list" where
  "owner_view o' db = map (owner_row_of db) (filter (\<lambda>m. mem_org m = o') (db_memberships db))"

datatype MemberWrite = SetRole jstring jstring | SetRevoked jstring int jstring

fun member_write :: "MemberWrite \<Rightarrow> Membership \<Rightarrow> Membership" where
  "member_write (SetRole u r) m = m\<lparr>mem_roleId := r\<rparr>"
| "member_write (SetRevoked u t by') m =
     m\<lparr>mem_status := MRevoked, mem_revokedAt := Some t, mem_revokedByUserId := Some by'\<rparr>"

fun write_target :: "MemberWrite \<Rightarrow> jstring" where
  "write_target (SetRole u r) = u"
| "write_target (SetRevoked u t by') = u"

definition apply_write :: "jstring \<Rightarrow> MemberWrite \<Rightarrow> OrgDb \<Rightarrow> OrgDb" where
  "apply_write o' w db =
     put_memberships (update_scoped mem_org o' (\<lambda>m. mem_userId m = write_target w) (member_write w)
       (db_memberships db)) db"

definition role_caps :: "OrgDb \<Rightarrow> jstring \<Rightarrow> jstring \<Rightarrow> jstring list" where
  "role_caps db o' r =
     (case find (\<lambda>x. role_org x = o' \<and> role_id x = r) (db_roles db) of
        Some x \<Rightarrow> role_capabilities x | None \<Rightarrow> [])"

fun write_change :: "jstring \<Rightarrow> MemberWrite \<Rightarrow> OrgDb \<Rightarrow> OwnerChange" where
  "write_change o' (SetRole u r) db = RoleChange u (role_caps db o' r)"
| "write_change o' (SetRevoked u t by') db = Revoke u"

lemma write_keys [simp]:
  "mem_org (member_write w m) = mem_org m" "mem_userId (member_write w m) = mem_userId m"
  by (cases w; simp)+

lemma owner_row_fields [simp]:
  "om_userId (owner_row_of db m) = mem_userId m" "om_status (owner_row_of db m) = mem_status m"
  by (simp_all add: owner_row_of_def)

lemma owner_row_caps: "om_capabilities (owner_row_of db m) = role_caps db (mem_org m) (mem_roleId m)"
  by (simp add: owner_row_of_def role_caps_def member_role_def)

lemma unique_by_scoped:
  assumes "unique_by (\<lambda>m. (org m, u m)) rows"
  shows "distinct (map u (filter (\<lambda>m. org m = o') rows))"
  using assms by (induction rows) (auto simp: unique_by_def image_iff)

lemma owner_view_distinct: "db_ok db \<Longrightarrow> distinct (map om_userId (owner_view o' db))"
  using unique_by_scoped [of mem_org mem_userId "db_memberships db" o']
  by (simp add: db_ok_def memberships_unique_def owner_view_def owner_row_of_def comp_def)

lemma filter_update_scoped:
  assumes "\<And>r. orgOf (f r) = orgOf r"
  shows "filter (\<lambda>r. orgOf r = o') (update_scoped orgOf o' P f rows) =
    map (\<lambda>r. if P r then f r else r) (filter (\<lambda>r. orgOf r = o') rows)"
  using assms by (induction rows) (auto simp: update_scoped_def)

lemma owner_row_write:
  assumes "mem_org m = o'"
  shows "owner_row_of (apply_write o' w db) (if mem_userId m = write_target w then member_write w m else m) =
    hd (apply_change (write_change o' w db) [owner_row_of db m])"
  using assms
  by (cases w) (auto simp: apply_write_def put_memberships_def owner_row_of_def member_role_def
      apply_change_def role_caps_def)

lemma owner_view_write:
  "owner_view o' (apply_write o' w db) = apply_change (write_change o' w db) (owner_view o' db)"
proof -
  let ?f = "\<lambda>m. if mem_userId m = write_target w then member_write w m else m"
  have "filter (\<lambda>m. mem_org m = o') (db_memberships (apply_write o' w db)) =
      map ?f (filter (\<lambda>m. mem_org m = o') (db_memberships db))"
    by (simp add: apply_write_def put_memberships_def filter_update_scoped)
  then have "owner_view o' (apply_write o' w db) =
      map (\<lambda>m. owner_row_of (apply_write o' w db) (?f m)) (filter (\<lambda>m. mem_org m = o') (db_memberships db))"
    by (simp add: owner_view_def comp_def)
  also have "\<dots> = map (\<lambda>m. hd (apply_change (write_change o' w db) [owner_row_of db m]))
      (filter (\<lambda>m. mem_org m = o') (db_memberships db))"
    by (rule map_cong [OF refl], rule owner_row_write) simp
  also have "\<dots> = apply_change (write_change o' w db) (owner_view o' db)"
    by (simp add: owner_view_def apply_change_def)
  finally show ?thesis .
qed

interpretation org: owner_guarded "owner_view o'" "apply_write o'" "write_change o'" "\<lambda>w db. True" db_ok
  for o'
  by unfold_locales (simp_all add: owner_view_distinct owner_view_write)

lemma owner_candidates_view: "owner_candidates o' db = owner_rows (owner_view o' db)"
proof -
  have k: "isOwnerRole (om_capabilities (owner_row_of db m)) \<longleftrightarrow>
      (case member_role db m of
         Some r \<Rightarrow> role_org r = o' \<and> List.member (role_capabilities r) (js ''full_access'')
       | None \<Rightarrow> False)" if "mem_org m = o'" for m
    using that by (auto simp: owner_row_of_def isOwnerRole_iff CAPABILITY_FULL_ACCESS_def member_role_def
        dest: find_SomeD split: option.splits)
  then have "filter (\<lambda>m. mem_org m = o' \<and> (case member_role db m of
        Some r \<Rightarrow> role_org r = o' \<and> List.member (role_capabilities r) (js ''full_access'')
      | None \<Rightarrow> False)) (db_memberships db) =
    filter (\<lambda>m. mem_org m = o' \<and> isOwnerRole (om_capabilities (owner_row_of db m))) (db_memberships db)"
    by (intro filter_cong) auto
  then show ?thesis
    by (simp add: owner_candidates_def owner_rows_def owner_view_def filter_scoped_def filter_map comp_def
        conj_commute)
qed

definition has_active_owner :: "jstring \<Rightarrow> OrgDb \<Rightarrow> bool" where
  "has_active_owner o' db \<longleftrightarrow>
     (\<exists>m \<in> set (db_memberships db). mem_org m = o' \<and> mem_status m = MActive \<and>
        isOwnerRole (role_caps db o' (mem_roleId m)))"

lemma has_active_owner_view: "has_active_owner o' db \<longleftrightarrow> active_owners (owner_view o' db) \<noteq> {}"
proof -
  have "active_owners (owner_view o' db) \<noteq> {} \<longleftrightarrow> (\<exists>x \<in> set (owner_view o' db). active_owner_row x)"
    by (auto simp: active_owners_def)
  also have "\<dots> \<longleftrightarrow> (\<exists>m \<in> set (db_memberships db). mem_org m = o' \<and> active_owner_row (owner_row_of db m))"
    by (auto simp: owner_view_def)
  also have "\<dots> \<longleftrightarrow> has_active_owner o' db"
    by (auto simp: has_active_owner_def active_owner_row_def owner_row_caps)
  finally show ?thesis ..
qed

section \<open>What a successful operation did\<close>

lemma find_member:
  assumes "db_ok db" and "m \<in> set (db_memberships db)"
  shows "find_scoped mem_org (mem_org m) (\<lambda>x. mem_userId x = mem_userId m) (db_memberships db) = Some m"
proof -
  have "y = m" if "y \<in> set (db_memberships db)" "mem_org y = mem_org m" "mem_userId y = mem_userId m" for y
    using assms that
    by (auto simp: db_ok_def memberships_unique_def unique_by_def distinct_map inj_on_def)
  with assms(2) show ?thesis unfolding find_scoped_def by (intro find_unique) auto
qed

lemma readActive_SomeD:
  assumes "readActiveMembership o' u db = Inr (Some d)"
  shows "md_membership d \<in> set (db_memberships db)" "mem_org (md_membership d) = o'"
    "mem_userId (md_membership d) = u" "mem_status (md_membership d) = MActive"
    "member_role db (md_membership d) = Some (md_role d)"
    "\<exists>usr. member_user db (md_membership d) = Some usr \<and> md_email d = usr_email usr"
proof -
  from assms obtain m where f: "find_scoped mem_org o' (\<lambda>m. mem_userId m = u) (db_memberships db) = Some m"
    and s: "select_decision db m = Inr d" and a: "mem_status (md_membership d) = MActive"
    by (auto simp: readActiveMembership_def rbind_Inr_iff split: option.splits if_splits)
  from s have m: "md_membership d = m" "member_role db m = Some (md_role d)"
    "\<exists>usr. member_user db m = Some usr \<and> md_email d = usr_email usr"
    by (auto simp: select_decision_def split: option.splits)
  from find_scoped_SomeD [OF f] m a
  show "md_membership d \<in> set (db_memberships db)" "mem_org (md_membership d) = o'"
    "mem_userId (md_membership d) = u" "mem_status (md_membership d) = MActive"
    "member_role db (md_membership d) = Some (md_role d)"
    "\<exists>usr. member_user db (md_membership d) = Some usr \<and> md_email d = usr_email usr" by auto
qed

lemma update_membership_write:
  assumes "update_membership o' (write_target w) (member_write w) db = Inr db'"
  shows "db' = apply_write o' w db"
proof -
  from assms have "write_memberships (update_scoped mem_org o' (\<lambda>m. mem_userId m = write_target w)
      (member_write w) (db_memberships db)) db = Inr db'"
    by (simp add: update_membership_def split: if_splits)
  from write_memberships_ok(1) [OF this] show ?thesis by (simp add: apply_write_def)
qed

text \<open>A guarded membership write keeps the database consistent, its organization owned and every
  other organization as it was.\<close>

lemma guarded_update:
  assumes ok: "db_ok db" and t: "readActiveMembership o' (write_target w) db = Inr (Some d)"
    and guard: "assertOwnerRemainsInTx o' (write_change o' w db) db = Inr ()"
    and upd: "update_membership o' (write_target w) (member_write w) db = Inr db'"
  shows "db_ok db'" "has_active_owner o' db'" "outside_unchanged o' db db'" "db' = apply_write o' w db"
proof -
  have e: "db' = apply_write o' w db" by (rule update_membership_write [OF upd])
  let ?t = "owner_row_of db (md_membership d)"
  have "?t \<in> set (owner_view o' db)" "om_status ?t = MActive" "om_userId ?t = write_target w"
    using readActive_SomeD [OF t] by (auto simp: owner_view_def)
  moreover have "change_userId (write_change o' w db) = write_target w" by (cases w) auto
  moreover from guard have "assertOwnerRemains (owner_rows (owner_view o' db)) (write_change o' w db) = Inr ()"
    by (simp add: assertOwnerRemainsInTx_def owner_candidates_view split: sum.splits)
  ultimately have "active_owners (owner_view o' (apply_write o' w db)) \<noteq> {}"
    using org.guarded_write_keeps_owner [where s = db and w = w and t = ?t and o' = o'] ok by simp
  then show "has_active_owner o' db'" by (simp add: has_active_owner_view e)
  show "db_ok db'" by (rule writes_db_ok(1) [OF ok upd])
  show "outside_unchanged o' db db'" by (rule update_membership_outside [OF upd]) simp
  show "db' = apply_write o' w db" by (rule e)
qed

lemma set_role_eq: "(\<lambda>m. m\<lparr>mem_roleId := r\<rparr>) = member_write (SetRole u r)"
  by (rule ext) simp

lemma set_revoked_eq:
  "(\<lambda>m. m\<lparr>mem_status := MRevoked, mem_revokedAt := Some t, mem_revokedByUserId := Some b\<rparr>) =
     member_write (SetRevoked u t b)"
  by (rule ext) simp

definition revoked_row :: "jstring \<Rightarrow> jstring \<Rightarrow> int \<Rightarrow> OrgDb \<Rightarrow> bool" where
  "revoked_row o' u t db \<longleftrightarrow>
     (\<exists>m \<in> set (db_memberships db). mem_org m = o' \<and> mem_userId m = u) \<and>
     (\<forall>m \<in> set (db_memberships db). mem_org m = o' \<and> mem_userId m = u \<longrightarrow>
        mem_status m = MRevoked \<and> mem_revokedAt m = Some t)"

definition no_pending_for :: "jstring \<Rightarrow> jstring \<Rightarrow> OrgDb \<Rightarrow> bool" where
  "no_pending_for o' email db \<longleftrightarrow>
     (\<forall>i \<in> set (db_invitations db). inv_org i = o' \<and> inv_email i = email \<longrightarrow> \<not> pending i)"

lemma updateMany_result:
  assumes "updateMany_invitations o' P f db = Inr db'"
  shows "db' = put_invitations (update_scoped inv_org o' P f (db_invitations db)) db"
  using write_invitations_ok(1) assms by (auto simp: updateMany_invitations_def)

lemma has_active_owner_frame:
  "db_memberships db' = db_memberships db \<Longrightarrow> db_roles db' = db_roles db \<Longrightarrow>
     has_active_owner o' db' = has_active_owner o' db"
  by (simp add: has_active_owner_def role_caps_def)

lemma cancel_pending:
  assumes "updateMany_invitations o' (\<lambda>i. List.member ids (inv_id i))
      (\<lambda>i. i\<lparr>inv_status := SCancelled, inv_cancelledAt := Some t\<rparr>) db = Inr db'"
    and "ids = map inv_id (filter_scoped inv_org o' (\<lambda>i. inv_email i = email \<and> pending i) (db_invitations db))"
  shows "no_pending_for o' email db'"
proof -
  let ?f = "\<lambda>i. i\<lparr>inv_status := SCancelled, inv_cancelledAt := Some t\<rparr>"
  have d: "db_invitations db' = update_scoped inv_org o' (\<lambda>i. List.member ids (inv_id i)) ?f (db_invitations db)"
    by (simp add: updateMany_result [OF assms(1)] put_invitations_def)
  have "\<not> pending i" if i: "i \<in> set (db_invitations db')" "inv_org i = o'" "inv_email i = email" for i
  proof -
    from i(1) obtain j where j: "j \<in> set (db_invitations db)"
      and e: "i = (if inv_org j = o' \<and> inv_id j \<in> set ids then ?f j else j)"
      by (auto simp: d set_update_scoped)
    show ?thesis
    proof (cases "inv_org j = o' \<and> inv_id j \<in> set ids")
      case True
      then show ?thesis by (simp add: e pending_def)
    next
      case False
      then have "i = j" using e by auto
      with False i j show ?thesis by (auto simp: assms(2) filter_scoped_def)
    qed
  qed
  then show ?thesis by (simp add: no_pending_for_def)
qed

definition pending_ids :: "jstring \<Rightarrow> jstring \<Rightarrow> OrgDb \<Rightarrow> jstring list" where
  "pending_ids o' email db =
     map inv_id (filter_scoped inv_org o' (\<lambda>i. inv_email i = email \<and> pending i) (db_invitations db))"

definition cancel_step :: "jstring \<Rightarrow> int \<Rightarrow> jstring list \<Rightarrow> OrgDb \<Rightarrow> Thrown + OrgDb" where
  "cancel_step o' t ids db =
     (if ids \<noteq> [] then updateMany_invitations o' (\<lambda>i. List.member ids (inv_id i))
         (\<lambda>i. i\<lparr>inv_status := SCancelled, inv_cancelledAt := Some t\<rparr>) db
      else Inr db)"

lemma writeRevocation_steps:
  "writeRevocation now o' u email by' db =
     rbind (update_membership o' u (member_write (SetRevoked u now by')) db) (\<lambda>db1.
     rbind (cancel_step o' now (pending_ids o' email db1) db1) (\<lambda>db2.
       Inr (\<lparr>rev_revokedAt = now, rev_cancelledInvitationIds = pending_ids o' email db1\<rparr>, db2)))"
  by (simp add: writeRevocation_def cancel_step_def pending_ids_def Let_def set_revoked_eq [of _ _ u])

lemma cancel_step_spec:
  assumes "cancel_step o' t (pending_ids o' email db) db = Inr db'"
  shows "db_memberships db' = db_memberships db" "db_roles db' = db_roles db"
    "outside_unchanged o' db db'" "db_ok db \<Longrightarrow> db_ok db'" "no_pending_for o' email db'"
proof -
  let ?f = "\<lambda>i. i\<lparr>inv_status := SCancelled, inv_cancelledAt := Some t\<rparr>"
  have "db' = db \<and> pending_ids o' email db = [] \<or>
    updateMany_invitations o' (\<lambda>i. List.member (pending_ids o' email db) (inv_id i)) ?f db = Inr db'"
    using assms by (auto simp: cancel_step_def split: if_splits)
  then have "db_memberships db' = db_memberships db \<and> db_roles db' = db_roles db \<and>
    outside_unchanged o' db db' \<and> (db_ok db \<longrightarrow> db_ok db') \<and> no_pending_for o' email db'"
  proof
    assume "db' = db \<and> pending_ids o' email db = []"
    then show ?thesis
      by (auto simp: pending_ids_def no_pending_for_def filter_scoped_def filter_empty_conv)
  next
    assume m: "updateMany_invitations o' (\<lambda>i. List.member (pending_ids o' email db) (inv_id i)) ?f db = Inr db'"
    have "no_pending_for o' email db'" by (rule cancel_pending [OF m pending_ids_def])
    moreover have "outside_unchanged o' db db'" by (rule updateMany_invitations_outside [OF m]) simp
    ultimately show ?thesis
      using writes_db_ok(4) [OF _ m] by (simp add: updateMany_result [OF m] put_invitations_def)
  qed
  then show "db_memberships db' = db_memberships db" "db_roles db' = db_roles db"
    "outside_unchanged o' db db'" "db_ok db \<Longrightarrow> db_ok db'" "no_pending_for o' email db'" by blast+
qed

lemma revoked_after_write:
  assumes "update_membership o' u (member_write (SetRevoked u now by')) db = Inr db1"
  shows "revoked_row o' u now db1"
proof -
  let ?w = "SetRevoked u now by'"
  from assms have "find_scoped mem_org o' (\<lambda>m. mem_userId m = u) (db_memberships db) \<noteq> None"
    by (auto simp: update_membership_def split: if_splits)
  then obtain m where m: "m \<in> set (db_memberships db)" "mem_org m = o'" "mem_userId m = u"
    by (auto dest: find_scoped_SomeD)
  have rows: "db_memberships db1 = update_scoped mem_org o' (\<lambda>m. mem_userId m = u) (member_write ?w) (db_memberships db)"
    using update_membership_write [of o' ?w db db1] assms by (simp add: apply_write_def put_memberships_def)
  have "member_write ?w m \<in> set (db_memberships db1)"
    unfolding rows set_update_scoped using m by (intro image_eqI [of _ _ m]) auto
  moreover have "mem_status x = MRevoked \<and> mem_revokedAt x = Some now"
    if "x \<in> set (db_memberships db1)" "mem_org x = o'" "mem_userId x = u" for x
  proof -
    from that(1) obtain y where "x = (if mem_org y = o' \<and> mem_userId y = u then member_write ?w y else y)"
      unfolding rows set_update_scoped by blast
    with that(2,3) show ?thesis by (cases "mem_org y = o' \<and> mem_userId y = u") auto
  qed
  moreover have "mem_org (member_write ?w m) = o'" "mem_userId (member_write ?w m) = u" using m by simp_all
  ultimately show ?thesis unfolding revoked_row_def by blast
qed

text \<open>What the three operations guarantee when they commit.\<close>

definition membership_change_safe :: "jstring \<Rightarrow> OrgDb \<Rightarrow> OrgDb \<Rightarrow> bool" where
  "membership_change_safe o' db db' \<longleftrightarrow> db_ok db' \<and> has_active_owner o' db' \<and> outside_unchanged o' db db'"

lemma revocation_safe:
  assumes ok: "db_ok db" and t: "readActiveMembership o' u db = Inr (Some d)"
    and guard: "assertOwnerRemainsInTx o' (Revoke u) db = Inr ()"
    and w: "writeRevocation now o' u email by' db = Inr (rv, db')"
  shows "membership_change_safe o' db db'" "revoked_row o' u now db'" "no_pending_for o' email db'"
    "rv = \<lparr>rev_revokedAt = now, rev_cancelledInvitationIds = pending_ids o' email db\<rparr>"
proof -
  let ?w = "SetRevoked u now by'"
  from w obtain db1 where u: "update_membership o' u (member_write ?w) db = Inr db1"
    and c: "cancel_step o' now (pending_ids o' email db1) db1 = Inr db'"
    and rv: "rv = \<lparr>rev_revokedAt = now, rev_cancelledInvitationIds = pending_ids o' email db1\<rparr>"
    by (auto simp: writeRevocation_steps rbind_Inr_iff)
  note cs = cancel_step_spec [OF c]
  have g: "db_ok db1" "has_active_owner o' db1" "outside_unchanged o' db db1" "db1 = apply_write o' ?w db"
    using guarded_update [of db o' ?w d db1] ok t guard u by auto
  have "has_active_owner o' db'" using g(2) has_active_owner_frame [OF cs(1,2)] by simp
  then show "membership_change_safe o' db db'"
    using cs(4) [OF g(1)] outside_trans [OF g(3) cs(3)] by (simp add: membership_change_safe_def)
  show "revoked_row o' u now db'" using revoked_after_write [OF u] by (simp add: revoked_row_def cs(1))
  show "no_pending_for o' email db'" by (rule cs(5))
  show "rv = \<lparr>rev_revokedAt = now, rev_cancelledInvitationIds = pending_ids o' email db\<rparr>"
    by (simp add: rv g(4) pending_ids_def apply_write_def put_memberships_def)
qed

section \<open>The operations\<close>

lemma updateRole_tx_ok:
  assumes "updateRole_tx o' a t r db = Inr (oc, db')"
  obtains d caps nr where "readActiveMembership o' t db = Inr (Some d)"
    and "readActorCapabilities o' a db = Inr caps"
    and "find_scoped role_org o' (\<lambda>x. role_id x = r) (db_roles db) = Some nr"
    and "canAssignRole \<lparr>car_actorCapabilities = caps,
           car_targetIsOwner = isOwnerRole (role_capabilities (md_role d)),
           car_newRoleIsOwner = isOwnerRole (role_capabilities nr)\<rparr>"
    and "assertOwnerRemainsInTx o' (RoleChange t (role_capabilities nr)) db = Inr ()"
    and "update_membership o' t (member_write (SetRole t r)) db = Inr db'"
    and "rco_toRoleId oc = r" and "rco_fromRoleId oc = mem_roleId (md_membership d)"
proof -
  from assms obtain d where d: "readActiveMembership o' t db = Inr (Some d)"
    by (auto simp: updateRole_tx_def rbind_Inr_iff split: option.splits)
  from assms d obtain caps where c: "readActorCapabilities o' a db = Inr caps"
    by (auto simp: updateRole_tx_def rbind_Inr_iff)
  from assms d c obtain nr where n: "find_scoped role_org o' (\<lambda>x. role_id x = r) (db_roles db) = Some nr"
    by (auto simp: updateRole_tx_def split: option.splits)
  have rid: "role_id nr = r" using find_scoped_SomeD [OF n] by simp
  from assms d c n obtain db1 where can: "canAssignRole \<lparr>car_actorCapabilities = caps,
           car_targetIsOwner = isOwnerRole (role_capabilities (md_role d)),
           car_newRoleIsOwner = isOwnerRole (role_capabilities nr)\<rparr>"
    and g: "assertOwnerRemainsInTx o' (RoleChange t (role_capabilities nr)) db = Inr ()"
    and u: "update_membership o' t (\<lambda>m. m\<lparr>mem_roleId := role_id nr\<rparr>) db = Inr db1"
    and rest: "role_change_outcome o' a t (mem_roleId (md_membership d)) nr db1 = Inr (oc, db')"
    by (auto simp: updateRole_tx_def rbind_Inr_iff split: if_splits)
  from rest have e: "db1 = db'" "rco_toRoleId oc = r" "rco_fromRoleId oc = mem_roleId (md_membership d)"
    using rid by (auto simp: role_change_outcome_def rbind_Inr_iff split: option.splits)
  from u have "update_membership o' t (member_write (SetRole t r)) db = Inr db1"
    unfolding rid set_role_eq [of r t] .
  with e that [OF d c n can g] show thesis by blast
qed

lemma updateRole_tx_safe:
  assumes ok: "db_ok db" and r: "updateRole_tx o' a t r db = Inr (oc, db')"
  shows "membership_change_safe o' db db'"
proof -
  from r obtain d caps nr where d: "readActiveMembership o' t db = Inr (Some d)"
    and n: "find_scoped role_org o' (\<lambda>x. role_id x = r) (db_roles db) = Some nr"
    and g: "assertOwnerRemainsInTx o' (RoleChange t (role_capabilities nr)) db = Inr ()"
    and u: "update_membership o' t (member_write (SetRole t r)) db = Inr db'"
    by (rule updateRole_tx_ok)
  have "write_change o' (SetRole t r) db = RoleChange t (role_capabilities nr)"
    using n by (simp add: role_caps_def find_scoped_def)
  then show ?thesis
    using guarded_update [of db o' "SetRole t r" d db'] ok d g u by (simp add: membership_change_safe_def)
qed

lemma revoke_tx_ok:
  assumes "revoke_tx now o' a t db = Inr (rv, db')"
  obtains d caps where "readActiveMembership o' t db = Inr (Some d)"
    and "readActorCapabilities o' a db = Inr caps"
    and "canAssignRole \<lparr>car_actorCapabilities = caps,
           car_targetIsOwner = isOwnerRole (role_capabilities (md_role d)), car_newRoleIsOwner = False\<rparr>"
    and "assertOwnerRemainsInTx o' (Revoke t) db = Inr ()"
    and "writeRevocation now o' t (md_email d) a db = Inr (rv, db')"
proof -
  from assms obtain d where d: "readActiveMembership o' t db = Inr (Some d)"
    by (auto simp: revoke_tx_def rbind_Inr_iff split: option.splits)
  from assms d obtain caps where c: "readActorCapabilities o' a db = Inr caps"
    by (auto simp: revoke_tx_def rbind_Inr_iff)
  from assms d c that [OF d c] show thesis
    by (auto simp: revoke_tx_def rbind_Inr_iff split: if_splits)
qed

lemma leave_tx_ok:
  assumes "leave_tx now o' a db = Inr ((rv, rid), db')"
  obtains d where "readActiveMembership o' a db = Inr (Some d)"
    and "assertOwnerRemainsInTx o' (Revoke a) db = Inr ()"
    and "writeRevocation now o' a (md_email d) a db = Inr (rv, db')"
proof -
  from assms obtain d where d: "readActiveMembership o' a db = Inr (Some d)"
    by (auto simp: leave_tx_def rbind_Inr_iff split: option.splits)
  from assms d that [OF d] show thesis
    by (auto simp: leave_tx_def rbind_Inr_iff split: prod.splits)
qed

lemma leave_tx_safe:
  assumes "db_ok db" and "leave_tx now o' a db = Inr ((rv, rid), db')"
  shows "membership_change_safe o' db db'"
  using leave_tx_ok [OF assms(2)] revocation_safe(1) [OF assms(1)] by metis

lemma revoke_tx_safe:
  assumes "db_ok db" and "revoke_tx now o' a t db = Inr (rv, db')"
  shows "membership_change_safe o' db db'"
  using revoke_tx_ok [OF assms(2)] revocation_safe(1) [OF assms(1)] by metis

lemma updateRole_commits:
  assumes "updateRole env ctx t r db = (Inr row, db', evs)"
  shows "\<exists>c u oc. ctx = Some c \<and> caller c u \<and>
    updateRole_tx (ctx_organizationId c) u t r db = Inr (oc, db') \<and> row = rco_row oc \<and> length evs = 1"
  using in_org_commits [OF assms [unfolded updateRole_def]] by auto blast

lemma revoke_commits:
  assumes "revoke env ctx t db = (Inr res, db', evs)"
  shows "\<exists>c u rv. ctx = Some c \<and> caller c u \<and>
    revoke_tx (se_now env) (ctx_organizationId c) u t db = Inr (rv, db') \<and> length evs = 1"
  using in_org_commits [OF assms [unfolded revoke_def]] by auto blast

lemma leave_commits:
  assumes "leave env ctx db = (Inr res, db', evs)"
  shows "\<exists>c u rv rid. ctx = Some c \<and> caller c u \<and>
    leave_tx (se_now env) (ctx_organizationId c) u db = Inr ((rv, rid), db') \<and> length evs = 1"
  using in_org_commits [OF assms [unfolded leave_def]] by (auto split: prod.splits) blast

lemmas members_fail = in_org_fails [of _ _ "js ''updateMemberRole''"] in_org_fails [of _ _ "js ''revokeMember''"]
  in_org_fails [of _ _ "js ''leaveOrganization''"]

section \<open>Which calls succeed\<close>

lemma unique_by_update:
  assumes "\<And>r. key (f r) = key r"
  shows "unique_by key (update_scoped orgOf o' P f rows) = unique_by key rows"
  by (simp add: unique_by_def map_update_scoped assms)

lemma update_membership_succeeds:
  assumes ok: "db_ok db" and m: "m \<in> set (db_memberships db)" "mem_org m = o'" "mem_userId m = write_target w"
    and fk: "\<And>u r. w = SetRole u r \<Longrightarrow> role_fk db o' r"
  shows "update_membership o' (write_target w) (member_write w) db = Inr (apply_write o' w db)"
proof -
  let ?rs = "update_scoped mem_org o' (\<lambda>m. mem_userId m = write_target w) (member_write w) (db_memberships db)"
  have f: "find_scoped mem_org o' (\<lambda>m. mem_userId m = write_target w) (db_memberships db) = Some m"
    using find_member [OF ok m(1)] m(2,3) by simp
  have "mem_id (member_write w r) = mem_id r" for r by (cases w) auto
  then have u: "memberships_unique ?rs"
    using ok by (simp add: db_ok_def memberships_unique_def unique_by_update)
  have row: "org_fk db (mem_org r) \<and> user_fk db (mem_userId r) \<and> role_fk db (mem_org r) (mem_roleId r)"
    if "r \<in> set (db_memberships db)" for r
    using ok that by (simp add: db_ok_def list_all_iff)
  have "org_fk db (mem_org r') \<and> user_fk db (mem_userId r') \<and> role_fk db (mem_org r') (mem_roleId r')"
    if "r' \<in> set ?rs" for r'
  proof -
    from that obtain r where r: "r \<in> set (db_memberships db)"
      and e: "r' = (if mem_org r = o' \<and> mem_userId r = write_target w then member_write w r else r)"
      unfolding set_update_scoped by blast
    show ?thesis
    proof (cases "mem_org r = o' \<and> mem_userId r = write_target w")
      case True
      with row [OF r] e fk show ?thesis by (cases w) auto
    next
      case False
      with row [OF r] e show ?thesis by auto
    qed
  qed
  then have "write_memberships ?rs db = Inr (put_memberships ?rs db)"
    using u by (simp add: write_memberships_def list_all_iff)
  then show ?thesis by (simp add: update_membership_def f apply_write_def)
qed

lemma pending_after_cancel:
  "filter pending (update_scoped inv_org o' P (\<lambda>i. i\<lparr>inv_status := SCancelled, inv_cancelledAt := Some t\<rparr>) rows) =
     filter (\<lambda>i. \<not> (inv_org i = o' \<and> P i)) (filter pending rows)"
  by (induction rows) (auto simp: update_scoped_def pending_def)

lemma unique_by_filter: "unique_by key rows \<Longrightarrow> unique_by key (filter P rows)"
  by (simp add: unique_by_def distinct_map_filter)

lemma cancel_step_succeeds:
  assumes "db_ok db"
  shows "\<exists>db'. cancel_step o' t ids db = Inr db'"
proof -
  let ?f = "\<lambda>i. i\<lparr>inv_status := SCancelled, inv_cancelledAt := Some t\<rparr>"
  let ?rs = "update_scoped inv_org o' (\<lambda>i. List.member ids (inv_id i)) ?f (db_invitations db)"
  have "invitations_unique ?rs"
    using assms
    by (auto simp: db_ok_def invitations_unique_def unique_by_update pending_after_cancel
        simp del: filter_filter intro: unique_by_filter)
  moreover have "org_fk db (inv_org i) \<and> role_fk db (inv_org i) (inv_roleId i)" if "i \<in> set ?rs" for i
  proof -
    from that obtain j where "j \<in> set (db_invitations db)" "inv_org i = inv_org j" "inv_roleId i = inv_roleId j"
      unfolding set_update_scoped by auto
    with assms show ?thesis by (simp add: db_ok_def list_all_iff)
  qed
  ultimately show ?thesis
    by (simp add: cancel_step_def updateMany_invitations_def write_invitations_def list_all_iff)
qed

lemma writeRevocation_succeeds:
  assumes "db_ok db" and "m \<in> set (db_memberships db)" "mem_org m = o'" "mem_userId m = u"
  shows "\<exists>rv db'. writeRevocation now o' u email by' db = Inr (rv, db')"
proof -
  let ?w = "SetRevoked u now by'"
  have up: "update_membership o' u (member_write ?w) db = Inr (apply_write o' ?w db)"
    using update_membership_succeeds [of db m o' ?w] assms by simp
  then have "db_ok (apply_write o' ?w db)" using writes_db_ok(1) [OF assms(1)] by blast
  then obtain db' where "cancel_step o' now (pending_ids o' email (apply_write o' ?w db)) (apply_write o' ?w db) = Inr db'"
    using cancel_step_succeeds by blast
  then show ?thesis by (simp add: writeRevocation_steps up)
qed

lemma select_decision_ok:
  assumes "db_ok db" and "m \<in> set (db_memberships db)"
  shows "\<exists>d. select_decision db m = Inr d \<and> md_membership d = m"
proof -
  from assms have "role_fk db (mem_org m) (mem_roleId m)" "user_fk db (mem_userId m)"
    by (auto simp: db_ok_def list_all_iff)
  then have "member_role db m \<noteq> None" "member_user db m \<noteq> None"
    by (auto simp: role_fk_def user_fk_def list_ex_iff member_role_def member_user_def find_None_iff)
  then show ?thesis by (auto simp: select_decision_def)
qed

lemma readActive_ok:
  assumes "db_ok db" and "m \<in> set (db_memberships db)" "mem_status m = MActive"
  shows "\<exists>d. readActiveMembership (mem_org m) (mem_userId m) db = Inr (Some d) \<and> md_membership d = m"
proof -
  from select_decision_ok [OF assms(1,2)] obtain d where "select_decision db m = Inr d" "md_membership d = m"
    by blast
  then show ?thesis using find_member [OF assms(1,2)] assms(3) by (simp add: readActiveMembership_def)
qed

definition other_active_owner :: "OrgDb \<Rightarrow> Membership \<Rightarrow> bool" where
  "other_active_owner db m \<longleftrightarrow>
     (\<exists>x \<in> set (db_memberships db). mem_org x = mem_org m \<and> mem_userId x \<noteq> mem_userId m \<and>
        mem_status x = MActive \<and> isOwnerRole (role_caps db (mem_org x) (mem_roleId x)))"

lemma guard_revoke_exact:
  assumes ok: "db_ok db" and m: "m \<in> set (db_memberships db)" "mem_status m = MActive"
  shows "assertOwnerRemainsInTx (mem_org m) (Revoke (mem_userId m)) db =
    (if other_active_owner db m then Inr () else Inl (derr E_LAST_OWNER))"
proof -
  let ?o = "mem_org m" and ?u = "mem_userId m"
  let ?view = "owner_view ?o db"
  have v: "owner_row_of db m \<in> set ?view" using m by (auto simp: owner_view_def)
  have "set (activeOwnersAfter (owner_rows ?view) (Revoke ?u)) =
      om_userId ` {x \<in> set (owner_rows ?view). owner_row_kept (Revoke ?u) x}"
    by (simp add: activeOwnersAfter_set promotes_def)
  moreover have "{x \<in> set (owner_rows ?view). owner_row_kept (Revoke ?u) x} =
      owner_row_of db ` {x \<in> set (db_memberships db). mem_org x = ?o \<and> mem_userId x \<noteq> ?u \<and>
        mem_status x = MActive \<and> isOwnerRole (role_caps db (mem_org x) (mem_roleId x))}"
    by (auto simp: owner_rows_def owner_row_kept_def owner_view_def owner_row_caps)
  ultimately have "activeOwnersAfter (owner_rows ?view) (Revoke ?u) = [] \<longleftrightarrow> \<not> other_active_owner db m"
    unfolding other_active_owner_def by (auto simp flip: set_empty)
  then show ?thesis
    by (simp add: assertOwnerRemainsInTx_def owner_candidates_view assertOwnerRemains_def)
qed

section \<open>Properties\<close>

lemma in_org_outcome:
  assumes "\<And>o' u x db'. body o' u db = Inr (x, db') \<Longrightarrow> P o' db'"
    and "\<And>o' u x. length (snd (finish o' u x)) = n"
  shows "case in_org_transaction env (Some c) operation body finish db of (res, db', evs) \<Rightarrow>
    if is_ok res then P (ctx_organizationId c) db' \<and> length evs = n else db' = db \<and> evs = []"
proof -
  obtain res db' evs where e: "in_org_transaction env (Some c) operation body finish db = (res, db', evs)"
    by (cases "in_org_transaction env (Some c) operation body finish db")
  show ?thesis
  proof (cases res)
    case (Inl err)
    with e have "in_org_transaction env (Some c) operation body finish db = (Inl err, db', evs)" by simp
    from in_org_fails [OF this] show ?thesis by (simp add: e Inl)
  next
    case (Inr r)
    with e obtain u x where "body (ctx_organizationId c) u db = Inr (x, db')"
      and "finish (ctx_organizationId c) u x = (r, evs)"
      using in_org_commits [of env "Some c" operation body finish db r db' evs] by auto
    with assms(1) assms(2) [of "ctx_organizationId c" u x] e Inr show ?thesis by auto
  qed
qed

text \<open>
  C1: Owner at least one, and tenant isolation. Whatever the caller, target and role, a role
  change, a removal or a departure that succeeds leaves the caller's organization with at least
  one active Owner, the schema's constraints intact and every row of every other organization,
  role and account unchanged, and emits exactly one audit event; one that fails leaves the
  database as it was and emits none.
\<close>

theorem membership_writes_keep_owner:
  assumes ok: "db_ok db"
  shows "(case updateRole env (Some c) t r db of (res, db', evs) \<Rightarrow>
      if is_ok res then membership_change_safe (ctx_organizationId c) db db' \<and> length evs = 1
      else db' = db \<and> evs = []) \<and>
    (case revoke env (Some c) t db of (res, db', evs) \<Rightarrow>
      if is_ok res then membership_change_safe (ctx_organizationId c) db db' \<and> length evs = 1
      else db' = db \<and> evs = []) \<and>
    (case leave env (Some c) db of (res, db', evs) \<Rightarrow>
      if is_ok res then membership_change_safe (ctx_organizationId c) db db' \<and> length evs = 1
      else db' = db \<and> evs = [])"
  unfolding updateRole_def revoke_def leave_def
  using updateRole_tx_safe [OF ok] revoke_tx_safe [OF ok] leave_tx_safe [OF ok]
  by (intro conjI in_org_outcome) (auto split: prod.splits)

definition demo_env :: ServiceEnv where
  "demo_env = \<lparr>se_lower = ascii_lower, se_driver = \<lparr>drv_lockTimeoutMs = Fin 3000, drv_fault = None\<rparr>,
     se_now = 50, se_emitAt = 51\<rparr>"

definition demo_ctx :: "string \<Rightarrow> OrgRequestContext" where
  "demo_ctx u = \<lparr>ctx_organizationId = js ''o1'', ctx_userId = Some (js u), ctx_membershipId = None,
     ctx_roleId = None, ctx_capabilities = None\<rparr>"

lemma demo_ctx_fields [simp]:
  "ctx_organizationId (demo_ctx u) = js ''o1''" "ctx_userId (demo_ctx u) = Some (js u)"
  by (simp_all add: demo_ctx_def)

lemma membership_writes_keep_owner_witness:
  "case leave demo_env (Some (demo_ctx ''ann'')) demo_db of (res, db', evs) \<Rightarrow>
      if is_ok res then membership_change_safe (js ''o1'') demo_db db' \<and> length evs = 1
      else db' = demo_db \<and> evs = []"
  by (rule membership_writes_keep_owner [OF demo_db_ok, where env = demo_env and c = "demo_ctx ''ann''",
      unfolded demo_ctx_fields, THEN conjunct2, THEN conjunct2])

text \<open>
  C3: Who may change a role. A role change that succeeds was made by an active member of the
  caller's organization whose role holds \<open>manage_members\<close> or \<open>full_access\<close>; if the target is an
  Owner, or the new role makes one, it was made by an Owner. The new role is a role of the same
  organization, the target was an active member of it, and the change made is exactly the
  target's role.
\<close>

theorem role_change_authorized:
  assumes "updateRole env (Some c) t r db = (Inr row, db', evs)"
  shows "\<exists>u actor target newRole. ctx_userId c = Some u \<and>
    actor \<in> set (db_memberships db) \<and> mem_org actor = ctx_organizationId c \<and> mem_userId actor = u \<and>
    mem_status actor = MActive \<and>
    target \<in> set (db_memberships db) \<and> mem_org target = ctx_organizationId c \<and> mem_userId target = t \<and>
    mem_status target = MActive \<and>
    newRole \<in> set (db_roles db) \<and> role_org newRole = ctx_organizationId c \<and> role_id newRole = r \<and>
    (let caps = role_caps db (ctx_organizationId c) (mem_roleId actor);
         ownerInvolved = (isOwnerRole (role_caps db (ctx_organizationId c) (mem_roleId target)) \<or>
                          isOwnerRole (role_capabilities newRole))
     in (if ownerInvolved then isOwnerRole caps else hasCapability caps CAPABILITY_MANAGE_MEMBERS)) \<and>
    db' = db\<lparr>db_memberships := map (\<lambda>m. if mem_org m = ctx_organizationId c \<and> mem_userId m = t
             then m\<lparr>mem_roleId := r\<rparr> else m) (db_memberships db)\<rparr>"
proof -
  let ?o = "ctx_organizationId c"
  from updateRole_commits [OF assms] obtain u oc where u: "ctx_userId c = Some u"
    and tx: "updateRole_tx ?o u t r db = Inr (oc, db')" by (auto simp: caller_def)
  from updateRole_tx_ok [OF tx] obtain d caps nr where d: "readActiveMembership ?o t db = Inr (Some d)"
    and a: "readActorCapabilities ?o u db = Inr caps"
    and nr: "find_scoped role_org ?o (\<lambda>x. role_id x = r) (db_roles db) = Some nr"
    and can: "canAssignRole \<lparr>car_actorCapabilities = caps,
           car_targetIsOwner = isOwnerRole (role_capabilities (md_role d)),
           car_newRoleIsOwner = isOwnerRole (role_capabilities nr)\<rparr>"
    and up: "update_membership ?o t (member_write (SetRole t r)) db = Inr db'" by metis
  from a obtain da where da: "readActiveMembership ?o u db = Inr (Some da)"
    and caps: "caps = role_capabilities (md_role da)"
    by (auto simp: readActorCapabilities_def rbind_Inr_iff split: option.splits)
  note D = readActive_SomeD [OF d] and A = readActive_SomeD [OF da]
  have rc: "role_capabilities (md_role d) = role_caps db ?o (mem_roleId (md_membership d))"
    "caps = role_caps db ?o (mem_roleId (md_membership da))"
    using D(2,5) A(2,5) caps by (auto simp: role_caps_def member_role_def)
  have "db' = apply_write ?o (SetRole t r) db"
    using update_membership_write [of ?o "SetRole t r"] up by simp
  then have e: "db' = db\<lparr>db_memberships := map (\<lambda>m. if mem_org m = ?o \<and> mem_userId m = t
             then m\<lparr>mem_roleId := r\<rparr> else m) (db_memberships db)\<rparr>"
    by (simp add: apply_write_def put_memberships_def update_scoped_def)
  have g: "if isOwnerRole (role_caps db ?o (mem_roleId (md_membership d))) \<or> isOwnerRole (role_capabilities nr)
      then isOwnerRole (role_caps db ?o (mem_roleId (md_membership da)))
      else hasCapability (role_caps db ?o (mem_roleId (md_membership da))) CAPABILITY_MANAGE_MEMBERS"
    using can unfolding rc canAssignRole_def by (auto simp: hasCapability_full_iff split: if_splits)
  show ?thesis
    using u D(1-4) A(1-4) find_scoped_SomeD [OF nr] g e unfolding Let_def by blast
qed

lemma demo_caller: "caller (demo_ctx u) (js u) \<longleftrightarrow> u \<noteq> []"
  by (simp add: caller_def)

lemma demo_may_run: "u \<noteq> [] \<Longrightarrow> may_run demo_env (demo_ctx u) (js ''o1'') (js u) demo_db"
  using driver_ok_example demo_caller
  by (simp add: may_run_def demo_env_def org_fk_def demo_db_def demo_org_def js_def trim_def is_space_def)

lemmas read_defs = readActiveMembership_def readActorCapabilities_def select_decision_def member_role_def
  member_user_def find_scoped_def filter_scoped_def assertOwnerRemainsInTx_def owner_candidates_def
  owner_row_of_def assertOwnerRemains_def activeOwnersAfter_def owner_row_kept_def Let_def

lemmas authz_eval = canAssignRole_def isOwnerRole_iff hasCapability_iff capability_names

lemma demo_updateRole:
  "\<exists>row db' evs. updateRole demo_env (Some (demo_ctx ''ann'')) (js ''bob'') (js ''r3'') demo_db = (Inr row, db', evs)"
proof -
  obtain oc db' where "updateRole_tx (js ''o1'') (js ''ann'') (js ''bob'') (js ''r3'') demo_db = Inr (oc, db')"
    by (simp add: updateRole_tx_def read_defs authz_eval demo_db_def demo_rows
      js_append update_membership_def write_memberships_def memberships_unique_def unique_by_def
      update_scoped_def org_fk_def user_fk_def role_fk_def put_memberships_def role_change_outcome_def)
  then show ?thesis
    unfolding updateRole_def by (subst in_org_succeeds [OF demo_may_run]) simp_all
qed

lemma role_change_authorized_witness:
  "\<exists>row evs. updateRole demo_env (Some (demo_ctx ''ann'')) (js ''bob'') (js ''r3'') demo_db =
     (Inr row, demo_db\<lparr>db_memberships := map (\<lambda>m. if mem_org m = js ''o1'' \<and> mem_userId m = js ''bob''
        then m\<lparr>mem_roleId := js ''r3''\<rparr> else m) (db_memberships demo_db)\<rparr>, evs)"
proof -
  obtain row db' evs where r: "updateRole demo_env (Some (demo_ctx ''ann'')) (js ''bob'') (js ''r3'') demo_db = (Inr row, db', evs)"
    using demo_updateRole by blast
  from role_change_authorized [OF r] r show ?thesis by auto
qed

text \<open>
  C17: Exactly when a member may leave. On a consistent database, with a working driver, an
  active member who leaves is refused with LAST_OWNER exactly when no other active member of the
  organization holds \<open>full_access\<close>, whatever the caller's own role; otherwise the departure
  commits: the row is kept, revoked at the time of the call, and no invitation for the address
  of the member stays pending in the organization.
\<close>

theorem leave_exact:
  assumes "db_ok db" and "m \<in> set (db_memberships db)" and "mem_status m = MActive"
    and "may_run env c (mem_org m) (mem_userId m) db"
  shows "case leave env (Some c) db of
      (Inl e, db', evs) \<Rightarrow> code_of e = Some E_LAST_OWNER \<and> db' = db \<and> evs = [] \<and>
        \<not> other_active_owner db m
    | (Inr r, db', evs) \<Rightarrow>
        other_active_owner db m \<and>
        revoked_row (mem_org m) (mem_userId m) (se_now env) db' \<and>
        (\<exists>u \<in> set (db_users db). usr_id u = mem_userId m \<and> no_pending_for (mem_org m) (usr_email u) db')"
proof -
  let ?o = "mem_org m" and ?u = "mem_userId m"
  from readActive_ok [OF assms(1-3)] obtain d where d: "readActiveMembership ?o ?u db = Inr (Some d)"
    and dm: "md_membership d = m" by blast
  show ?thesis
  proof (cases "other_active_owner db m")
    case False
    then have "assertOwnerRemainsInTx ?o (Revoke ?u) db = Inl (derr E_LAST_OWNER)"
      using guard_revoke_exact [OF assms(1-3)] by (simp only: if_False)
    then have "leave_tx (se_now env) ?o ?u db = Inl (derr E_LAST_OWNER)" by (simp add: leave_tx_def d)
    then have "leave env (Some c) db = (Inl (derr E_LAST_OWNER), db, [])"
      unfolding leave_def by (simp add: in_org_refuses [OF assms(4), where body = "leave_tx (se_now env)"])
    with False show ?thesis by simp
  next
    case True
    then have g: "assertOwnerRemainsInTx ?o (Revoke ?u) db = Inr ()"
      using guard_revoke_exact [OF assms(1-3)] by (simp only: if_True)
    obtain rv db' where w: "writeRevocation (se_now env) ?o ?u (md_email d) ?u db = Inr (rv, db')"
      using writeRevocation_succeeds [OF assms(1,2) refl refl] by blast
    note safe = revocation_safe [OF assms(1) d g w]
    have "leave_tx (se_now env) ?o ?u db = Inr ((rv, mem_roleId m), db')"
      by (simp add: leave_tx_def d g w dm)
    then have "\<exists>r evs. leave env (Some c) db = (Inr r, db', evs)"
      unfolding leave_def by (subst in_org_succeeds [OF assms(4)]) simp_all
    then obtain r evs where l: "leave env (Some c) db = (Inr r, db', evs)" by blast
    from readActive_SomeD(6) [OF d] obtain usr where "member_user db m = Some usr" "md_email d = usr_email usr"
      by (auto simp: dm)
    then have "usr \<in> set (db_users db)" "usr_id usr = ?u" "no_pending_for ?o (usr_email usr) db'"
      using safe(3) by (auto simp: member_user_def dest: find_SomeD)
    with True safe(2) show ?thesis unfolding l by auto
  qed
qed

lemma leave_exact_witness:
  "\<exists>e. leave demo_env (Some (demo_ctx ''ann'')) demo_db = (Inl e, demo_db, []) \<and> code_of e = Some E_LAST_OWNER"
proof -
  let ?m = "demo_member ''m1'' ''ann'' ''r1'' MActive None"
  have none: "\<not> other_active_owner demo_db ?m"
    by (simp add: other_active_owner_def demo_db_def demo_rows role_caps_def authz_eval)
  have m: "?m \<in> set (db_memberships demo_db)" "mem_status ?m = MActive"
    "may_run demo_env (demo_ctx ''ann'') (mem_org ?m) (mem_userId ?m) demo_db"
    using demo_may_run [of "''ann''"] by (simp_all add: demo_db_def demo_member_def)
  obtain res db' evs where l: "leave demo_env (Some (demo_ctx ''ann'')) demo_db = (res, db', evs)"
    by (rule prod_cases3)
  from leave_exact [OF demo_db_ok m, unfolded l] none l show ?thesis by (cases res) auto
qed

text \<open>What the transaction leaves in the database, row by row.\<close>

lemma cancel_step_result:
  assumes "cancel_step o' t (pending_ids o' email db) db = Inr db'" and "unique_by inv_id (db_invitations db)"
  shows "db' = db\<lparr>db_invitations := map (\<lambda>i. if inv_org i = o' \<and> inv_email i = email \<and> pending i
      then i\<lparr>inv_status := SCancelled, inv_cancelledAt := Some t\<rparr> else i) (db_invitations db)\<rparr>"
proof -
  let ?ids = "pending_ids o' email db"
  have "inv_id i \<in> set ?ids \<longleftrightarrow> inv_org i = o' \<and> inv_email i = email \<and> pending i" if "i \<in> set (db_invitations db)" for i
    using that assms(2) by (auto simp: pending_ids_def filter_scoped_def unique_by_def distinct_map dest: inj_onD)
  then have m: "map (\<lambda>i. if inv_org i = o' \<and> inv_id i \<in> set ?ids
      then i\<lparr>inv_status := SCancelled, inv_cancelledAt := Some t\<rparr> else i) (db_invitations db) =
    map (\<lambda>i. if inv_org i = o' \<and> inv_email i = email \<and> pending i
      then i\<lparr>inv_status := SCancelled, inv_cancelledAt := Some t\<rparr> else i) (db_invitations db)"
    by (intro map_cong refl) metis
  show ?thesis
  proof (cases "?ids = []")
    case True
    with assms(1) have "db' = db" by (simp add: cancel_step_def)
    with True show ?thesis by (simp add: m [symmetric])
  next
    case False
    with assms(1) have "updateMany_invitations o' (\<lambda>i. List.member ?ids (inv_id i))
        (\<lambda>i. i\<lparr>inv_status := SCancelled, inv_cancelledAt := Some t\<rparr>) db = Inr db'"
      by (simp add: cancel_step_def)
    from updateMany_result [OF this] show ?thesis
      by (simp add: put_invitations_def update_scoped_def m [symmetric])
  qed
qed

lemma writeRevocation_result:
  assumes "db_ok db" and "writeRevocation now o' t email by' db = Inr (rv, db')"
  shows "db' = db\<lparr>db_memberships := map (\<lambda>m. if mem_org m = o' \<and> mem_userId m = t
        then m\<lparr>mem_status := MRevoked, mem_revokedAt := Some now, mem_revokedByUserId := Some by'\<rparr> else m)
        (db_memberships db),
      db_invitations := map (\<lambda>i. if inv_org i = o' \<and> inv_email i = email \<and> pending i
        then i\<lparr>inv_status := SCancelled, inv_cancelledAt := Some now\<rparr> else i) (db_invitations db)\<rparr>"
proof -
  from assms(2) obtain db1 where u: "update_membership o' t (member_write (SetRevoked t now by')) db = Inr db1"
    and c: "cancel_step o' now (pending_ids o' email db1) db1 = Inr db'"
    by (auto simp: writeRevocation_steps rbind_Inr_iff)
  have db1: "db1 = apply_write o' (SetRevoked t now by') db"
    using update_membership_write [of o' "SetRevoked t now by'" db db1] u by simp
  have "unique_by inv_id (db_invitations db1)"
    using assms(1) by (simp add: db1 apply_write_def put_memberships_def db_ok_def invitations_unique_def)
  from cancel_step_result [OF c this] show ?thesis
    by (simp add: db1 apply_write_def put_memberships_def update_scoped_def)
qed

text \<open>
  C19: What a removal closes. A removal that succeeds was asked for by the caller of the context and
  names an account that exists. Exactly two kinds of rows change, in the same transaction: the target's
  membership stays, revoked at the time of the call by the caller, and every invitation of the
  organization that was pending for the address of the removed account stays, cancelled at that time.
  The answer counts those invitations, and the one event names caller, organization, target and the ids
  of exactly those invitations; the list passes the filter of the audit trail.
\<close>

theorem revoke_closes_invitations:
  assumes "db_ok db" and "revoke env (Some c) t db = (Inr res, db', evs)"
  shows "\<exists>u usr. caller c u \<and> usr \<in> set (db_users db) \<and> usr_id usr = t \<and>
    db' = db\<lparr>db_memberships := map (\<lambda>m. if mem_org m = ctx_organizationId c \<and> mem_userId m = t
          then m\<lparr>mem_status := MRevoked, mem_revokedAt := Some (se_now env), mem_revokedByUserId := Some u\<rparr> else m)
          (db_memberships db),
        db_invitations := map (\<lambda>i. if inv_org i = ctx_organizationId c \<and> inv_email i = usr_email usr \<and> pending i
          then i\<lparr>inv_status := SCancelled, inv_cancelledAt := Some (se_now env)\<rparr> else i) (db_invitations db)\<rparr> \<and>
    revoked_row (ctx_organizationId c) t (se_now env) db' \<and>
    no_pending_for (ctx_organizationId c) (usr_email usr) db' \<and>
    res = \<lparr>rmr_userId = t, rmr_status = MRevoked, rmr_revokedAt = toISOString (se_now env),
      rmr_cancelledInvitations = length (pending_ids (ctx_organizationId c) (usr_email usr) db)\<rparr> \<and>
    evs = [event env Ev_org_member_revoked
      [(js ''actorUserId'', JStr u), (js ''organizationId'', JStr (ctx_organizationId c)), (js ''targetUserId'', JStr t),
       (js ''cancelledInvitationIds'', JArr (map JStr (pending_ids (ctx_organizationId c) (usr_email usr) db)))]] \<and>
    (se_lower env (js ''cancelledInvitationIds'') = js ''cancelledinvitationids'' \<longrightarrow>
      (js ''cancelledInvitationIds'', JArr (map JStr (pending_ids (ctx_organizationId c) (usr_email usr) db)))
        \<in> set (ev_payload (hd evs)))"
proof -
  let ?o = "ctx_organizationId c"
  from in_org_commits [OF assms(2) [unfolded revoke_def]] obtain u rv
    where u: "caller c u" and tx: "revoke_tx (se_now env) ?o u t db = Inr (rv, db')"
    and res: "res = \<lparr>rmr_userId = t, rmr_status = MRevoked, rmr_revokedAt = toISOString (rev_revokedAt rv),
        rmr_cancelledInvitations = length (rev_cancelledInvitationIds rv)\<rparr>"
    and evs: "evs = [event env Ev_org_member_revoked
      [(js ''actorUserId'', JStr u), (js ''organizationId'', JStr ?o), (js ''targetUserId'', JStr t),
       (js ''cancelledInvitationIds'', JArr (map JStr (rev_cancelledInvitationIds rv)))]]"
    by auto
  from revoke_tx_ok [OF tx] obtain d where d: "readActiveMembership ?o t db = Inr (Some d)"
    and g: "assertOwnerRemainsInTx ?o (Revoke t) db = Inr ()"
    and w: "writeRevocation (se_now env) ?o t (md_email d) u db = Inr (rv, db')" by metis
  note safe = revocation_safe [OF assms(1) d g w] and D = readActive_SomeD [OF d]
  from D(6) obtain usr where "member_user db (md_membership d) = Some usr" and e: "md_email d = usr_email usr" by blast
  then have usr: "usr \<in> set (db_users db)" "usr_id usr = t"
    using D(3) by (auto simp: member_user_def dest: find_SomeD)
  have kept: "se_lower env (js ''cancelledInvitationIds'') = js ''cancelledinvitationids'' \<longrightarrow>
      (js ''cancelledInvitationIds'', x) \<in> set (ev_payload (event env Ev_org_member_revoked
        (p @ [(js ''cancelledInvitationIds'', x)])))" for p x
    by (simp add: event_def emit_payload keeps_def REDACTED_PAYLOAD_KEYS_def STRICT_PAYLOAD_EVENT_TYPES_def js_eq_iff)
  show ?thesis
    using u usr writeRevocation_result [OF assms(1) w] safe(2,3) res evs
      kept [of _ "[(js ''actorUserId'', JStr u), (js ''organizationId'', JStr ?o), (js ''targetUserId'', JStr t)]"]
    unfolding safe(4) e by (intro exI [of _ u] exI [of _ usr]) simp
qed

lemma demo_revoke:
  "\<exists>res db' evs. revoke demo_env (Some (demo_ctx ''ann'')) (js ''bob'') demo_db = (Inr res, db', evs)"
proof -
  obtain rv db' where "revoke_tx 50 (js ''o1'') (js ''ann'') (js ''bob'') demo_db = Inr (rv, db')"
    by (simp add: revoke_tx_def writeRevocation_def read_defs authz_eval demo_db_def demo_rows
      js_append update_membership_def write_memberships_def memberships_unique_def unique_by_def
      update_scoped_def org_fk_def user_fk_def role_fk_def put_memberships_def)
  then have "revoke_tx (se_now demo_env) (js ''o1'') (js ''ann'') (js ''bob'') demo_db = Inr (rv, db')"
    by (simp add: demo_env_def)
  then show ?thesis
    unfolding revoke_def by (subst in_org_succeeds [OF demo_may_run]) simp_all
qed

text \<open>Bob is removed while an invitation for his address is pending.\<close>

definition demo_twice :: OrgDb where
  "demo_twice = demo_db\<lparr>db_invitations := [demo_invitation\<lparr>inv_email := usr_email (demo_user ''bob'')\<rparr>]\<rparr>"

lemma demo_twice_ok: "db_ok demo_twice"
  using demo_db_ok by (simp add: demo_twice_def db_ok_def demo_db_def demo_rows invitations_unique_def unique_by_def
      org_fk_def user_fk_def role_fk_def plan_fk_def)

lemma demo_revoke_twice:
  "\<exists>res db' evs. revoke demo_env (Some (demo_ctx ''ann'')) (js ''bob'') demo_twice = (Inr res, db', evs)"
proof -
  have run: "may_run demo_env (demo_ctx ''ann'') (js ''o1'') (js ''ann'') demo_twice"
    using demo_may_run [of "''ann''"] by (simp add: may_run_def org_fk_def demo_twice_def)
  obtain rv db' where "revoke_tx 50 (js ''o1'') (js ''ann'') (js ''bob'') demo_twice = Inr (rv, db')"
    by (simp add: revoke_tx_def writeRevocation_def read_defs authz_eval demo_twice_def demo_db_def demo_rows
      js_append update_membership_def write_memberships_def memberships_unique_def unique_by_def
      update_scoped_def org_fk_def user_fk_def role_fk_def put_memberships_def updateMany_invitations_def
      write_invitations_def put_invitations_def invitations_unique_def pending_def)
  then have "revoke_tx (se_now demo_env) (js ''o1'') (js ''ann'') (js ''bob'') demo_twice = Inr (rv, db')"
    by (simp add: demo_env_def)
  then show ?thesis
    unfolding revoke_def by (subst in_org_succeeds [OF run]) simp_all
qed

lemma revoke_closes_invitations_witness:
  "\<exists>res db' evs. revoke demo_env (Some (demo_ctx ''ann'')) (js ''bob'') demo_twice = (Inr res, db', evs) \<and>
     revoked_row (js ''o1'') (js ''bob'') 50 db' \<and> rmr_cancelledInvitations res = 1 \<and>
     map inv_status (db_invitations db') = [SCancelled] \<and>
     (js ''cancelledInvitationIds'', JArr [JStr (js ''i1'')]) \<in> set (ev_payload (hd evs))"
proof -
  obtain res db' evs where r: "revoke demo_env (Some (demo_ctx ''ann'')) (js ''bob'') demo_twice = (Inr res, db', evs)"
    using demo_revoke_twice by blast
  from revoke_closes_invitations [OF demo_twice_ok r] obtain usr where
    u: "usr \<in> set (db_users demo_twice)" "usr_id usr = js ''bob''"
    and inv: "db_invitations db' = map (\<lambda>i. if inv_org i = js ''o1'' \<and> inv_email i = usr_email usr \<and> pending i
      then i\<lparr>inv_status := SCancelled, inv_cancelledAt := Some (se_now demo_env)\<rparr> else i) (db_invitations demo_twice)"
    and row: "revoked_row (js ''o1'') (js ''bob'') (se_now demo_env) db'"
    and count: "rmr_cancelledInvitations res = length (pending_ids (js ''o1'') (usr_email usr) demo_twice)"
    and named: "se_lower demo_env (js ''cancelledInvitationIds'') = js ''cancelledinvitationids'' \<longrightarrow>
      (js ''cancelledInvitationIds'', JArr (map JStr (pending_ids (js ''o1'') (usr_email usr) demo_twice)))
        \<in> set (ev_payload (hd evs))"
    by auto
  have bob: "usr = demo_user ''bob''" using u by (auto simp: demo_twice_def demo_db_def demo_user_def js_eq_iff)
  have one: "pending_ids (js ''o1'') (usr_email usr) demo_twice = [js ''i1'']"
    by (simp add: bob pending_ids_def filter_scoped_def demo_twice_def demo_invitation_def pending_def)
  have low: "se_lower demo_env (js ''cancelledInvitationIds'') = js ''cancelledinvitationids''"
    by (simp add: demo_env_def ascii_lower_def js_def)
  have "map inv_status (db_invitations db') = [SCancelled]"
    by (simp add: inv bob demo_twice_def demo_invitation_def pending_def)
  with r row count named low one show ?thesis by (auto simp: demo_env_def)
qed

end
