(* ===== verification/Encoding.thy ===== *)
theory Encoding
  imports Instants
begin

text \<open>
  The text encodings the sources call: UTF-8 of a string, base64url of bytes
  (\<open>Buffer.toString("base64url")\<close>, no padding) with the lenient decoder of \<open>Buffer.from\<close>, and
  \<open>encodeURIComponent\<close>. A byte is a number below 256.
\<close>

section \<open>UTF-8\<close>

text \<open>The scalar value of a code point; a lone surrogate has none.\<close>

fun scalar_of :: "jstring \<Rightarrow> nat option" where
  "scalar_of [c] = (if is_high_surrogate c \<or> is_low_surrogate c then None else Some c)"
| "scalar_of [h, l] = Some (65536 + (h - 55296) * 1024 + (l - 56320))"
| "scalar_of _ = None"

definition utf8_bytes :: "nat \<Rightarrow> nat list" where
  "utf8_bytes n =
     (if n < 128 then [n]
      else if n < 2048 then [192 + n div 64, 128 + n mod 64]
      else if n < 65536 then [224 + n div 4096, 128 + n div 64 mod 64, 128 + n mod 64]
      else [240 + n div 262144, 128 + n div 4096 mod 64, 128 + n div 64 mod 64, 128 + n mod 64])"

text \<open>\<open>Buffer.from(s, "utf8")\<close>: a lone surrogate becomes the replacement character.\<close>

definition utf8 :: "jstring \<Rightarrow> nat list" where
  "utf8 s = concat (map (\<lambda>p. case scalar_of p of Some n \<Rightarrow> utf8_bytes n | None \<Rightarrow> [239, 191, 189]) (code_points s))"

definition is_ascii :: "jstring \<Rightarrow> bool" where
  "is_ascii s \<longleftrightarrow> list_all (\<lambda>c. c < 128) s"

lemma ascii_code_points: "is_ascii s \<Longrightarrow> code_points s = map (\<lambda>c. [c]) s"
  by (rule code_points_plain) (auto simp: is_ascii_def list_all_iff is_high_surrogate_def)

lemma ascii_scalar: "c < 128 \<Longrightarrow> scalar_of [c] = Some c"
  by (simp add: is_high_surrogate_def is_low_surrogate_def)

lemma utf8_ascii: "is_ascii s \<Longrightarrow> utf8 s = s"
  by (induction s) (auto simp: utf8_def ascii_code_points is_ascii_def ascii_scalar utf8_bytes_def
      simp del: scalar_of.simps)

section \<open>Percent encoding\<close>

definition is_unreserved :: "nat \<Rightarrow> bool" where
  "is_unreserved c \<longleftrightarrow>
     (65 \<le> c \<and> c \<le> 90) \<or> (97 \<le> c \<and> c \<le> 122) \<or> is_digit c \<or> c \<in> set (js ''-_.!~*()'') \<or> c = 39"

definition upper_hex :: "nat \<Rightarrow> nat" where
  "upper_hex d = (if d < 10 then 48 + d else 55 + d)"

definition percent :: "nat \<Rightarrow> jstring" where
  "percent b = [37, upper_hex (b div 16), upper_hex (b mod 16)]"

text \<open>\<open>None\<close> is the \<open>URIError\<close> raised on a lone surrogate.\<close>

definition encode_code_point :: "jstring \<Rightarrow> jstring option" where
  "encode_code_point p =
     (case scalar_of p of
        None \<Rightarrow> None
      | Some n \<Rightarrow> if is_unreserved n then Some [n] else Some (concat (map percent (utf8_bytes n))))"

definition encodeURIComponent :: "jstring \<Rightarrow> jstring option" where
  "encodeURIComponent s =
     (let ps = map encode_code_point (code_points s)
      in if list_all (\<lambda>p. p \<noteq> None) ps then Some (concat (map the ps)) else None)"

lemma is_unreserved_iff:
  "is_unreserved c \<longleftrightarrow> (65 \<le> c \<and> c \<le> 90) \<or> (97 \<le> c \<and> c \<le> 122) \<or> (48 \<le> c \<and> c \<le> 57) \<or>
     c \<in> {45, 95, 46, 33, 126, 42, 40, 41, 39}"
  by (auto simp: is_unreserved_def is_digit_def js_def)

lemma unreserved_ascii: "is_unreserved c \<Longrightarrow> c < 128"
  by (auto simp: is_unreserved_iff)

lemma encodeURIComponent_unreserved:
  assumes "\<forall>c \<in> set s. is_unreserved c"
  shows "encodeURIComponent s = Some s"
proof -
  have "is_ascii s" using assms by (auto simp: is_ascii_def list_all_iff dest: unreserved_ascii)
  then have "map encode_code_point (code_points s) = map (\<lambda>c. Some [c]) s"
    using assms by (auto simp: ascii_code_points encode_code_point_def ascii_scalar unreserved_ascii
        simp del: scalar_of.simps)
  then show ?thesis by (auto simp: encodeURIComponent_def list_all_iff comp_def Let_def)
qed

section \<open>base64url\<close>

definition b64_char :: "nat \<Rightarrow> nat" where
  "b64_char d =
     (if d < 26 then 65 + d else if d < 52 then 71 + d else if d < 62 then d - 4
      else if d = 62 then 45 else 95)"

fun base64url :: "nat list \<Rightarrow> jstring" where
  "base64url [] = []"
| "base64url [a] = [b64_char (a div 4), b64_char (a mod 4 * 16)]"
| "base64url [a, b] = [b64_char (a div 4), b64_char (a mod 4 * 16 + b div 16), b64_char (b mod 16 * 4)]"
| "base64url (a # b # c # rest) =
     b64_char (a div 4) # b64_char (a mod 4 * 16 + b div 16) #
     b64_char (b mod 16 * 4 + c div 64) # b64_char (c mod 64) # base64url rest"

text \<open>The decoder accepts both alphabets and skips every other character.\<close>

definition b64_value :: "nat \<Rightarrow> nat option" where
  "b64_value c =
     (if 65 \<le> c \<and> c \<le> 90 then Some (c - 65)
      else if 97 \<le> c \<and> c \<le> 122 then Some (c - 71)
      else if 48 \<le> c \<and> c \<le> 57 then Some (c + 4)
      else if c = 45 \<or> c = 43 then Some 62
      else if c = 95 \<or> c = 47 then Some 63
      else None)"

fun unsextets :: "nat list \<Rightarrow> nat list" where
  "unsextets (a # b # c # d # rest) =
     (a * 4 + b div 16) # (b mod 16 * 16 + c div 4) # (c mod 4 * 64 + d) # unsextets rest"
| "unsextets [a, b, c] = [a * 4 + b div 16, b mod 16 * 16 + c div 4]"
| "unsextets [a, b] = [a * 4 + b div 16]"
| "unsextets [a] = []"
| "unsextets [] = []"

definition base64url_decode :: "jstring \<Rightarrow> nat list" where
  "base64url_decode s = unsextets (map the (filter (\<lambda>v. v \<noteq> None) (map b64_value s)))"

lemma b64_value_char [simp]: "d < 64 \<Longrightarrow> b64_value (b64_char d) = Some d"
  by (auto simp: b64_value_def b64_char_def)

lemma b64_char_unreserved: "is_unreserved (b64_char d)"
proof -
  let ?e = "b64_char d"
  have "(65 \<le> ?e \<and> ?e \<le> 90) \<or> (97 \<le> ?e \<and> ?e \<le> 122) \<or> (48 \<le> ?e \<and> ?e \<le> 57) \<or> ?e = 45 \<or> ?e = 95"
    unfolding b64_char_def by arith
  then show ?thesis unfolding is_unreserved_iff by blast
qed

lemma base64url_chars: "c \<in> set (base64url bs) \<Longrightarrow> is_unreserved c"
  by (induction bs rule: base64url.induct) (auto simp: b64_char_unreserved)

lemma byte_split:
  "b < (256::nat) \<Longrightarrow> b div 16 < 16" "b < (256::nat) \<Longrightarrow> b div 16 mod 16 = b div 16"
  "b < (256::nat) \<Longrightarrow> b div 16 div 16 = 0"
  "(c::nat) < 256 \<Longrightarrow> c div 64 < 4" "(c::nat) < 256 \<Longrightarrow> c div 64 mod 4 = c div 64"
  "(c::nat) < 256 \<Longrightarrow> c div 64 div 4 = 0" "b div 16 * 16 + b mod 16 = b" "c div 64 * 64 + c mod 64 = c"
  by simp_all

lemma base64url_decode_encode:
  "\<forall>b \<in> set bs. b < 256 \<Longrightarrow> base64url_decode (base64url bs) = bs"
proof (induction bs rule: base64url.induct)
  case (2 a)
  then have "a div 4 < 64" "a mod 4 * 16 < 64" by simp_all
  then show ?case by (simp add: base64url_decode_def)
next
  case (3 a b)
  then have "a div 4 < 64" "a mod 4 * 16 + b div 16 < 64" "b mod 16 * 4 < 64" by (simp; linarith)+
  then show ?case using 3 by (simp add: base64url_decode_def byte_split)
next
  case (4 a b c rest)
  then have "a div 4 < 64" "a mod 4 * 16 + b div 16 < 64" "b mod 16 * 4 + c div 64 < 64" "c mod 64 < 64"
    by (simp; linarith)+
  then show ?case using 4 by (simp add: base64url_decode_def byte_split)
qed (simp add: base64url_decode_def)

lemma base64url_length: "length (base64url bs) \<ge> length bs"
  by (induction bs rule: base64url.induct) auto

end
