(* ===== verification/InvitationsService.thy ===== *)
theory InvitationsService
  imports MembersService Encoding
begin

text \<open>
  \<open>apps/api/src/orgs/invitations.service.ts\<close> with \<open>system/invitation-lookup.service.ts\<close> and
  \<open>packages/db/src/invitation-token.ts\<close>: creating an invitation, rotating its link, cancelling
  it, and the preview and acceptance by the person who holds the link.

  A call is given its surroundings in one record: the random bytes of a new token, the keyed
  hash of the token secret, the id and creation time the database assigns to a new row, and the
  configured cap and base URL.
\<close>

section \<open>Tokens\<close>

record InvitationEnv =
  ie_env :: ServiceEnv
  ie_hash :: "jstring \<Rightarrow> jstring"
  ie_bytes :: "nat list"
  ie_newId :: jstring
  ie_createdAt :: int
  ie_pendingCap :: nat
  ie_webAppBaseUrl :: jstring

definition INVITATION_TOKEN_BYTES :: nat where "INVITATION_TOKEN_BYTES = 32"

definition generateInvitationToken :: "InvitationEnv \<Rightarrow> jstring" where
  "generateInvitationToken env = base64url (take INVITATION_TOKEN_BYTES (ie_bytes env))"

definition hashInvitationToken :: "InvitationEnv \<Rightarrow> jstring \<Rightarrow> jstring" where
  "hashInvitationToken env token = ie_hash env token"

definition inviteUrl :: "InvitationEnv \<Rightarrow> jstring \<Rightarrow> Thrown + jstring" where
  "inviteUrl env token =
     (case encodeURIComponent token of
        None \<Rightarrow> Inl (error_named ''URIError'')
      | Some t \<Rightarrow> Inr (ie_webAppBaseUrl env @ js ''/invite?token='' @ t))"

lemma inviteUrl_generated:
  "inviteUrl env (generateInvitationToken env) =
     Inr (ie_webAppBaseUrl env @ js ''/invite?token='' @ generateInvitationToken env)"
proof -
  have "encodeURIComponent (generateInvitationToken env) = Some (generateInvitationToken env)"
    by (rule encodeURIComponent_unreserved) (auto simp: generateInvitationToken_def base64url_chars)
  then show ?thesis by (simp add: inviteUrl_def)
qed

definition mask_thrown :: "MaskEmailError + 'a \<Rightarrow> Thrown + 'a" where
  "mask_thrown r =
     (case r of
        Inl _ \<Rightarrow> Inl (TRaw (JObj [(js ''name'', JStr (js ''MaskEmailError'')), (js ''code'', JStr (js ''EMAIL_INVALID''))]))
      | Inr s \<Rightarrow> Inr s)"

section \<open>Rows and reads\<close>

record InvitationSelected =
  sel_row :: Invitation
  sel_role :: Role

definition invitation_role :: "OrgDb \<Rightarrow> Invitation \<Rightarrow> Role option" where
  "invitation_role db i = find (\<lambda>r. role_org r = inv_org i \<and> role_id r = inv_roleId i) (db_roles db)"

definition select_invitation :: "OrgDb \<Rightarrow> Invitation \<Rightarrow> Thrown + InvitationSelected" where
  "select_invitation db i =
     (case invitation_role db i of
        None \<Rightarrow> Inl inconsistent_relation
      | Some r \<Rightarrow> Inr \<lparr>sel_row = i, sel_role = r\<rparr>)"

definition toRow :: "InvitationSelected \<Rightarrow> int \<Rightarrow> InvitationRow" where
  "toRow s now =
     (let row = sel_row s in
      toInvitationRow
        \<lparr>irs_id = inv_id row, irs_email = inv_email row, irs_roleId = inv_roleId row,
         irs_status = resolveInvitationStatus (inv_status row) (inv_expiresAt row) now,
         irs_expiresAt = inv_expiresAt row, irs_tokenIssuedAt = inv_tokenIssuedAt row,
         irs_invitedByUserId = (case inv_invitedByUserId row of Some u \<Rightarrow> u | None \<Rightarrow> []),
         irs_createdAt = inv_createdAt row, irs_acceptedAt = inv_acceptedAt row,
         irs_acceptedByUserId = inv_acceptedByUserId row,
         irs_acceptedUserCreatedAt = inv_acceptedUserCreatedAt row\<rparr>
        \<lparr>irr_name = role_name (sel_role s), irr_key = role_key (sel_role s)\<rparr>)"

definition readRole :: "jstring \<Rightarrow> jstring \<Rightarrow> OrgDb \<Rightarrow> Thrown + Role" where
  "readRole o' roleId db =
     (case find_scoped role_org o' (\<lambda>r. role_id r = roleId) (db_roles db) of
        None \<Rightarrow> Inl (derr E_ROLE_INVALID)
      | Some r \<Rightarrow> Inr r)"

definition readInviterCapabilities :: "jstring \<Rightarrow> jstring \<Rightarrow> OrgDb \<Rightarrow> Thrown + jstring list" where
  "readInviterCapabilities o' actorUserId db =
     (case find_scoped mem_org o' (\<lambda>m. mem_userId m = actorUserId \<and> mem_status m = MActive) (db_memberships db) of
        None \<Rightarrow> Inl (derr E_ORG_ACCESS_DENIED)
      | Some m \<Rightarrow> (case member_role db m of
            None \<Rightarrow> Inl inconsistent_relation
          | Some r \<Rightarrow> Inr (role_capabilities r)))"

definition has_email :: "OrgDb \<Rightarrow> jstring \<Rightarrow> Membership \<Rightarrow> bool" where
  "has_email db email m \<longleftrightarrow> (case member_user db m of Some u \<Rightarrow> usr_email u = email | None \<Rightarrow> False)"

definition assertNotAlreadyMember :: "jstring \<Rightarrow> jstring \<Rightarrow> OrgDb \<Rightarrow> Thrown + unit" where
  "assertNotAlreadyMember o' email db =
     (case find_scoped mem_org o' (\<lambda>m. mem_status m = MActive \<and> has_email db email m) (db_memberships db) of
        Some _ \<Rightarrow> Inl (derr E_ALREADY_MEMBER)
      | None \<Rightarrow> Inr ())"

definition assertNoPendingInvitation :: "jstring \<Rightarrow> jstring \<Rightarrow> OrgDb \<Rightarrow> Thrown + unit" where
  "assertNoPendingInvitation o' email db =
     (case find_scoped inv_org o' (\<lambda>i. inv_email i = email \<and> pending i) (db_invitations db) of
        None \<Rightarrow> Inr ()
      | Some p \<Rightarrow>
          rbind (select_invitation db p) (\<lambda>s.
            Inl (derr_details E_INVITATION_PENDING
              [(js ''invitationId'', JStr (inv_id p)), (js ''expiresAt'', JStr (toISOString (inv_expiresAt p))),
               (js ''roleId'', JStr (inv_roleId p)), (js ''roleName'', JStr (role_name (sel_role s)))])))"

definition live_invitations :: "jstring \<Rightarrow> int \<Rightarrow> OrgDb \<Rightarrow> Invitation list" where
  "live_invitations o' now db =
     filter_scoped inv_org o' (\<lambda>i. pending i \<and> inv_expiresAt i > now) (db_invitations db)"

definition assertPendingCapNotReached :: "nat \<Rightarrow> jstring \<Rightarrow> int \<Rightarrow> OrgDb \<Rightarrow> Thrown + unit" where
  "assertPendingCapNotReached cap o' now db =
     (if length (live_invitations o' now db) \<ge> cap
      then Inl (derr_details E_INVITATION_LIMIT_REACHED [(js ''limit'', JNum (of_nat_num cap))])
      else Inr ())"

text \<open>What follows a committed operation and may still throw.\<close>

definition also_return :: "'a outcome \<Rightarrow> ('a \<Rightarrow> Thrown + 'b) \<Rightarrow> 'b outcome" where
  "also_return oc k = (case oc of (r, db, evs) \<Rightarrow> (rbind r k, db, evs))"

section \<open>Create\<close>

record IssuedInvitation =
  iss_invitation :: InvitationRow
  iss_token :: jstring
  iss_inviteUrl :: jstring

definition new_invitation ::
    "InvitationEnv \<Rightarrow> jstring \<Rightarrow> jstring \<Rightarrow> jstring \<Rightarrow> Role \<Rightarrow> jstring \<Rightarrow> Invitation" where
  "new_invitation env o' actorUserId email role token =
     (let now = se_now (ie_env env) in
      \<lparr>inv_id = ie_newId env, inv_org = o', inv_email = email, inv_roleId = role_id role,
       inv_status = SPending, inv_tokenHash = hashInvitationToken env token, inv_tokenIssuedAt = now,
       inv_expiresAt = invitationExpiryFrom now (invitationTtlHours (role_capabilities role)),
       inv_invitedByUserId = Some actorUserId, inv_acceptedAt = None, inv_acceptedByUserId = None,
       inv_acceptedUserCreatedAt = None, inv_cancelledAt = None, inv_createdAt = ie_createdAt env\<rparr>)"

definition create_tx ::
    "InvitationEnv \<Rightarrow> jstring \<Rightarrow> jstring \<Rightarrow> jstring \<Rightarrow> jstring \<Rightarrow> (InvitationSelected \<times> jstring) tx" where
  "create_tx env email roleId o' actorUserId db =
     rbind (readRole o' roleId db) (\<lambda>role.
     rbind (readInviterCapabilities o' actorUserId db) (\<lambda>actorCapabilities.
     if \<not> canAssignRole \<lparr>car_actorCapabilities = actorCapabilities, car_targetIsOwner = False,
            car_newRoleIsOwner = isOwnerRole (role_capabilities role)\<rparr>
     then Inl (derr E_FORBIDDEN)
     else
       rbind (assertNotAlreadyMember o' email db) (\<lambda>_.
       rbind (assertNoPendingInvitation o' email db) (\<lambda>_.
       rbind (assertPendingCapNotReached (ie_pendingCap env) o' (se_now (ie_env env)) db) (\<lambda>_.
       let token = generateInvitationToken env;
           row = new_invitation env o' actorUserId email role token
       in rbind (insert_invitation row db) (\<lambda>db'.
          rbind (select_invitation db' row) (\<lambda>s. Inr ((s, token), db'))))))))"

definition create ::
    "InvitationEnv \<Rightarrow> OrgRequestContext option \<Rightarrow> jstring \<Rightarrow> jstring \<Rightarrow> OrgDb \<Rightarrow> IssuedInvitation outcome" where
  "create env ctx rawEmail roleId db =
     (let lower = se_lower (ie_env env);
          email = normalizeEmail lower rawEmail
      in case prologue ctx of
           Inl e \<Rightarrow> (Inl e, db, [])
         | Inr _ \<Rightarrow>
             if \<not> isValidEmailShape email
             then (Inl (derr_fields E_VALIDATION_FAILED [(js ''email'', EMAIL_INVALID_COPY)]), db, [])
             else (case mask_thrown (maskEmail lower email) of
                     Inl e \<Rightarrow> (Inl e, db, [])
                   | Inr emailMasked \<Rightarrow>
                       also_return
                         (in_org_transaction (ie_env env) ctx (js ''createInvitation'')
                            (\<lambda>organizationId actorUserId. create_tx env email roleId organizationId actorUserId)
                            (\<lambda>organizationId actorUserId (s, token).
                               ((s, token),
                                [event (ie_env env) Ev_org_invitation_created
                                   [(js ''actorUserId'', JStr actorUserId), (js ''organizationId'', JStr organizationId),
                                    (js ''emailMasked'', JStr emailMasked),
                                    (js ''roleId'', JStr (inv_roleId (sel_row s))),
                                    (js ''invitationId'', JStr (inv_id (sel_row s)))]]))
                            db)
                         (\<lambda>(s, token). rbind (inviteUrl env token) (\<lambda>url.
                            Inr \<lparr>iss_invitation = toRow s (se_now (ie_env env)), iss_token = token,
                                 iss_inviteUrl = url\<rparr>))))"

section \<open>Reissue and cancel\<close>

record ReissuedLink =
  rl_token :: jstring
  rl_inviteUrl :: jstring
  rl_expiresAt :: jstring
  rl_tokenIssuedAt :: jstring
  rl_rotated :: bool

definition find_invitation :: "jstring \<Rightarrow> jstring \<Rightarrow> OrgDb \<Rightarrow> Invitation option" where
  "find_invitation o' invitationId db =
     find_scoped inv_org o' (\<lambda>i. inv_id i = invitationId) (db_invitations db)"

definition reissueLink_tx ::
    "InvitationEnv \<Rightarrow> jstring \<Rightarrow> jstring \<Rightarrow> jstring \<Rightarrow> (Invitation \<times> jstring) tx" where
  "reissueLink_tx env invitationId o' actorUserId db =
     (let now = se_now (ie_env env) in
      case find_invitation o' invitationId db of
        None \<Rightarrow> Inl (derr E_NOT_FOUND)
      | Some i \<Rightarrow>
          rbind (select_invitation db i) (\<lambda>s.
          if inv_status i \<noteq> SPending then Inl (derr E_CONFLICT)
          else if resolveInvitationStatus SPending (inv_expiresAt i) now = RExpired
          then Inl (derr E_INVITATION_EXPIRED)
          else
            rbind (readInviterCapabilities o' actorUserId db) (\<lambda>actorCapabilities.
            if \<not> canAssignRole \<lparr>car_actorCapabilities = actorCapabilities, car_targetIsOwner = False,
                   car_newRoleIsOwner = isOwnerRole (role_capabilities (sel_role s))\<rparr>
            then Inl (derr E_FORBIDDEN)
            else
              let token = generateInvitationToken env;
                  expiresAt = invitationExpiryFrom now (invitationTtlHours (role_capabilities (sel_role s)))
              in rbind (update_invitation o' (inv_id i)
                          (\<lambda>x. x\<lparr>inv_tokenHash := hashInvitationToken env token, inv_tokenIssuedAt := now,
                                 inv_expiresAt := expiresAt\<rparr>) db) (\<lambda>db'.
                 case find_invitation o' (inv_id i) db' of
                   None \<Rightarrow> Inl row_not_found
                 | Some row \<Rightarrow> Inr ((row, token), db')))))"

definition reissueLink ::
    "InvitationEnv \<Rightarrow> OrgRequestContext option \<Rightarrow> jstring \<Rightarrow> OrgDb \<Rightarrow> ReissuedLink outcome" where
  "reissueLink env ctx invitationId db =
     also_return
       (in_org_transaction (ie_env env) ctx (js ''reissueInvitationLink'')
          (\<lambda>organizationId actorUserId. reissueLink_tx env invitationId organizationId actorUserId)
          (\<lambda>organizationId actorUserId (row, token).
             ((row, token),
              [event (ie_env env) Ev_org_invitation_link_reissued
                 [(js ''actorUserId'', JStr actorUserId), (js ''organizationId'', JStr organizationId),
                  (js ''invitationId'', JStr (inv_id row))]]))
          db)
       (\<lambda>(row, token). rbind (inviteUrl env token) (\<lambda>url.
          Inr \<lparr>rl_token = token, rl_inviteUrl = url, rl_expiresAt = toISOString (inv_expiresAt row),
               rl_tokenIssuedAt = toISOString (inv_tokenIssuedAt row), rl_rotated = True\<rparr>))"

definition cancel_tx :: "int \<Rightarrow> jstring \<Rightarrow> jstring \<Rightarrow> jstring tx" where
  "cancel_tx now invitationId o' db =
     (case find_invitation o' invitationId db of
        None \<Rightarrow> Inl (derr E_NOT_FOUND)
      | Some i \<Rightarrow>
          if inv_status i \<noteq> SPending then Inl (derr E_CONFLICT)
          else rbind (update_invitation o' (inv_id i)
                        (\<lambda>x. x\<lparr>inv_status := SCancelled, inv_cancelledAt := Some now\<rparr>) db)
                 (\<lambda>db'. Inr (inv_id i, db')))"

record CancelledInvitation =
  cin_id :: jstring
  cin_status :: StoredInvitationStatus

definition cancel ::
    "InvitationEnv \<Rightarrow> OrgRequestContext option \<Rightarrow> jstring \<Rightarrow> OrgDb \<Rightarrow> CancelledInvitation outcome" where
  "cancel env ctx invitationId db =
     in_org_transaction (ie_env env) ctx (js ''cancelInvitation'')
       (\<lambda>organizationId actorUserId. cancel_tx (se_now (ie_env env)) invitationId organizationId)
       (\<lambda>organizationId actorUserId cancelled.
          (\<lparr>cin_id = cancelled, cin_status = SCancelled\<rparr>,
           [event (ie_env env) Ev_org_invitation_cancelled
              [(js ''actorUserId'', JStr actorUserId), (js ''organizationId'', JStr organizationId),
               (js ''invitationId'', JStr cancelled)]]))
       db"

section \<open>Looking an invitation up by its token\<close>

record InvitationByToken =
  ibt_id :: jstring
  ibt_organizationId :: jstring
  ibt_email :: jstring
  ibt_roleId :: jstring
  ibt_status :: StoredInvitationStatus
  ibt_expiresAt :: int
  ibt_tokenIssuedAt :: int
  ibt_organizationName :: jstring
  ibt_roleName :: jstring
  ibt_roleKey :: "jstring option"

record AcceptorUser =
  acu_id :: jstring
  acu_email :: jstring
  acu_createdAt :: int

definition findByTokenHash :: "jstring \<Rightarrow> OrgDb \<Rightarrow> Thrown + InvitationByToken option" where
  "findByTokenHash tokenHash db =
     (case find (\<lambda>i. inv_tokenHash i = tokenHash) (db_invitations db) of
        None \<Rightarrow> Inr None
      | Some i \<Rightarrow>
          (case (find (\<lambda>o'. org_id o' = inv_org i) (db_orgs db), invitation_role db i) of
             (Some o', Some r) \<Rightarrow>
               Inr (Some \<lparr>ibt_id = inv_id i, ibt_organizationId = inv_org i, ibt_email = inv_email i,
                 ibt_roleId = inv_roleId i, ibt_status = inv_status i, ibt_expiresAt = inv_expiresAt i,
                 ibt_tokenIssuedAt = inv_tokenIssuedAt i, ibt_organizationName = org_name o',
                 ibt_roleName = role_name r, ibt_roleKey = role_key r\<rparr>)
           | _ \<Rightarrow> Inl inconsistent_relation))"

definition findAcceptor :: "jstring \<Rightarrow> OrgDb \<Rightarrow> AcceptorUser option" where
  "findAcceptor userId db =
     map_option (\<lambda>u. \<lparr>acu_id = usr_id u, acu_email = usr_email u, acu_createdAt = usr_createdAt u\<rparr>)
       (find (\<lambda>u. usr_id u = userId) (db_users db))"

section \<open>Preview\<close>

fun PREVIEW_STATUS_ERRORS :: "ResolvedInvitationStatus \<Rightarrow> ErrorCode option" where
  "PREVIEW_STATUS_ERRORS RExpired = Some E_INVITATION_EXPIRED"
| "PREVIEW_STATUS_ERRORS RCancelled = Some E_INVITATION_CANCELLED"
| "PREVIEW_STATUS_ERRORS RAccepted = Some E_INVITATION_ALREADY_ACCEPTED"
| "PREVIEW_STATUS_ERRORS RPending = None"

definition preview :: "InvitationEnv \<Rightarrow> jstring \<Rightarrow> OrgDb \<Rightarrow> Thrown + InvitationPreview" where
  "preview env token db =
     rbind (findByTokenHash (hashInvitationToken env token) db) (\<lambda>located.
     case located of
       None \<Rightarrow> Inl (derr E_INVITATION_INVALID)
     | Some row \<Rightarrow>
         (let status = resolveInvitationStatus (ibt_status row) (ibt_expiresAt row) (se_now (ie_env env)) in
          case PREVIEW_STATUS_ERRORS status of
            Some code \<Rightarrow> Inl (derr code)
          | None \<Rightarrow>
              mask_thrown (toInvitationPreview (se_lower (ie_env env))
                \<lparr>ips_organizationName = ibt_organizationName row, ips_roleName = ibt_roleName row,
                 ips_roleKey = ibt_roleKey row, ips_email = ibt_email row,
                 ips_expiresAt = ibt_expiresAt row, ips_status = status\<rparr>)))"

section \<open>Accept\<close>

datatype AcceptRefusal = Decided AcceptInvitationDecision | Invalid_token | Email_mismatch

fun ACCEPT_REFUSAL_ERRORS :: "AcceptRefusal \<Rightarrow> ErrorCode" where
  "ACCEPT_REFUSAL_ERRORS (Decided AccOk) = E_INTERNAL"
| "ACCEPT_REFUSAL_ERRORS Invalid_token = E_INVITATION_INVALID"
| "ACCEPT_REFUSAL_ERRORS (Decided AccExpired) = E_INVITATION_EXPIRED"
| "ACCEPT_REFUSAL_ERRORS (Decided AccCancelled) = E_INVITATION_CANCELLED"
| "ACCEPT_REFUSAL_ERRORS (Decided AccAlreadyAccepted) = E_INVITATION_ALREADY_ACCEPTED"
| "ACCEPT_REFUSAL_ERRORS Email_mismatch = E_INVITATION_EMAIL_MISMATCH"
| "ACCEPT_REFUSAL_ERRORS (Decided AccRoleUnavailable) = E_INVITATION_ROLE_UNAVAILABLE"
| "ACCEPT_REFUSAL_ERRORS (Decided AccAlreadyMember) = E_ALREADY_MEMBER"
| "ACCEPT_REFUSAL_ERRORS (Decided AccSuperseded) = E_INVITATION_SUPERSEDED"

record AcceptedOutcome =
  ao_invitationId :: jstring
  ao_tokenIssuedAt :: int
  ao_organizationId :: jstring
  ao_organizationName :: jstring
  ao_roleId :: jstring
  ao_roleName :: jstring
  ao_roleKey :: "jstring option"
  ao_reactivatedFrom :: "int option"

datatype AcceptOutcome = Accept_ok AcceptedOutcome | Accept_refused AcceptRefusal "jstring option"

definition reactivated :: "int \<Rightarrow> jstring \<Rightarrow> Membership \<Rightarrow> Membership" where
  "reactivated now roleId m =
     m\<lparr>mem_status := MActive, mem_roleId := roleId, mem_activatedAt := Some now,
       mem_revokedAt := None, mem_revokedByUserId := None\<rparr>"

definition new_membership :: "InvitationEnv \<Rightarrow> jstring \<Rightarrow> jstring \<Rightarrow> jstring \<Rightarrow> Membership" where
  "new_membership env o' userId roleId =
     \<lparr>mem_id = ie_newId env, mem_org = o', mem_userId = userId, mem_roleId = roleId,
      mem_status = MActive, mem_activatedAt = Some (se_now (ie_env env)), mem_revokedAt = None,
      mem_revokedByUserId = None, mem_createdAt = ie_createdAt env\<rparr>"

definition write_acceptance ::
    "InvitationEnv \<Rightarrow> jstring \<Rightarrow> AcceptorUser \<Rightarrow> Invitation \<Rightarrow> Role \<Rightarrow> Membership option \<Rightarrow> AcceptOutcome tx" where
  "write_acceptance env o' acceptor invitation grantedRole membership db =
     (let now = se_now (ie_env env);
          userId = acu_id acceptor;
          reactivatedFrom = (case membership of
              Some m \<Rightarrow> if mem_status m = MRevoked then mem_revokedAt m else None
            | None \<Rightarrow> None)
      in rbind (if membership \<noteq> None
                then update_membership o' userId (reactivated now (role_id grantedRole)) db
                else insert_membership (new_membership env o' userId (role_id grantedRole)) db) (\<lambda>db1.
         rbind (update_invitation o' (inv_id invitation)
                  (\<lambda>i. i\<lparr>inv_status := SAccepted, inv_acceptedAt := Some now,
                         inv_acceptedByUserId := Some userId,
                         inv_acceptedUserCreatedAt := Some (acu_createdAt acceptor)\<rparr>) db1) (\<lambda>db2.
         case find (\<lambda>x. org_id x = o') (db_orgs db2) of
           None \<Rightarrow> Inl (derr E_INTERNAL)
         | Some organization \<Rightarrow>
             Inr (Accept_ok
                    \<lparr>ao_invitationId = inv_id invitation, ao_tokenIssuedAt = inv_tokenIssuedAt invitation,
                     ao_organizationId = org_id organization, ao_organizationName = org_name organization,
                     ao_roleId = role_id grantedRole, ao_roleName = role_name grantedRole,
                     ao_roleKey = role_key grantedRole, ao_reactivatedFrom = reactivatedFrom\<rparr>, db2))))"

definition accept_tx :: "InvitationEnv \<Rightarrow> jstring \<Rightarrow> AcceptorUser \<Rightarrow> jstring \<Rightarrow> AcceptOutcome tx" where
  "accept_tx env o' acceptor tokenHash db =
     (let now = se_now (ie_env env); lower = se_lower (ie_env env); userId = acu_id acceptor in
      case find_scoped inv_org o' (\<lambda>i. inv_tokenHash i = tokenHash) (db_invitations db) of
        None \<Rightarrow> Inr (Accept_refused Invalid_token None, db)
      | Some invitation \<Rightarrow>
          (let role = find_scoped role_org o' (\<lambda>r. role_id r = inv_roleId invitation) (db_roles db);
               membership = find_scoped mem_org o' (\<lambda>m. mem_userId m = userId) (db_memberships db);
               decision = canAcceptInvitation
                 \<lparr>cai_invitation = \<lparr>ai_status = inv_status invitation, ai_expiresAt = inv_expiresAt invitation,
                                    ai_tokenIssuedAt = inv_tokenIssuedAt invitation\<rparr>,
                  cai_membership = map_option (\<lambda>m. \<lparr>am_status = mem_status m, am_revokedAt = mem_revokedAt m\<rparr>) membership,
                  cai_roleExistsInOrg = (role \<noteq> None), cai_now = now\<rparr>
           in if decision = AccExpired \<or> decision = AccCancelled \<or> decision = AccAlreadyAccepted
              then Inr (Accept_refused (Decided decision) None, db)
              else if normalizeEmail lower (acu_email acceptor) \<noteq> inv_email invitation
              then rbind (mask_thrown (maskEmail lower (inv_email invitation))) (\<lambda>masked.
                     Inr (Accept_refused Email_mismatch (Some masked), db))
              else if decision = AccRoleUnavailable \<or> decision = AccSuperseded
              then Inr (Accept_refused (Decided decision) None, db)
              else if decision = AccAlreadyMember
              then rbind (update_invitation o' (inv_id invitation)
                            (\<lambda>i. i\<lparr>inv_status := SCancelled, inv_cancelledAt := Some now\<rparr>) db) (\<lambda>db'.
                     Inr (Accept_refused (Decided AccAlreadyMember) None, db'))
              else (case role of
                      None \<Rightarrow> Inl (error_named ''TypeError'')
                    | Some grantedRole \<Rightarrow> write_acceptance env o' acceptor invitation grantedRole membership db)))"

definition accept_ctx :: "jstring \<Rightarrow> jstring \<Rightarrow> OrgRequestContext" where
  "accept_ctx o' userId =
     \<lparr>ctx_organizationId = o', ctx_userId = Some userId, ctx_membershipId = None, ctx_roleId = None,
      ctx_capabilities = None\<rparr>"

definition accept_events :: "InvitationEnv \<Rightarrow> jstring \<Rightarrow> AcceptorUser \<Rightarrow> AcceptedOutcome \<Rightarrow> SecurityEvent list" where
  "accept_events env o' acceptor oc =
     event (ie_env env) Ev_org_invitation_accepted
       [(js ''userId'', JStr (acu_id acceptor)), (js ''organizationId'', JStr o'),
        (js ''invitationId'', JStr (ao_invitationId oc)), (js ''roleId'', JStr (ao_roleId oc)),
        (js ''acceptedByUserId'', JStr (acu_id acceptor)),
        (js ''userCreatedAt'', JStr (toISOString (acu_createdAt acceptor))),
        (js ''userCreatedAfterTokenIssued'',
           JBool (userCreatedAfterTokenIssued (acu_createdAt acceptor) (ao_tokenIssuedAt oc)))] #
     (case ao_reactivatedFrom oc of
        None \<Rightarrow> []
      | Some t \<Rightarrow>
          [event (ie_env env) Ev_org_member_reactivated
             [(js ''userId'', JStr (acu_id acceptor)), (js ''organizationId'', JStr o'),
              (js ''invitationId'', JStr (ao_invitationId oc)), (js ''roleId'', JStr (ao_roleId oc)),
              (js ''previousRevokedAt'', JStr (toISOString t))]])"

text \<open>
  \<open>snapshot\<close> is the database the two lookups read before the lock, \<open>db\<close> the one the transaction
  finds once it holds the lock: other transactions may have committed in between.
\<close>

definition accept ::
    "InvitationEnv \<Rightarrow> jstring \<Rightarrow> jstring \<Rightarrow> OrgDb \<Rightarrow> OrgDb \<Rightarrow> InvitationAcceptResult outcome" where
  "accept env userId token snapshot db =
     (let tokenHash = hashInvitationToken env token in
      case findByTokenHash tokenHash snapshot of
        Inl e \<Rightarrow> (Inl e, db, [])
      | Inr None \<Rightarrow> (Inl (derr E_INVITATION_INVALID), db, [])
      | Inr (Some located) \<Rightarrow>
          (case findAcceptor userId snapshot of
             None \<Rightarrow> (Inl (derr E_INTERNAL), db, [])
           | Some acceptor \<Rightarrow>
               (let organizationId = ibt_organizationId located in
                case runInOrgLockTransaction (se_driver (ie_env env)) (Some (accept_ctx organizationId userId))
                       JUndef (Some (js ''acceptInvitation'')) (accept_tx env organizationId acceptor tokenHash) db of
                  (Inl e, db') \<Rightarrow> (Inl e, db', [])
                | (Inr (Accept_refused refusal masked), db') \<Rightarrow>
                    (Inl (case masked of
                            None \<Rightarrow> derr (ACCEPT_REFUSAL_ERRORS refusal)
                          | Some m \<Rightarrow> derr_details (ACCEPT_REFUSAL_ERRORS refusal) [(js ''emailMasked'', JStr m)]),
                     db', [])
                | (Inr (Accept_ok oc), db') \<Rightarrow>
                    (Inr (toInvitationAcceptResult
                            \<lparr>ias_organizationId = ao_organizationId oc, ias_organizationName = ao_organizationName oc,
                             ias_roleId = ao_roleId oc, ias_roleName = ao_roleName oc, ias_roleKey = ao_roleKey oc\<rparr>),
                     db', accept_events env organizationId acceptor oc))))"

section \<open>What a committed operation did\<close>

lemma update_invitation_result:
  assumes "update_invitation o' i f db = Inr db'"
  shows "db' = put_invitations (update_scoped inv_org o' (\<lambda>x. inv_id x = i) f (db_invitations db)) db"
    "invitations_unique (update_scoped inv_org o' (\<lambda>x. inv_id x = i) f (db_invitations db))"
proof -
  from assms have w: "write_invitations (update_scoped inv_org o' (\<lambda>x. inv_id x = i) f (db_invitations db)) db = Inr db'"
    by (simp add: update_invitation_def split: if_splits)
  from write_invitations_ok(1,2) [OF w] show "db' = put_invitations (update_scoped inv_org o' (\<lambda>x. inv_id x = i) f (db_invitations db)) db"
    "invitations_unique (update_scoped inv_org o' (\<lambda>x. inv_id x = i) f (db_invitations db))" by auto
qed

lemma insert_invitation_result:
  assumes "insert_invitation i db = Inr db'"
  shows "db' = put_invitations (db_invitations db @ [i]) db" "invitations_unique (db_invitations db @ [i])"
  using write_invitations_ok(1,2) [OF assms [unfolded insert_invitation_def]] by auto

lemma put_invitations_reads [simp]:
  "db_invitations (put_invitations rs db) = rs" "db_memberships (put_invitations rs db) = db_memberships db"
  "db_roles (put_invitations rs db) = db_roles db" "db_users (put_invitations rs db) = db_users db"
  "db_orgs (put_invitations rs db) = db_orgs db"
  by (simp_all add: put_invitations_def)

lemma put_memberships_reads [simp]:
  "db_memberships (put_memberships ms db) = ms" "db_invitations (put_memberships ms db) = db_invitations db"
  "db_roles (put_memberships ms db) = db_roles db" "db_users (put_memberships ms db) = db_users db"
  "db_orgs (put_memberships ms db) = db_orgs db"
  by (simp_all add: put_memberships_def)

text \<open>What every operation of the service keeps.\<close>

definition step_safe :: "jstring \<Rightarrow> OrgDb \<Rightarrow> OrgDb \<Rightarrow> bool" where
  "step_safe o' db db' \<longleftrightarrow>
     db_ok db' \<and> outside_unchanged o' db db' \<and> (has_active_owner o' db \<longrightarrow> has_active_owner o' db')"

lemma step_safe_refl [simp]: "db_ok db \<Longrightarrow> step_safe o' db db"
  by (simp add: step_safe_def)

lemma step_safe_trans: "step_safe o' db db1 \<Longrightarrow> step_safe o' db1 db2 \<Longrightarrow> step_safe o' db db2"
  unfolding step_safe_def by (blast intro: outside_trans)

lemma update_invitation_safe:
  assumes "db_ok db" and u: "update_invitation o' i f db = Inr db'" and "\<And>x. inv_org (f x) = inv_org x"
  shows "step_safe o' db db'"
proof -
  have "outside_unchanged o' db db'"
    by (rule updateMany_invitations_outside [OF update_invitation_many [OF u]]) (rule assms(3))
  moreover have "has_active_owner o' db' = has_active_owner o' db"
    by (rule has_active_owner_frame) (simp_all add: update_invitation_result(1) [OF u])
  ultimately show ?thesis using writes_db_ok(3) [OF assms(1) u] by (simp add: step_safe_def)
qed

lemma insert_invitation_safe:
  assumes "db_ok db" and u: "insert_invitation i db = Inr db'" and "inv_org i = o'"
  shows "step_safe o' db db'"
proof -
  have "has_active_owner o' db' = has_active_owner o' db"
    by (rule has_active_owner_frame) (simp_all add: insert_invitation_result(1) [OF u])
  then show ?thesis
    using writes_db_ok(5) [OF assms(1) u] insert_invitation_outside [OF u assms(3)] by (simp add: step_safe_def)
qed

lemma insert_membership_safe:
  assumes "db_ok db" and u: "insert_membership m db = Inr db'" and "mem_org m = o'"
  shows "step_safe o' db db'"
proof -
  have "db' = put_memberships (db_memberships db @ [m]) db"
    by (rule write_memberships_ok(1) [OF u [unfolded insert_membership_def]])
  then have "has_active_owner o' db \<Longrightarrow> has_active_owner o' db'"
    by (auto simp: has_active_owner_def role_caps_def)
  then show ?thesis
    using writes_db_ok(2) [OF assms(1) u] insert_membership_outside [OF u assms(3)] by (simp add: step_safe_def)
qed

text \<open>Rewriting a row that is not active takes no Owner away.\<close>

lemma update_inactive_safe:
  assumes ok: "db_ok db" and u: "update_membership o' w f db = Inr db'"
    and org: "\<And>x. mem_org (f x) = mem_org x"
    and inactive: "find_scoped mem_org o' (\<lambda>m. mem_userId m = w) (db_memberships db) = Some m" "mem_status m \<noteq> MActive"
  shows "step_safe o' db db'"
proof -
  let ?rs = "update_scoped mem_org o' (\<lambda>m. mem_userId m = w) f (db_memberships db)"
  from u have "write_memberships ?rs db = Inr db'" by (simp add: update_membership_def inactive)
  then have d: "db' = put_memberships ?rs db" by (rule write_memberships_ok(1))
  have "has_active_owner o' db'" if "has_active_owner o' db"
  proof -
    from that obtain x where x: "x \<in> set (db_memberships db)" "mem_org x = o'" "mem_status x = MActive"
      "isOwnerRole (role_caps db o' (mem_roleId x))" by (auto simp: has_active_owner_def)
    have "mem_userId x \<noteq> w"
    proof
      assume e: "mem_userId x = w"
      then have "find_scoped mem_org o' (\<lambda>m. mem_userId m = w) (db_memberships db) = Some x"
        using find_member [OF ok x(1)] x(2) by simp
      with inactive x(3) show False by simp
    qed
    then have "x \<in> set ?rs" using x(1) unfolding set_update_scoped by (intro image_eqI [of _ _ x]) auto
    with x(2-4) show ?thesis unfolding has_active_owner_def d by (auto simp: role_caps_def)
  qed
  then show ?thesis
    using writes_db_ok(1) [OF ok u] update_membership_outside [OF u org] by (simp add: step_safe_def)
qed

lemma create_tx_ok:
  assumes "create_tx env email roleId o' actor db = Inr ((s, token), db')"
  shows "\<exists>role caps. find_scoped role_org o' (\<lambda>r. role_id r = roleId) (db_roles db) = Some role \<and>
    readInviterCapabilities o' actor db = Inr caps \<and>
    canAssignRole \<lparr>car_actorCapabilities = caps, car_targetIsOwner = False,
      car_newRoleIsOwner = isOwnerRole (role_capabilities role)\<rparr> \<and>
    assertNotAlreadyMember o' email db = Inr () \<and>
    length (live_invitations o' (se_now (ie_env env)) db) < ie_pendingCap env \<and>
    token = generateInvitationToken env \<and> sel_row s = new_invitation env o' actor email role token \<and>
    insert_invitation (new_invitation env o' actor email role token) db = Inr db'"
  using assms
  by (auto simp: create_tx_def rbind_Inr_iff readRole_def Let_def select_invitation_def
      assertPendingCapNotReached_def split: option.splits if_splits)

lemma reissueLink_tx_ok:
  assumes "reissueLink_tx env i o' actor db = Inr ((row, token), db')"
  shows "\<exists>x role caps. find_invitation o' i db = Some x \<and> invitation_role db x = Some role \<and>
    inv_status x = SPending \<and> se_now (ie_env env) < inv_expiresAt x \<and>
    readInviterCapabilities o' actor db = Inr caps \<and>
    canAssignRole \<lparr>car_actorCapabilities = caps, car_targetIsOwner = False,
      car_newRoleIsOwner = isOwnerRole (role_capabilities role)\<rparr> \<and>
    token = generateInvitationToken env \<and>
    update_invitation o' i (\<lambda>x. x\<lparr>inv_tokenHash := hashInvitationToken env token,
      inv_tokenIssuedAt := se_now (ie_env env),
      inv_expiresAt := invitationExpiryFrom (se_now (ie_env env)) (invitationTtlHours (role_capabilities role))\<rparr>) db = Inr db' \<and>
    find_invitation o' i db' = Some row"
proof -
  from assms obtain x where x: "find_invitation o' i db = Some x"
    by (auto simp: reissueLink_tx_def Let_def split: option.splits)
  then have xi: "inv_id x = i" by (auto simp: find_invitation_def dest: find_scoped_SomeD)
  from assms x obtain role where r: "invitation_role db x = Some role"
    by (auto simp: reissueLink_tx_def Let_def select_invitation_def split: option.splits)
  show ?thesis using assms
    by (auto simp: reissueLink_tx_def Let_def select_invitation_def x xi r rbind_Inr_iff
        split: option.splits if_splits)
qed

lemma cancel_tx_ok:
  assumes "cancel_tx now i o' db = Inr (r, db')"
  shows "\<exists>x. find_invitation o' i db = Some x \<and> inv_status x = SPending \<and> r = i \<and>
    update_invitation o' i (\<lambda>x. x\<lparr>inv_status := SCancelled, inv_cancelledAt := Some now\<rparr>) db = Inr db'"
  using assms
  by (auto simp: cancel_tx_def rbind_Inr_iff find_invitation_def dest: find_scoped_SomeD
      split: option.splits if_splits)

lemma create_tx_safe:
  assumes "db_ok db" and "create_tx env email roleId o' actor db = Inr (x, db')"
  shows "step_safe o' db db'"
proof -
  obtain s token where x: "x = (s, token)" by (cases x)
  from create_tx_ok [OF assms(2) [unfolded x]] obtain role where
    i: "insert_invitation (new_invitation env o' actor email role token) db = Inr db'" by blast
  show ?thesis by (rule insert_invitation_safe [OF assms(1) i]) (simp add: new_invitation_def Let_def)
qed

lemma reissueLink_tx_safe:
  assumes "db_ok db" and "reissueLink_tx env i o' actor db = Inr (x, db')"
  shows "step_safe o' db db'"
proof -
  obtain row token where x: "x = (row, token)" by (cases x)
  from reissueLink_tx_ok [OF assms(2) [unfolded x]] obtain f
    where "update_invitation o' i f db = Inr db'" "\<And>x. inv_org (f x) = inv_org x" by force
  then show ?thesis by (rule update_invitation_safe [OF assms(1)])
qed

lemma cancel_tx_safe:
  assumes "db_ok db" and "cancel_tx now i o' db = Inr (x, db')"
  shows "step_safe o' db db'"
  using cancel_tx_ok [OF assms(2)] update_invitation_safe [OF assms(1)] by auto

section \<open>What an acceptance did\<close>

definition accepted_invitation :: "int \<Rightarrow> AcceptorUser \<Rightarrow> Invitation \<Rightarrow> Invitation" where
  "accepted_invitation now acceptor i =
     i\<lparr>inv_status := SAccepted, inv_acceptedAt := Some now, inv_acceptedByUserId := Some (acu_id acceptor),
       inv_acceptedUserCreatedAt := Some (acu_createdAt acceptor)\<rparr>"

definition membership_of :: "jstring \<Rightarrow> jstring \<Rightarrow> OrgDb \<Rightarrow> Membership option" where
  "membership_of o' u db = find_scoped mem_org o' (\<lambda>m. mem_userId m = u) (db_memberships db)"

text \<open>The membership a caller may hold for an acceptance to succeed.\<close>

definition may_join :: "Membership option \<Rightarrow> int \<Rightarrow> bool" where
  "may_join mo issued \<longleftrightarrow>
     (case mo of None \<Rightarrow> True
      | Some m \<Rightarrow> mem_status m = MRevoked \<and> (\<exists>r. mem_revokedAt m = Some r \<and> r < issued))"

lemma opens_for_membership:
  "opens_for (map_option (\<lambda>m. \<lparr>am_status = mem_status m, am_revokedAt = mem_revokedAt m\<rparr>) mo) t \<longleftrightarrow>
     may_join mo t"
  by (cases mo) (simp_all add: opens_for_def may_join_def)

lemma accept_tx_result:
  assumes "accept_tx env o' acceptor h db = Inr (r, db')"
  shows "(\<exists>refusal masked. r = Accept_refused refusal masked \<and> db' = db) \<or>
    (\<exists>i. find_scoped inv_org o' (\<lambda>i. inv_tokenHash i = h) (db_invitations db) = Some i \<and>
       normalizeEmail (se_lower (ie_env env)) (acu_email acceptor) = inv_email i \<and>
       (r = Accept_refused (Decided AccAlreadyMember) None \<and>
        update_invitation o' (inv_id i)
          (\<lambda>x. x\<lparr>inv_status := SCancelled, inv_cancelledAt := Some (se_now (ie_env env))\<rparr>) db = Inr db' \<or>
        (\<exists>role. find_scoped role_org o' (\<lambda>x. role_id x = inv_roleId i) (db_roles db) = Some role \<and>
          inv_status i = SPending \<and> se_now (ie_env env) < inv_expiresAt i \<and>
          may_join (membership_of o' (acu_id acceptor) db) (inv_tokenIssuedAt i) \<and>
          write_acceptance env o' acceptor i role (membership_of o' (acu_id acceptor) db) db = Inr (r, db'))))"
proof (cases "find_scoped inv_org o' (\<lambda>i. inv_tokenHash i = h) (db_invitations db)")
  case None
  with assms show ?thesis by (auto simp: accept_tx_def Let_def)
next
  case (Some i)
  let ?role = "find_scoped role_org o' (\<lambda>x. role_id x = inv_roleId i) (db_roles db)"
  let ?in = "\<lparr>cai_invitation = \<lparr>ai_status = inv_status i, ai_expiresAt = inv_expiresAt i,
                                    ai_tokenIssuedAt = inv_tokenIssuedAt i\<rparr>,
     cai_membership = map_option (\<lambda>m. \<lparr>am_status = mem_status m, am_revokedAt = mem_revokedAt m\<rparr>)
       (membership_of o' (acu_id acceptor) db),
     cai_roleExistsInOrg = (?role \<noteq> None), cai_now = se_now (ie_env env)\<rparr>"
  note run = assms [unfolded accept_tx_def Let_def Some option.case membership_of_def [symmetric]]
  show ?thesis
  proof (cases "canAcceptInvitation ?in")
    case AccOk
    from AccOk [unfolded canAccept_ok_iff] obtain role where r: "?role = Some role"
      and c: "inv_status i = SPending" "se_now (ie_env env) < inv_expiresAt i"
        "may_join (membership_of o' (acu_id acceptor) db) (inv_tokenIssuedAt i)"
      by (auto simp: opens_for_membership)
    show ?thesis
    proof (cases "normalizeEmail (se_lower (ie_env env)) (acu_email acceptor) = inv_email i")
      case True
      with run AccOk r have "write_acceptance env o' acceptor i role (membership_of o' (acu_id acceptor) db) db = Inr (r, db')"
        by simp
      with True Some r c show ?thesis by blast
    next
      case False
      with run AccOk r show ?thesis by (auto simp: rbind_Inr_iff)
    qed
  qed (use run Some in \<open>auto simp: rbind_Inr_iff split: if_splits\<close>)
qed

lemma write_acceptance_ok:
  assumes "write_acceptance env o' acceptor i role mo db = Inr (r, db')"
  shows "\<exists>db1 org. (if mo \<noteq> None
       then update_membership o' (acu_id acceptor) (reactivated (se_now (ie_env env)) (role_id role)) db = Inr db1
       else insert_membership (new_membership env o' (acu_id acceptor) (role_id role)) db = Inr db1) \<and>
    update_invitation o' (inv_id i) (accepted_invitation (se_now (ie_env env)) acceptor) db1 = Inr db' \<and>
    org \<in> set (db_orgs db') \<and> org_id org = o' \<and>
    r = Accept_ok \<lparr>ao_invitationId = inv_id i, ao_tokenIssuedAt = inv_tokenIssuedAt i,
        ao_organizationId = o', ao_organizationName = org_name org, ao_roleId = role_id role,
        ao_roleName = role_name role, ao_roleKey = role_key role,
        ao_reactivatedFrom = (case mo of Some m \<Rightarrow> if mem_status m = MRevoked then mem_revokedAt m else None
          | None \<Rightarrow> None)\<rparr>"
proof -
  let ?first = "if mo \<noteq> None
       then update_membership o' (acu_id acceptor) (reactivated (se_now (ie_env env)) (role_id role)) db
       else insert_membership (new_membership env o' (acu_id acceptor) (role_id role)) db"
  let ?f = "accepted_invitation (se_now (ie_env env)) acceptor"
  have f: "(\<lambda>i. i\<lparr>inv_status := SAccepted, inv_acceptedAt := Some (se_now (ie_env env)),
      inv_acceptedByUserId := Some (acu_id acceptor), inv_acceptedUserCreatedAt := Some (acu_createdAt acceptor)\<rparr>) = ?f"
    by (rule ext) (simp add: accepted_invitation_def)
  from assms [unfolded write_acceptance_def Let_def f rbind_Inr_iff] obtain db1 db2
    where first: "?first = Inr db1" and u: "update_invitation o' (inv_id i) ?f db1 = Inr db2"
      and rest: "(case find (\<lambda>x. org_id x = o') (db_orgs db2) of None \<Rightarrow> Inl (derr E_INTERNAL)
        | Some organization \<Rightarrow> Inr (Accept_ok
            \<lparr>ao_invitationId = inv_id i, ao_tokenIssuedAt = inv_tokenIssuedAt i,
             ao_organizationId = org_id organization, ao_organizationName = org_name organization,
             ao_roleId = role_id role, ao_roleName = role_name role, ao_roleKey = role_key role,
             ao_reactivatedFrom = (case mo of Some m \<Rightarrow> if mem_status m = MRevoked then mem_revokedAt m else None
               | None \<Rightarrow> None)\<rparr>, db2)) = Inr (r, db')"
    by blast
  from rest obtain org where "find (\<lambda>x. org_id x = o') (db_orgs db2) = Some org" by (cases "find (\<lambda>x. org_id x = o') (db_orgs db2)") auto
  with rest first u show ?thesis by (cases mo) (auto dest: find_SomeD)
qed

lemma accept_tx_safe:
  assumes ok: "db_ok db" and t: "accept_tx env o' acceptor h db = Inr (r, db')"
  shows "step_safe o' db db'"
proof -
  let ?mo = "membership_of o' (acu_id acceptor) db"
  have w: "step_safe o' db db'" if j: "may_join ?mo issued"
    and w: "write_acceptance env o' acceptor i role ?mo db = Inr (r, db')" for i role issued
  proof -
    from write_acceptance_ok [OF w] obtain db1 where m: "if ?mo \<noteq> None
       then update_membership o' (acu_id acceptor) (reactivated (se_now (ie_env env)) (role_id role)) db = Inr db1
       else insert_membership (new_membership env o' (acu_id acceptor) (role_id role)) db = Inr db1"
      and u: "update_invitation o' (inv_id i) (accepted_invitation (se_now (ie_env env)) acceptor) db1 = Inr db'"
      by blast
    have s1: "step_safe o' db db1"
    proof (cases ?mo)
      case None
      with m show ?thesis
        by (intro insert_membership_safe [OF ok]) (auto simp: new_membership_def)
    next
      case (Some x)
      with m j show ?thesis
        by (intro update_inactive_safe [OF ok, of o' "acu_id acceptor"
              "reactivated (se_now (ie_env env)) (role_id role)" db1 x])
          (auto simp: reactivated_def may_join_def membership_of_def)
    qed
    then have "db_ok db1" by (simp add: step_safe_def)
    from update_invitation_safe [OF this u] have "step_safe o' db1 db'" by (simp add: accepted_invitation_def)
    with s1 show ?thesis by (rule step_safe_trans)
  qed
  have c: "step_safe o' db db'" if "update_invitation o' (inv_id i)
          (\<lambda>x. x\<lparr>inv_status := SCancelled, inv_cancelledAt := Some (se_now (ie_env env))\<rparr>) db = Inr db'" for i
    by (rule update_invitation_safe [OF ok that]) simp
  from accept_tx_result [OF t] w c ok show ?thesis by auto
qed

text \<open>
  How a call of \<open>accept\<close> ends: refused before the transaction, failed in it, refused by it, or
  committed with a membership.
\<close>

lemma accept_cases:
  assumes "accept env u token snapshot db = (r, db', evs)"
  shows "(\<exists>e. r = Inl e \<and> db' = db \<and> evs = []) \<or>
    (\<exists>located acceptor. findByTokenHash (hashInvitationToken env token) snapshot = Inr (Some located) \<and>
       findAcceptor u snapshot = Some acceptor \<and>
       ((\<exists>refusal masked e. accept_tx env (ibt_organizationId located) acceptor (hashInvitationToken env token) db =
           Inr (Accept_refused refusal masked, db') \<and> r = Inl e \<and> evs = [] \<and>
           code_of e = Some (ACCEPT_REFUSAL_ERRORS refusal)) \<or>
        (\<exists>oc. accept_tx env (ibt_organizationId located) acceptor (hashInvitationToken env token) db =
           Inr (Accept_ok oc, db') \<and>
           r = Inr (toInvitationAcceptResult
                 \<lparr>ias_organizationId = ao_organizationId oc, ias_organizationName = ao_organizationName oc,
                  ias_roleId = ao_roleId oc, ias_roleName = ao_roleName oc, ias_roleKey = ao_roleKey oc\<rparr>) \<and>
           evs = accept_events env (ibt_organizationId located) acceptor oc)))"
proof (cases "findByTokenHash (hashInvitationToken env token) snapshot")
  case (Inl e)
  with assms show ?thesis by (auto simp: accept_def Let_def)
next
  case (Inr lo)
  show ?thesis
  proof (cases lo)
    case None
    with assms Inr show ?thesis by (auto simp: accept_def Let_def)
  next
    case (Some located)
    show ?thesis
    proof (cases "findAcceptor u snapshot")
      case None
      with assms Inr Some show ?thesis by (auto simp: accept_def Let_def)
    next
      case (Some acceptor)
      let ?o = "ibt_organizationId located" and ?h = "hashInvitationToken env token"
      obtain res db1 where run: "runInOrgLockTransaction (se_driver (ie_env env)) (Some (accept_ctx ?o u)) JUndef
          (Some (js ''acceptInvitation'')) (accept_tx env ?o acceptor ?h) db = (res, db1)"
        by (cases "runInOrgLockTransaction (se_driver (ie_env env)) (Some (accept_ctx ?o u)) JUndef
          (Some (js ''acceptInvitation'')) (accept_tx env ?o acceptor ?h) db")
      note a = assms [unfolded accept_def Let_def Inr \<open>lo = Some located\<close> Some, simplified, unfolded run, simplified]
      show ?thesis
      proof (cases res)
        case (Inl e)
        with a run_failed run show ?thesis by auto
      next
        case (Inr x)
        with run have "accept_tx env ?o acceptor ?h db = Inr (x, db1)" by (intro run_committed(1)) simp
        with a Inr Some \<open>findByTokenHash ?h snapshot = Inr lo\<close> \<open>lo = Some located\<close> show ?thesis
          by (cases x) (auto split: option.splits)
      qed
    qed
  qed
qed

end
