(* ===== verification/InvitationLifecycle.thy ===== *)
theory InvitationLifecycle
  imports InvitationsService
begin

text \<open>
  What the operations of the invitations service guarantee: isolation, who may hand out a link,
  the bound on live invitations, rotation, acceptance exactly when the rules allow it, single
  use, and that a removed member cannot come back on an older link.
\<close>

section \<open>Outcomes of the calls\<close>

lemma in_org_cases:
  assumes "in_org_transaction env (Some c) operation body finish db = (res, db', evs)"
  shows "(\<exists>e. res = Inl e \<and> db' = db \<and> evs = []) \<or>
    (\<exists>u x. caller c u \<and> body (ctx_organizationId c) u db = Inr (x, db') \<and>
       res = Inr (fst (finish (ctx_organizationId c) u x)) \<and> evs = snd (finish (ctx_organizationId c) u x))"
proof (cases res)
  case (Inl e)
  with in_org_fails assms show ?thesis by blast
next
  case (Inr r)
  from in_org_commits [OF assms [unfolded Inr]] show ?thesis unfolding Inr by auto
qed

lemma create_cases:
  assumes "create env (Some c) email roleId db = (res, db', evs)"
  shows "(\<exists>e. res = Inl e \<and> db' = db \<and> evs = []) \<or>
    (\<exists>u s token. caller c u \<and> isValidEmailShape (normalizeEmail (se_lower (ie_env env)) email) \<and>
       create_tx env (normalizeEmail (se_lower (ie_env env)) email) roleId (ctx_organizationId c) u db =
         Inr ((s, token), db') \<and>
       res = Inr \<lparr>iss_invitation = toRow s (se_now (ie_env env)), iss_token = token,
         iss_inviteUrl = ie_webAppBaseUrl env @ js ''/invite?token='' @ token\<rparr> \<and>
       map ev_type evs = [Ev_org_invitation_created])"
proof -
  let ?email = "normalizeEmail (se_lower (ie_env env)) email"
  consider (p) e where "prologue (Some c) = Inl e"
    | (v) x where "prologue (Some c) = Inr x" "\<not> isValidEmailShape ?email"
    | (m) x e where "prologue (Some c) = Inr x" "isValidEmailShape ?email"
        "mask_thrown (maskEmail (se_lower (ie_env env)) ?email) = Inl e"
    | (run) x m where "prologue (Some c) = Inr x" "isValidEmailShape ?email"
        "mask_thrown (maskEmail (se_lower (ie_env env)) ?email) = Inr m"
    by (cases "prologue (Some c)"; cases "mask_thrown (maskEmail (se_lower (ie_env env)) ?email)") blast+
  then show ?thesis
  proof cases
    case run
    let ?f = "\<lambda>organizationId actorUserId (s, token).
       ((s, token), [event (ie_env env) Ev_org_invitation_created
         [(js ''actorUserId'', JStr actorUserId), (js ''organizationId'', JStr organizationId),
          (js ''emailMasked'', JStr m), (js ''roleId'', JStr (inv_roleId (sel_row s))),
          (js ''invitationId'', JStr (inv_id (sel_row s)))]])"
    obtain r db1 evs1 where t: "in_org_transaction (ie_env env) (Some c) (js ''createInvitation'')
        (\<lambda>organizationId actorUserId. create_tx env ?email roleId organizationId actorUserId) ?f db = (r, db1, evs1)"
      by (rule prod_cases3)
    from assms run t have e: "res = rbind r (\<lambda>(s, token). rbind (inviteUrl env token) (\<lambda>url.
        Inr \<lparr>iss_invitation = toRow s (se_now (ie_env env)), iss_token = token, iss_inviteUrl = url\<rparr>))"
      "db' = db1" "evs = evs1"
      by (simp_all add: create_def Let_def also_return_def)
    from in_org_cases [OF t] show ?thesis
    proof
      assume "\<exists>u x. caller c u \<and> create_tx env ?email roleId (ctx_organizationId c) u db = Inr (x, db1) \<and>
        r = Inr (fst (?f (ctx_organizationId c) u x)) \<and> evs1 = snd (?f (ctx_organizationId c) u x)"
      then obtain u s token where u: "caller c u"
        and tx: "create_tx env ?email roleId (ctx_organizationId c) u db = Inr ((s, token), db1)"
        and r: "r = Inr (s, token)" and ev: "map ev_type evs1 = [Ev_org_invitation_created]"
        by (auto simp: event_def)
      from create_tx_ok [OF tx] have "token = generateInvitationToken env" by blast
      then have "res = Inr \<lparr>iss_invitation = toRow s (se_now (ie_env env)), iss_token = token,
         iss_inviteUrl = ie_webAppBaseUrl env @ js ''/invite?token='' @ token\<rparr>"
        unfolding e r by (simp add: inviteUrl_generated)
      with u run(2) tx ev show ?thesis unfolding e(2,3)
        by (intro disjI2 exI [of _ u] exI [of _ s] exI [of _ token]) simp
    qed (use e in auto)
  qed (use assms in \<open>auto simp: create_def Let_def\<close>)
qed

lemma reissue_cases:
  assumes "reissueLink env (Some c) i db = (res, db', evs)"
  shows "(\<exists>e. res = Inl e \<and> db' = db \<and> evs = []) \<or>
    (\<exists>u row token. caller c u \<and> reissueLink_tx env i (ctx_organizationId c) u db = Inr ((row, token), db') \<and>
       res = Inr \<lparr>rl_token = token, rl_inviteUrl = ie_webAppBaseUrl env @ js ''/invite?token='' @ token,
         rl_expiresAt = toISOString (inv_expiresAt row), rl_tokenIssuedAt = toISOString (inv_tokenIssuedAt row),
         rl_rotated = True\<rparr> \<and> map ev_type evs = [Ev_org_invitation_link_reissued])"
proof -
  let ?f = "\<lambda>organizationId actorUserId (row, token).
     ((row, token), [event (ie_env env) Ev_org_invitation_link_reissued
       [(js ''actorUserId'', JStr actorUserId), (js ''organizationId'', JStr organizationId),
        (js ''invitationId'', JStr (inv_id row))]])"
  obtain r db1 evs1 where t: "in_org_transaction (ie_env env) (Some c) (js ''reissueInvitationLink'')
      (\<lambda>organizationId actorUserId. reissueLink_tx env i organizationId actorUserId) ?f db = (r, db1, evs1)"
    by (rule prod_cases3)
  from assms t have e: "res = rbind r (\<lambda>(row, token). rbind (inviteUrl env token) (\<lambda>url.
      Inr \<lparr>rl_token = token, rl_inviteUrl = url, rl_expiresAt = toISOString (inv_expiresAt row),
           rl_tokenIssuedAt = toISOString (inv_tokenIssuedAt row), rl_rotated = True\<rparr>))"
    "db' = db1" "evs = evs1"
    by (simp_all add: reissueLink_def also_return_def)
  from in_org_cases [OF t] show ?thesis
  proof
    assume "\<exists>u x. caller c u \<and> reissueLink_tx env i (ctx_organizationId c) u db = Inr (x, db1) \<and>
      r = Inr (fst (?f (ctx_organizationId c) u x)) \<and> evs1 = snd (?f (ctx_organizationId c) u x)"
    then obtain u row token where u: "caller c u"
      and tx: "reissueLink_tx env i (ctx_organizationId c) u db = Inr ((row, token), db1)"
      and r: "r = Inr (row, token)" and ev: "map ev_type evs1 = [Ev_org_invitation_link_reissued]"
      by (auto simp: event_def)
    from reissueLink_tx_ok [OF tx] have "token = generateInvitationToken env" by blast
    then have "res = Inr \<lparr>rl_token = token, rl_inviteUrl = ie_webAppBaseUrl env @ js ''/invite?token='' @ token,
         rl_expiresAt = toISOString (inv_expiresAt row), rl_tokenIssuedAt = toISOString (inv_tokenIssuedAt row),
         rl_rotated = True\<rparr>"
      unfolding e r by (simp add: inviteUrl_generated)
    with u tx ev show ?thesis unfolding e(2,3)
      by (intro disjI2 exI [of _ u] exI [of _ row] exI [of _ token]) simp
  qed (use e in auto)
qed

lemma cancel_cases:
  assumes "cancel env (Some c) i db = (res, db', evs)"
  shows "(\<exists>e. res = Inl e \<and> db' = db \<and> evs = []) \<or>
    (\<exists>u. caller c u \<and> cancel_tx (se_now (ie_env env)) i (ctx_organizationId c) db = Inr (i, db') \<and>
       res = Inr \<lparr>cin_id = i, cin_status = SCancelled\<rparr> \<and> map ev_type evs = [Ev_org_invitation_cancelled])"
  using in_org_cases [OF assms [unfolded cancel_def]]
proof
  assume "\<exists>u x. caller c u \<and> cancel_tx (se_now (ie_env env)) i (ctx_organizationId c) db = Inr (x, db') \<and>
    res = Inr (fst (\<lparr>cin_id = x, cin_status = SCancelled\<rparr>,
      [event (ie_env env) Ev_org_invitation_cancelled
        [(js ''actorUserId'', JStr u), (js ''organizationId'', JStr (ctx_organizationId c)), (js ''invitationId'', JStr x)]])) \<and>
    evs = snd (\<lparr>cin_id = x, cin_status = SCancelled\<rparr>,
      [event (ie_env env) Ev_org_invitation_cancelled
        [(js ''actorUserId'', JStr u), (js ''organizationId'', JStr (ctx_organizationId c)), (js ''invitationId'', JStr x)]])"
  then show ?thesis using cancel_tx_ok by (fastforce simp: event_def)
qed auto

lemma accept_safe:
  assumes "db_ok db" and "accept env u token snapshot db = (r, db', evs)"
  shows "\<exists>o'. step_safe o' db db'"
  using accept_cases [OF assms(2)] accept_tx_safe [OF assms(1)] step_safe_refl [OF assms(1)] by blast

text \<open>
  The invitation writes keep the database sound. Whatever the caller and the input,
  creating an invitation, rotating its link, cancelling it and accepting it keep every
  constraint of the schema (one pending invitation per organization and address among them),
  change rows of one organization only, and never take an organization's last Owner away.
\<close>

theorem invitation_writes_safe:
  assumes "db_ok db"
  shows "step_safe (ctx_organizationId c) db (fst (snd (create env (Some c) email roleId db))) \<and>
    step_safe (ctx_organizationId c) db (fst (snd (reissueLink env (Some c) i db))) \<and>
    step_safe (ctx_organizationId c) db (fst (snd (cancel env (Some c) i db))) \<and>
    (\<exists>o'. step_safe o' db (fst (snd (accept env u token snapshot db))))"
proof (intro conjI)
  obtain r1 d1 e1 where c1: "create env (Some c) email roleId db = (r1, d1, e1)" by (rule prod_cases3)
  show "step_safe (ctx_organizationId c) db (fst (snd (create env (Some c) email roleId db)))"
    using create_cases [OF c1] create_tx_safe [OF assms] assms unfolding c1 by auto
  obtain r2 d2 e2 where c2: "reissueLink env (Some c) i db = (r2, d2, e2)" by (rule prod_cases3)
  show "step_safe (ctx_organizationId c) db (fst (snd (reissueLink env (Some c) i db)))"
    using reissue_cases [OF c2] reissueLink_tx_safe [OF assms] assms unfolding c2 by auto
  obtain r3 d3 e3 where c3: "cancel env (Some c) i db = (r3, d3, e3)" by (rule prod_cases3)
  show "step_safe (ctx_organizationId c) db (fst (snd (cancel env (Some c) i db)))"
    using cancel_cases [OF c3] cancel_tx_safe [OF assms] assms unfolding c3 by auto
  obtain r4 d4 e4 where c4: "accept env u token snapshot db = (r4, d4, e4)" by (rule prod_cases3)
  show "\<exists>o'. step_safe o' db (fst (snd (accept env u token snapshot db)))"
    using accept_safe [OF assms c4] unfolding c4 by simp
qed

lemma invitation_writes_safe_witness:
  "\<exists>o'. step_safe o' demo_db (fst (snd (accept
     \<lparr>ie_env = demo_env, ie_hash = (\<lambda>t. t), ie_bytes = [], ie_newId = js ''m9'', ie_createdAt = 50,
      ie_pendingCap = 100, ie_webAppBaseUrl = []\<rparr> (js ''dan'') (js ''t1'') demo_db demo_db)))"
  using invitation_writes_safe [OF demo_db_ok] by blast

section \<open>Removed members and older links\<close>

lemma accept_tx_revoked:
  assumes rev: "revoked_row o' (acu_id acceptor) t db"
    and old: "\<And>i. i \<in> set (db_invitations db) \<Longrightarrow> inv_org i = o' \<Longrightarrow> inv_tokenHash i = h \<Longrightarrow> inv_tokenIssuedAt i \<le> t"
    and tx: "accept_tx env o' acceptor h db = Inr (r, db')"
  shows "(\<exists>refusal masked. r = Accept_refused refusal masked) \<and> db_memberships db' = db_memberships db"
proof -
  have no: "\<not> may_join (membership_of o' (acu_id acceptor) db) (inv_tokenIssuedAt i)"
    if "find_scoped inv_org o' (\<lambda>i. inv_tokenHash i = h) (db_invitations db) = Some i" for i
  proof -
    have le: "inv_tokenIssuedAt i \<le> t" using find_scoped_SomeD [OF that] old by blast
    show ?thesis
    proof (cases "membership_of o' (acu_id acceptor) db")
      case None
      with rev show ?thesis by (auto simp: revoked_row_def membership_of_def dest: find_scoped_NoneD)
    next
      case (Some m)
      from find_scoped_SomeD [OF this [unfolded membership_of_def]] rev
      have "mem_revokedAt m = Some t" by (simp add: revoked_row_def)
      with le show ?thesis by (simp add: Some may_join_def)
    qed
  qed
  from accept_tx_result [OF tx] show ?thesis
  proof (elim disjE exE conjE)
    fix i assume r: "r = Accept_refused (Decided AccAlreadyMember) None"
      and u: "update_invitation o' (inv_id i)
          (\<lambda>x. x\<lparr>inv_status := SCancelled, inv_cancelledAt := Some (se_now (ie_env env))\<rparr>) db = Inr db'"
    show ?thesis by (simp add: r update_invitation_result(1) [OF u])
  qed (use no in simp_all)
qed

lemma revoked_row_other_org:
  assumes "outside_unchanged a db db'" and "o' \<noteq> a" and "revoked_row o' u t db"
  shows "revoked_row o' u t db'"
proof -
  have "x \<in> set (db_memberships db') \<and> mem_org x = o' \<longleftrightarrow> x \<in> set (db_memberships db) \<and> mem_org x = o'" for x
  proof -
    have "set (other_orgs mem_org a (db_memberships db')) = set (other_orgs mem_org a (db_memberships db))"
      using assms(1) by (simp add: outside_unchanged_def)
    then show ?thesis using assms(2) by (auto simp: other_orgs_def)
  qed
  then have e: "{x \<in> set (db_memberships db'). mem_org x = o'} = {x \<in> set (db_memberships db). mem_org x = o'}"
    by blast
  have r: "revoked_row o' u t d \<longleftrightarrow>
      (\<exists>m \<in> {x \<in> set (db_memberships d). mem_org x = o'}. mem_userId m = u) \<and>
      (\<forall>m \<in> {x \<in> set (db_memberships d). mem_org x = o'}. mem_userId m = u \<longrightarrow>
         mem_status m = MRevoked \<and> mem_revokedAt m = Some t)" for d
    unfolding revoked_row_def by auto
  from assms(3) show ?thesis unfolding r e .
qed

lemma accept_keeps_revoked:
  assumes ok: "db_ok db" and rev: "revoked_row o' u t db"
    and old: "\<And>i. i \<in> set (db_invitations db) \<Longrightarrow> inv_org i = o' \<Longrightarrow>
      inv_tokenHash i = hashInvitationToken env token \<Longrightarrow> inv_tokenIssuedAt i \<le> t"
    and a: "accept env u token snapshot db = (r, db', evs)"
  shows "revoked_row o' u t db'"
proof -
  have id: "acu_id acceptor = u" if "findAcceptor u snapshot = Some acceptor" for acceptor
    using that by (auto simp: findAcceptor_def dest: find_SomeD)
  have tx: "revoked_row o' u t db'" if f: "findAcceptor u snapshot = Some acceptor"
    and t: "accept_tx env a acceptor (hashInvitationToken env token) db = Inr (x, db')" for a acceptor x
  proof (cases "a = o'")
    case True
    have r: "revoked_row o' (acu_id acceptor) t db" using rev id [OF f] by simp
    have "db_memberships db' = db_memberships db"
      by (rule conjunct2, rule accept_tx_revoked [OF r _ t [unfolded True]]) (rule old)
    with rev show ?thesis by (simp add: revoked_row_def)
  next
    case False
    from accept_tx_safe [OF ok t] have "outside_unchanged a db db'" by (simp add: step_safe_def)
    then show ?thesis by (rule revoked_row_other_org [OF _ _ rev]) (use False in simp)
  qed
  from accept_cases [OF a] have "db' = db \<or>
      (\<exists>a acceptor x. findAcceptor u snapshot = Some acceptor \<and>
         accept_tx env a acceptor (hashInvitationToken env token) db = Inr (x, db'))"
    by (elim disjE exE conjE) iprover+
  with tx rev show ?thesis by auto
qed

lemma cancel_step_hashes:
  assumes "cancel_step o' t ids db = Inr db'"
  shows "map inv_tokenHash (db_invitations db') = map inv_tokenHash (db_invitations db)"
proof (cases "ids = []")
  case False
  with assms have "updateMany_invitations o' (\<lambda>i. List.member ids (inv_id i))
      (\<lambda>i. i\<lparr>inv_status := SCancelled, inv_cancelledAt := Some t\<rparr>) db = Inr db'" by (simp add: cancel_step_def)
  from updateMany_result [OF this] show ?thesis by (simp add: map_update_scoped)
qed (use assms in \<open>simp add: cancel_step_def\<close>)

lemma revoke_tx_writes:
  "revoke_tx now o' a t db = Inr (rv, db') \<Longrightarrow> \<exists>email. writeRevocation now o' t email a db = Inr (rv, db')"
  by (erule revoke_tx_ok) blast

lemma revoke_keeps_hashes:
  assumes "revoke_tx now o' a t db = Inr (rv, db')"
  shows "map inv_tokenHash (db_invitations db') = map inv_tokenHash (db_invitations db)"
proof -
  obtain email where w: "writeRevocation now o' t email a db = Inr (rv, db')"
    using revoke_tx_writes [OF assms] by blast
  then obtain db1 where u: "update_membership o' t (member_write (SetRevoked t now a)) db = Inr db1"
    and c: "cancel_step o' now (pending_ids o' email db1) db1 = Inr db'"
    by (auto simp: writeRevocation_steps rbind_Inr_iff)
  from update_membership_write [of o' "SetRevoked t now a"] u have "db1 = apply_write o' (SetRevoked t now a) db" by simp
  with cancel_step_hashes [OF c] show ?thesis by (simp add: apply_write_def)
qed

text \<open>
  C20: A removed member cannot come back on an older link. After a removal, an acceptance by the
  removed account leaves it removed whenever no link of that organization with this token was
  issued after the removal, whatever the clock, the account's addresses, and whatever the lookup
  before the lock saw: an acceptance racing the removal loses.
\<close>

theorem removed_member_needs_new_link:
  assumes "db_ok db" and "revoke env (Some c) t db = (Inr res, db1, evs)"
    and "\<And>i. i \<in> set (db_invitations db1) \<Longrightarrow> inv_org i = ctx_organizationId c \<Longrightarrow>
      inv_tokenHash i = hashInvitationToken ienv token \<Longrightarrow> inv_tokenIssuedAt i \<le> se_now env"
    and "accept ienv t token snapshot db1 = (r, db2, evs2)"
  shows "revoked_row (ctx_organizationId c) t (se_now env) db2"
proof -
  from revoke_commits [OF assms(2)] obtain u rv
    where tx: "revoke_tx (se_now env) (ctx_organizationId c) u t db = Inr (rv, db1)" by auto
  from revoke_tx_ok [OF tx] obtain d where d: "readActiveMembership (ctx_organizationId c) t db = Inr (Some d)"
    and g: "assertOwnerRemainsInTx (ctx_organizationId c) (Revoke t) db = Inr ()"
    and w: "writeRevocation (se_now env) (ctx_organizationId c) t (md_email d) u db = Inr (rv, db1)" by metis
  note safe = revocation_safe [OF assms(1) d g w]
  have "db_ok db1" using safe(1) by (simp add: membership_change_safe_def)
  then show ?thesis using safe(2) assms(3,4) by (rule accept_keeps_revoked)
qed

definition demo_ienv :: InvitationEnv where
  "demo_ienv = \<lparr>ie_env = demo_env, ie_hash = (\<lambda>t. t), ie_bytes = replicate 32 7, ie_newId = js ''n9'', ie_createdAt = 50,
     ie_pendingCap = 100, ie_webAppBaseUrl = []\<rparr>"

text \<open>Bob is removed while an invitation for his own address is pending, which his request had looked up before.\<close>

lemma removed_member_needs_new_link_witness:
  "\<exists>res db1 evs. revoke demo_env (Some (demo_ctx ''ann'')) (js ''bob'') demo_twice = (Inr res, db1, evs) \<and>
     (\<exists>i \<in> set (db_invitations demo_twice). inv_tokenHash i = hashInvitationToken demo_ienv (js ''t1'') \<and>
        inv_email i = usr_email (demo_user ''bob'') \<and> pending i) \<and>
     (case accept demo_ienv (js ''bob'') (js ''t1'') demo_twice db1 of (r, db2, evs2) \<Rightarrow>
        revoked_row (js ''o1'') (js ''bob'') 50 db2)"
proof -
  obtain res db1 evs where r: "revoke demo_env (Some (demo_ctx ''ann'')) (js ''bob'') demo_twice = (Inr res, db1, evs)"
    using demo_revoke_twice by blast
  obtain r2 db2 evs2 where a: "accept demo_ienv (js ''bob'') (js ''t1'') demo_twice db1 = (r2, db2, evs2)"
    by (rule prod_cases3)
  have n: "inv_tokenIssuedAt i = 10" if "i \<in> set (db_invitations db1)" for i
  proof -
    from revoke_commits [OF r] obtain u rv where tx: "revoke_tx 50 (js ''o1'') u (js ''bob'') demo_twice = Inr (rv, db1)"
      by (auto simp: demo_env_def)
    from revoke_tx_ok [OF tx] obtain e where "writeRevocation 50 (js ''o1'') (js ''bob'') e u demo_twice = Inr (rv, db1)"
      by metis
    from writeRevocation_result [OF demo_twice_ok this] that show ?thesis
      by (auto simp: demo_twice_def demo_invitation_def)
  qed
  have "revoked_row (ctx_organizationId (demo_ctx ''ann'')) (js ''bob'') (se_now demo_env) db2"
    by (rule removed_member_needs_new_link [OF demo_twice_ok r _ a]) (use n in \<open>auto simp: demo_env_def\<close>)
  moreover have "\<exists>i \<in> set (db_invitations demo_twice). inv_tokenHash i = hashInvitationToken demo_ienv (js ''t1'') \<and>
      inv_email i = usr_email (demo_user ''bob'') \<and> pending i"
    by (simp add: demo_twice_def demo_invitation_def pending_def hashInvitationToken_def demo_ienv_def)
  ultimately show ?thesis using r a by (auto simp: demo_env_def)
qed

section \<open>Authority over links\<close>

lemma inviter_facts:
  assumes "readInviterCapabilities o' u db = Inr caps"
  shows "\<exists>m :: Membership. m \<in> set (db_memberships db) \<and> mem_org m = o' \<and> mem_userId m = u \<and>
    mem_status m = MActive \<and> caps = role_caps db o' (mem_roleId m)"
proof -
  from assms obtain m where f: "find_scoped mem_org o' (\<lambda>m. mem_userId m = u \<and> mem_status m = MActive)
      (db_memberships db) = Some m" and c: "\<exists>r. member_role db m = Some r \<and> caps = role_capabilities r"
    by (auto simp: readInviterCapabilities_def split: option.splits)
  from find_scoped_SomeD [OF f] have m: "m \<in> set (db_memberships db)" "mem_org m = o'" "mem_userId m = u"
    "mem_status m = MActive" by auto
  with c have "caps = role_caps db o' (mem_roleId m)" by (auto simp: member_role_def role_caps_def)
  with m show ?thesis by blast
qed

lemma canAssign_new_role:
  "canAssignRole \<lparr>car_actorCapabilities = caps, car_targetIsOwner = False, car_newRoleIsOwner = b\<rparr> \<longleftrightarrow>
     (if b then isOwnerRole caps else hasCapability caps CAPABILITY_MANAGE_MEMBERS)"
  by (auto simp: canAssignRole_def hasCapability_full_iff)

lemma role_caps_of:
  "find_scoped role_org o' (\<lambda>r. role_id r = x) (db_roles db) = Some role \<Longrightarrow> role_caps db o' x = role_capabilities role"
  by (simp add: role_caps_def find_scoped_def)

lemma invitation_role_caps:
  "invitation_role db i = Some role \<Longrightarrow> role_caps db (inv_org i) (inv_roleId i) = role_capabilities role"
  by (simp add: role_caps_def invitation_role_def)

lemma invitation_key_unique:
  assumes "db_ok db" and "x \<in> set (db_invitations db)" "y \<in> set (db_invitations db)"
  shows "inv_id x = inv_id y \<Longrightarrow> x = y" "inv_tokenHash x = inv_tokenHash y \<Longrightarrow> x = y"
  using assms by (auto simp: db_ok_def invitations_unique_def unique_by_def distinct_map inj_on_def)

text \<open>A link that a call has put into the database.\<close>

definition issued_by :: "jstring \<Rightarrow> jstring \<Rightarrow> int \<Rightarrow> OrgDb \<Rightarrow> Invitation \<Rightarrow> bool" where
  "issued_by o' u now db x \<longleftrightarrow>
     inv_org x = o' \<and> inv_tokenIssuedAt x = now \<and>
     (\<exists>m \<in> set (db_memberships db). mem_org m = o' \<and> mem_userId m = u \<and> mem_status m = MActive \<and>
        (let caps = role_caps db o' (mem_roleId m); granted = role_caps db o' (inv_roleId x)
         in (if isOwnerRole granted then isOwnerRole caps else hasCapability caps CAPABILITY_MANAGE_MEMBERS) \<and>
            inv_expiresAt x = invitationExpiryFrom now (invitationTtlHours granted)))"

lemma create_tx_issues:
  assumes "create_tx env email roleId o' u db = Inr (y, db')"
  shows "\<exists>x. db_invitations db' = db_invitations db @ [x] \<and> issued_by o' u (se_now (ie_env env)) db x \<and>
    inv_email x = email \<and> inv_roleId x = roleId \<and> pending x \<and>
    inv_tokenHash x = hashInvitationToken env (generateInvitationToken env) \<and> snd y = generateInvitationToken env"
proof -
  obtain s token where y: "y = (s, token)" by (cases y)
  from create_tx_ok [OF assms [unfolded y]] obtain role caps where
    r: "find_scoped role_org o' (\<lambda>r. role_id r = roleId) (db_roles db) = Some role"
    and c: "readInviterCapabilities o' u db = Inr caps"
    and can: "canAssignRole \<lparr>car_actorCapabilities = caps, car_targetIsOwner = False,
      car_newRoleIsOwner = isOwnerRole (role_capabilities role)\<rparr>"
    and t: "token = generateInvitationToken env"
    and i: "insert_invitation (new_invitation env o' u email role token) db = Inr db'" by blast
  let ?x = "new_invitation env o' u email role token"
  have "issued_by o' u (se_now (ie_env env)) db ?x"
    using inviter_facts [OF c] can role_caps_of [OF r] find_scoped_SomeD [OF r]
    unfolding issued_by_def canAssign_new_role by (auto simp: new_invitation_def Let_def)
  moreover have "db_invitations db' = db_invitations db @ [?x]"
    by (simp add: insert_invitation_result(1) [OF i])
  ultimately show ?thesis
    using find_scoped_SomeD [OF r]
    by (intro exI [of _ ?x]) (simp add: new_invitation_def pending_def Let_def t y)
qed

lemma reissue_tx_issues:
  assumes ok: "db_ok db" and "reissueLink_tx env i o' u db = Inr (y, db')"
  shows "\<exists>x x'. x \<in> set (db_invitations db) \<and> inv_id x = i \<and> inv_org x = o' \<and> pending x \<and>
    db_invitations db' = map (\<lambda>j. if inv_id j = i then x' else j) (db_invitations db) \<and>
    issued_by o' u (se_now (ie_env env)) db x' \<and> fst y = x' \<and>
    x' = x\<lparr>inv_tokenHash := hashInvitationToken env (generateInvitationToken env),
           inv_tokenIssuedAt := se_now (ie_env env), inv_expiresAt := inv_expiresAt x'\<rparr> \<and>
    snd y = generateInvitationToken env"
proof -
  let ?now = "se_now (ie_env env)" and ?h = "hashInvitationToken env (generateInvitationToken env)"
  obtain row token where y: "y = (row, token)" by (cases y)
  from reissueLink_tx_ok [OF assms(2) [unfolded y]] obtain x role caps where
    x: "find_invitation o' i db = Some x" and r: "invitation_role db x = Some role" and st: "inv_status x = SPending"
    and c: "readInviterCapabilities o' u db = Inr caps"
    and can: "canAssignRole \<lparr>car_actorCapabilities = caps, car_targetIsOwner = False,
      car_newRoleIsOwner = isOwnerRole (role_capabilities role)\<rparr>"
    and t: "token = generateInvitationToken env"
    and up: "update_invitation o' i (\<lambda>x. x\<lparr>inv_tokenHash := hashInvitationToken env token,
      inv_tokenIssuedAt := ?now, inv_expiresAt := invitationExpiryFrom ?now (invitationTtlHours (role_capabilities role))\<rparr>) db = Inr db'"
    and row: "find_invitation o' i db' = Some row" by blast
  let ?f = "\<lambda>x. x\<lparr>inv_tokenHash := ?h, inv_tokenIssuedAt := ?now,
      inv_expiresAt := invitationExpiryFrom ?now (invitationTtlHours (role_capabilities role))\<rparr>"
  from find_scoped_SomeD [OF x [unfolded find_invitation_def]]
  have xs: "x \<in> set (db_invitations db)" "inv_org x = o'" "inv_id x = i" by auto
  have only: "j = x" if "j \<in> set (db_invitations db)" "inv_id j = i" for j
    using invitation_key_unique(1) [OF ok that(1) xs(1)] that(2) xs(3) by simp
  have d: "db_invitations db' = map (\<lambda>j. if inv_id j = i then ?f x else j) (db_invitations db)"
    unfolding update_invitation_result(1) [OF up] t put_invitations_reads update_scoped_def
  proof (rule map_cong [OF refl])
    fix j assume j: "j \<in> set (db_invitations db)"
    show "(if inv_org j = o' \<and> inv_id j = i then ?f j else j) = (if inv_id j = i then ?f x else j)"
    proof (cases "inv_id j = i")
      case True
      with only [OF j] xs(2) show ?thesis by simp
    qed simp
  qed
  have rw: "row \<in> set (db_invitations db')" "inv_id row = i"
    using find_scoped_SomeD [OF row [unfolded find_invitation_def]] by auto
  from rw(1) obtain j where j: "row = (if inv_id j = i then ?f x else j)"
    unfolding d set_map by blast
  have "row = ?f x"
  proof (cases "inv_id j = i")
    case False
    then have "row = j" using j by simp
    with rw(2) False show ?thesis by simp
  qed (use j in simp)
  moreover have "issued_by o' u ?now db (?f x)"
    using inviter_facts [OF c] can invitation_role_caps [OF r] xs(2)
    unfolding issued_by_def canAssign_new_role by auto
  ultimately show ?thesis using d xs st t y
    by (intro exI [of _ x] exI [of _ "?f x"]) (simp add: pending_def)
qed

text \<open>
  Who hands out links. Every link that creating an invitation or rotating a link puts into
  the database is for the caller's organization, was issued at the instant of the call by an
  active member of it who may manage members, and by an Owner if the link grants an Owner role;
  it lives 24 hours when the role is elevated and seven days otherwise, also after a rotation.
\<close>

theorem links_come_from_authority:
  assumes "db_ok db"
    and "d = fst (snd (create env (Some c) email roleId db)) \<or> d = fst (snd (reissueLink env (Some c) i db))"
    and "x \<in> set (db_invitations d)" and "inv_tokenHash x \<notin> inv_tokenHash ` set (db_invitations db)"
  shows "\<exists>u. ctx_userId c = Some u \<and> issued_by (ctx_organizationId c) u (se_now (ie_env env)) db x"
proof -
  obtain r1 d1 e1 where c1: "create env (Some c) email roleId db = (r1, d1, e1)" by (rule prod_cases3)
  obtain r2 d2 e2 where c2: "reissueLink env (Some c) i db = (r2, d2, e2)" by (rule prod_cases3)
  have new: "x \<notin> set (db_invitations db)" using assms(4) by auto
  from assms(2) show ?thesis
  proof
    assume "d = fst (snd (create env (Some c) email roleId db))"
    then have "d = d1" by (simp add: c1)
    with create_cases [OF c1] new assms(3) obtain u y where u: "caller c u"
      and t: "create_tx env (normalizeEmail (se_lower (ie_env env)) email) roleId (ctx_organizationId c) u db = Inr (y, d1)"
      by blast
    from create_tx_issues [OF t] new assms(3) u \<open>d = d1\<close> show ?thesis by (auto simp: caller_def)
  next
    assume "d = fst (snd (reissueLink env (Some c) i db))"
    then have "d = d2" by (simp add: c2)
    with reissue_cases [OF c2] new assms(3) obtain u y where u: "caller c u"
      and t: "reissueLink_tx env i (ctx_organizationId c) u db = Inr (y, d2)"
      by blast
    from reissue_tx_issues [OF assms(1) t] new assms(3) u \<open>d = d2\<close> show ?thesis by (auto simp: caller_def)
  qed
qed

lemma create_succeeds:
  assumes "may_run (ie_env env) c o' u db"
    and "isValidEmailShape (normalizeEmail (se_lower (ie_env env)) email)"
    and "mask_thrown (maskEmail (se_lower (ie_env env)) (normalizeEmail (se_lower (ie_env env)) email)) = Inr m"
    and "create_tx env (normalizeEmail (se_lower (ie_env env)) email) roleId o' u db = Inr ((s, token), db')"
  shows "\<exists>res evs. create env (Some c) email roleId db = (Inr res, db', evs) \<and> iss_token res = token"
proof -
  have p: "prologue (Some c) = Inr (o', u)" using assms(1) by (simp add: prologue_ok may_run_def)
  from create_tx_ok [OF assms(4)] have t: "token = generateInvitationToken env" by blast
  show ?thesis unfolding create_def Let_def p using assms(2,3)
    by (simp add: also_return_def inviteUrl_generated t
        in_org_succeeds [where body = "create_tx env (normalizeEmail (se_lower (ie_env env)) email) roleId",
          OF assms(1) assms(4)])
qed

lemma demo_token: "generateInvitationToken demo_ienv \<noteq> js ''t1''"
proof -
  have "length (generateInvitationToken demo_ienv) \<ge> 32"
    using base64url_length [of "replicate 32 7"]
    by (simp add: generateInvitationToken_def demo_ienv_def INVITATION_TOKEN_BYTES_def)
  then show ?thesis by (auto simp: js_def)
qed

lemma demo_create:
  "\<exists>res db' evs. create demo_ienv (Some (demo_ctx ''ann'')) (js ''eve@x.co'') (js ''r3'') demo_db = (Inr res, db', evs)"
proof -
  have low: "se_lower (ie_env demo_ienv) = ascii_lower" by (simp add: demo_ienv_def demo_env_def)
  have n: "normalizeEmail ascii_lower (js ''eve@x.co'') = js ''eve@x.co''"
    by (simp add: normalizeEmail_def trim_def is_space_def ascii_lower_def js_def)
  have v: "isValidEmailShape (js ''eve@x.co'')"
    by (simp add: isValidEmailShape_def char_at_def char_dot_def is_space_def js_def)
  have m: "\<exists>m. maskEmail ascii_lower (js ''eve@x.co'') = Inr m"
    using maskEmail_split [of ascii_lower "js ''eve@x.co''" "js ''eve''" "js ''x.co''"] n
    by (auto simp: js_def char_at_def)
  have run: "may_run (ie_env demo_ienv) (demo_ctx ''ann'') (js ''o1'') (js ''ann'') demo_db"
    using demo_may_run [of "''ann''"] by (simp add: demo_ienv_def)
  have "\<exists>s db'. create_tx demo_ienv (js ''eve@x.co'') (js ''r3'') (js ''o1'') (js ''ann'') demo_db =
      Inr ((s, generateInvitationToken demo_ienv), db')"
    using demo_token
    by (simp add: create_tx_def readRole_def readInviterCapabilities_def assertNotAlreadyMember_def
        assertNoPendingInvitation_def assertPendingCapNotReached_def live_invitations_def has_email_def
        new_invitation_def hashInvitationToken_def insert_invitation_def write_invitations_def
        invitations_unique_def unique_by_def select_invitation_def invitation_role_def pending_def
        read_defs authz_eval demo_db_def demo_rows js_append org_fk_def role_fk_def put_invitations_def
        demo_ienv_def demo_env_def)
  then obtain s db' where "create_tx demo_ienv (js ''eve@x.co'') (js ''r3'') (js ''o1'') (js ''ann'') demo_db =
      Inr ((s, generateInvitationToken demo_ienv), db')" by blast
  moreover from m obtain k where "maskEmail ascii_lower (js ''eve@x.co'') = Inr k" by blast
  ultimately have "\<exists>res evs. create demo_ienv (Some (demo_ctx ''ann'')) (js ''eve@x.co'') (js ''r3'') demo_db =
      (Inr res, db', evs) \<and> iss_token res = generateInvitationToken demo_ienv"
    by (intro create_succeeds [OF run, where m = k and s = s]) (simp_all add: low n v mask_thrown_def)
  then show ?thesis by blast
qed

lemma links_come_from_authority_witness:
  "\<exists>res d evs. create demo_ienv (Some (demo_ctx ''ann'')) (js ''eve@x.co'') (js ''r3'') demo_db = (Inr res, d, evs) \<and>
     (\<exists>x. x \<in> set (db_invitations d) \<and> issued_by (js ''o1'') (js ''ann'') 50 demo_db x)"
proof -
  let ?call = "create demo_ienv (Some (demo_ctx ''ann'')) (js ''eve@x.co'') (js ''r3'') demo_db"
  obtain res d evs where c: "?call = (Inr res, d, evs)" using demo_create by blast
  from create_cases [OF c] obtain u s token where
    "create_tx demo_ienv (normalizeEmail (se_lower (ie_env demo_ienv)) (js ''eve@x.co'')) (js ''r3'') (js ''o1'') u demo_db =
      Inr ((s, token), d)" by auto
  from create_tx_issues [OF this] obtain x where x: "db_invitations d = db_invitations demo_db @ [x]"
    "inv_tokenHash x = hashInvitationToken demo_ienv (generateInvitationToken demo_ienv)" by blast
  have new: "inv_tokenHash x \<notin> inv_tokenHash ` set (db_invitations demo_db)"
    using demo_token by (auto simp: x(2) hashInvitationToken_def demo_ienv_def demo_db_def demo_rows)
  have "\<exists>u. ctx_userId (demo_ctx ''ann'') = Some u \<and>
      issued_by (ctx_organizationId (demo_ctx ''ann'')) u (se_now (ie_env demo_ienv)) demo_db x"
    by (rule links_come_from_authority [OF demo_db_ok _ _ new, where d = d and i = "[]" and
        email = "js ''eve@x.co''" and roleId = "js ''r3''"]) (simp_all add: c x(1))
  then show ?thesis using c x(1) by (auto simp: demo_ienv_def demo_env_def)
qed

section \<open>What creating an invitation guarantees\<close>

text \<open>
  What a created invitation is. The invitation is for the normalized address, which has the
  shape the sign-up form accepts; nobody with that address was an active member and no other
  invitation of the organization for it was pending; with it at most the configured number of
  invitations of the organization are pending and live; no membership changed; and the database
  stores the hash of the token returned, not the token.
\<close>

theorem create_effect:
  assumes "create env (Some c) email roleId db = (Inr res, db', evs)"
  shows "\<exists>x. db_invitations db' = db_invitations db @ [x] \<and> db_memberships db' = db_memberships db \<and>
    pending x \<and> inv_org x = ctx_organizationId c \<and> inv_roleId x = roleId \<and>
    inv_email x = normalizeEmail (se_lower (ie_env env)) email \<and> isValidEmailShape (inv_email x) \<and>
    inv_tokenHash x = hashInvitationToken env (iss_token res) \<and>
    (\<nexists>m. m \<in> set (db_memberships db) \<and> mem_org m = inv_org x \<and> mem_status m = MActive \<and> has_email db (inv_email x) m) \<and>
    (\<nexists>y. y \<in> set (db_invitations db) \<and> inv_org y = inv_org x \<and> inv_email y = inv_email x \<and> pending y) \<and>
    length (live_invitations (inv_org x) (se_now (ie_env env)) db') \<le> ie_pendingCap env"
proof -
  let ?o = "ctx_organizationId c" and ?now = "se_now (ie_env env)"
  from create_cases [OF assms] obtain u s token where v: "isValidEmailShape (normalizeEmail (se_lower (ie_env env)) email)"
    and t: "create_tx env (normalizeEmail (se_lower (ie_env env)) email) roleId ?o u db = Inr ((s, token), db')"
    and tok: "iss_token res = token" by auto
  from create_tx_ok [OF t] obtain role where
    r: "find_scoped role_org ?o (\<lambda>r. role_id r = roleId) (db_roles db) = Some role"
    and m: "assertNotAlreadyMember ?o (normalizeEmail (se_lower (ie_env env)) email) db = Inr ()"
    and cap: "length (live_invitations ?o ?now db) < ie_pendingCap env"
    and i: "insert_invitation (new_invitation env ?o u (normalizeEmail (se_lower (ie_env env)) email) role token) db = Inr db'"
    by blast
  let ?x = "new_invitation env ?o u (normalizeEmail (se_lower (ie_env env)) email) role token"
  have f: "inv_org ?x = ?o" "inv_email ?x = normalizeEmail (se_lower (ie_env env)) email" "pending ?x"
    "inv_roleId ?x = roleId" "inv_tokenHash ?x = hashInvitationToken env token"
    using find_scoped_SomeD [OF r] by (simp_all add: new_invitation_def Let_def pending_def)
  have d: "db_invitations db' = db_invitations db @ [?x]" "db_memberships db' = db_memberships db"
    by (simp_all add: insert_invitation_result(1) [OF i])
  have "find_scoped inv_org ?o (\<lambda>y. inv_email y = inv_email ?x \<and> pending y) (db_invitations db) = None"
    using t f(2) by (auto simp: create_tx_def rbind_Inr_iff assertNoPendingInvitation_def split: option.splits if_splits)
  then have p: "\<nexists>y. y \<in> set (db_invitations db) \<and> inv_org y = ?o \<and> inv_email y = inv_email ?x \<and> pending y"
    by (blast dest: find_scoped_NoneD)
  from m have mm: "\<nexists>m. m \<in> set (db_memberships db) \<and> mem_org m = ?o \<and> mem_status m = MActive \<and> has_email db (inv_email ?x) m"
    unfolding f(2) by (auto simp: assertNotAlreadyMember_def split: option.splits dest: find_scoped_NoneD)
  have "length (live_invitations ?o ?now db') \<le> ie_pendingCap env"
    using cap by (simp add: live_invitations_def filter_scoped_def d)
  with d f v p mm tok show ?thesis by (intro exI [of _ ?x]) simp
qed

lemma create_effect_witness:
  "\<exists>res db' evs x. create demo_ienv (Some (demo_ctx ''ann'')) (js ''eve@x.co'') (js ''r3'') demo_db = (Inr res, db', evs) \<and>
     db_invitations db' = db_invitations demo_db @ [x] \<and> length (live_invitations (inv_org x) 50 db') \<le> 100"
proof -
  obtain res db' evs where c: "create demo_ienv (Some (demo_ctx ''ann'')) (js ''eve@x.co'') (js ''r3'') demo_db = (Inr res, db', evs)"
    using demo_create by blast
  from create_effect [OF c] c show ?thesis by (auto simp: demo_ienv_def demo_env_def)
qed

section \<open>Rotation\<close>

text \<open>A token whose hash no row stores opens nothing, whatever the lookup before the lock saw.\<close>

lemma unknown_token:
  assumes "\<forall>x \<in> set (db_invitations db). inv_tokenHash x \<noteq> hashInvitationToken env token"
  shows "preview env token db = Inl (derr E_INVITATION_INVALID)"
    "accept env u token snapshot db = (r, db', evs) \<Longrightarrow> (\<exists>e. r = Inl e) \<and> db' = db \<and> evs = []"
proof -
  have "find (\<lambda>i. inv_tokenHash i = hashInvitationToken env token) (db_invitations db) = None"
    using assms by (simp add: find_None_iff)
  then show "preview env token db = Inl (derr E_INVITATION_INVALID)"
    by (simp add: preview_def findByTokenHash_def)
  have n: "find_scoped inv_org o' (\<lambda>i. inv_tokenHash i = hashInvitationToken env token) (db_invitations db) = None" for o'
    using assms by (auto simp: find_scoped_def find_None_iff)
  then have t: "accept_tx env o' acceptor (hashInvitationToken env token) db = Inr (Accept_refused Invalid_token None, db)"
    for o' acceptor by (simp add: accept_tx_def Let_def)
  assume "accept env u token snapshot db = (r, db', evs)"
  from accept_cases [OF this] show "(\<exists>e. r = Inl e) \<and> db' = db \<and> evs = []"
    unfolding t by auto
qed

text \<open>
  Rotating a link kills the old one at once. After a rotation that succeeds, the row keeps
  its address, role and pending status, stores the hash of the returned token only and restarts
  its clock at the instant of the call; the old token answers the same error as an unknown one
  on preview and opens nothing on acceptance, even for an acceptance whose lookup ran before the
  rotation, provided the new token's hash differs from the old one's.
\<close>

theorem reissue_rotates:
  assumes "db_ok db" and "reissueLink env (Some c) i db = (Inr link, db', evs)"
    and "x \<in> set (db_invitations db)" and "inv_id x = i"
    and "inv_tokenHash x = hashInvitationToken env oldToken"
    and "hashInvitationToken env (rl_token link) \<noteq> inv_tokenHash x"
  shows "preview env oldToken db' = Inl (derr E_INVITATION_INVALID) \<and>
    (case accept env u oldToken snapshot db' of (r, db2, evs2) \<Rightarrow> \<not> is_ok r \<and> db2 = db' \<and> evs2 = []) \<and>
    (\<exists>y \<in> set (db_invitations db'). inv_id y = i \<and> inv_email y = inv_email x \<and> inv_roleId y = inv_roleId x \<and>
       pending y \<and> inv_tokenHash y = hashInvitationToken env (rl_token link) \<and>
       inv_tokenIssuedAt y = se_now (ie_env env) \<and> se_now (ie_env env) < inv_expiresAt y \<and>
       rl_expiresAt link = toISOString (inv_expiresAt y)) \<and>
    [z \<leftarrow> db_invitations db'. inv_id z \<noteq> i] = [z \<leftarrow> db_invitations db. inv_id z \<noteq> i] \<and>
    db_memberships db' = db_memberships db"
proof -
  from reissue_cases [OF assms(2)] obtain w row token where
    t: "reissueLink_tx env i (ctx_organizationId c) w db = Inr ((row, token), db')"
    and l: "rl_token link = token" "rl_expiresAt link = toISOString (inv_expiresAt row)" by auto
  from reissue_tx_issues [OF assms(1) t] obtain x0 x' where
    x0: "x0 \<in> set (db_invitations db)" "inv_id x0 = i" "pending x0"
    and d: "db_invitations db' = map (\<lambda>j. if inv_id j = i then x' else j) (db_invitations db)"
    and iss: "issued_by (ctx_organizationId c) w (se_now (ie_env env)) db x'" and row: "row = x'"
    and x': "x' = x0\<lparr>inv_tokenHash := hashInvitationToken env (generateInvitationToken env),
           inv_tokenIssuedAt := se_now (ie_env env), inv_expiresAt := inv_expiresAt x'\<rparr>"
    and tok: "token = generateInvitationToken env" by auto
  have "x0 = x" using invitation_key_unique(1) [OF assms(1) x0(1) assms(3)] x0(2) assms(4) by simp
  then have f: "inv_id x' = i" "inv_email x' = inv_email x" "inv_roleId x' = inv_roleId x" "pending x'"
    "inv_tokenHash x' = hashInvitationToken env (rl_token link)" "inv_tokenIssuedAt x' = se_now (ie_env env)"
    using x0 by (subst x'; simp add: l tok pending_def)+
  have "x' \<in> set (db_invitations db')" unfolding d using assms(3,4) by auto
  moreover have "se_now (ie_env env) < inv_expiresAt x'"
    using iss expiry_after_issue by (auto simp: issued_by_def Let_def)
  ultimately have new: "\<exists>y \<in> set (db_invitations db'). inv_id y = i \<and> inv_email y = inv_email x \<and> inv_roleId y = inv_roleId x \<and>
       pending y \<and> inv_tokenHash y = hashInvitationToken env (rl_token link) \<and>
       inv_tokenIssuedAt y = se_now (ie_env env) \<and> se_now (ie_env env) < inv_expiresAt y \<and>
       rl_expiresAt link = toISOString (inv_expiresAt y)"
    using f l(2) row by blast
  have gone: "inv_tokenHash y \<noteq> hashInvitationToken env oldToken" if y: "y \<in> set (db_invitations db')" for y
  proof -
    from y obtain j where j: "j \<in> set (db_invitations db)" "y = (if inv_id j = i then x' else j)" unfolding d by auto
    show ?thesis
    proof (cases "inv_id j = i")
      case True
      with j f(5) assms(5,6) show ?thesis by simp
    next
      case False
      then have "inv_tokenHash j \<noteq> inv_tokenHash x"
        using invitation_key_unique(2) [OF assms(1) j(1) assms(3)] assms(4) by auto
      with False j(2) assms(5) show ?thesis by simp
    qed
  qed
  have rest: "[z \<leftarrow> map (\<lambda>j. if inv_id j = i then x' else j) rows. inv_id z \<noteq> i] = [z \<leftarrow> rows. inv_id z \<noteq> i]" for rows
    using f(1) by (induction rows) auto
  have mem: "db_memberships db' = db_memberships db"
    using reissueLink_tx_ok [OF t] by (auto dest: update_invitation_result(1))
  obtain r2 db2 evs2 where a: "accept env u oldToken snapshot db' = (r2, db2, evs2)" by (rule prod_cases3)
  have "\<forall>y \<in> set (db_invitations db'). inv_tokenHash y \<noteq> hashInvitationToken env oldToken" using gone by blast
  from unknown_token(1) [OF this] unknown_token(2) [OF this a] new mem
  show ?thesis by (auto simp: a d rest)
qed

lemma demo_reissue:
  "\<exists>link db' evs. reissueLink demo_ienv (Some (demo_ctx ''ann'')) (js ''i1'') demo_db = (Inr link, db', evs) \<and>
     rl_token link = generateInvitationToken demo_ienv"
proof -
  have run: "may_run (ie_env demo_ienv) (demo_ctx ''ann'') (js ''o1'') (js ''ann'') demo_db"
    using demo_may_run [of "''ann''"] by (simp add: demo_ienv_def)
  have "\<exists>row db'. reissueLink_tx demo_ienv (js ''i1'') (js ''o1'') (js ''ann'') demo_db =
      Inr ((row, generateInvitationToken demo_ienv), db')"
    using demo_token
    by (simp add: reissueLink_tx_def find_invitation_def select_invitation_def invitation_role_def
        readInviterCapabilities_def update_invitation_def hashInvitationToken_def write_invitations_def
        invitations_unique_def unique_by_def pending_def update_scoped_def read_defs authz_eval demo_db_def
        demo_rows org_fk_def role_fk_def put_invitations_def demo_ienv_def demo_env_def)
  then obtain row db' where t: "reissueLink_tx demo_ienv (js ''i1'') (js ''o1'') (js ''ann'') demo_db =
      Inr ((row, generateInvitationToken demo_ienv), db')" by blast
  show ?thesis unfolding reissueLink_def
    by (simp add: also_return_def inviteUrl_generated
        in_org_succeeds [where body = "reissueLink_tx demo_ienv (js ''i1'')", OF run t])
qed

lemma reissue_rotates_witness:
  "\<exists>link db' evs. reissueLink demo_ienv (Some (demo_ctx ''ann'')) (js ''i1'') demo_db = (Inr link, db', evs) \<and>
     preview demo_ienv (js ''t1'') db' = Inl (derr E_INVITATION_INVALID)"
proof -
  obtain link db' evs where r: "reissueLink demo_ienv (Some (demo_ctx ''ann'')) (js ''i1'') demo_db = (Inr link, db', evs)"
    and t: "rl_token link = generateInvitationToken demo_ienv" using demo_reissue by blast
  have h: "inv_tokenHash demo_invitation = hashInvitationToken demo_ienv (js ''t1'')"
    "hashInvitationToken demo_ienv (rl_token link) \<noteq> inv_tokenHash demo_invitation"
    using demo_token by (simp_all add: t) (simp_all add: demo_invitation_def hashInvitationToken_def demo_ienv_def)
  have i: "demo_invitation \<in> set (db_invitations demo_db)" "inv_id demo_invitation = js ''i1''"
    by (simp_all add: demo_db_def demo_invitation_def)
  from reissue_rotates [OF demo_db_ok r i h] r show ?thesis by blast
qed

section \<open>Acceptance\<close>

lemma member_rows:
  assumes "db_ok db" and "y \<in> set (db_memberships db)" "mem_org y = o'" "mem_userId y = u"
  shows "[m \<leftarrow> db_memberships db. mem_org m = o' \<and> mem_userId m = u] = [y]"
proof -
  have "filter (\<lambda>m. f m = f y) rows = [y]" if "distinct (map f rows)" "y \<in> set rows"
    for f :: "Membership \<Rightarrow> jstring \<times> jstring" and rows
    using that
  proof (induction rows)
    case (Cons a rows)
    show ?case
    proof (cases "a = y")
      case True
      with Cons.prems have "f y \<notin> f ` set rows" by simp
      then have "filter (\<lambda>m. f m = f y) rows = []" unfolding filter_empty_conv by (metis imageI)
      with True show ?thesis by simp
    next
      case False
      with Cons.prems have "y \<in> set rows" "f a \<noteq> f y" by auto
      with Cons show ?thesis by simp
    qed
  qed simp
  from this [of "\<lambda>m. (mem_org m, mem_userId m)" "db_memberships db"] assms show ?thesis
    by (simp add: db_ok_def memberships_unique_def unique_by_def)
qed

lemma write_acceptance_effect:
  assumes ok: "db_ok db" and i: "i \<in> set (db_invitations db)" "inv_org i = o'"
    and mo: "mo = membership_of o' (acu_id acceptor) db"
    and w: "write_acceptance env o' acceptor i role mo db = Inr (r, db')"
  shows "db_invitations db' = map (\<lambda>j. if inv_id j = inv_id i
        then accepted_invitation (se_now (ie_env env)) acceptor i else j) (db_invitations db)"
    "[m \<leftarrow> db_memberships db'. \<not> (mem_org m = o' \<and> mem_userId m = acu_id acceptor)] =
       [m \<leftarrow> db_memberships db. \<not> (mem_org m = o' \<and> mem_userId m = acu_id acceptor)]"
    "\<exists>m :: Membership. [m \<leftarrow> db_memberships db'. mem_org m = o' \<and> mem_userId m = acu_id acceptor] = [m] \<and>
       mem_status m = MActive \<and> mem_roleId m = role_id role \<and> mem_revokedAt m = None \<and>
       mem_activatedAt m = Some (se_now (ie_env env))"
proof -
  let ?now = "se_now (ie_env env)" and ?u = "acu_id acceptor"
  from write_acceptance_ok [OF w] obtain db1 where m: "if mo \<noteq> None
       then update_membership o' ?u (reactivated ?now (role_id role)) db = Inr db1
       else insert_membership (new_membership env o' ?u (role_id role)) db = Inr db1"
    and u: "update_invitation o' (inv_id i) (accepted_invitation ?now acceptor) db1 = Inr db'"
    by blast
  have m1: "db_memberships db1 = (if mo \<noteq> None
       then update_scoped mem_org o' (\<lambda>m. mem_userId m = ?u) (reactivated ?now (role_id role)) (db_memberships db)
       else db_memberships db @ [new_membership env o' ?u (role_id role)])"
    "db_invitations db1 = db_invitations db"
    using m by (auto simp: update_membership_def insert_membership_def dest!: write_memberships_ok(1) split: if_splits)
  have m2: "db_memberships db' = db_memberships db1" by (simp add: update_invitation_result(1) [OF u])
  show "db_invitations db' = map (\<lambda>j. if inv_id j = inv_id i
        then accepted_invitation ?now acceptor i else j) (db_invitations db)"
    unfolding update_invitation_result(1) [OF u] m1(2) put_invitations_reads update_scoped_def
  proof (rule map_cong [OF refl])
    fix j assume j: "j \<in> set (db_invitations db)"
    show "(if inv_org j = o' \<and> inv_id j = inv_id i then accepted_invitation ?now acceptor j else j) =
      (if inv_id j = inv_id i then accepted_invitation ?now acceptor i else j)"
    proof (cases "inv_id j = inv_id i")
      case True
      from invitation_key_unique(1) [OF ok j i(1) True] i(2) show ?thesis by simp
    qed simp
  qed
  have keys: "mem_org (reactivated ?now x y) = mem_org y" "mem_userId (reactivated ?now x y) = mem_userId y" for x y
    by (simp_all add: reactivated_def)
  show "[m \<leftarrow> db_memberships db'. \<not> (mem_org m = o' \<and> mem_userId m = ?u)] =
       [m \<leftarrow> db_memberships db. \<not> (mem_org m = o' \<and> mem_userId m = ?u)]"
  proof (cases mo)
    case None
    then show ?thesis unfolding m2 m1 by (simp add: new_membership_def)
  next
    case (Some y)
    have "[m \<leftarrow> update_scoped mem_org o' (\<lambda>m. mem_userId m = ?u) (reactivated ?now (role_id role)) ms.
        \<not> (mem_org m = o' \<and> mem_userId m = ?u)] = [m \<leftarrow> ms. \<not> (mem_org m = o' \<and> mem_userId m = ?u)]" for ms
      by (induction ms) (auto simp: update_scoped_def keys)
    with Some show ?thesis unfolding m2 m1 by simp
  qed
  show "\<exists>m :: Membership. [m \<leftarrow> db_memberships db'. mem_org m = o' \<and> mem_userId m = ?u] = [m] \<and>
       mem_status m = MActive \<and> mem_roleId m = role_id role \<and> mem_revokedAt m = None \<and>
       mem_activatedAt m = Some ?now"
  proof (cases mo)
    case None
    then have "[m \<leftarrow> db_memberships db. mem_org m = o' \<and> mem_userId m = ?u] = []"
      by (auto simp: mo membership_of_def filter_empty_conv dest: find_scoped_NoneD)
    with None show ?thesis unfolding m2 m1
      by (intro exI [of _ "new_membership env o' ?u (role_id role)"]) (simp add: new_membership_def)
  next
    case (Some y)
    have y: "y \<in> set (db_memberships db)" "mem_org y = o'" "mem_userId y = ?u"
      using find_scoped_SomeD [OF Some [unfolded mo membership_of_def]] by auto
    have rows: "[m \<leftarrow> db_memberships db. mem_org m = o' \<and> mem_userId m = ?u] = [y]"
      by (rule member_rows [OF ok y])
    have "[m \<leftarrow> update_scoped mem_org o' (\<lambda>m. mem_userId m = ?u) (reactivated ?now (role_id role)) ms.
        mem_org m = o' \<and> mem_userId m = ?u] =
      map (reactivated ?now (role_id role)) [m \<leftarrow> ms. mem_org m = o' \<and> mem_userId m = ?u]" for ms
      by (induction ms) (auto simp: update_scoped_def keys)
    with Some rows show ?thesis unfolding m2 m1
      by (intro exI [of _ "reactivated ?now (role_id role) y"]) (simp add: reactivated_def)
  qed
qed

lemma acceptor_row:
  assumes "findAcceptor u snapshot = Some acceptor"
  shows "\<exists>usr \<in> set (db_users snapshot). usr_id usr = u \<and> acu_id acceptor = u \<and> acu_email acceptor = usr_email usr \<and>
    acu_createdAt acceptor = usr_createdAt usr"
  using assms by (auto simp: findAcceptor_def dest!: find_SomeD)

lemma accept_effect_facts:
  assumes "db_ok db" and "accept env u token snapshot db = (Inr res, db', evs)"
  shows "\<exists>i acceptor. i \<in> set (db_invitations db) \<and> inv_org i = iar_organizationId res \<and>
    inv_tokenHash i = hashInvitationToken env token \<and> pending i \<and> se_now (ie_env env) < inv_expiresAt i \<and>
    (\<exists>usr \<in> set (db_users snapshot). usr_id usr = u \<and>
       normalizeEmail (se_lower (ie_env env)) (usr_email usr) = inv_email i) \<and>
    may_join (membership_of (inv_org i) u db) (inv_tokenIssuedAt i) \<and>
    iar_roleId res = inv_roleId i \<and> iar_status res = MActive \<and> acu_id acceptor = u \<and>
    db_invitations db' = map (\<lambda>j. if inv_id j = inv_id i
      then accepted_invitation (se_now (ie_env env)) acceptor i else j) (db_invitations db) \<and>
    [m \<leftarrow> db_memberships db'. \<not> (mem_org m = inv_org i \<and> mem_userId m = u)] =
      [m \<leftarrow> db_memberships db. \<not> (mem_org m = inv_org i \<and> mem_userId m = u)] \<and>
    (\<exists>m :: Membership. [m \<leftarrow> db_memberships db'. mem_org m = inv_org i \<and> mem_userId m = u] = [m] \<and>
       mem_status m = MActive \<and> mem_roleId m = inv_roleId i)"
proof -
  from accept_cases [OF assms(2)] obtain located :: InvitationByToken and acceptor oc where fa: "findAcceptor u snapshot = Some acceptor"
    and t: "accept_tx env (ibt_organizationId located) acceptor (hashInvitationToken env token) db = Inr (Accept_ok oc, db')"
    and res: "res = toInvitationAcceptResult
       \<lparr>ias_organizationId = ao_organizationId oc, ias_organizationName = ao_organizationName oc,
        ias_roleId = ao_roleId oc, ias_roleName = ao_roleName oc, ias_roleKey = ao_roleKey oc\<rparr>" by auto
  let ?o = "ibt_organizationId located"
  from acceptor_row [OF fa] have id: "acu_id acceptor = u"
    and row: "\<exists>usr \<in> set (db_users snapshot). usr_id usr = u \<and> acu_email acceptor = usr_email usr" by auto
  from accept_tx_result [OF t] obtain i role where
    i: "find_scoped inv_org ?o (\<lambda>i. inv_tokenHash i = hashInvitationToken env token) (db_invitations db) = Some i"
    and em: "normalizeEmail (se_lower (ie_env env)) (acu_email acceptor) = inv_email i"
    and r: "find_scoped role_org ?o (\<lambda>x. role_id x = inv_roleId i) (db_roles db) = Some role"
    and st: "inv_status i = SPending" "se_now (ie_env env) < inv_expiresAt i"
    and j: "may_join (membership_of ?o (acu_id acceptor) db) (inv_tokenIssuedAt i)"
    and w: "write_acceptance env ?o acceptor i role (membership_of ?o (acu_id acceptor) db) db = Inr (Accept_ok oc, db')"
    by auto
  from find_scoped_SomeD [OF i] have im: "i \<in> set (db_invitations db)" "inv_org i = ?o"
    "inv_tokenHash i = hashInvitationToken env token" by auto
  from find_scoped_SomeD [OF r] have rid: "role_id role = inv_roleId i" by simp
  from write_acceptance_ok [OF w] have oc: "ao_organizationId oc = ?o" "ao_roleId oc = role_id role" by auto
  note eff = write_acceptance_effect [OF assms(1) im(1,2) refl w, unfolded id rid]
  show ?thesis
    using im st j em row res oc id rid eff
    by (intro exI [of _ i] exI [of _ acceptor]) (auto simp: toInvitationAcceptResult_def pending_def)
qed

text \<open>
  What an acceptance does. An acceptance that succeeds found, in the database it wrote to, a
  pending unexpired invitation with the token's hash, addressed to the caller's account and to no
  other, for a role of the organization, and a caller who was not a member or had been removed
  before the link was issued. Afterwards the caller has exactly one membership row in the
  organization, active and with exactly the invited role, the invitation is accepted by the
  caller, and every other membership and invitation row is unchanged.
\<close>

theorem accept_effect:
  assumes "db_ok db" and "accept env u token snapshot db = (Inr res, db', evs)"
  shows "\<exists>i acceptor. i \<in> set (db_invitations db) \<and> inv_org i = iar_organizationId res \<and>
    inv_tokenHash i = hashInvitationToken env token \<and> pending i \<and> se_now (ie_env env) < inv_expiresAt i \<and>
    (\<exists>usr \<in> set (db_users snapshot). usr_id usr = u \<and>
       normalizeEmail (se_lower (ie_env env)) (usr_email usr) = inv_email i) \<and>
    may_join (membership_of (inv_org i) u db) (inv_tokenIssuedAt i) \<and>
    iar_roleId res = inv_roleId i \<and> iar_status res = MActive \<and> acu_id acceptor = u \<and>
    db_invitations db' = map (\<lambda>j. if inv_id j = inv_id i
      then accepted_invitation (se_now (ie_env env)) acceptor i else j) (db_invitations db) \<and>
    [m \<leftarrow> db_memberships db'. \<not> (mem_org m = inv_org i \<and> mem_userId m = u)] =
      [m \<leftarrow> db_memberships db. \<not> (mem_org m = inv_org i \<and> mem_userId m = u)] \<and>
    (\<exists>m :: Membership. [m \<leftarrow> db_memberships db'. mem_org m = inv_org i \<and> mem_userId m = u] = [m] \<and>
       mem_status m = MActive \<and> mem_roleId m = inv_roleId i)"
  by (rule accept_effect_facts [OF assms])

lemma demo_accept:
  "\<exists>res db' evs. accept demo_ienv (js ''dan'') (js ''t1'') demo_db demo_db = (Inr res, db', evs)"
proof -
  have n: "normalizeEmail ascii_lower (js ''dan@x.co'') = js ''dan@x.co''"
    by (simp add: normalizeEmail_def trim_def is_space_def ascii_lower_def js_def)
  have f: "\<exists>located. findByTokenHash (hashInvitationToken demo_ienv (js ''t1'')) demo_db = Inr (Some located) \<and>
      ibt_organizationId located = js ''o1''"
    by (simp add: findByTokenHash_def hashInvitationToken_def demo_ienv_def demo_db_def demo_rows invitation_role_def)
  have a: "\<exists>acceptor. findAcceptor (js ''dan'') demo_db = Some acceptor \<and> acu_id acceptor = js ''dan'' \<and>
      acu_email acceptor = js ''dan@x.co''"
    by (simp add: findAcceptor_def demo_db_def demo_rows js_append)
  from f obtain located where f': "findByTokenHash (hashInvitationToken demo_ienv (js ''t1'')) demo_db = Inr (Some located)"
    "ibt_organizationId located = js ''o1''" by blast
  from a obtain acceptor where a': "findAcceptor (js ''dan'') demo_db = Some acceptor" "acu_id acceptor = js ''dan''"
    "acu_email acceptor = js ''dan@x.co''" by blast
  have low: "se_lower (ie_env demo_ienv) = ascii_lower" by (simp add: demo_ienv_def demo_env_def)
  have "\<exists>oc db'. accept_tx demo_ienv (js ''o1'') acceptor (hashInvitationToken demo_ienv (js ''t1'')) demo_db =
      Inr (Accept_ok oc, db')"
    by (simp add: accept_tx_def Let_def a' low n find_scoped_def demo_db_def demo_rows hashInvitationToken_def
        demo_ienv_def demo_env_def canAcceptInvitation_def write_acceptance_def insert_membership_def
        write_memberships_def memberships_unique_def unique_by_def new_membership_def org_fk_def user_fk_def
        role_fk_def put_memberships_def update_invitation_def write_invitations_def invitations_unique_def
        update_scoped_def pending_def put_invitations_def)
  then obtain oc db' where t: "accept_tx demo_ienv (js ''o1'') acceptor (hashInvitationToken demo_ienv (js ''t1'')) demo_db =
      Inr (Accept_ok oc, db')" by blast
  have d: "driver_ok (se_driver (ie_env demo_ienv))"
    using driver_ok_example by (simp add: demo_ienv_def demo_env_def)
  have o: "trim (js ''o1'') \<noteq> []" "org_fk demo_db (js ''o1'')"
    by (simp_all add: org_fk_def demo_db_def demo_org_def js_def trim_def is_space_def)
  from o have "trim (ctx_organizationId (accept_ctx (js ''o1'') (js ''dan''))) \<noteq> []"
    "org_fk demo_db (ctx_organizationId (accept_ctx (js ''o1'') (js ''dan'')))" by (simp_all add: accept_ctx_def)
  from run_succeeds [where fn = "accept_tx demo_ienv (js ''o1'') acceptor (hashInvitationToken demo_ienv (js ''t1''))",
      OF d this t]
  have "runInOrgLockTransaction (se_driver (ie_env demo_ienv)) (Some (accept_ctx (js ''o1'') (js ''dan''))) JUndef
      (Some (js ''acceptInvitation'')) (accept_tx demo_ienv (js ''o1'') acceptor (hashInvitationToken demo_ienv (js ''t1'')))
      demo_db = (Inr (Accept_ok oc), db')" .
  then show ?thesis by (simp add: accept_def Let_def f' a')
qed

lemma accept_effect_witness:
  "\<exists>res db' evs. accept demo_ienv (js ''dan'') (js ''t1'') demo_db demo_db = (Inr res, db', evs) \<and>
     iar_status res = MActive \<and> (\<exists>m :: Membership. m \<in> set (db_memberships db') \<and> mem_userId m = js ''dan'' \<and> mem_status m = MActive)"
proof -
  obtain res db' evs where a: "accept demo_ienv (js ''dan'') (js ''t1'') demo_db demo_db = (Inr res, db', evs)"
    using demo_accept by blast
  from accept_effect [OF demo_db_ok a] obtain i :: Invitation and m :: Membership where "iar_status res = MActive"
    and f: "[m \<leftarrow> db_memberships db'. mem_org m = inv_org i \<and> mem_userId m = js ''dan''] = [m]" "mem_status m = MActive"
    by blast
  have "m \<in> set [m \<leftarrow> db_memberships db'. mem_org m = inv_org i \<and> mem_userId m = js ''dan'']"
    unfolding f(1) by simp
  then have "m \<in> set (db_memberships db')" "mem_userId m = js ''dan''" by auto
  with f(2) \<open>iar_status res = MActive\<close> a show ?thesis by blast
qed

text \<open>
  C31: An invitation opens once. After an acceptance that succeeds, no acceptance with the same
  token succeeds again, whoever the caller, whenever it happens and whatever its lookup saw
  before: the database stays as it is and no audit event is emitted.
\<close>

theorem accept_single_use:
  assumes "db_ok db" and "accept env u token snapshot db = (Inr res, db1, evs)"
    and "hashInvitationToken env2 token2 = hashInvitationToken env token"
    and "accept env2 u2 token2 snapshot2 db1 = (r, db2, evs2)"
  shows "\<not> is_ok r \<and> db2 = db1 \<and> evs2 = []"
proof -
  from accept_effect_facts [OF assms(1,2)] obtain i :: Invitation and acceptor where
    i: "i \<in> set (db_invitations db)" "inv_tokenHash i = hashInvitationToken env token"
    and d: "db_invitations db1 = map (\<lambda>j. if inv_id j = inv_id i
      then accepted_invitation (se_now (ie_env env)) acceptor i else j) (db_invitations db)" by blast
  have acc: "inv_status x = SAccepted" if x: "x \<in> set (db_invitations db1)" "inv_tokenHash x = hashInvitationToken env token" for x
  proof -
    from x(1) obtain j where j: "j \<in> set (db_invitations db)"
      "x = (if inv_id j = inv_id i then accepted_invitation (se_now (ie_env env)) acceptor i else j)" unfolding d by auto
    show ?thesis
    proof (cases "inv_id j = inv_id i")
      case False
      then have "inv_tokenHash j \<noteq> inv_tokenHash i"
        using invitation_key_unique(2) [OF assms(1) j(1) i(1)] by auto
      with False j(2) x(2) i(2) show ?thesis by simp
    qed (use j in \<open>simp add: accepted_invitation_def\<close>)
  qed
  have t: "\<exists>refusal. accept_tx env2 o' acceptor' (hashInvitationToken env2 token2) db1 = Inr (Accept_refused refusal None, db1)"
    for o' acceptor'
  proof (cases "find_scoped inv_org o' (\<lambda>i. inv_tokenHash i = hashInvitationToken env2 token2) (db_invitations db1)")
    case None
    then show ?thesis by (simp add: accept_tx_def Let_def)
  next
    case (Some x)
    with acc find_scoped_SomeD [OF Some] assms(3) have "inv_status x = SAccepted" by simp
    with Some show ?thesis by (simp add: accept_tx_def Let_def canAcceptInvitation_def)
  qed
  from accept_cases [OF assms(4)] show ?thesis
  proof (elim disjE exE conjE)
    fix located acceptor' refusal masked e
    assume "accept_tx env2 (ibt_organizationId located) acceptor' (hashInvitationToken env2 token2) db1 =
        Inr (Accept_refused refusal masked, db2)" and "r = Inl e" "evs2 = []"
    with t [of "ibt_organizationId located" acceptor'] show ?thesis by auto
  next
    fix located acceptor' oc
    assume "accept_tx env2 (ibt_organizationId located) acceptor' (hashInvitationToken env2 token2) db1 =
        Inr (Accept_ok oc, db2)"
    with t [of "ibt_organizationId located" acceptor'] show ?thesis by auto
  qed simp
qed

lemma accept_single_use_witness:
  "\<exists>res db1 evs. accept demo_ienv (js ''dan'') (js ''t1'') demo_db demo_db = (Inr res, db1, evs) \<and>
     \<not> is_ok (fst (accept demo_ienv (js ''eve'') (js ''t1'') demo_db db1))"
proof -
  obtain res db1 evs where a: "accept demo_ienv (js ''dan'') (js ''t1'') demo_db demo_db = (Inr res, db1, evs)"
    using demo_accept by blast
  obtain r db2 evs2 where b: "accept demo_ienv (js ''eve'') (js ''t1'') demo_db db1 = (r, db2, evs2)" by (rule prod_cases3)
  from accept_single_use [OF demo_db_ok a refl b] show ?thesis using a b by auto
qed

section \<open>Who is let in\<close>

lemma find_scoped_found:
  "r \<in> set rows \<Longrightarrow> orgOf r = o' \<Longrightarrow> P r \<Longrightarrow> find_scoped orgOf o' P rows \<noteq> None"
  by (auto simp: find_scoped_def find_None_iff)

lemma find_by_key:
  assumes "unique_by key rows" and "x \<in> set rows" and "key x = k"
  shows "find (\<lambda>y. key y = k) rows = Some x"
  by (rule find_unique) (use assms in \<open>auto simp: unique_by_def distinct_map inj_on_def\<close>)

lemma close_invitation_succeeds:
  assumes ok: "db_ok db" and i: "i \<in> set (db_invitations db)" "inv_org i = o'"
    and f: "\<And>x. inv_id (f x) = inv_id x" "\<And>x. inv_org (f x) = inv_org x" "\<And>x. inv_tokenHash (f x) = inv_tokenHash x"
      "\<And>x. inv_roleId (f x) = inv_roleId x" "\<And>x. \<not> pending (f x)"
  shows "\<exists>db'. update_invitation o' (inv_id i) f db = Inr db' \<and> db_orgs db' = db_orgs db"
proof -
  let ?rs = "update_scoped inv_org o' (\<lambda>x. inv_id x = inv_id i) f (db_invitations db)"
  have "filter pending (update_scoped inv_org o' P f rows) = filter (\<lambda>i. \<not> (inv_org i = o' \<and> P i)) (filter pending rows)"
    for P rows by (induction rows) (use f(5) in \<open>auto simp: update_scoped_def\<close>)
  then have "invitations_unique ?rs"
    using ok by (auto simp: db_ok_def invitations_unique_def unique_by_update f simp del: filter_filter
        intro: unique_by_filter)
  moreover have "org_fk db (inv_org x) \<and> role_fk db (inv_org x) (inv_roleId x)" if "x \<in> set ?rs" for x
  proof -
    from that obtain j where "j \<in> set (db_invitations db)" "inv_org x = inv_org j" "inv_roleId x = inv_roleId j"
      unfolding set_update_scoped using f(2,4) by auto
    with ok show ?thesis by (simp add: db_ok_def list_all_iff)
  qed
  ultimately have "write_invitations ?rs db = Inr (put_invitations ?rs db)"
    by (simp add: write_invitations_def list_all_iff)
  moreover have "find_scoped inv_org o' (\<lambda>x. inv_id x = inv_id i) (db_invitations db) \<noteq> None"
    by (rule find_scoped_found [where r = i]) (use i in simp_all)
  ultimately show ?thesis by (simp add: update_invitation_def)
qed

lemma insert_membership_succeeds:
  assumes ok: "db_ok db" and none: "membership_of (mem_org m) (mem_userId m) db = None"
    and fresh: "mem_id m \<notin> mem_id ` set (db_memberships db)"
    and fk: "org_fk db (mem_org m)" "user_fk db (mem_userId m)" "role_fk db (mem_org m) (mem_roleId m)"
  shows "insert_membership m db = Inr (put_memberships (db_memberships db @ [m]) db)"
proof -
  have "(mem_org m, mem_userId m) \<notin> (\<lambda>m. (mem_org m, mem_userId m)) ` set (db_memberships db)"
    using none by (auto simp: membership_of_def dest: find_scoped_NoneD)
  then have "memberships_unique (db_memberships db @ [m])"
    using ok fresh by (simp add: db_ok_def memberships_unique_def unique_by_def)
  then show ?thesis
    using ok fk by (simp add: insert_membership_def write_memberships_def db_ok_def list_all_iff)
qed

lemma reactivate_succeeds:
  assumes ok: "db_ok db" and m: "m \<in> set (db_memberships db)" "mem_org m = o'" "mem_userId m = u"
    and fk: "role_fk db o' r"
  shows "\<exists>rs. update_membership o' u (reactivated now r) db = Inr (put_memberships rs db)"
proof -
  let ?rs = "update_scoped mem_org o' (\<lambda>m. mem_userId m = u) (reactivated now r) (db_memberships db)"
  have keys: "mem_org (reactivated now r y) = mem_org y" "mem_userId (reactivated now r y) = mem_userId y"
    "mem_id (reactivated now r y) = mem_id y" "mem_roleId (reactivated now r y) = r" for y
    by (simp_all add: reactivated_def)
  have "memberships_unique ?rs" using ok by (simp add: db_ok_def memberships_unique_def unique_by_update keys)
  moreover have "org_fk db (mem_org x) \<and> user_fk db (mem_userId x) \<and> role_fk db (mem_org x) (mem_roleId x)"
    if "x \<in> set ?rs" for x
  proof -
    from that obtain y where y: "y \<in> set (db_memberships db)"
      "x = (if mem_org y = o' \<and> mem_userId y = u then reactivated now r y else y)"
      unfolding set_update_scoped by blast
    have "org_fk db (mem_org y) \<and> user_fk db (mem_userId y) \<and> role_fk db (mem_org y) (mem_roleId y)"
      using ok y(1) by (simp add: db_ok_def list_all_iff)
    with y(2) fk keys show ?thesis by (cases "mem_org y = o' \<and> mem_userId y = u") auto
  qed
  ultimately have "write_memberships ?rs db = Inr (put_memberships ?rs db)"
    by (simp add: write_memberships_def list_all_iff)
  moreover have "find_scoped mem_org o' (\<lambda>m. mem_userId m = u) (db_memberships db) \<noteq> None"
    by (rule find_scoped_found [where r = m]) (use m in simp_all)
  ultimately show ?thesis by (auto simp: update_membership_def)
qed

lemma write_acceptance_succeeds:
  assumes ok: "db_ok db" and i: "i \<in> set (db_invitations db)" "inv_org i = o'"
    and role: "role_fk db o' (role_id role)" and usr: "user_fk db (acu_id acceptor)"
    and fresh: "ie_newId env \<notin> mem_id ` set (db_memberships db)"
  shows "\<exists>oc db'. write_acceptance env o' acceptor i role (membership_of o' (acu_id acceptor) db) db = Inr (Accept_ok oc, db')"
proof -
  let ?u = "acu_id acceptor" and ?now = "se_now (ie_env env)"
  let ?mo = "membership_of o' ?u db"
  let ?first = "if ?mo \<noteq> None then update_membership o' ?u (reactivated ?now (role_id role)) db
    else insert_membership (new_membership env o' ?u (role_id role)) db"
  have org: "org_fk db o'" using ok i by (auto simp: db_ok_def list_all_iff)
  have "\<exists>rs. ?first = Inr (put_memberships rs db)"
  proof (cases ?mo)
    case None
    have "insert_membership (new_membership env o' ?u (role_id role)) db =
        Inr (put_memberships (db_memberships db @ [new_membership env o' ?u (role_id role)]) db)"
      by (rule insert_membership_succeeds [OF ok]) (use None fresh org usr role in \<open>simp_all add: new_membership_def\<close>)
    with None show ?thesis by auto
  next
    case (Some m)
    from find_scoped_SomeD [OF Some [unfolded membership_of_def]] reactivate_succeeds [OF ok _ _ _ role] Some
    show ?thesis by auto
  qed
  then obtain rs where first: "?first = Inr (put_memberships rs db)" by blast
  have ok1: "db_ok (put_memberships rs db)"
    using writes_db_ok(1,2) [OF ok] first by (cases ?mo) auto
  have "\<exists>db'. update_invitation o' (inv_id i) (accepted_invitation ?now acceptor) (put_memberships rs db) = Inr db' \<and>
      db_orgs db' = db_orgs (put_memberships rs db)"
    by (rule close_invitation_succeeds [OF ok1]) (use i in \<open>simp_all add: accepted_invitation_def pending_def\<close>)
  then obtain db' where u: "update_invitation o' (inv_id i) (accepted_invitation ?now acceptor) (put_memberships rs db) = Inr db'"
    and o: "db_orgs db' = db_orgs db" by auto
  from org obtain x where "find (\<lambda>x. org_id x = o') (db_orgs db) = Some x"
    by (cases "find (\<lambda>x. org_id x = o') (db_orgs db)") (auto simp: org_fk_def list_ex_iff find_None_iff)
  then show ?thesis using first u o
    by (simp add: write_acceptance_def Let_def accepted_invitation_def [abs_def] split: if_splits)
qed

text \<open>
  C32: Whoever holds a valid invitation gets in. On a consistent database with a working driver,
  the account an invitation is addressed to opens it with its token whenever the invitation is
  pending and unexpired and the account is not a member, or was removed before the link was
  issued: the acceptance commits and answers the membership.
\<close>

theorem invitee_gets_in:
  assumes ok: "db_ok db" and i: "i \<in> set (db_invitations db)"
    and tok: "inv_tokenHash i = hashInvitationToken env token"
    and st: "pending i" "se_now (ie_env env) < inv_expiresAt i"
    and usr: "usr \<in> set (db_users db)" "normalizeEmail (se_lower (ie_env env)) (usr_email usr) = inv_email i"
    and j: "may_join (membership_of (inv_org i) (usr_id usr) db) (inv_tokenIssuedAt i)"
    and run: "driver_ok (se_driver (ie_env env))" "trim (inv_org i) \<noteq> []"
    and fresh: "ie_newId env \<notin> mem_id ` set (db_memberships db)"
  shows "\<exists>res db' evs. accept env (usr_id usr) token db db = (Inr res, db', evs) \<and>
    iar_organizationId res = inv_org i \<and> iar_roleId res = inv_roleId i"
proof -
  let ?o = "inv_org i" and ?h = "hashInvitationToken env token"
  from ok have uq: "unique_by inv_tokenHash (db_invitations db)" "unique_by usr_id (db_users db)"
    and fk: "org_fk db ?o" "role_fk db ?o (inv_roleId i)"
    using i by (auto simp: db_ok_def invitations_unique_def users_unique_def list_all_iff)
  from fk(1) obtain org where org: "find (\<lambda>x. org_id x = ?o) (db_orgs db) = Some org"
    by (cases "find (\<lambda>x. org_id x = ?o) (db_orgs db)") (auto simp: org_fk_def list_ex_iff find_None_iff)
  from fk(2) obtain role where role: "invitation_role db i = Some role"
    by (cases "invitation_role db i") (auto simp: invitation_role_def role_fk_def list_ex_iff find_None_iff)
  then have role': "find_scoped role_org ?o (\<lambda>r. role_id r = inv_roleId i) (db_roles db) = Some role"
    by (simp add: invitation_role_def find_scoped_def)
  from find_scoped_SomeD [OF role'] have rid: "role_id role = inv_roleId i" by simp
  have h: "find (\<lambda>x. inv_tokenHash x = ?h) (db_invitations db) = Some i" by (rule find_by_key [OF uq(1) i tok])
  obtain located where l: "findByTokenHash ?h db = Inr (Some located)" "ibt_organizationId located = ?o"
    by (simp add: findByTokenHash_def h org role)
  let ?a = "\<lparr>acu_id = usr_id usr, acu_email = usr_email usr, acu_createdAt = usr_createdAt usr\<rparr>"
  have a: "findAcceptor (usr_id usr) db = Some ?a"
    by (simp add: findAcceptor_def find_by_key [OF uq(2) usr(1) refl])
  have hs: "find_scoped inv_org ?o (\<lambda>x. inv_tokenHash x = ?h) (db_invitations db) = Some i"
    unfolding find_scoped_def
  proof (rule find_unique)
    fix y assume "y \<in> set (db_invitations db)" "inv_org y = ?o \<and> inv_tokenHash y = ?h"
    with invitation_key_unique(2) [OF ok _ i] tok show "y = i" by simp
  qed (use i tok in simp_all)
  have "user_fk db (usr_id usr)" using usr(1) by (auto simp: user_fk_def list_ex_iff)
  then obtain oc db' where w: "write_acceptance env ?o ?a i role (membership_of ?o (usr_id usr) db) db = Inr (Accept_ok oc, db')"
    using write_acceptance_succeeds [OF ok i refl _ _ fresh, of role ?a] fk(2) rid by auto
  let ?in = "\<lparr>cai_invitation = \<lparr>ai_status = inv_status i, ai_expiresAt = inv_expiresAt i,
        ai_tokenIssuedAt = inv_tokenIssuedAt i\<rparr>,
      cai_membership = map_option (\<lambda>m. \<lparr>am_status = mem_status m, am_revokedAt = mem_revokedAt m\<rparr>) (membership_of ?o (usr_id usr) db),
      cai_roleExistsInOrg = (Some role \<noteq> None), cai_now = se_now (ie_env env)\<rparr>"
  have dec: "canAcceptInvitation ?in = AccOk"
    unfolding canAccept_ok_iff using st j by (simp add: opens_for_membership pending_def)
  have t: "accept_tx env ?o ?a ?h db = Inr (Accept_ok oc, db')"
    unfolding accept_tx_def Let_def hs option.case role'
    using dec w usr(2) by (simp add: membership_of_def)
  have "runInOrgLockTransaction (se_driver (ie_env env)) (Some (accept_ctx ?o (usr_id usr))) JUndef
      (Some (js ''acceptInvitation'')) (accept_tx env ?o ?a ?h) db = (Inr (Accept_ok oc), db')"
    by (rule run_succeeds) (use run fk(1) t in \<open>simp_all add: accept_ctx_def\<close>)
  moreover from write_acceptance_ok [OF w] have "ao_organizationId oc = ?o" "ao_roleId oc = role_id role" by auto
  ultimately show ?thesis by (simp add: accept_def Let_def l a rid toInvitationAcceptResult_def)
qed

lemma invitee_gets_in_witness:
  "\<exists>res db' evs. accept demo_ienv (js ''dan'') (js ''t1'') demo_db demo_db = (Inr res, db', evs) \<and>
     iar_roleId res = js ''r3''"
proof -
  have n: "normalizeEmail ascii_lower (js ''dan@x.co'') = js ''dan@x.co''"
    by (simp add: normalizeEmail_def trim_def is_space_def ascii_lower_def js_def)
  have d: "driver_ok (se_driver (ie_env demo_ienv))"
    using driver_ok_example by (simp add: demo_ienv_def demo_env_def)
  have o: "trim (js ''o1'') \<noteq> []" by (simp add: js_def trim_def is_space_def)
  have i: "demo_invitation \<in> set (db_invitations demo_db)"
    "inv_tokenHash demo_invitation = hashInvitationToken demo_ienv (js ''t1'')"
    "pending demo_invitation" "se_now (ie_env demo_ienv) < inv_expiresAt demo_invitation"
    by (simp_all add: demo_db_def demo_invitation_def hashInvitationToken_def demo_ienv_def demo_env_def pending_def)
  have u: "demo_user ''dan'' \<in> set (db_users demo_db)"
    "normalizeEmail (se_lower (ie_env demo_ienv)) (usr_email (demo_user ''dan'')) = inv_email demo_invitation"
    using n by (simp_all add: demo_db_def demo_user_def demo_invitation_def demo_ienv_def demo_env_def js_append)
  have m: "may_join (membership_of (inv_org demo_invitation) (usr_id (demo_user ''dan'')) demo_db)
      (inv_tokenIssuedAt demo_invitation)"
    by (simp add: demo_db_def demo_rows may_join_def membership_of_def find_scoped_def)
  have f: "ie_newId demo_ienv \<notin> mem_id ` set (db_memberships demo_db)"
    by (simp add: demo_db_def demo_rows demo_ienv_def)
  have "trim (inv_org demo_invitation) \<noteq> []" using o by (simp add: demo_invitation_def)
  from invitee_gets_in [OF demo_db_ok i u m d this f]
  show ?thesis by (auto simp: demo_user_def demo_invitation_def)
qed

end
