(* ===== verification/Json.thy ===== *)
theory Json
  imports Encoding
begin

text \<open>
  \<open>JSON.stringify\<close> of strings, \<open>JSON.parse\<close> of any text and the UTF-8 decoder, as the cursor and
  the token verifier use them. The parser is recursive descent over the grammar of ECMA-404 with
  fuel; a number keeps its exact decimal value. \<open>JSON_parse_fuel\<close> shows that the fuel chosen by
  \<open>JSON_parse\<close> never decides a result.
\<close>

section \<open>Decoding UTF-8\<close>

definition units_of :: "nat \<Rightarrow> jstring" where
  "units_of v = (if v < 65536 then [v] else [55296 + (v - 65536) div 1024, 56320 + (v - 65536) mod 1024])"

definition is_cont :: "nat \<Rightarrow> bool" where
  "is_cont b \<longleftrightarrow> 128 \<le> b \<and> b \<le> 191"

text \<open>The second bytes allowed after a lead byte: no overlong form, surrogate or excess value.\<close>

definition second_ok :: "nat \<Rightarrow> nat \<Rightarrow> bool" where
  "second_ok b c \<longleftrightarrow> is_cont c \<and>
     (b = 224 \<longrightarrow> 160 \<le> c) \<and> (b = 237 \<longrightarrow> c \<le> 159) \<and> (b = 240 \<longrightarrow> 144 \<le> c) \<and> (b = 244 \<longrightarrow> c \<le> 143)"

fun utf8_decode :: "nat list \<Rightarrow> jstring" where
  "utf8_decode [] = []"
| "utf8_decode (b # bs) =
     (if b < 128 then b # utf8_decode bs
      else if 194 \<le> b \<and> b \<le> 223 then
        (case bs of
           c # r \<Rightarrow> if is_cont c then units_of ((b - 192) * 64 + (c - 128)) @ utf8_decode r
                    else 65533 # utf8_decode bs
         | [] \<Rightarrow> [65533])
      else if 224 \<le> b \<and> b \<le> 239 then
        (case bs of
           c # r \<Rightarrow>
             if second_ok b c then
               (case r of
                  d # r' \<Rightarrow> if is_cont d
                             then units_of ((b - 224) * 4096 + (c - 128) * 64 + (d - 128)) @ utf8_decode r'
                             else 65533 # utf8_decode r
                | [] \<Rightarrow> [65533])
             else 65533 # utf8_decode bs
         | [] \<Rightarrow> [65533])
      else if 240 \<le> b \<and> b \<le> 244 then
        (case bs of
           c # r \<Rightarrow>
             if second_ok b c then
               (case r of
                  d # r' \<Rightarrow>
                    if is_cont d then
                      (case r' of
                         e # r'' \<Rightarrow> if is_cont e
                           then units_of ((b - 240) * 262144 + (c - 128) * 4096 + (d - 128) * 64 + (e - 128)) @ utf8_decode r''
                           else 65533 # utf8_decode r'
                       | [] \<Rightarrow> [65533])
                    else 65533 # utf8_decode r
                | [] \<Rightarrow> [65533])
             else 65533 # utf8_decode bs
         | [] \<Rightarrow> [65533])
      else 65533 # utf8_decode bs)"

declare utf8_decode.simps(2) [simp del]

text \<open>A scalar value, and the strings whose every code point has one.\<close>

definition is_scalar :: "nat \<Rightarrow> bool" where
  "is_scalar n \<longleftrightarrow> n < 1114112 \<and> \<not> (55296 \<le> n \<and> n \<le> 57343)"

lemma split_sextets:
  "n div 4096 * 4096 + n div 64 mod 64 * 64 + n mod 64 = (n :: nat)"
  "n div 262144 * 262144 + n div 4096 mod 64 * 4096 + n div 64 mod 64 * 64 + n mod 64 = (n :: nat)"
proof -
  have "n div 64 div 64 = n div 4096" "n div 4096 div 64 = n div 262144" by (simp_all flip: div_mult2_eq)
  then show "n div 4096 * 4096 + n div 64 mod 64 * 64 + n mod 64 = n"
    "n div 262144 * 262144 + n div 4096 mod 64 * 4096 + n div 64 mod 64 * 64 + n mod 64 = n"
    using div_mult_mod_eq [of n 64] div_mult_mod_eq [of "n div 64" 64] div_mult_mod_eq [of "n div 4096" 64]
    by linarith+
qed

lemma utf8_decode_bytes:
  assumes "is_scalar n"
  shows "utf8_decode (utf8_bytes n @ bs) = units_of n @ utf8_decode bs"
proof -
  consider "n < 128" | "128 \<le> n" "n < 2048" | "2048 \<le> n" "n < 65536" | "65536 \<le> n" by linarith
  then show ?thesis
  proof cases
    case 1
    then show ?thesis by (simp add: utf8_bytes_def units_of_def utf8_decode.simps(2))
  next
    case 2
    let ?b = "192 + n div 64" and ?c = "128 + n mod 64"
    have r: "194 \<le> ?b" "?b \<le> 223" "is_cont ?c"
      using 2 by (simp_all add: is_cont_def)
    have v: "(?b - 192) * 64 + (?c - 128) = n" by simp
    have u: "utf8_bytes n = [?b, ?c]" using 2 by (simp add: utf8_bytes_def)
    show ?thesis unfolding u using r 2 v by (simp add: utf8_decode.simps(2))
  next
    case 3
    let ?b = "224 + n div 4096" and ?c = "128 + n div 64 mod 64" and ?d = "128 + n mod 64"
    have m: "n mod 64 < 64" "n div 64 mod 64 < 64" by simp_all
    have q: "n div 4096 \<le> 15" "n div 64 mod 64 < 64" "n div 4096 * 4096 + n div 64 mod 64 * 64 + n mod 64 = n"
      using 3 m split_sextets(1) [of n] by linarith+
    have "n < 55296 \<or> 57343 < n" using assms by (auto simp: is_scalar_def)
    then have s: "n div 4096 = 0 \<longrightarrow> 32 \<le> n div 64 mod 64" "n div 4096 = 13 \<longrightarrow> n div 64 mod 64 < 32"
      using 3 m q by linarith+
    have r: "224 \<le> ?b" "?b \<le> 239" "second_ok ?b ?c" "is_cont ?d"
      using q s by (auto simp: second_ok_def is_cont_def)
    have v: "(?b - 224) * 4096 + (?c - 128) * 64 + (?d - 128) = n" using q(3) by simp
    have u: "utf8_bytes n = [?b, ?c, ?d]" using 3 by (simp add: utf8_bytes_def)
    show ?thesis unfolding u using r v by (simp add: utf8_decode.simps(2))
  next
    case 4
    let ?b = "240 + n div 262144" and ?c = "128 + n div 4096 mod 64" and ?d = "128 + n div 64 mod 64"
      and ?e = "128 + n mod 64"
    have lim: "n < 1114112" using assms by (simp add: is_scalar_def)
    have m: "n mod 64 < 64" "n div 64 mod 64 < 64" "n div 4096 mod 64 < 64" by simp_all
    have q: "n div 262144 \<le> 4" "n div 4096 mod 64 < 64" "n div 64 mod 64 < 64"
      "n div 262144 * 262144 + n div 4096 mod 64 * 4096 + n div 64 mod 64 * 64 + n mod 64 = n"
      using lim m split_sextets(2) [of n] by linarith+
    have s: "n div 262144 = 0 \<longrightarrow> 16 \<le> n div 4096 mod 64" "n div 262144 = 4 \<longrightarrow> n div 4096 mod 64 < 16"
      using 4 lim m q by linarith+
    have c63: "n div 4096 mod 64 \<le> 63" "n div 64 mod 64 \<le> 63" "n mod 64 \<le> 63" using m by linarith+
    have r: "240 \<le> ?b" "?b \<le> 244" "second_ok ?b ?c" "is_cont ?d" "is_cont ?e"
      using q s c63 by (auto simp: second_ok_def is_cont_def)
    have v: "(?b - 240) * 262144 + (?c - 128) * 4096 + (?d - 128) * 64 + (?e - 128) = n" using q(4) by simp
    have u: "utf8_bytes n = [?b, ?c, ?d, ?e]" using 4 by (simp add: utf8_bytes_def)
    show ?thesis unfolding u using r v by (simp add: utf8_decode.simps(2))
  qed
qed

definition code_units :: "jstring \<Rightarrow> bool" where
  "code_units s \<longleftrightarrow> list_all (\<lambda>c. c < 65536) s"

definition well_formed :: "jstring \<Rightarrow> bool" where
  "well_formed s \<longleftrightarrow> code_units s \<and> list_all (\<lambda>p. scalar_of p \<noteq> None) (code_points s)"

lemma code_points_units: "p \<in> set (code_points s) \<Longrightarrow> c \<in> set p \<Longrightarrow> c \<in> set s"
  by (metis concat_code_points in_set_conv_nth UN_I set_concat)

lemma code_points_shape:
  "p \<in> set (code_points s) \<Longrightarrow>
     (\<exists>c. p = [c]) \<or> (\<exists>h l. p = [h, l] \<and> is_high_surrogate h \<and> is_low_surrogate l)"
  by (induction s rule: code_points.induct) (auto split: if_splits)

lemma scalar_units:
  assumes "p \<in> set (code_points s)" and "code_units s" and "scalar_of p = Some n"
  shows "is_scalar n \<and> units_of n = p"
proof -
  have lt: "c < 65536" if "c \<in> set p" for c
    using code_points_units [OF assms(1) that] assms(2) by (auto simp: code_units_def list_all_iff)
  from code_points_shape [OF assms(1)] show ?thesis
  proof (elim disjE exE conjE)
    fix c assume "p = [c]"
    with assms(3) lt show ?thesis
      by (auto simp: is_scalar_def units_of_def is_high_surrogate_def is_low_surrogate_def split: if_splits)
  next
    fix h l assume p: "p = [h, l]" "is_high_surrogate h" "is_low_surrogate l"
    then have b: "55296 \<le> h" "h \<le> 56319" "56320 \<le> l" "l \<le> 57343"
      by (auto simp: is_high_surrogate_def is_low_surrogate_def)
    let ?v = "65536 + (h - 55296) * 1024 + (l - 56320)"
    from p(1) assms(3) have n: "n = ?v" by simp
    have dm: "(x * 1024 + y) div 1024 = x" "(x * 1024 + y) mod 1024 = y" if "y < 1024" for x y :: nat
      using that by simp_all
    have d: "?v - 65536 = (h - 55296) * 1024 + (l - 56320)" by simp
    have "(?v - 65536) div 1024 = h - 55296" "(?v - 65536) mod 1024 = l - 56320"
      unfolding d by (rule dm; use b in linarith)+
    then show ?thesis using b unfolding n p(1) by (simp add: is_scalar_def units_of_def)
  qed
qed

lemma utf8_roundtrip:
  assumes "well_formed s"
  shows "utf8_decode (utf8 s) = s"
proof -
  let ?enc = "\<lambda>p. case scalar_of p of Some n \<Rightarrow> utf8_bytes n | None \<Rightarrow> [239, 191, 189]"
  have "utf8_decode (concat (map ?enc ps)) = concat ps" if "set ps \<subseteq> set (code_points s)" for ps
    using that
  proof (induction ps)
    case (Cons p ps)
    then obtain n where n: "scalar_of p = Some n"
      using assms by (auto simp: well_formed_def list_all_iff)
    from Cons.prems have "p \<in> set (code_points s)" by simp
    with scalar_units [of p s n] assms n have "is_scalar n" "units_of n = p" by (auto simp: well_formed_def)
    with Cons n show ?case by (simp add: utf8_decode_bytes)
  qed simp
  from this [of "code_points s"] show ?thesis by (simp add: utf8_def)
qed

section \<open>Writing strings\<close>

definition hex4 :: "nat \<Rightarrow> jstring" where
  "hex4 c = [hex_digit (c div 4096), hex_digit (c div 256 mod 16), hex_digit (c div 16 mod 16), hex_digit (c mod 16)]"

text \<open>One code point of a quoted string; a lone surrogate is escaped.\<close>

definition quote_point :: "jstring \<Rightarrow> jstring" where
  "quote_point p =
     (case p of
        [c] \<Rightarrow>
          if c = 34 then [92, 34] else if c = 92 then [92, 92]
          else if c = 8 then [92, 98] else if c = 12 then [92, 102] else if c = 10 then [92, 110]
          else if c = 13 then [92, 114] else if c = 9 then [92, 116]
          else if c < 32 \<or> is_high_surrogate c \<or> is_low_surrogate c then [92, 117] @ hex4 c
          else [c]
      | _ \<Rightarrow> p)"

definition JSON_quote :: "jstring \<Rightarrow> jstring" where
  "JSON_quote s = [34] @ concat (map quote_point (code_points s)) @ [34]"

section \<open>Reading\<close>

definition is_ws :: "nat \<Rightarrow> bool" where
  "is_ws c \<longleftrightarrow> c = 32 \<or> c = 9 \<or> c = 10 \<or> c = 13"

definition skip_ws :: "jstring \<Rightarrow> jstring" where
  "skip_ws s = dropWhile is_ws s"

definition json_hex :: "nat \<Rightarrow> nat option" where
  "json_hex c =
     (if 48 \<le> c \<and> c \<le> 57 then Some (c - 48)
      else if 97 \<le> c \<and> c \<le> 102 then Some (c - 87)
      else if 65 \<le> c \<and> c \<le> 70 then Some (c - 55) else None)"

definition json_hex4 :: "jstring \<Rightarrow> (nat \<times> jstring) option" where
  "json_hex4 s =
     (case s of
        a # b # c # d # r \<Rightarrow>
          (case (json_hex a, json_hex b, json_hex c, json_hex d) of
             (Some w, Some x, Some y, Some z) \<Rightarrow> Some (w * 4096 + x * 256 + y * 16 + z, r)
           | _ \<Rightarrow> None)
      | _ \<Rightarrow> None)"

definition unescape :: "nat \<Rightarrow> nat option" where
  "unescape e =
     (if e = 34 \<or> e = 92 \<or> e = 47 then Some e
      else if e = 98 then Some 8 else if e = 102 then Some 12 else if e = 110 then Some 10
      else if e = 114 then Some 13 else if e = 116 then Some 9 else None)"

lemma json_hex4_shorter: "json_hex4 s = Some (v, r) \<Longrightarrow> length r < length s"
  by (auto simp: json_hex4_def split: list.splits option.splits)

text \<open>The rest of a string after its opening quote.\<close>

function parse_string :: "jstring \<Rightarrow> (jstring \<times> jstring) option" where
  "parse_string [] = None"
| "parse_string (c # s) =
     (if c = 34 then Some ([], s)
      else if c = 92 then
        (case s of
           [] \<Rightarrow> None
         | e # s' \<Rightarrow>
             if e = 117 then
               (case json_hex4 s' of
                  None \<Rightarrow> None
                | Some (v, r) \<Rightarrow> map_option (\<lambda>(t, r'). (v # t, r')) (parse_string r))
             else
               (case unescape e of
                  None \<Rightarrow> None
                | Some v \<Rightarrow> map_option (\<lambda>(t, r'). (v # t, r')) (parse_string s')))
      else if c < 32 then None
      else map_option (\<lambda>(t, r'). (c # t, r')) (parse_string s))"
  by pat_completeness auto
termination
  by (relation "measure length") (auto dest: json_hex4_shorter)

declare parse_string.simps(2) [simp del]

lemma parse_string_shorter: "parse_string s = Some (t, r) \<Longrightarrow> length r < length s"
proof (induction s arbitrary: t rule: parse_string.induct)
  case (2 c s)
  note e = parse_string.simps(2) [of c s]
  consider "c = 34" | "c \<noteq> 34" "c \<noteq> 92" | e s' where "c = 92" "s = e # s'" "e = 117"
    | e s' where "c = 92" "s = e # s'" "e \<noteq> 117" | "c = 92" "s = []"
    by (cases s) blast+
  then show ?case
  proof cases
    case 2
    with "2.prems" e obtain t' where "\<not> c < 32" "parse_string s = Some (t', r)" by (auto split: if_splits)
    with 2 "2.IH"(3) show ?thesis by fastforce
  next
    case (3 e' s')
    with "2.prems" obtain v r' t' where h: "json_hex4 s' = Some (v, r')" "parse_string r' = Some (t', r)"
      unfolding e by (auto split: option.splits)
    from "2.IH"(1) [OF _ _ 3(2,3) h(1) _ h(2)] 3 have "length r < length r'" by simp
    with json_hex4_shorter [OF h(1)] 3 show ?thesis by simp
  next
    case (4 e' s')
    with "2.prems" obtain v t' where h: "unescape e' = Some v" "parse_string s' = Some (t', r)"
      unfolding e by (auto split: option.splits)
    from "2.IH"(2) [OF _ _ 4(2,3) h] 4 show ?thesis by simp
  qed (use "2.prems" e in simp_all)
qed simp

definition digits_span :: "jstring \<Rightarrow> jstring \<times> jstring" where
  "digits_span s = (takeWhile is_digit s, dropWhile is_digit s)"

text \<open>A number of the grammar, with its exact value.\<close>

definition json_frac :: "jstring \<Rightarrow> (jstring \<times> jstring) option" where
  "json_frac s =
     (case s of
        c # r \<Rightarrow> if c = 46 then (let (ds, r') = digits_span r in if ds = [] then None else Some (ds, r')) else Some ([], s)
      | [] \<Rightarrow> Some ([], []))"

definition json_exp :: "jstring \<Rightarrow> (int \<times> jstring) option" where
  "json_exp s =
     (case s of
        c # r \<Rightarrow>
          if c = 101 \<or> c = 69 then
            (let (sgn, r1) = (case r of x # r2 \<Rightarrow> if x = 45 then (-1, r2) else if x = 43 then (1, r2) else (1, r)
                              | [] \<Rightarrow> (1, []));
                 (ds, r') = digits_span r1
             in if ds = [] then None else Some (sgn * int (dec_value ds), r'))
          else Some (0, s)
      | [] \<Rightarrow> Some (0, []))"

definition scale10 :: "rat \<Rightarrow> int \<Rightarrow> rat" where
  "scale10 x e = (if 0 \<le> e then x * 10 ^ nat e else x / 10 ^ nat (- e))"

definition parse_number :: "jstring \<Rightarrow> (jsnum \<times> jstring) option" where
  "parse_number s =
     (let (neg, s1) = (case s of c # r \<Rightarrow> if c = 45 then (True, r) else (False, s) | [] \<Rightarrow> (False, []));
          (ds, s2) = digits_span s1
      in if ds = [] \<or> (length ds > 1 \<and> hd ds = 48) then None
         else (case json_frac s2 of
                 None \<Rightarrow> None
               | Some (fs, s3) \<Rightarrow>
                   (case json_exp s3 of
                      None \<Rightarrow> None
                    | Some (e, s4) \<Rightarrow>
                        (let m = of_nat (dec_value (ds @ fs)) :: rat;
                             v = scale10 m (e - int (length fs))
                         in Some (Fin (if neg then - v else v), s4)))))"

section \<open>Values\<close>

definition json_literal :: "string \<Rightarrow> jsv \<Rightarrow> jstring \<Rightarrow> (jsv \<times> jstring) option" where
  "json_literal w v s = (if take (length w) s = js w then Some (v, drop (length w) s) else None)"

text \<open>A later occurrence of a key replaces the value of the first one, in its place.\<close>

fun put_key :: "jstring \<Rightarrow> jsv \<Rightarrow> (jstring \<times> jsv) list \<Rightarrow> (jstring \<times> jsv) list" where
  "put_key k v [] = [(k, v)]"
| "put_key k v ((k', v') # kvs) = (if k' = k then (k, v) # kvs else (k', v') # put_key k v kvs)"

fun parse_value :: "nat \<Rightarrow> jstring \<Rightarrow> (jsv \<times> jstring) option"
  and parse_elems :: "nat \<Rightarrow> jstring \<Rightarrow> (jsv list \<times> jstring) option"
  and parse_members :: "nat \<Rightarrow> (jstring \<times> jsv) list \<Rightarrow> jstring \<Rightarrow> ((jstring \<times> jsv) list \<times> jstring) option"
where
  "parse_value 0 s = None"
| "parse_value (Suc n) s =
     (case skip_ws s of
        [] \<Rightarrow> None
      | c # r \<Rightarrow>
          if c = 34 then map_option (\<lambda>(t, r'). (JStr t, r')) (parse_string r)
          else if c = 123 then
            (case skip_ws r of
               d # r' \<Rightarrow> if d = 125 then Some (JObj [], r')
                        else map_option (\<lambda>(kvs, r''). (JObj kvs, r'')) (parse_members n [] r)
             | [] \<Rightarrow> None)
          else if c = 91 then
            (case skip_ws r of
               d # r' \<Rightarrow> if d = 93 then Some (JArr [], r')
                        else map_option (\<lambda>(vs, r''). (JArr vs, r'')) (parse_elems n r)
             | [] \<Rightarrow> None)
          else if c = 116 then json_literal ''true'' (JBool True) (c # r)
          else if c = 102 then json_literal ''false'' (JBool False) (c # r)
          else if c = 110 then json_literal ''null'' JNull (c # r)
          else map_option (\<lambda>(v, r'). (JNum v, r')) (parse_number (c # r)))"
| "parse_elems 0 s = None"
| "parse_elems (Suc n) s =
     (case parse_value n s of
        None \<Rightarrow> None
      | Some (v, r) \<Rightarrow>
          (case skip_ws r of
             [] \<Rightarrow> None
           | c # r' \<Rightarrow>
               if c = 93 then Some ([v], r')
               else if c = 44 then map_option (\<lambda>(vs, r''). (v # vs, r'')) (parse_elems n r')
               else None))"
| "parse_members 0 acc s = None"
| "parse_members (Suc n) acc s =
     (case skip_ws s of
        [] \<Rightarrow> None
      | c # r \<Rightarrow>
          if c \<noteq> 34 then None
          else (case parse_string r of
                  None \<Rightarrow> None
                | Some (k, r1) \<Rightarrow>
                    (case skip_ws r1 of
                       [] \<Rightarrow> None
                     | c1 # r2 \<Rightarrow>
                         if c1 \<noteq> 58 then None
                         else (case parse_value n r2 of
                                 None \<Rightarrow> None
                               | Some (v, r3) \<Rightarrow>
                                   (case skip_ws r3 of
                                      [] \<Rightarrow> None
                                    | c3 # r4 \<Rightarrow>
                                        if c3 = 125 then Some (put_key k v acc, r4)
                                        else if c3 = 44 then parse_members n (put_key k v acc) r4
                                        else None)))))"

definition JSON_fuel :: "jstring \<Rightarrow> nat" where
  "JSON_fuel s = 2 * length s + 2"

definition JSON_parse :: "jstring \<Rightarrow> jsv option" where
  "JSON_parse s =
     (case parse_value (JSON_fuel s) s of
        None \<Rightarrow> None
      | Some (v, r) \<Rightarrow> if skip_ws r = [] then Some v else None)"

declare parse_value.simps(2) [simp del] parse_elems.simps(2) [simp del] parse_members.simps(2) [simp del]

section \<open>The fuel is enough\<close>

lemma skip_ws_length: "length (skip_ws s) \<le> length s"
  by (simp add: skip_ws_def length_dropWhile_le)

lemma skip_ws_cons: "skip_ws s = c # r \<Longrightarrow> length r < length s"
  using skip_ws_length [of s] by simp

lemma digits_span_length: "digits_span s = (d, r) \<Longrightarrow> length r = length s - length d \<and> length d \<le> length s"
proof -
  assume "digits_span s = (d, r)"
  then have "s = d @ r" by (auto simp: digits_span_def)
  then show ?thesis by simp
qed

lemma json_frac_length: "json_frac s = Some (d, r) \<Longrightarrow> length r \<le> length s"
  by (auto simp: json_frac_def Let_def split: list.splits if_splits prod.splits dest!: digits_span_length)

lemma json_exp_length: "json_exp s = Some (e, r) \<Longrightarrow> length r \<le> length s"
  by (auto simp: json_exp_def Let_def split: list.splits if_splits prod.splits dest!: digits_span_length)

lemma parse_number_shorter:
  assumes "parse_number s = Some (v, r)"
  shows "length r < length s"
proof -
  obtain b s1 where b: "(case s of c # r \<Rightarrow> if c = 45 then (True, r) else (False, s) | [] \<Rightarrow> (False, [])) = (b, s1)"
    by fastforce
  then have l1: "length s1 \<le> length s" by (auto split: list.splits if_splits)
  obtain ds s2 where d: "digits_span s1 = (ds, s2)" by fastforce
  from assms b d obtain fs s3 where f: "ds \<noteq> []" "json_frac s2 = Some (fs, s3)"
    by (auto simp: parse_number_def split: if_splits option.splits)
  from assms b d f obtain e where e: "json_exp s3 = Some (e, r)"
    by (auto simp: parse_number_def Let_def split: if_splits option.splits)
  have "0 < length ds" using f by simp
  with l1 digits_span_length [OF d] json_frac_length [OF f(2)] json_exp_length [OF e] show ?thesis by linarith
qed

lemma json_literal_shorter:
  assumes "json_literal w v s = Some (u, r)" and "0 < length w"
  shows "length r < length s"
proof -
  from assms(1) have t: "take (length w) s = js w" "r = drop (length w) s" by (auto simp: json_literal_def split: if_splits)
  from arg_cong [OF t(1), of length] have "length w \<le> length s" by (simp add: js_def)
  with assms(2) have "length s - length w < length s" by linarith
  then show ?thesis by (simp add: t(2))
qed

lemma parse_shorter:
  "parse_value n s = Some (v, r) \<Longrightarrow> length r < length s"
  "parse_elems n s = Some (vs, r) \<Longrightarrow> length r < length s"
  "parse_members n acc s = Some (kvs, r) \<Longrightarrow> length r < length s"
proof (induction n arbitrary: s v r vs acc kvs)
  case (Suc n)
  {
    case 1
    from 1 obtain c r' where s: "skip_ws s = c # r'" by (auto simp: parse_value.simps(2) split: list.splits)
    have "length (c # r') \<le> length s" using skip_ws_length [of s] s by simp
    moreover have "length r < length (c # r')"
      using 1 s
      by (auto simp: parse_value.simps(2) split: list.splits if_splits
          dest!: parse_string_shorter parse_number_shorter json_literal_shorter Suc.IH skip_ws_cons)
    ultimately show ?case by simp
  next
    case 2
    then show ?case
      by (auto simp: parse_elems.simps(2) split: list.splits if_splits option.splits
          dest!: Suc.IH skip_ws_cons)
  next
    case 3
    then show ?case
      by (auto simp: parse_members.simps(2) split: list.splits if_splits option.splits
          dest!: parse_string_shorter Suc.IH skip_ws_cons)
  }
qed simp_all

lemma parse_fuel:
  "2 * length s < n \<Longrightarrow> 2 * length s < m \<Longrightarrow> parse_value n s = parse_value m s"
  "2 * length s + 1 < n \<Longrightarrow> 2 * length s + 1 < m \<Longrightarrow> parse_elems n s = parse_elems m s"
  "2 * length s < n \<Longrightarrow> 2 * length s < m \<Longrightarrow> parse_members n acc s = parse_members m acc s"
proof (induction n arbitrary: s m acc)
  case (Suc n)
  {
    case 1
    then obtain k where m: "m = Suc k" by (cases m) auto
    show ?case
    proof (cases "skip_ws s")
      case (Cons c r)
      then have l: "length r < length s" by (rule skip_ws_cons)
      then have "2 * length r + 1 < n" "2 * length r + 1 < k" using 1 m by linarith+
      then have "parse_elems n r = parse_elems k r" "parse_members n acc r = parse_members k acc r" for acc
        by (auto intro!: Suc.IH)
      then show ?thesis by (simp add: parse_value.simps(2) m Cons split: list.split)
    qed (simp add: parse_value.simps(2) m)
  next
    case 2
    then obtain k where m: "m = Suc k" by (cases m) auto
    have v: "parse_value n s = parse_value k s" using 2 m by (intro Suc.IH) simp_all
    show ?case
    proof (cases "parse_value k s")
      case (Some p)
      obtain x r where p: "p = (x, r)" by (cases p)
      have l: "length r < length s" using Some p by (auto dest: parse_shorter(1))
      have "parse_elems n r' = parse_elems k r'" if "skip_ws r = c # r'" for c r'
      proof -
        have "length r' < length r" using that by (rule skip_ws_cons)
        then have "2 * length r' + 1 < n" "2 * length r' + 1 < k" using l 2 m by linarith+
        then show ?thesis by (rule Suc.IH(2))
      qed
      then show ?thesis by (simp add: parse_elems.simps(2) m v Some p split: list.split)
    qed (simp add: parse_elems.simps(2) m v)
  next
    case 3
    then obtain k where m: "m = Suc k" by (cases m) auto
    have v: "parse_value n r2 = parse_value k r2"
      if "skip_ws s = c # r" "parse_string r = Some (q, r1)" "skip_ws r1 = c1 # r2" for c r q r1 c1 r2
    proof -
      have "length r2 < length s"
        using skip_ws_cons [OF that(1)] parse_string_shorter [OF that(2)] skip_ws_cons [OF that(3)] by linarith
      then show ?thesis using 3 m by (intro Suc.IH(1)) linarith+
    qed
    have t: "parse_members n acc' r4 = parse_members k acc' r4"
      if "skip_ws s = c # r" "parse_string r = Some (q, r1)" "skip_ws r1 = c1 # r2"
        "parse_value k r2 = Some (x, r3)" "skip_ws r3 = c3 # r4" for c r q r1 c1 r2 x r3 c3 r4 acc'
    proof -
      have "length r4 < length s"
        using skip_ws_cons [OF that(1)] parse_string_shorter [OF that(2)] skip_ws_cons [OF that(3)]
          parse_shorter(1) [OF that(4)] skip_ws_cons [OF that(5)] by linarith
      then show ?thesis using 3 m by (intro Suc.IH(3)) linarith+
    qed
    show ?case by (auto simp: parse_members.simps(2) m v t split: list.split option.split)
  }
qed simp_all

lemma JSON_parse_fuel: "JSON_fuel s \<le> n \<Longrightarrow> parse_value n s = parse_value (JSON_fuel s) s"
  by (rule parse_fuel(1)) (simp_all add: JSON_fuel_def)

section \<open>Reading back what was written\<close>

lemma json_hex_digit: "d < 16 \<Longrightarrow> json_hex (hex_digit d) = Some d"
  by (auto simp: json_hex_def hex_digit_def)

lemma json_hex4_hex4: "c < 65536 \<Longrightarrow> json_hex4 (hex4 c @ r) = Some (c, r)"
proof -
  assume c: "c < 65536"
  have "c div 256 mod 16 < 16" "c div 16 mod 16 < 16" "c mod 16 < 16" by simp_all
  moreover have "c div 4096 < 16" using c by simp
  moreover have "c div 4096 * 4096 + c div 256 mod 16 * 256 + c div 16 mod 16 * 16 + c mod 16 = c"
  proof -
    have "c div 256 div 16 = c div 4096" "c div 16 div 16 = c div 256" by (simp_all flip: div_mult2_eq)
    then show ?thesis
      using div_mult_mod_eq [of c 16] div_mult_mod_eq [of "c div 16" 16] div_mult_mod_eq [of "c div 256" 16]
      by linarith
  qed
  ultimately show ?thesis by (simp add: json_hex4_def hex4_def json_hex_digit)
qed

lemma parse_quoted_point:
  assumes "p \<in> set (code_points s)" and "code_units s"
  shows "parse_string (quote_point p @ r) = map_option (\<lambda>(t, r'). (p @ t, r')) (parse_string r)"
proof -
  have lt: "c < 65536" if "c \<in> set p" for c
    using code_points_units [OF assms(1) that] assms(2) by (auto simp: code_units_def list_all_iff)
  have plain: "parse_string (c # r) = map_option (\<lambda>(t, r'). (c # t, r')) (parse_string r)"
    if "c \<noteq> 34" "c \<noteq> 92" "32 \<le> c" for c r
    using that by (simp add: parse_string.simps(2))
  from code_points_shape [OF assms(1)] show ?thesis
  proof (elim disjE exE conjE)
    fix c assume "p = [c]"
    with lt show ?thesis
      by (simp add: quote_point_def parse_string.simps(2) unescape_def json_hex4_hex4)
  next
    fix h l assume p: "p = [h, l]" "is_high_surrogate h" "is_low_surrogate l"
    then have "55296 \<le> h" "56320 \<le> l" by (auto simp: is_high_surrogate_def is_low_surrogate_def)
    then show ?thesis by (simp add: quote_point_def p(1) plain option.map_comp comp_def prod.case_distrib)
  qed
qed

lemma parse_quoted:
  assumes "code_units s"
  shows "parse_string (concat (map quote_point (code_points s)) @ 34 # r) = Some (s, r)"
proof -
  have "parse_string (concat (map quote_point ps) @ 34 # r) = Some (concat ps, r)"
    if "set ps \<subseteq> set (code_points s)" for ps
    using that
    by (induction ps) (simp_all add: parse_quoted_point [OF _ assms] parse_string.simps(2) [of 34])
  from this [of "code_points s"] show ?thesis by (simp add: concat_code_points)
qed

end
