(* ===== verification/Tenancy.thy ===== *)
theory Tenancy
  imports OrgLock Json
begin

text \<open>
  \<open>packages/db/src/tenancy.ts\<close> with \<open>org-models.ts\<close> and \<open>ledger-guard.ts\<close>: the decision that
  rewrites the arguments of every database operation so that it stays inside one organization, and
  the refusal of every operation that would change the ledger. Arguments are JavaScript values; a
  thrown error is a constructor of \<open>ScopeError\<close>.
\<close>

section \<open>The registers\<close>

definition ORGANIZATION_MODEL :: jstring where "ORGANIZATION_MODEL = js ''Organization''"

definition ORG_SCOPED_MODELS :: "jstring list" where
  "ORG_SCOPED_MODELS =
     [js ''Membership'', js ''Role'', js ''Invitation'', js ''Product'', js ''SellableSku'',
      js ''InventoryItem'', js ''BundleComponent'', js ''Warehouse'', js ''StockLevel'',
      js ''StockMovement'', js ''ChannelAccount'', js ''ChannelListing'', js ''OrgEntitlement'',
      js ''UsageEvent'']"

definition ORG_AGNOSTIC_MODELS :: "jstring list" where
  "ORG_AGNOSTIC_MODELS = [js ''User'', js ''RefreshToken'', js ''Channel'', js ''PlanDefinition'']"

definition isOrgScopedModel :: "jstring \<Rightarrow> bool" where
  "isOrgScopedModel model \<longleftrightarrow> List.member ORG_SCOPED_MODELS model"

section \<open>Operations and their strategies\<close>

datatype OrgScopeStrategy =
  FilterWhere | UniqueWhere | CreateData | CreateManyData | Upsert | Reject

definition ORG_SCOPE_OPERATION_STRATEGY :: "(jstring \<times> OrgScopeStrategy) list" where
  "ORG_SCOPE_OPERATION_STRATEGY =
     [(js ''findMany'', FilterWhere), (js ''findFirst'', FilterWhere), (js ''findFirstOrThrow'', FilterWhere),
      (js ''count'', FilterWhere), (js ''aggregate'', FilterWhere), (js ''groupBy'', FilterWhere),
      (js ''findUnique'', UniqueWhere), (js ''findUniqueOrThrow'', UniqueWhere),
      (js ''create'', CreateData), (js ''createMany'', CreateManyData), (js ''createManyAndReturn'', CreateManyData),
      (js ''update'', UniqueWhere), (js ''delete'', UniqueWhere),
      (js ''updateMany'', FilterWhere), (js ''deleteMany'', FilterWhere), (js ''upsert'', Upsert),
      (js ''updateManyAndReturn'', Reject), (js ''findRaw'', Reject), (js ''aggregateRaw'', Reject)]"

datatype ScopeError =
    MissingOrgContext jstring jstring
  | OrgScopeViolation jstring jstring
  | UnsupportedOrgScopeOperation jstring jstring
  | UnregisteredOrgScopeModel jstring jstring

section \<open>JavaScript objects\<close>

definition isPlainObject :: "jsv \<Rightarrow> bool" where
  "isPlainObject v \<longleftrightarrow> (case v of JObj _ \<Rightarrow> True | _ \<Rightarrow> False)"

definition hasKey :: "(jstring \<times> jsv) list \<Rightarrow> jstring \<Rightarrow> bool" where
  "hasKey kvs k \<longleftrightarrow> map_of kvs k \<noteq> None"

text \<open>The entries \<open>{ ...v }\<close> copies; a list or a string copies its indices.\<close>

definition spread :: "jsv \<Rightarrow> (jstring \<times> jsv) list" where
  "spread v =
     (case v of
        JObj kvs \<Rightarrow> kvs
      | JArr vs \<Rightarrow> zip (map dec_digits [0..<length vs]) vs
      | JStr s \<Rightarrow> zip (map dec_digits [0..<length s]) (map (\<lambda>c. JStr [c]) s)
      | _ \<Rightarrow> [])"

lemma spread_JObj [simp]: "spread (JObj kvs) = kvs"
  by (simp add: spread_def)

definition entry :: "(jstring \<times> jsv) list \<Rightarrow> jstring \<Rightarrow> jsv" where
  "entry kvs k = (case map_of kvs k of Some v \<Rightarrow> v | None \<Rightarrow> JUndef)"

lemma map_of_put_key: "map_of (put_key k v kvs) j = (if j = k then Some v else map_of kvs j)"
  by (induction kvs) auto

lemma entry_put_key [simp]: "entry (put_key k v kvs) j = (if j = k then v else entry kvs j)"
  by (simp add: entry_def map_of_put_key)

lemma hasKey_put_key [simp]: "hasKey (put_key k v kvs) j \<longleftrightarrow> j = k \<or> hasKey kvs j"
  by (simp add: hasKey_def map_of_put_key)

lemma keys_put_key: "fst ` set (put_key k v kvs) = insert k (fst ` set kvs)"
proof (induction kvs)
  case (Cons p kvs)
  then show ?case by (cases p) (simp add: insert_commute)
qed simp

lemma distinct_put_key: "distinct (map fst kvs) \<Longrightarrow> distinct (map fst (put_key k v kvs))"
proof (induction kvs)
  case (Cons p kvs)
  then show ?case by (cases p) (auto simp: keys_put_key)
qed simp

lemma set_put_key:
  "distinct (map fst kvs) \<Longrightarrow> set (put_key k v kvs) = insert (k, v) {p \<in> set kvs. fst p \<noteq> k}"
proof (induction kvs)
  case (Cons p kvs)
  then show ?case by (cases p) (auto simp: image_iff)
qed simp

section \<open>The checks\<close>

datatype ScopeKind = Filter_kind | Write_kind

definition wrapper_of :: "ScopeKind \<Rightarrow> jstring" where
  "wrapper_of kind = (case kind of Filter_kind \<Rightarrow> js ''equals'' | Write_kind \<Rightarrow> js ''set'')"

definition assertMatchesContext ::
    "jstring \<Rightarrow> jstring \<Rightarrow> jsv \<Rightarrow> jstring \<Rightarrow> ScopeKind \<Rightarrow> ScopeError + unit" where
  "assertMatchesContext model operation value organizationId kind =
     (let literal =
            (case value of
               JObj kvs \<Rightarrow> if length kvs = 1 \<and> fst (hd kvs) = wrapper_of kind then entry kvs (wrapper_of kind) else JUndef
             | _ \<Rightarrow> value)
      in if literal = JStr organizationId then Inr () else Inl (OrgScopeViolation model operation))"

definition scopedWhere ::
    "jstring \<Rightarrow> jstring \<Rightarrow> jsv \<Rightarrow> jstring \<Rightarrow> jstring \<Rightarrow> ScopeError + jsv" where
  "scopedWhere model operation whr organizationId column =
     (if whr \<noteq> JUndef \<and> \<not> isPlainObject whr then Inl (OrgScopeViolation model operation)
      else (let base = (case whr of JObj kvs \<Rightarrow> kvs | _ \<Rightarrow> []) in
            rbind (if hasKey base column
                   then assertMatchesContext model operation (entry base column) organizationId Filter_kind
                   else Inr ())
              (\<lambda>_. Inr (JObj (put_key column (JStr organizationId) base)))))"

definition readConnectId :: "jsv \<Rightarrow> jstring option" where
  "readConnectId relation =
     (case relation of
        JObj kvs \<Rightarrow>
          if length kvs \<noteq> 1 \<or> fst (hd kvs) \<noteq> js ''connect'' then None
          else (case entry kvs (js ''connect'') of
                  JObj connect \<Rightarrow> (case entry connect (js ''id'') of JStr i \<Rightarrow> Some i | _ \<Rightarrow> None)
                | _ \<Rightarrow> None)
      | _ \<Rightarrow> None)"

definition scopedCreateData ::
    "jstring \<Rightarrow> jstring \<Rightarrow> jsv \<Rightarrow> jstring \<Rightarrow> jstring \<Rightarrow> ScopeError + jsv" where
  "scopedCreateData model operation data organizationId column =
     (case data of
        JObj kvs \<Rightarrow>
          if hasKey kvs column then
            rbind (assertMatchesContext model operation (entry kvs column) organizationId Write_kind)
              (\<lambda>_. Inr (JObj (put_key column (JStr organizationId) kvs)))
          else if column = js ''organizationId'' \<and> hasKey kvs (js ''organization'') then
            (if readConnectId (entry kvs (js ''organization'')) \<noteq> Some organizationId
             then Inl (OrgScopeViolation model operation)
             else Inr data)
          else Inr (JObj (put_key column (JStr organizationId) kvs))
      | _ \<Rightarrow> Inl (OrgScopeViolation model operation))"

definition RELATION_WRITE_VERBS :: "jstring list" where
  "RELATION_WRITE_VERBS =
     [js ''connect'', js ''connectOrCreate'', js ''disconnect'', js ''create'', js ''createMany'',
      js ''update'', js ''updateMany'', js ''upsert'', js ''delete'', js ''deleteMany'']"

definition isRelationWrite :: "jsv \<Rightarrow> bool" where
  "isRelationWrite value \<longleftrightarrow> (case value of JObj kvs \<Rightarrow> list_ex (hasKey kvs) RELATION_WRITE_VERBS | _ \<Rightarrow> False)"

definition guardWriteData ::
    "jstring \<Rightarrow> jstring \<Rightarrow> jsv \<Rightarrow> jstring \<Rightarrow> jstring \<Rightarrow> ScopeError + jsv" where
  "guardWriteData model operation data organizationId column =
     (case data of
        JObj kvs \<Rightarrow>
          if list_ex (\<lambda>(key, v). key \<noteq> column \<and> isRelationWrite v) kvs
          then Inl (OrgScopeViolation model operation)
          else if \<not> hasKey kvs column then Inr data
          else rbind (assertMatchesContext model operation (entry kvs column) organizationId Write_kind)
                 (\<lambda>_. Inr (JObj (put_key column (JStr organizationId) kvs)))
      | _ \<Rightarrow> Inr data)"

section \<open>The rewriting\<close>

definition put_guarded ::
    "jstring \<Rightarrow> jstring \<Rightarrow> jstring \<Rightarrow> jstring \<Rightarrow> jstring \<Rightarrow> (jstring \<times> jsv) list \<Rightarrow> (jstring \<times> jsv) list \<Rightarrow>
     ScopeError + (jstring \<times> jsv) list" where
  "put_guarded key model operation organizationId column input out =
     (if hasKey input key
      then rbind (guardWriteData model operation (entry input key) organizationId column)
             (\<lambda>d. Inr (put_key key d out))
      else Inr out)"

definition scopeByColumn ::
    "jstring \<Rightarrow> jstring \<Rightarrow> OrgScopeStrategy \<Rightarrow> jsv \<Rightarrow> jstring \<Rightarrow> jstring \<Rightarrow> ScopeError + jsv" where
  "scopeByColumn model operation strategy args organizationId column =
     (let input = spread args;
          whr = entry input (js ''where'');
          data = entry input (js ''data'');
          violation = Inl (OrgScopeViolation model operation);
          where_and_data =
            rbind (scopedWhere model operation whr organizationId column) (\<lambda>w.
            rbind (put_guarded (js ''data'') model operation organizationId column input (put_key (js ''where'') w input))
              (\<lambda>out. Inr (JObj out)))
      in case strategy of
           FilterWhere \<Rightarrow> where_and_data
         | UniqueWhere \<Rightarrow> if \<not> isPlainObject whr then violation else where_and_data
         | CreateData \<Rightarrow>
             rbind (scopedCreateData model operation data organizationId column)
               (\<lambda>d. Inr (JObj (put_key (js ''data'') d input)))
         | CreateManyData \<Rightarrow>
             (case data of
                JArr rows \<Rightarrow>
                  rbind (sequence (map (\<lambda>row. scopedCreateData model operation row organizationId column) rows))
                    (\<lambda>ds. Inr (JObj (put_key (js ''data'') (JArr ds) input)))
              | _ \<Rightarrow> rbind (scopedCreateData model operation data organizationId column)
                       (\<lambda>d. Inr (JObj (put_key (js ''data'') d input))))
         | Upsert \<Rightarrow>
             if \<not> isPlainObject whr then violation
             else rbind (scopedWhere model operation whr organizationId column) (\<lambda>w.
                  rbind (scopedCreateData model operation (entry input (js ''create'')) organizationId column) (\<lambda>c.
                  rbind (put_guarded (js ''update'') model operation organizationId column input
                           (put_key (js ''create'') c (put_key (js ''where'') w input)))
                    (\<lambda>out. Inr (JObj out))))
         | Reject \<Rightarrow> Inr JUndef)"

definition scopeTenantRoot ::
    "jstring \<Rightarrow> jstring \<Rightarrow> OrgScopeStrategy \<Rightarrow> jsv \<Rightarrow> jstring \<Rightarrow> ScopeError + jsv" where
  "scopeTenantRoot model operation strategy args organizationId =
     (if strategy = CreateData \<or> strategy = CreateManyData \<or> strategy = Upsert
      then Inl (UnsupportedOrgScopeOperation model operation)
      else scopeByColumn model operation strategy args organizationId (js ''id''))"

definition applyOrgScope :: "jstring \<Rightarrow> jstring \<Rightarrow> jsv \<Rightarrow> jstring \<Rightarrow> ScopeError + jsv" where
  "applyOrgScope model operation args organizationId =
     (case map_of ORG_SCOPE_OPERATION_STRATEGY operation of
        None \<Rightarrow> Inl (UnsupportedOrgScopeOperation model operation)
      | Some strategy \<Rightarrow>
          if strategy = Reject then Inl (UnsupportedOrgScopeOperation model operation)
          else if List.member ORG_AGNOSTIC_MODELS model then Inr args
          else if model = ORGANIZATION_MODEL then scopeTenantRoot model operation strategy args organizationId
          else if isOrgScopedModel model
          then scopeByColumn model operation strategy args organizationId (js ''organizationId'')
          else Inl (UnregisteredOrgScopeModel model operation))"

text \<open>The extension: the context's organization, trimmed, or no query at all.\<close>

definition withOrgScope :: "jstring option \<Rightarrow> jstring option \<Rightarrow> jstring \<Rightarrow> jsv \<Rightarrow> ScopeError + jsv" where
  "withOrgScope ctx model operation args =
     (let name = (case model of Some m \<Rightarrow> m | None \<Rightarrow> []);
          organizationId = (case ctx of Some o' \<Rightarrow> trim o' | None \<Rightarrow> [])
      in if organizationId = [] then Inl (MissingOrgContext name operation)
         else applyOrgScope name operation args organizationId)"

text \<open>The organization the tenant client of a request is scoped to.\<close>

definition client_org :: "OrgRequestContext option \<Rightarrow> Thrown + jstring" where
  "client_org ctx =
     (case ctx of
        None \<Rightarrow> Inl MissingOrgContextError
      | Some c \<Rightarrow> if trim (ctx_organizationId c) = [] then Inl MissingOrgContextError
                  else Inr (trim (ctx_organizationId c)))"

section \<open>The ledger guard\<close>

definition LEDGER_MODELS :: "jstring list" where
  "LEDGER_MODELS = [js ''StockMovement'', js ''UsageEvent'']"

definition FORBIDDEN_LEDGER_OPERATIONS :: "jstring list" where
  "FORBIDDEN_LEDGER_OPERATIONS =
     [js ''update'', js ''updateMany'', js ''delete'', js ''deleteMany'', js ''upsert'']"

definition isForbiddenLedgerMutation :: "jstring option \<Rightarrow> jstring \<Rightarrow> bool" where
  "isForbiddenLedgerMutation model operation =
     (case model of
        None \<Rightarrow> False
      | Some m \<Rightarrow> List.member LEDGER_MODELS m \<and> List.member FORBIDDEN_LEDGER_OPERATIONS operation)"

datatype LedgerImmutableError = LedgerImmutableError jstring jstring

definition ledgerGuardExtension :: "jstring option \<Rightarrow> jstring \<Rightarrow> jsv \<Rightarrow> LedgerImmutableError + jsv" where
  "ledgerGuardExtension model operation args =
     (if isForbiddenLedgerMutation model operation
      then Inl (LedgerImmutableError (case model of Some m \<Rightarrow> m | None \<Rightarrow> []) operation)
      else Inr args)"

section \<open>What a scoped call can reach\<close>

text \<open>
  The rows a filter selects. A filter object is the conjunction of its entries; what one entry
  means for a row is the database's, \<open>cond\<close>.
\<close>

definition where_selects :: "(jstring \<Rightarrow> jsv \<Rightarrow> 'r \<Rightarrow> bool) \<Rightarrow> jsv \<Rightarrow> 'r \<Rightarrow> bool" where
  "where_selects cond whr r \<longleftrightarrow> (case whr of JObj kvs \<Rightarrow> list_all (\<lambda>(k, v). cond k v r) kvs | _ \<Rightarrow> True)"

text \<open>An entry that gives a column a string, plainly or as \<open>equals\<close>, compares the column with it.\<close>

definition column_cond :: "(jstring \<Rightarrow> jsv \<Rightarrow> 'r \<Rightarrow> bool) \<Rightarrow> jstring \<Rightarrow> ('r \<Rightarrow> jstring) \<Rightarrow> bool" where
  "column_cond cond column value \<longleftrightarrow>
     (\<forall>s r. (cond column (JStr s) r \<longleftrightarrow> value r = s) \<and>
            (cond column (JObj [(js ''equals'', JStr s)]) r \<longleftrightarrow> value r = s))"

definition plain_keys :: "jsv \<Rightarrow> bool" where
  "plain_keys v \<longleftrightarrow> (case v of JObj kvs \<Rightarrow> distinct (map fst kvs) | _ \<Rightarrow> True)"

lemma assertMatchesContext_ok:
  assumes "assertMatchesContext model operation value org kind = Inr ()"
  shows "value = JStr org \<or> value = JObj [(wrapper_of kind, JStr org)]"
proof (cases "value")
  case (JObj kvs)
  with assms show ?thesis
    by (cases kvs) (auto simp: assertMatchesContext_def Let_def entry_def split: if_splits)
qed (use assms in \<open>auto simp: assertMatchesContext_def Let_def split: if_splits\<close>)

lemma map_of_in: "map_of kvs k = Some v \<Longrightarrow> (k, v) \<in> set kvs"
  by (rule map_of_SomeD)

lemma scopedWhere_selects:
  assumes "scopedWhere model operation whr org column = Inr w" and "plain_keys whr"
    and "column_cond cond column value"
  shows "where_selects cond w r \<longleftrightarrow> value r = org \<and> where_selects cond whr r"
proof -
  define base where "base = (case whr of JObj kvs \<Rightarrow> kvs | _ \<Rightarrow> [])"
  have sel: "where_selects cond whr r \<longleftrightarrow> list_all (\<lambda>(k, v). cond k v r) base"
    by (auto simp: where_selects_def base_def split: jsv.split)
  have d: "distinct (map fst base)" using assms(2) by (auto simp: plain_keys_def base_def split: jsv.splits)
  from assms(1) have w: "w = JObj (put_key column (JStr org) base)"
    and m: "hasKey base column \<Longrightarrow>
      assertMatchesContext model operation (entry base column) org Filter_kind = Inr ()"
    by (auto simp: scopedWhere_def base_def [symmetric] Let_def rbind_Inr_iff split: if_splits)
  have own: "cond column v r \<longleftrightarrow> value r = org" if "(column, v) \<in> set base" for v
  proof -
    from that d have e: "map_of base column = Some v" by simp
    then have "assertMatchesContext model operation v org Filter_kind = Inr ()"
      using m by (simp add: hasKey_def entry_def)
    then have "v = JStr org \<or> v = JObj [(js ''equals'', JStr org)]"
      by (auto simp: wrapper_of_def dest: assertMatchesContext_ok)
    with assms(3) show ?thesis by (auto simp: column_cond_def)
  qed
  have c: "cond column (JStr org) r \<longleftrightarrow> value r = org" using assms(3) by (simp add: column_cond_def)
  have "where_selects cond w r \<longleftrightarrow> list_all (\<lambda>(k, v). cond k v r) (put_key column (JStr org) base)"
    by (simp add: where_selects_def w)
  then show ?thesis unfolding sel by (auto simp: list_all_iff set_put_key [OF d] c own) (metis own)
qed

text \<open>The strategy of an operation and the column of a model, where a call is let through.\<close>

definition org_column :: "jstring \<Rightarrow> jstring" where
  "org_column model = (if model = ORGANIZATION_MODEL then js ''id'' else js ''organizationId'')"

lemma register_disjoint:
  "list_all (\<lambda>m. \<not> List.member ORG_AGNOSTIC_MODELS m) (ORGANIZATION_MODEL # ORG_SCOPED_MODELS)"
  "\<not> List.member ORG_SCOPED_MODELS ORGANIZATION_MODEL"
  by code_simp+

lemma tenant_model_cases:
  assumes "applyOrgScope model operation args org = Inr out"
    and "model = ORGANIZATION_MODEL \<or> isOrgScopedModel model"
  obtains strategy where "map_of ORG_SCOPE_OPERATION_STRATEGY operation = Some strategy" "strategy \<noteq> Reject"
    "scopeByColumn model operation strategy args org (org_column model) = Inr out"
    "model = ORGANIZATION_MODEL \<Longrightarrow> strategy = FilterWhere \<or> strategy = UniqueWhere"
proof -
  have na: "\<not> List.member ORG_AGNOSTIC_MODELS model"
    using assms(2) register_disjoint(1) by (auto simp: isOrgScopedModel_def list_all_iff)
  have no: "\<not> isOrgScopedModel ORGANIZATION_MODEL"
    using register_disjoint(2) by (simp add: isOrgScopedModel_def)
  from assms(1) obtain st where st: "map_of ORG_SCOPE_OPERATION_STRATEGY operation = Some st" "st \<noteq> Reject"
    by (auto simp: applyOrgScope_def split: option.splits if_splits)
  show thesis
  proof (rule that [OF st])
    show "scopeByColumn model operation st args org (org_column model) = Inr out"
      using assms st na by (auto simp: applyOrgScope_def scopeTenantRoot_def org_column_def split: if_splits)
    assume "model = ORGANIZATION_MODEL"
    then show "st = FilterWhere \<or> st = UniqueWhere"
      using assms st na no by (cases st) (auto simp: applyOrgScope_def scopeTenantRoot_def split: if_splits)
  qed
qed

lemma put_guarded_ok:
  assumes "put_guarded key model operation org column input out = Inr kvs"
  shows "\<And>k. k \<noteq> key \<Longrightarrow> entry kvs k = entry out k"
    "hasKey input key \<Longrightarrow> guardWriteData model operation (entry input key) org column = Inr (entry kvs key)"
  using assms by (auto simp: put_guarded_def rbind_Inr_iff split: if_splits)

lemma scope_keys [simp]:
  "js ''where'' \<noteq> js ''data''" "js ''data'' \<noteq> js ''where''" "js ''create'' \<noteq> js ''where''" "js ''where'' \<noteq> js ''create''"
  "js ''update'' \<noteq> js ''where''" "js ''where'' \<noteq> js ''update''" "js ''update'' \<noteq> js ''create''" "js ''create'' \<noteq> js ''update''"
  by (simp_all add: js_def)

text \<open>The filter of a call that was let through.\<close>

lemma scoped_filter:
  assumes "scopeByColumn model operation strategy args org column = Inr out"
    and "strategy = FilterWhere \<or> strategy = UniqueWhere \<or> strategy = Upsert"
  obtains kvs w where "out = JObj kvs" "entry kvs (js ''where'') = w"
    "scopedWhere model operation (entry (spread args) (js ''where'')) org column = Inr w"
proof -
  from assms(2) show thesis
  proof (elim disjE)
    assume "strategy = FilterWhere"
    with assms(1) show thesis
      by (auto simp: scopeByColumn_def Let_def rbind_Inr_iff dest: put_guarded_ok(1) [where k = "js ''where''"] intro!: that)
  next
    assume "strategy = UniqueWhere"
    with assms(1) show thesis
      by (auto simp: scopeByColumn_def Let_def rbind_Inr_iff dest: put_guarded_ok(1) [where k = "js ''where''"] intro!: that
          split: if_splits)
  next
    assume "strategy = Upsert"
    with assms(1) show thesis
      by (auto simp: scopeByColumn_def Let_def rbind_Inr_iff dest: put_guarded_ok(1) [where k = "js ''where''"] intro!: that
          split: if_splits)
  qed
qed

definition filters :: "jstring \<Rightarrow> bool" where
  "filters operation \<longleftrightarrow>
     (case map_of ORG_SCOPE_OPERATION_STRATEGY operation of
        Some FilterWhere \<Rightarrow> True | Some UniqueWhere \<Rightarrow> True | Some Upsert \<Rightarrow> True | _ \<Rightarrow> False)"

text \<open>
  C6: A scoped query is the caller's query restricted to the organization. For every operation
  with a filter, on every model that belongs to a tenant (and on the tenant itself, through its
  id), the rows the rewritten arguments select are those rows of the context's organization that
  the caller's own filter selects, in the same order.
\<close>

theorem scoped_query_refines:
  assumes "applyOrgScope model operation args org = Inr out" and "filters operation"
    and "model = ORGANIZATION_MODEL \<or> isOrgScopedModel model"
    and "plain_keys (entry (spread args) (js ''where''))"
    and "column_cond cond (org_column model) value"
  shows "filter (where_selects cond (entry (spread out) (js ''where''))) rows =
    filter_scoped value org (where_selects cond (entry (spread args) (js ''where''))) rows"
proof -
  from tenant_model_cases [OF assms(1,3)] obtain st where
    st: "map_of ORG_SCOPE_OPERATION_STRATEGY operation = Some st"
      "scopeByColumn model operation st args org (org_column model) = Inr out" by metis
  with assms(2) have k: "st = FilterWhere \<or> st = UniqueWhere \<or> st = Upsert"
    by (cases st) (simp_all add: filters_def)
  from scoped_filter [OF st(2) k] obtain kvs w where
    w: "out = JObj kvs" "entry kvs (js ''where'') = w"
      "scopedWhere model operation (entry (spread args) (js ''where'')) org (org_column model) = Inr w" by metis
  have "spread out = kvs" by (simp add: w(1))
  then show ?thesis unfolding filter_scoped_def w(2) [symmetric]
    using scopedWhere_selects [OF w(3) assms(4,5)] w(2) by (intro filter_cong) simp_all
qed

definition demo_row_cond :: "jstring \<Rightarrow> jsv \<Rightarrow> (jstring \<times> jstring) \<Rightarrow> bool" where
  "demo_row_cond k v r =
     (let col = (if k = js ''organizationId'' then fst r else snd r) in
      case v of JStr s \<Rightarrow> col = s
      | JObj [(e, JStr s)] \<Rightarrow> e = js ''equals'' \<and> col = s
      | _ \<Rightarrow> False)"

theorem scoped_query_refines_witness:
  "filter (where_selects demo_row_cond
       (entry (spread (JObj [(js ''where'', JObj [(js ''key'', JStr (js ''admin'')), (js ''organizationId'', JStr (js ''o1''))])]))
          (js ''where'')))
     [(js ''o1'', js ''admin''), (js ''o2'', js ''admin''), (js ''o1'', js ''staff'')] =
   filter_scoped fst (js ''o1'')
     (where_selects demo_row_cond (entry (spread (JObj [(js ''where'', JObj [(js ''key'', JStr (js ''admin''))])])) (js ''where'')))
     [(js ''o1'', js ''admin''), (js ''o2'', js ''admin''), (js ''o1'', js ''staff'')]"
proof (rule scoped_query_refines [where model = "js ''Role''" and operation = "js ''findMany''"])
  show "applyOrgScope (js ''Role'') (js ''findMany'') (JObj [(js ''where'', JObj [(js ''key'', JStr (js ''admin''))])]) (js ''o1'') =
    Inr (JObj [(js ''where'', JObj [(js ''key'', JStr (js ''admin'')), (js ''organizationId'', JStr (js ''o1''))])])"
    by code_simp
  show "filters (js ''findMany'')" by code_simp
  show "js ''Role'' = ORGANIZATION_MODEL \<or> isOrgScopedModel (js ''Role'')" by code_simp
  show "plain_keys (entry (spread (JObj [(js ''where'', JObj [(js ''key'', JStr (js ''admin''))])])) (js ''where''))"
    by code_simp
  have c: "org_column (js ''Role'') = js ''organizationId''" by code_simp
  show "column_cond demo_row_cond (org_column (js ''Role'')) fst"
    unfolding c by (simp add: column_cond_def demo_row_cond_def)
qed

text \<open>What a payload writes into the column of the organization.\<close>

definition lands_in :: "jstring \<Rightarrow> jstring \<Rightarrow> jsv \<Rightarrow> bool" where
  "lands_in column org data \<longleftrightarrow>
     (case data of
        JObj kvs \<Rightarrow> entry kvs column = JStr org \<or>
          (\<not> hasKey kvs column \<and> readConnectId (entry kvs (js ''organization'')) = Some org)
      | _ \<Rightarrow> False)"

definition stays_in :: "jstring \<Rightarrow> jstring \<Rightarrow> jsv \<Rightarrow> bool" where
  "stays_in column org data \<longleftrightarrow>
     (case data of
        JObj kvs \<Rightarrow> (hasKey kvs column \<longrightarrow> entry kvs column = JStr org) \<and>
          (\<forall>p \<in> set kvs. fst p \<noteq> column \<longrightarrow> \<not> isRelationWrite (snd p))
      | _ \<Rightarrow> True)"

lemma scopedCreateData_lands: "scopedCreateData model operation data org column = Inr d \<Longrightarrow> lands_in column org d"
  by (auto simp: scopedCreateData_def lands_in_def rbind_Inr_iff split: jsv.splits if_splits)

lemma put_key_in: "p \<in> set (put_key k v kvs) \<Longrightarrow> p = (k, v) \<or> p \<in> set kvs"
proof (induction kvs)
  case (Cons q kvs)
  then show ?case by (cases q) (auto split: if_splits)
qed simp

lemma guardWriteData_stays:
  assumes "guardWriteData model operation data org column = Inr d"
  shows "stays_in column org d"
proof (cases data)
  case (JObj kvs)
  with assms show ?thesis
    by (fastforce simp: guardWriteData_def stays_in_def rbind_Inr_iff list_ex_iff split: if_splits dest: put_key_in)
qed (use assms in \<open>auto simp: guardWriteData_def stays_in_def\<close>)

lemma sequence_lands:
  "sequence (map (\<lambda>row. scopedCreateData model operation row org column) rows) = Inr ds \<Longrightarrow>
     d \<in> set ds \<Longrightarrow> lands_in column org d"
  by (induction rows arbitrary: ds) (auto simp: rbind_Inr_iff dest: scopedCreateData_lands)

lemma put_guarded_stays:
  "put_guarded key model operation org column input out = Inr kvs \<Longrightarrow> hasKey input key \<Longrightarrow>
     stays_in column org (entry kvs key)"
  by (drule put_guarded_ok(2), assumption) (rule guardWriteData_stays)

definition payloads :: "jsv \<Rightarrow> jsv list" where
  "payloads v = (case v of JArr rows \<Rightarrow> rows | _ \<Rightarrow> [v])"

text \<open>Whatever a payload for a new row has besides the column goes on as it was sent.\<close>

lemma scopedCreateData_rest:
  "scopedCreateData model operation data org column = Inr d \<Longrightarrow> k \<noteq> column \<Longrightarrow> entry (spread d) k = entry (spread data) k"
  by (auto simp: scopedCreateData_def rbind_Inr_iff split: jsv.splits if_splits)

text \<open>
  C18: What a scoped write writes itself stays in the organization. The statement is about the row, or
  rows, of the model the call names: the fields of its own payload. If the call is let through for a
  tenant's model, then each payload of a create, of a bulk create and of the create half of an upsert
  carries the context's organization, in the column or by connecting exactly that organization; and the
  payload of an update either leaves the column out or sets it to the context's organization, and has no
  nested relation write in any other field. The nested writes of a create are not covered: every field of
  its payload but the column is passed on exactly as it was sent.
\<close>

theorem scoped_write_confined:
  assumes "applyOrgScope model operation args org = Inr out" and "isOrgScopedModel model"
  shows "(map_of ORG_SCOPE_OPERATION_STRATEGY operation = Some CreateData \<longrightarrow>
      lands_in (js ''organizationId'') org (entry (spread out) (js ''data''))) \<and>
    (map_of ORG_SCOPE_OPERATION_STRATEGY operation = Some CreateManyData \<longrightarrow>
      list_all (lands_in (js ''organizationId'') org) (payloads (entry (spread out) (js ''data'')))) \<and>
    (map_of ORG_SCOPE_OPERATION_STRATEGY operation = Some Upsert \<longrightarrow>
      lands_in (js ''organizationId'') org (entry (spread out) (js ''create'')) \<and>
      (hasKey (spread args) (js ''update'') \<longrightarrow>
        stays_in (js ''organizationId'') org (entry (spread out) (js ''update'')))) \<and>
    (map_of ORG_SCOPE_OPERATION_STRATEGY operation \<in> {Some FilterWhere, Some UniqueWhere} \<longrightarrow>
      hasKey (spread args) (js ''data'') \<longrightarrow>
        stays_in (js ''organizationId'') org (entry (spread out) (js ''data''))) \<and>
    (map_of ORG_SCOPE_OPERATION_STRATEGY operation = Some CreateData \<longrightarrow>
      (\<forall>k. k \<noteq> js ''organizationId'' \<longrightarrow>
        entry (spread (entry (spread out) (js ''data''))) k = entry (spread (entry (spread args) (js ''data''))) k))"
proof -
  have col: "org_column model = js ''organizationId''"
    using assms(2) register_disjoint(2) by (auto simp: org_column_def isOrgScopedModel_def)
  from tenant_model_cases [OF assms(1) disjI2 [OF assms(2)]] obtain st where
    st: "map_of ORG_SCOPE_OPERATION_STRATEGY operation = Some st" "st \<noteq> Reject"
      "scopeByColumn model operation st args org (js ''organizationId'') = Inr out" unfolding col by metis
  have one: "payloads d = [d]" if "lands_in (js ''organizationId'') org d" for d
    using that by (cases d) (simp_all add: lands_in_def payloads_def)
  show ?thesis
  proof (cases st)
    case FilterWhere
    with st show ?thesis
      by (auto simp: scopeByColumn_def Let_def rbind_Inr_iff intro: put_guarded_stays)
  next
    case UniqueWhere
    with st show ?thesis
      by (auto simp: scopeByColumn_def Let_def rbind_Inr_iff split: if_splits intro: put_guarded_stays)
  next
    case CreateData
    with st show ?thesis
      by (auto simp: scopeByColumn_def Let_def rbind_Inr_iff dest: scopedCreateData_lands scopedCreateData_rest)
  next
    case CreateManyData
    with st show ?thesis
      by (auto simp: scopeByColumn_def Let_def rbind_Inr_iff one list_all_iff
          payloads_def [of "JArr _"] split: jsv.splits dest!: scopedCreateData_lands sequence_lands)
  next
    case Upsert
    with st(3) obtain w c kvs where u: "out = JObj kvs"
      "scopedCreateData model operation (entry (spread args) (js ''create'')) org (js ''organizationId'') = Inr c"
      "put_guarded (js ''update'') model operation org (js ''organizationId'') (spread args)
         (put_key (js ''create'') c (put_key (js ''where'') w (spread args))) = Inr kvs"
      by (auto simp: scopeByColumn_def Let_def rbind_Inr_iff split: if_splits)
    have "entry kvs (js ''create'') = c" using put_guarded_ok(1) [OF u(3), of "js ''create''"] by simp
    then show ?thesis using Upsert st(1) u scopedCreateData_lands [OF u(2)] put_guarded_stays [OF u(3)] by simp
  qed (use st in simp)
qed

theorem scoped_write_confined_witness:
  "lands_in (js ''organizationId'') (js ''o1'')
     (entry (spread (JObj [(js ''data'', JObj [(js ''name'', JStr (js ''n'')), (js ''organizationId'', JStr (js ''o1''))])]))
       (js ''data''))"
proof -
  have a: "applyOrgScope (js ''Warehouse'') (js ''create'') (JObj [(js ''data'', JObj [(js ''name'', JStr (js ''n''))])]) (js ''o1'') =
    Inr (JObj [(js ''data'', JObj [(js ''name'', JStr (js ''n'')), (js ''organizationId'', JStr (js ''o1''))])])"
    by code_simp
  have m: "isOrgScopedModel (js ''Warehouse'')" by code_simp
  have o: "map_of ORG_SCOPE_OPERATION_STRATEGY (js ''create'') = Some CreateData" by code_simp
  show ?thesis using scoped_write_confined [OF a m, THEN conjunct1] o by (rule mp)
qed

text \<open>
  The seam fails closed. A query leaves it only with a context that names an organization,
  with an operation that has a declared strategy other than \<open>reject\<close> and a model of one of the
  registers; an attempt to create a tenant, to name another organization in a filter or in a
  payload, and everything else ends in one of its errors.
\<close>

theorem seam_fails_closed:
  "withOrgScope ctx model operation args = Inr out \<Longrightarrow>
     (\<exists>o' m st. ctx = Some o' \<and> trim o' \<noteq> [] \<and> model = Some m \<and>
        map_of ORG_SCOPE_OPERATION_STRATEGY operation = Some st \<and> st \<noteq> Reject \<and>
        (out = args \<and> List.member ORG_AGNOSTIC_MODELS m \<or>
         m = ORGANIZATION_MODEL \<and> (st = FilterWhere \<or> st = UniqueWhere) \<or>
         isOrgScopedModel m))"
proof -
  assume a: "withOrgScope ctx model operation args = Inr out"
  then obtain o' where o': "ctx = Some o'" "trim o' \<noteq> []"
    by (cases ctx) (auto simp: withOrgScope_def Let_def split: if_splits)
  have empty: "\<not> List.member ORG_AGNOSTIC_MODELS []" "\<not> isOrgScopedModel []" "[] \<noteq> ORGANIZATION_MODEL"
    by code_simp+
  define m where "m = (case model of Some m \<Rightarrow> m | None \<Rightarrow> [])"
  from a o' have ap: "applyOrgScope m operation args (trim o') = Inr out"
    by (simp add: withOrgScope_def m_def Let_def)
  then obtain st where st: "map_of ORG_SCOPE_OPERATION_STRATEGY operation = Some st" "st \<noteq> Reject"
    by (auto simp: applyOrgScope_def split: option.splits if_splits)
  have md: "List.member ORG_AGNOSTIC_MODELS m \<and> out = args \<or> m = ORGANIZATION_MODEL \<or> isOrgScopedModel m"
    using ap st by (auto simp: applyOrgScope_def split: if_splits)
  then have "model = Some m" using empty by (cases model) (auto simp: m_def)
  moreover have "st = FilterWhere \<or> st = UniqueWhere" if "m = ORGANIZATION_MODEL"
    using tenant_model_cases [OF ap] that st(1) by (metis option.inject)
  ultimately show ?thesis using o' st md by blast
qed

lemma trim_o1: "trim (js ''o1'') = js ''o1''" "js ''o1'' \<noteq> []"
  by (simp_all add: trim_def is_space_def js_def)

theorem seam_fails_closed_witness:
  "\<exists>o' m st. Some (js ''o1'') = Some o' \<and> trim o' \<noteq> [] \<and> Some (js ''Role'') = Some m \<and>
     map_of ORG_SCOPE_OPERATION_STRATEGY (js ''count'') = Some st \<and> st \<noteq> Reject \<and>
     (JObj [(js ''where'', JObj [(js ''organizationId'', JStr (js ''o1''))])] = JUndef \<and> List.member ORG_AGNOSTIC_MODELS m \<or>
      m = ORGANIZATION_MODEL \<and> (st = FilterWhere \<or> st = UniqueWhere) \<or> isOrgScopedModel m)"
proof (rule seam_fails_closed)
  have "applyOrgScope (js ''Role'') (js ''count'') JUndef (js ''o1'') =
      Inr (JObj [(js ''where'', JObj [(js ''organizationId'', JStr (js ''o1''))])])"
    by code_simp
  then show "withOrgScope (Some (js ''o1'')) (Some (js ''Role'')) (js ''count'') JUndef =
      Inr (JObj [(js ''where'', JObj [(js ''organizationId'', JStr (js ''o1''))])])"
    by (simp add: withOrgScope_def trim_o1)
qed

text \<open>The client every service uses: the ledger guard below the organization scope.\<close>

definition guarded_call :: "jstring option \<Rightarrow> jstring option \<Rightarrow> jstring \<Rightarrow> jsv \<Rightarrow> (LedgerImmutableError + ScopeError) + jsv" where
  "guarded_call ctx model operation args =
     (case withOrgScope ctx model operation args of
        Inl e \<Rightarrow> Inl (Inr e)
      | Inr out \<Rightarrow> (case ledgerGuardExtension model operation out of Inl e \<Rightarrow> Inl (Inl e) | Inr out' \<Rightarrow> Inr out'))"

definition appends_or_reads :: "jstring \<Rightarrow> bool" where
  "appends_or_reads operation \<longleftrightarrow>
     List.member [js ''findMany'', js ''findFirst'', js ''findFirstOrThrow'', js ''count'', js ''aggregate'',
       js ''groupBy'', js ''findUnique'', js ''findUniqueOrThrow'', js ''create'', js ''createMany'',
       js ''createManyAndReturn''] operation"

lemma strategy_table:
  "list_all (\<lambda>(operation, st). st = Reject \<or> List.member FORBIDDEN_LEDGER_OPERATIONS operation \<or> appends_or_reads operation)
     ORG_SCOPE_OPERATION_STRATEGY"
  by code_simp

text \<open>
  The ledger is append only. Through the client the services hold, an operation on
  \<open>StockMovement\<close> or \<open>UsageEvent\<close> either reads or inserts; no other operation of the client's
  table gets past both extensions.
\<close>

theorem ledger_append_only:
  assumes "guarded_call ctx (Some model) operation args = Inr out" and "List.member LEDGER_MODELS model"
  shows "appends_or_reads operation"
proof -
  from assms obtain out' where w: "withOrgScope ctx (Some model) operation args = Inr out'"
    and nf: "\<not> List.member FORBIDDEN_LEDGER_OPERATIONS operation"
    by (auto simp: guarded_call_def ledgerGuardExtension_def isForbiddenLedgerMutation_def split: sum.splits if_splits)
  from w obtain st where st: "map_of ORG_SCOPE_OPERATION_STRATEGY operation = Some st" "st \<noteq> Reject"
    by (auto simp: withOrgScope_def applyOrgScope_def Let_def split: option.splits if_splits)
  from map_of_SomeD [OF st(1)] strategy_table st(2) nf show ?thesis by (auto simp: list_all_iff)
qed

theorem ledger_append_only_witness: "appends_or_reads (js ''create'')"
proof (rule ledger_append_only)
  have "applyOrgScope (js ''StockMovement'') (js ''create'') (JObj [(js ''data'', JObj [])]) (js ''o1'') =
      Inr (JObj [(js ''data'', JObj [(js ''organizationId'', JStr (js ''o1''))])])"
    by code_simp
  moreover have "\<not> isForbiddenLedgerMutation (Some (js ''StockMovement'')) (js ''create'')" by code_simp
  ultimately show "guarded_call (Some (js ''o1'')) (Some (js ''StockMovement'')) (js ''create'') (JObj [(js ''data'', JObj [])]) =
      Inr (JObj [(js ''data'', JObj [(js ''organizationId'', JStr (js ''o1''))])])"
    by (simp add: guarded_call_def withOrgScope_def trim_o1 ledgerGuardExtension_def)
  show "List.member LEDGER_MODELS (js ''StockMovement'')" by code_simp
qed

end
