(* ===== verification/IsoDates.thy ===== *)
theory IsoDates
  imports Instants
begin

text \<open>
  Reading back the ISO-8601 text of an instant, as \<open>Date.parse\<close> does for every text that
  \<open>toISOString\<close> writes; what \<open>Date.parse\<close> makes of any other text is left to the platform and is
  a parameter. \<open>Date_parse_toISOString\<close> is the round trip over the whole range of a date.
\<close>

section \<open>Days of a civil date\<close>

definition days_of_civil :: "int \<Rightarrow> int \<Rightarrow> int \<Rightarrow> int" where
  "days_of_civil y m d =
     (let y' = (if m \<le> 2 then y - 1 else y);
          mp = (if m \<le> 2 then m + 9 else m - 3);
          yoe = y' mod 400;
          doy = (153 * mp + 2) div 5 + d - 1
      in y' div 400 * 146097 + (yoe * 365 + yoe div 4 - yoe div 100 + doy) - 719468)"

definition yoe_of :: "int \<Rightarrow> int" where
  "yoe_of doe = (doe - doe div 1460 + doe div 36524 - doe div 146096) div 365"

definition year_start :: "int \<Rightarrow> int" where
  "year_start y = 365 * y + y div 4 - y div 100"

definition year_end :: "int \<Rightarrow> int" where
  "year_end y = (if y = 399 then 146096 else year_start (y + 1) - 1)"

definition doy_month :: "int \<Rightarrow> int \<times> int" where
  "doy_month doy = (let mp = (5 * doy + 2) div 153 in (mp, doy - (153 * mp + 2) div 5 + 1))"

lemma sub_div_mono: "m \<le> n \<Longrightarrow> 0 < k \<Longrightarrow> m - m div k \<le> n - n div (k :: int)"
proof -
  assume "m \<le> n" "0 < k"
  then have "n - m \<le> (n - m) * k" by (simp add: mult_le_cancel_left1)
  then have "n div k \<le> (m + (n - m) * k) div k" using \<open>0 < k\<close> by (intro zdiv_mono1) simp_all
  also have "\<dots> = m div k + (n - m)" using \<open>0 < k\<close> by simp
  finally show ?thesis by simp
qed

lemma yoe_of_mono:
  assumes "m \<le> n"
  shows "yoe_of m \<le> yoe_of n"
proof -
  have a: "m - m div 1460 \<le> n - n div 1460" using assms by (simp add: sub_div_mono)
  have e: "x div 146096 = x div 36524 div 4" for x :: int
    by (simp flip: zdiv_zmult2_eq)
  have "m div 36524 \<le> n div 36524" using assms by (simp add: zdiv_mono1)
  then have "m div 36524 - m div 36524 div 4 \<le> n div 36524 - n div 36524 div 4" by (simp add: sub_div_mono)
  with a have "m - m div 1460 + m div 36524 - m div 146096 \<le> n - n div 1460 + n div 36524 - n div 146096"
    unfolding e by linarith
  then show ?thesis unfolding yoe_of_def by (rule zdiv_mono1) simp
qed

lemma year_table:
  "list_all (\<lambda>y. yoe_of (year_start y) = y \<and> yoe_of (year_end y) = y \<and> year_end y - year_start y \<le> 365 \<and>
     year_start y \<le> year_end y) [0..399]"
  by code_simp

lemma month_table:
  "list_all (\<lambda>doy. 0 \<le> fst (doy_month doy) \<and> fst (doy_month doy) \<le> 11 \<and>
     1 \<le> snd (doy_month doy) \<and> snd (doy_month doy) \<le> 31) [0..365]"
  by code_simp

lemma year_of_day:
  assumes "0 \<le> doe" and "doe \<le> year_end (int n)" and "n \<le> 399"
  shows "\<exists>y. 0 \<le> y \<and> y \<le> 399 \<and> year_start y \<le> doe \<and> doe \<le> year_end y"
  using assms
proof (induction n)
  case (Suc n)
  show ?case
  proof (cases "doe \<le> year_end (int n)")
    case False
    with Suc.prems have "year_start (int (Suc n)) \<le> doe" by (simp add: year_end_def add.commute)
    with Suc.prems show ?thesis by (intro exI [of _ "int (Suc n)"]) simp
  qed (use Suc in simp)
qed (intro exI [of _ 0], simp add: year_start_def)

lemma yoe_facts:
  assumes "0 \<le> doe" and "doe < 146097"
  shows "0 \<le> yoe_of doe" "yoe_of doe \<le> 399" "0 \<le> doe - year_start (yoe_of doe)"
    "doe - year_start (yoe_of doe) \<le> 365"
proof -
  have "doe \<le> year_end (int 399)" using assms(2) by (simp add: year_end_def)
  with assms(1) obtain y where y: "0 \<le> y" "y \<le> 399" "year_start y \<le> doe" "doe \<le> year_end y"
    using year_of_day [of doe 399] by auto
  then have t: "yoe_of (year_start y) = y" "yoe_of (year_end y) = y" "year_end y - year_start y \<le> 365"
    using year_table by (auto simp: list_all_iff)
  have "yoe_of doe = y" using yoe_of_mono [OF y(3)] yoe_of_mono [OF y(4)] t by linarith
  with y t show "0 \<le> yoe_of doe" "yoe_of doe \<le> 399" "0 \<le> doe - year_start (yoe_of doe)"
    "doe - year_start (yoe_of doe) \<le> 365" by simp_all
qed

lemma civil_roundtrip:
  fixes days :: int
  defines "c \<equiv> civil_of_days days"
  shows "days_of_civil (c_year c) (c_month c) (c_day c) = days"
    "1 \<le> c_month c" "c_month c \<le> 12" "1 \<le> c_day c" "c_day c \<le> 31"
proof -
  define doe where "doe = (days + 719468) mod 146097"
  define era where "era = (days + 719468) div 146097"
  define doy where "doy = doe - year_start (yoe_of doe)"
  define mp where "mp = (5 * doy + 2) div 153"
  have doe: "0 \<le> doe" "doe < 146097" by (simp_all add: doe_def)
  note y = yoe_facts [OF doe, folded doy_def]
  have mp: "0 \<le> mp" "mp \<le> 11" "1 \<le> doy - (153 * mp + 2) div 5 + 1" "doy - (153 * mp + 2) div 5 + 1 \<le> 31"
    using month_table y(3,4) by (auto simp: list_all_iff doy_month_def mp_def Let_def)
  have c: "c_month c = (if mp < 10 then mp + 3 else mp - 9)"
    "c_year c = yoe_of doe + era * 400 + (if c_month c \<le> 2 then 1 else 0)"
    "c_day c = doy - (153 * mp + 2) div 5 + 1"
    unfolding c_def civil_of_days_def Let_def mp_def doy_def year_start_def yoe_of_def doe_def era_def
    by (simp_all only: civil.simps refl)
  show "1 \<le> c_month c" "c_month c \<le> 12" "1 \<le> c_day c" "c_day c \<le> 31"
    using mp unfolding c(1,3) by auto
  have m2: "c_month c \<le> 2 \<longleftrightarrow> \<not> mp < 10" using mp(1,2) by (simp add: c(1))
  have yy: "(yoe_of doe + era * 400) mod 400 = yoe_of doe" "(yoe_of doe + era * 400) div 400 = era"
    using y(1,2) by simp_all
  have eq: "era * 146097 + doe - 719468 = days" unfolding era_def doe_def by simp
  show "days_of_civil (c_year c) (c_month c) (c_day c) = days"
    using yy eq m2 by (simp add: days_of_civil_def c Let_def doy_def year_start_def)
qed

section \<open>Fields of fixed width\<close>

lemma dec_digits_length: "n < 10 ^ w \<Longrightarrow> 0 < w \<Longrightarrow> length (dec_digits n) \<le> w"
proof (induction n arbitrary: w rule: dec_digits.induct)
  case (1 n)
  show ?case
  proof (cases "n < 10")
    case False
    then obtain v where v: "w = Suc v" "0 < v" using "1.prems" by (cases w; cases "w - 1") auto
    then have "n div 10 < 10 ^ v" using "1.prems"(1) by (simp add: less_mult_imp_div_less mult.commute)
    from "1.IH" [OF False this v(2)] False v(1) show ?thesis by (simp add: dec_digits.simps [of n])
  qed (use "1.prems"(2) in \<open>simp add: dec_digits.simps [of n]\<close>)
qed

lemma dec_value_zeros: "dec_value (replicate k 48 @ d) = dec_value d"
  by (induction k) (simp_all add: dec_value_def)

lemma pad_to_field:
  assumes "0 \<le> n" and "n < 10 ^ w" and "0 < w"
  shows "length (pad_to w n) = w" "int (dec_value (pad_to w n)) = n"
proof -
  have "nat n < 10 ^ w" using assms by (simp add: nat_less_iff)
  from dec_digits_length [OF this assms(3)] show "length (pad_to w n) = w" by (simp add: pad_to_def Let_def)
  show "int (dec_value (pad_to w n)) = n" using assms(1) by (simp add: pad_to_def Let_def dec_value_zeros)
qed

section \<open>Reading\<close>

definition MAX_TIME :: int where "MAX_TIME = 8640000000000000"

definition iso_candidate :: "jstring \<Rightarrow> int" where
  "iso_candidate s =
     (let (y, r) =
            (case s of
               c # u \<Rightarrow> if c = 43 \<or> c = 45
                        then ((if c = 45 then -1 else 1) * int (dec_value (take 6 u)), drop 6 u)
                        else (int (dec_value (take 4 s)), drop 4 s)
             | [] \<Rightarrow> (0, []));
          field = (\<lambda>i w. int (dec_value (take w (drop i r))))
      in days_of_civil y (field 1 2) (field 4 2) * 86400000 + field 7 2 * 3600000 + field 10 2 * 60000 +
         field 13 2 * 1000 + field 16 3)"

definition parse_iso :: "jstring \<Rightarrow> int option" where
  "parse_iso s =
     (let t = iso_candidate s in
      if \<bar>t\<bar> \<le> MAX_TIME \<and> toISOString t = s then Some t else None)"

definition Date_parse :: "(jstring \<Rightarrow> int option) \<Rightarrow> jstring \<Rightarrow> int option" where
  "Date_parse other s = (case parse_iso s of Some t \<Rightarrow> Some t | None \<Rightarrow> other s)"

lemma iso_year_bound:
  assumes "\<bar>t\<bar> \<le> MAX_TIME"
  shows "\<bar>c_year (civil_of_days (t div 86400000))\<bar> < 10 ^ 6"
proof -
  define days where "days = t div 86400000"
  have "days \<le> 100000000" "-100000000 \<le> days"
    using zdiv_mono1 [of t 8640000000000000 86400000] zdiv_mono1 [of "-8640000000000000" t 86400000] assms
    by (simp_all add: days_def MAX_TIME_def)
  then have e: "(days + 719468) div 146097 \<le> 700" "-700 \<le> (days + 719468) div 146097"
    using zdiv_mono1 [of "days + 719468" 100719468 146097] zdiv_mono1 [of "-99280532" "days + 719468" 146097]
    by simp_all
  define doe where "doe = (days + 719468) mod 146097"
  have doe: "0 \<le> doe" "doe < 146097" by (simp_all add: doe_def)
  obtain era where era: "era = (days + 719468) div 146097" by simp
  have "\<exists>P. c_year (civil_of_days days) = yoe_of doe + era * 400 + (if P then 1 else 0)"
    unfolding era civil_of_days_def Let_def yoe_of_def doe_def by (rule exI) (simp only: civil.simps)
  then obtain b where "c_year (civil_of_days days) = yoe_of doe + era * 400 + b" "0 \<le> b" "b \<le> 1"
    by (metis (full_types) order_refl zero_le_one)
  with yoe_facts(1,2) [OF doe] e [folded era] show ?thesis unfolding days_def [symmetric] by simp
qed

lemma take_field: "length a = n \<Longrightarrow> take n (a @ b) = a" "length a = n \<Longrightarrow> drop n (a @ b) = b"
  by simp_all

lemma iso_candidate_toISOString:
  assumes "\<bar>t\<bar> \<le> MAX_TIME"
  shows "iso_candidate (toISOString t) = t"
proof -
  define c where "c = civil_of_days (t div 86400000)"
  define r where "r = t mod 86400000"
  have r: "0 \<le> r" "r < 86400000" by (simp_all add: r_def)
  note cr = civil_roundtrip [of "t div 86400000", folded c_def]
  have b: "0 \<le> r div 3600000" "r div 3600000 < 100" "0 \<le> r div 60000 mod 60" "r div 60000 mod 60 < 100"
    "0 \<le> r div 1000 mod 60" "r div 1000 mod 60 < 100" "0 \<le> r mod 1000" "r mod 1000 < 1000"
  proof -
    have "r div 3600000 \<le> 86399999 div 3600000" using r by (intro zdiv_mono1) simp_all
    then show "r div 3600000 < 100" by simp
    have m: "x mod 60 < 100" for x :: int by (rule less_trans [OF pos_mod_bound]) simp_all
    show "r div 60000 mod 60 < 100" "r div 1000 mod 60 < 100" by (rule m)+
  qed (use r in \<open>simp_all add: pos_imp_zdiv_nonneg_iff\<close>)
  let ?f = "\<lambda>w n. length (pad_to w n) = w \<and> int (dec_value (pad_to w n)) = n"
  have f: "?f 2 (c_month c)" "?f 2 (c_day c)" "?f 2 (r div 3600000)" "?f 2 (r div 60000 mod 60)"
    "?f 2 (r div 1000 mod 60)" "?f 3 (r mod 1000)"
  proof -
    have F2: "?f 2 n" if "0 \<le> n" "n < 100" for n using that by (simp add: pad_to_field)
    have F3: "?f 3 n" if "0 \<le> n" "n < 1000" for n using that by (simp add: pad_to_field)
    have md: "c_month c < 100" "c_day c < 100" "0 \<le> c_month c" "0 \<le> c_day c" using cr(2-5) by simp_all
    show "?f 2 (c_month c)" by (rule F2 [OF md(3,1)])
    show "?f 2 (c_day c)" by (rule F2 [OF md(4,2)])
    show "?f 2 (r div 3600000)" by (rule F2 [OF b(1,2)])
    show "?f 2 (r div 60000 mod 60)" by (rule F2 [OF b(3,4)])
    show "?f 2 (r div 1000 mod 60)" by (rule F2 [OF b(5,6)])
    show "?f 3 (r mod 1000)" by (rule F3 [OF b(7,8)])
  qed
  define rest where "rest = [45] @ pad_to 2 (c_month c) @ [45] @ pad_to 2 (c_day c) @ [84] @
         pad_to 2 (r div 3600000) @ [58] @ pad_to 2 (r div 60000 mod 60) @ [58] @
         pad_to 2 (r div 1000 mod 60) @ [46] @ pad_to 3 (r mod 1000) @ [90]"
  have iso: "toISOString t = iso_year (c_year c) @ rest"
    by (simp add: toISOString_def c_def r_def rest_def Let_def)
  let ?g = "\<lambda>i w. int (dec_value (take w (drop i rest)))"
  have fields: "?g 1 2 = c_month c" "?g 4 2 = c_day c" "?g 7 2 = r div 3600000" "?g 10 2 = r div 60000 mod 60"
    "?g 13 2 = r div 1000 mod 60" "?g 16 3 = r mod 1000"
    using f by (simp_all add: rest_def)
  have time: "(t div 86400000) * 86400000 + r div 3600000 * 3600000 + r div 60000 mod 60 * 60000 +
      r div 1000 mod 60 * 1000 + r mod 1000 = t"
  proof -
    have "r div 60000 div 60 = r div 3600000" "r div 1000 div 60 = r div 60000" by (simp_all flip: zdiv_zmult2_eq)
    then show ?thesis
      using div_mult_mod_eq [of t 86400000] div_mult_mod_eq [of "r div 60000" 60] div_mult_mod_eq [of "r div 1000" 60]
        div_mult_mod_eq [of r 1000] unfolding r_def [symmetric] by linarith
  qed
  let ?y = "c_year c"
  have y: "\<bar>?y\<bar> < 10 ^ 6" unfolding c_def by (rule iso_year_bound [OF assms])
  have digit: "x \<noteq> 43 \<and> x \<noteq> 45" if "x \<in> set (pad_to w n)" for x w n
    using that dec_digits_are_digits [of x "nat n"] by (auto simp: pad_to_def Let_def is_digit_def)
  have "iso_candidate (toISOString t) = days_of_civil ?y (?g 1 2) (?g 4 2) * 86400000 + ?g 7 2 * 3600000 +
      ?g 10 2 * 60000 + ?g 13 2 * 1000 + ?g 16 3"
  proof (cases "0 \<le> ?y \<and> ?y \<le> 9999")
    case True
    then have p: "length (pad_to 4 ?y) = 4" "int (dec_value (pad_to 4 ?y)) = ?y" by (simp_all add: pad_to_field)
    then obtain x u where xu: "pad_to 4 ?y = x # u" by (cases "pad_to 4 ?y") auto
    have "x \<in> set (pad_to 4 ?y)" by (simp add: xu)
    from digit [OF this] have x: "x \<noteq> 43" "x \<noteq> 45" by simp_all
    have i: "toISOString t = x # (u @ rest)" using True xu by (simp add: iso iso_year_def)
    have "take 4 (x # (u @ rest)) = pad_to 4 ?y" "drop 4 (x # (u @ rest)) = rest"
      using p(1) unfolding xu by simp_all
    then show ?thesis using x p(2) unfolding i iso_candidate_def Let_def by (simp only: list.case if_False prod.case simp_thms)
  next
    case False
    then have i: "toISOString t = (if ?y < 0 then 45 else 43) # (pad_to 6 \<bar>?y\<bar> @ rest)" by (auto simp: iso iso_year_def)
    have p: "length (pad_to 6 \<bar>?y\<bar>) = 6" "int (dec_value (pad_to 6 \<bar>?y\<bar>)) = \<bar>?y\<bar>"
      using y by (simp_all add: pad_to_field)
    then have "take 6 (pad_to 6 \<bar>?y\<bar> @ rest) = pad_to 6 \<bar>?y\<bar>" "drop 6 (pad_to 6 \<bar>?y\<bar> @ rest) = rest" by simp_all
    then show ?thesis using p(2) unfolding i iso_candidate_def Let_def by (cases "?y < 0") simp_all
  qed
  then show ?thesis unfolding fields cr(1) using time by simp
qed

text \<open>What \<open>toISOString\<close> writes is read back, whatever the platform does with other texts.\<close>

lemma Date_parse_toISOString: "\<bar>t\<bar> \<le> MAX_TIME \<Longrightarrow> Date_parse other (toISOString t) = Some t"
  by (simp add: Date_parse_def parse_iso_def iso_candidate_toISOString Let_def)

end
