(* ===== verification/Cursor.thy ===== *)
theory Cursor
  imports Json IsoDates OrgLock "HOL-Library.List_Lexorder"
begin

text \<open>
  \<open>apps/api/src/common/cursor.ts\<close>: the opaque keyset cursor, the \<open>limit\<close> query parameter and the
  splitting of an over-fetched page, with the keyset query every list issues. The numeric literals
  of \<open>Number(s)\<close> keep their exact value; beyond the range of a double they are infinite.
\<close>

section \<open>Numbers of a query string\<close>

definition number_value :: "rat \<Rightarrow> jsnum" where
  "number_value x =
     (if 2 ^ 1024 - 2 ^ 970 \<le> x then PosInf else if x \<le> - (2 ^ 1024 - 2 ^ 970) then NegInf else Fin x)"

definition radix_digit :: "nat \<Rightarrow> nat \<Rightarrow> nat option" where
  "radix_digit b c = (case json_hex c of Some d \<Rightarrow> if d < b then Some d else None | None \<Rightarrow> None)"

definition radix_value :: "nat \<Rightarrow> jstring \<Rightarrow> jsnum" where
  "radix_value b ds =
     (if ds = [] \<or> list_ex (\<lambda>c. radix_digit b c = None) ds then NaN
      else number_value (of_nat (foldl (\<lambda>v c. b * v + the (radix_digit b c)) 0 ds)))"

definition decimal_literal :: "jstring \<Rightarrow> rat option" where
  "decimal_literal s =
     (let (ds, r) = digits_span s;
          (fs, r') = (case r of c # r1 \<Rightarrow> if c = 46 then digits_span r1 else ([], r) | [] \<Rightarrow> ([], []))
      in if ds = [] \<and> fs = [] then None
         else (case json_exp r' of
                 Some (e, []) \<Rightarrow> Some (scale10 (of_nat (dec_value (ds @ fs))) (e - int (length fs)))
               | _ \<Rightarrow> None))"

definition string_to_number :: "jstring \<Rightarrow> jsnum" where
  "string_to_number str =
     (case trim str of
        [] \<Rightarrow> Fin 0
      | c # r \<Rightarrow>
          if c = 48 \<and> r \<noteq> [] \<and> (hd r = 120 \<or> hd r = 88) then radix_value 16 (tl r)
          else if c = 48 \<and> r \<noteq> [] \<and> (hd r = 111 \<or> hd r = 79) then radix_value 8 (tl r)
          else if c = 48 \<and> r \<noteq> [] \<and> (hd r = 98 \<or> hd r = 66) then radix_value 2 (tl r)
          else (let (neg, u) = (if c = 45 then (True, r) else if c = 43 then (False, r) else (False, c # r))
                in if u = js ''Infinity'' then (if neg then NegInf else PosInf)
                   else (case decimal_literal u of
                           None \<Rightarrow> NaN
                         | Some x \<Rightarrow> number_value (if neg then - x else x))))"

text \<open>\<open>Number(v)\<close>; an array is converted through its text.\<close>

fun to_number :: "jsv \<Rightarrow> jsnum" where
  "to_number JUndef = NaN"
| "to_number JNull = Fin 0"
| "to_number (JBool b) = Fin (if b then 1 else 0)"
| "to_number (JNum n) = n"
| "to_number (JStr s) = string_to_number s"
| "to_number (JArr []) = Fin 0"
| "to_number (JArr [v]) =
     (case v of JUndef \<Rightarrow> Fin 0 | JNull \<Rightarrow> Fin 0 | JBool _ \<Rightarrow> NaN | _ \<Rightarrow> to_number v)"
| "to_number (JArr (_ # _ # _)) = NaN"
| "to_number (JObj _) = NaN"

section \<open>The page size\<close>

definition DEFAULT_PAGE_SIZE :: nat where "DEFAULT_PAGE_SIZE = 25"
definition MAX_PAGE_SIZE :: nat where "MAX_PAGE_SIZE = 100"

definition absent :: "jsv \<Rightarrow> bool" where
  "absent raw \<longleftrightarrow> raw = JUndef \<or> raw = JNull \<or> raw = JStr []"

text \<open>The integer a number holds, when it is one.\<close>

definition page_number :: "jsnum \<Rightarrow> nat option" where
  "page_number v =
     (case v of
        Fin x \<Rightarrow> if is_integer v \<and> \<not> num_less v (Fin 1) then Some (nat \<lfloor>x\<rfloor>) else None
      | _ \<Rightarrow> None)"

definition resolveLimit :: "jsv \<Rightarrow> nat \<Rightarrow> Thrown + nat" where
  "resolveLimit raw max_size =
     (if absent raw then Inr (min DEFAULT_PAGE_SIZE max_size)
      else (case page_number (case raw of JNum n \<Rightarrow> n | _ \<Rightarrow> to_number raw) of
              None \<Rightarrow> Inl (derr_fields E_VALIDATION_FAILED [(js ''limit'', LIMIT_INVALID_MESSAGE)])
            | Some v \<Rightarrow> Inr (min v max_size)))"

section \<open>The cursor\<close>

record KeysetCursor =
  kc_createdAt :: jstring
  kc_id :: jstring

text \<open>\<open>JSON.stringify\<close> of an object whose members are strings.\<close>

fun json_members :: "(jstring \<times> jstring) list \<Rightarrow> jstring" where
  "json_members [] = []"
| "json_members [(k, v)] = JSON_quote k @ [58] @ JSON_quote v"
| "json_members ((k, v) # kvs) = JSON_quote k @ [58] @ JSON_quote v @ [44] @ json_members kvs"

definition JSON_stringify_strings :: "(jstring \<times> jstring) list \<Rightarrow> jstring" where
  "JSON_stringify_strings kvs = [123] @ json_members kvs @ [125]"

definition encodeCursor :: "KeysetCursor \<Rightarrow> jstring" where
  "encodeCursor cursor =
     base64url (utf8 (JSON_stringify_strings [(js ''c'', kc_createdAt cursor), (js ''i'', kc_id cursor)]))"

definition decodeCursor :: "(jstring \<Rightarrow> int option) \<Rightarrow> jsv \<Rightarrow> KeysetCursor option" where
  "decodeCursor other raw =
     (case raw of
        JStr s \<Rightarrow>
          if trim s = [] then None
          else (case JSON_parse (utf8_decode (base64url_decode s)) of
                  None \<Rightarrow> None
                | Some parsed \<Rightarrow>
                    (case (get_prop parsed (js ''c''), get_prop parsed (js ''i'')) of
                       (JStr c, JStr i) \<Rightarrow>
                         if c = [] \<or> i = [] then None
                         else if Date_parse other c = None then None
                         else Some \<lparr>kc_createdAt = c, kc_id = i\<rparr>
                     | _ \<Rightarrow> None))
      | _ \<Rightarrow> None)"

definition requireCursor :: "(jstring \<Rightarrow> int option) \<Rightarrow> jsv \<Rightarrow> Thrown + KeysetCursor option" where
  "requireCursor other raw =
     (if absent raw then Inr None
      else (case decodeCursor other raw of
              None \<Rightarrow> Inl (derr_fields E_VALIDATION_FAILED [(js ''cursor'', CURSOR_INVALID_MESSAGE)])
            | Some c \<Rightarrow> Inr (Some c)))"

section \<open>Round trip\<close>

lemma skip_ws_cons_id: "\<not> is_ws c \<Longrightarrow> skip_ws (c # s) = c # s"
  by (simp add: skip_ws_def)

lemma ascii_quoted:
  assumes "list_all (\<lambda>c. 32 \<le> c \<and> c < 128 \<and> c \<noteq> 34 \<and> c \<noteq> 92) s"
  shows "JSON_quote s = [34] @ s @ [34]"
proof -
  have "is_ascii s" using assms by (auto simp: is_ascii_def list_all_iff)
  moreover have "quote_point [c] = [c]" if "c \<in> set s" for c
    using that assms by (auto simp: quote_point_def list_all_iff is_high_surrogate_def is_low_surrogate_def)
  ultimately show ?thesis
    by (simp add: JSON_quote_def ascii_code_points comp_def cong: map_cong)
qed

lemma parse_cursor_text:
  assumes "code_units c" and "code_units i"
  shows "JSON_parse (JSON_stringify_strings [(js ''c'', c), (js ''i'', i)]) =
    Some (JObj [(js ''c'', JStr c), (js ''i'', JStr i)])"
proof -
  let ?q = "\<lambda>x. concat (map quote_point (code_points x))"
  let ?s2 = "34 # 105 # 34 # 58 # 34 # ?q i @ [34, 125]"
  let ?s1 = "34 # 99 # 34 # 58 # 34 # ?q c @ 34 # 44 # ?s2"
  have key: "JSON_quote (js [CHR ''c'']) = [34, 99, 34]" "JSON_quote (js [CHR ''i'']) = [34, 105, 34]"
    by (simp_all add: ascii_quoted js_def)
  have s: "JSON_stringify_strings [(js ''c'', c), (js ''i'', i)] = 123 # ?s1"
    by (simp add: JSON_stringify_strings_def key JSON_quote_def [of c] JSON_quote_def [of i])
  have k: "parse_string (99 # 34 # r) = Some ([99], r)" "parse_string (105 # 34 # r) = Some ([105], r)" for r
    by (simp_all add: parse_string.simps(2))
  have v: "parse_value (Suc n) (34 # ?q x @ 34 # r) = Some (JStr x, r)" if "code_units x" for n x r
    using parse_quoted [OF that] by (simp add: parse_value.simps(2) skip_ws_def is_ws_def)
  have w: "skip_ws (34 # r) = 34 # r" "skip_ws (58 # r) = 58 # r" "skip_ws (44 # r) = 44 # r"
    "skip_ws (125 # r) = 125 # r" "skip_ws (123 # r) = 123 # r" for r
    by (simp_all add: skip_ws_def is_ws_def)
  have m2: "parse_members (Suc (Suc n)) acc ?s2 = Some (put_key [105] (JStr i) acc, [])" for n acc
    using v [OF assms(2), of n "[125]"] by (simp add: parse_members.simps(2) w k)
  have m1: "parse_members (Suc (Suc (Suc n))) [] ?s1 = Some ([([99], JStr c), ([105], JStr i)], [])" for n
    using v [OF assms(1), of "Suc n" "44 # ?s2"] m2 [of n "[([99], JStr c)]"]
    by (simp add: parse_members.simps(2) [of "Suc (Suc n)"] w k)
  obtain n where n: "JSON_fuel (123 # ?s1) = Suc (Suc (Suc (Suc n)))" by (simp add: JSON_fuel_def)
  have "parse_value (JSON_fuel (123 # ?s1)) (123 # ?s1) = Some (JObj [([99], JStr c), ([105], JStr i)], [])"
    unfolding n using m1 [of n] by (simp add: parse_value.simps(2) w)
  then show ?thesis unfolding s by (simp add: JSON_parse_def skip_ws_def js_def)
qed

lemma code_points_append:
  "list_all (\<lambda>p. scalar_of p \<noteq> None) (code_points a) \<Longrightarrow> code_points (a @ b) = code_points a @ code_points b"
proof (induction a rule: code_points.induct)
  case (2 c)
  then show ?case by (cases b) (auto split: if_splits)
qed auto

lemma well_formed_append: "well_formed a \<Longrightarrow> well_formed b \<Longrightarrow> well_formed (a @ b)"
  by (simp add: well_formed_def code_units_def code_points_append)

lemma well_formed_Nil: "well_formed []"
  by (simp add: well_formed_def code_units_def)

lemma well_formed_ascii: "is_ascii s \<Longrightarrow> well_formed s"
  by (auto simp: well_formed_def code_units_def is_ascii_def list_all_iff ascii_code_points
      is_high_surrogate_def is_low_surrogate_def)

lemma hex_digit_ascii: "d < 16 \<Longrightarrow> hex_digit d < 128"
  by (simp add: hex_digit_def)

lemma hex4_ascii: "c < 65536 \<Longrightarrow> is_ascii (hex4 c)"
  by (simp add: is_ascii_def hex4_def hex_digit_ascii div_less_iff_less_mult)

lemma well_formed_quote_point:
  assumes "p \<in> set (code_points s)" and "code_units s"
  shows "well_formed (quote_point p)"
proof -
  have lt: "c < 65536" if "c \<in> set p" for c
    using code_points_units [OF assms(1) that] assms(2) by (auto simp: code_units_def list_all_iff)
  from code_points_shape [OF assms(1)] show ?thesis
  proof (elim disjE exE conjE)
    fix c assume p: "p = [c]"
    show ?thesis
    proof (cases "quote_point p = [c] \<and> \<not> (is_high_surrogate c \<or> is_low_surrogate c)")
      case True
      then show ?thesis using lt p by (simp add: well_formed_def code_units_def)
    next
      case False
      then have "is_ascii (quote_point p)"
        using lt p hex4_ascii [of c] by (auto simp: quote_point_def is_ascii_def)
      then show ?thesis by (rule well_formed_ascii)
    qed
  next
    fix h l assume "p = [h, l]" "is_high_surrogate h" "is_low_surrogate l"
    then show ?thesis using lt by (simp add: well_formed_def code_units_def quote_point_def)
  qed
qed

lemma well_formed_quote:
  assumes "code_units s"
  shows "well_formed (JSON_quote s)"
proof -
  have "well_formed (concat (map quote_point ps))" if "set ps \<subseteq> set (code_points s)" for ps
    using that
    by (induction ps) (auto simp: well_formed_Nil intro!: well_formed_append well_formed_quote_point [OF _ assms])
  then have "well_formed (concat (map quote_point (code_points s)))" by simp
  then show ?thesis unfolding JSON_quote_def
    by (intro well_formed_append) (simp_all add: well_formed_ascii is_ascii_def)
qed

lemma utf8_byte: "code_units s \<Longrightarrow> b \<in> set (utf8 s) \<Longrightarrow> b < 256"
proof -
  assume c: "code_units s" and b: "b \<in> set (utf8 s)"
  from b obtain p where p: "p \<in> set (code_points s)"
    and m: "b \<in> set (case scalar_of p of Some n \<Rightarrow> utf8_bytes n | None \<Rightarrow> [239, 191, 189])"
    by (auto simp: utf8_def)
  show ?thesis
  proof (cases "scalar_of p")
    case (Some n)
    with scalar_units [OF p c] have "n < 1114112" by (simp add: is_scalar_def)
    then have "n div 4096 < 272" "n div 262144 < 5" by (simp_all add: div_less_iff_less_mult)
    moreover have "x mod 64 < 128" for x :: nat by (rule less_trans [OF mod_less_divisor]) simp_all
    ultimately show ?thesis using m Some
      by (auto simp: utf8_bytes_def div_less_iff_less_mult add_less_le_mono split: if_splits)
  qed (use m in auto)
qed

definition cursor_ok :: "(jstring \<Rightarrow> int option) \<Rightarrow> KeysetCursor \<Rightarrow> bool" where
  "cursor_ok other c \<longleftrightarrow> code_units (kc_createdAt c) \<and> code_units (kc_id c) \<and> kc_createdAt c \<noteq> [] \<and>
     kc_id c \<noteq> [] \<and> Date_parse other (kc_createdAt c) \<noteq> None"

lemma encodeCursor_token:
  "encodeCursor c \<noteq> []" "trim (encodeCursor c) = encodeCursor c"
proof -
  let ?t = "JSON_stringify_strings [(js ''c'', kc_createdAt c), (js ''i'', kc_id c)]"
  have "utf8 ?t \<noteq> []"
  proof -
    have "code_points ?t \<noteq> []" by (simp add: JSON_stringify_strings_def)
    then obtain p ps where ps: "code_points ?t = p # ps" by (cases "code_points ?t") auto
    have "(case scalar_of p of Some n \<Rightarrow> utf8_bytes n | None \<Rightarrow> [239, 191, 189]) \<noteq> []"
      by (auto simp: utf8_bytes_def split: option.split)
    then show ?thesis by (simp add: utf8_def ps)
  qed
  then show ne: "encodeCursor c \<noteq> []"
    using base64url_length [of "utf8 ?t"] by (auto simp: encodeCursor_def)
  have "\<not> is_space x" if "x \<in> set (encodeCursor c)" for x
  proof -
    from that have "is_unreserved x" by (auto simp: encodeCursor_def dest: base64url_chars)
    then show ?thesis by (auto simp: is_unreserved_iff is_space_def)
  qed
  with ne show "trim (encodeCursor c) = encodeCursor c"
    by (intro trim_trimmed) (simp add: trimmed_def)
qed

lemma cursor_decodes:
  assumes "cursor_ok other c"
  shows "decodeCursor other (JStr (encodeCursor c)) = Some c"
proof -
  let ?t = "JSON_stringify_strings [(js ''c'', kc_createdAt c), (js ''i'', kc_id c)]"
  from assms have cu: "code_units (kc_createdAt c)" "code_units (kc_id c)" by (simp_all add: cursor_ok_def)
  have ascii: "well_formed [x]" if "x < 128" for x using that by (intro well_formed_ascii) (simp add: is_ascii_def)
  have k: "code_units (js ''c'')" "code_units (js ''i'')" by (simp_all add: code_units_def js_def)
  have wf: "well_formed ?t"
    unfolding JSON_stringify_strings_def json_members.simps
    by (intro well_formed_append well_formed_quote cu k ascii) simp_all
  then have "utf8_decode (base64url_decode (encodeCursor c)) = ?t"
    unfolding encodeCursor_def
    by (subst base64url_decode_encode) (auto simp: utf8_roundtrip well_formed_def dest: utf8_byte)
  then have p: "JSON_parse (utf8_decode (base64url_decode (encodeCursor c))) =
      Some (JObj [(js ''c'', JStr (kc_createdAt c)), (js ''i'', JStr (kc_id c))])"
    by (simp only: parse_cursor_text [OF cu])
  have g: "get_prop (JObj [(js ''c'', x), (js ''i'', y)]) (js ''c'') = x"
    "get_prop (JObj [(js ''c'', x), (js ''i'', y)]) (js ''i'') = y" for x y
    by (simp_all add: get_prop_def js_def)
  show ?thesis using assms unfolding decodeCursor_def
    by (auto simp: encodeCursor_token p g cursor_ok_def)
qed

text \<open>The cursor of a row.\<close>

definition row_cursor :: "('r \<Rightarrow> int) \<Rightarrow> ('r \<Rightarrow> jstring) \<Rightarrow> 'r \<Rightarrow> KeysetCursor" where
  "row_cursor createdAt rid r = \<lparr>kc_createdAt = toISOString (createdAt r), kc_id = rid r\<rparr>"

lemma dec_digits_ascii: "c \<in> set (dec_digits n) \<Longrightarrow> c < 128"
  by (drule dec_digits_are_digits) (simp add: is_digit_def)

lemma pad_to_ascii: "c \<in> set (pad_to w n) \<Longrightarrow> c < 128"
  by (auto simp: pad_to_def Let_def dest: dec_digits_ascii)

lemma toISOString_ascii: "c \<in> set (toISOString t) \<Longrightarrow> c < 128"
  by (auto simp: toISOString_def Let_def iso_year_def dest: pad_to_ascii split: if_splits)

lemma toISOString_nonempty: "toISOString t \<noteq> []"
  by (simp add: toISOString_def Let_def)

lemma toISOString_code_units: "code_units (toISOString t)"
proof -
  have "c < 65536" if "c \<in> set (toISOString t)" for c
    by (rule less_trans [OF toISOString_ascii [OF that]]) simp
  then show ?thesis by (simp add: code_units_def list_all_iff)
qed

lemma row_cursor_ok:
  "\<bar>createdAt r\<bar> \<le> MAX_TIME \<Longrightarrow> code_units (rid r) \<Longrightarrow> rid r \<noteq> [] \<Longrightarrow> cursor_ok other (row_cursor createdAt rid r)"
  by (simp add: cursor_ok_def row_cursor_def Date_parse_toISOString toISOString_code_units toISOString_nonempty)

section \<open>Pages\<close>

definition TypeError :: Thrown where
  "TypeError = TRaw (JObj [(js ''name'', JStr (js ''TypeError''))])"

definition paginate :: "'r list \<Rightarrow> nat \<Rightarrow> ('r \<Rightarrow> KeysetCursor) \<Rightarrow> Thrown + ('r list \<times> jstring option)" where
  "paginate rows limit toCursor =
     (if length rows \<le> limit then Inr (rows, None)
      else (let items = take limit rows in
            if items = [] then Inl TypeError
            else Inr (items, Some (encodeCursor (toCursor (items ! (length items - 1)))))))"

subsection \<open>The order of a list\<close>

text \<open>\<open>createdAt desc, id desc\<close>: the key that comes first in the list is the smaller one.\<close>

datatype SortKey = SortKey (sk_createdAt: int) (sk_id: jstring)

instantiation SortKey :: linorder
begin

definition less_SortKey :: "SortKey \<Rightarrow> SortKey \<Rightarrow> bool" where
  "less_SortKey a b \<longleftrightarrow> sk_createdAt b < sk_createdAt a \<or> sk_createdAt a = sk_createdAt b \<and> sk_id b < sk_id a"

definition less_eq_SortKey :: "SortKey \<Rightarrow> SortKey \<Rightarrow> bool" where
  "less_eq_SortKey a b \<longleftrightarrow> a < b \<or> a = (b :: SortKey)"

instance
proof
  fix a b c :: SortKey
  show "(a < b) = (a \<le> b \<and> \<not> b \<le> a)" by (auto simp: less_eq_SortKey_def less_SortKey_def)
  show "a \<le> a" by (simp add: less_eq_SortKey_def)
  show "a \<le> b \<Longrightarrow> b \<le> c \<Longrightarrow> a \<le> c" by (auto simp: less_eq_SortKey_def less_SortKey_def)
  show "a \<le> b \<Longrightarrow> b \<le> a \<Longrightarrow> a = b" by (auto simp: less_eq_SortKey_def less_SortKey_def)
  show "a \<le> b \<or> b \<le> a" by (cases a; cases b) (auto simp: less_eq_SortKey_def less_SortKey_def)
qed

end

definition sort_key_of :: "('r \<Rightarrow> int) \<Rightarrow> ('r \<Rightarrow> jstring) \<Rightarrow> 'r \<Rightarrow> SortKey" where
  "sort_key_of createdAt rid r = SortKey (createdAt r) (rid r)"

text \<open>The \<open>where\<close> of a cursor, with \<open>new Date(cursor.createdAt)\<close>; an invalid date is refused by the client.\<close>

definition keyset_where ::
    "(jstring \<Rightarrow> int option) \<Rightarrow> ('r \<Rightarrow> int) \<Rightarrow> ('r \<Rightarrow> jstring) \<Rightarrow> KeysetCursor option \<Rightarrow> Thrown + ('r \<Rightarrow> bool)" where
  "keyset_where other createdAt rid cursor =
     (case cursor of
        None \<Rightarrow> Inr (\<lambda>r. True)
      | Some c \<Rightarrow>
          (case Date_parse other (kc_createdAt c) of
             None \<Rightarrow> Inl (TRaw (JObj [(js ''name'', JStr (js ''PrismaClientValidationError''))]))
           | Some t \<Rightarrow> Inr (\<lambda>r. createdAt r < t \<or> createdAt r = t \<and> rid r < kc_id c)))"

text \<open>\<open>findMany({ where, take: limit + 1, orderBy })\<close>, and the page cut from it.\<close>

definition keyset_fetch ::
    "(jstring \<Rightarrow> int option) \<Rightarrow> ('r \<Rightarrow> int) \<Rightarrow> ('r \<Rightarrow> jstring) \<Rightarrow> KeysetCursor option \<Rightarrow> nat \<Rightarrow> 'r list \<Rightarrow>
     Thrown + 'r list" where
  "keyset_fetch other createdAt rid cursor limit rows =
     rbind (keyset_where other createdAt rid cursor) (\<lambda>P.
       Inr (take (limit + 1) (sort_key (sort_key_of createdAt rid) (filter P rows))))"

definition keyset_page ::
    "(jstring \<Rightarrow> int option) \<Rightarrow> ('r \<Rightarrow> int) \<Rightarrow> ('r \<Rightarrow> jstring) \<Rightarrow> KeysetCursor option \<Rightarrow> nat \<Rightarrow> 'r list \<Rightarrow>
     Thrown + ('r list \<times> jstring option)" where
  "keyset_page other createdAt rid cursor limit rows =
     rbind (keyset_fetch other createdAt rid cursor limit rows)
       (\<lambda>page. paginate page limit (row_cursor createdAt rid))"

text \<open>Rows whose position a cursor can name.\<close>

definition pageable :: "('r \<Rightarrow> int) \<Rightarrow> ('r \<Rightarrow> jstring) \<Rightarrow> 'r list \<Rightarrow> bool" where
  "pageable createdAt rid rows \<longleftrightarrow>
     distinct (map rid rows) \<and>
     list_all (\<lambda>r. \<bar>createdAt r\<bar> \<le> MAX_TIME \<and> code_units (rid r) \<and> rid r \<noteq> []) rows"

lemma less_sort_key:
  "sort_key_of createdAt rid a < sort_key_of createdAt rid b \<longleftrightarrow>
     createdAt b < createdAt a \<or> createdAt b = createdAt a \<and> rid b < rid a"
  by (auto simp: less_SortKey_def sort_key_of_def)

lemma pageable_keys: "pageable createdAt rid rows \<Longrightarrow> distinct (map (sort_key_of createdAt rid) rows)"
  by (auto simp: pageable_def distinct_map inj_on_def sort_key_of_def)

lemma filter_after:
  assumes "sorted xs" and "distinct xs" and "k < length xs"
  shows "filter (\<lambda>y. xs ! k < (y :: 'k :: linorder)) xs = drop (Suc k) xs"
  using assms
proof (induction xs arbitrary: k)
  case (Cons x xs)
  show ?case
  proof (cases k)
    case 0
    have "\<forall>y \<in> set xs. x < y" using Cons.prems by (auto simp: order.strict_iff_order)
    with 0 show ?thesis by (simp add: filter_id_conv)
  next
    case (Suc j)
    then have "x \<le> xs ! j" using Cons.prems by auto
    with Suc Cons show ?thesis by (auto simp: not_less)
  qed
qed simp

lemma filter_after_key:
  fixes f :: "'r \<Rightarrow> 'k :: linorder"
  assumes "distinct (map f rows)" and "k < length rows"
  shows "filter (\<lambda>r. f (sort_key f rows ! k) < f r) (sort_key f rows) = drop (Suc k) (sort_key f rows)"
proof -
  let ?S = "sort_key f rows"
  have d: "distinct (map f ?S)" using assms(1) by (simp add: distinct_map inj_on_def)
  have so: "sorted (map f ?S)" by simp
  have "map f (filter (\<lambda>r. f (?S ! k) < f r) ?S) = filter (\<lambda>y. map f ?S ! k < y) (map f ?S)"
    using assms(2) by (simp add: filter_map comp_def)
  also have "\<dots> = map f (drop (Suc k) ?S)" using filter_after [OF so d] assms(2) by (simp add: drop_map)
  finally have e: "map f (filter (\<lambda>r. f (?S ! k) < f r) ?S) = map f (drop (Suc k) ?S)" .
  have inj: "inj_on f (set ?S)" using assms(1) by (simp add: distinct_map)
  show ?thesis
    by (rule inj_on_map_eq_map [THEN iffD1, OF _ e]) (rule inj_on_subset [OF inj], auto dest: in_set_dropD)
qed

text \<open>The page that starts at a position of the sorted list.\<close>

lemma page_at:
  fixes createdAt :: "'r \<Rightarrow> int" and rid :: "'r \<Rightarrow> jstring" and rows :: "'r list"
  defines "f \<equiv> sort_key_of createdAt rid"
  defines "S \<equiv> sort_key f rows"
  assumes "pageable createdAt rid rows" and "k \<le> length rows" and "1 \<le> limit"
  shows "keyset_page other createdAt rid (if k = 0 then None else Some (row_cursor createdAt rid (S ! (k - 1)))) limit rows =
    Inr (take limit (drop k S),
         if length rows \<le> k + limit then None else Some (encodeCursor (row_cursor createdAt rid (S ! (k + limit - 1)))))"
proof -
  have ok: "\<bar>createdAt r\<bar> \<le> MAX_TIME" if "r \<in> set rows" for r using that assms(3) by (auto simp: pageable_def list_all_iff)
  obtain P where P: "keyset_where other createdAt rid (if k = 0 then None else Some (row_cursor createdAt rid (S ! (k - 1)))) = Inr P"
    and fP: "filter P S = drop k S"
  proof (cases k)
    case 0
    then show ?thesis by (intro that [of "\<lambda>r. True"]) (simp_all add: keyset_where_def)
  next
    case (Suc j)
    then have j: "j < length rows" using assms(4) by simp
    then have "S ! j \<in> set rows" unfolding S_def by (metis length_sort nth_mem set_sort)
    then have d: "Date_parse other (kc_createdAt (row_cursor createdAt rid (S ! j))) = Some (createdAt (S ! j))"
      by (simp add: row_cursor_def Date_parse_toISOString ok)
    show ?thesis
    proof (rule that [of "\<lambda>r. f (S ! j) < f r"])
      show "keyset_where other createdAt rid (if k = 0 then None else Some (row_cursor createdAt rid (S ! (k - 1)))) =
          Inr (\<lambda>r. f (S ! j) < f r)"
        unfolding f_def less_sort_key using Suc d by (simp add: keyset_where_def) (simp add: row_cursor_def)
      show "filter (\<lambda>r. f (S ! j) < f r) S = drop k S"
        unfolding S_def Suc using pageable_keys [OF assms(3)] j by (intro filter_after_key) (simp_all add: f_def)
    qed
  qed
  have s: "sort_key f (filter P rows) = drop k S" using fP by (simp add: S_def filter_sort)
  have l: "length S = length rows" by (simp add: S_def)
  have pg: "keyset_page other createdAt rid (if k = 0 then None else Some (row_cursor createdAt rid (S ! (k - 1)))) limit rows =
      paginate (take (limit + 1) (drop k S)) limit (row_cursor createdAt rid)"
    unfolding keyset_page_def keyset_fetch_def P rbind_simps s [unfolded f_def] ..
  show ?thesis unfolding pg
  proof (cases "length rows \<le> k + limit")
    case True
    then have "take (limit + 1) (drop k S) = take limit (drop k S)" using l by simp
    with True l show "paginate (take (limit + 1) (drop k S)) limit (row_cursor createdAt rid) =
      Inr (take limit (drop k S),
           if length rows \<le> k + limit then None else Some (encodeCursor (row_cursor createdAt rid (S ! (k + limit - 1)))))"
      by (simp add: paginate_def)
  next
    case False
    then have t: "take limit (take (limit + 1) (drop k S)) = take limit (drop k S)" "length (take (limit + 1) (drop k S)) = limit + 1"
      using l False by (simp_all add: min_def) linarith
    have i: "length (take limit (drop k S)) = limit" using False l by simp
    have n: "take limit (drop k S) ! (limit - 1) = S ! (k + limit - 1)" using False l assms(5) by simp
    have ne: "take limit (drop k S) \<noteq> []" using i assms(5) by auto
    show "paginate (take (limit + 1) (drop k S)) limit (row_cursor createdAt rid) =
      Inr (take limit (drop k S),
           if length rows \<le> k + limit then None else Some (encodeCursor (row_cursor createdAt rid (S ! (k + limit - 1)))))"
      unfolding paginate_def t i n Let_def using False ne by simp
  qed
qed

section \<open>Following the cursors\<close>

text \<open>
  A client that asks for the first page and then for every \<open>nextCursor\<close> it is given; \<open>n\<close> bounds the
  number of requests.
\<close>

primrec walk :: "(jsv \<Rightarrow> Thrown + ('i list \<times> jstring option)) \<Rightarrow> nat \<Rightarrow> jsv \<Rightarrow> 'i list list option" where
  "walk get 0 raw = None"
| "walk get (Suc n) raw =
     (case get raw of
        Inl _ \<Rightarrow> None
      | Inr (items, nextCursor) \<Rightarrow>
          (case nextCursor of
             None \<Rightarrow> Some [items]
           | Some t \<Rightarrow> map_option (\<lambda>pages. items # pages) (walk get n (JStr t))))"

definition map_page :: "('r \<Rightarrow> 'i) \<Rightarrow> Thrown + ('r list \<times> jstring option) \<Rightarrow> Thrown + ('i list \<times> jstring option)" where
  "map_page f r = rbind r (\<lambda>(rows, nextCursor). Inr (map f rows, nextCursor))"

text \<open>A list whose rows are first completed from other tables, when every row can be.\<close>

lemma paginate_map:
  assumes "\<And>r. cur (s r) = cur' r"
  shows "paginate (map s rows) limit cur = map_page s (paginate rows limit cur')"
proof (cases "length rows \<le> limit \<or> take limit rows = []")
  case False
  then have "length (take limit rows) - 1 < length (take limit rows)" by simp
  then have "cur (map s (take limit rows) ! (length (take limit rows) - 1)) = cur' (take limit rows ! (length (take limit rows) - 1))"
    by (simp only: nth_map assms)
  with False show ?thesis by (simp add: paginate_def map_page_def Let_def take_map)
qed (auto simp: paginate_def map_page_def Let_def)

lemma keyset_select:
  assumes "\<And>r. r \<in> set rows \<Longrightarrow> sel r = Inr (s r)" and "\<And>r. cur (s r) = row_cursor createdAt rid r"
  shows "rbind (keyset_fetch other createdAt rid cursor limit rows)
      (\<lambda>page. rbind (sequence (map sel page)) (\<lambda>ds. paginate ds limit cur)) =
    map_page s (keyset_page other createdAt rid cursor limit rows)"
proof (cases "keyset_fetch other createdAt rid cursor limit rows")
  case (Inr page)
  then have "set page \<subseteq> set rows"
    by (auto simp: keyset_fetch_def rbind_Inr_iff dest!: in_set_takeD)
  then have "sequence (map sel page) = Inr (map s page)" using assms(1) by (intro sequence_map_ok) auto
  with Inr show ?thesis by (simp add: keyset_page_def paginate_map [of cur s "row_cursor createdAt rid", OF assms(2)])
qed (simp add: keyset_page_def map_page_def)

lemma require_encoded: "cursor_ok other c \<Longrightarrow> requireCursor other (JStr (encodeCursor c)) = Inr (Some c)"
  by (simp add: requireCursor_def absent_def encodeCursor_token cursor_decodes)

lemma require_absent: "requireCursor other JUndef = Inr None"
  by (simp add: requireCursor_def absent_def)

text \<open>
  The contract of a list operation: on a good state it answers the keyset page of its rows, each
  row shown by \<open>item\<close>.
\<close>

locale keyset_list =
  fixes fetch :: "'c \<Rightarrow> KeysetCursor option \<Rightarrow> nat \<Rightarrow> Thrown + ('i list \<times> jstring option)"
    and rows :: "'c \<Rightarrow> 'r list"
    and createdAt :: "'r \<Rightarrow> int"
    and rid :: "'r \<Rightarrow> jstring"
    and item :: "'c \<Rightarrow> 'r \<Rightarrow> 'i"
    and other :: "jstring \<Rightarrow> int option"
    and good :: "'c \<Rightarrow> bool"
  assumes good_pageable: "good c \<Longrightarrow> pageable createdAt rid (rows c)"
    and fetch_page: "good c \<Longrightarrow>
      fetch c cursor limit = map_page (item c) (keyset_page other createdAt rid cursor limit (rows c))"
begin

lemma walk_from:
  assumes "good c" and "1 \<le> limit" and "k \<le> length (rows c)" and "length (rows c) - k < n"
    and "requireCursor other raw = Inr (if k = 0 then None
      else Some (row_cursor createdAt rid (sort_key (sort_key_of createdAt rid) (rows c) ! (k - 1))))"
  shows "\<exists>pages. walk (\<lambda>raw. rbind (requireCursor other raw) (\<lambda>cur. fetch c cur limit)) n raw = Some pages \<and>
    concat pages = map (item c) (drop k (sort_key (sort_key_of createdAt rid) (rows c))) \<and>
    list_all (\<lambda>p. length p \<le> limit) pages"
  using assms(3-5)
proof (induction n arbitrary: k raw)
  case (Suc n)
  let ?S = "sort_key (sort_key_of createdAt rid) (rows c)"
  let ?get = "\<lambda>raw. rbind (requireCursor other raw) (\<lambda>cur. fetch c cur limit)"
  have l: "length ?S = length (rows c)" by simp
  have g: "?get raw = Inr (map (item c) (take limit (drop k ?S)),
      if length (rows c) \<le> k + limit then None else Some (encodeCursor (row_cursor createdAt rid (?S ! (k + limit - 1)))))"
    using page_at [OF good_pageable [OF assms(1)] Suc.prems(1) assms(2), of other]
    by (simp add: Suc.prems(3) fetch_page [OF assms(1)] map_page_def)
  show ?case
  proof (cases "length (rows c) \<le> k + limit")
    case True
    then show ?thesis by (simp only: walk.simps g) simp
  next
    case False
    let ?r = "?S ! (k + limit - 1)"
    have "k + limit - 1 < length ?S" using False l assms(2) by linarith
    then have "?r \<in> set (rows c)" using nth_mem [of "k + limit - 1" ?S] by simp
    then have "cursor_ok other (row_cursor createdAt rid ?r)"
      using good_pageable [OF assms(1)] by (intro row_cursor_ok) (auto simp: pageable_def list_all_iff)
    then have rc: "requireCursor other (JStr (encodeCursor (row_cursor createdAt rid ?r))) =
        Inr (if k + limit = 0 then None else Some (row_cursor createdAt rid (?S ! (k + limit - 1))))"
      using assms(2) by (simp add: require_encoded)
    have "k + limit \<le> length (rows c)" "length (rows c) - (k + limit) < n"
      using False assms(2) Suc.prems(2) by linarith+
    from Suc.IH [OF this rc] obtain pages where
      p: "walk ?get n (JStr (encodeCursor (row_cursor createdAt rid ?r))) = Some pages"
      "concat pages = map (item c) (drop (k + limit) ?S)" "list_all (\<lambda>p. length p \<le> limit) pages"
      by blast
    have d: "take limit (drop k ?S) @ drop (k + limit) ?S = drop k ?S"
      by (metis add.commute append_take_drop_id drop_drop)
    have w: "walk ?get (Suc n) raw = Some (map (item c) (take limit (drop k ?S)) # pages)"
      using False p(1) by (simp only: walk.simps g) simp
    have "concat (map (item c) (take limit (drop k ?S)) # pages) = map (item c) (drop k ?S)"
      unfolding concat.simps p(2) map_append [symmetric] d ..
    with w p(3) show ?thesis by (intro exI [of _ "map (item c) (take limit (drop k ?S)) # pages"]) simp
  qed
qed simp

lemma walk_complete:
  assumes "good c" and "1 \<le> limit"
  shows "\<exists>pages. walk (\<lambda>raw. rbind (requireCursor other raw) (\<lambda>cur. fetch c cur limit)) (Suc (length (rows c))) JUndef =
      Some pages \<and>
    concat pages = map (item c) (sort_key (sort_key_of createdAt rid) (rows c)) \<and>
    list_all (\<lambda>p. length p \<le> limit) pages"
  using walk_from [OF assms, of 0 "Suc (length (rows c))" JUndef] by (simp add: require_absent)

end

definition never_first_page :: "(jstring \<Rightarrow> int option) \<Rightarrow> jsv \<Rightarrow> bool" where
  "never_first_page other raw \<longleftrightarrow>
     (case requireCursor other raw of
        Inl e \<Rightarrow> code_of e = Some E_VALIDATION_FAILED
      | Inr p \<Rightarrow> (case p of None \<Rightarrow> False
          | Some c \<Rightarrow> kc_createdAt c \<noteq> [] \<and> kc_id c \<noteq> [] \<and> Date_parse other (kc_createdAt c) \<noteq> None))"

lemma never_first_page: "absent raw \<or> never_first_page other raw"
  by (auto simp: never_first_page_def requireCursor_def decodeCursor_def code_of_def derr_fields_def
      split: option.split jsv.splits option.splits if_splits)

text \<open>
  C40: A cursor names its row. For every instant a row can carry and every id, decoding the opaque
  token written for the row gives back the position it was written for, and the query made from it
  keeps exactly the rows that come after that row in the order of the list. A value that is no such
  token, and not absent, is never read as "no cursor": it is refused, or it names a position with
  two non-empty texts and a valid date.
\<close>

theorem cursor_roundtrip:
  assumes "\<bar>createdAt r\<bar> \<le> MAX_TIME" and "code_units (rid r)" and "rid r \<noteq> []"
  shows "(\<exists>P. requireCursor other (JStr (encodeCursor (row_cursor createdAt rid r))) = Inr (Some (row_cursor createdAt rid r)) \<and>
      keyset_where other createdAt rid (Some (row_cursor createdAt rid r)) = Inr P \<and>
      (\<forall>s. P s \<longleftrightarrow> sort_key_of createdAt rid r < sort_key_of createdAt rid s)) \<and>
    (absent raw \<or> never_first_page other raw)"
  unfolding less_sort_key
  using require_encoded [OF row_cursor_ok [of createdAt r rid, OF assms]] assms(1) never_first_page
  by (simp add: keyset_where_def row_cursor_def Date_parse_toISOString)

theorem cursor_roundtrip_witness:
  "(\<exists>P. requireCursor (\<lambda>_. None) (JStr (encodeCursor (row_cursor fst snd (1709164800123, js ''m1'')))) =
      Inr (Some (row_cursor fst snd (1709164800123, js ''m1''))) \<and>
    keyset_where (\<lambda>_. None) fst snd (Some (row_cursor fst snd (1709164800123, js ''m1''))) = Inr P \<and>
    (\<forall>s. P s \<longleftrightarrow> sort_key_of fst snd (1709164800123, js ''m1'') < sort_key_of fst snd s)) \<and>
    (absent (JStr (js ''x'')) \<or> never_first_page (\<lambda>_. None) (JStr (js ''x'')))"
  by (rule cursor_roundtrip) (simp_all add: MAX_TIME_def code_units_def js_def)

end
