(* ===== verification/Listings.thy ===== *)
theory Listings
  imports InvitationsService Tenancy Cursor "HOL-Library.Product_Lexorder"
begin

text \<open>
  The lists of the API: the member directory, the invitations, the roles of an organization and the
  organizations of a user, each with the handler that reads its query parameters
  (\<open>members.service.ts\<close>, \<open>invitations.service.ts\<close>, \<open>roles.service.ts\<close>,
  \<open>system/my-organizations.service.ts\<close> and their controllers). The three that page are instances of
  \<open>keyset_list\<close>: a client that follows the cursors sees every row once, in order.
\<close>

section \<open>Query parameters\<close>

text \<open>\<open>status ?? fallback\<close>, and the filter it names.\<close>

definition read_status :: "(jstring \<times> 'f) list \<Rightarrow> jstring \<Rightarrow> jsv \<Rightarrow> Thrown + 'f" where
  "read_status options fallback status =
     (case (if status = JUndef \<or> status = JNull then JStr fallback else status) of
        JStr s \<Rightarrow> (case map_of options s of
                    Some f \<Rightarrow> Inr f
                  | None \<Rightarrow> Inl (derr_fields E_VALIDATION_FAILED [(js ''status'', STATUS_INVALID_MESSAGE)]))
      | _ \<Rightarrow> Inl (derr_fields E_VALIDATION_FAILED [(js ''status'', STATUS_INVALID_MESSAGE)]))"

section \<open>The member directory\<close>

datatype MemberListStatusFilter = ML_active | ML_revoked | ML_all

definition member_status_matches :: "MemberListStatusFilter \<Rightarrow> Membership \<Rightarrow> bool" where
  "member_status_matches status m =
     (case status of
        ML_active \<Rightarrow> mem_status m = MActive
      | ML_revoked \<Rightarrow> mem_status m = MRevoked
      | ML_all \<Rightarrow> mem_status m = MActive \<or> mem_status m = MRevoked)"

record MemberListPage =
  mlp_items :: "MemberRow list"
  mlp_nextCursor :: "jstring option"
  mlp_total :: "nat option"

definition members_where :: "jstring \<Rightarrow> MemberListStatusFilter \<Rightarrow> OrgDb \<Rightarrow> Membership list" where
  "members_where o' status db = filter_scoped mem_org o' (member_status_matches status) (db_memberships db)"

definition listMembers ::
    "(jstring \<Rightarrow> int option) \<Rightarrow> OrgRequestContext option \<Rightarrow> MemberListStatusFilter \<Rightarrow> nat \<Rightarrow>
     KeysetCursor option \<Rightarrow> bool \<Rightarrow> OrgDb \<Rightarrow> Thrown + MemberListPage" where
  "listMembers other ctx status limit cursor withTotal db =
     rbind (requireUserId ctx) (\<lambda>viewerUserId.
     rbind (client_org ctx) (\<lambda>o'.
     rbind (keyset_fetch other mem_createdAt mem_id cursor limit (members_where o' status db)) (\<lambda>page.
     rbind (sequence (map (select_decision db) page)) (\<lambda>rows.
     let totalCount = (if withTotal then Some (length (members_where o' status db)) else None) in
     rbind (paginate rows limit (row_cursor (\<lambda>d. mem_createdAt (md_membership d)) (\<lambda>d. mem_id (md_membership d))))
       (\<lambda>(items, nextCursor).
         Inr \<lparr>mlp_items = map (member_row_of viewerUserId) items, mlp_nextCursor = nextCursor,
              mlp_total = totalCount\<rparr>)))))"

definition MEMBER_STATUS_FILTERS :: "(jstring \<times> MemberListStatusFilter) list" where
  "MEMBER_STATUS_FILTERS = [(js ''active'', ML_active), (js ''revoked'', ML_revoked), (js ''all'', ML_all)]"

definition getMembers ::
    "(jstring \<Rightarrow> int option) \<Rightarrow> OrgRequestContext option \<Rightarrow> jsv \<Rightarrow> jsv \<Rightarrow> jsv \<Rightarrow> jsv \<Rightarrow> OrgDb \<Rightarrow> Thrown + MemberListPage" where
  "getMembers other ctx status cursor limit withTotal db =
     rbind (read_status MEMBER_STATUS_FILTERS (js ''all'') status) (\<lambda>f.
     rbind (resolveLimit limit MAX_PAGE_SIZE) (\<lambda>n.
     rbind (requireCursor other cursor) (\<lambda>c.
       listMembers other ctx f n c (withTotal = JStr (js ''true'')) db)))"

section \<open>The invitations\<close>

datatype InvitationStatusFilter = IL_pending | IL_accepted | IL_cancelled | IL_expired | IL_all

definition invitationStatusFilter :: "InvitationStatusFilter \<Rightarrow> int \<Rightarrow> Invitation \<Rightarrow> bool" where
  "invitationStatusFilter status now i =
     (case status of
        IL_pending \<Rightarrow> inv_status i = SPending \<and> now < inv_expiresAt i
      | IL_expired \<Rightarrow> inv_status i = SPending \<and> inv_expiresAt i \<le> now
      | IL_accepted \<Rightarrow> inv_status i = SAccepted
      | IL_cancelled \<Rightarrow> inv_status i = SCancelled
      | IL_all \<Rightarrow> True)"

record InvitationListPage =
  ilp_items :: "InvitationRow list"
  ilp_nextCursor :: "jstring option"

definition invitations_where :: "jstring \<Rightarrow> InvitationStatusFilter \<Rightarrow> int \<Rightarrow> OrgDb \<Rightarrow> Invitation list" where
  "invitations_where o' status now db = filter_scoped inv_org o' (invitationStatusFilter status now) (db_invitations db)"

definition listInvitations ::
    "(jstring \<Rightarrow> int option) \<Rightarrow> OrgRequestContext option \<Rightarrow> InvitationStatusFilter \<Rightarrow> nat \<Rightarrow>
     KeysetCursor option \<Rightarrow> int \<Rightarrow> OrgDb \<Rightarrow> Thrown + InvitationListPage" where
  "listInvitations other ctx status limit cursor now db =
     rbind (client_org ctx) (\<lambda>o'.
     rbind (keyset_fetch other inv_createdAt inv_id cursor limit (invitations_where o' status now db)) (\<lambda>page.
     rbind (sequence (map (select_invitation db) page)) (\<lambda>rows.
     rbind (paginate rows limit (row_cursor (\<lambda>s. inv_createdAt (sel_row s)) (\<lambda>s. inv_id (sel_row s))))
       (\<lambda>(items, nextCursor).
         Inr \<lparr>ilp_items = map (\<lambda>s. toRow s now) items, ilp_nextCursor = nextCursor\<rparr>))))"

definition INVITATION_STATUS_FILTERS :: "(jstring \<times> InvitationStatusFilter) list" where
  "INVITATION_STATUS_FILTERS =
     [(js ''pending'', IL_pending), (js ''accepted'', IL_accepted), (js ''cancelled'', IL_cancelled),
      (js ''expired'', IL_expired), (js ''all'', IL_all)]"

definition getInvitations ::
    "(jstring \<Rightarrow> int option) \<Rightarrow> OrgRequestContext option \<Rightarrow> jsv \<Rightarrow> jsv \<Rightarrow> jsv \<Rightarrow> int \<Rightarrow> OrgDb \<Rightarrow> Thrown + InvitationListPage" where
  "getInvitations other ctx status cursor limit now db =
     rbind (read_status INVITATION_STATUS_FILTERS (js ''pending'') status) (\<lambda>f.
     rbind (resolveLimit limit MAX_PAGE_SIZE) (\<lambda>n.
     rbind (requireCursor other cursor) (\<lambda>c. listInvitations other ctx f n c now db)))"

section \<open>The roles\<close>

record RoleRow =
  rl_id :: jstring
  rl_name :: jstring
  rl_key :: "jstring option"
  rl_grantsOwnership :: bool
  rl_isSystem :: bool

definition listRoles :: "OrgRequestContext option \<Rightarrow> OrgDb \<Rightarrow> Thrown + (RoleRow list \<times> jstring option)" where
  "listRoles ctx db =
     rbind (client_org ctx) (\<lambda>o'.
       let rows = sort_key (\<lambda>r. (role_createdAt r, role_id r)) (filter_scoped role_org o' (\<lambda>_. True) (db_roles db))
       in Inr (map (\<lambda>r. \<lparr>rl_id = role_id r, rl_name = role_name r, rl_key = role_key r,
                          rl_grantsOwnership = isOwnerRole (role_capabilities r),
                          rl_isSystem = role_isSystem r\<rparr>) rows, None))"

section \<open>The organizations of a user\<close>

datatype MyOrganizationsStatusFilter = MO_active | MO_all

definition entitlement_view :: "OrgDb \<Rightarrow> jstring \<Rightarrow> Thrown + OrgEntitlementView option" where
  "entitlement_view db o' =
     (case find (\<lambda>e. ent_org e = o') (db_entitlements db) of
        None \<Rightarrow> Inr None
      | Some e \<Rightarrow>
          (case find (\<lambda>p. plan_id p = ent_planDefinitionId e) (db_plans db) of
             None \<Rightarrow> Inl inconsistent_relation
           | Some p \<Rightarrow> Inr (Some \<lparr>oev_planKey = plan_key p, oev_tierLabel = plan_tierLabel p\<rparr>)))"

record MyOrganizationRow =
  mor_membership :: Membership
  mor_source :: MyOrganizationSource

definition select_my_organization :: "OrgDb \<Rightarrow> Membership \<Rightarrow> Thrown + MyOrganizationRow" where
  "select_my_organization db m =
     (case (member_role db m, find (\<lambda>o'. org_id o' = mem_org m) (db_orgs db)) of
        (Some r, Some o') \<Rightarrow>
          rbind (entitlement_view db (org_id o')) (\<lambda>e.
            Inr \<lparr>mor_membership = m,
                 mor_source = \<lparr>mos_id = org_id o', mos_name = org_name o', mos_logo = org_logo o',
                   mos_status = mem_status m, mos_roleId = mem_roleId m, mos_roleName = role_name r,
                   mos_roleKey = role_key r, mos_revokedAt = mem_revokedAt m, mos_entitlement = e\<rparr>\<rparr>)
      | _ \<Rightarrow> Inl inconsistent_relation)"

definition my_memberships :: "jstring \<Rightarrow> MyOrganizationsStatusFilter \<Rightarrow> OrgDb \<Rightarrow> Membership list" where
  "my_memberships userId status db =
     filter (\<lambda>m. mem_userId m = userId \<and> (status = MO_active \<longrightarrow> mem_status m = MActive)) (db_memberships db)"

definition listMyOrganizations ::
    "(jstring \<Rightarrow> int option) \<Rightarrow> jstring \<Rightarrow> MyOrganizationsStatusFilter \<Rightarrow> nat \<Rightarrow> KeysetCursor option \<Rightarrow> OrgDb \<Rightarrow>
     Thrown + (MyOrganizationItem list \<times> jstring option)" where
  "listMyOrganizations other userId status limit cursor db =
     rbind (keyset_fetch other mem_createdAt mem_id cursor limit (my_memberships userId status db)) (\<lambda>page.
     rbind (sequence (map (select_my_organization db) page)) (\<lambda>rows.
     rbind (paginate rows limit (row_cursor (\<lambda>r. mem_createdAt (mor_membership r)) (\<lambda>r. mem_id (mor_membership r))))
       (\<lambda>(items, nextCursor). Inr (map (\<lambda>r. toMyOrganizationItem (mor_source r)) items, nextCursor))))"

definition getMyOrganizations ::
    "(jstring \<Rightarrow> int option) \<Rightarrow> jstring option \<Rightarrow> jsv \<Rightarrow> jsv \<Rightarrow> jsv \<Rightarrow> OrgDb \<Rightarrow>
     Thrown + (MyOrganizationItem list \<times> jstring option)" where
  "getMyOrganizations other userId status cursor limit db =
     (case userId of
        None \<Rightarrow> Inl (derr E_INTERNAL)
      | Some u \<Rightarrow>
          if u = [] then Inl (derr E_INTERNAL)
          else rbind (read_status [(js ''active'', MO_active), (js ''all'', MO_all)] (js ''active'') status) (\<lambda>f.
               rbind (resolveLimit limit MAX_PAGE_SIZE) (\<lambda>n.
               rbind (requireCursor other cursor) (\<lambda>c. listMyOrganizations other u f n c db))))"

section \<open>Pages of the lists\<close>

lemma pageable_filter: "pageable createdAt rid rows \<Longrightarrow> pageable createdAt rid (filter P rows)"
  by (auto simp: pageable_def distinct_map inj_on_def list_all_iff)

lemma pageable_scoped: "pageable createdAt rid rows \<Longrightarrow> pageable createdAt rid (filter_scoped orgOf o' P rows)"
  unfolding filter_scoped_def by (rule pageable_filter)

lemma filter_scoped_sub: "r \<in> set (filter_scoped orgOf o' P rows) \<Longrightarrow> r \<in> set rows \<and> orgOf r = o' \<and> P r"
  by (simp add: filter_scoped_def)

definition good_page_state :: "OrgDb \<Rightarrow> bool" where
  "good_page_state db \<longleftrightarrow>
     db_ok db \<and> pageable mem_createdAt mem_id (db_memberships db) \<and> pageable inv_createdAt inv_id (db_invitations db)"

lemma map_page_compose: "map_page f (map_page g r) = map_page (\<lambda>x. f (g x)) r"
  by (cases r) (auto simp: map_page_def)

text \<open>The members.\<close>

definition shown_member :: "OrgRequestContext \<Rightarrow> OrgDb \<Rightarrow> Membership \<Rightarrow> MemberRow" where
  "shown_member ctx db m =
     member_row_of (the (ctx_userId ctx))
       \<lparr>md_membership = m, md_role = the (member_role db m), md_email = usr_email (the (member_user db m))\<rparr>"

lemma select_decision_total:
  assumes "db_ok db" and "m \<in> set (db_memberships db)"
  shows "select_decision db m =
    Inr \<lparr>md_membership = m, md_role = the (member_role db m), md_email = usr_email (the (member_user db m))\<rparr>"
proof -
  from assms have "role_fk db (mem_org m) (mem_roleId m)" "user_fk db (mem_userId m)"
    by (auto simp: db_ok_def list_all_iff)
  then have "member_role db m \<noteq> None" "member_user db m \<noteq> None"
    by (auto simp: role_fk_def user_fk_def member_role_def member_user_def find_None_iff list_ex_iff)
  then show ?thesis by (auto simp: select_decision_def)
qed

definition caller_of :: "OrgRequestContext \<Rightarrow> bool" where
  "caller_of ctx \<longleftrightarrow> (\<exists>u. caller ctx u) \<and> trim (ctx_organizationId ctx) \<noteq> []"

lemma caller_of_facts:
  assumes "caller_of ctx"
  shows "requireUserId (Some ctx) = Inr (the (ctx_userId ctx))" "client_org (Some ctx) = Inr (trim (ctx_organizationId ctx))"
  using assms by (auto simp: caller_of_def caller_def requireUserId_def client_org_def)

lemma listMembers_page:
  assumes "good_page_state db" and "caller_of ctx"
  shows "rbind (listMembers other (Some ctx) status limit cursor withTotal db) (\<lambda>p. Inr (mlp_items p, mlp_nextCursor p)) =
    map_page (shown_member ctx db)
      (keyset_page other mem_createdAt mem_id cursor limit (members_where (trim (ctx_organizationId ctx)) status db))"
proof -
  let ?rows = "members_where (trim (ctx_organizationId ctx)) status db"
  let ?d = "\<lambda>m. \<lparr>md_membership = m, md_role = the (member_role db m), md_email = usr_email (the (member_user db m))\<rparr>"
  have sel: "select_decision db m = Inr (?d m)" if "m \<in> set ?rows" for m
    using that assms(1) by (intro select_decision_total) (auto simp: members_where_def good_page_state_def dest: filter_scoped_sub)
  have "rbind (keyset_fetch other mem_createdAt mem_id cursor limit ?rows)
      (\<lambda>page. rbind (sequence (map (select_decision db) page))
        (\<lambda>ds. paginate ds limit (row_cursor (\<lambda>d. mem_createdAt (md_membership d)) (\<lambda>d. mem_id (md_membership d))))) =
    map_page ?d (keyset_page other mem_createdAt mem_id cursor limit ?rows)"
    by (rule keyset_select [OF sel]) (simp_all add: row_cursor_def)
  from arg_cong [OF this, of "map_page (member_row_of (the (ctx_userId ctx)))"] show ?thesis
    unfolding map_page_compose shown_member_def listMembers_def caller_of_facts [OF assms(2)] rbind_simps
    by (cases "keyset_fetch other mem_createdAt mem_id cursor limit ?rows")
      (auto simp: map_page_def Let_def rbind_def split: sum.split)
qed

interpretation member_pages: keyset_list
  "\<lambda>db cursor limit. rbind (listMembers other (Some ctx) status limit cursor False db) (\<lambda>p. Inr (mlp_items p, mlp_nextCursor p))"
  "members_where (trim (ctx_organizationId ctx)) status" mem_createdAt mem_id "shown_member ctx" other
  "\<lambda>db. good_page_state db \<and> caller_of ctx"
  for other ctx status
  by unfold_locales (auto simp: listMembers_page good_page_state_def members_where_def intro: pageable_scoped)

text \<open>The invitations.\<close>

definition shown_invitation :: "int \<Rightarrow> OrgDb \<Rightarrow> Invitation \<Rightarrow> InvitationRow" where
  "shown_invitation now db i = toRow \<lparr>sel_row = i, sel_role = the (invitation_role db i)\<rparr> now"

lemma select_invitation_total:
  assumes "db_ok db" and "i \<in> set (db_invitations db)"
  shows "select_invitation db i = Inr \<lparr>sel_row = i, sel_role = the (invitation_role db i)\<rparr>"
proof -
  from assms have "role_fk db (inv_org i) (inv_roleId i)" by (auto simp: db_ok_def list_all_iff)
  then have "invitation_role db i \<noteq> None" by (auto simp: role_fk_def invitation_role_def find_None_iff list_ex_iff)
  then show ?thesis by (auto simp: select_invitation_def)
qed

lemma listInvitations_page:
  assumes "good_page_state db" and "caller_of ctx"
  shows "rbind (listInvitations other (Some ctx) status limit cursor now db) (\<lambda>p. Inr (ilp_items p, ilp_nextCursor p)) =
    map_page (shown_invitation now db)
      (keyset_page other inv_createdAt inv_id cursor limit (invitations_where (trim (ctx_organizationId ctx)) status now db))"
proof -
  let ?rows = "invitations_where (trim (ctx_organizationId ctx)) status now db"
  let ?d = "\<lambda>i. \<lparr>sel_row = i, sel_role = the (invitation_role db i)\<rparr>"
  have sel: "select_invitation db i = Inr (?d i)" if "i \<in> set ?rows" for i
    using that assms(1) by (intro select_invitation_total) (auto simp: invitations_where_def good_page_state_def dest: filter_scoped_sub)
  have "rbind (keyset_fetch other inv_createdAt inv_id cursor limit ?rows)
      (\<lambda>page. rbind (sequence (map (select_invitation db) page))
        (\<lambda>ds. paginate ds limit (row_cursor (\<lambda>s. inv_createdAt (sel_row s)) (\<lambda>s. inv_id (sel_row s))))) =
    map_page ?d (keyset_page other inv_createdAt inv_id cursor limit ?rows)"
    by (rule keyset_select [OF sel]) (simp_all add: row_cursor_def)
  from arg_cong [OF this, of "map_page (\<lambda>s. toRow s now)"] show ?thesis
    unfolding map_page_compose shown_invitation_def listInvitations_def caller_of_facts [OF assms(2)] rbind_simps
    by (cases "keyset_fetch other inv_createdAt inv_id cursor limit ?rows")
      (auto simp: map_page_def rbind_def split: sum.split)
qed

interpretation invitation_pages: keyset_list
  "\<lambda>db cursor limit. rbind (listInvitations other (Some ctx) status limit cursor now db) (\<lambda>p. Inr (ilp_items p, ilp_nextCursor p))"
  "invitations_where (trim (ctx_organizationId ctx)) status now" inv_createdAt inv_id "shown_invitation now" other
  "\<lambda>db. good_page_state db \<and> caller_of ctx"
  for other ctx status now
  by unfold_locales (auto simp: listInvitations_page good_page_state_def invitations_where_def intro: pageable_scoped)

text \<open>The organizations of a user.\<close>

definition entitlements_ok :: "OrgDb \<Rightarrow> bool" where
  "entitlements_ok db \<longleftrightarrow>
     list_all (\<lambda>e. list_ex (\<lambda>p. plan_id p = ent_planDefinitionId e) (db_plans db)) (db_entitlements db)"

definition my_source :: "OrgDb \<Rightarrow> Membership \<Rightarrow> MyOrganizationRow" where
  "my_source db m = (case select_my_organization db m of Inr r \<Rightarrow> r | Inl _ \<Rightarrow> undefined)"

lemma select_my_organization_total:
  assumes "db_ok db" and "entitlements_ok db" and "m \<in> set (db_memberships db)"
  shows "select_my_organization db m = Inr (my_source db m)" "mor_membership (my_source db m) = m"
proof -
  from assms have "role_fk db (mem_org m) (mem_roleId m)" "org_fk db (mem_org m)"
    by (auto simp: db_ok_def list_all_iff)
  then have n: "member_role db m \<noteq> None" "find (\<lambda>o'. org_id o' = mem_org m) (db_orgs db) \<noteq> None"
    by (auto simp: role_fk_def org_fk_def member_role_def find_None_iff list_ex_iff)
  then obtain r o' where r: "member_role db m = Some r" "find (\<lambda>o'. org_id o' = mem_org m) (db_orgs db) = Some o'" by auto
  obtain v where "entitlement_view db (org_id o') = Inr v"
  proof (cases "find (\<lambda>e. ent_org e = org_id o') (db_entitlements db)")
    case (Some e)
    then have "find (\<lambda>p. plan_id p = ent_planDefinitionId e) (db_plans db) \<noteq> None"
      using assms(2) by (auto simp: entitlements_ok_def list_all_iff list_ex_iff find_None_iff dest: find_SomeD)
    with Some that show ?thesis by (auto simp: entitlement_view_def)
  qed (simp add: entitlement_view_def that)
  with r have "\<exists>r. select_my_organization db m = Inr r \<and> mor_membership r = m"
    by (simp add: select_my_organization_def)
  then obtain r where "select_my_organization db m = Inr r" "mor_membership r = m" by (elim exE conjE)
  then show "select_my_organization db m = Inr (my_source db m)" "mor_membership (my_source db m) = m"
    by (simp_all add: my_source_def)
qed

lemma select_my_status: "select_my_organization db m = Inr r \<Longrightarrow> mos_status (mor_source r) = mem_status m"
  by (auto simp: select_my_organization_def rbind_Inr_iff split: option.splits)

definition shown_organization :: "OrgDb \<Rightarrow> Membership \<Rightarrow> MyOrganizationItem" where
  "shown_organization db m = toMyOrganizationItem (mor_source (my_source db m))"

lemma listMyOrganizations_page:
  assumes "good_page_state db" and "entitlements_ok db"
  shows "listMyOrganizations other userId status limit cursor db =
    map_page (shown_organization db) (keyset_page other mem_createdAt mem_id cursor limit (my_memberships userId status db))"
proof -
  let ?rows = "my_memberships userId status db"
  have m: "m \<in> set (db_memberships db)" if "m \<in> set ?rows" for m using that by (simp add: my_memberships_def)
  have ok: "db_ok db" using assms(1) by (simp add: good_page_state_def)
  show ?thesis
  proof (cases "keyset_fetch other mem_createdAt mem_id cursor limit ?rows")
    case (Inr page)
    then have sub: "set page \<subseteq> set ?rows" by (auto simp: keyset_fetch_def rbind_Inr_iff dest!: in_set_takeD)
    let ?S = "\<lambda>m. \<lparr>mor_membership = m, mor_source = mor_source (my_source db m)\<rparr>"
    have eq: "my_source db m = ?S m" if "m \<in> set ?rows" for m
      using select_my_organization_total(2) [OF ok assms(2) m [OF that]] by (cases "my_source db m") simp
    have "sequence (map (select_my_organization db) page) = Inr (map ?S page)"
      using sub eq select_my_organization_total(1) [OF ok assms(2) m] by (intro sequence_map_ok) auto
    moreover have "paginate (map ?S page) limit (row_cursor (\<lambda>r. mem_createdAt (mor_membership r)) (\<lambda>r. mem_id (mor_membership r))) =
        map_page ?S (paginate page limit (row_cursor mem_createdAt mem_id))"
      by (rule paginate_map) (simp add: row_cursor_def)
    ultimately show ?thesis
      by (cases "paginate page limit (row_cursor mem_createdAt mem_id)")
        (auto simp: listMyOrganizations_def keyset_page_def Inr map_page_def shown_organization_def)
  qed (simp add: listMyOrganizations_def keyset_page_def map_page_def)
qed

interpretation my_pages: keyset_list
  "\<lambda>db cursor limit. listMyOrganizations other userId status limit cursor db"
  "my_memberships userId status" mem_createdAt mem_id shown_organization other
  "\<lambda>db. good_page_state db \<and> entitlements_ok db"
  for other userId status
  by unfold_locales (auto simp: listMyOrganizations_page good_page_state_def my_memberships_def intro: pageable_filter)

section \<open>The page size\<close>

lemma page_number_pos: "page_number v = Some n \<Longrightarrow> 1 \<le> n"
  by (auto simp: page_number_def is_integer_def le_nat_iff split: jsnum.splits if_splits)

lemma page_number_of_nat: "page_number (of_nat_num n) = (if n = 0 then None else Some n)"
  by (simp add: page_number_def of_nat_num_def)

lemma resolveLimit_of_nat:
  "resolveLimit (JNum (of_nat_num n)) max_size =
     (if n = 0 then Inl (derr_fields E_VALIDATION_FAILED [(js ''limit'', LIMIT_INVALID_MESSAGE)]) else Inr (min n max_size))"
  by (simp add: resolveLimit_def absent_def page_number_of_nat)

lemma resolveLimit_range:
  assumes "resolveLimit raw max_size = Inr n" and "1 \<le> max_size"
  shows "1 \<le> n \<and> n \<le> max_size"
  using assms by (auto simp: resolveLimit_def DEFAULT_PAGE_SIZE_def split: if_splits option.splits dest: page_number_pos)

text \<open>
  The page size of every list. An absent \<open>limit\<close> means 25; a whole number of at least 1 means
  itself, cut at 100; every other value is refused with \<open>VALIDATION_FAILED\<close>. So no request makes
  a list read more than 101 rows, or none.
\<close>

theorem page_size_bounded:
  "(case resolveLimit raw MAX_PAGE_SIZE of
      Inl e \<Rightarrow> code_of e = Some E_VALIDATION_FAILED
    | Inr n \<Rightarrow> n \<in> (if absent raw then {25} else {1..100})) \<and>
   resolveLimit (JNum (of_nat_num (Suc k))) MAX_PAGE_SIZE = Inr (min (Suc k) 100) \<and>
   resolveLimit (JNum (Fin (- of_nat k))) MAX_PAGE_SIZE =
     Inl (derr_fields E_VALIDATION_FAILED [(js ''limit'', LIMIT_INVALID_MESSAGE)])"
proof -
  have r: "1 \<le> n \<and> n \<le> 100" if "resolveLimit raw MAX_PAGE_SIZE = Inr n" for n
    using resolveLimit_range [OF that] by (simp add: MAX_PAGE_SIZE_def)
  have d: "n = 25" if "resolveLimit raw MAX_PAGE_SIZE = Inr n" "absent raw" for n
    using that by (simp add: resolveLimit_def MAX_PAGE_SIZE_def DEFAULT_PAGE_SIZE_def)
  have e: "code_of e = Some E_VALIDATION_FAILED" if "resolveLimit raw MAX_PAGE_SIZE = Inl e" for e
    using that by (auto simp: resolveLimit_def code_of_def derr_fields_def split: if_splits option.splits)
  have k: "resolveLimit (JNum (of_nat_num (Suc k))) MAX_PAGE_SIZE = Inr (min (Suc k) 100)"
    unfolding resolveLimit_of_nat by (simp add: MAX_PAGE_SIZE_def)
  have z: "resolveLimit (JNum (Fin (- of_nat k))) MAX_PAGE_SIZE =
     Inl (derr_fields E_VALIDATION_FAILED [(js ''limit'', LIMIT_INVALID_MESSAGE)])"
    by (simp add: resolveLimit_def absent_def page_number_def)
  show ?thesis using r d e k z by (cases "resolveLimit raw MAX_PAGE_SIZE") simp_all
qed

section \<open>Every row once\<close>

text \<open>
  C38: The member directory loses and repeats nobody. Whatever the page size the handler accepts and
  whichever status it filters by, a client that starts without a cursor and follows every
  \<open>nextCursor\<close> gets, after at most one request per member and one more, exactly the members of the
  caller's organization with that status, each once, newest first; no page is longer than asked.
\<close>

theorem members_paged_once:
  assumes "good_page_state db" and "caller_of ctx"
    and "read_status MEMBER_STATUS_FILTERS (js ''all'') status = Inr f"
    and "resolveLimit limit MAX_PAGE_SIZE = Inr n"
  shows "\<exists>pages. walk (\<lambda>cursor. rbind (getMembers other (Some ctx) status cursor limit JUndef db)
        (\<lambda>p. Inr (mlp_items p, mlp_nextCursor p)))
      (Suc (length (members_where (trim (ctx_organizationId ctx)) f db))) JUndef = Some pages \<and>
    concat pages = map (shown_member ctx db)
      (sort_key (sort_key_of mem_createdAt mem_id) (members_where (trim (ctx_organizationId ctx)) f db)) \<and>
    list_all (\<lambda>p. length p \<le> n) pages"
proof -
  have n: "1 \<le> n" using resolveLimit_range [OF assms(4)] by (simp add: MAX_PAGE_SIZE_def)
  have e: "(\<lambda>cursor. rbind (getMembers other (Some ctx) status cursor limit JUndef db) (\<lambda>p. Inr (mlp_items p, mlp_nextCursor p))) =
      (\<lambda>raw. rbind (requireCursor other raw) (\<lambda>cur.
        rbind (listMembers other (Some ctx) f n cur False db) (\<lambda>p. Inr (mlp_items p, mlp_nextCursor p))))"
    by (rule ext) (simp add: getMembers_def assms(3,4) rbind_def split: sum.split)
  show ?thesis unfolding e using member_pages.walk_complete [of db ctx n other f] assms(1,2) n by simp
qed

lemma demo_good: "good_page_state demo_db"
  unfolding good_page_state_def using demo_db_ok
  by (simp add: demo_db_def demo_rows pageable_def js_def code_units_def MAX_TIME_def)

lemma demo_caller_of: "u \<noteq> [] \<Longrightarrow> caller_of (demo_ctx u)"
  by (auto simp: caller_of_def caller_def trim_o1)

theorem members_paged_once_witness:
  "\<exists>pages. walk (\<lambda>cursor. rbind (getMembers (\<lambda>_. None) (Some (demo_ctx ''ann'')) JUndef cursor (JNum (of_nat_num 1)) JUndef demo_db)
        (\<lambda>p. Inr (mlp_items p, mlp_nextCursor p)))
      (Suc (length (members_where (trim (ctx_organizationId (demo_ctx ''ann''))) ML_all demo_db))) JUndef = Some pages \<and>
    concat pages = map (shown_member (demo_ctx ''ann'') demo_db)
      (sort_key (sort_key_of mem_createdAt mem_id) (members_where (trim (ctx_organizationId (demo_ctx ''ann''))) ML_all demo_db)) \<and>
    list_all (\<lambda>p. length p \<le> 1) pages"
proof (rule members_paged_once)
  show "good_page_state demo_db" by (rule demo_good)
  show "caller_of (demo_ctx ''ann'')" by (rule demo_caller_of) simp
  show "read_status MEMBER_STATUS_FILTERS (js ''all'') JUndef = Inr ML_all"
    by (simp add: read_status_def MEMBER_STATUS_FILTERS_def js_def)
  show "resolveLimit (JNum (of_nat_num 1)) MAX_PAGE_SIZE = Inr 1"
    by (simp add: resolveLimit_of_nat MAX_PAGE_SIZE_def)
qed

definition asked_status :: "InvitationStatusFilter \<Rightarrow> ResolvedInvitationStatus option" where
  "asked_status f =
     (case f of IL_pending \<Rightarrow> Some RPending | IL_expired \<Rightarrow> Some RExpired | IL_accepted \<Rightarrow> Some RAccepted
      | IL_cancelled \<Rightarrow> Some RCancelled | IL_all \<Rightarrow> None)"

definition answers :: "InvitationStatusFilter \<Rightarrow> int \<Rightarrow> Invitation \<Rightarrow> bool" where
  "answers f now i \<longleftrightarrow>
     (case asked_status f of None \<Rightarrow> True
      | Some st \<Rightarrow> resolveInvitationStatus (inv_status i) (inv_expiresAt i) now = st)"

lemma filter_answers: "inv_status i \<noteq> SExpired \<Longrightarrow> invitationStatusFilter f now i \<longleftrightarrow> answers f now i"
  by (cases "inv_status i"; cases f) (auto simp: invitationStatusFilter_def answers_def asked_status_def)

text \<open>
  The invitation list answers the question it was asked. On a table where, as everywhere in
  this program, nothing writes the column value \<open>expired\<close>, following the cursors shows exactly the
  invitations of the organization whose status, derived at the instant of the request, is the one
  asked for, each once and newest first, and that status is what each row shows: no dead link is
  shown as pending, and \<open>expired\<close> is not an empty list.
\<close>

theorem invitations_paged_once:
  assumes "good_page_state db" and "caller_of ctx"
    and "read_status INVITATION_STATUS_FILTERS (js ''pending'') status = Inr f"
    and "resolveLimit limit MAX_PAGE_SIZE = Inr n"
    and "list_all (\<lambda>i. inv_status i \<noteq> SExpired) (db_invitations db)"
  shows "\<exists>pages. walk (\<lambda>cursor. rbind (getInvitations other (Some ctx) status cursor limit now db)
        (\<lambda>p. Inr (ilp_items p, ilp_nextCursor p)))
      (Suc (length (filter_scoped inv_org (trim (ctx_organizationId ctx)) (answers f now) (db_invitations db)))) JUndef =
        Some pages \<and>
    concat pages = map (shown_invitation now db) (sort_key (sort_key_of inv_createdAt inv_id)
      (filter_scoped inv_org (trim (ctx_organizationId ctx)) (answers f now) (db_invitations db))) \<and>
    list_all (\<lambda>r. asked_status f = None \<or> asked_status f = Some (ir_status r)) (concat pages) \<and>
    list_all (\<lambda>p. length p \<le> n) pages"
proof -
  have n: "1 \<le> n" using resolveLimit_range [OF assms(4)] by (simp add: MAX_PAGE_SIZE_def)
  let ?rows = "filter_scoped inv_org (trim (ctx_organizationId ctx)) (answers f now) (db_invitations db)"
  have r: "invitations_where (trim (ctx_organizationId ctx)) f now db = ?rows"
    unfolding invitations_where_def filter_scoped_def using assms(5)
    by (intro filter_cong) (auto simp: filter_answers list_all_iff)
  have e: "(\<lambda>cursor. rbind (getInvitations other (Some ctx) status cursor limit now db) (\<lambda>p. Inr (ilp_items p, ilp_nextCursor p))) =
      (\<lambda>raw. rbind (requireCursor other raw) (\<lambda>cur.
        rbind (listInvitations other (Some ctx) f n cur now db) (\<lambda>p. Inr (ilp_items p, ilp_nextCursor p))))"
    by (rule ext) (simp add: getInvitations_def assms(3,4) rbind_def split: sum.split)
  have st: "ir_status (shown_invitation now db i) = resolveInvitationStatus (inv_status i) (inv_expiresAt i) now" for i
    by (simp add: shown_invitation_def toRow_def toInvitationRow_def Let_def)
  have all: "list_all (\<lambda>r. asked_status f = None \<or> asked_status f = Some (ir_status r))
      (map (shown_invitation now db) (sort_key (sort_key_of inv_createdAt inv_id) ?rows))"
    by (auto simp: list_all_iff st answers_def filter_scoped_def split: option.splits)
  show ?thesis unfolding e using invitation_pages.walk_complete [of db ctx n other f now] assms(1,2) n all
    by (auto simp: r)
qed

theorem invitations_paged_once_witness:
  "\<exists>pages. walk (\<lambda>cursor. rbind (getInvitations (\<lambda>_. None) (Some (demo_ctx ''ann'')) JUndef cursor JUndef 50 demo_db)
        (\<lambda>p. Inr (ilp_items p, ilp_nextCursor p)))
      (Suc (length (filter_scoped inv_org (trim (ctx_organizationId (demo_ctx ''ann''))) (answers IL_pending 50) (db_invitations demo_db))))
      JUndef = Some pages \<and>
    concat pages = map (shown_invitation 50 demo_db) (sort_key (sort_key_of inv_createdAt inv_id)
      (filter_scoped inv_org (trim (ctx_organizationId (demo_ctx ''ann''))) (answers IL_pending 50) (db_invitations demo_db))) \<and>
    list_all (\<lambda>r. asked_status IL_pending = None \<or> asked_status IL_pending = Some (ir_status r)) (concat pages) \<and>
    list_all (\<lambda>p. length p \<le> 25) pages"
proof (rule invitations_paged_once)
  show "good_page_state demo_db" by (rule demo_good)
  show "caller_of (demo_ctx ''ann'')" by (rule demo_caller_of) simp
  show "read_status INVITATION_STATUS_FILTERS (js ''pending'') JUndef = Inr IL_pending"
    by (simp add: read_status_def INVITATION_STATUS_FILTERS_def js_def)
  show "resolveLimit JUndef MAX_PAGE_SIZE = Inr 25"
    by (simp add: resolveLimit_def absent_def MAX_PAGE_SIZE_def DEFAULT_PAGE_SIZE_def)
  show "list_all (\<lambda>i. inv_status i \<noteq> SExpired) (db_invitations demo_db)"
    by (simp add: demo_db_def demo_rows)
qed

text \<open>
  The switcher lists the user's own shops, each once. Following the cursors of
  \<open>GET /me/organizations\<close> shows, newest membership first, exactly the memberships of the caller
  (by default the active ones); an organization the caller was removed from is shown, where it is
  shown at all, without role and plan.
\<close>

theorem my_organizations_paged_once:
  assumes "good_page_state db" and "entitlements_ok db" and "u \<noteq> []"
    and "read_status [(js ''active'', MO_active), (js ''all'', MO_all)] (js ''active'') status = Inr f"
    and "resolveLimit limit MAX_PAGE_SIZE = Inr n"
  shows "\<exists>pages. walk (\<lambda>cursor. getMyOrganizations other (Some u) status cursor limit db)
      (Suc (length (my_memberships u f db))) JUndef = Some pages \<and>
    concat pages = map (shown_organization db) (sort_key (sort_key_of mem_createdAt mem_id) (my_memberships u f db)) \<and>
    (\<forall>m \<in> set (my_memberships u f db). mem_userId m = u \<and> (mem_status m \<noteq> MActive \<longrightarrow>
       (\<exists>i nm lg rv. shown_organization db m = ShortItem i nm lg (mem_status m) rv)))"
proof -
  have n: "1 \<le> n" using resolveLimit_range [OF assms(5)] by (simp add: MAX_PAGE_SIZE_def)
  have e: "(\<lambda>cursor. getMyOrganizations other (Some u) status cursor limit db) =
      (\<lambda>raw. rbind (requireCursor other raw) (\<lambda>cur. listMyOrganizations other u f n cur db))"
    by (rule ext) (simp add: getMyOrganizations_def assms(3-5))
  have m: "mem_userId m = u \<and> (mem_status m \<noteq> MActive \<longrightarrow>
       (\<exists>i nm lg rv. shown_organization db m = ShortItem i nm lg (mem_status m) rv))"
    if "m \<in> set (my_memberships u f db)" for m
  proof -
    from that have u: "mem_userId m = u" "m \<in> set (db_memberships db)" by (auto simp: my_memberships_def)
    have "mos_status (mor_source (my_source db m)) = mem_status m"
      using select_my_organization_total(1) [OF _ assms(2) u(2)] assms(1)
      by (auto simp: good_page_state_def intro: select_my_status)
    with u(1) show ?thesis by (simp add: shown_organization_def toMyOrganizationItem_def)
  qed
  show ?thesis unfolding e using my_pages.walk_complete [of db n other u f] assms(1,2) n m by auto
qed

theorem my_organizations_paged_once_witness:
  "\<exists>pages. walk (\<lambda>cursor. getMyOrganizations (\<lambda>_. None) (Some (js ''cat'')) (JStr (js ''all'')) cursor JNull demo_db)
      (Suc (length (my_memberships (js ''cat'') MO_all demo_db))) JUndef = Some pages \<and>
    concat pages = map (shown_organization demo_db) (sort_key (sort_key_of mem_createdAt mem_id) (my_memberships (js ''cat'') MO_all demo_db)) \<and>
    (\<forall>m \<in> set (my_memberships (js ''cat'') MO_all demo_db). mem_userId m = js ''cat'' \<and> (mem_status m \<noteq> MActive \<longrightarrow>
       (\<exists>i nm lg rv. shown_organization demo_db m = ShortItem i nm lg (mem_status m) rv)))"
proof (rule my_organizations_paged_once)
  show "good_page_state demo_db" by (rule demo_good)
  show "entitlements_ok demo_db" by (simp add: entitlements_ok_def demo_db_def)
  show "js ''cat'' \<noteq> []" by (simp add: js_def)
  show "read_status [(js ''active'', MO_active), (js ''all'', MO_all)] (js ''active'') (JStr (js ''all'')) = Inr MO_all"
    by (simp add: read_status_def js_def)
  show "resolveLimit JNull MAX_PAGE_SIZE = Inr 25"
    by (simp add: resolveLimit_def absent_def MAX_PAGE_SIZE_def DEFAULT_PAGE_SIZE_def)
qed

text \<open>
  The role list. It holds every role of the organization once, oldest first, and of a role's
  capabilities it shows one bit, whether granting the role grants ownership; that bit follows the
  capabilities and not the role's key or name.
\<close>

theorem roles_listed:
  assumes "db_ok db" and "trim (ctx_organizationId ctx) = o'" and "o' \<noteq> []"
  shows "\<exists>items. listRoles (Some ctx) db = Inr (items, None) \<and> distinct (map rl_id items) \<and>
    set (map rl_id items) = role_id ` {r \<in> set (db_roles db). role_org r = o'} \<and>
    (\<forall>item \<in> set items. \<forall>r \<in> set (db_roles db). role_id r = rl_id item \<longrightarrow>
       (rl_grantsOwnership item \<longleftrightarrow> CAPABILITY_FULL_ACCESS \<in> set (role_capabilities r)))"
proof -
  have c: "client_org (Some ctx) = Inr o'" using assms(2,3) by (simp add: client_org_def)
  have u: "inj_on role_id (set (db_roles db))" and d: "distinct (map role_id (db_roles db))"
    using assms(1) by (auto simp: db_ok_def roles_unique_def unique_by_def distinct_map)
  let ?R = "sort_key (\<lambda>r. (role_createdAt r, role_id r)) (filter_scoped role_org o' (\<lambda>_. True) (db_roles db))"
  let ?s = "\<lambda>r. \<lparr>rl_id = role_id r, rl_name = role_name r, rl_key = role_key r,
     rl_grantsOwnership = isOwnerRole (role_capabilities r), rl_isSystem = role_isSystem r\<rparr>"
  have set: "set ?R = {r \<in> set (db_roles db). role_org r = o'}" by (auto simp: filter_scoped_def)
  have "listRoles (Some ctx) db = Inr (map ?s ?R, None)" by (simp add: listRoles_def c Let_def)
  moreover have "distinct (map rl_id (map ?s ?R))"
    using d u by (auto simp: comp_def distinct_map filter_scoped_def inj_on_def)
  moreover have "set (map rl_id (map ?s ?R)) = role_id ` {r \<in> set (db_roles db). role_org r = o'}"
    unfolding set_map set [symmetric] image_image by simp
  moreover have "rl_grantsOwnership (?s x) \<longleftrightarrow> CAPABILITY_FULL_ACCESS \<in> set (role_capabilities r)"
    if "x \<in> set ?R" "r \<in> set (db_roles db)" "role_id r = role_id x" for x r
    using that u set by (auto simp: isOwnerRole_iff inj_on_def)
  ultimately show ?thesis by (intro exI [of _ "map ?s ?R"]) auto
qed

theorem roles_listed_witness:
  "\<exists>items. listRoles (Some (demo_ctx ''ann'')) demo_db = Inr (items, None) \<and> distinct (map rl_id items) \<and>
    set (map rl_id items) = role_id ` {r \<in> set (db_roles demo_db). role_org r = js ''o1''} \<and>
    (\<forall>item \<in> set items. \<forall>r \<in> set (db_roles demo_db). role_id r = rl_id item \<longrightarrow>
       (rl_grantsOwnership item \<longleftrightarrow> CAPABILITY_FULL_ACCESS \<in> set (role_capabilities r)))"
  by (rule roles_listed [OF demo_db_ok]) (simp_all add: trim_o1)

end
