(* ===== verification/RouteRegistry.thy ===== *)
theory RouteRegistry
  imports Json OrgLock
begin

text \<open>
  \<open>apps/api/src/tenancy/route-scope.registry.ts\<close> and \<open>route-scope.decorator.ts\<close>: which tier the
  route of a request has, read from the metadata of the controllers before any guard runs. The
  regular expression compiled for a template is kept as its list of segments, and matching is the
  meaning of \<open>^/seg/.../seg/?$\<close>. Controllers are given by what their decorators declare.
\<close>

section \<open>Decoding a path segment\<close>

text \<open>
  \<open>decodeURIComponent\<close>: \<open>None\<close> is the \<open>URIError\<close> of a malformed escape. The escapes of one code
  point are taken together, as many as its first byte announces.
\<close>

definition pct_byte :: "jstring \<Rightarrow> (nat \<times> jstring) option" where
  "pct_byte s =
     (case s of
        a # b # rest \<Rightarrow> (case (json_hex a, json_hex b) of (Some x, Some y) \<Rightarrow> Some (x * 16 + y, rest) | _ \<Rightarrow> None)
      | _ \<Rightarrow> None)"

fun pct_bytes :: "nat \<Rightarrow> jstring \<Rightarrow> (nat list \<times> jstring) option" where
  "pct_bytes 0 s = Some ([], s)"
| "pct_bytes (Suc n) s =
     (case s of
        c # s' \<Rightarrow>
          if c \<noteq> 37 then None
          else (case pct_byte s' of
                  None \<Rightarrow> None
                | Some (b, r) \<Rightarrow> map_option (\<lambda>(bs, r'). (b # bs, r')) (pct_bytes n r))
      | [] \<Rightarrow> None)"

definition announced :: "nat \<Rightarrow> nat" where
  "announced b = (if b < 128 then 0 else if b < 224 then 1 else if b < 240 then 2 else 3)"

lemma pct_byte_shorter: "pct_byte s = Some (b, r) \<Longrightarrow> length r < length s"
  by (auto simp: pct_byte_def split: list.splits option.splits)

lemma pct_bytes_length: "pct_bytes n s = Some (bs, r) \<Longrightarrow> length r \<le> length s"
proof (induction n arbitrary: s bs r)
  case (Suc n)
  then obtain s' b t cs where s: "s = 37 # s'" "pct_byte s' = Some (b, t)" "pct_bytes n t = Some (cs, r)"
    by (auto split: list.splits option.splits if_splits)
  from Suc.IH [OF s(3)] pct_byte_shorter [OF s(2)] s(1) show ?case by simp
qed simp

function decodeURIComponent :: "jstring \<Rightarrow> jstring option" where
  "decodeURIComponent [] = Some []"
| "decodeURIComponent (c # s) =
     (if c \<noteq> 37 then map_option (\<lambda>t. c # t) (decodeURIComponent s)
      else case pct_byte s of
             None \<Rightarrow> None
           | Some (b, r) \<Rightarrow>
               (case pct_bytes (announced b) r of
                  None \<Rightarrow> None
                | Some (bs, r') \<Rightarrow>
                    if utf8 (utf8_decode (b # bs)) = b # bs
                    then map_option (\<lambda>t. utf8_decode (b # bs) @ t) (decodeURIComponent r')
                    else None))"
  by pat_completeness auto
termination
  by (relation "measure length")
    (auto dest!: pct_byte_shorter pct_bytes_length)

definition decodeParam :: "jstring \<Rightarrow> jstring" where
  "decodeParam v = (case decodeURIComponent v of Some s \<Rightarrow> s | None \<Rightarrow> v)"

text \<open>A segment without a percent sign decodes to itself.\<close>

lemma decode_plain: "37 \<notin> set s \<Longrightarrow> decodeURIComponent s = Some s"
  by (induction s) auto

subsection \<open>Encoding a segment and reading it back\<close>

lemma json_hex_upper [simp]: "d < 16 \<Longrightarrow> json_hex (upper_hex d) = Some d"
  by (auto simp: json_hex_def upper_hex_def)

lemma pct_byte_percent:
  assumes "b < 256" and "percent b = 37 # t"
  shows "pct_byte (t @ r) = Some (b, r)"
proof -
  have "json_hex (upper_hex (b div 16)) = Some (b div 16)" using assms by (intro json_hex_upper) simp
  moreover have "json_hex (upper_hex (b mod 16)) = Some (b mod 16)" by (intro json_hex_upper) simp
  ultimately show ?thesis using assms(2) by (auto simp: pct_byte_def percent_def)
qed

lemma percent_cons: obtains t where "percent b = 37 # t"
  by (simp add: percent_def)

lemma pct_bytes_percent:
  "\<forall>b \<in> set bs. b < 256 \<Longrightarrow> pct_bytes (length bs) (concat (map percent bs) @ r) = Some (bs, r)"
proof (induction bs)
  case (Cons b bs)
  obtain t where t: "percent b = 37 # t" by (rule percent_cons)
  with Cons pct_byte_percent [OF _ t, of "concat (map percent bs) @ r"] show ?case by simp
qed simp

lemma utf8_bytes_shape:
  assumes "is_scalar n"
  obtains b bs where "utf8_bytes n = b # bs" "announced b = length bs" "\<forall>x \<in> set (b # bs). x < 256"
proof -
  have lim: "n < 1114112" using assms by (simp add: is_scalar_def)
  have m: "128 + n mod 64 < 256" "128 + n div 64 mod 64 < 256" "128 + n div 4096 mod 64 < 256"
    using mod_less_divisor [of 64 n] mod_less_divisor [of 64 "n div 64"] mod_less_divisor [of 64 "n div 4096"] by linarith+
  consider "n < 128" | "128 \<le> n" "n < 2048" | "2048 \<le> n" "n < 65536" | "65536 \<le> n" by linarith
  then show thesis
  proof cases
    case 1
    with that [of n "[]"] show ?thesis by (simp add: utf8_bytes_def announced_def)
  next
    case 2
    then have "n div 64 < 32" by simp
    with 2 m that [of "192 + n div 64" "[128 + n mod 64]"] show ?thesis
      by (simp add: utf8_bytes_def announced_def)
  next
    case 3
    then have "n div 4096 < 16" by simp
    with 3 m that [of "224 + n div 4096" "[128 + n div 64 mod 64, 128 + n mod 64]"] show ?thesis
      by (simp add: utf8_bytes_def announced_def)
  next
    case 4
    from lim have "n div 262144 < 16" by simp
    with 4 m that [of "240 + n div 262144" "[128 + n div 4096 mod 64, 128 + n div 64 mod 64, 128 + n mod 64]"]
    show ?thesis by (simp add: utf8_bytes_def announced_def)
  qed
qed

lemma point_of_points:
  assumes "p \<in> set (code_points s)"
  shows "code_points p = [p]"
  using code_points_shape [OF assms] by auto

lemma decode_code_point:
  assumes "p \<in> set (code_points s)" and "code_units s" and "encode_code_point p = Some e"
  shows "decodeURIComponent (e @ r) = map_option (\<lambda>t. p @ t) (decodeURIComponent r)"
proof -
  from assms(3) obtain n where n: "scalar_of p = Some n"
    and e: "e = (if is_unreserved n then [n] else concat (map percent (utf8_bytes n)))"
    by (auto simp: encode_code_point_def split: option.splits if_splits)
  from scalar_units [OF assms(1,2) n] have sc: "is_scalar n" and u: "units_of n = p" by auto
  show ?thesis
  proof (cases "is_unreserved n")
    case True
    from unreserved_ascii [OF this] have "n < 128" .
    moreover from True have "n \<noteq> 37" by (auto simp: is_unreserved_iff)
    moreover from \<open>n < 128\<close> u have "p = [n]" by (simp add: units_of_def)
    ultimately show ?thesis using e True by simp
  next
    case False
    from utf8_bytes_shape [OF sc] obtain b bs where
      b: "utf8_bytes n = b # bs" "announced b = length bs" "\<forall>x \<in> set (b # bs). x < 256" .
    have d: "utf8_decode (b # bs) = p" using utf8_decode_bytes [OF sc, of "[]"] b(1) u by simp
    obtain t where t: "percent b = 37 # t" by (rule percent_cons)
    have "utf8 p = b # bs" using point_of_points [OF assms(1)] n b(1) by (simp add: utf8_def)
    moreover have "e @ r = 37 # t @ concat (map percent bs) @ r" using e False b(1) t by simp
    moreover have "pct_byte (t @ concat (map percent bs) @ r) = Some (b, concat (map percent bs) @ r)"
      by (rule pct_byte_percent [OF _ t]) (use b(3) in simp)
    moreover have "pct_bytes (announced b) (concat (map percent bs) @ r) = Some (bs, r)"
      unfolding b(2) by (rule pct_bytes_percent) (use b(3) in simp)
    ultimately show ?thesis using d by simp
  qed
qed

lemma decode_encoded:
  assumes "encodeURIComponent s = Some e" and "code_units s"
  shows "decodeURIComponent e = Some s"
proof -
  have "decodeURIComponent (concat (map (\<lambda>p. the (encode_code_point p)) ps)) = Some (concat ps)"
    if "set ps \<subseteq> set (code_points s)" for ps
    using that
  proof (induction ps)
    case (Cons p ps)
    from Cons.prems have p: "p \<in> set (code_points s)" by simp
    then have "encode_code_point p = Some (the (encode_code_point p))"
      using assms(1) by (auto simp: encodeURIComponent_def Let_def list_all_iff split: if_splits)
    from decode_code_point [OF p assms(2) this] Cons show ?case by simp
  qed simp
  from this [of "code_points s"] assms(1) show ?thesis
    by (simp add: encodeURIComponent_def Let_def comp_def split: if_splits)
qed

lemma percent_chars: "c \<in> set (percent b) \<Longrightarrow> b < 256 \<Longrightarrow> c = 37 \<or> is_unreserved c"
proof -
  assume c: "c \<in> set (percent b)" and b: "b < 256"
  from b have "b div 16 < 16" "b mod 16 < 16" by simp_all
  moreover have "is_unreserved (upper_hex d)" if "d < 16" for d
    using that by (auto simp: is_unreserved_iff upper_hex_def)
  ultimately show ?thesis using c by (auto simp: percent_def)
qed

lemma encode_point_chars:
  assumes "encode_code_point p = Some e" and "p \<in> set (code_points s)" and "code_units s"
  shows "e \<noteq> [] \<and> (\<forall>c \<in> set e. c = 37 \<or> is_unreserved c)"
proof -
  from assms(1) obtain n where n: "scalar_of p = Some n"
    and e: "e = (if is_unreserved n then [n] else concat (map percent (utf8_bytes n)))"
    by (auto simp: encode_code_point_def split: option.splits if_splits)
  from scalar_units [OF assms(2,3) n] have "is_scalar n" by simp
  from utf8_bytes_shape [OF this] obtain b bs where
    "utf8_bytes n = b # bs" "announced b = length bs" "\<forall>x \<in> set (b # bs). x < 256" .
  note bytes = this
  show ?thesis
  proof (cases "is_unreserved n")
    case True
    with e show ?thesis by simp
  next
    case False
    have "percent b \<noteq> []" by (simp add: percent_def)
    with False e bytes show ?thesis by (fastforce dest: percent_chars)
  qed
qed

text \<open>An encoded segment is not empty and has no character that means something in a path.\<close>

lemma encoded_segment:
  assumes "encodeURIComponent s = Some e" and "code_units s" and "s \<noteq> []"
  shows "e \<noteq> []" and "47 \<notin> set e" and "63 \<notin> set e"
proof -
  have e: "e = concat (map (\<lambda>p. the (encode_code_point p)) (code_points s))"
    and all: "p \<in> set (code_points s) \<Longrightarrow> encode_code_point p = Some (the (encode_code_point p))" for p
    using assms(1) by (auto simp: encodeURIComponent_def Let_def list_all_iff comp_def split: if_splits)
  note chars = encode_point_chars [OF all _ assms(2)]
  have c: "\<forall>c \<in> set e. c = 37 \<or> is_unreserved c" using chars unfolding e by fastforce
  then show "47 \<notin> set e" "63 \<notin> set e" by (auto simp: is_unreserved_iff)
  obtain p ps where p: "code_points s = p # ps" using assms(3) by (cases "code_points s") auto
  with chars [of p] show "e \<noteq> []" unfolding e by auto
qed

section \<open>Paths\<close>

text \<open>\<open>replace(/\/+/g, "/")\<close>.\<close>

fun collapse_slashes :: "jstring \<Rightarrow> jstring" where
  "collapse_slashes [] = []"
| "collapse_slashes [c] = [c]"
| "collapse_slashes (c # d # cs) =
     (if c = 47 \<and> d = 47 then collapse_slashes (d # cs) else c # collapse_slashes (d # cs))"

definition strip_last_slash :: "jstring \<Rightarrow> jstring" where
  "strip_last_slash s = (if s \<noteq> [] \<and> last s = 47 then butlast s else s)"

text \<open>Without the query string, without doubled slashes and without a slash at the end.\<close>

definition normalizePath :: "jstring \<Rightarrow> jstring" where
  "normalizePath path =
     (let pathname = hd (split_on 63 path);
          collapsed = collapse_slashes (47 # pathname)
      in if length collapsed > 1 then strip_last_slash collapsed else [47])"

definition joinPaths :: "jstring \<Rightarrow> jstring \<Rightarrow> jstring" where
  "joinPaths a b = collapse_slashes (47 # join_with 47 [a, b])"

text \<open>\<open>PATH_METADATA\<close> is a string, a list of strings, or absent.\<close>

definition toPaths :: "jsv \<Rightarrow> jstring list" where
  "toPaths meta =
     (case meta of
        JArr ps \<Rightarrow> map str_of (filter is_str ps)
      | JStr p \<Rightarrow> [p]
      | _ \<Rightarrow> [[47]])"

datatype Segment = Lit jstring | Param jstring

fun compile_segments :: "jstring list \<Rightarrow> Segment list option" where
  "compile_segments [] = Some []"
| "compile_segments (s # ss) =
     (if 42 \<in> set s \<or> 123 \<in> set s then None
      else map_option
             (\<lambda>ps. (if s \<noteq> [] \<and> hd s = 58 then Param (tl s) else Lit s) # ps) (compile_segments ss))"

definition compilePath :: "jstring \<Rightarrow> Segment list option" where
  "compilePath path = compile_segments (filter (\<lambda>s. s \<noteq> []) (split_on 47 (normalizePath path)))"

fun seg_matches :: "Segment \<Rightarrow> jstring \<Rightarrow> bool" where
  "seg_matches (Lit l) p = (p = l)"
| "seg_matches (Param _) p = (p \<noteq> [])"

text \<open>
  \<open>pattern.exec(pathname)\<close>: the text after the first slash, cut at its slashes, has to be the
  segments of the template, with one empty piece more when it ends with a slash. The template
  without segments is the empty text.
\<close>

definition exec_pattern :: "Segment list \<Rightarrow> jstring \<Rightarrow> jstring list option" where
  "exec_pattern segs pathname =
     (case pathname of
        [] \<Rightarrow> None
      | c # rest \<Rightarrow>
          if c \<noteq> 47 then None
          else (let segs' = (if segs = [] then [Lit []] else segs);
                    pieces = split_on 47 rest;
                    parts = (if length pieces = Suc (length segs') \<and> last pieces = []
                             then butlast pieces else pieces)
                in if list_all2 seg_matches segs' parts
                   then Some (map snd (filter (\<lambda>(s, p). case s of Param _ \<Rightarrow> True | Lit _ \<Rightarrow> False) (zip segs' parts)))
                   else None))"

section \<open>The registry\<close>

datatype RouteScope = Scope_public | Scope_user | Scope_system

text \<open>The tier of a route: one of the three marks, or org-scoped when nothing is marked.\<close>

datatype Tier = Marked RouteScope | Org_tier

datatype RequestMethod = RM_GET | RM_POST | RM_PUT | RM_DELETE | RM_PATCH | RM_ALL | RM_OPTIONS | RM_HEAD

fun method_name :: "RequestMethod \<Rightarrow> jstring" where
  "method_name RM_GET = js ''GET''"
| "method_name RM_POST = js ''POST''"
| "method_name RM_PUT = js ''PUT''"
| "method_name RM_DELETE = js ''DELETE''"
| "method_name RM_PATCH = js ''PATCH''"
| "method_name RM_ALL = js ''ALL''"
| "method_name RM_OPTIONS = js ''OPTIONS''"
| "method_name RM_HEAD = js ''HEAD''"

text \<open>
  What the decorators leave on a class or a handler: the tier, the capability (\<open>undefined\<close> when not
  declared), the mark \<open>AnyActiveMember\<close>, the action of the rate limit. A handler also has its own
  guards (\<open>JsonOnlyGuard\<close>, \<open>JwtAuthGuard\<close>), the status of its answer and the headers its body sets on it.
\<close>

datatype OrgRateLimitAction =
    createOrganization | createInvitation | reissueInvitationLink | publicInvitationEntry | revealTaxProfile

record Marks =
  mk_scope :: "RouteScope option"
  mk_capability :: jsv
  mk_anyActiveMember :: bool
  mk_rateLimit :: "OrgRateLimitAction option"

record Handler =
  hd_name :: jstring
  hd_method :: "RequestMethod option"
  hd_path :: jsv
  hd_marks :: Marks
  hd_jsonOnly :: bool
  hd_jwt :: bool
  hd_status :: nat
  hd_headers :: "(jstring \<times> jstring) list"

record Controller =
  ct_name :: jstring
  ct_path :: jsv
  ct_marks :: Marks
  ct_handlers :: "Handler list"

record CompiledRoute =
  cr_method :: RequestMethod
  cr_pattern :: "Segment list"
  cr_scope :: Tier
  cr_source :: jstring

text \<open>\<open>reflector.getAllAndOverride\<close>: the handler's mark, else the class's.\<close>

definition override :: "'a option \<Rightarrow> 'a option \<Rightarrow> 'a option" where
  "override a b = (case a of Some x \<Rightarrow> Some x | None \<Rightarrow> b)"

definition tier_of :: "Controller \<Rightarrow> Handler \<Rightarrow> Tier" where
  "tier_of c h =
     (case override (mk_scope (hd_marks h)) (mk_scope (ct_marks c)) of
        Some s \<Rightarrow> Marked s
      | None \<Rightarrow> Org_tier)"

definition build_handler :: "Controller \<Rightarrow> Handler \<Rightarrow> CompiledRoute list" where
  "build_handler c h =
     (case hd_method h of
        None \<Rightarrow> []
      | Some m \<Rightarrow>
          concat (map (\<lambda>cp.
            concat (map (\<lambda>hp.
              (case compilePath (joinPaths cp hp) of
                 None \<Rightarrow> []
               | Some segs \<Rightarrow>
                   [\<lparr>cr_method = m, cr_pattern = segs, cr_scope = tier_of c h,
                     cr_source = ct_name c @ 46 # hd_name h\<rparr>]))
              (toPaths (hd_path h))))
            (toPaths (ct_path c))))"

definition build :: "Controller list \<Rightarrow> CompiledRoute list" where
  "build cs = concat (map (\<lambda>c. concat (map (build_handler c) (ct_handlers c))) cs)"

section \<open>Matching a request\<close>

definition methodMatches :: "RequestMethod \<Rightarrow> jstring \<Rightarrow> bool" where
  "methodMatches m verb \<longleftrightarrow> m = RM_ALL \<or> method_name m = verb"

record RouteScopeMatch =
  rm_scope :: Tier
  rm_params :: "(jstring \<times> jstring) list"

datatype VerbMatch = Nothing | AMBIGUOUS | Found RouteScopeMatch

definition param_names :: "Segment list \<Rightarrow> jstring list" where
  "param_names segs = concat (map (\<lambda>s. case s of Param n \<Rightarrow> [n] | Lit _ \<Rightarrow> []) segs)"

text \<open>Assigning the parameters in order: of two with one name the later one stays.\<close>

definition read_params :: "Segment list \<Rightarrow> jstring list \<Rightarrow> (jstring \<times> jstring) list" where
  "read_params segs groups = rev (zip (param_names segs) (map decodeParam groups))"

fun match_loop :: "CompiledRoute list \<Rightarrow> jstring \<Rightarrow> jstring \<Rightarrow> RouteScopeMatch option \<Rightarrow> VerbMatch" where
  "match_loop [] verb pathname found = (case found of None \<Rightarrow> Nothing | Some f \<Rightarrow> Found f)"
| "match_loop (r # rs) verb pathname found =
     (if \<not> methodMatches (cr_method r) verb then match_loop rs verb pathname found
      else case exec_pattern (cr_pattern r) pathname of
             None \<Rightarrow> match_loop rs verb pathname found
           | Some groups \<Rightarrow>
               (case found of
                  Some f \<Rightarrow> if rm_scope f \<noteq> cr_scope r then AMBIGUOUS
                            else match_loop rs verb pathname found
                | None \<Rightarrow> match_loop rs verb pathname
                    (Some \<lparr>rm_scope = cr_scope r, rm_params = read_params (cr_pattern r) groups\<rparr>)))"

definition matchVerb :: "CompiledRoute list \<Rightarrow> jstring \<Rightarrow> jstring \<Rightarrow> VerbMatch" where
  "matchVerb routes verb path = match_loop routes verb (normalizePath path) None"

text \<open>HTTP methods are ASCII tokens, so upper-casing is ASCII upper-casing.\<close>

definition ascii_upper :: "jstring \<Rightarrow> jstring" where
  "ascii_upper = map (\<lambda>c. if 97 \<le> c \<and> c \<le> 122 then c - 32 else c)"

definition as_match :: "VerbMatch \<Rightarrow> RouteScopeMatch option" where
  "as_match v = (case v of Found f \<Rightarrow> Some f | _ \<Rightarrow> None)"

definition match_route :: "CompiledRoute list \<Rightarrow> jstring \<Rightarrow> jstring \<Rightarrow> RouteScopeMatch option" where
  "match_route routes method path =
     (let verb = ascii_upper method;
          direct = matchVerb routes verb path
      in if direct \<noteq> Nothing \<or> verb \<noteq> js ''HEAD'' then as_match direct
         else as_match (matchVerb routes (js ''GET'') path))"

section \<open>Paths made from segments\<close>

lemma split_join:
  "ps \<noteq> [] \<Longrightarrow> \<forall>p \<in> set ps. c \<notin> set p \<Longrightarrow> split_on c (join_with c ps) = ps"
  by (induction c ps rule: join_with.induct) (auto simp: split_on_absent split_on_append)

lemma set_join: "set (join_with c ps) \<subseteq> insert c (\<Union> (set ` set ps))"
  by (induction c ps rule: join_with.induct) auto

definition plain_part :: "jstring \<Rightarrow> bool" where
  "plain_part p \<longleftrightarrow> p \<noteq> [] \<and> 47 \<notin> set p \<and> 63 \<notin> set p"

definition path_of :: "jstring list \<Rightarrow> jstring" where
  "path_of ps = 47 # join_with 47 ps"

lemma collapse_cons: "c \<noteq> 47 \<or> s = [] \<or> hd s \<noteq> 47 \<Longrightarrow> collapse_slashes (c # s) = c # collapse_slashes s"
  by (cases s) auto

lemma collapse_append: "47 \<notin> set p \<Longrightarrow> collapse_slashes (p @ s) = p @ collapse_slashes s"
  by (induction p) (auto simp: collapse_cons)

lemma join_hd:
  assumes "ps \<noteq> []" and "\<forall>p \<in> set ps. plain_part p"
  shows "hd (join_with c ps) \<noteq> 47" and "last (join_with c ps) \<noteq> 47" and "join_with c ps \<noteq> []"
  using assms
  by (induction c ps rule: join_with.induct) (auto simp: plain_part_def hd_append dest: hd_in_set last_in_set)

lemma collapse_join:
  "\<forall>p \<in> set ps. plain_part p \<Longrightarrow> collapse_slashes (join_with 47 ps) = join_with 47 ps"
proof (induction "47 :: nat" ps rule: join_with.induct)
  case (2 p)
  then show ?case using collapse_append [of p "[]"] by (simp add: plain_part_def)
next
  case (3 p q ps)
  then show ?case using join_hd(1) [of "q # ps" 47]
    by (simp add: collapse_append plain_part_def collapse_cons)
qed simp

text \<open>A path made of plain parts is normal, with or without a query string after it.\<close>

lemma normalize_path_of:
  assumes "ps \<noteq> []" and "\<forall>p \<in> set ps. plain_part p" and "query = [] \<or> hd query = 63"
  shows "normalizePath (path_of ps @ query) = path_of ps"
proof -
  have n: "63 \<notin> set (path_of ps)"
    using set_join [of 47 ps] assms(2) by (auto simp: path_of_def plain_part_def)
  from assms(3) obtain q where "query = [] \<or> query = 63 # q" by (cases query) auto
  then have "hd (split_on 63 (path_of ps @ query)) = path_of ps"
    using n split_on_absent [OF n] split_on_append [OF n] by auto
  moreover have "collapse_slashes (47 # path_of ps) = path_of ps"
    using collapse_join [OF assms(2)] join_hd(1) [OF assms(1,2)] by (simp add: path_of_def collapse_cons)
  ultimately show ?thesis
    using join_hd(2,3) [OF assms(1,2), of 47]
    by (simp add: normalizePath_def Let_def path_of_def strip_last_slash_def)
qed

definition captured :: "Segment list \<Rightarrow> jstring list \<Rightarrow> jstring list" where
  "captured segs parts =
     map snd (filter (\<lambda>(s, p). case s of Param _ \<Rightarrow> True | Lit _ \<Rightarrow> False) (zip segs parts))"

lemma exec_path_of:
  assumes "ps \<noteq> []" and "\<forall>p \<in> set ps. plain_part p"
  shows "exec_pattern segs (path_of ps) =
     (if list_all2 seg_matches segs ps then Some (captured segs ps) else None)"
proof -
  have s: "split_on 47 (join_with 47 ps) = ps" using assms by (intro split_join) (auto simp: plain_part_def)
  have l: "last ps \<noteq> []" using assms by (auto simp: plain_part_def)
  have e: "\<not> list_all2 seg_matches [Lit []] ps" using assms by (cases ps) (auto simp: plain_part_def)
  show ?thesis using assms(1) e by (cases "segs = []") (auto simp: exec_pattern_def path_of_def s l captured_def)
qed

section \<open>One route for a request\<close>

text \<open>The routes that answer a request; when they agree on the tier the first one decides.\<close>

definition answers_to :: "jstring \<Rightarrow> jstring \<Rightarrow> CompiledRoute \<Rightarrow> bool" where
  "answers_to verb pathname r \<longleftrightarrow> methodMatches (cr_method r) verb \<and> exec_pattern (cr_pattern r) pathname \<noteq> None"

lemma match_loop_found:
  "\<forall>r \<in> set rs. answers_to verb pathname r \<longrightarrow> cr_scope r = rm_scope f \<Longrightarrow>
     match_loop rs verb pathname (Some f) = Found f"
  by (induction rs) (auto simp: answers_to_def split: option.splits)

lemma match_loop_unique:
  assumes "r \<in> set rs" and "answers_to verb pathname r"
    and "\<forall>s \<in> set rs. answers_to verb pathname s \<longrightarrow> s = r"
  shows "match_loop rs verb pathname None =
     Found \<lparr>rm_scope = cr_scope r,
            rm_params = read_params (cr_pattern r) (the (exec_pattern (cr_pattern r) pathname))\<rparr>"
  using assms
proof (induction rs)
  case (Cons s rs)
  show ?case
  proof (cases "answers_to verb pathname s")
    case True
    with Cons.prems(3) have s: "s = r" by simp
    from True obtain g where g: "methodMatches (cr_method r) verb" "exec_pattern (cr_pattern r) pathname = Some g"
      by (auto simp: answers_to_def s)
    let ?f = "\<lparr>rm_scope = cr_scope r, rm_params = read_params (cr_pattern r) g\<rparr>"
    have "match_loop rs verb pathname (Some ?f) = Found ?f"
      by (rule match_loop_found) (use Cons.prems(3) in simp)
    then show ?thesis using g by (simp add: s)
  next
    case False
    with Cons.prems(1,2) have "r \<in> set rs" by auto
    moreover have "\<forall>s \<in> set rs. answers_to verb pathname s \<longrightarrow> s = r"
      using Cons.prems(3) unfolding list.set by blast
    ultimately have "match_loop rs verb pathname None =
       Found \<lparr>rm_scope = cr_scope r,
              rm_params = read_params (cr_pattern r) (the (exec_pattern (cr_pattern r) pathname))\<rparr>"
      by (rule Cons.IH [OF _ Cons.prems(2)])
    with False show ?thesis by (simp add: answers_to_def split: option.splits)
  qed
qed simp

lemma match_loop_none:
  "\<forall>r \<in> set rs. \<not> answers_to verb pathname r \<Longrightarrow> match_loop rs verb pathname None = Nothing"
  by (induction rs) (auto simp: answers_to_def split: option.splits)

text \<open>Two templates that no path answers together.\<close>

definition seg_compatible :: "Segment \<Rightarrow> Segment \<Rightarrow> bool" where
  "seg_compatible a b \<longleftrightarrow> (case (a, b) of (Lit x, Lit y) \<Rightarrow> x = y | _ \<Rightarrow> True)"

lemma both_match:
  "list_all2 seg_matches a ps \<Longrightarrow> list_all2 seg_matches b ps \<Longrightarrow> list_all2 seg_compatible a b"
proof (induction a ps arbitrary: b rule: list_all2_induct)
  case (Cons x xs y ys)
  then show ?case
    by (cases b; cases x; cases "hd b") (auto simp: seg_compatible_def)
qed auto

fun apart :: "CompiledRoute list \<Rightarrow> bool" where
  "apart [] = True"
| "apart (r # rs) =
     (cr_method r \<noteq> RM_ALL \<and> cr_pattern r \<noteq> [] \<and>
      list_all (\<lambda>s. cr_method r \<noteq> cr_method s \<or> \<not> list_all2 seg_compatible (cr_pattern r) (cr_pattern s)) rs \<and>
      apart rs)"

lemma compatible_sym: "list_all2 seg_compatible a b = list_all2 seg_compatible b a"
proof -
  have "seg_compatible x y = seg_compatible y x" for x y
    by (auto simp: seg_compatible_def split: Segment.splits)
  then show ?thesis by (simp add: list_all2_conv_all_nth conj_commute eq_commute [of "length a"] cong: conj_cong)
qed

lemma apart_routes:
  assumes "apart rs" and "r \<in> set rs"
  shows "cr_method r \<noteq> RM_ALL" and "cr_pattern r \<noteq> []"
    and "s \<in> set rs \<Longrightarrow> cr_method s = cr_method r \<Longrightarrow>
      list_all2 seg_compatible (cr_pattern s) (cr_pattern r) \<Longrightarrow> s = r"
  using assms by (induction rs) (auto simp: list_all_iff compatible_sym [of "cr_pattern s"])

lemma method_name_inj: "method_name a = method_name b \<longleftrightarrow> a = b"
  by (cases a; cases b) simp_all

text \<open>A route of a table whose templates are apart, asked by a path that fits it, is found.\<close>

lemma matchVerb_found:
  assumes "apart rs" and "r \<in> set rs" and "list_all2 seg_matches (cr_pattern r) ps"
    and "\<forall>p \<in> set ps. plain_part p" and "query = [] \<or> hd query = 63"
  shows "matchVerb rs (method_name (cr_method r)) (path_of ps @ query) =
     Found \<lparr>rm_scope = cr_scope r, rm_params = read_params (cr_pattern r) (captured (cr_pattern r) ps)\<rparr>"
proof -
  note apart = apart_routes [OF assms(1)]
  have ne: "ps \<noteq> []" using apart(2) [OF assms(2)] assms(3) by auto
  have a: "answers_to (method_name (cr_method r)) (path_of ps) s \<longleftrightarrow>
      cr_method s = cr_method r \<and> list_all2 seg_matches (cr_pattern s) ps" if "s \<in> set rs" for s
    using apart(1) [OF that]
    by (auto simp: answers_to_def exec_path_of [OF ne assms(4)] methodMatches_def method_name_inj)
  have u: "s = r" if s: "s \<in> set rs" and t: "answers_to (method_name (cr_method r)) (path_of ps) s" for s
  proof -
    note m = conjunct1 [OF iffD1 [OF a [OF s] t]] conjunct2 [OF iffD1 [OF a [OF s] t]]
    from apart(3) [OF assms(2) s m(1) both_match [OF m(2) assms(3)]] show ?thesis .
  qed
  show ?thesis
    unfolding matchVerb_def normalize_path_of [OF ne assms(4,5)]
    using match_loop_unique [OF assms(2), of "method_name (cr_method r)" "path_of ps"] a [OF assms(2)] u assms(3)
    by (simp add: exec_path_of [OF ne assms(4)])
qed

end
