(* ===== verification/AccessGate.thy ===== *)
theory AccessGate
  imports RouteRegistry SecurityEvents DemoDb
begin

text \<open>
  The chain every request passes before a handler runs: the bearer token and the organization of
  the request (\<open>apps/api/src/tenancy/org-context.middleware.ts\<close>, \<open>access-token-verifier.ts\<close>), the
  tier guard (\<open>org-scope.guard.ts\<close>) and the capability guard (\<open>common/authz/capability.guard.ts\<close>),
  in the order \<open>tenancy.module.ts\<close> registers them. \<open>jwt\<close> is the verification of the JWT library: the
  claims of a token, or \<open>None\<close> when it throws. A guard answers the audit events it emits and its
  verdict.
\<close>

section \<open>The request\<close>

text \<open>
  A header that is absent is \<open>JUndef\<close>, one that came more than once is a \<open>JArr\<close>. \<open>rq_params\<close> are
  the path parameters of the framework's own router, which chose the handler.
\<close>

record Request =
  rq_method :: jstring
  rq_url :: jstring
  rq_authorization :: jsv
  rq_organization :: jsv
  rq_contentType :: "jstring option"
  rq_params :: "(jstring \<times> jstring) list"
  rq_ip :: "jstring option"

section \<open>The access token\<close>

definition verify :: "(jstring \<Rightarrow> jsv option) \<Rightarrow> jstring \<Rightarrow> jstring option" where
  "verify jwt rawToken =
     (if rawToken = [] then None
      else case jwt rawToken of
             None \<Rightarrow> None
           | Some claims \<Rightarrow>
               if get_prop claims (js ''typ'') \<noteq> JStr ACCESS_TOKEN_TYP then None
               else (case get_prop claims (js ''sub'') of
                       JStr s \<Rightarrow> if s = [] then None else Some s
                     | _ \<Rightarrow> None))"

definition BEARER_PREFIX :: jstring where "BEARER_PREFIX = js ''bearer ''"

text \<open>The text of a header is Latin-1, where lower-casing touches an ASCII prefix as ASCII does.\<close>

definition verifyBearer :: "(jstring \<Rightarrow> jsv option) \<Rightarrow> Request \<Rightarrow> jstring option" where
  "verifyBearer jwt req =
     (case rq_authorization req of
        JStr header \<Rightarrow>
          if take (length BEARER_PREFIX) (ascii_lower header) \<noteq> BEARER_PREFIX then None
          else (let token = trim (drop (length BEARER_PREFIX) header)
                in if token = [] then None else verify jwt token)
      | _ \<Rightarrow> None)"

definition readHeader :: "jsv \<Rightarrow> jstring option" where
  "readHeader raw =
     (let v = (case raw of JArr xs \<Rightarrow> (case xs of [] \<Rightarrow> JUndef | x # _ \<Rightarrow> x) | _ \<Rightarrow> raw);
          trimmed = (case v of JStr s \<Rightarrow> trim s | _ \<Rightarrow> [])
      in if trimmed = [] then None else Some trimmed)"

section \<open>The organization of the request\<close>

datatype OrgAuthOutcome =
    Out_ok | Out_none | Out_mismatch | Out_no_membership | Out_revoked | Out_not_active | Out_skipped

text \<open>\<open>oa_routeTier = None\<close> is \<open>unknown\<close>: the middleware could not identify the route.\<close>

record OrgAuthState =
  oa_userId :: "jstring option"
  oa_tokenValid :: bool
  oa_orgOutcome :: OrgAuthOutcome
  oa_routeTier :: "Tier option"

text \<open>\<open>membership.findUnique\<close> on the pair, with the role of the row.\<close>

type_synonym lookup = "jstring \<Rightarrow> jstring \<Rightarrow> Thrown + (Membership \<times> Role option) option"

definition find_membership :: "OrgDb \<Rightarrow> lookup" where
  "find_membership db o' u =
     Inr (map_option (\<lambda>m. (m, find_scoped role_org o' (\<lambda>r. role_id r = mem_roleId m) (db_roles db)))
            (find (\<lambda>m. mem_org m = o' \<and> mem_userId m = u) (db_memberships db)))"

text \<open>\<open>membership.role?.capabilities ?? []\<close>.\<close>

definition caps_of_role :: "Role option \<Rightarrow> jstring list" where
  "caps_of_role role = (case role of None \<Rightarrow> [] | Some r \<Rightarrow> role_capabilities r)"

definition not_empty :: "jstring option \<Rightarrow> jstring option" where
  "not_empty s = (case s of Some t \<Rightarrow> if t = [] then None else Some t | None \<Rightarrow> None)"

text \<open>What the row of the pair means for the request.\<close>

definition settle ::
    "OrgAuthState \<Rightarrow> jstring \<Rightarrow> jstring \<Rightarrow> (Membership \<times> Role option) option \<Rightarrow> OrgAuthState \<times> OrgRequestContext option"
  where
  "settle auth organizationId u membership =
     (case membership of
        None \<Rightarrow> (auth\<lparr>oa_orgOutcome := Out_no_membership\<rparr>, None)
      | Some (m, role) \<Rightarrow>
          (case mem_status m of
             MActive \<Rightarrow>
               (auth\<lparr>oa_orgOutcome := Out_ok\<rparr>,
                Some \<lparr>ctx_organizationId = organizationId, ctx_userId = Some u,
                      ctx_membershipId = Some (mem_id m), ctx_roleId = Some (mem_roleId m),
                      ctx_capabilities = Some (caps_of_role role)\<rparr>)
           | MRevoked \<Rightarrow> (auth\<lparr>oa_orgOutcome := Out_revoked\<rparr>, None)
           | MInvited \<Rightarrow> (auth\<lparr>oa_orgOutcome := Out_not_active\<rparr>, None)))"

definition resolveOrgScoped ::
    "lookup \<Rightarrow> Request \<Rightarrow> OrgAuthState \<Rightarrow> jstring option \<Rightarrow> Thrown + (OrgAuthState \<times> OrgRequestContext option)"
  where
  "resolveOrgScoped look req auth pathOrgId =
     (let headerOrgId = readHeader (rq_organization req);
          paramOrgId = not_empty (map_option trim pathOrgId)
      in if headerOrgId \<noteq> None \<and> paramOrgId \<noteq> None \<and> headerOrgId \<noteq> paramOrgId
         then Inr (auth\<lparr>oa_orgOutcome := Out_mismatch\<rparr>, None)
         else case (case headerOrgId of Some h \<Rightarrow> Some h | None \<Rightarrow> paramOrgId) of
                None \<Rightarrow> Inr (auth\<lparr>oa_orgOutcome := Out_none\<rparr>, None)
              | Some organizationId \<Rightarrow>
                  (case oa_userId auth of
                     None \<Rightarrow> Inr (auth\<lparr>oa_orgOutcome := Out_none\<rparr>, None)
                   | Some u \<Rightarrow>
                       if \<not> oa_tokenValid auth \<or> u = [] then Inr (auth\<lparr>oa_orgOutcome := Out_none\<rparr>, None)
                       else rbind (look organizationId u) (\<lambda>membership. Inr (settle auth organizationId u membership))))"

definition ORG_ID_PARAM :: jstring where "ORG_ID_PARAM = js ''orgId''"

definition use_middleware ::
    "(jstring \<Rightarrow> jsv option) \<Rightarrow> lookup \<Rightarrow> CompiledRoute list \<Rightarrow> Request \<Rightarrow>
     Thrown + (OrgAuthState \<times> OrgRequestContext option)" where
  "use_middleware jwt look routes req =
     (let verified = verifyBearer jwt req;
          auth = \<lparr>oa_userId = verified, oa_tokenValid = (verified \<noteq> None),
                  oa_orgOutcome = Out_skipped, oa_routeTier = None\<rparr>
      in case match_route routes (rq_method req) (rq_url req) of
           None \<Rightarrow> Inr (auth, None)
         | Some m \<Rightarrow>
             if rm_scope m \<noteq> Org_tier then Inr (auth\<lparr>oa_routeTier := Some (rm_scope m)\<rparr>, None)
             else resolveOrgScoped look req (auth\<lparr>oa_routeTier := Some Org_tier\<rparr>)
                    (map_of (rm_params m) ORG_ID_PARAM))"

section \<open>Verdicts with their audit events\<close>

type_synonym Denials = "(SecurityEventType \<times> payload) list"

type_synonym 'a verdict = "Denials \<times> (Thrown + 'a)"

definition vbind :: "'a verdict \<Rightarrow> ('a \<Rightarrow> 'b verdict) \<Rightarrow> 'b verdict" where
  "vbind v k =
     (case snd v of Inl e \<Rightarrow> (fst v, Inl e) | Inr x \<Rightarrow> (fst v @ fst (k x), snd (k x)))"

lemma vbind_Inr_iff:
  "vbind v k = (evs, Inr y) \<longleftrightarrow> (\<exists>x a b. v = (a, Inr x) \<and> k x = (b, Inr y) \<and> evs = a @ b)"
  by (cases v; cases "snd v") (auto simp: vbind_def prod_eq_iff)

lemma vbind_simps [simp]:
  "vbind (a, Inl e) k = (a, Inl e)" "vbind (a, Inr x) k = (a @ fst (k x), snd (k x))"
  by (simp_all add: vbind_def)

definition refuse :: "ErrorCode \<Rightarrow> 'a verdict" where
  "refuse c = ([], Inl (derr c))"

definition refuse_with :: "SecurityEventType \<Rightarrow> payload \<Rightarrow> ErrorCode \<Rightarrow> 'a verdict" where
  "refuse_with t p c = ([(t, p)], Inl (derr c))"

lemma refuse_simps [simp]:
  "snd (refuse c) = Inl (derr c)" "fst (refuse c) = []"
  "snd (refuse_with t p c) = Inl (derr c)" "refuse c \<noteq> (evs, Inr x)" "refuse_with t p c \<noteq> (evs, Inr x)"
  by (simp_all add: refuse_def refuse_with_def)

definition opt_str :: "jstring option \<Rightarrow> jsv" where
  "opt_str s = (case s of None \<Rightarrow> JUndef | Some t \<Rightarrow> JStr t)"

section \<open>The tier guard\<close>

text \<open>Whether the transport is HTTP is the first argument; every other one is refused.\<close>

definition denial_payload :: "OrgAuthState \<Rightarrow> jstring option \<Rightarrow> string \<Rightarrow> payload" where
  "denial_payload auth organizationId reason =
     [(js ''userId'', opt_str (oa_userId auth)), (js ''organizationId'', opt_str organizationId),
      (js ''reason'', JStr (js reason))]"

definition recordDenial :: "OrgAuthState \<Rightarrow> jstring option \<Rightarrow> string \<Rightarrow> ErrorCode \<Rightarrow> unit verdict" where
  "recordDenial auth organizationId reason code =
     refuse_with Ev_org_access_denied (denial_payload auth organizationId reason) code"

definition decideOrgScoped :: "OrgAuthState \<Rightarrow> jstring option \<Rightarrow> unit verdict" where
  "decideOrgScoped auth requestedOrgId =
     (if \<not> oa_tokenValid auth then refuse E_UNAUTHENTICATED
      else case oa_orgOutcome auth of
             Out_ok \<Rightarrow> ([], Inr ())
           | Out_none \<Rightarrow> refuse E_ORG_CONTEXT_REQUIRED
           | Out_mismatch \<Rightarrow> recordDenial auth requestedOrgId ''mismatch'' E_ORG_MISMATCH
           | Out_no_membership \<Rightarrow> recordDenial auth requestedOrgId ''no_membership'' E_ORG_ACCESS_DENIED
           | Out_revoked \<Rightarrow> recordDenial auth requestedOrgId ''revoked'' E_ORG_ACCESS_DENIED
           | Out_not_active \<Rightarrow> recordDenial auth requestedOrgId ''not_active'' E_ORG_ACCESS_DENIED
           | Out_skipped \<Rightarrow> refuse E_INTERNAL)"

definition orgScopeGuard ::
    "bool \<Rightarrow> Controller \<Rightarrow> Handler \<Rightarrow> Request \<Rightarrow> OrgAuthState option \<Rightarrow> unit verdict" where
  "orgScopeGuard http c h req orgAuth =
     (if \<not> http then refuse E_FORBIDDEN
      else case orgAuth of
             None \<Rightarrow> refuse E_INTERNAL
           | Some auth \<Rightarrow>
               (let tier = tier_of c h in
                if oa_routeTier auth \<noteq> None \<and> oa_routeTier auth \<noteq> Some tier then refuse E_INTERNAL
                else if oa_routeTier auth = None \<and> tier = Org_tier then refuse E_INTERNAL
                else case tier of
                       Marked Scope_public \<Rightarrow> ([], Inr ())
                     | Marked Scope_user \<Rightarrow>
                         if \<not> oa_tokenValid auth then refuse E_UNAUTHENTICATED else ([], Inr ())
                     | Marked Scope_system \<Rightarrow> refuse E_FORBIDDEN
                     | Org_tier \<Rightarrow> decideOrgScoped auth (map_of (rq_params req) ORG_ID_PARAM)))"

section \<open>The capability guard\<close>

datatype Declaration =
    Decl_capability jstring | Decl_any_active_member | Decl_conflict | Decl_invalid | Decl_none

definition declarationOn :: "Marks \<Rightarrow> Declaration" where
  "declarationOn m =
     (if mk_capability m \<noteq> JUndef \<and> mk_anyActiveMember m then Decl_conflict
      else if mk_capability m \<noteq> JUndef
      then (case mk_capability m of
              JStr c \<Rightarrow> if trim c \<noteq> [] then Decl_capability c else Decl_invalid
            | _ \<Rightarrow> Decl_invalid)
      else if mk_anyActiveMember m then Decl_any_active_member
      else Decl_none)"

definition readDeclaration :: "Controller \<Rightarrow> Handler \<Rightarrow> Declaration" where
  "readDeclaration c h =
     (let atHandler = declarationOn (hd_marks h)
      in if atHandler = Decl_none then declarationOn (ct_marks c) else atHandler)"

definition capability_payload ::
    "OrgRequestContext option \<Rightarrow> jstring \<Rightarrow> jsv \<Rightarrow> string \<Rightarrow> payload" where
  "capability_payload ctx route required reason =
     [(js ''userId'', opt_str (Option.bind ctx ctx_userId)),
      (js ''organizationId'', opt_str (map_option ctx_organizationId ctx)),
      (js ''route'', JStr route), (js ''requiredCapability'', required), (js ''reason'', JStr (js reason))]"

definition route_label :: "Request \<Rightarrow> jstring" where
  "route_label req = ascii_upper (rq_method req) @ 32 # normalizePath (rq_url req)"

definition capabilityGuard ::
    "bool \<Rightarrow> Controller \<Rightarrow> Handler \<Rightarrow> Request \<Rightarrow> OrgRequestContext option \<Rightarrow> unit verdict" where
  "capabilityGuard http c h req ctx =
     (if \<not> http then refuse E_FORBIDDEN
      else if tier_of c h \<noteq> Org_tier then ([], Inr ())
      else case readDeclaration c h of
             Decl_conflict \<Rightarrow> refuse E_INTERNAL
           | Decl_invalid \<Rightarrow> refuse E_INTERNAL
           | Decl_none \<Rightarrow>
               refuse_with Ev_org_access_capability_denied
                 (capability_payload ctx (route_label req) JNull ''metadata_missing'') E_FORBIDDEN
           | Decl_any_active_member \<Rightarrow> (if ctx = None then refuse E_INTERNAL else ([], Inr ()))
           | Decl_capability cap \<Rightarrow>
               (case ctx of
                  None \<Rightarrow> refuse E_INTERNAL
                | Some x \<Rightarrow>
                    if hasCapability (case ctx_capabilities x of None \<Rightarrow> [] | Some cs \<Rightarrow> cs) cap then ([], Inr ())
                    else refuse_with Ev_org_access_capability_denied
                           (capability_payload ctx (route_label req) (JStr cap) ''missing_capability'') E_FORBIDDEN))"

section \<open>The chain\<close>

text \<open>
  What the request may become: refused, or handed to the handler \<open>h\<close> of \<open>c\<close> with what the
  middleware found out. The framework chose \<open>h\<close>; nothing here assumes that the registry agrees.
\<close>

definition authorize ::
    "(jstring \<Rightarrow> jsv option) \<Rightarrow> lookup \<Rightarrow> CompiledRoute list \<Rightarrow> bool \<Rightarrow> Controller \<Rightarrow> Handler \<Rightarrow> Request \<Rightarrow>
     (OrgAuthState \<times> OrgRequestContext option) verdict" where
  "authorize jwt look routes http c h req =
     vbind ([], use_middleware jwt look routes req) (\<lambda>(auth, ctx).
     vbind (orgScopeGuard http c h req (Some auth)) (\<lambda>_.
     vbind (capabilityGuard http c h req ctx) (\<lambda>_. ([], Inr (auth, ctx)))))"

section \<open>Who gets to a handler\<close>

text \<open>The organization a request asks for: header and path name the same one, or one of them names it.\<close>

definition asks_for :: "Request \<Rightarrow> jstring option \<Rightarrow> jstring \<Rightarrow> bool" where
  "asks_for req pathOrgId o' \<longleftrightarrow>
     (let h = readHeader (rq_organization req); p = not_empty (map_option trim pathOrgId)
      in (h = Some o' \<or> p = Some o') \<and> (h = None \<or> h = Some o') \<and> (h = None \<longrightarrow> p = Some o') \<and>
         (p = None \<or> p = Some o'))"

lemma not_empty_Some [simp]: "not_empty s = Some t \<longleftrightarrow> s = Some t \<and> t \<noteq> []"
  by (auto simp: not_empty_def split: option.splits)

lemma trimmed_text: "trim (case v of JStr s \<Rightarrow> trim s | _ \<Rightarrow> []) = (case v of JStr s \<Rightarrow> trim s | _ \<Rightarrow> [])"
  by (cases v) simp_all

lemma readHeader_nonempty: "readHeader raw = Some o' \<Longrightarrow> o' \<noteq> [] \<and> trim o' = o'"
  by (auto simp: readHeader_def Let_def trimmed_text split: if_splits)

lemma asks_for_nonempty: "asks_for req p o' \<Longrightarrow> o' \<noteq> [] \<and> trim o' = o'"
  by (auto simp: asks_for_def Let_def dest: readHeader_nonempty)

definition org_context :: "jstring \<Rightarrow> jstring \<Rightarrow> Membership \<Rightarrow> Role option \<Rightarrow> OrgRequestContext" where
  "org_context o' u m role =
     \<lparr>ctx_organizationId = o', ctx_userId = Some u, ctx_membershipId = Some (mem_id m),
      ctx_roleId = Some (mem_roleId m),
      ctx_capabilities = Some (caps_of_role role)\<rparr>"

lemma settle_ok:
  assumes "settle auth o' u membership = (auth', ctx)" and "oa_orgOutcome auth' = Out_ok"
  shows "\<exists>m role. membership = Some (m, role) \<and> mem_status m = MActive \<and> ctx = Some (org_context o' u m role) \<and>
    auth' = auth\<lparr>oa_orgOutcome := Out_ok\<rparr>"
proof -
  from assms obtain m role where "membership = Some (m, role)" by (auto simp: settle_def split: option.splits)
  with assms show ?thesis by (cases "mem_status m") (auto simp: settle_def org_context_def)
qed

lemma resolve_asks:
  assumes "resolveOrgScoped look req auth p = Inr (auth', ctx)"
  shows "oa_orgOutcome auth' \<in> {Out_mismatch, Out_none} \<and> ctx = None \<or>
    (\<exists>o' u membership. oa_userId auth = Some u \<and> oa_tokenValid auth \<and> asks_for req p o' \<and>
       look o' u = Inr membership \<and> settle auth o' u membership = (auth', ctx))"
  using assms
  by (auto simp: resolveOrgScoped_def Let_def asks_for_def rbind_Inr_iff split: if_splits option.splits)

lemma resolve_ok:
  assumes "resolveOrgScoped look req auth p = Inr (auth', ctx)" and "oa_orgOutcome auth' = Out_ok"
  shows "\<exists>o' u m role. oa_userId auth = Some u \<and> oa_tokenValid auth \<and> asks_for req p o' \<and>
    look o' u = Inr (Some (m, role)) \<and> mem_status m = MActive \<and> ctx = Some (org_context o' u m role) \<and>
    auth' = auth\<lparr>oa_orgOutcome := Out_ok\<rparr>"
proof -
  from resolve_asks [OF assms(1)] assms(2) obtain o' u membership where
    r: "oa_userId auth = Some u" "oa_tokenValid auth" "asks_for req p o'" "look o' u = Inr membership"
      "settle auth o' u membership = (auth', ctx)" by auto
  from settle_ok [OF r(5) assms(2)] r(1-4) show ?thesis by blast
qed

lemma middleware_org:
  assumes "use_middleware jwt look routes req = Inr (auth, ctx)" and "oa_orgOutcome auth = Out_ok"
  shows "\<exists>o' u m role (f :: RouteScopeMatch). verifyBearer jwt req = Some u \<and> match_route routes (rq_method req) (rq_url req) = Some f \<and>
    asks_for req (map_of (rm_params f) ORG_ID_PARAM) o' \<and> look o' u = Inr (Some (m, role)) \<and>
    mem_status m = MActive \<and> ctx = Some (org_context o' u m role) \<and>
    oa_userId auth = Some u"
proof -
  from assms obtain f :: RouteScopeMatch where f: "match_route routes (rq_method req) (rq_url req) = Some f" "rm_scope f = Org_tier"
    and r: "resolveOrgScoped look req
      \<lparr>oa_userId = verifyBearer jwt req, oa_tokenValid = (verifyBearer jwt req \<noteq> None),
       oa_orgOutcome = Out_skipped, oa_routeTier = Some Org_tier\<rparr> (map_of (rm_params f) ORG_ID_PARAM) = Inr (auth, ctx)"
    by (auto simp: use_middleware_def Let_def split: option.splits if_splits)
  from resolve_ok [OF r assms(2)] f show ?thesis by fastforce
qed

lemma admitted:
  assumes "authorize jwt look routes http c h req = (evs, Inr (auth, ctx))"
  shows "evs = []" and "http" and "use_middleware jwt look routes req = Inr (auth, ctx)"
    and "orgScopeGuard http c h req (Some auth) = ([], Inr ())"
    and "capabilityGuard http c h req ctx = ([], Inr ())"
proof -
  from assms obtain a b where u: "use_middleware jwt look routes req = Inr (auth, ctx)"
    and g: "orgScopeGuard http c h req (Some auth) = (a, Inr ())" "capabilityGuard http c h req ctx = (b, Inr ())"
    and e: "evs = a @ b"
    by (auto simp: authorize_def vbind_Inr_iff split: prod.splits)
  from g(1) have "a = []" and h: "http"
    by (auto simp: orgScopeGuard_def decideOrgScoped_def recordDenial_def Let_def
        split: if_splits Tier.splits RouteScope.splits OrgAuthOutcome.splits)
  moreover from g(2) have "b = []"
    by (auto simp: capabilityGuard_def split: if_splits Declaration.splits option.splits)
  ultimately show "evs = []" "http" "use_middleware jwt look routes req = Inr (auth, ctx)"
    "orgScopeGuard http c h req (Some auth) = ([], Inr ())" "capabilityGuard http c h req ctx = ([], Inr ())"
    using u g e by auto
qed

lemma org_guard_ok:
  assumes "orgScopeGuard http c h req (Some auth) = ([], Inr ())" and "tier_of c h = Org_tier"
  shows "oa_tokenValid auth" and "oa_orgOutcome auth = Out_ok"
  using assms
  by (auto simp: orgScopeGuard_def decideOrgScoped_def recordDenial_def Let_def
      split: if_splits OrgAuthOutcome.splits)

lemma capability_guard_ok:
  assumes "capabilityGuard http c h req (Some ctx) = ([], Inr ())" and "tier_of c h = Org_tier"
  shows "readDeclaration c h = Decl_any_active_member \<or>
    (\<exists>cap. readDeclaration c h = Decl_capability cap \<and>
       hasCapability (case ctx_capabilities ctx of None \<Rightarrow> [] | Some cs \<Rightarrow> cs) cap)"
  using assms by (auto simp: capabilityGuard_def split: if_splits Declaration.splits)

lemma mediated:
  assumes "authorize jwt (find_membership db) routes http c h req = (evs, Inr (auth, ctx))"
    and "tier_of c h = Org_tier"
  shows "\<exists>u m role p. verifyBearer jwt req = Some u \<and> asks_for req p (mem_org m) \<and>
    m \<in> set (db_memberships db) \<and> mem_userId m = u \<and> mem_status m = MActive \<and>
    ctx = Some (org_context (mem_org m) u m role) \<and>
    role = find_scoped role_org (mem_org m) (\<lambda>r. role_id r = mem_roleId m) (db_roles db) \<and>
    (readDeclaration c h = Decl_any_active_member \<or>
     (\<exists>cap. readDeclaration c h = Decl_capability cap \<and> hasCapability (caps_of_role role) cap))"
proof -
  note a = admitted [OF assms(1)]
  from middleware_org [OF a(3) org_guard_ok(2) [OF a(4) assms(2)]] obtain o' u m role and f :: RouteScopeMatch where
    f: "verifyBearer jwt req = Some u" "asks_for req (map_of (rm_params f) ORG_ID_PARAM) o'"
      "find_membership db o' u = Inr (Some (m, role))" "mem_status m = MActive"
      "ctx = Some (org_context o' u m role)" by metis
  from f(3) have m: "m \<in> set (db_memberships db)" "mem_org m = o'" "mem_userId m = u"
      "role = find_scoped role_org o' (\<lambda>r. role_id r = mem_roleId m) (db_roles db)"
    by (auto simp: find_membership_def dest: find_SomeD)
  have "readDeclaration c h = Decl_any_active_member \<or>
     (\<exists>cap. readDeclaration c h = Decl_capability cap \<and> hasCapability (caps_of_role role) cap)"
    using capability_guard_ok [OF a(5) [unfolded f(5)] assms(2)] by (auto simp: org_context_def)
  with f m show ?thesis by blast
qed

lemma role_caps_has:
  "hasCapability (caps_of_role role) cap \<longleftrightarrow>
     (\<exists>r. role = Some r \<and> (cap \<in> set (role_capabilities r) \<or> CAPABILITY_FULL_ACCESS \<in> set (role_capabilities r)))"
  by (cases role) (auto simp: caps_of_role_def hasCapability_def)


section \<open>What a refusal tells\<close>

text \<open>A request that asks the registry's route for \<open>o'\<close> with the token of \<open>u\<close>.\<close>

definition asks_as :: "(jstring \<Rightarrow> jsv option) \<Rightarrow> CompiledRoute list \<Rightarrow> Request \<Rightarrow> jstring \<Rightarrow> jstring \<Rightarrow> bool" where
  "asks_as jwt routes req u o' \<longleftrightarrow>
     verifyBearer jwt req = Some u \<and>
     (\<exists>f :: RouteScopeMatch. match_route routes (rq_method req) (rq_url req) = Some f \<and> rm_scope f = Org_tier \<and>
        asks_for req (map_of (rm_params f) ORG_ID_PARAM) o')"

definition active_member :: "OrgDb \<Rightarrow> jstring \<Rightarrow> jstring \<Rightarrow> bool" where
  "active_member db o' u \<longleftrightarrow>
     (case find (\<lambda>m. mem_org m = o' \<and> mem_userId m = u) (db_memberships db) of
        None \<Rightarrow> False | Some m \<Rightarrow> mem_status m = MActive)"

lemma verify_nonempty: "verify jwt t = Some u \<Longrightarrow> u \<noteq> []"
  by (auto simp: verify_def split: if_splits option.splits jsv.splits)

lemma bearer_nonempty: "verifyBearer jwt req = Some u \<Longrightarrow> u \<noteq> []"
  by (auto simp: verifyBearer_def Let_def verify_nonempty split: if_splits jsv.splits)

lemma pick_organization:
  assumes "(h = Some x \<or> p = Some x) \<and> (h = None \<or> h = Some x) \<and> (h = None \<longrightarrow> p = Some x) \<and> (p = None \<or> p = Some x)"
  shows "(h \<noteq> None \<and> p \<noteq> None \<and> h \<noteq> p) = False" and "(case h of Some y \<Rightarrow> Some y | None \<Rightarrow> p) = Some x"
  using assms by (cases h; auto)+

lemma resolve_asked:
  assumes "asks_for req p o'" and "oa_userId auth = Some u" and "oa_tokenValid auth" and "u \<noteq> []"
  shows "resolveOrgScoped look req auth p =
     rbind (look o' u) (\<lambda>membership. Inr (settle auth o' u membership))"
  unfolding resolveOrgScoped_def Let_def pick_organization [OF assms(1) [unfolded asks_for_def Let_def]]
  using assms(2-4) by simp

lemma settle_stranger:
  assumes "\<not> active_member db o' u"
  shows "\<exists>out reason. rbind (find_membership db o' u) (\<lambda>membership. Inr (settle auth o' u membership)) =
      Inr (auth\<lparr>oa_orgOutcome := out\<rparr>, None) \<and>
    (out, reason) \<in> {(Out_no_membership, ''no_membership''), (Out_revoked, ''revoked''), (Out_not_active, ''not_active'')}"
proof (cases "find (\<lambda>m. mem_org m = o' \<and> mem_userId m = u) (db_memberships db)")
  case None
  then show ?thesis by (auto simp: find_membership_def settle_def)
next
  case (Some m)
  with assms show ?thesis
    by (cases "mem_status m") (auto simp: find_membership_def settle_def active_member_def)
qed

lemma stranger_refused:
  assumes "asks_as jwt routes req u o'" and "\<not> active_member db o' u" and "tier_of c h = Org_tier"
  shows "\<exists>reason auth. oa_userId auth = Some u \<and> reason \<in> {''no_membership'', ''revoked'', ''not_active''} \<and>
    authorize jwt (find_membership db) routes True c h req =
      ([(Ev_org_access_denied, denial_payload auth (map_of (rq_params req) ORG_ID_PARAM) reason)],
       Inl (derr E_ORG_ACCESS_DENIED))"
proof -
  from assms(1) obtain f :: RouteScopeMatch where f: "verifyBearer jwt req = Some u"
      "match_route routes (rq_method req) (rq_url req) = Some f" "rm_scope f = Org_tier"
      "asks_for req (map_of (rm_params f) ORG_ID_PARAM) o'"
    by (auto simp: asks_as_def)
  let ?auth = "\<lparr>oa_userId = Some u, oa_tokenValid = True, oa_orgOutcome = Out_skipped, oa_routeTier = Some Org_tier\<rparr>"
  have "use_middleware jwt (find_membership db) routes req =
      resolveOrgScoped (find_membership db) req ?auth (map_of (rm_params f) ORG_ID_PARAM)"
    using f by (simp add: use_middleware_def)
  also have "\<dots> = rbind (find_membership db o' u) (\<lambda>membership. Inr (settle ?auth o' u membership))"
    by (rule resolve_asked [OF f(4)]) (use bearer_nonempty [OF f(1)] in simp_all)
  finally have e: "use_middleware jwt (find_membership db) routes req =
      rbind (find_membership db o' u) (\<lambda>membership. Inr (settle ?auth o' u membership))" .
  from settle_stranger [OF assms(2), of ?auth] obtain out reason where
    m: "rbind (find_membership db o' u) (\<lambda>membership. Inr (settle ?auth o' u membership)) =
      Inr (?auth\<lparr>oa_orgOutcome := out\<rparr>, None)"
    and o: "(out, reason) \<in> {(Out_no_membership, ''no_membership''), (Out_revoked, ''revoked''), (Out_not_active, ''not_active'')}"
    by (elim exE conjE)
  have "orgScopeGuard True c h req (Some (?auth\<lparr>oa_orgOutcome := out\<rparr>)) =
      refuse_with Ev_org_access_denied
        (denial_payload (?auth\<lparr>oa_orgOutcome := out\<rparr>) (map_of (rq_params req) ORG_ID_PARAM) reason) E_ORG_ACCESS_DENIED"
    using o by (auto simp: orgScopeGuard_def assms(3) decideOrgScoped_def recordDenial_def)
  then have "authorize jwt (find_membership db) routes True c h req =
      ([(Ev_org_access_denied, denial_payload (?auth\<lparr>oa_orgOutcome := out\<rparr>) (map_of (rq_params req) ORG_ID_PARAM) reason)],
       Inl (derr E_ORG_ACCESS_DENIED))"
    unfolding authorize_def e m by (simp add: refuse_with_def)
  moreover have "reason \<in> {''no_membership'', ''revoked'', ''not_active''}" using o by auto
  moreover have "oa_userId (?auth\<lparr>oa_orgOutcome := out\<rparr>) = Some u" by simp
  ultimately show ?thesis by blast
qed

text \<open>
  No oracle over organizations. For a signed-in caller who is not an active member of the
  organization asked for, the answer is the same error in every database: whether the organization
  exists, whether the caller was once a member, was removed or is only invited cannot be told from
  it. Each such refusal writes exactly one audit event.
\<close>

theorem refusal_is_uniform:
  assumes "asks_as jwt routes req u o'" and "tier_of c h = Org_tier"
    and "\<not> active_member db1 o' u" and "\<not> active_member db2 o' u"
  shows "snd (authorize jwt (find_membership db1) routes True c h req) =
      snd (authorize jwt (find_membership db2) routes True c h req) \<and>
    snd (authorize jwt (find_membership db1) routes True c h req) = Inl (derr E_ORG_ACCESS_DENIED) \<and>
    map fst (fst (authorize jwt (find_membership db1) routes True c h req)) = [Ev_org_access_denied]"
  using stranger_refused [OF assms(1,3,2)] stranger_refused [OF assms(1,4,2)] by fastforce

end
