(* ===== verification/RouteTable.thy ===== *)
theory RouteTable
  imports AccessGate
begin

text \<open>
  The routes of the API as their decorators declare them (every \<open>*.controller.ts\<close> under
  \<open>apps/api/src\<close>), the tables production keeps about them
  (\<open>apps/api/src/common/authz/route-capabilities.ts\<close>, \<open>apps/api/src/orgs/response-headers.ts\<close>) and
  the enumeration of the declarations (\<open>common/authz/route-declarations.ts\<close>). The theorems compare
  the two: what the guards enforce is what the tables promise, and the registry finds every route.
\<close>

section \<open>Response headers\<close>

definition ORG_PROFILE_RESPONSE_HEADERS :: "(jstring \<times> jstring) list" where
  "ORG_PROFILE_RESPONSE_HEADERS =
     [(js ''Cache-Control'', js ''no-store''), (js ''Pragma'', js ''no-cache'')]"

definition TAX_ID_REVEAL_RESPONSE_HEADERS :: "(jstring \<times> jstring) list" where
  "TAX_ID_REVEAL_RESPONSE_HEADERS =
     ORG_PROFILE_RESPONSE_HEADERS @ [(js ''Referrer-Policy'', js ''no-referrer'')]"

definition INVITATION_RESPONSE_HEADERS :: "(jstring \<times> jstring) list" where
  "INVITATION_RESPONSE_HEADERS = TAX_ID_REVEAL_RESPONSE_HEADERS"

definition applyResponseHeaders ::
    "(jstring \<times> jstring) list \<Rightarrow> (jstring \<times> jstring) list \<Rightarrow> (jstring \<times> jstring) list" where
  "applyResponseHeaders res headers = fold (\<lambda>(name, v). setHeader name v) headers res"

section \<open>The controllers\<close>

definition plain_marks :: Marks where
  "plain_marks = \<lparr>mk_scope = None, mk_capability = JUndef, mk_anyActiveMember = False, mk_rateLimit = None\<rparr>"

subsection \<open>Health and authentication\<close>

definition healthController_getHealth :: Handler where
  "healthController_getHealth =
     \<lparr>hd_name = js ''getHealth'', hd_method = Some RM_GET, hd_path = JStr (js ''/''),
      hd_marks = plain_marks,
      hd_jsonOnly = False, hd_jwt = False, hd_status = 200, hd_headers = []\<rparr>"

definition HealthController :: Controller where
  "HealthController =
     \<lparr>ct_name = js ''HealthController'', ct_path = JStr (js ''health''), ct_marks = plain_marks\<lparr>mk_scope := Some Scope_public\<rparr>,
      ct_handlers = [healthController_getHealth]\<rparr>"

definition authController_signup :: Handler where
  "authController_signup =
     \<lparr>hd_name = js ''signup'', hd_method = Some RM_POST, hd_path = JStr (js ''signup''),
      hd_marks = plain_marks,
      hd_jsonOnly = True, hd_jwt = False, hd_status = 201, hd_headers = []\<rparr>"

definition authController_login :: Handler where
  "authController_login =
     \<lparr>hd_name = js ''login'', hd_method = Some RM_POST, hd_path = JStr (js ''login''),
      hd_marks = plain_marks,
      hd_jsonOnly = True, hd_jwt = False, hd_status = 200, hd_headers = []\<rparr>"

definition authController_refreshTokens :: Handler where
  "authController_refreshTokens =
     \<lparr>hd_name = js ''refreshTokens'', hd_method = Some RM_POST, hd_path = JStr (js ''refresh''),
      hd_marks = plain_marks,
      hd_jsonOnly = True, hd_jwt = False, hd_status = 200, hd_headers = []\<rparr>"

definition authController_logout :: Handler where
  "authController_logout =
     \<lparr>hd_name = js ''logout'', hd_method = Some RM_POST, hd_path = JStr (js ''logout''),
      hd_marks = plain_marks,
      hd_jsonOnly = True, hd_jwt = False, hd_status = 204, hd_headers = []\<rparr>"

definition authController_logoutAll :: Handler where
  "authController_logoutAll =
     \<lparr>hd_name = js ''logoutAll'', hd_method = Some RM_POST, hd_path = JStr (js ''logout-all''),
      hd_marks = plain_marks,
      hd_jsonOnly = True, hd_jwt = True, hd_status = 204, hd_headers = []\<rparr>"

definition authController_sessions :: Handler where
  "authController_sessions =
     \<lparr>hd_name = js ''sessions'', hd_method = Some RM_GET, hd_path = JStr (js ''sessions''),
      hd_marks = plain_marks,
      hd_jsonOnly = False, hd_jwt = True, hd_status = 200, hd_headers = []\<rparr>"

definition authController_changePassword :: Handler where
  "authController_changePassword =
     \<lparr>hd_name = js ''changePassword'', hd_method = Some RM_POST, hd_path = JStr (js ''change-password''),
      hd_marks = plain_marks,
      hd_jsonOnly = True, hd_jwt = True, hd_status = 200, hd_headers = []\<rparr>"

definition AuthController :: Controller where
  "AuthController =
     \<lparr>ct_name = js ''AuthController'', ct_path = JStr (js ''auth''), ct_marks = plain_marks\<lparr>mk_scope := Some Scope_public\<rparr>,
      ct_handlers = [authController_signup, authController_login, authController_refreshTokens, authController_logout, authController_logoutAll, authController_sessions, authController_changePassword]\<rparr>"

definition adminResetController_resetPassword :: Handler where
  "adminResetController_resetPassword =
     \<lparr>hd_name = js ''resetPassword'', hd_method = Some RM_POST, hd_path = JStr (js ''reset-password''),
      hd_marks = (plain_marks\<lparr>mk_scope := Some Scope_user\<rparr>),
      hd_jsonOnly = True, hd_jwt = True, hd_status = 200, hd_headers = ORG_PROFILE_RESPONSE_HEADERS\<rparr>"

definition AdminResetController :: Controller where
  "AdminResetController =
     \<lparr>ct_name = js ''MembersController'', ct_path = JStr (js ''orgs/:orgId/members/:userId''), ct_marks = plain_marks,
      ct_handlers = [adminResetController_resetPassword]\<rparr>"

subsection \<open>Organizations and their profile\<close>

definition organizationsController_create :: Handler where
  "organizationsController_create =
     \<lparr>hd_name = js ''create'', hd_method = Some RM_POST, hd_path = JStr (js ''/''),
      hd_marks = (plain_marks\<lparr>mk_scope := Some Scope_user, mk_rateLimit := Some createOrganization\<rparr>),
      hd_jsonOnly = True, hd_jwt = False, hd_status = 201, hd_headers = ORG_PROFILE_RESPONSE_HEADERS\<rparr>"

definition OrganizationsController :: Controller where
  "OrganizationsController =
     \<lparr>ct_name = js ''OrganizationsController'', ct_path = JStr (js ''organizations''), ct_marks = plain_marks,
      ct_handlers = [organizationsController_create]\<rparr>"

definition myOrganizationsController_list :: Handler where
  "myOrganizationsController_list =
     \<lparr>hd_name = js ''list'', hd_method = Some RM_GET, hd_path = JStr (js ''/''),
      hd_marks = (plain_marks\<lparr>mk_scope := Some Scope_user\<rparr>),
      hd_jsonOnly = False, hd_jwt = False, hd_status = 200, hd_headers = ORG_PROFILE_RESPONSE_HEADERS\<rparr>"

definition MyOrganizationsController :: Controller where
  "MyOrganizationsController =
     \<lparr>ct_name = js ''MyOrganizationsController'', ct_path = JStr (js ''me/organizations''), ct_marks = plain_marks,
      ct_handlers = [myOrganizationsController_list]\<rparr>"

definition orgProfileController_get :: Handler where
  "orgProfileController_get =
     \<lparr>hd_name = js ''get'', hd_method = Some RM_GET, hd_path = JStr (js ''/''),
      hd_marks = (plain_marks\<lparr>mk_anyActiveMember := True\<rparr>),
      hd_jsonOnly = False, hd_jwt = False, hd_status = 200, hd_headers = ORG_PROFILE_RESPONSE_HEADERS\<rparr>"

definition orgProfileController_update :: Handler where
  "orgProfileController_update =
     \<lparr>hd_name = js ''update'', hd_method = Some RM_PATCH, hd_path = JStr (js ''/''),
      hd_marks = (plain_marks\<lparr>mk_capability := JStr CAPABILITY_MANAGE_ORG_SETTINGS\<rparr>),
      hd_jsonOnly = True, hd_jwt = False, hd_status = 200, hd_headers = ORG_PROFILE_RESPONSE_HEADERS\<rparr>"

definition OrgProfileController :: Controller where
  "OrgProfileController =
     \<lparr>ct_name = js ''OrgProfileController'', ct_path = JStr (js ''orgs/:orgId''), ct_marks = plain_marks,
      ct_handlers = [orgProfileController_get, orgProfileController_update]\<rparr>"

definition taxProfileController_put :: Handler where
  "taxProfileController_put =
     \<lparr>hd_name = js ''put'', hd_method = Some RM_PUT, hd_path = JStr (js ''/''),
      hd_marks = (plain_marks\<lparr>mk_capability := JStr CAPABILITY_MANAGE_ORG_SETTINGS\<rparr>),
      hd_jsonOnly = True, hd_jwt = False, hd_status = 200, hd_headers = ORG_PROFILE_RESPONSE_HEADERS\<rparr>"

definition taxProfileController_reveal :: Handler where
  "taxProfileController_reveal =
     \<lparr>hd_name = js ''reveal'', hd_method = Some RM_POST, hd_path = JStr (js ''reveal''),
      hd_marks = (plain_marks\<lparr>mk_capability := JStr CAPABILITY_MANAGE_ORG_SETTINGS, mk_rateLimit := Some revealTaxProfile\<rparr>),
      hd_jsonOnly = True, hd_jwt = False, hd_status = 200, hd_headers = TAX_ID_REVEAL_RESPONSE_HEADERS\<rparr>"

definition TaxProfileController :: Controller where
  "TaxProfileController =
     \<lparr>ct_name = js ''TaxProfileController'', ct_path = JStr (js ''orgs/:orgId/tax-profile''), ct_marks = plain_marks,
      ct_handlers = [taxProfileController_put, taxProfileController_reveal]\<rparr>"

subsection \<open>Members, roles and invitations\<close>

definition membersController_list :: Handler where
  "membersController_list =
     \<lparr>hd_name = js ''list'', hd_method = Some RM_GET, hd_path = JStr (js ''/''),
      hd_marks = (plain_marks\<lparr>mk_capability := JStr CAPABILITY_MANAGE_MEMBERS\<rparr>),
      hd_jsonOnly = False, hd_jwt = False, hd_status = 200, hd_headers = ORG_PROFILE_RESPONSE_HEADERS\<rparr>"

definition membersController_updateRole :: Handler where
  "membersController_updateRole =
     \<lparr>hd_name = js ''updateRole'', hd_method = Some RM_PATCH, hd_path = JStr (js '':userId''),
      hd_marks = (plain_marks\<lparr>mk_capability := JStr CAPABILITY_MANAGE_MEMBERS\<rparr>),
      hd_jsonOnly = True, hd_jwt = False, hd_status = 200, hd_headers = ORG_PROFILE_RESPONSE_HEADERS\<rparr>"

definition membersController_revoke :: Handler where
  "membersController_revoke =
     \<lparr>hd_name = js ''revoke'', hd_method = Some RM_DELETE, hd_path = JStr (js '':userId''),
      hd_marks = (plain_marks\<lparr>mk_capability := JStr CAPABILITY_MANAGE_MEMBERS\<rparr>),
      hd_jsonOnly = False, hd_jwt = False, hd_status = 200, hd_headers = ORG_PROFILE_RESPONSE_HEADERS\<rparr>"

definition MembersController :: Controller where
  "MembersController =
     \<lparr>ct_name = js ''MembersController'', ct_path = JStr (js ''orgs/:orgId/members''), ct_marks = plain_marks,
      ct_handlers = [membersController_list, membersController_updateRole, membersController_revoke]\<rparr>"

definition membershipController_leave :: Handler where
  "membershipController_leave =
     \<lparr>hd_name = js ''leave'', hd_method = Some RM_DELETE, hd_path = JStr (js ''/''),
      hd_marks = (plain_marks\<lparr>mk_anyActiveMember := True\<rparr>),
      hd_jsonOnly = False, hd_jwt = False, hd_status = 200, hd_headers = ORG_PROFILE_RESPONSE_HEADERS\<rparr>"

definition MembershipController :: Controller where
  "MembershipController =
     \<lparr>ct_name = js ''MembershipController'', ct_path = JStr (js ''orgs/:orgId/membership''), ct_marks = plain_marks,
      ct_handlers = [membershipController_leave]\<rparr>"

definition rolesController_list :: Handler where
  "rolesController_list =
     \<lparr>hd_name = js ''list'', hd_method = Some RM_GET, hd_path = JStr (js ''/''),
      hd_marks = (plain_marks\<lparr>mk_anyActiveMember := True\<rparr>),
      hd_jsonOnly = False, hd_jwt = False, hd_status = 200, hd_headers = ORG_PROFILE_RESPONSE_HEADERS\<rparr>"

definition RolesController :: Controller where
  "RolesController =
     \<lparr>ct_name = js ''RolesController'', ct_path = JStr (js ''orgs/:orgId/roles''), ct_marks = plain_marks,
      ct_handlers = [rolesController_list]\<rparr>"

definition invitationsController_list :: Handler where
  "invitationsController_list =
     \<lparr>hd_name = js ''list'', hd_method = Some RM_GET, hd_path = JStr (js ''/''),
      hd_marks = (plain_marks\<lparr>mk_capability := JStr CAPABILITY_MANAGE_MEMBERS\<rparr>),
      hd_jsonOnly = False, hd_jwt = False, hd_status = 200, hd_headers = INVITATION_RESPONSE_HEADERS\<rparr>"

definition invitationsController_create :: Handler where
  "invitationsController_create =
     \<lparr>hd_name = js ''create'', hd_method = Some RM_POST, hd_path = JStr (js ''/''),
      hd_marks = (plain_marks\<lparr>mk_capability := JStr CAPABILITY_MANAGE_MEMBERS, mk_rateLimit := Some createInvitation\<rparr>),
      hd_jsonOnly = True, hd_jwt = False, hd_status = 201, hd_headers = INVITATION_RESPONSE_HEADERS\<rparr>"

definition invitationsController_reissueLink :: Handler where
  "invitationsController_reissueLink =
     \<lparr>hd_name = js ''reissueLink'', hd_method = Some RM_POST, hd_path = JStr (js '':invitationId/link''),
      hd_marks = (plain_marks\<lparr>mk_capability := JStr CAPABILITY_MANAGE_MEMBERS, mk_rateLimit := Some reissueInvitationLink\<rparr>),
      hd_jsonOnly = False, hd_jwt = False, hd_status = 200, hd_headers = INVITATION_RESPONSE_HEADERS\<rparr>"

definition invitationsController_cancel :: Handler where
  "invitationsController_cancel =
     \<lparr>hd_name = js ''cancel'', hd_method = Some RM_DELETE, hd_path = JStr (js '':invitationId''),
      hd_marks = (plain_marks\<lparr>mk_capability := JStr CAPABILITY_MANAGE_MEMBERS\<rparr>),
      hd_jsonOnly = False, hd_jwt = False, hd_status = 200, hd_headers = INVITATION_RESPONSE_HEADERS\<rparr>"

definition InvitationsController :: Controller where
  "InvitationsController =
     \<lparr>ct_name = js ''InvitationsController'', ct_path = JStr (js ''orgs/:orgId/invitations''), ct_marks = plain_marks,
      ct_handlers = [invitationsController_list, invitationsController_create, invitationsController_reissueLink, invitationsController_cancel]\<rparr>"

definition invitationRedemptionController_preview :: Handler where
  "invitationRedemptionController_preview =
     \<lparr>hd_name = js ''preview'', hd_method = Some RM_POST, hd_path = JStr (js ''preview''),
      hd_marks = (plain_marks\<lparr>mk_scope := Some Scope_public, mk_rateLimit := Some publicInvitationEntry\<rparr>),
      hd_jsonOnly = True, hd_jwt = False, hd_status = 200, hd_headers = INVITATION_RESPONSE_HEADERS\<rparr>"

definition invitationRedemptionController_accept :: Handler where
  "invitationRedemptionController_accept =
     \<lparr>hd_name = js ''accept'', hd_method = Some RM_POST, hd_path = JStr (js ''accept''),
      hd_marks = (plain_marks\<lparr>mk_scope := Some Scope_user, mk_rateLimit := Some publicInvitationEntry\<rparr>),
      hd_jsonOnly = True, hd_jwt = False, hd_status = 200, hd_headers = INVITATION_RESPONSE_HEADERS\<rparr>"

definition InvitationRedemptionController :: Controller where
  "InvitationRedemptionController =
     \<lparr>ct_name = js ''InvitationRedemptionController'', ct_path = JStr (js ''invitations''), ct_marks = plain_marks,
      ct_handlers = [invitationRedemptionController_preview, invitationRedemptionController_accept]\<rparr>"

text \<open>The modules of the application register these controllers.\<close>

definition CONTROLLERS :: "Controller list" where
  "CONTROLLERS =
     [HealthController, AuthController, AdminResetController,
      OrganizationsController, MyOrganizationsController, OrgProfileController,
      TaxProfileController, MembersController, MembershipController,
      RolesController, InvitationsController, InvitationRedemptionController]"

definition ROUTES :: "CompiledRoute list" where
  "ROUTES = build CONTROLLERS"

section \<open>The tables\<close>

definition MUTATING_HTTP_METHODS :: "jstring list" where
  "MUTATING_HTTP_METHODS = [js ''POST'', js ''PUT'', js ''PATCH'', js ''DELETE'']"

definition isMutatingMethod :: "jstring \<Rightarrow> bool" where
  "isMutatingMethod method \<longleftrightarrow> List.member MUTATING_HTTP_METHODS (ascii_upper method)"

text \<open>\<open>trimmed.replace(/:([^/]+)/g, "{$1}")\<close>: a colon and the text up to the next slash.\<close>

fun braces :: "bool \<Rightarrow> jstring \<Rightarrow> jstring" where
  "braces inside [] = (if inside then [125] else [])"
| "braces inside (c # s) =
     (if inside then (if c = 47 then 125 # 47 # braces False s else c # braces True s)
      else if c = 58 \<and> s \<noteq> [] \<and> hd s \<noteq> 47 then 123 # braces True s
      else c # braces False s)"

definition toTemplatePath :: "jstring \<Rightarrow> jstring" where
  "toTemplatePath path =
     (let collapsed = collapse_slashes (47 # path);
          trimmed = (if length collapsed > 1 then strip_last_slash collapsed else [47])
      in braces False trimmed)"

definition routeKey :: "jstring \<Rightarrow> jstring \<Rightarrow> jstring" where
  "routeKey method path = ascii_upper method @ 32 # toTemplatePath path"

definition capabilityLookupMethod :: "jstring \<Rightarrow> jstring" where
  "capabilityLookupMethod method =
     (let verb = ascii_upper method in if verb = js ''HEAD'' then js ''GET'' else verb)"

record RouteCapability =
  rc_method :: jstring
  rc_path :: jstring
  rc_capability :: jstring

definition row :: "string \<Rightarrow> string \<Rightarrow> jstring \<Rightarrow> RouteCapability" where
  "row method path capability =
     \<lparr>rc_method = ascii_upper (js method), rc_path = js path, rc_capability = capability\<rparr>"

definition ROUTE_CAPABILITIES :: "RouteCapability list" where
  "ROUTE_CAPABILITIES =
     [row ''PATCH'' ''/orgs/{orgId}'' CAPABILITY_MANAGE_ORG_SETTINGS,
      row ''PUT'' ''/orgs/{orgId}/tax-profile'' CAPABILITY_MANAGE_ORG_SETTINGS,
      row ''POST'' ''/orgs/{orgId}/tax-profile/reveal'' CAPABILITY_MANAGE_ORG_SETTINGS,
      row ''GET'' ''/orgs/{orgId}/members'' CAPABILITY_MANAGE_MEMBERS,
      row ''PATCH'' ''/orgs/{orgId}/members/{userId}'' CAPABILITY_MANAGE_MEMBERS,
      row ''DELETE'' ''/orgs/{orgId}/members/{userId}'' CAPABILITY_MANAGE_MEMBERS,
      row ''GET'' ''/orgs/{orgId}/invitations'' CAPABILITY_MANAGE_MEMBERS,
      row ''POST'' ''/orgs/{orgId}/invitations'' CAPABILITY_MANAGE_MEMBERS,
      row ''POST'' ''/orgs/{orgId}/invitations/{invitationId}/link'' CAPABILITY_MANAGE_MEMBERS,
      row ''DELETE'' ''/orgs/{orgId}/invitations/{invitationId}'' CAPABILITY_MANAGE_MEMBERS]"

text \<open>Routes without a capability: the list of the changing ones and the list of the reading ones.\<close>

definition ANY_ACTIVE_MEMBER_MUTATING :: "(jstring \<times> jstring) list" where
  "ANY_ACTIVE_MEMBER_MUTATING = [(js ''DELETE'', js ''/orgs/{orgId}/membership'')]"

definition ANY_ACTIVE_MEMBER_READ :: "(jstring \<times> jstring) list" where
  "ANY_ACTIVE_MEMBER_READ = [(js ''GET'', js ''/orgs/{orgId}''), (js ''GET'', js ''/orgs/{orgId}/roles'')]"

definition TAX_ID_RESPONSE_ALLOWLIST :: "(jstring \<times> jstring) list" where
  "TAX_ID_RESPONSE_ALLOWLIST = [(js ''POST'', js ''/orgs/{orgId}/tax-profile/reveal'')]"

definition TOKEN_RESPONSE_ALLOWLIST :: "(jstring \<times> jstring) list" where
  "TOKEN_RESPONSE_ALLOWLIST =
     [(js ''POST'', js ''/orgs/{orgId}/invitations''),
      (js ''POST'', js ''/orgs/{orgId}/invitations/{invitationId}/link'')]"

definition lookup_key :: "jstring \<Rightarrow> jstring \<Rightarrow> jstring" where
  "lookup_key method path = capabilityLookupMethod method @ 32 # toTemplatePath path"

definition isTaxIdAllowedOnRoute :: "jstring \<Rightarrow> jstring \<Rightarrow> bool" where
  "isTaxIdAllowedOnRoute method path \<longleftrightarrow>
     list_ex (\<lambda>(m, p). routeKey m p = lookup_key method path) TAX_ID_RESPONSE_ALLOWLIST"

definition isTokenAllowedOnRoute :: "jstring \<Rightarrow> jstring \<Rightarrow> bool" where
  "isTokenAllowedOnRoute method path \<longleftrightarrow>
     list_ex (\<lambda>(m, p). routeKey m p = lookup_key method path) TOKEN_RESPONSE_ALLOWLIST"

definition capabilityForRoute :: "jstring \<Rightarrow> jstring \<Rightarrow> jstring option" where
  "capabilityForRoute method path =
     map_option rc_capability
       (find (\<lambda>r. routeKey (rc_method r) (rc_path r) = lookup_key method path) ROUTE_CAPABILITIES)"

subsection \<open>The header policy\<close>

datatype ResponseSensitivity = Carries_token | Carries_email | Carries_tin | Carries_membership

record ResponseHeaderPolicyRow =
  hp_method :: jstring
  hp_path :: jstring
  hp_headers :: "(jstring \<times> jstring) list"
  hp_carries :: "ResponseSensitivity list"

definition policyRow ::
    "string \<Rightarrow> string \<Rightarrow> (jstring \<times> jstring) list \<Rightarrow> ResponseSensitivity list \<Rightarrow> ResponseHeaderPolicyRow" where
  "policyRow method path headers carries =
     \<lparr>hp_method = ascii_upper (js method), hp_path = js path, hp_headers = headers, hp_carries = carries\<rparr>"

definition RESPONSE_HEADER_POLICY :: "ResponseHeaderPolicyRow list" where
  "RESPONSE_HEADER_POLICY =
     [policyRow ''GET'' ''/orgs/{orgId}'' ORG_PROFILE_RESPONSE_HEADERS [Carries_tin],
      policyRow ''PATCH'' ''/orgs/{orgId}'' ORG_PROFILE_RESPONSE_HEADERS [Carries_tin],
      policyRow ''PUT'' ''/orgs/{orgId}/tax-profile'' ORG_PROFILE_RESPONSE_HEADERS [Carries_tin],
      policyRow ''POST'' ''/orgs/{orgId}/tax-profile/reveal'' TAX_ID_REVEAL_RESPONSE_HEADERS [Carries_tin],
      policyRow ''GET'' ''/orgs/{orgId}/members'' ORG_PROFILE_RESPONSE_HEADERS [Carries_email],
      policyRow ''PATCH'' ''/orgs/{orgId}/members/{userId}'' ORG_PROFILE_RESPONSE_HEADERS [Carries_email],
      policyRow ''DELETE'' ''/orgs/{orgId}/members/{userId}'' ORG_PROFILE_RESPONSE_HEADERS [Carries_membership],
      policyRow ''GET'' ''/orgs/{orgId}/invitations'' INVITATION_RESPONSE_HEADERS [Carries_email],
      policyRow ''POST'' ''/orgs/{orgId}/invitations'' INVITATION_RESPONSE_HEADERS [Carries_token, Carries_email],
      policyRow ''POST'' ''/orgs/{orgId}/invitations/{invitationId}/link'' INVITATION_RESPONSE_HEADERS
        [Carries_token, Carries_email],
      policyRow ''DELETE'' ''/orgs/{orgId}/invitations/{invitationId}'' INVITATION_RESPONSE_HEADERS [Carries_email],
      policyRow ''POST'' ''/invitations/preview'' INVITATION_RESPONSE_HEADERS [Carries_email],
      policyRow ''POST'' ''/invitations/accept'' INVITATION_RESPONSE_HEADERS [Carries_email],
      policyRow ''GET'' ''/me/organizations'' ORG_PROFILE_RESPONSE_HEADERS [Carries_membership],
      policyRow ''POST'' ''/organizations'' ORG_PROFILE_RESPONSE_HEADERS [Carries_membership],
      policyRow ''GET'' ''/orgs/{orgId}/roles'' ORG_PROFILE_RESPONSE_HEADERS [Carries_membership],
      policyRow ''POST'' ''/orgs/{orgId}/members/{userId}/reset-password'' ORG_PROFILE_RESPONSE_HEADERS
        [Carries_membership],
      policyRow ''DELETE'' ''/orgs/{orgId}/membership'' ORG_PROFILE_RESPONSE_HEADERS [Carries_membership]]"

definition responseHeaderPolicyFor :: "jstring \<Rightarrow> jstring \<Rightarrow> ResponseHeaderPolicyRow option" where
  "responseHeaderPolicyFor method path =
     find (\<lambda>r. routeKey (hp_method r) (hp_path r) = routeKey method (toTemplatePath path)) RESPONSE_HEADER_POLICY"

section \<open>What every route declares\<close>

datatype RouteDeclarationKind = RD_capability jstring | RD_any_active_member | RD_conflict | RD_none

definition declarationOf :: "Marks \<Rightarrow> RouteDeclarationKind" where
  "declarationOf m =
     (if mk_capability m \<noteq> JUndef \<and> mk_anyActiveMember m then RD_conflict
      else case mk_capability m of
             JStr c \<Rightarrow> if trim c \<noteq> [] then RD_capability c else RD_conflict
           | JUndef \<Rightarrow> if mk_anyActiveMember m then RD_any_active_member else RD_none
           | _ \<Rightarrow> RD_conflict)"

record RouteDeclaration =
  rd_method :: jstring
  rd_path :: jstring
  rd_scope :: Tier
  rd_declaration :: RouteDeclarationKind
  rd_mutating :: bool
  rd_source :: jstring

definition declare_handler :: "Controller \<Rightarrow> Handler \<Rightarrow> RouteDeclaration list" where
  "declare_handler c h =
     (case hd_method h of
        None \<Rightarrow> []
      | Some m \<Rightarrow>
          (let handlerDeclaration = declarationOf (hd_marks h);
               declaration = (if handlerDeclaration = RD_none then declarationOf (ct_marks c) else handlerDeclaration);
               method = method_name m
           in concat (map (\<lambda>cp.
                map (\<lambda>hp.
                  \<lparr>rd_method = method, rd_path = toTemplatePath (cp @ 47 # hp), rd_scope = tier_of c h,
                   rd_declaration = declaration, rd_mutating = isMutatingMethod method,
                   rd_source = ct_name c @ 46 # hd_name h\<rparr>)
                  (toPaths (hd_path h)))
                (toPaths (ct_path c)))))"

definition enumerateRoutes :: "Controller list \<Rightarrow> RouteDeclaration list" where
  "enumerateRoutes cs = concat (map (\<lambda>c. concat (map (declare_handler c) (ct_handlers c))) cs)"

section \<open>Evaluating paths on literals\<close>

text \<open>
  The path functions commute with \<open>js\<close>, so the literals of the tables are computed on their
  characters: the functions below are the same ones on HOL strings.
\<close>

fun collapse_str :: "string \<Rightarrow> string" where
  "collapse_str [] = []"
| "collapse_str [c] = [c]"
| "collapse_str (c # d # cs) =
     (if c = CHR ''/'' \<and> d = CHR ''/'' then collapse_str (d # cs) else c # collapse_str (d # cs))"

fun braces_str :: "bool \<Rightarrow> string \<Rightarrow> string" where
  "braces_str inside [] = (if inside then ''}'' else [])"
| "braces_str inside (c # s) =
     (if inside then (if c = CHR ''/'' then CHR ''}'' # CHR ''/'' # braces_str False s else c # braces_str True s)
      else if c = CHR '':'' \<and> s \<noteq> [] \<and> hd s \<noteq> CHR ''/'' then CHR ''{'' # braces_str True s
      else c # braces_str False s)"

fun split_str :: "char \<Rightarrow> string \<Rightarrow> string list" where
  "split_str c [] = [[]]"
| "split_str c (d # ds) =
     (if d = c then [] # split_str c ds
      else (case split_str c ds of [] \<Rightarrow> [[d]] | p # ps \<Rightarrow> (d # p) # ps))"

definition strip_str :: "string \<Rightarrow> string" where
  "strip_str s = (if s \<noteq> [] \<and> last s = CHR ''/'' then butlast s else s)"

definition template_str :: "string \<Rightarrow> string" where
  "template_str p =
     (let c = collapse_str (CHR ''/'' # p) in braces_str False (if length c > 1 then strip_str c else ''/''))"

definition normal_str :: "string \<Rightarrow> string" where
  "normal_str p =
     (let c = collapse_str (CHR ''/'' # hd (split_str (CHR ''?'') p)) in if length c > 1 then strip_str c else ''/'')"

fun compile_str :: "string list \<Rightarrow> Segment list option" where
  "compile_str [] = Some []"
| "compile_str (s # ss) =
     (if CHR ''*'' \<in> set s \<or> CHR ''{'' \<in> set s then None
      else map_option
             (\<lambda>ps. (if s \<noteq> [] \<and> hd s = CHR '':'' then Param (js (tl s)) else Lit (js s)) # ps) (compile_str ss))"

lemma js_Cons: "js (c # s) = of_char c # js s"
  by (simp add: js_def)

lemma of_char_is [simp]:
  "of_char c = (47 :: nat) \<longleftrightarrow> c = CHR ''/''" "of_char c = (58 :: nat) \<longleftrightarrow> c = CHR '':''"
  "of_char c = (63 :: nat) \<longleftrightarrow> c = CHR ''?''" "of_char c = (42 :: nat) \<longleftrightarrow> c = CHR ''*''"
  "of_char c = (123 :: nat) \<longleftrightarrow> c = CHR ''{''"
  using of_char_eq_iff [of c "CHR ''/''", where ?'a = nat] of_char_eq_iff [of c "CHR '':''", where ?'a = nat]
    of_char_eq_iff [of c "CHR ''?''", where ?'a = nat] of_char_eq_iff [of c "CHR ''*''", where ?'a = nat]
    of_char_eq_iff [of c "CHR ''{''", where ?'a = nat]
  by simp_all

lemma hd_js: "s \<noteq> [] \<Longrightarrow> hd (js s) = of_char (hd s)"
  by (cases s) (simp_all add: js_Cons)

lemma tl_js: "tl (js s) = js (tl s)"
  by (cases s) (simp_all add: js_Cons)

lemma last_js: "s \<noteq> [] \<Longrightarrow> last (js s) = of_char (last s)"
  by (simp add: js_def last_map)

lemma butlast_js: "butlast (js s) = js (butlast s)"
  by (simp add: js_def map_butlast)

lemma slash_js: "47 # js s = js (CHR ''/'' # s)"
  by (simp add: js_Cons)

lemma root_js: "[47] = js ''/''"
  by (simp add: js_Cons)

lemma space_js: "js m @ 32 # js t = js (m @ CHR '' '' # t)"
  by (simp add: js_append js_Cons)

lemma dot_js: "js m @ 46 # js t = js (m @ CHR ''.'' # t)"
  by (simp add: js_append js_Cons)

lemma collapse_js: "collapse_slashes (js s) = js (collapse_str s)"
  by (induction s rule: collapse_str.induct) (simp_all add: js_Cons)

lemma braces_js: "braces b (js s) = js (braces_str b s)"
proof (induction b s rule: braces_str.induct)
  case (2 b c s)
  then show ?case by (cases "s = []") (simp_all add: js_Cons hd_js)
qed (simp add: js_def)

lemma strip_js: "strip_last_slash (js s) = js (strip_str s)"
  by (cases "s = []") (simp_all add: strip_last_slash_def strip_str_def last_js butlast_js)

lemma split_js: "split_on (of_char c) (js s) = map js (split_str c s)"
proof (induction s)
  case (Cons d s)
  then show ?case by (cases "split_str c s") (simp_all add: js_Cons)
qed simp

lemma template_js: "toTemplatePath (js p) = js (template_str p)"
  unfolding toTemplatePath_def template_str_def Let_def slash_js collapse_js root_js strip_js length_js
  by (simp only: braces_js if_distrib [where f = js, symmetric])

lemma split_str_nonempty [simp]: "split_str c s \<noteq> []"
  by (induction s) (auto split: list.splits)

lemma normal_js: "normalizePath (js p) = js (normal_str p)"
proof -
  have q: "hd (split_on 63 (js p)) = js (hd (split_str (CHR ''?'') p))"
    using split_js [of "CHR ''?''" p] by (simp add: hd_map)
  show ?thesis
    unfolding normalizePath_def normal_str_def Let_def q slash_js collapse_js root_js strip_js length_js
    by (simp only: if_distrib [where f = js, symmetric])
qed

lemma compile_js: "compile_segments (map js ss) = compile_str ss"
proof (induction ss)
  case (Cons s ss)
  have "42 \<in> set (js s) \<longleftrightarrow> CHR ''*'' \<in> set s" "123 \<in> set (js s) \<longleftrightarrow> CHR ''{'' \<in> set s"
    by (auto simp: js_def image_iff eq_commute [of 42] eq_commute [of 123])
  then show ?case using Cons by (cases "s = []") (simp_all add: hd_js tl_js)
qed simp

lemma compilePath_js: "compilePath (js p) = compile_str (filter (\<lambda>s. s \<noteq> []) (split_str (CHR ''/'') (normal_str p)))"
proof -
  have "split_on 47 (js (normal_str p)) = map js (split_str (CHR ''/'') (normal_str p))"
    using split_js [of "CHR ''/''"] by simp
  moreover have "filter (\<lambda>s. s \<noteq> []) (map js ss) = map js (filter (\<lambda>s. s \<noteq> []) ss)" for ss
    by (induction ss) simp_all
  ultimately show ?thesis by (simp add: compilePath_def normal_js compile_js)
qed

lemma joinPaths_js: "joinPaths (js a) (js b) = js (collapse_str (CHR ''/'' # a @ CHR ''/'' # b))"
proof -
  have "47 # join_with 47 [js a, js b] = js (CHR ''/'' # a @ CHR ''/'' # b)" by (simp add: js_Cons js_append)
  then show ?thesis by (simp add: joinPaths_def collapse_js)
qed

lemma verb_upper:
  "ascii_upper (js ''GET'') = js ''GET''" "ascii_upper (js ''POST'') = js ''POST''"
  "ascii_upper (js ''PUT'') = js ''PUT''" "ascii_upper (js ''PATCH'') = js ''PATCH''"
  "ascii_upper (js ''DELETE'') = js ''DELETE''"
  by (simp_all add: ascii_upper_def js_def)

lemma key_js: "ascii_upper (js m) = js m \<Longrightarrow> routeKey (js m) (js p) = js (m @ CHR '' '' # template_str p)"
  by (simp add: routeKey_def template_js space_js)

lemma lookup_key_js:
  "ascii_upper (js m) = js m \<Longrightarrow> m \<noteq> ''HEAD'' \<Longrightarrow> lookup_key (js m) (js p) = js (m @ CHR '' '' # template_str p)"
  by (simp add: lookup_key_def capabilityLookupMethod_def Let_def template_js space_js)

lemmas controller_defs = CONTROLLERS_def plain_marks_def
    healthController_getHealth_def authController_signup_def authController_login_def
    authController_refreshTokens_def authController_logout_def authController_logoutAll_def
    authController_sessions_def authController_changePassword_def adminResetController_resetPassword_def
    organizationsController_create_def myOrganizationsController_list_def orgProfileController_get_def
    orgProfileController_update_def taxProfileController_put_def taxProfileController_reveal_def
    membersController_list_def membersController_updateRole_def membersController_revoke_def
    membershipController_leave_def rolesController_list_def invitationsController_list_def
    invitationsController_create_def invitationsController_reissueLink_def
    invitationsController_cancel_def invitationRedemptionController_preview_def
    invitationRedemptionController_accept_def HealthController_def AuthController_def
    AdminResetController_def OrganizationsController_def MyOrganizationsController_def
    OrgProfileController_def TaxProfileController_def MembersController_def MembershipController_def
    RolesController_def InvitationsController_def InvitationRedemptionController_def

lemmas path_eval = joinPaths_js compilePath_js template_js template_str_def normal_str_def strip_str_def Let_def

lemma ROUTES_eq:
  "ROUTES =
     [\<lparr>cr_method = RM_GET, cr_pattern = [Lit (js ''health'')],
        cr_scope = Marked Scope_public, cr_source = js ''HealthController.getHealth''\<rparr>,
      \<lparr>cr_method = RM_POST, cr_pattern = [Lit (js ''auth''), Lit (js ''signup'')],
        cr_scope = Marked Scope_public, cr_source = js ''AuthController.signup''\<rparr>,
      \<lparr>cr_method = RM_POST, cr_pattern = [Lit (js ''auth''), Lit (js ''login'')],
        cr_scope = Marked Scope_public, cr_source = js ''AuthController.login''\<rparr>,
      \<lparr>cr_method = RM_POST, cr_pattern = [Lit (js ''auth''), Lit (js ''refresh'')],
        cr_scope = Marked Scope_public, cr_source = js ''AuthController.refreshTokens''\<rparr>,
      \<lparr>cr_method = RM_POST, cr_pattern = [Lit (js ''auth''), Lit (js ''logout'')],
        cr_scope = Marked Scope_public, cr_source = js ''AuthController.logout''\<rparr>,
      \<lparr>cr_method = RM_POST, cr_pattern = [Lit (js ''auth''), Lit (js ''logout-all'')],
        cr_scope = Marked Scope_public, cr_source = js ''AuthController.logoutAll''\<rparr>,
      \<lparr>cr_method = RM_GET, cr_pattern = [Lit (js ''auth''), Lit (js ''sessions'')],
        cr_scope = Marked Scope_public, cr_source = js ''AuthController.sessions''\<rparr>,
      \<lparr>cr_method = RM_POST, cr_pattern = [Lit (js ''auth''), Lit (js ''change-password'')],
        cr_scope = Marked Scope_public, cr_source = js ''AuthController.changePassword''\<rparr>,
      \<lparr>cr_method = RM_POST, cr_pattern = [Lit (js ''orgs''), Param (js ''orgId''), Lit (js ''members''), Param (js ''userId''), Lit (js ''reset-password'')],
        cr_scope = Marked Scope_user, cr_source = js ''MembersController.resetPassword''\<rparr>,
      \<lparr>cr_method = RM_POST, cr_pattern = [Lit (js ''organizations'')],
        cr_scope = Marked Scope_user, cr_source = js ''OrganizationsController.create''\<rparr>,
      \<lparr>cr_method = RM_GET, cr_pattern = [Lit (js ''me''), Lit (js ''organizations'')],
        cr_scope = Marked Scope_user, cr_source = js ''MyOrganizationsController.list''\<rparr>,
      \<lparr>cr_method = RM_GET, cr_pattern = [Lit (js ''orgs''), Param (js ''orgId'')],
        cr_scope = Org_tier, cr_source = js ''OrgProfileController.get''\<rparr>,
      \<lparr>cr_method = RM_PATCH, cr_pattern = [Lit (js ''orgs''), Param (js ''orgId'')],
        cr_scope = Org_tier, cr_source = js ''OrgProfileController.update''\<rparr>,
      \<lparr>cr_method = RM_PUT, cr_pattern = [Lit (js ''orgs''), Param (js ''orgId''), Lit (js ''tax-profile'')],
        cr_scope = Org_tier, cr_source = js ''TaxProfileController.put''\<rparr>,
      \<lparr>cr_method = RM_POST, cr_pattern = [Lit (js ''orgs''), Param (js ''orgId''), Lit (js ''tax-profile''), Lit (js ''reveal'')],
        cr_scope = Org_tier, cr_source = js ''TaxProfileController.reveal''\<rparr>,
      \<lparr>cr_method = RM_GET, cr_pattern = [Lit (js ''orgs''), Param (js ''orgId''), Lit (js ''members'')],
        cr_scope = Org_tier, cr_source = js ''MembersController.list''\<rparr>,
      \<lparr>cr_method = RM_PATCH, cr_pattern = [Lit (js ''orgs''), Param (js ''orgId''), Lit (js ''members''), Param (js ''userId'')],
        cr_scope = Org_tier, cr_source = js ''MembersController.updateRole''\<rparr>,
      \<lparr>cr_method = RM_DELETE, cr_pattern = [Lit (js ''orgs''), Param (js ''orgId''), Lit (js ''members''), Param (js ''userId'')],
        cr_scope = Org_tier, cr_source = js ''MembersController.revoke''\<rparr>,
      \<lparr>cr_method = RM_DELETE, cr_pattern = [Lit (js ''orgs''), Param (js ''orgId''), Lit (js ''membership'')],
        cr_scope = Org_tier, cr_source = js ''MembershipController.leave''\<rparr>,
      \<lparr>cr_method = RM_GET, cr_pattern = [Lit (js ''orgs''), Param (js ''orgId''), Lit (js ''roles'')],
        cr_scope = Org_tier, cr_source = js ''RolesController.list''\<rparr>,
      \<lparr>cr_method = RM_GET, cr_pattern = [Lit (js ''orgs''), Param (js ''orgId''), Lit (js ''invitations'')],
        cr_scope = Org_tier, cr_source = js ''InvitationsController.list''\<rparr>,
      \<lparr>cr_method = RM_POST, cr_pattern = [Lit (js ''orgs''), Param (js ''orgId''), Lit (js ''invitations'')],
        cr_scope = Org_tier, cr_source = js ''InvitationsController.create''\<rparr>,
      \<lparr>cr_method = RM_POST, cr_pattern = [Lit (js ''orgs''), Param (js ''orgId''), Lit (js ''invitations''), Param (js ''invitationId''), Lit (js ''link'')],
        cr_scope = Org_tier, cr_source = js ''InvitationsController.reissueLink''\<rparr>,
      \<lparr>cr_method = RM_DELETE, cr_pattern = [Lit (js ''orgs''), Param (js ''orgId''), Lit (js ''invitations''), Param (js ''invitationId'')],
        cr_scope = Org_tier, cr_source = js ''InvitationsController.cancel''\<rparr>,
      \<lparr>cr_method = RM_POST, cr_pattern = [Lit (js ''invitations''), Lit (js ''preview'')],
        cr_scope = Marked Scope_public, cr_source = js ''InvitationRedemptionController.preview''\<rparr>,
      \<lparr>cr_method = RM_POST, cr_pattern = [Lit (js ''invitations''), Lit (js ''accept'')],
        cr_scope = Marked Scope_user, cr_source = js ''InvitationRedemptionController.accept''\<rparr>]"
  by (simp add: ROUTES_def build_def controller_defs build_handler_def toPaths_def tier_of_def override_def
      path_eval js_append [symmetric] dot_js)

section \<open>The registry finds every route\<close>

text \<open>A path of a route: its template with every parameter replaced by an encoded value.\<close>

fun fill :: "Segment list \<Rightarrow> jstring list \<Rightarrow> jstring list" where
  "fill [] vs = []"
| "fill (Lit l # ss) vs = l # fill ss vs"
| "fill (Param n # ss) vs =
     (case vs of [] \<Rightarrow> [] # fill ss [] | v # vs' \<Rightarrow> the (encodeURIComponent v) # fill ss vs')"

definition path_value :: "jstring \<Rightarrow> bool" where
  "path_value v \<longleftrightarrow> v \<noteq> [] \<and> well_formed v"

fun plain_segment :: "Segment \<Rightarrow> bool" where
  "plain_segment (Lit l) = (l \<noteq> [] \<and> \<not> List.member l 47 \<and> \<not> List.member l 63)"
| "plain_segment (Param _) = True"

definition plain_template :: "Segment list \<Rightarrow> bool" where
  "plain_template segs \<longleftrightarrow> list_all plain_segment segs"

lemma encodable:
  assumes "path_value v"
  shows "\<exists>e. encodeURIComponent v = Some e \<and> plain_part e \<and> decodeParam e = v"
proof -
  have w: "code_units v" "v \<noteq> []" and sc: "list_all (\<lambda>p. scalar_of p \<noteq> None) (code_points v)"
    using assms by (auto simp: path_value_def well_formed_def)
  from sc have "list_all (\<lambda>p. encode_code_point p \<noteq> None) (code_points v)"
    by (auto simp: list_all_iff encode_code_point_def)
  then obtain e where e: "encodeURIComponent v = Some e"
    by (auto simp: encodeURIComponent_def Let_def list_all_iff)
  from encoded_segment [OF e w] decode_encoded [OF e w(1)] e show ?thesis
    by (auto simp: plain_part_def decodeParam_def)
qed

lemma fill_matches:
  assumes "plain_template segs" and "length vs = length (param_names segs)" and "\<forall>v \<in> set vs. path_value v"
  shows "list_all2 seg_matches segs (fill segs vs) \<and> (\<forall>p \<in> set (fill segs vs). plain_part p) \<and>
    map decodeParam (captured segs (fill segs vs)) = vs"
  using assms
proof (induction segs vs rule: fill.induct)
  case (3 n ss vs)
  from "3.prems"(2) obtain v vs' where v: "vs = v # vs'" by (cases vs) (auto simp: param_names_def)
  obtain e where
    e: "encodeURIComponent v = Some e" "plain_part e" "decodeParam e = v" using encodable [of v] "3.prems"(3) v by auto
  have "list_all2 seg_matches ss (fill ss vs') \<and> (\<forall>p \<in> set (fill ss vs'). plain_part p) \<and>
      map decodeParam (captured ss (fill ss vs')) = vs'"
    by (rule "3.IH"(2) [OF v]) (use "3.prems" v in \<open>simp_all add: param_names_def plain_template_def\<close>)
  with v e show ?case by (simp add: captured_def plain_part_def)
qed (auto simp: param_names_def plain_template_def captured_def plain_part_def)

definition routes_ok :: "CompiledRoute list \<Rightarrow> bool" where
  "routes_ok rs \<longleftrightarrow> apart rs \<and> list_all (\<lambda>r. plain_template (cr_pattern r)) rs"

lemma not_member_js [simp]:
  "47 \<in> set (js s) \<longleftrightarrow> CHR ''/'' \<in> set s" "63 \<in> set (js s) \<longleftrightarrow> CHR ''?'' \<in> set s"
  by (auto simp: js_def image_iff eq_commute [of 47] eq_commute [of 63])

lemma routes_ok: "routes_ok ROUTES"
  unfolding ROUTES_eq routes_ok_def
  by (simp add: seg_compatible_def plain_template_def)

lemma route_found:
  assumes "r \<in> set ROUTES" and "length vs = length (param_names (cr_pattern r))"
    and "\<forall>v \<in> set vs. path_value v" and "query = [] \<or> hd query = 63"
  shows "match_route ROUTES (method_name (cr_method r)) (path_of (fill (cr_pattern r) vs) @ query) =
     Some \<lparr>rm_scope = cr_scope r, rm_params = rev (zip (param_names (cr_pattern r)) vs)\<rparr>"
proof -
  have "plain_template (cr_pattern r)" using routes_ok assms(1) by (auto simp: routes_ok_def list_all_iff)
  note f = fill_matches [OF this assms(2,3)]
  have "matchVerb ROUTES (method_name (cr_method r)) (path_of (fill (cr_pattern r) vs) @ query) =
     Found \<lparr>rm_scope = cr_scope r, rm_params = rev (zip (param_names (cr_pattern r)) vs)\<rparr>"
    using matchVerb_found [OF _ assms(1) _ _ assms(4)] routes_ok f by (simp add: read_params_def routes_ok_def)
  moreover have "ascii_upper (method_name m) = method_name m" for m
    by (cases m) (simp_all add: ascii_upper_def js_def)
  ultimately show ?thesis by (simp add: match_route_def Let_def as_match_def)
qed

text \<open>
  No route is missed. For every route the application registers, every non-empty text in place of
  each path parameter, percent-encoded as \<open>encodeURIComponent\<close> writes it, and every query string, the
  registry identifies the route: it answers the tier the decorators declare and gives every parameter
  back as it was. So no request to an org-scoped handler in the spelling of its declaration is left
  without a context.
\<close>

theorem registry_finds_route:
  assumes "r \<in> set ROUTES" and "length vs = length (param_names (cr_pattern r))"
    and "\<forall>v \<in> set vs. path_value v" and "query = [] \<or> hd query = 63"
  shows "match_route ROUTES (method_name (cr_method r)) (path_of (fill (cr_pattern r) vs) @ query) =
     Some \<lparr>rm_scope = cr_scope r, rm_params = rev (zip (param_names (cr_pattern r)) vs)\<rparr>"
  by (rule route_found [OF assms])

section \<open>The tables and the declarations\<close>

lemma slash_mid: "js a @ 47 # js b = js (a @ CHR ''/'' # b)"
  by (simp add: js_append js_Cons)


definition declared_as_listed :: "RouteDeclaration \<Rightarrow> bool" where
  "declared_as_listed d \<longleftrightarrow>
     (let listed = capabilityForRoute (rd_method d) (rd_path d) in
      case rd_declaration d of
        RD_capability cap \<Rightarrow> rd_scope d = Org_tier \<and> listed = Some cap
      | RD_any_active_member \<Rightarrow>
          rd_scope d = Org_tier \<and> listed = None \<and>
          List.member (if rd_mutating d then ANY_ACTIVE_MEMBER_MUTATING else ANY_ACTIVE_MEMBER_READ)
            (rd_method d, rd_path d)
      | RD_none \<Rightarrow> rd_scope d \<noteq> Org_tier \<and> listed = None
      | RD_conflict \<Rightarrow> False)"

definition served :: "RouteDeclaration list \<Rightarrow> jstring \<Rightarrow> jstring \<Rightarrow> bool" where
  "served ds method path \<longleftrightarrow> list_ex (\<lambda>d. rd_method d = method \<and> rd_path d = path) ds"

definition listed_as_declared :: "RouteDeclaration list \<Rightarrow> bool" where
  "listed_as_declared ds \<longleftrightarrow>
     list_all (\<lambda>r. served ds (rc_method r) (rc_path r)) ROUTE_CAPABILITIES \<and>
     list_all (\<lambda>(m, p). served ds m p) (ANY_ACTIVE_MEMBER_MUTATING @ ANY_ACTIVE_MEMBER_READ)"

definition headers_as_policy :: "Controller list \<Rightarrow> bool" where
  "headers_as_policy cs \<longleftrightarrow>
     list_all (\<lambda>c. list_all (\<lambda>h. list_all (\<lambda>d.
       (case map_option hp_headers (responseHeaderPolicyFor (rd_method d) (rd_path d)) of
          None \<Rightarrow> hd_headers h = [] \<and> List.member [js ''HealthController'', js ''AuthController''] (ct_name c)
        | Some hs \<Rightarrow> hd_headers h = hs))
       (declare_handler c h)) (ct_handlers c)) cs"

definition policy_row_sound :: "RouteDeclaration list \<Rightarrow> ResponseHeaderPolicyRow \<Rightarrow> bool" where
  "policy_row_sound ds r \<longleftrightarrow>
     served ds (hp_method r) (hp_path r) \<and>
     (List.member (hp_carries r) Carries_token = isTokenAllowedOnRoute (hp_method r) (hp_path r)) \<and>
     hp_headers r =
       (if List.member (hp_carries r) Carries_token \<or> isTaxIdAllowedOnRoute (hp_method r) (hp_path r) \<or>
           List.member (hp_headers r) (js ''Referrer-Policy'', js ''no-referrer'')
        then TAX_ID_REVEAL_RESPONSE_HEADERS else ORG_PROFILE_RESPONSE_HEADERS)"

definition policy_sound :: "RouteDeclaration list \<Rightarrow> bool" where
  "policy_sound ds \<longleftrightarrow>
     list_all (policy_row_sound ds) RESPONSE_HEADER_POLICY \<and>
     distinct (map (\<lambda>r. (hp_method r, hp_path r)) RESPONSE_HEADER_POLICY)"

lemma find_map_of:
  "map_option f (find (\<lambda>r. g r = k) rs) = map_of (map (\<lambda>r. (g r, f r)) rs) k"
  by (induction rs) auto

lemma capabilityForRoute_eq:
  "capabilityForRoute m p = map_of
     [(js ''PATCH /orgs/{orgId}'', CAPABILITY_MANAGE_ORG_SETTINGS),
      (js ''PUT /orgs/{orgId}/tax-profile'', CAPABILITY_MANAGE_ORG_SETTINGS),
      (js ''POST /orgs/{orgId}/tax-profile/reveal'', CAPABILITY_MANAGE_ORG_SETTINGS),
      (js ''GET /orgs/{orgId}/members'', CAPABILITY_MANAGE_MEMBERS),
      (js ''PATCH /orgs/{orgId}/members/{userId}'', CAPABILITY_MANAGE_MEMBERS),
      (js ''DELETE /orgs/{orgId}/members/{userId}'', CAPABILITY_MANAGE_MEMBERS),
      (js ''GET /orgs/{orgId}/invitations'', CAPABILITY_MANAGE_MEMBERS),
      (js ''POST /orgs/{orgId}/invitations'', CAPABILITY_MANAGE_MEMBERS),
      (js ''POST /orgs/{orgId}/invitations/{invitationId}/link'', CAPABILITY_MANAGE_MEMBERS),
      (js ''DELETE /orgs/{orgId}/invitations/{invitationId}'', CAPABILITY_MANAGE_MEMBERS)]
     (lookup_key m p)"
  unfolding capabilityForRoute_def find_map_of
  by (simp add: ROUTE_CAPABILITIES_def row_def verb_upper key_js path_eval)

lemma policy_headers_eq:
  "map_option hp_headers (responseHeaderPolicyFor m p) = map_of
     [(js ''GET /orgs/{orgId}'', ORG_PROFILE_RESPONSE_HEADERS),
      (js ''PATCH /orgs/{orgId}'', ORG_PROFILE_RESPONSE_HEADERS),
      (js ''PUT /orgs/{orgId}/tax-profile'', ORG_PROFILE_RESPONSE_HEADERS),
      (js ''POST /orgs/{orgId}/tax-profile/reveal'', TAX_ID_REVEAL_RESPONSE_HEADERS),
      (js ''GET /orgs/{orgId}/members'', ORG_PROFILE_RESPONSE_HEADERS),
      (js ''PATCH /orgs/{orgId}/members/{userId}'', ORG_PROFILE_RESPONSE_HEADERS),
      (js ''DELETE /orgs/{orgId}/members/{userId}'', ORG_PROFILE_RESPONSE_HEADERS),
      (js ''GET /orgs/{orgId}/invitations'', INVITATION_RESPONSE_HEADERS),
      (js ''POST /orgs/{orgId}/invitations'', INVITATION_RESPONSE_HEADERS),
      (js ''POST /orgs/{orgId}/invitations/{invitationId}/link'', INVITATION_RESPONSE_HEADERS),
      (js ''DELETE /orgs/{orgId}/invitations/{invitationId}'', INVITATION_RESPONSE_HEADERS),
      (js ''POST /invitations/preview'', INVITATION_RESPONSE_HEADERS),
      (js ''POST /invitations/accept'', INVITATION_RESPONSE_HEADERS),
      (js ''GET /me/organizations'', ORG_PROFILE_RESPONSE_HEADERS),
      (js ''POST /organizations'', ORG_PROFILE_RESPONSE_HEADERS),
      (js ''GET /orgs/{orgId}/roles'', ORG_PROFILE_RESPONSE_HEADERS),
      (js ''POST /orgs/{orgId}/members/{userId}/reset-password'', ORG_PROFILE_RESPONSE_HEADERS),
      (js ''DELETE /orgs/{orgId}/membership'', ORG_PROFILE_RESPONSE_HEADERS)]
     (routeKey m (toTemplatePath p))"
  unfolding responseHeaderPolicyFor_def find_map_of
  by (simp add: RESPONSE_HEADER_POLICY_def policyRow_def verb_upper key_js path_eval)

lemma declared_capability:
  "trim CAPABILITY_MANAGE_MEMBERS \<noteq> []" "trim CAPABILITY_MANAGE_ORG_SETTINGS \<noteq> []"
  by (simp_all add: trim_def is_space_def CAPABILITY_MANAGE_MEMBERS_def CAPABILITY_MANAGE_ORG_SETTINGS_def js_def)

lemma declarations_eq:
  "enumerateRoutes CONTROLLERS =
     [\<lparr>rd_method = js ''GET'', rd_path = js ''/health'', rd_scope = Marked Scope_public,
        rd_declaration = RD_none, rd_mutating = False, rd_source = js ''HealthController.getHealth''\<rparr>,
      \<lparr>rd_method = js ''POST'', rd_path = js ''/auth/signup'', rd_scope = Marked Scope_public,
        rd_declaration = RD_none, rd_mutating = True, rd_source = js ''AuthController.signup''\<rparr>,
      \<lparr>rd_method = js ''POST'', rd_path = js ''/auth/login'', rd_scope = Marked Scope_public,
        rd_declaration = RD_none, rd_mutating = True, rd_source = js ''AuthController.login''\<rparr>,
      \<lparr>rd_method = js ''POST'', rd_path = js ''/auth/refresh'', rd_scope = Marked Scope_public,
        rd_declaration = RD_none, rd_mutating = True, rd_source = js ''AuthController.refreshTokens''\<rparr>,
      \<lparr>rd_method = js ''POST'', rd_path = js ''/auth/logout'', rd_scope = Marked Scope_public,
        rd_declaration = RD_none, rd_mutating = True, rd_source = js ''AuthController.logout''\<rparr>,
      \<lparr>rd_method = js ''POST'', rd_path = js ''/auth/logout-all'', rd_scope = Marked Scope_public,
        rd_declaration = RD_none, rd_mutating = True, rd_source = js ''AuthController.logoutAll''\<rparr>,
      \<lparr>rd_method = js ''GET'', rd_path = js ''/auth/sessions'', rd_scope = Marked Scope_public,
        rd_declaration = RD_none, rd_mutating = False, rd_source = js ''AuthController.sessions''\<rparr>,
      \<lparr>rd_method = js ''POST'', rd_path = js ''/auth/change-password'', rd_scope = Marked Scope_public,
        rd_declaration = RD_none, rd_mutating = True, rd_source = js ''AuthController.changePassword''\<rparr>,
      \<lparr>rd_method = js ''POST'', rd_path = js ''/orgs/{orgId}/members/{userId}/reset-password'', rd_scope = Marked Scope_user,
        rd_declaration = RD_none, rd_mutating = True, rd_source = js ''MembersController.resetPassword''\<rparr>,
      \<lparr>rd_method = js ''POST'', rd_path = js ''/organizations'', rd_scope = Marked Scope_user,
        rd_declaration = RD_none, rd_mutating = True, rd_source = js ''OrganizationsController.create''\<rparr>,
      \<lparr>rd_method = js ''GET'', rd_path = js ''/me/organizations'', rd_scope = Marked Scope_user,
        rd_declaration = RD_none, rd_mutating = False, rd_source = js ''MyOrganizationsController.list''\<rparr>,
      \<lparr>rd_method = js ''GET'', rd_path = js ''/orgs/{orgId}'', rd_scope = Org_tier,
        rd_declaration = RD_any_active_member, rd_mutating = False, rd_source = js ''OrgProfileController.get''\<rparr>,
      \<lparr>rd_method = js ''PATCH'', rd_path = js ''/orgs/{orgId}'', rd_scope = Org_tier,
        rd_declaration = RD_capability CAPABILITY_MANAGE_ORG_SETTINGS, rd_mutating = True, rd_source = js ''OrgProfileController.update''\<rparr>,
      \<lparr>rd_method = js ''PUT'', rd_path = js ''/orgs/{orgId}/tax-profile'', rd_scope = Org_tier,
        rd_declaration = RD_capability CAPABILITY_MANAGE_ORG_SETTINGS, rd_mutating = True, rd_source = js ''TaxProfileController.put''\<rparr>,
      \<lparr>rd_method = js ''POST'', rd_path = js ''/orgs/{orgId}/tax-profile/reveal'', rd_scope = Org_tier,
        rd_declaration = RD_capability CAPABILITY_MANAGE_ORG_SETTINGS, rd_mutating = True, rd_source = js ''TaxProfileController.reveal''\<rparr>,
      \<lparr>rd_method = js ''GET'', rd_path = js ''/orgs/{orgId}/members'', rd_scope = Org_tier,
        rd_declaration = RD_capability CAPABILITY_MANAGE_MEMBERS, rd_mutating = False, rd_source = js ''MembersController.list''\<rparr>,
      \<lparr>rd_method = js ''PATCH'', rd_path = js ''/orgs/{orgId}/members/{userId}'', rd_scope = Org_tier,
        rd_declaration = RD_capability CAPABILITY_MANAGE_MEMBERS, rd_mutating = True, rd_source = js ''MembersController.updateRole''\<rparr>,
      \<lparr>rd_method = js ''DELETE'', rd_path = js ''/orgs/{orgId}/members/{userId}'', rd_scope = Org_tier,
        rd_declaration = RD_capability CAPABILITY_MANAGE_MEMBERS, rd_mutating = True, rd_source = js ''MembersController.revoke''\<rparr>,
      \<lparr>rd_method = js ''DELETE'', rd_path = js ''/orgs/{orgId}/membership'', rd_scope = Org_tier,
        rd_declaration = RD_any_active_member, rd_mutating = True, rd_source = js ''MembershipController.leave''\<rparr>,
      \<lparr>rd_method = js ''GET'', rd_path = js ''/orgs/{orgId}/roles'', rd_scope = Org_tier,
        rd_declaration = RD_any_active_member, rd_mutating = False, rd_source = js ''RolesController.list''\<rparr>,
      \<lparr>rd_method = js ''GET'', rd_path = js ''/orgs/{orgId}/invitations'', rd_scope = Org_tier,
        rd_declaration = RD_capability CAPABILITY_MANAGE_MEMBERS, rd_mutating = False, rd_source = js ''InvitationsController.list''\<rparr>,
      \<lparr>rd_method = js ''POST'', rd_path = js ''/orgs/{orgId}/invitations'', rd_scope = Org_tier,
        rd_declaration = RD_capability CAPABILITY_MANAGE_MEMBERS, rd_mutating = True, rd_source = js ''InvitationsController.create''\<rparr>,
      \<lparr>rd_method = js ''POST'', rd_path = js ''/orgs/{orgId}/invitations/{invitationId}/link'', rd_scope = Org_tier,
        rd_declaration = RD_capability CAPABILITY_MANAGE_MEMBERS, rd_mutating = True, rd_source = js ''InvitationsController.reissueLink''\<rparr>,
      \<lparr>rd_method = js ''DELETE'', rd_path = js ''/orgs/{orgId}/invitations/{invitationId}'', rd_scope = Org_tier,
        rd_declaration = RD_capability CAPABILITY_MANAGE_MEMBERS, rd_mutating = True, rd_source = js ''InvitationsController.cancel''\<rparr>,
      \<lparr>rd_method = js ''POST'', rd_path = js ''/invitations/preview'', rd_scope = Marked Scope_public,
        rd_declaration = RD_none, rd_mutating = True, rd_source = js ''InvitationRedemptionController.preview''\<rparr>,
      \<lparr>rd_method = js ''POST'', rd_path = js ''/invitations/accept'', rd_scope = Marked Scope_user,
        rd_declaration = RD_none, rd_mutating = True, rd_source = js ''InvitationRedemptionController.accept''\<rparr>]"
  by (simp add: enumerateRoutes_def controller_defs declare_handler_def declarationOf_def declared_capability
      toPaths_def tier_of_def override_def path_eval dot_js slash_mid isMutatingMethod_def MUTATING_HTTP_METHODS_def
      verb_upper)

lemmas table_eval = capabilityForRoute_eq lookup_key_js template_str_def strip_str_def Let_def verb_upper key_js

lemma declared: "list_all declared_as_listed (enumerateRoutes CONTROLLERS)"
  unfolding declarations_eq
  by (simp add: declared_as_listed_def table_eval ANY_ACTIVE_MEMBER_MUTATING_def ANY_ACTIVE_MEMBER_READ_def)

lemma listed: "listed_as_declared (enumerateRoutes CONTROLLERS)"
  unfolding declarations_eq
  by (simp add: listed_as_declared_def served_def ROUTE_CAPABILITIES_def row_def verb_upper
      ANY_ACTIVE_MEMBER_MUTATING_def ANY_ACTIVE_MEMBER_READ_def)

lemma token_eq:
  "isTokenAllowedOnRoute m p \<longleftrightarrow>
     lookup_key m p = js ''POST /orgs/{orgId}/invitations'' \<or>
     lookup_key m p = js ''POST /orgs/{orgId}/invitations/{invitationId}/link''"
  by (auto simp: isTokenAllowedOnRoute_def TOKEN_RESPONSE_ALLOWLIST_def key_js verb_upper path_eval)

lemma tax_eq:
  "isTaxIdAllowedOnRoute m p \<longleftrightarrow> lookup_key m p = js ''POST /orgs/{orgId}/tax-profile/reveal''"
  by (auto simp: isTaxIdAllowedOnRoute_def TAX_ID_RESPONSE_ALLOWLIST_def key_js verb_upper path_eval)

lemmas header_defs = ORG_PROFILE_RESPONSE_HEADERS_def TAX_ID_REVEAL_RESPONSE_HEADERS_def INVITATION_RESPONSE_HEADERS_def

lemma policy: "policy_sound (enumerateRoutes CONTROLLERS)"
  unfolding declarations_eq policy_sound_def RESPONSE_HEADER_POLICY_def
  by (simp add: policy_row_sound_def policyRow_def served_def verb_upper token_eq tax_eq table_eval header_defs)

lemma headers: "headers_as_policy CONTROLLERS"
  by (simp add: headers_as_policy_def controller_defs declare_handler_def toPaths_def path_eval slash_mid
      policy_headers_eq key_js verb_upper INVITATION_RESPONSE_HEADERS_def)


section \<open>What the tables are worth\<close>

text \<open>
  The tables of capabilities say what the decorators say. Every route that is not marked with a
  tier declares a capability, and the table gives exactly that one, or is declared open to any active
  member and stands on the list of such routes for its kind; every route with a tier mark is on no
  table; no route is declared in two ways; and no row of a table names a route that does not exist.
\<close>

theorem tables_match_declarations:
  "list_all declared_as_listed (enumerateRoutes CONTROLLERS) \<and> listed_as_declared (enumerateRoutes CONTROLLERS)"
  using declared listed by (rule conjI)

lemma declaration_on:
  "declarationOf m = RD_capability cap \<Longrightarrow> declarationOn m = Decl_capability cap"
  "declarationOf m = RD_any_active_member \<Longrightarrow> declarationOn m = Decl_any_active_member"
  "declarationOf m = RD_none \<longleftrightarrow> declarationOn m = Decl_none"
  by (auto simp: declarationOf_def declarationOn_def split: if_splits jsv.splits)

lemma guard_reads_declaration:
  assumes "d \<in> set (declare_handler c h)"
  shows "rd_declaration d = RD_capability cap \<Longrightarrow> readDeclaration c h = Decl_capability cap"
    and "rd_declaration d = RD_any_active_member \<Longrightarrow> readDeclaration c h = Decl_any_active_member"
    and "rd_scope d = tier_of c h"
  using assms
  by (auto simp: declare_handler_def readDeclaration_def Let_def declaration_on
      split: option.splits if_splits)


text \<open>What an answer that follows a row of the policy has to carry, and which routes must not leak a referrer.\<close>

definition secret_route :: "RouteDeclaration \<Rightarrow> bool" where
  "secret_route d \<longleftrightarrow>
     isTokenAllowedOnRoute (rd_method d) (rd_path d) \<or> isTaxIdAllowedOnRoute (rd_method d) (rd_path d)"

definition answer_guarded :: "(jstring \<times> jstring) list \<Rightarrow> Handler \<Rightarrow> RouteDeclaration \<Rightarrow> bool" where
  "answer_guarded res h d \<longleftrightarrow>
     (let sent = applyResponseHeaders res (hd_headers h)
      in header_values (js ''Cache-Control'') sent = [js ''no-store''] \<and>
         header_values (js ''Pragma'') sent = [js ''no-cache''] \<and>
         (secret_route d \<longrightarrow> header_values (js ''Referrer-Policy'') sent = [js ''no-referrer'']))"

definition answers_guarded :: "(jstring \<times> jstring) list \<Rightarrow> Controller list \<Rightarrow> bool" where
  "answers_guarded res cs \<longleftrightarrow>
     list_all (\<lambda>c. list_all (\<lambda>h. list_all (\<lambda>d.
       if responseHeaderPolicyFor (rd_method d) (rd_path d) = None then rd_scope d = Marked Scope_public
       else answer_guarded res h d)
       (declare_handler c h)) (ct_handlers c)) cs"

lemma header_values_other:
  assumes "\<not> same_header n name"
  shows "header_values name (setHeader n v hs) = header_values name hs"
proof -
  have "filter (\<lambda>h. same_header (fst h) name) (filter (\<lambda>h. \<not> same_header (fst h) n) hs) =
      filter (\<lambda>h. same_header (fst h) name) hs"
    using assms by (induction hs) (auto simp: same_header_def)
  then show ?thesis using assms by (simp add: header_values_def setHeader_def del: filter_filter)
qed

lemma header_names:
  "\<not> same_header (js ''Pragma'') (js ''Cache-Control'')" "\<not> same_header (js ''Referrer-Policy'') (js ''Cache-Control'')"
  "\<not> same_header (js ''Referrer-Policy'') (js ''Pragma'')"
  by (simp_all add: same_header_def ascii_lower_def js_def)

lemma guarded_answers:
  "hd_headers h = TAX_ID_REVEAL_RESPONSE_HEADERS \<Longrightarrow> answer_guarded res h d"
  "hd_headers h = ORG_PROFILE_RESPONSE_HEADERS \<Longrightarrow> \<not> secret_route d \<Longrightarrow> answer_guarded res h d"
  by (simp_all add: answer_guarded_def applyResponseHeaders_def TAX_ID_REVEAL_RESPONSE_HEADERS_def
      ORG_PROFILE_RESPONSE_HEADERS_def setHeader_values header_values_other header_names)

lemma no_policy:
  "responseHeaderPolicyFor m p = None \<longleftrightarrow> map_option hp_headers (responseHeaderPolicyFor m p) = None"
  by simp

text \<open>
  No cache keeps an answer about an organization, and no page that shows a secret names itself to
  another site. Whatever headers were set before, every route that is not public answers with the
  headers its row of the policy demands: storing forbidden for old and new caches, and, where the
  answer may carry an invitation link or a tax number, no referrer. The policy has one row for each
  such route, marks exactly the routes allowed to answer a token, and every row names a route.
\<close>

theorem sensitive_answers_never_cached:
  "answers_guarded res CONTROLLERS \<and> headers_as_policy CONTROLLERS \<and> policy_sound (enumerateRoutes CONTROLLERS)"
proof (intro conjI policy headers)
  show "answers_guarded res CONTROLLERS"
    unfolding answers_guarded_def no_policy policy_headers_eq
    by (simp add: controller_defs declare_handler_def toPaths_def path_eval slash_mid
      policy_headers_eq key_js verb_upper guarded_answers secret_route_def token_eq tax_eq table_eval
      INVITATION_RESPONSE_HEADERS_def tier_of_def override_def)
qed

end
