(* ===== verification/GateDemo.thy ===== *)
theory GateDemo
  imports RouteTable Tenancy
begin

text \<open>
  Concrete requests through the registry and the guards: the instances on which the theorems about
  the gate are applied.
\<close>

definition demo_jwt :: "jstring \<Rightarrow> jsv option" where
  "demo_jwt t =
     (if t = js ''tok'' then Some (JObj [(js ''typ'', JStr ACCESS_TOKEN_TYP), (js ''sub'', JStr (js ''ann''))])
      else None)"

definition demo_request :: Request where
  "demo_request =
     \<lparr>rq_method = js ''GET'', rq_url = js ''/orgs/o1/members'', rq_authorization = JStr (js ''Bearer tok''),
      rq_organization = JUndef, rq_contentType = None, rq_params = [(js ''orgId'', js ''o1'')], rq_ip = None\<rparr>"

lemma demo_bearer: "verifyBearer demo_jwt demo_request = Some (js ''ann'')"
  by (simp add: verifyBearer_def demo_request_def ascii_lower_def BEARER_PREFIX_def trim_def is_space_def js_def
     demo_jwt_def verify_def get_prop_def ACCESS_TOKEN_TYP_def)

lemma demo_fields: "rq_method demo_request = js ''GET''" "rq_url demo_request = js ''/orgs/o1/members''"
  by (simp_all add: demo_request_def)

definition members_route :: CompiledRoute where
  "members_route =
     \<lparr>cr_method = RM_GET, cr_pattern = [Lit (js ''orgs''), Param (js ''orgId''), Lit (js ''members'')],
        cr_scope = Org_tier, cr_source = js ''MembersController.list''\<rparr>"

lemma members_route: "members_route \<in> set ROUTES"
  by (simp add: ROUTES_eq members_route_def)

lemma o1_value: "path_value (js ''o1'')"
  by (simp add: path_value_def well_formed_def code_units_def is_high_surrogate_def is_low_surrogate_def js_def)

lemma o1_encoded: "encodeURIComponent (js ''o1'') = Some (js ''o1'')"
  by (simp add: encodeURIComponent_def encode_code_point_def is_high_surrogate_def is_low_surrogate_def
      js_def is_unreserved_iff)

lemma demo_match: "match_route ROUTES (js ''GET'') (js ''/orgs/o1/members'') =
    Some \<lparr>rm_scope = Org_tier, rm_params = [(js ''orgId'', js ''o1'')]\<rparr>"
proof -
  have "path_of (fill (cr_pattern members_route) [js ''o1'']) = js ''/orgs/o1/members''"
    using o1_encoded by (simp add: members_route_def path_of_def js_def)
  with route_found [OF members_route, of "[js ''o1'']" "[]"] o1_value show ?thesis
    by (simp add: members_route_def param_names_def)
qed

lemma demo_asks: "asks_for demo_request (Some (js ''o1'')) (js ''o1'')"
  by (simp add: asks_for_def demo_request_def readHeader_def trim_o1)

lemma demo_membership:
  "find_membership demo_db (js ''o1'') (js ''ann'') =
     Inr (Some (demo_member ''m1'' ''ann'' ''r1'' MActive None, Some (demo_role ''r1'' ''Owner'' ''owner'' [CAPABILITY_FULL_ACCESS])))"
  by (simp add: find_membership_def demo_db_def demo_rows find_scoped_def)

definition demo_auth :: OrgAuthState where
  "demo_auth = \<lparr>oa_userId = Some (js ''ann''), oa_tokenValid = True, oa_orgOutcome = Out_ok, oa_routeTier = Some Org_tier\<rparr>"

definition gate_ctx :: OrgRequestContext where
  "gate_ctx = org_context (js ''o1'') (js ''ann'') (demo_member ''m1'' ''ann'' ''r1'' MActive None)
     (Some (demo_role ''r1'' ''Owner'' ''owner'' [CAPABILITY_FULL_ACCESS]))"

lemma demo_admitted:
  "authorize demo_jwt (find_membership demo_db) ROUTES True MembersController membersController_list demo_request =
     ([], Inr (demo_auth, Some gate_ctx))"
proof -
  have "use_middleware demo_jwt (find_membership demo_db) ROUTES demo_request =
      resolveOrgScoped (find_membership demo_db) demo_request (demo_auth\<lparr>oa_orgOutcome := Out_skipped\<rparr>) (Some (js ''o1''))"
    unfolding use_middleware_def demo_fields demo_match demo_bearer by (simp add: ORG_ID_PARAM_def demo_auth_def)
  also have "\<dots> = Inr (demo_auth, Some gate_ctx)"
    by (subst resolve_asked [OF demo_asks, of _ "js ''ann''"])
      (simp_all add: demo_auth_def demo_membership settle_def org_context_def gate_ctx_def demo_member_def)
  finally have u: "use_middleware demo_jwt (find_membership demo_db) ROUTES demo_request = Inr (demo_auth, Some gate_ctx)" .
  have o: "orgScopeGuard True MembersController membersController_list demo_request (Some demo_auth) = ([], Inr ())"
    by (simp add: orgScopeGuard_def demo_auth_def tier_of_def override_def controller_defs decideOrgScoped_def)
  have c: "capabilityGuard True MembersController membersController_list demo_request (Some gate_ctx) = ([], Inr ())"
    by (simp add: capabilityGuard_def tier_of_def override_def controller_defs readDeclaration_def declarationOn_def
        declared_capability gate_ctx_def org_context_def caps_of_role_def demo_role_def hasCapability_def)
  show ?thesis by (simp add: authorize_def u o c)
qed

lemma demo_tier: "tier_of MembersController membersController_list = Org_tier"
  by (simp add: tier_of_def override_def controller_defs)


definition demo_empty :: OrgDb where
  "demo_empty = demo_db\<lparr>db_memberships := [], db_orgs := [], db_roles := []\<rparr>"

lemma demo_asks_as: "asks_as demo_jwt ROUTES demo_request (js ''ann'') (js ''o1'')"
  using demo_asks unfolding asks_as_def demo_fields demo_match demo_bearer by (simp add: ORG_ID_PARAM_def)

text \<open>The same request of a removed member and where the organization does not exist.\<close>

lemma refusal_is_uniform_witness:
  "snd (authorize demo_jwt
      (find_membership (demo_db\<lparr>db_memberships := [demo_member ''m1'' ''ann'' ''r1'' MRevoked (Some 9)]\<rparr>)) ROUTES True
      MembersController membersController_list demo_request) =
   snd (authorize demo_jwt (find_membership demo_empty) ROUTES True
      MembersController membersController_list demo_request)"
proof -
  have "\<not> active_member (demo_db\<lparr>db_memberships := [demo_member ''m1'' ''ann'' ''r1'' MRevoked (Some 9)]\<rparr>) (js ''o1'') (js ''ann'')"
    and "\<not> active_member demo_empty (js ''o1'') (js ''ann'')"
    by (simp_all add: active_member_def demo_empty_def demo_member_def)
  from refusal_is_uniform [OF demo_asks_as demo_tier this] show ?thesis by (rule conjunct1)
qed

lemma registry_finds_route_witness:
  "match_route ROUTES (method_name (cr_method members_route)) (path_of (fill (cr_pattern members_route) [js ''o1'']) @ js ''?limit=5'') =
     Some \<lparr>rm_scope = cr_scope members_route, rm_params = rev (zip (param_names (cr_pattern members_route)) [js ''o1''])\<rparr>"
  by (rule registry_finds_route [OF members_route])
    (use o1_value in \<open>simp_all add: members_route_def param_names_def js_def\<close>)


end
