(* ===== verification/Sessions.thy ===== *)
theory Sessions
  imports SessionPolicy SecurityEvents OrgDb Encoding "HOL-Library.AList"
begin

text \<open>
  Refresh tokens and the sessions they form: \<open>apps/api/src/auth/refresh-token.service.ts\<close> and
  \<open>refresh-token.crypto.ts\<close>, over the rows of the table \<open>RefreshToken\<close>. The keyed hash, the random
  bytes and identifiers and the two clocks (the process gives \<open>nowMs\<close>, the database \<open>createdAt\<close>) are
  arguments. A statement without \<open>ORDER BY\<close> answers rows in table order; no theorem rests on it.
  Rows of \<open>User\<close> are never deleted, so the foreign key to the user is left out.
\<close>

section \<open>The table\<close>

record RefreshToken =
  rt_id :: jstring
  rt_userId :: jstring
  rt_familyId :: jstring
  rt_tokenHash :: jstring
  rt_deviceId :: "jstring option"
  rt_rotatedFrom :: "jstring option"
  rt_expiresAt :: int
  rt_familyExpiresAt :: int
  rt_lastUsedAt :: "int option"
  rt_revokedAt :: "int option"
  rt_createdAt :: int

definition tokens_unique :: "RefreshToken list \<Rightarrow> bool" where
  "tokens_unique rows \<longleftrightarrow>
     unique_by rt_id rows \<and> unique_by rt_tokenHash rows \<and>
     unique_by rt_rotatedFrom (filter (\<lambda>r. rt_rotatedFrom r \<noteq> None) rows)"

definition create_token :: "RefreshToken \<Rightarrow> RefreshToken list \<Rightarrow> Thrown + RefreshToken list" where
  "create_token row rows =
     (let rows' = rows @ [row] in if tokens_unique rows' then Inr rows' else Inl unique_violation)"

text \<open>\<open>updateMany\<close> of the rows \<open>P\<close> that are not revoked yet.\<close>

definition revoke_one :: "(RefreshToken \<Rightarrow> bool) \<Rightarrow> int \<Rightarrow> RefreshToken \<Rightarrow> RefreshToken" where
  "revoke_one P now r = (if P r \<and> rt_revokedAt r = None then r\<lparr>rt_revokedAt := Some now\<rparr> else r)"

definition revoke_where :: "(RefreshToken \<Rightarrow> bool) \<Rightarrow> int \<Rightarrow> RefreshToken list \<Rightarrow> RefreshToken list" where
  "revoke_where P now rows = map (revoke_one P now) rows"

definition rt_live :: "int \<Rightarrow> RefreshToken \<Rightarrow> bool" where
  "rt_live now r \<longleftrightarrow> rt_revokedAt r = None \<and> now < rt_expiresAt r \<and> now < rt_familyExpiresAt r"

section \<open>Values and hashes\<close>

definition generateRefreshTokenValue :: "nat list \<Rightarrow> jstring" where
  "generateRefreshTokenValue bytes = base64url bytes"

text \<open>\<open>hmac secret value\<close> is the hexadecimal HMAC-SHA-256.\<close>

definition hashRefreshToken :: "(jstring \<Rightarrow> jstring \<Rightarrow> jstring) \<Rightarrow> jstring \<Rightarrow> jstring \<Rightarrow> jstring" where
  "hashRefreshToken hmac v secret = hmac secret v"

section \<open>Login\<close>

record IssuedRefresh =
  ir_value :: jstring
  ir_familyId :: jstring
  ir_expiresAt :: int
  ir_familyExpiresAt :: int

text \<open>What a call draws: 32 random bytes, a random family, and the row's id and creation time.\<close>

record Draw =
  dw_bytes :: "nat list"
  dw_familyId :: jstring
  dw_id :: jstring
  dw_createdAt :: int

definition note_family :: "RefreshToken \<Rightarrow> (jstring \<times> int) list \<Rightarrow> (jstring \<times> int) list" where
  "note_family r byFamily =
     (case map_of byFamily (rt_familyId r) of
        None \<Rightarrow> AList.update (rt_familyId r) (rt_createdAt r) byFamily
      | Some cur \<Rightarrow>
          if rt_createdAt r < cur then AList.update (rt_familyId r) (rt_createdAt r) byFamily else byFamily)"

definition liveFamilies :: "jstring \<Rightarrow> int \<Rightarrow> RefreshToken list \<Rightarrow> LiveFamily list" where
  "liveFamilies userId nowMs rows =
     map (\<lambda>(fid, createdAt). \<lparr>lf_familyId = fid, lf_createdAt = createdAt\<rparr>)
       (fold note_family (filter (\<lambda>r. rt_userId r = userId \<and> rt_live nowMs r) rows) [])"

definition evict :: "jstring option \<Rightarrow> int \<Rightarrow> RefreshToken list \<Rightarrow> RefreshToken list" where
  "evict cap nowMs rows =
     (case cap of None \<Rightarrow> rows | Some f \<Rightarrow> revoke_where (\<lambda>r. rt_familyId r = f) nowMs rows)"

definition login_row ::
    "(jstring \<Rightarrow> jstring \<Rightarrow> jstring) \<Rightarrow> jstring \<Rightarrow> int \<Rightarrow> Draw \<Rightarrow> jstring \<Rightarrow> jstring option \<Rightarrow> RefreshToken" where
  "login_row hmac secret nowMs d userId deviceId =
     \<lparr>rt_id = dw_id d, rt_userId = userId, rt_familyId = dw_familyId d,
      rt_tokenHash = hashRefreshToken hmac (generateRefreshTokenValue (dw_bytes d)) secret,
      rt_deviceId = deviceId, rt_rotatedFrom = None, rt_expiresAt = tokenExpiresAt nowMs,
      rt_familyExpiresAt = familyExpiresAt nowMs, rt_lastUsedAt = Some nowMs, rt_revokedAt = None,
      rt_createdAt = dw_createdAt d\<rparr>"

text \<open>The two statements of the transaction that change rows, after \<open>cap\<close> was decided.\<close>

definition login_write ::
    "(jstring \<Rightarrow> jstring \<Rightarrow> jstring) \<Rightarrow> jstring \<Rightarrow> int \<Rightarrow> Draw \<Rightarrow> jstring \<Rightarrow> jstring option \<Rightarrow>
     jstring option \<Rightarrow> RefreshToken list \<Rightarrow> Thrown + RefreshToken list" where
  "login_write hmac secret nowMs d userId deviceId cap rows =
     create_token (login_row hmac secret nowMs d userId deviceId) (evict cap nowMs rows)"

definition login_issued :: "int \<Rightarrow> Draw \<Rightarrow> IssuedRefresh" where
  "login_issued nowMs d =
     \<lparr>ir_value = generateRefreshTokenValue (dw_bytes d), ir_familyId = dw_familyId d,
      ir_expiresAt = tokenExpiresAt nowMs, ir_familyExpiresAt = familyExpiresAt nowMs\<rparr>"

definition issueOnLogin ::
    "(jstring \<Rightarrow> jstring \<Rightarrow> jstring) \<Rightarrow> jstring \<Rightarrow> int \<Rightarrow> Draw \<Rightarrow> jstring \<Rightarrow> jstring option \<Rightarrow>
     RefreshToken list \<Rightarrow> Thrown + (IssuedRefresh \<times> RefreshToken list)" where
  "issueOnLogin hmac secret nowMs d userId deviceId rows =
     (case decideFamilyCap (liveFamilies userId nowMs rows) LIVE_FAMILY_CAP of
        None \<Rightarrow> Inl (TRaw (JObj [(js ''name'', JStr (js ''TypeError''))]))
      | Some cap \<Rightarrow>
          rbind (login_write hmac secret nowMs d userId deviceId cap rows) (\<lambda>rows'.
          Inr (login_issued nowMs d, rows')))"

section \<open>Rotation\<close>

datatype RotateResult = Rotated IssuedRefresh jstring | INVALID_REFRESH

definition successor_of :: "RefreshToken list \<Rightarrow> RefreshToken \<Rightarrow> RefreshToken option" where
  "successor_of rows r = find (\<lambda>s. rt_rotatedFrom s = Some (rt_id r)) rows"

definition successorInfo :: "RefreshToken list \<Rightarrow> RefreshToken \<Rightarrow> Successor option" where
  "successorInfo rows r =
     (case successor_of rows r of
        None \<Rightarrow> None
      | Some s \<Rightarrow>
          (let hasGrandchild = successor_of rows s
           in Some \<lparr>suc_createdAt = rt_createdAt s,
                    suc_isCurrent = (rt_revokedAt s = None \<and> hasGrandchild = None)\<rparr>))"

definition rotate_action :: "int \<Rightarrow> RefreshToken list \<Rightarrow> RefreshToken \<Rightarrow> ReuseAction" where
  "rotate_action nowMs rows r =
     decideReuse
       \<lparr>rdi_now = nowMs, rdi_presentedRevokedAt = rt_revokedAt r, rdi_presentedExpiresAt = rt_expiresAt r,
        rdi_presentedFamilyExpiresAt = rt_familyExpiresAt r, rdi_successor = successorInfo rows r\<rparr>"

definition rotated_row ::
    "(jstring \<Rightarrow> jstring \<Rightarrow> jstring) \<Rightarrow> jstring \<Rightarrow> int \<Rightarrow> Draw \<Rightarrow> RefreshToken \<Rightarrow> jstring option \<Rightarrow> RefreshToken" where
  "rotated_row hmac secret nowMs d r deviceId =
     \<lparr>rt_id = dw_id d, rt_userId = rt_userId r, rt_familyId = rt_familyId r,
      rt_tokenHash = hashRefreshToken hmac (generateRefreshTokenValue (dw_bytes d)) secret,
      rt_deviceId = deviceId, rt_rotatedFrom = Some (rt_id r), rt_expiresAt = tokenExpiresAt nowMs,
      rt_familyExpiresAt = rt_familyExpiresAt r, rt_lastUsedAt = Some nowMs, rt_revokedAt = None,
      rt_createdAt = dw_createdAt d\<rparr>"

definition rotated_issued :: "int \<Rightarrow> Draw \<Rightarrow> RefreshToken \<Rightarrow> IssuedRefresh" where
  "rotated_issued nowMs d r =
     \<lparr>ir_value = generateRefreshTokenValue (dw_bytes d), ir_familyId = rt_familyId r,
      ir_expiresAt = tokenExpiresAt nowMs, ir_familyExpiresAt = rt_familyExpiresAt r\<rparr>"

definition reuse_payload :: "RefreshToken \<Rightarrow> jstring option \<Rightarrow> payload" where
  "reuse_payload r deviceId =
     [(js ''userId'', JStr (rt_userId r)), (js ''familyId'', JStr (rt_familyId r)),
      (js ''deviceId'', case deviceId of None \<Rightarrow> JNull | Some x \<Rightarrow> JStr x)]"

text \<open>The answer, the events emitted after the commit and the rows.\<close>

definition rotate_token ::
    "(jstring \<Rightarrow> jstring \<Rightarrow> jstring) \<Rightarrow> jstring \<Rightarrow> int \<Rightarrow> Draw \<Rightarrow> jstring \<Rightarrow> jstring option \<Rightarrow>
     RefreshToken list \<Rightarrow>
     Thrown + (RotateResult \<times> (SecurityEventType \<times> payload) list \<times> RefreshToken list)" where
  "rotate_token hmac secret nowMs d presentedValue deviceId rows =
     (case find (\<lambda>r. rt_tokenHash r = hashRefreshToken hmac presentedValue secret) rows of
        None \<Rightarrow> Inr (INVALID_REFRESH, [], rows)
      | Some row \<Rightarrow>
          (case rotate_action nowMs rows row of
             ALLOW_ROTATE \<Rightarrow>
               rbind (create_token (rotated_row hmac secret nowMs d row deviceId) rows) (\<lambda>rows'.
               Inr (Rotated (rotated_issued nowMs d row) (rt_userId row), [], rows'))
           | REVOKE_FAMILY \<Rightarrow>
               Inr (INVALID_REFRESH, [(Ev_auth_refresh_reuse_detected, reuse_payload row deviceId)],
                    revoke_where (\<lambda>r. rt_familyId r = rt_familyId row) nowMs rows)
           | _ \<Rightarrow> Inr (INVALID_REFRESH, [], rows)))"

section \<open>Families\<close>

definition resolveFamily ::
    "(jstring \<Rightarrow> jstring \<Rightarrow> jstring) \<Rightarrow> jstring \<Rightarrow> int \<Rightarrow> jstring \<Rightarrow> bool \<Rightarrow> RefreshToken list \<Rightarrow>
     (jstring \<times> jstring) option" where
  "resolveFamily hmac secret nowMs presentedValue liveOnly rows =
     (case find (\<lambda>r. rt_tokenHash r = hashRefreshToken hmac presentedValue secret) rows of
        None \<Rightarrow> None
      | Some row \<Rightarrow>
          if liveOnly \<and> \<not> rt_live nowMs row then None else Some (rt_userId row, rt_familyId row))"

definition revokeFamily :: "int \<Rightarrow> jstring \<Rightarrow> jstring \<Rightarrow> RefreshToken list \<Rightarrow> RefreshToken list" where
  "revokeFamily nowMs userId familyId =
     revoke_where (\<lambda>r. rt_userId r = userId \<and> rt_familyId r = familyId) nowMs"

definition revokeAllForUser :: "int \<Rightarrow> jstring \<Rightarrow> RefreshToken list \<Rightarrow> RefreshToken list" where
  "revokeAllForUser nowMs userId = revoke_where (\<lambda>r. rt_userId r = userId) nowMs"

definition revokeAllExceptFamily :: "int \<Rightarrow> jstring \<Rightarrow> jstring \<Rightarrow> RefreshToken list \<Rightarrow> RefreshToken list" where
  "revokeAllExceptFamily nowMs userId spareFamilyId =
     revoke_where (\<lambda>r. rt_userId r = userId \<and> rt_familyId r \<noteq> spareFamilyId) nowMs"

record Session =
  ss_familyId :: jstring
  ss_deviceId :: "jstring option"
  ss_createdAt :: int
  ss_lastUsedAt :: "int option"

definition later_use :: "int option \<Rightarrow> int option \<Rightarrow> int option" where
  "later_use used existing =
     (case used of
        None \<Rightarrow> existing
      | Some t \<Rightarrow> (case existing of None \<Rightarrow> Some t | Some e \<Rightarrow> if t > e then Some t else existing))"

definition merge_row :: "RefreshToken \<Rightarrow> Session \<Rightarrow> Session" where
  "merge_row r e =
     e\<lparr>ss_createdAt := (if rt_createdAt r < ss_createdAt e then rt_createdAt r else ss_createdAt e),
       ss_lastUsedAt := later_use (rt_lastUsedAt r) (ss_lastUsedAt e)\<rparr>"

fun note_session :: "RefreshToken \<Rightarrow> Session list \<Rightarrow> Session list" where
  "note_session r [] =
     [\<lparr>ss_familyId = rt_familyId r, ss_deviceId = rt_deviceId r, ss_createdAt = rt_createdAt r,
       ss_lastUsedAt = rt_lastUsedAt r\<rparr>]"
| "note_session r (e # es) =
     (if ss_familyId e = rt_familyId r then merge_row r e # es else e # note_session r es)"

definition listLiveSessions :: "int \<Rightarrow> jstring \<Rightarrow> RefreshToken list \<Rightarrow> Session list" where
  "listLiveSessions nowMs userId rows =
     fold note_session
       (sort_key rt_createdAt (filter (\<lambda>r. rt_userId r = userId \<and> rt_live nowMs r) rows)) []"

end
