(* ===== verification/SessionLifecycle.thy ===== *)
theory SessionLifecycle
  imports Sessions
begin

text \<open>
  What the operations on sessions keep, over every sequence of them: the step relation whose steps are
  the calls of \<open>RefreshTokenService\<close>, its invariant, and the theorems on rotation, revocation and the
  cap on live sessions. The last section is about calls that overlap.
\<close>

section \<open>The operations one by one\<close>

lemma create_token_Inr:
  "create_token row rows = Inr rows' \<longleftrightarrow> rows' = rows @ [row] \<and> tokens_unique (rows @ [row])"
  by (auto simp: create_token_def Let_def)

lemma revoke_one_fields [simp]:
  "rt_id (revoke_one P now r) = rt_id r" "rt_userId (revoke_one P now r) = rt_userId r"
  "rt_familyId (revoke_one P now r) = rt_familyId r" "rt_tokenHash (revoke_one P now r) = rt_tokenHash r"
  "rt_rotatedFrom (revoke_one P now r) = rt_rotatedFrom r" "rt_expiresAt (revoke_one P now r) = rt_expiresAt r"
  "rt_familyExpiresAt (revoke_one P now r) = rt_familyExpiresAt r"
  by (simp_all add: revoke_one_def)

lemma revoke_one_revoked [simp]:
  "rt_revokedAt (revoke_one P now r) = None \<longleftrightarrow> rt_revokedAt r = None \<and> \<not> P r"
  by (auto simp: revoke_one_def)

lemma revoke_one_live: "rt_live t (revoke_one P now r) \<longleftrightarrow> rt_live t r \<and> \<not> P r"
  by (auto simp: rt_live_def)

lemma revoke_keeps_unique [simp]: "tokens_unique (revoke_where P now rows) \<longleftrightarrow> tokens_unique rows"
proof -
  have "filter (\<lambda>r. rt_rotatedFrom r \<noteq> None) (map (revoke_one P now) rows) =
      map (revoke_one P now) (filter (\<lambda>r. rt_rotatedFrom r \<noteq> None) rows)"
    by (induction rows) simp_all
  then show ?thesis
    by (simp add: tokens_unique_def revoke_where_def unique_by_def comp_def del: filter_map)
qed

text \<open>The families a user has a live row of, and the list the login reads them into.\<close>

definition live_ids :: "jstring \<Rightarrow> int \<Rightarrow> RefreshToken list \<Rightarrow> jstring set" where
  "live_ids u now rows = rt_familyId ` {r \<in> set rows. rt_userId r = u \<and> rt_live now r}"

lemma finite_live_ids [simp]: "finite (live_ids u now rows)"
  by (simp add: live_ids_def)

lemma note_family_keys:
  assumes "distinct (map fst fs)"
  shows "distinct (map fst (note_family r fs)) \<and> fst ` set (note_family r fs) = insert (rt_familyId r) (fst ` set fs)"
proof -
  have "distinct (map fst (AList.update k v fs))" "fst ` set (AList.update k v fs) = insert k (fst ` set fs)" for k v
    using assms distinct_update [of fs k v] dom_update [of k v fs] by auto
  moreover have "rt_familyId r \<in> fst ` set fs" if "map_of fs (rt_familyId r) = Some cur" for cur
    using that by (force dest: map_of_SomeD)
  ultimately show ?thesis using assms by (auto simp: note_family_def insert_absorb split: option.splits)
qed

lemma note_families_keys:
  "distinct (map fst fs) \<Longrightarrow> distinct (map fst (fold note_family rs fs)) \<and>
     fst ` set (fold note_family rs fs) = rt_familyId ` set rs \<union> fst ` set fs"
proof (induction rs arbitrary: fs)
  case (Cons r rs)
  from Cons.IH [of "note_family r fs"] note_family_keys [OF Cons.prems, of r] show ?case by auto
qed simp

lemma liveFamilies_ids:
  "distinct (map lf_familyId (liveFamilies u now rows)) \<and>
   lf_familyId ` set (liveFamilies u now rows) = live_ids u now rows"
  using note_families_keys [of "[]" "filter (\<lambda>r. rt_userId r = u \<and> rt_live now r) rows"]
  by (auto simp: liveFamilies_def live_ids_def comp_def case_prod_beta image_image)

lemma length_liveFamilies: "length (liveFamilies u now rows) = card (live_ids u now rows)"
  using liveFamilies_ids [of u now rows] distinct_card [of "map lf_familyId (liveFamilies u now rows)"] by simp

lemma mem_live_ids:
  "f \<in> live_ids u now rows \<longleftrightarrow> (\<exists>r \<in> set rows. rt_familyId r = f \<and> rt_userId r = u \<and> rt_live now r)"
  by (auto simp: live_ids_def)

lemma live_ids_append [simp]:
  "live_ids u now (rows @ [r]) =
     (if rt_userId r = u \<and> rt_live now r then insert (rt_familyId r) (live_ids u now rows) else live_ids u now rows)"
  by (auto simp: live_ids_def)

lemma mem_live_ids_revoke:
  "f \<in> live_ids u now (revoke_where P t rows) \<longleftrightarrow>
     (\<exists>r \<in> set rows. rt_familyId r = f \<and> rt_userId r = u \<and> rt_live now r \<and> \<not> P r)"
  unfolding mem_live_ids revoke_where_def set_map by (simp add: revoke_one_live)

lemma live_ids_revoke_mono: "live_ids u now (revoke_where P t rows) \<subseteq> live_ids u now rows"
  unfolding subset_iff mem_live_ids_revoke unfolding mem_live_ids by auto

lemma live_ids_evict: "live_ids u now (revoke_where (\<lambda>r. rt_familyId r = f) t rows) = live_ids u now rows - {f}"
  unfolding set_eq_iff Diff_iff singleton_iff mem_live_ids_revoke unfolding mem_live_ids by auto

lemma live_ids_time: "now \<le> now' \<Longrightarrow> live_ids u now' rows \<subseteq> live_ids u now rows"
  by (auto simp: live_ids_def rt_live_def)

lemma issueOnLogin_Inr:
  assumes "issueOnLogin hmac secret now d u dev rows = Inr (issued, rows')"
  obtains cap where "issued = login_issued now d"
    and "rows' = evict cap now rows @ [login_row hmac secret now d u dev]" and "tokens_unique rows'"
    and "decideFamilyCap (liveFamilies u now rows) LIVE_FAMILY_CAP = Some cap"
  using assms
  by (auto simp: issueOnLogin_def login_write_def rbind_Inr_iff create_token_Inr split: option.splits)

lemma login_cap:
  assumes "decideFamilyCap (liveFamilies u now rows) LIVE_FAMILY_CAP = Some cap"
  shows "cap = None \<and> card (live_ids u now rows) < 20 \<or>
    (\<exists>f. cap = Some f \<and> f \<in> live_ids u now rows \<and> 20 \<le> card (live_ids u now rows))"
proof (cases "length (liveFamilies u now rows) < LIVE_FAMILY_CAP")
  case True
  with assms show ?thesis by (simp add: decideFamilyCap_def length_liveFamilies LIVE_FAMILY_CAP_def)
next
  case False
  from decideFamilyCap_evicts [of LIVE_FAMILY_CAP "liveFamilies u now rows"] False
  obtain f where "f \<in> set (liveFamilies u now rows)"
      "decideFamilyCap (liveFamilies u now rows) LIVE_FAMILY_CAP = Some (Some (lf_familyId f))"
    by (auto simp: LIVE_FAMILY_CAP_def)
  moreover from this(1) have "lf_familyId f \<in> live_ids u now rows" using liveFamilies_ids by blast
  ultimately have "cap = Some (lf_familyId f)" "lf_familyId f \<in> live_ids u now rows" using assms by simp_all
  then show ?thesis using False by (simp add: length_liveFamilies LIVE_FAMILY_CAP_def)
qed

lemma login_keeps_cap:
  assumes "issueOnLogin hmac secret now d u dev rows = Inr (issued, rows')"
    and "\<And>v. card (live_ids v now rows) \<le> 20"
  shows "card (live_ids v now rows') \<le> 20"
proof -
  from issueOnLogin_Inr [OF assms(1)] obtain cap where
    r: "rows' = evict cap now rows @ [login_row hmac secret now d u dev]"
    and c: "decideFamilyCap (liveFamilies u now rows) LIVE_FAMILY_CAP = Some cap" .
  have le: "card (live_ids v now (evict cap now rows)) \<le> card (live_ids v now rows)"
    by (rule card_mono) (auto simp: evict_def live_ids_evict split: option.splits)
  have "card (live_ids u now (evict cap now rows)) < 20"
    using login_cap [OF c] assms(2) [of u] by (auto simp: evict_def live_ids_evict card_Diff_singleton)
  with le show ?thesis
    using assms(2) [of v] by (auto simp: r login_row_def card_insert_if intro: order_trans)
qed

lemma successor_None: "successor_of rows r = None \<longleftrightarrow> (\<forall>s \<in> set rows. rt_rotatedFrom s \<noteq> Some (rt_id r))"
  by (auto simp: successor_of_def find_None_iff)

lemma successorInfo_None [simp]: "successorInfo rows r = None \<longleftrightarrow> successor_of rows r = None"
  by (simp add: successorInfo_def Let_def split: option.splits)

lemma action_rotates:
  "rotate_action now rows r = ALLOW_ROTATE \<longleftrightarrow> rt_live now r \<and> successor_of rows r = None"
proof (cases "successorInfo rows r")
  case None
  moreover from None have "successor_of rows r = None" using successorInfo_None by blast
  ultimately show ?thesis by (auto simp: rotate_action_def decideReuse_def rt_live_def simp del: successorInfo_None)
next
  case (Some s)
  then have "successor_of rows r \<noteq> None" using successorInfo_None [of rows r] by simp
  with Some show ?thesis by (auto simp: rotate_action_def decideReuse_def rt_live_def Let_def)
qed

lemma action_revoked:
  "rt_revokedAt r \<noteq> None \<Longrightarrow> rotate_action now rows r \<in> {REVOKE_FAMILY, REJECT_EXPIRED}"
  by (auto simp: rotate_action_def decideReuse_def)

lemma rotate_cases:
  assumes "rotate_token hmac secret now d v dev rows = Inr (res, evs, rows')"
  obtains
    (unknown) "res = INVALID_REFRESH" "evs = []" "rows' = rows"
      "\<And>r. r \<in> set rows \<Longrightarrow> rt_tokenHash r \<noteq> hashRefreshToken hmac v secret"
  | (rotated) r where "r \<in> set rows" "rt_tokenHash r = hashRefreshToken hmac v secret" "rt_live now r"
      "successor_of rows r = None" "res = Rotated (rotated_issued now d r) (rt_userId r)" "evs = []"
      "rows' = rows @ [rotated_row hmac secret now d r dev]" "tokens_unique rows'"
  | (reuse) r where "r \<in> set rows" "rt_tokenHash r = hashRefreshToken hmac v secret"
      "rotate_action now rows r = REVOKE_FAMILY" "res = INVALID_REFRESH"
      "evs = [(Ev_auth_refresh_reuse_detected, reuse_payload r dev)]"
      "rows' = revoke_where (\<lambda>s. rt_familyId s = rt_familyId r) now rows"
  | (rejected) r where "r \<in> set rows" "rt_tokenHash r = hashRefreshToken hmac v secret"
      "rotate_action now rows r \<in> {REJECT_EXPIRED, REJECT_BENIGN_RETRY}"
      "res = INVALID_REFRESH" "evs = []" "rows' = rows"
proof (cases "find (\<lambda>r. rt_tokenHash r = hashRefreshToken hmac v secret) rows")
  case None
  with assms show thesis by (intro unknown) (auto simp: rotate_token_def find_None_iff)
next
  case (Some r)
  then have r: "r \<in> set rows" "rt_tokenHash r = hashRefreshToken hmac v secret" by (auto dest: find_SomeD)
  show thesis
  proof (cases "rotate_action now rows r")
    case ALLOW_ROTATE
    with assms Some have "res = Rotated (rotated_issued now d r) (rt_userId r)" "evs = []"
      "rows' = rows @ [rotated_row hmac secret now d r dev]" "tokens_unique rows'"
      by (auto simp: rotate_token_def rbind_Inr_iff create_token_Inr)
    with r ALLOW_ROTATE show thesis by (intro rotated [of r]) (auto simp: action_rotates)
  next
    case REVOKE_FAMILY
    with assms Some r show thesis by (intro reuse [of r]) (auto simp: rotate_token_def)
  next
    case REJECT_EXPIRED
    with assms Some r show thesis by (intro rejected [of r]) (auto simp: rotate_token_def)
  next
    case REJECT_BENIGN_RETRY
    with assms Some r show thesis by (intro rejected [of r]) (auto simp: rotate_token_def)
  qed
qed

section \<open>Sequences of operations\<close>

text \<open>
  A state is the time of the last call and the table. Calls come one after the other with a clock that
  does not run back; a login draws a family identifier no row has (a random UUID).
\<close>

inductive session_step ::
    "(jstring \<Rightarrow> jstring \<Rightarrow> jstring) \<Rightarrow> jstring \<Rightarrow> int \<times> RefreshToken list \<Rightarrow> int \<times> RefreshToken list \<Rightarrow> bool"
  for hmac secret where
  login: "t \<le> now \<Longrightarrow> dw_familyId d \<notin> rt_familyId ` set rows \<Longrightarrow>
     issueOnLogin hmac secret now d u dev rows = Inr (issued, rows') \<Longrightarrow>
     session_step hmac secret (t, rows) (now, rows')"
| refresh: "t \<le> now \<Longrightarrow> rotate_token hmac secret now d v dev rows = Inr (res, evs, rows') \<Longrightarrow>
     session_step hmac secret (t, rows) (now, rows')"
| logout: "t \<le> now \<Longrightarrow> session_step hmac secret (t, rows) (now, revokeFamily now u f rows)"
| logout_all: "t \<le> now \<Longrightarrow> session_step hmac secret (t, rows) (now, revokeAllForUser now u rows)"
| logout_others: "t \<le> now \<Longrightarrow> session_step hmac secret (t, rows) (now, revokeAllExceptFamily now u f rows)"

inductive_cases session_stepE: "session_step hmac secret (t, rows) (now, rows')"

lemma session_step_time: "session_step hmac secret (t, rows) (now, rows') \<Longrightarrow> t \<le> now"
  by (cases rule: session_stepE)

lemma revoke_shapes:
  "\<exists>P. revokeFamily now u f rows = revoke_where P now rows" "\<exists>P. revokeAllForUser now u rows = revoke_where P now rows"
  "\<exists>P. revokeAllExceptFamily now u f rows = revoke_where P now rows"
  by (auto simp: revokeFamily_def revokeAllForUser_def revokeAllExceptFamily_def)

text \<open>What a step does to the table: it revokes rows, or appends one after perhaps revoking a family.\<close>

lemma session_step_shape:
  assumes "session_step hmac secret (t, rows) (now, rows')"
  obtains
    (revoked) P where "t \<le> now" "rows' = revoke_where P now rows"
  | (same) "t \<le> now" "rows' = rows"
  | (login) d u dev issued where "t \<le> now" "dw_familyId d \<notin> rt_familyId ` set rows"
      "issueOnLogin hmac secret now d u dev rows = Inr (issued, rows')"
  | (rotated) r d dev where "t \<le> now" "r \<in> set rows" "rt_live now r" "successor_of rows r = None"
      "rows' = rows @ [rotated_row hmac secret now d r dev]" "tokens_unique rows'"
proof -
  have "(\<exists>P. rows' = revoke_where P now rows) \<or>
      (\<exists>d u dev issued. dw_familyId d \<notin> rt_familyId ` set rows \<and>
        issueOnLogin hmac secret now d u dev rows = Inr (issued, rows')) \<or>
      (\<exists>d v dev res evs. rotate_token hmac secret now d v dev rows = Inr (res, evs, rows'))"
    using assms
    by (cases rule: session_stepE) (blast intro: revoke_shapes)+
  moreover have "t \<le> now" using assms by (cases rule: session_stepE)
  ultimately show thesis
  proof (elim disjE exE conjE)
    fix d v dev res evs
    assume "t \<le> now" and "rotate_token hmac secret now d v dev rows = Inr (res, evs, rows')"
    from this(2) show thesis
      using \<open>t \<le> now\<close> revoked same that(4) by (cases rule: rotate_cases) blast+
  qed (use revoked login in blast)+
qed

definition same_family :: "RefreshToken list \<Rightarrow> RefreshToken \<Rightarrow> RefreshToken \<Rightarrow> bool" where
  "same_family rows r s \<longleftrightarrow>
     rt_userId r = rt_userId s \<and> rt_familyExpiresAt r = rt_familyExpiresAt s \<and>
     (successor_of rows r = None \<longrightarrow> successor_of rows s = None \<longrightarrow> r = s)"

definition chains_ok :: "RefreshToken list \<Rightarrow> bool" where
  "chains_ok rows \<longleftrightarrow>
     tokens_unique rows \<and>
     (\<forall>r \<in> set rows. \<forall>s \<in> set rows. rt_familyId r = rt_familyId s \<longrightarrow> same_family rows r s) \<and>
     (\<forall>r \<in> set rows. \<forall>i. rt_rotatedFrom r = Some i \<longrightarrow> (\<exists>s \<in> set rows. rt_id s = i))"

definition sessions_ok :: "int \<Rightarrow> RefreshToken list \<Rightarrow> bool" where
  "sessions_ok t rows \<longleftrightarrow> chains_ok rows \<and> (\<forall>u. card (live_ids u t rows) \<le> LIVE_FAMILY_CAP)"

lemma successor_revoke: "successor_of (revoke_where P now rows) (revoke_one P now r) = None \<longleftrightarrow> successor_of rows r = None"
  by (auto simp: successor_None revoke_where_def)

lemma chains_revoke:
  assumes "chains_ok rows"
  shows "chains_ok (revoke_where P now rows)"
proof -
  have "same_family (revoke_where P now rows) (revoke_one P now r) (revoke_one P now s)"
    if "r \<in> set rows" "s \<in> set rows" "rt_familyId r = rt_familyId s" for r s
  proof -
    from assms that have "same_family rows r s" unfolding chains_ok_def by blast
    then show ?thesis by (auto simp: same_family_def successor_revoke)
  qed
  moreover have "\<exists>s \<in> set (revoke_where P now rows). rt_id s = i"
    if "r \<in> set rows" "rt_rotatedFrom r = Some i" for r i
  proof -
    from assms that obtain s where "s \<in> set rows" "rt_id s = i" unfolding chains_ok_def by blast
    then show ?thesis by (intro bexI [of _ "revoke_one P now s"]) (simp_all add: revoke_where_def)
  qed
  moreover have "set (revoke_where P now rows) = revoke_one P now ` set rows" by (simp add: revoke_where_def)
  ultimately show ?thesis using assms by (simp add: chains_ok_def)
qed

lemma fresh_id:
  assumes "tokens_unique (rows @ [n])"
  shows "rt_id n \<notin> rt_id ` set rows"
  using assms by (auto simp: tokens_unique_def unique_by_def)

lemma chains_append:
  assumes "chains_ok rows" and "tokens_unique (rows @ [n])"
    and "rt_rotatedFrom n = None \<and> rt_familyId n \<notin> rt_familyId ` set rows \<or>
      (\<exists>r \<in> set rows. successor_of rows r = None \<and> rt_rotatedFrom n = Some (rt_id r) \<and> rt_familyId n = rt_familyId r \<and>
         rt_userId n = rt_userId r \<and> rt_familyExpiresAt n = rt_familyExpiresAt r)"
  shows "chains_ok (rows @ [n])"
proof -
  note fresh = fresh_id [OF assms(2)]
  have fam: "same_family rows r s" if "r \<in> set rows" "s \<in> set rows" "rt_familyId r = rt_familyId s" for r s
    using assms(1) that by (simp add: chains_ok_def)
  have fk: "\<exists>s \<in> set rows. rt_id s = i" if "r \<in> set rows" "rt_rotatedFrom r = Some i" for r i
    using assms(1) that by (simp add: chains_ok_def)
  have old: "successor_of (rows @ [n]) r = None \<longleftrightarrow> successor_of rows r = None \<and> rt_rotatedFrom n \<noteq> Some (rt_id r)" for r
    by (auto simp: successor_None)
  have pair: "same_family (rows @ [n]) r s" if "r \<in> set rows" "s \<in> set rows" "rt_familyId r = rt_familyId s" for r s
    using fam [OF that] by (simp add: same_family_def old)
  have new: "same_family (rows @ [n]) r n \<and> same_family (rows @ [n]) n r"
    if "r \<in> set rows" "rt_familyId r = rt_familyId n" for r
  proof -
    from assms(3) that obtain p where p: "p \<in> set rows" "successor_of rows p = None" "rt_rotatedFrom n = Some (rt_id p)"
      "rt_familyId n = rt_familyId p" "rt_userId n = rt_userId p" "rt_familyExpiresAt n = rt_familyExpiresAt p"
      by (metis image_eqI)
    from fam [OF that(1) p(1)] that(2) p(4) have f: "same_family rows r p" by simp
    then have "successor_of (rows @ [n]) r \<noteq> None" using p(2,3) by (auto simp: old same_family_def)
    with f p(5,6) show ?thesis by (auto simp: same_family_def)
  qed
  have "\<exists>s \<in> set rows. rt_id s = i" if "rt_rotatedFrom n = Some i" for i
    using that assms(3) by auto
  then have "\<exists>s \<in> set (rows @ [n]). rt_id s = i" if "r \<in> set (rows @ [n])" "rt_rotatedFrom r = Some i" for r i
    using that fk [of r i] by (cases "r = n") auto
  moreover have "same_family (rows @ [n]) n n" by (simp add: same_family_def)
  ultimately show ?thesis using pair new assms(2) by (auto simp: chains_ok_def)
qed

lemma cap_mono:
  assumes "\<And>u. live_ids u now rows' \<subseteq> live_ids u t rows" and "\<forall>u. card (live_ids u t rows) \<le> k"
  shows "\<forall>u. card (live_ids u now rows') \<le> k"
  using assms card_mono [OF finite_live_ids] by (meson order_trans)

lemma rotated_live:
  assumes "r \<in> set rows" and "rt_live now r"
  shows "live_ids u now (rows @ [rotated_row hmac secret now d r dev]) \<subseteq> live_ids u now rows"
  using assms by (auto simp: rotated_row_def mem_live_ids)

lemma session_step_ok:
  assumes "session_step hmac secret (t, rows) (now, rows')" and "sessions_ok t rows"
  shows "sessions_ok now rows'"
proof -
  have c: "chains_ok rows" and k: "\<forall>u. card (live_ids u t rows) \<le> LIVE_FAMILY_CAP"
    using assms(2) by (simp_all add: sessions_ok_def)
  from assms(1) show ?thesis
  proof (cases rule: session_step_shape)
    case (revoked P)
    have "live_ids u now rows' \<subseteq> live_ids u t rows" for u
      unfolding revoked(2) using live_ids_revoke_mono live_ids_time [OF revoked(1)] by (rule subset_trans)
    from cap_mono [OF this k] have "\<forall>u. card (live_ids u now rows') \<le> LIVE_FAMILY_CAP" .
    moreover have "chains_ok rows'" unfolding revoked(2) by (rule chains_revoke [OF c])
    ultimately show ?thesis unfolding sessions_ok_def by (intro conjI)
  next
    case same
    with c cap_mono [OF live_ids_time [OF same(1)] k] show ?thesis by (simp add: sessions_ok_def)
  next
    case (login d u dev issued)
    from issueOnLogin_Inr [OF login(3)] obtain cap where
      r: "rows' = evict cap now rows @ [login_row hmac secret now d u dev]" and q: "tokens_unique rows'" .
    have e: "chains_ok (evict cap now rows)" using c by (simp add: evict_def chains_revoke split: option.splits)
    have f: "rt_familyId ` set (evict cap now rows) = rt_familyId ` set rows"
      by (auto simp: evict_def revoke_where_def image_image split: option.splits)
    have "chains_ok rows'"
      unfolding r by (rule chains_append [OF e q [unfolded r]]) (use login(2) f in \<open>simp add: login_row_def\<close>)
    moreover have "card (live_ids v now rows) \<le> 20" for v
      using cap_mono [OF live_ids_time [OF login(1)] k] by (simp add: LIVE_FAMILY_CAP_def)
    ultimately show ?thesis
      using login_keeps_cap [OF login(3)] by (simp add: sessions_ok_def LIVE_FAMILY_CAP_def)
  next
    case (rotated r d dev)
    have "chains_ok rows'"
      unfolding rotated(5) by (rule chains_append [OF c rotated(6) [unfolded rotated(5)]])
        (use rotated(2,4) in \<open>auto simp: rotated_row_def\<close>)
    moreover have "live_ids u now rows' \<subseteq> live_ids u t rows" for u
      unfolding rotated(5) using rotated_live [OF rotated(2,3)] live_ids_time [OF rotated(1)] by (rule subset_trans)
    ultimately show ?thesis using cap_mono [OF _ k] by (simp add: sessions_ok_def)
  qed
qed

lemma sessions_ok_empty: "sessions_ok t []"
  by (simp add: sessions_ok_def chains_ok_def tokens_unique_def unique_by_def live_ids_def)

text \<open>States that some sequence of calls reaches from one, and from the empty table.\<close>

abbreviation session_steps ::
    "(jstring \<Rightarrow> jstring \<Rightarrow> jstring) \<Rightarrow> jstring \<Rightarrow> int \<times> RefreshToken list \<Rightarrow> int \<times> RefreshToken list \<Rightarrow> bool" where
  "session_steps hmac secret \<equiv> (session_step hmac secret)\<^sup>*\<^sup>*"

lemma session_steps_ok:
  assumes "session_steps hmac secret (t, rows) (t', rows')" and "sessions_ok t rows"
  shows "t \<le> t' \<and> sessions_ok t' rows'"
  using assms(1)
proof (induction rule: rtranclp_induct2)
  case refl
  then show ?case using assms(2) by simp
next
  case (step t1 rows1 t2 rows2)
  note ok = conjunct1 [OF step(3)] conjunct2 [OF step(3)]
  from order_trans [OF ok(1) session_step_time [OF step(2)]] session_step_ok [OF step(2) ok(2)] show ?case
    by (rule conjI)
qed

lemma reachable_ok: "session_steps hmac secret (t0, []) (t, rows) \<Longrightarrow> sessions_ok t rows"
  using session_steps_ok sessions_ok_empty by blast

lemma reachable_family:
  assumes "session_steps hmac secret (t0, []) (t, rows)" and "r \<in> set rows" and "s \<in> set rows"
    and "rt_familyId r = rt_familyId s"
  shows "same_family rows r s"
proof -
  have "chains_ok rows" using reachable_ok [OF assms(1)] by (simp add: sessions_ok_def)
  with assms(2-4) show ?thesis unfolding chains_ok_def by blast
qed

section \<open>The list of sessions\<close>

lemma note_session_ids:
  "map ss_familyId (note_session r es) =
     (if rt_familyId r \<in> ss_familyId ` set es then map ss_familyId es else map ss_familyId es @ [rt_familyId r])"
  by (induction es) (auto simp: merge_row_def)

lemma note_sessions_ids:
  "distinct (map ss_familyId es) \<Longrightarrow> distinct (map ss_familyId (fold note_session rs es)) \<and>
     ss_familyId ` set (fold note_session rs es) = rt_familyId ` set rs \<union> ss_familyId ` set es"
proof (induction rs arbitrary: es)
  case (Cons r rs)
  have d: "distinct (map ss_familyId (note_session r es))" using Cons.prems by (auto simp: note_session_ids)
  have "ss_familyId ` set (note_session r es) = insert (rt_familyId r) (ss_familyId ` set es)"
    using arg_cong [OF note_session_ids [of r es], of set] by (auto split: if_splits)
  with Cons.IH [OF d] show ?case by auto
qed simp

lemma listLiveSessions_ids:
  "distinct (map ss_familyId (listLiveSessions now u rows)) \<and>
   ss_familyId ` set (listLiveSessions now u rows) = live_ids u now rows"
  using note_sessions_ids [of "[]" "sort_key rt_createdAt (filter (\<lambda>r. rt_userId r = u \<and> rt_live now r) rows)"]
  by (auto simp: listLiveSessions_def live_ids_def)

text \<open>
  C9: Nobody has more than twenty sessions. After any sequence of logins, refreshes and revocations, at
  any later time, the list of a user's sessions has at most 20 entries, one for each family with a
  token that is neither revoked nor past one of its two expiry times.
\<close>

theorem live_sessions_bounded:
  assumes "session_steps hmac secret (t0, []) (t, rows)" and "t \<le> now"
  shows "length (listLiveSessions now u rows) \<le> 20 \<and>
    distinct (map ss_familyId (listLiveSessions now u rows)) \<and>
    ss_familyId ` set (listLiveSessions now u rows) =
      rt_familyId ` {r \<in> set rows. rt_userId r = u \<and> rt_live now r}"
proof -
  have "card (live_ids u now rows) \<le> card (live_ids u t rows)"
    using card_mono [OF finite_live_ids live_ids_time [OF assms(2)]] .
  also have "\<dots> \<le> 20" using reachable_ok [OF assms(1)] by (simp add: sessions_ok_def LIVE_FAMILY_CAP_def)
  finally have "card (live_ids u now rows) \<le> 20" .
  moreover have "length (listLiveSessions now u rows) = card (live_ids u now rows)"
    using listLiveSessions_ids [of now u rows] distinct_card [of "map ss_familyId (listLiveSessions now u rows)"] by simp
  ultimately show ?thesis using listLiveSessions_ids [of now u rows] unfolding live_ids_def by simp
qed

section \<open>Rotation and revocation\<close>

text \<open>
  C7: One token of a session is good for a refresh. Whatever happened before, when two tokens of one
  session would both be rotated, at whatever two times, they are the same token.
\<close>

theorem one_token_rotates:
  assumes "session_steps hmac secret (t0, []) (t, rows)"
    and "rotate_token hmac secret now1 d1 v1 dev1 rows = Inr (Rotated i1 u1, evs1, rows1)"
    and "rotate_token hmac secret now2 d2 v2 dev2 rows = Inr (Rotated i2 u2, evs2, rows2)"
    and "ir_familyId i1 = ir_familyId i2"
  shows "hashRefreshToken hmac v1 secret = hashRefreshToken hmac v2 secret \<and> u1 = u2"
proof -
  from assms(2) obtain r where r: "r \<in> set rows" "rt_tokenHash r = hashRefreshToken hmac v1 secret"
      "successor_of rows r = None" "i1 = rotated_issued now1 d1 r" "u1 = rt_userId r"
    by (cases rule: rotate_cases) auto
  from assms(3) obtain s where s: "s \<in> set rows" "rt_tokenHash s = hashRefreshToken hmac v2 secret"
      "successor_of rows s = None" "i2 = rotated_issued now2 d2 s" "u2 = rt_userId s"
    by (cases rule: rotate_cases) auto
  from assms(4) r(4) s(4) have "rt_familyId r = rt_familyId s" by (simp add: rotated_issued_def)
  from reachable_family [OF assms(1) r(1) s(1) this] r s show ?thesis by (auto simp: same_family_def)
qed

text \<open>Every token of the family is revoked.\<close>

definition family_dead :: "jstring \<Rightarrow> RefreshToken list \<Rightarrow> bool" where
  "family_dead f rows \<longleftrightarrow>
     f \<in> rt_familyId ` set rows \<and> list_all (\<lambda>r. rt_familyId r = f \<longrightarrow> rt_revokedAt r \<noteq> None) rows"

lemma dead_row: "family_dead f rows \<Longrightarrow> r \<in> set rows \<Longrightarrow> rt_familyId r = f \<Longrightarrow> \<not> rt_live now r"
  by (auto simp: family_dead_def list_all_iff rt_live_def)

lemma dead_revoke: "family_dead f rows \<Longrightarrow> family_dead f (revoke_where P now rows)"
  by (auto simp: family_dead_def list_all_iff revoke_where_def image_image revoke_one_def)

lemma revoked_dead:
  assumes "f \<in> rt_familyId ` set rows" and "\<And>s. s \<in> set rows \<Longrightarrow> rt_familyId s = f \<Longrightarrow> P s"
  shows "family_dead f (revoke_where P now rows)"
proof -
  have "rt_revokedAt (revoke_one P now s) \<noteq> None" if "s \<in> set rows" "rt_familyId s = f" for s
    unfolding revoke_one_revoked using assms(2) [OF that] by simp
  then show ?thesis using assms(1)
    by (simp add: family_dead_def list_all_iff revoke_where_def image_image del: not_None_eq revoke_one_revoked)
qed

lemma dead_append: "family_dead f rows \<Longrightarrow> rt_familyId n \<noteq> f \<Longrightarrow> family_dead f (rows @ [n])"
  by (simp add: family_dead_def)

lemma session_step_dead:
  assumes "session_step hmac secret (t, rows) (now, rows')" and "family_dead f rows"
  shows "family_dead f rows'"
  using assms(1)
proof (cases rule: session_step_shape)
  case (revoked P)
  with assms(2) show ?thesis by (simp add: dead_revoke)
next
  case (login d u dev issued)
  have "dw_familyId d \<noteq> f" using login(2) assms(2) by (auto simp: family_dead_def)
  with login(3) assms(2) show ?thesis
    by (elim issueOnLogin_Inr) (auto simp: evict_def login_row_def intro!: dead_append dead_revoke split: option.splits)
next
  case (rotated r d dev)
  then have "rt_familyId r \<noteq> f" using dead_row [OF assms(2)] by blast
  with rotated(5) assms(2) show ?thesis by (simp add: dead_append rotated_row_def)
qed (use assms in simp)

lemma session_steps_dead:
  "session_steps hmac secret (t, rows) (t', rows') \<Longrightarrow> family_dead f rows \<Longrightarrow> family_dead f rows'"
  by (induction rule: rtranclp_induct2) (blast intro: session_step_dead)+

lemma dead_family_refused:
  assumes "family_dead f rows"
  shows "rotate_token hmac secret now d v dev rows \<noteq> Inr (Rotated i u, evs, rows') \<or> ir_familyId i \<noteq> f"
proof (rule ccontr)
  assume "\<not> ?thesis"
  then have "rotate_token hmac secret now d v dev rows = Inr (Rotated i u, evs, rows')" "ir_familyId i = f" by auto
  from this show False
    by (cases rule: rotate_cases) (auto simp: rotated_issued_def dest: dead_row [OF assms])
qed

text \<open>The calls that end the session \<open>f\<close> of \<open>u\<close>: logging it out, all of them out, or all but another.\<close>

definition ends_session :: "int \<Rightarrow> jstring \<Rightarrow> jstring \<Rightarrow> RefreshToken list \<Rightarrow> RefreshToken list \<Rightarrow> bool" where
  "ends_session now u f rows rows' \<longleftrightarrow>
     rows' = revokeFamily now u f rows \<or> rows' = revokeAllForUser now u rows \<or>
     (\<exists>g. g \<noteq> f \<and> rows' = revokeAllExceptFamily now u g rows)"

lemma ends_session_dead:
  assumes "ends_session now u f rows rows'" and "chains_ok rows" and "r \<in> set rows" and "rt_familyId r = f"
    and "rt_userId r = u"
  shows "family_dead f rows'"
proof -
  from assms(1) obtain P where p: "rows' = revoke_where P now rows"
    and all: "\<And>s. rt_userId s = u \<Longrightarrow> rt_familyId s = f \<Longrightarrow> P s"
    by (auto simp: ends_session_def revokeFamily_def revokeAllForUser_def revokeAllExceptFamily_def)
  have "rt_userId s = u" if "s \<in> set rows" "rt_familyId s = f" for s
  proof -
    from assms(2-4) that have "same_family rows s r" unfolding chains_ok_def by blast
    with assms(5) show ?thesis by (simp add: same_family_def)
  qed
  with all assms(3,4) show ?thesis unfolding p by (intro revoked_dead) auto
qed

text \<open>
  Logging out is final. Once a session of a user was ended, by logging out of it, of all sessions,
  of all but another one, no sequence of later logins, refreshes and revocations brings it back: none
  of its tokens is ever exchanged again.
\<close>

theorem ended_session_stays_dead:
  assumes "session_steps hmac secret (t0, []) (t, rows)"
    and "r \<in> set rows" and "rt_familyId r = f" and "rt_userId r = u"
    and "ends_session now u f rows rows1" and "session_steps hmac secret (now, rows1) (t2, rows2)"
  shows "f \<notin> ss_familyId ` set (listLiveSessions now2 u2 rows2) \<and>
    (rotate_token hmac secret now2 d v dev rows2 \<noteq> Inr (Rotated i u3, evs, rows3) \<or> ir_familyId i \<noteq> f)"
proof -
  have "chains_ok rows" using reachable_ok [OF assms(1)] by (simp add: sessions_ok_def)
  from ends_session_dead [OF assms(5) this assms(2-4)] session_steps_dead [OF assms(6)]
  have dead: "family_dead f rows2" by blast
  have "f \<notin> live_ids u2 now2 rows2" using dead_row [OF dead] by (auto simp: live_ids_def)
  with dead_family_refused [OF dead] listLiveSessions_ids [of now2 u2 rows2] show ?thesis by simp
qed

lemma successor_is:
  assumes "s \<in> set rows" and "rt_rotatedFrom s = Some (rt_id r)" and "tokens_unique rows"
  shows "successor_of rows r = Some s"
proof -
  obtain s' where f: "successor_of rows r = Some s'" using assms(1,2) by (cases "successor_of rows r") (auto simp: successor_None)
  then have s': "s' \<in> set rows" "rt_rotatedFrom s' = Some (rt_id r)" by (auto simp: successor_of_def dest: find_SomeD)
  have "inj_on rt_rotatedFrom {x \<in> set rows. rt_rotatedFrom x \<noteq> None}"
    using assms(3) by (simp add: tokens_unique_def unique_by_def distinct_map)
  from inj_onD [OF this, of s' s] s' assms(1,2) have "s' = s" by simp
  with f show ?thesis by simp
qed

lemma consumed_action:
  assumes "s \<in> set rows" and "rt_rotatedFrom s = Some (rt_id r)" and "tokens_unique rows"
    and "rt_live now r" and "rt_createdAt s + 60000 < now"
  shows "rotate_action now rows r = REVOKE_FAMILY"
  using successor_is [OF assms(1-3)] assms(4,5)
  by (auto simp: rotate_action_def decideReuse_def rt_live_def successorInfo_def Let_def REUSE_LEEWAY_MS_def)

lemma find_keyed:
  assumes "distinct (map g xs)" and "r \<in> set xs"
  shows "find (\<lambda>x. g x = g r) xs = Some r"
  using assms by (induction xs) auto

lemma revoke_where_other:
  "filter (\<lambda>s. \<not> P s) (revoke_where P now rows) = filter (\<lambda>s. \<not> P s) rows"
  if "\<And>s x. P (s\<lparr>rt_revokedAt := x\<rparr>) \<longleftrightarrow> P s"
  using that by (induction rows) (auto simp: revoke_where_def revoke_one_def)

lemma dead_not_listed: "family_dead f rows \<Longrightarrow> f \<notin> ss_familyId ` set (listLiveSessions now u rows)"
  using dead_row [of f rows] listLiveSessions_ids [of now u rows] by (auto simp: live_ids_def)

text \<open>
  C8: A stolen token burns its session. Presenting a token that was exchanged more than a minute ago
  (or was revoked) is refused with the answer an unknown token gets and writes one event that names
  user and session. Every token of the session that was not revoked yet is revoked at that moment and
  no other field of any row changes: all tokens of the session are then revoked, the rows of every
  other session are as they were. From then on, after any sequence of session steps, the session is
  on no list of live sessions and none of its tokens is exchanged.
\<close>

theorem replayed_token_burns_session:
  assumes "session_steps hmac secret (t0, []) (t, rows)" and "r \<in> set rows"
    and "rt_tokenHash r = hashRefreshToken hmac v secret" and "now < rt_familyExpiresAt r"
    and "rt_revokedAt r \<noteq> None \<or>
      now < rt_expiresAt r \<and> (\<exists>s \<in> set rows. rt_rotatedFrom s = Some (rt_id r) \<and> rt_createdAt s + 60000 < now)"
  shows "\<exists>rows1. rotate_token hmac secret now d v dev rows =
      Inr (INVALID_REFRESH, [(Ev_auth_refresh_reuse_detected, reuse_payload r dev)], rows1) \<and>
    rows1 = map (\<lambda>s. if rt_familyId s = rt_familyId r \<and> rt_revokedAt s = None then s\<lparr>rt_revokedAt := Some now\<rparr> else s) rows \<and>
    (\<forall>s \<in> set rows1. rt_familyId s = rt_familyId r \<longrightarrow> rt_revokedAt s \<noteq> None) \<and>
    filter (\<lambda>s. rt_familyId s \<noteq> rt_familyId r) rows1 = filter (\<lambda>s. rt_familyId s \<noteq> rt_familyId r) rows \<and>
    (\<forall>t2 rows2. session_steps hmac secret (now, rows1) (t2, rows2) \<longrightarrow>
       rt_familyId r \<notin> ss_familyId ` set (listLiveSessions now2 u2 rows2) \<and>
       (\<forall>i. rotate_token hmac secret now2 d2 v2 dev2 rows2 \<noteq> Inr (Rotated i u, evs, rows3) \<or> ir_familyId i \<noteq> rt_familyId r))"
proof -
  have u: "tokens_unique rows" using reachable_ok [OF assms(1)] by (simp add: sessions_ok_def chains_ok_def)
  then have "distinct (map rt_tokenHash rows)" by (simp add: tokens_unique_def unique_by_def)
  note found = find_keyed [OF this assms(2), unfolded assms(3)]
  have a: "rotate_action now rows r = REVOKE_FAMILY"
  proof (cases "rt_revokedAt r")
    case None
    with assms(4,5) u show ?thesis by (auto simp: rt_live_def intro: consumed_action)
  next
    case (Some x)
    with assms(4) show ?thesis by (simp add: rotate_action_def decideReuse_def)
  qed
  let ?rows1 = "revoke_where (\<lambda>s. rt_familyId s = rt_familyId r) now rows"
  have answer: "rotate_token hmac secret now d v dev rows =
      Inr (INVALID_REFRESH, [(Ev_auth_refresh_reuse_detected, reuse_payload r dev)], ?rows1)"
    by (simp add: rotate_token_def found a)
  have rows1: "?rows1 =
      map (\<lambda>s. if rt_familyId s = rt_familyId r \<and> rt_revokedAt s = None then s\<lparr>rt_revokedAt := Some now\<rparr> else s) rows"
    by (simp add: revoke_where_def revoke_one_def)
  have dead: "family_dead (rt_familyId r) ?rows1" by (rule revoked_dead) (use assms(2) in simp_all)
  then have revoked: "\<forall>s \<in> set ?rows1. rt_familyId s = rt_familyId r \<longrightarrow> rt_revokedAt s \<noteq> None"
    by (simp add: family_dead_def list_all_iff)
  have other: "filter (\<lambda>s. rt_familyId s \<noteq> rt_familyId r) ?rows1 = filter (\<lambda>s. rt_familyId s \<noteq> rt_familyId r) rows"
    by (rule revoke_where_other) simp
  have final: "\<forall>t2 rows2. session_steps hmac secret (now, ?rows1) (t2, rows2) \<longrightarrow>
       rt_familyId r \<notin> ss_familyId ` set (listLiveSessions now2 u2 rows2) \<and>
       (\<forall>i. rotate_token hmac secret now2 d2 v2 dev2 rows2 \<noteq> Inr (Rotated i u, evs, rows3) \<or> ir_familyId i \<noteq> rt_familyId r)"
  proof (intro allI impI conjI)
    fix t2 rows2
    assume h: "session_steps hmac secret (now, ?rows1) (t2, rows2)"
    show "rt_familyId r \<notin> ss_familyId ` set (listLiveSessions now2 u2 rows2)"
      by (rule dead_not_listed [OF session_steps_dead [OF h dead]])
    show "rotate_token hmac secret now2 d2 v2 dev2 rows2 \<noteq> Inr (Rotated i u, evs, rows3) \<or> ir_familyId i \<noteq> rt_familyId r" for i
      by (rule dead_family_refused [OF session_steps_dead [OF h dead]])
  qed
  show ?thesis
    by (rule exI [of _ ?rows1], intro conjI, rule answer, rule rows1, rule revoked, rule other, rule final)
qed

text \<open>Every token of the family belongs to \<open>u\<close> and ends at \<open>x\<close>.\<close>

definition family_of :: "jstring \<Rightarrow> jstring \<Rightarrow> int \<Rightarrow> RefreshToken list \<Rightarrow> bool" where
  "family_of f u x rows \<longleftrightarrow>
     f \<in> rt_familyId ` set rows \<and>
     (\<forall>r \<in> set rows. rt_familyId r = f \<longrightarrow> rt_userId r = u \<and> rt_familyExpiresAt r = x)"

lemma family_of_revoke: "family_of f u x rows \<Longrightarrow> family_of f u x (revoke_where P now rows)"
  by (auto simp: family_of_def revoke_where_def image_image)

lemma family_of_append:
  "family_of f u x rows \<Longrightarrow> rt_familyId n = f \<longrightarrow> rt_userId n = u \<and> rt_familyExpiresAt n = x \<Longrightarrow>
     family_of f u x (rows @ [n])"
  by (auto simp: family_of_def)

lemma session_step_family_of:
  assumes "session_step hmac secret (t, rows) (now, rows')" and "family_of f u x rows"
  shows "family_of f u x rows'"
  using assms(1)
proof (cases rule: session_step_shape)
  case (revoked P)
  with assms(2) show ?thesis by (simp add: family_of_revoke)
next
  case (login d v dev issued)
  have "dw_familyId d \<noteq> f" using login(2) assms(2) by (auto simp: family_of_def)
  with login(3) assms(2) show ?thesis
    by (elim issueOnLogin_Inr)
      (auto simp: evict_def login_row_def intro!: family_of_append family_of_revoke split: option.splits)
next
  case (rotated r d dev)
  have "rt_familyId r = f \<longrightarrow> rt_userId r = u \<and> rt_familyExpiresAt r = x"
    using rotated(2) assms(2) by (simp add: family_of_def)
  with rotated(5) assms(2) show ?thesis by (simp add: family_of_append rotated_row_def)
qed (use assms in simp)

lemma session_steps_family_of:
  "session_steps hmac secret (t, rows) (t', rows') \<Longrightarrow> family_of f u x rows \<Longrightarrow> family_of f u x rows'"
  by (induction rule: rtranclp_induct2) (blast intro: session_step_family_of)+

text \<open>
  C10: No session outlives its login by more than ninety days. A login starts a session under a family
  id no stored token has. However its tokens are exchanged after that, among any other logins, refreshes
  and revocations: every exchange of one of its tokens comes before login plus 90 days, is for the user
  who logged in, and hands out the end fixed at the login; and from login plus 90 days on the session is
  on nobody's list of live sessions.
\<close>

theorem session_absolute_lifetime:
  assumes "dw_familyId d \<notin> rt_familyId ` set rows"
    and "issueOnLogin hmac secret now d u dev rows = Inr (issued, rows1)"
    and "session_steps hmac secret (now, rows1) (t, rows2)"
  shows "(\<forall>now2 d2 v dev2 i w evs rows3.
      rotate_token hmac secret now2 d2 v dev2 rows2 = Inr (Rotated i w, evs, rows3) \<and> ir_familyId i = ir_familyId issued \<longrightarrow>
        now2 < now + 90 * 24 * 60 * 60 * 1000 \<and> w = u \<and> ir_familyExpiresAt i = now + 90 * 24 * 60 * 60 * 1000) \<and>
    (\<forall>now3 w. now + 90 * 24 * 60 * 60 * 1000 \<le> now3 \<longrightarrow>
        ir_familyId issued \<notin> ss_familyId ` set (listLiveSessions now3 w rows2))"
proof -
  let ?x = "now + 90 * 24 * 60 * 60 * 1000"
  from issueOnLogin_Inr [OF assms(2)] obtain cap where
    i: "issued = login_issued now d" and r: "rows1 = evict cap now rows @ [login_row hmac secret now d u dev]" .
  have x: "familyExpiresAt now = ?x" by (simp add: familyExpiresAt_def FAMILY_LIFETIME_CAP_MS_def)
  have "dw_familyId d \<notin> rt_familyId ` set (evict cap now rows)"
    using assms(1) by (auto simp: evict_def revoke_where_def image_image split: option.splits)
  then have "rt_familyId s \<noteq> dw_familyId d" if "s \<in> set (evict cap now rows)" for s
    using that by (metis imageI)
  then have "family_of (dw_familyId d) u ?x rows1"
    unfolding r x [symmetric] by (auto simp: family_of_def login_row_def)
  from session_steps_family_of [OF assms(3) this]
  have f: "rt_userId s = u \<and> rt_familyExpiresAt s = ?x" if "s \<in> set rows2" "rt_familyId s = ir_familyId issued" for s
    using that by (auto simp: family_of_def i login_issued_def)
  have "now2 < ?x \<and> w = u \<and> ir_familyExpiresAt e = ?x"
    if h: "rotate_token hmac secret now2 d2 v dev2 rows2 = Inr (Rotated e w, evs, rows3)" "ir_familyId e = ir_familyId issued"
    for now2 d2 v dev2 e w evs rows3
  proof -
    from h(1) obtain s where s: "s \<in> set rows2" "rt_live now2 s" "e = rotated_issued now2 d2 s" "w = rt_userId s"
      by (cases rule: rotate_cases) auto
    with f [of s] h(2) show ?thesis by (simp add: rt_live_def rotated_issued_def)
  qed
  moreover have "ir_familyId issued \<notin> ss_familyId ` set (listLiveSessions now3 w rows2)" if "?x \<le> now3" for now3 w
    using f that listLiveSessions_ids [of now3 w rows2] by (auto simp: live_ids_def rt_live_def)
  ultimately show ?thesis by blast
qed

lemma rotate_live:
  assumes "tokens_unique rows" and "r \<in> set rows" and "rt_tokenHash r = hashRefreshToken hmac v secret"
    and "rt_live now r" and "successor_of rows r = None"
    and "tokens_unique (rows @ [rotated_row hmac secret now d r dev])"
  shows "rotate_token hmac secret now d v dev rows =
    Inr (Rotated (rotated_issued now d r) (rt_userId r), [], rows @ [rotated_row hmac secret now d r dev])"
proof -
  have "distinct (map rt_tokenHash rows)" using assms(1) by (simp add: tokens_unique_def unique_by_def)
  note found = find_keyed [OF this assms(2), unfolded assms(3)]
  have "rotate_action now rows r = ALLOW_ROTATE" using assms(4,5) by (simp add: action_rotates)
  then show ?thesis using assms(6) by (simp add: rotate_token_def found create_token_def)
qed

text \<open>
  A refresh continues the session. The live token of a session that was not exchanged yet is
  answered with a new token of the same session and user; a second try of the old token within a
  minute is refused without harm, and the new token is exchanged in turn as long as 60 days since the
  exchange and the end of the session are not over.
\<close>

theorem refresh_continues_session:
  assumes "session_steps hmac secret (t0, []) (t, rows)"
    and "r \<in> set rows" and "rt_tokenHash r = hashRefreshToken hmac v secret"
    and "rt_live now r" and "successor_of rows r = None"
    and "tokens_unique (rows @ [rotated_row hmac secret now d r dev])"
    and "now2 < now + 60 * 24 * 60 * 60 * 1000" and "now2 < rt_familyExpiresAt r"
    and "tokens_unique (rows @ [rotated_row hmac secret now d r dev] @
           [rotated_row hmac secret now2 d2 (rotated_row hmac secret now d r dev) dev2])"
  shows "\<exists>rows1. rotate_token hmac secret now d v dev rows =
      Inr (Rotated (rotated_issued now d r) (rt_userId r), [], rows1) \<and>
    (rt_live now3 r \<and> now3 - dw_createdAt d \<le> 60000 \<longrightarrow>
       rotate_token hmac secret now3 d3 v dev3 rows1 = Inr (INVALID_REFRESH, [], rows1)) \<and>
    (\<exists>rows2 i. rotate_token hmac secret now2 d2 (ir_value (rotated_issued now d r)) dev2 rows1 =
       Inr (Rotated i (rt_userId r), [], rows2) \<and> ir_familyId i = rt_familyId r)"
proof -
  have ok: "chains_ok rows" using reachable_ok [OF assms(1)] by (simp add: sessions_ok_def)
  then have u: "tokens_unique rows" by (simp add: chains_ok_def)
  let ?n = "rotated_row hmac secret now d r dev"
  let ?rows1 = "rows @ [?n]"
  have n: "rt_familyId ?n = rt_familyId r" "rt_rotatedFrom ?n = Some (rt_id r)" "rt_userId ?n = rt_userId r"
      "rt_tokenHash ?n = hashRefreshToken hmac (ir_value (rotated_issued now d r)) secret" "rt_revokedAt ?n = None"
      "rt_createdAt ?n = dw_createdAt d"
    by (simp_all add: rotated_row_def rotated_issued_def)
  have noref: "rt_rotatedFrom s \<noteq> Some (rt_id ?n)" if "s \<in> set ?rows1" for s
  proof
    assume s: "rt_rotatedFrom s = Some (rt_id ?n)"
    have "\<exists>p \<in> set rows. rt_id p = rt_id ?n"
    proof (cases "s = ?n")
      case True
      with s n(2) assms(2) show ?thesis by (metis option.inject)
    next
      case False
      with that s ok show ?thesis by (auto simp: chains_ok_def)
    qed
    with fresh_id [OF assms(6)] show False by (metis imageI)
  qed
  then have sn: "successor_of ?rows1 ?n = None" by (simp add: successor_None)
  have sr: "successor_of ?rows1 r = Some ?n"
    using assms(5) n(2) by (simp add: successor_of_def find_append)
  have a: "rotate_action now3 ?rows1 r = REJECT_BENIGN_RETRY"
    if "rt_live now3 r" "now3 - dw_createdAt d \<le> 60000"
    using that sr sn n(5,6) by (simp add: rotate_action_def decideReuse_def successorInfo_def rt_live_def REUSE_LEEWAY_MS_def)
  have "distinct (map rt_tokenHash ?rows1)" using assms(6) by (simp add: tokens_unique_def unique_by_def)
  from find_keyed [OF this, of r] assms(2,3) have f: "find (\<lambda>x. rt_tokenHash x = hashRefreshToken hmac v secret) ?rows1 = Some r"
    by simp
  have "rt_live now2 ?n"
    using assms(7,8) by (simp add: rt_live_def rotated_row_def tokenExpiresAt_def REFRESH_TOKEN_TTL_MS_def)
  from rotate_live [OF assms(6) _ n(4) this sn, of d2 dev2] assms(9) n(1,3)
  have "rotate_token hmac secret now2 d2 (ir_value (rotated_issued now d r)) dev2 ?rows1 =
      Inr (Rotated (rotated_issued now2 d2 ?n) (rt_userId r), [], ?rows1 @ [rotated_row hmac secret now2 d2 ?n dev2])"
    by simp
  moreover have "ir_familyId (rotated_issued now2 d2 ?n) = rt_familyId r" using n(1) by (simp add: rotated_issued_def)
  moreover have "rotate_token hmac secret now3 d3 v dev3 ?rows1 = Inr (INVALID_REFRESH, [], ?rows1)"
    if "rt_live now3 r" "now3 - dw_createdAt d \<le> 60000"
    unfolding rotate_token_def f using a [OF that] by simp
  ultimately show ?thesis using rotate_live [OF u assms(2-6)] by blast
qed

section \<open>Calls that overlap\<close>

text \<open>
  The transaction of a login takes no lock: under Read Committed two logins of one user may both read
  before either writes. Then the cap does not hold. From 19 live sessions, two such logins leave 21.
\<close>

theorem overlapping_logins_exceed_cap:
  assumes "card (live_ids u now rows) = 19"
    and "decideFamilyCap (liveFamilies u now rows) LIVE_FAMILY_CAP = Some cap"
    and "login_write hmac secret now d1 u dev1 cap rows = Inr rows1"
    and "login_write hmac secret now d2 u dev2 cap rows1 = Inr rows2"
    and "dw_familyId d1 \<notin> rt_familyId ` set rows" and "dw_familyId d2 \<notin> insert (dw_familyId d1) (rt_familyId ` set rows)"
  shows "length (listLiveSessions now u rows2) = 21"
proof -
  have cap: "cap = None" using assms(1,2) by (auto simp: decideFamilyCap_def length_liveFamilies LIVE_FAMILY_CAP_def)
  have rows: "rows2 = rows @ [login_row hmac secret now d1 u dev1, login_row hmac secret now d2 u dev2]"
    using assms(3,4) by (auto simp: login_write_def cap evict_def create_token_Inr)
  have l: "rt_userId (login_row hmac secret now d u dev) = u" "rt_live now (login_row hmac secret now d u dev)"
      "rt_familyId (login_row hmac secret now d u dev) = dw_familyId d" for d dev
    by (simp_all add: login_row_def rt_live_def tokenExpiresAt_future familyExpiresAt_future)
  have "live_ids u now rows2 = insert (dw_familyId d2) (insert (dw_familyId d1) (live_ids u now rows))"
    using live_ids_append [of u now "rows @ [login_row hmac secret now d1 u dev1]" "login_row hmac secret now d2 u dev2"]
    by (simp add: rows l)
  moreover have "live_ids u now rows \<subseteq> rt_familyId ` set rows" by (auto simp: live_ids_def)
  ultimately have "card (live_ids u now rows2) = 21"
    using assms(1,5,6) by (auto simp: card_insert_if)
  then show ?thesis
    using listLiveSessions_ids [of now u rows2] distinct_card [of "map ss_familyId (listLiveSessions now u rows2)"] by simp
qed

text \<open>
  \<open>updateMany\<close> of a statement that began when the table was \<open>seen\<close> and, after waiting for the lock of
  a row, goes on when it is \<open>rows\<close>: rows that were inserted in between are not among those it updates.
\<close>

definition revoke_seen ::
    "RefreshToken list \<Rightarrow> (RefreshToken \<Rightarrow> bool) \<Rightarrow> int \<Rightarrow> RefreshToken list \<Rightarrow> RefreshToken list" where
  "revoke_seen seen P now rows = revoke_where (\<lambda>r. P r \<and> rt_id r \<in> rt_id ` set seen) now rows"

lemma revoke_seen_all: "revoke_seen rows P now rows = revoke_where P now rows"
  by (auto simp: revoke_seen_def revoke_where_def revoke_one_def)

text \<open>
  Logging out of all sessions during a refresh leaves one. The refresh holds the lock of the token
  it exchanges and commits the successor; the revocation of all the user's tokens, begun before, waits
  for that lock, revokes the old token and never sees the new one: the session is still listed.
\<close>

theorem logout_during_refresh_misses_session:
  assumes "rotate_token hmac secret now d v dev rows = Inr (Rotated i u, evs, rows1)"
    and "rows2 = revoke_seen rows (\<lambda>s. rt_userId s = u) now rows1"
  shows "ir_familyId i \<in> ss_familyId ` set (listLiveSessions now u rows2)"
proof -
  from assms(1) obtain r where r: "r \<in> set rows" "rt_live now r" "i = rotated_issued now d r" "u = rt_userId r"
      "rows1 = rows @ [rotated_row hmac secret now d r dev]" "tokens_unique rows1"
    by (cases rule: rotate_cases) auto
  let ?n = "rotated_row hmac secret now d r dev"
  have "rt_id ?n \<notin> rt_id ` set rows" using fresh_id r(5,6) by blast
  then have "?n \<in> set rows2" by (auto simp: assms(2) r(5) revoke_seen_def revoke_where_def revoke_one_def)
  moreover have "rt_live now ?n" using r(2) by (simp add: rotated_row_def rt_live_def tokenExpiresAt_future)
  moreover have "rt_userId ?n = u" "rt_familyId ?n = ir_familyId i"
    by (simp_all add: rotated_row_def rotated_issued_def r(3,4))
  ultimately have "ir_familyId i \<in> live_ids u now rows2" unfolding mem_live_ids by blast
  then show ?thesis using listLiveSessions_ids by blast
qed

section \<open>A small history\<close>

definition demo_hmac :: "jstring \<Rightarrow> jstring \<Rightarrow> jstring" where "demo_hmac secret v = secret @ v"

definition draw :: "nat \<Rightarrow> nat list \<Rightarrow> Draw" where
  "draw n bytes = \<lparr>dw_bytes = bytes, dw_familyId = [n], dw_id = [100 + n], dw_createdAt = int n\<rparr>"

definition demo_login :: RefreshToken where
  "demo_login = login_row demo_hmac [7] 1 (draw 1 []) (js ''ann'') None"

definition demo_second :: RefreshToken where
  "demo_second = rotated_row demo_hmac [7] 2 (draw 2 [0]) demo_login None"

lemmas demo_session_rows = demo_login_def demo_second_def login_row_def rotated_row_def draw_def demo_hmac_def
  hashRefreshToken_def generateRefreshTokenValue_def tokenExpiresAt_def familyExpiresAt_def
  REFRESH_TOKEN_TTL_MS_def FAMILY_LIFETIME_CAP_MS_def b64_char_def

lemma demo_issue:
  "issueOnLogin demo_hmac [7] 1 (draw 1 []) (js ''ann'') None [] = Inr (login_issued 1 (draw 1 []), [demo_login])"
  by (simp add: issueOnLogin_def liveFamilies_def decideFamilyCap_def LIVE_FAMILY_CAP_def login_write_def evict_def
      create_token_def tokens_unique_def unique_by_def demo_login_def)

lemma demo_reach: "session_steps demo_hmac [7] (0, []) (1, [demo_login])"
  using session_step.login [OF _ _ demo_issue, of 0] by auto

lemma demo_refresh:
  "rotate_token demo_hmac [7] 2 (draw 2 [0]) [] None [demo_login] =
     Inr (Rotated (rotated_issued 2 (draw 2 [0]) demo_login) (js ''ann''), [], [demo_login, demo_second])"
proof -
  have "rt_tokenHash demo_login = hashRefreshToken demo_hmac [] [7]" by (simp add: demo_session_rows)
  moreover have "rotate_action 2 [demo_login] demo_login = ALLOW_ROTATE"
    by (simp add: action_rotates rt_live_def successor_of_def demo_session_rows)
  moreover have "tokens_unique [demo_login, demo_second]"
    by (simp add: tokens_unique_def unique_by_def demo_session_rows)
  ultimately show ?thesis
    by (simp add: rotate_token_def create_token_def demo_second_def) (simp add: demo_login_def login_row_def)
qed

lemma demo_reach2: "session_steps demo_hmac [7] (0, []) (2, [demo_login, demo_second])"
  using demo_reach session_step.refresh [OF _ demo_refresh, of 1] by (rule rtranclp.rtrancl_into_rtrancl) simp

lemma live_sessions_bounded_witness: "length (listLiveSessions 3 (js ''ann'') [demo_login, demo_second]) \<le> 20"
  using live_sessions_bounded [OF demo_reach2, of 3 "js ''ann''"] by simp

text \<open>After the exchange both tokens are stored, and at any time of its life only the second one is exchanged.\<close>

lemma demo_refresh2:
  assumes "2 \<le> now" and "now \<le> 1000" and "n > 2"
  shows "rotate_token demo_hmac [7] now (draw n [1]) (generateRefreshTokenValue [0]) None [demo_login, demo_second] =
     Inr (Rotated (rotated_issued now (draw n [1]) demo_second) (js ''ann''), [],
       [demo_login, demo_second, rotated_row demo_hmac [7] now (draw n [1]) demo_second None])"
proof -
  have h: "rt_tokenHash demo_second = hashRefreshToken demo_hmac (generateRefreshTokenValue [0]) [7]"
    "rt_tokenHash demo_login \<noteq> hashRefreshToken demo_hmac (generateRefreshTokenValue [0]) [7]"
    by (simp_all add: demo_session_rows)
  have "rotate_action now [demo_login, demo_second] demo_second = ALLOW_ROTATE"
    using assms by (simp add: action_rotates rt_live_def successor_of_def demo_session_rows)
  moreover have "tokens_unique [demo_login, demo_second, rotated_row demo_hmac [7] now (draw n [1]) demo_second None]"
    using assms by (simp add: tokens_unique_def unique_by_def demo_session_rows)
  ultimately show ?thesis
    using h by (simp add: rotate_token_def create_token_def) (simp add: demo_session_rows)
qed

lemma one_token_rotates_witness:
  "hashRefreshToken demo_hmac (generateRefreshTokenValue [0]) [7] =
     hashRefreshToken demo_hmac (generateRefreshTokenValue [0]) [7] \<and> js ''ann'' = js ''ann''"
proof -
  have same: "ir_familyId (rotated_issued 3 (draw 3 [1]) demo_second) = ir_familyId (rotated_issued 900 (draw 4 [1]) demo_second)"
    by (simp add: rotated_issued_def)
  show ?thesis
    by (rule one_token_rotates [OF demo_reach2 demo_refresh2 [of 3 3] demo_refresh2 [of 900 4] same]) simp_all
qed

lemma ended_session_stays_dead_witness:
  "[1] \<notin> ss_familyId ` set (listLiveSessions 4 (js ''ann'') (revokeAllForUser 3 (js ''ann'') [demo_login, demo_second]))"
proof -
  have "demo_login \<in> set [demo_login, demo_second]" "rt_familyId demo_login = [1]" "rt_userId demo_login = js ''ann''"
    by (simp_all add: demo_session_rows)
  moreover have "ends_session 3 (js ''ann'') [1] [demo_login, demo_second]
      (revokeAllForUser 3 (js ''ann'') [demo_login, demo_second])"
    by (simp add: ends_session_def)
  ultimately show ?thesis using ended_session_stays_dead [OF demo_reach2 _ _ _ _ rtranclp.rtrancl_refl] by blast
qed

text \<open>The token of the login is replayed after its exchange: the live token goes with it.\<close>

lemma replayed_token_burns_session_witness:
  "\<exists>rows1. rotate_token demo_hmac [7] 70000 (draw 3 [1]) [] None [demo_login, demo_second] =
     Inr (INVALID_REFRESH, [(Ev_auth_refresh_reuse_detected, reuse_payload demo_login None)], rows1) \<and>
   rows1 = [demo_login\<lparr>rt_revokedAt := Some 70000\<rparr>, demo_second\<lparr>rt_revokedAt := Some 70000\<rparr>] \<and>
   [1] \<notin> ss_familyId ` set (listLiveSessions 70001 (js ''ann'') rows1)"
proof -
  have "demo_login \<in> set [demo_login, demo_second]" "rt_tokenHash demo_login = hashRefreshToken demo_hmac [] [7]"
    "70000 < rt_familyExpiresAt demo_login"
    "rt_revokedAt demo_login \<noteq> None \<or> 70000 < rt_expiresAt demo_login \<and>
       (\<exists>s \<in> set [demo_login, demo_second]. rt_rotatedFrom s = Some (rt_id demo_login) \<and> rt_createdAt s + 60000 < 70000)"
    by (simp_all add: demo_session_rows)
  note burns = replayed_token_burns_session [OF demo_reach2 this, of "draw 3 [1]" None 70001 "js ''ann''"]
  from burns obtain rows1 where b: "rotate_token demo_hmac [7] 70000 (draw 3 [1]) [] None [demo_login, demo_second] =
      Inr (INVALID_REFRESH, [(Ev_auth_refresh_reuse_detected, reuse_payload demo_login None)], rows1)"
    "rows1 = map (\<lambda>s. if rt_familyId s = rt_familyId demo_login \<and> rt_revokedAt s = None
       then s\<lparr>rt_revokedAt := Some 70000\<rparr> else s) [demo_login, demo_second]"
    "rt_familyId demo_login \<notin> ss_familyId ` set (listLiveSessions 70001 (js ''ann'') rows1)" by blast
  have "rt_familyId demo_login = [1]" "rt_familyId demo_second = [1]" "rt_revokedAt demo_login = None" "rt_revokedAt demo_second = None"
    by (simp_all add: demo_session_rows)
  with b show ?thesis by simp
qed

lemma session_absolute_lifetime_witness:
  "(2::int) < 1 + 90 * 24 * 60 * 60 * 1000 \<and>
   ir_familyExpiresAt (rotated_issued 2 (draw 2 [0]) demo_login) = 1 + 90 * 24 * 60 * 60 * 1000 \<and>
   [1] \<notin> ss_familyId ` set (listLiveSessions (1 + 90 * 24 * 60 * 60 * 1000) (js ''ann'') [demo_login])"
proof -
  have "dw_familyId (draw 1 []) \<notin> rt_familyId ` set []" by simp
  note life = session_absolute_lifetime [OF this demo_issue rtranclp.rtrancl_refl]
  have f: "ir_familyId (login_issued 1 (draw 1 [])) = [1]" "ir_familyId (rotated_issued 2 (draw 2 [0]) demo_login) = [1]"
    by (simp_all add: rotated_issued_def login_issued_def demo_session_rows)
  from life have "[1] \<notin> ss_familyId ` set (listLiveSessions (1 + 90 * 24 * 60 * 60 * 1000) (js ''ann'') [demo_login])"
    unfolding f by blast
  moreover from life demo_refresh f have "(2::int) < 1 + 90 * 24 * 60 * 60 * 1000 \<and>
      ir_familyExpiresAt (rotated_issued 2 (draw 2 [0]) demo_login) = 1 + 90 * 24 * 60 * 60 * 1000" by metis
  ultimately show ?thesis by simp
qed

lemma refresh_continues_session_witness:
  "\<exists>rows1. rotate_token demo_hmac [7] 2 (draw 2 [0]) [] None [demo_login] =
     Inr (Rotated (rotated_issued 2 (draw 2 [0]) demo_login) (rt_userId demo_login), [], rows1)"
proof -
  have "demo_login \<in> set [demo_login]" "rt_tokenHash demo_login = hashRefreshToken demo_hmac [] [7]"
    "rt_live 2 demo_login" "successor_of [demo_login] demo_login = None"
    "tokens_unique ([demo_login] @ [rotated_row demo_hmac [7] 2 (draw 2 [0]) demo_login None])"
    "(3::int) < 2 + 60 * 24 * 60 * 60 * 1000" "3 < rt_familyExpiresAt demo_login"
    "tokens_unique ([demo_login] @ [rotated_row demo_hmac [7] 2 (draw 2 [0]) demo_login None] @
       [rotated_row demo_hmac [7] 3 (draw 3 [4]) (rotated_row demo_hmac [7] 2 (draw 2 [0]) demo_login None) None])"
    by (simp_all add: demo_session_rows rt_live_def successor_of_def tokens_unique_def unique_by_def)
  from refresh_continues_session [OF demo_reach this] show ?thesis by blast
qed

lemma logout_during_refresh_misses_session_witness:
  "ir_familyId (rotated_issued 2 (draw 2 [0]) demo_login) \<in>
     ss_familyId ` set (listLiveSessions 2 (js ''ann'')
       (revoke_seen [demo_login] (\<lambda>s. rt_userId s = js ''ann'') 2 [demo_login, demo_second]))"
  by (rule logout_during_refresh_misses_session [OF demo_refresh refl])

text \<open>A table with nineteen sessions of one user.\<close>

definition nineteen :: "RefreshToken list" where
  "nineteen = map (\<lambda>n. (login_row demo_hmac [7] 1 (draw n []) (js ''ann'') None)\<lparr>rt_tokenHash := [n]\<rparr>) [0..<19]"

lemma nineteen_rows:
  "map rt_familyId nineteen = map (\<lambda>n. [n]) [0..<19]" "map rt_id nineteen = map (\<lambda>n. [100 + n]) [0..<19]"
  "map rt_tokenHash nineteen = map (\<lambda>n. [n]) [0..<19]" "filter (\<lambda>r. \<exists>y. rt_rotatedFrom r = Some y) nineteen = []"
  by (simp_all add: nineteen_def comp_def login_row_def draw_def filter_empty_conv)

lemma nineteen_live: "live_ids (js ''ann'') 1 nineteen = (\<lambda>n. [n]) ` {0..<19}"
proof -
  have "{r \<in> set nineteen. rt_userId r = js ''ann'' \<and> rt_live 1 r} = set nineteen"
    by (auto simp: nineteen_def demo_session_rows rt_live_def)
  moreover have "rt_familyId ` set nineteen = (\<lambda>n. [n]) ` {0..<19}"
    using arg_cong [OF nineteen_rows(1), of set] by simp
  ultimately show ?thesis by (simp add: live_ids_def)
qed

lemma overlapping_logins_exceed_cap_witness:
  "length (listLiveSessions 1 (js ''ann'') (nineteen @ [login_row demo_hmac [7] 1 (draw 20 [0]) (js ''ann'') None,
      login_row demo_hmac [7] 1 (draw 21 [4]) (js ''ann'') None])) = 21"
proof -
  have c: "card (live_ids (js ''ann'') 1 nineteen) = 19" by (simp add: nineteen_live card_image inj_on_def)
  then have n: "decideFamilyCap (liveFamilies (js ''ann'') 1 nineteen) LIVE_FAMILY_CAP = Some None"
    by (simp add: decideFamilyCap_def length_liveFamilies LIVE_FAMILY_CAP_def)
  let ?n1 = "login_row demo_hmac [7] 1 (draw 20 [0]) (js ''ann'') None"
  let ?n2 = "login_row demo_hmac [7] 1 (draw 21 [4]) (js ''ann'') None"
  have d: "distinct (map (\<lambda>n. [k + n]) [0..<19])" for k :: nat by (simp add: distinct_map inj_on_def)
  have u: "tokens_unique (nineteen @ [?n1])" "tokens_unique (nineteen @ [?n1, ?n2])"
    using d [of 0] d [of 100]
    by (auto simp: tokens_unique_def unique_by_def nineteen_rows demo_session_rows)
  have w: "login_write demo_hmac [7] 1 (draw 20 [0]) (js ''ann'') None None nineteen = Inr (nineteen @ [?n1])"
    "login_write demo_hmac [7] 1 (draw 21 [4]) (js ''ann'') None None (nineteen @ [?n1]) = Inr (nineteen @ [?n1, ?n2])"
    using u by (simp_all add: login_write_def evict_def create_token_def)
  have f: "rt_familyId ` set nineteen = (\<lambda>n. [n]) ` {0..<19}"
    using arg_cong [OF nineteen_rows(1), of set] by simp
  show ?thesis
    by (rule overlapping_logins_exceed_cap [OF c n w]) (auto simp: f draw_def)
qed

end
