(* ===== verification/ClientIp.thy ===== *)
theory ClientIp
  imports Instants Credentials
begin

text \<open>
  \<open>apps/api/src/common/client-ip.ts\<close>: the bucket of the rate limits an address counts in. An IPv6
  address is its eight 16-bit groups, a natural number below 65536 each. \<open>toLowerCase\<close> differs from
  ASCII lower-casing only on characters that no accepted address has.
\<close>

section \<open>The parser\<close>

definition UNKNOWN_IP_BUCKET :: jstring where "UNKNOWN_IP_BUCKET = js ''unknown''"

definition IPV6_BUCKET_PREFIX_BITS :: nat where "IPV6_BUCKET_PREFIX_BITS = 64"

text \<open>\<open>25[0-5]|2[0-4]\d|1\d\d|[1-9]?\d\<close>.\<close>

fun is_octet :: "jstring \<Rightarrow> bool" where
  "is_octet [a] = is_digit a"
| "is_octet [a, b] = (49 \<le> a \<and> a \<le> 57 \<and> is_digit b)"
| "is_octet [a, b, c] =
     (a = 50 \<and> b = 53 \<and> 48 \<le> c \<and> c \<le> 53 \<or> a = 50 \<and> 48 \<le> b \<and> b \<le> 52 \<and> is_digit c \<or>
      a = 49 \<and> is_digit b \<and> is_digit c)"
| "is_octet _ = False"

definition IPV4_RE :: "jstring \<Rightarrow> bool" where
  "IPV4_RE s \<longleftrightarrow> length (split_on 46 s) = 4 \<and> list_all is_octet (split_on 46 s)"

definition HEXTET_RE :: "jstring \<Rightarrow> bool" where
  "HEXTET_RE s \<longleftrightarrow>
     s \<noteq> [] \<and> length s \<le> 4 \<and> list_all (\<lambda>c. is_digit c \<or> 97 \<le> c \<and> c \<le> 102) s"

definition port_digits :: "jstring \<Rightarrow> bool" where
  "port_digits s \<longleftrightarrow> s \<noteq> [] \<and> length s \<le> 5 \<and> list_all is_digit s"

text \<open>\<open>^\[([^\]]+)\](?::\d{1,5})?$\<close>, the captured text.\<close>

definition BRACKETED_RE :: "jstring \<Rightarrow> jstring option" where
  "BRACKETED_RE s =
     (case s of
        c # rest \<Rightarrow>
          (let inside = takeWhile (\<lambda>x. x \<noteq> 93) rest; after = drop (length inside) rest
           in if c = 91 \<and> inside \<noteq> [] \<and> after \<noteq> [] \<and>
                 (tl after = [] \<or> hd (tl after) = 58 \<and> port_digits (tl (tl after)))
              then Some inside else None)
      | [] \<Rightarrow> None)"

text \<open>\<open>^(\d{1,3}(?:\.\d{1,3}){3}):\d{1,5}$\<close>, the captured text.\<close>

definition IPV4_WITH_PORT_RE :: "jstring \<Rightarrow> jstring option" where
  "IPV4_WITH_PORT_RE s =
     (case split_on 58 s of
        [quad, port] \<Rightarrow>
          if length (split_on 46 quad) = 4 \<and>
             list_all (\<lambda>p. p \<noteq> [] \<and> length p \<le> 3 \<and> list_all is_digit p) (split_on 46 quad) \<and> port_digits port
          then Some quad else None
      | _ \<Rightarrow> None)"

definition stripEnvelope :: "jstring \<Rightarrow> jstring" where
  "stripEnvelope v =
     (let address = (case BRACKETED_RE v of
                       Some inside \<Rightarrow> inside
                     | None \<Rightarrow> (case IPV4_WITH_PORT_RE v of Some quad \<Rightarrow> quad | None \<Rightarrow> v))
      in takeWhile (\<lambda>c. c \<noteq> 37) address)"

text \<open>\<open>indexOf("::")\<close>.\<close>

fun double_colon :: "jstring \<Rightarrow> nat option" where
  "double_colon (a # b # s) =
     (if a = 58 \<and> b = 58 then Some 0 else map_option Suc (double_colon (b # s)))"
| "double_colon _ = None"

text \<open>The loop over the parts; \<open>None\<close> is the early return of \<open>null\<close>.\<close>

fun groups_loop :: "bool \<Rightarrow> jstring list \<Rightarrow> nat list option" where
  "groups_loop allowIpv4Tail [] = Some []"
| "groups_loop allowIpv4Tail (part # parts) =
     (if 46 \<in> set part
      then (if parts \<noteq> [] \<or> \<not> allowIpv4Tail \<or> \<not> IPV4_RE part then None
            else (case map dec_value (split_on 46 part) of
                    [a, b, c, d] \<Rightarrow> Some [a * 256 + b, c * 256 + d]
                  | _ \<Rightarrow> None))
      else if \<not> HEXTET_RE part then None
      else map_option ((#) (hex_value part)) (groups_loop allowIpv4Tail parts))"

definition toGroups :: "jstring list \<Rightarrow> bool \<Rightarrow> nat list option" where
  "toGroups parts allowIpv4Tail =
     (case groups_loop allowIpv4Tail parts of
        None \<Rightarrow> None
      | Some groups \<Rightarrow> if length groups > 8 then None else Some groups)"

definition parts_of :: "jstring \<Rightarrow> jstring list" where
  "parts_of s = (if s = [] then [] else split_on 58 s)"

definition parseIpv6 :: "jstring \<Rightarrow> nat list option" where
  "parseIpv6 input =
     (if 58 \<notin> set input then None
      else case double_colon input of
             None \<Rightarrow>
               (case toGroups (parts_of input) True of
                  Some groups \<Rightarrow> if length groups = 8 then Some groups else None
                | None \<Rightarrow> None)
           | Some i \<Rightarrow>
               if double_colon (drop (Suc i) input) \<noteq> None then None
               else (case (toGroups (parts_of (take i input)) False, toGroups (parts_of (drop (i + 2) input)) True) of
                       (Some headGroups, Some tailGroups) \<Rightarrow>
                         (if length headGroups + length tailGroups \<ge> 8 then None
                          else Some (headGroups @ replicate (8 - length headGroups - length tailGroups) 0 @ tailGroups))
                     | _ \<Rightarrow> None))"

section \<open>The printer\<close>

text \<open>The loop for the longest run of zeros: \<open>(bestStart, bestLength)\<close> and \<open>(runStart, runLength)\<close>.\<close>

fun best_run :: "nat list \<Rightarrow> nat \<Rightarrow> nat \<times> nat \<Rightarrow> (nat \<times> nat) option \<Rightarrow> nat \<times> nat" where
  "best_run [] i best run = best"
| "best_run (g # gs) i best run =
     (if g \<noteq> 0 then best_run gs (Suc i) best None
      else (let (runStart, runLength) = (case run of None \<Rightarrow> (i, 1) | Some (s, l) \<Rightarrow> (s, Suc l))
            in best_run gs (Suc i) (if runLength > snd best then (runStart, runLength) else best)
                 (Some (runStart, runLength))))"

definition formatIpv6 :: "nat list \<Rightarrow> jstring" where
  "formatIpv6 groups =
     (let (bestStart, bestLength) = best_run groups 0 (0, 0) None;
          hextets = map hex_digits groups
      in if bestLength < 2 then join_with 58 hextets
         else join_with 58 (take bestStart hextets) @ [58, 58] @ join_with 58 (drop (bestStart + bestLength) hextets))"

definition ipv4MappedDottedQuad :: "nat list \<Rightarrow> jstring option" where
  "ipv4MappedDottedQuad groups =
     (if take 6 groups = [0, 0, 0, 0, 0, 65535]
      then (let high = groups ! 6; low = groups ! 7
            in Some (join_with 46 (map dec_digits [high div 256, high mod 256, low div 256, low mod 256])))
      else None)"

section \<open>The bucket\<close>

definition clientIpKey :: "jstring option \<Rightarrow> jstring" where
  "clientIpKey rawIp =
     (let trimmed = (case rawIp of Some s \<Rightarrow> trim s | None \<Rightarrow> [])
      in if trimmed = [] then UNKNOWN_IP_BUCKET
         else (let address = stripEnvelope trimmed
               in if IPV4_RE address then address
                  else case parseIpv6 (ascii_lower address) of
                         None \<Rightarrow> UNKNOWN_IP_BUCKET
                       | Some groups \<Rightarrow>
                           (case ipv4MappedDottedQuad groups of
                              Some quad \<Rightarrow> quad
                            | None \<Rightarrow>
                                formatIpv6 (take 4 groups @ [0, 0, 0, 0]) @ 47 # dec_digits IPV6_BUCKET_PREFIX_BITS)))"

section \<open>Reading a printed address back\<close>

lemma best_run_zero:
  assumes "best_run gs i best run = (s, l)"
    and "all = pre @ gs" and "i = length pre"
    and "snd best > 0 \<Longrightarrow> fst best + snd best \<le> i \<and> (\<forall>k. fst best \<le> k \<and> k < fst best + snd best \<longrightarrow> all ! k = 0)"
    and "\<And>a b. run = Some (a, b) \<Longrightarrow> a + b = i \<and> 0 < b \<and> (\<forall>k. a \<le> k \<and> k < i \<longrightarrow> all ! k = 0)"
    and "l > 0"
  shows "s + l \<le> length all \<and> (\<forall>k. s \<le> k \<and> k < s + l \<longrightarrow> all ! k = 0)"
  using assms
proof (induction gs i best run arbitrary: pre rule: best_run.induct)
  case (1 i best run)
  then show ?case by auto
next
  case (2 g gs i best run)
  have all: "all = (pre @ [g]) @ gs" using "2.prems"(2) by simp
  have len: "Suc i = length (pre @ [g])" using "2.prems"(3) by simp
  have nth: "all ! i = g" using "2.prems"(2,3) by simp
  show ?case
  proof (cases "g = 0")
    case False
    with "2.prems"(1) have r: "best_run gs (Suc i) best None = (s, l)" by simp
    show ?thesis
      by (rule "2.IH"(1) [OF False r all len]) (use "2.prems"(4,6) in auto)
  next
    case True
    obtain a b where ab: "(case run of None \<Rightarrow> (i, 1) | Some (s, l) \<Rightarrow> (s, Suc l)) = (a, b)" by fastforce
    with True "2.prems"(1) have r: "best_run gs (Suc i) (if b > snd best then (a, b) else best) (Some (a, b)) = (s, l)"
      by simp
    have run: "a + b = Suc i \<and> 0 < b \<and> (\<forall>k. a \<le> k \<and> k < Suc i \<longrightarrow> all ! k = 0)"
    proof (cases run)
      case None
      with ab nth True show ?thesis by (auto simp: le_less_Suc_eq)
    next
      case (Some r)
      with ab obtain b' where r: "run = Some (a, b')" "b = Suc b'" by (cases r) auto
      from "2.prems"(5) [OF r(1)] r(2) nth True show ?thesis by (auto simp: less_Suc_eq)
    qed
    show ?thesis
      by (rule "2.IH"(2) [OF _ ab [symmetric] refl r all len]) (use True run "2.prems"(4,6) in \<open>auto split: if_splits\<close>)
  qed
qed

lemma hex_chars: "c \<in> set (hex_digits n) \<Longrightarrow> is_digit c \<or> 97 \<le> c \<and> c \<le> 102"
proof (induction n rule: hex_digits.induct)
  case (1 n)
  have "hex_digit d \<ge> 48 \<and> (hex_digit d \<le> 57 \<or> 97 \<le> hex_digit d) \<and> hex_digit d \<le> 102" if "d < 16" for d
    using that by (simp add: hex_digit_def)
  from this [of "n mod 16"] this [of n] 1 show ?case
    by (cases "n < 16") (auto simp: hex_digits.simps [of n] is_digit_def)
qed

lemma hex_length: "n < 16 ^ Suc k \<Longrightarrow> length (hex_digits n) \<le> Suc k"
proof (induction k arbitrary: n)
  case 0
  then show ?case by (subst hex_digits.simps) simp
next
  case (Suc k)
  then have "n div 16 < 16 ^ Suc k" by (simp add: div_less_iff_less_mult mult.commute)
  with Suc.IH show ?case by (subst hex_digits.simps) (simp add: le_SucI)
qed

definition group :: "nat \<Rightarrow> bool" where "group g \<longleftrightarrow> g < 65536"

definition plain :: "jstring \<Rightarrow> bool" where "plain p \<longleftrightarrow> p \<noteq> [] \<and> 58 \<notin> set p"

lemma hextet: "group g \<Longrightarrow> HEXTET_RE (hex_digits g)"
  using hex_length [of g 3] hex_chars [of _ g] by (auto simp: HEXTET_RE_def group_def list_all_iff)

lemma hextet_plain: "plain (hex_digits g)" "46 \<notin> set (hex_digits g)"
  using hex_chars [of 58 g] hex_chars [of 46 g] by (auto simp: plain_def is_digit_def)

lemma loop_hextets: "list_all group gs \<Longrightarrow> groups_loop b (map hex_digits gs) = Some gs"
  by (induction gs) (simp_all add: hextet hextet_plain)

lemma toGroups_hextets: "list_all group gs \<Longrightarrow> length gs \<le> 8 \<Longrightarrow> toGroups (map hex_digits gs) b = Some gs"
  by (simp add: toGroups_def loop_hextets)

lemma parts_of_join: "list_all plain ps \<Longrightarrow> parts_of (join_with 58 ps) = ps"
proof (induction ps rule: induct_list012)
  case (3 p q ps)
  then have "split_on 58 (join_with 58 (q # ps)) = q # ps" by (auto simp: parts_of_def split: if_splits)
  with 3 show ?case by (simp add: parts_of_def split_on_append plain_def)
qed (auto simp: parts_of_def plain_def split_on_absent)

lemma double_colon_skip: "58 \<notin> set p \<Longrightarrow> double_colon (p @ s) = map_option (\<lambda>i. length p + i) (double_colon s)"
proof (induction p)
  case Nil
  then show ?case by (cases "double_colon s") simp_all
next
  case (Cons c p)
  then show ?case by (cases "p @ s") (simp_all add: option.map_comp comp_def)
qed

lemma double_colon_once: "plain p \<Longrightarrow> double_colon (58 # p @ s) = None \<longleftrightarrow> double_colon s = None"
  using double_colon_skip [of p s] by (cases p) (auto simp: plain_def)

lemma no_double_colon:
  assumes "list_all plain ps"
  shows "double_colon (58 # join_with 58 ps) = None" and "ps \<noteq> [] \<Longrightarrow> double_colon (join_with 58 ps @ [58]) = None"
    and "double_colon (join_with 58 ps) = None"
proof -
  have a: "double_colon (58 # join_with 58 ps @ e) = None" if "e = [] \<or> e = [58] \<and> ps \<noteq> []" for e
    using assms that
  proof (induction ps rule: induct_list012)
    case (2 p)
    then show ?case by (auto simp: double_colon_once)
  next
    case (3 p q ps)
    then show ?case by (auto simp: double_colon_once)
  qed auto
  from a [of "[]"] show one: "double_colon (58 # join_with 58 ps) = None" by simp
  have drop: "double_colon (58 # s) = None \<Longrightarrow> double_colon s = None" for s by (cases s) (auto split: if_splits)
  from drop [OF one] show "double_colon (join_with 58 ps) = None" .
  show "double_colon (join_with 58 ps @ [58]) = None" if "ps \<noteq> []" using drop [OF a [of "[58]"]] that by simp
qed

lemma double_colon_at: "double_colon (s @ [58]) = None \<or> s = [] \<Longrightarrow> double_colon (s @ 58 # 58 # t) = Some (length s)"
proof (induction s)
  case (Cons c s)
  show ?case
  proof (cases s)
    case Nil
    with Cons show ?thesis by auto
  next
    case (Cons d s')
    with Cons.prems have "double_colon (s @ [58]) = None" "\<not> (c = 58 \<and> d = 58)" by (auto split: if_splits)
    with Cons.IH Cons show ?thesis by auto
  qed
qed simp

lemma format_parse:
  assumes "length groups = 8" and "list_all (\<lambda>g. g < 65536) groups"
  shows "parseIpv6 (formatIpv6 groups) = Some groups"
proof -
  have g: "list_all group groups" using assms(2) by (simp add: list_all_iff group_def)
  obtain b l where bl: "best_run groups 0 (0, 0) None = (b, l)" by fastforce
  have plain: "list_all plain (map hex_digits gs)" for gs by (simp add: list_all_iff hextet_plain)
  show ?thesis
  proof (cases "l < 2")
    case True
    let ?t = "join_with 58 (map hex_digits groups)"
    obtain x y gs where "groups = x # y # gs" using assms(1) by (auto simp: numeral_eq_Suc length_Suc_conv)
    then have "58 \<in> set ?t" by simp
    with True bl no_double_colon(3) [OF plain] show ?thesis
      by (simp add: formatIpv6_def parseIpv6_def parts_of_join [OF plain] toGroups_hextets g assms(1))
  next
    case False
    from best_run_zero [OF bl refl, of "[]"] False
    have z: "b + l \<le> 8" "\<And>k. b \<le> k \<Longrightarrow> k < b + l \<Longrightarrow> groups ! k = 0" by (auto simp: assms(1))
    let ?h = "take b groups" and ?t = "drop (b + l) groups"
    let ?x = "join_with 58 (map hex_digits ?h)" and ?y = "join_with 58 (map hex_digits ?t)"
    have printed: "formatIpv6 groups = ?x @ 58 # 58 # ?y"
      using False bl by (simp add: formatIpv6_def take_map drop_map)
    have pos: "double_colon (?x @ 58 # 58 # ?y) = Some (length ?x)"
      by (rule double_colon_at) (use no_double_colon(2) [OF plain [of ?h]] in \<open>cases "?h = []"; auto\<close>)
    have once: "double_colon (58 # ?y) = None" by (rule no_double_colon(1) [OF plain])
    have "list_all group ?h" "list_all group ?t" using g by (auto simp: list_all_iff dest: in_set_takeD in_set_dropD)
    then have gr: "toGroups (map hex_digits ?h) c = Some ?h" "toGroups (map hex_digits ?t) c = Some ?t" for c
      using assms(1) by (auto intro!: toGroups_hextets)
    have "take l (drop b groups) = replicate l 0"
      by (rule nth_equalityI) (use z assms(1) in auto)
    then have "groups = ?h @ replicate l 0 @ ?t"
      by (metis append_take_drop_id drop_drop add.commute)
    moreover have "8 - length ?h - length ?t = l" "length ?h + length ?t < 8" using z(1) False assms(1) by auto
    ultimately show ?thesis
      unfolding printed
      by (simp add: parseIpv6_def pos once parts_of_join [OF plain] gr)
  qed
qed

text \<open>
  The printed form of an IPv6 address reads back as the address: eight groups, written in
  lower-case hexadecimal without leading zeros and with the longest run of zero groups as a double
  colon, are parsed to the same eight groups.
\<close>

theorem ipv6_text_roundtrip:
  assumes "length groups = 8" and "list_all (\<lambda>g. g < 65536) groups"
  shows "parseIpv6 (formatIpv6 groups) = Some groups"
  by (rule format_parse [OF assms])

lemma ipv6_text_roundtrip_witness: "parseIpv6 (formatIpv6 [8193, 3512, 0, 0, 5, 0, 0, 1]) = Some [8193, 3512, 0, 0, 5, 0, 0, 1]"
  by (rule ipv6_text_roundtrip) simp_all

section \<open>Buckets\<close>

text \<open>The groups of the address a text stands for, and whether it is an IPv4 address in disguise.\<close>

definition ip_groups :: "jstring \<Rightarrow> nat list option" where
  "ip_groups s = parseIpv6 (ascii_lower (stripEnvelope (trim s)))"

definition mapped :: "nat list \<Rightarrow> bool" where
  "mapped g \<longleftrightarrow> take 6 g = [0, 0, 0, 0, 0, 65535]"

lemma foldl_hex_bound: "foldl (\<lambda>v c. 16 * v + hex_digit_value c) v s < (v + 1) * 16 ^ length s"
  if "list_all (\<lambda>c. is_digit c \<or> 97 \<le> c \<and> c \<le> 102) s" for v
  using that
proof (induction s arbitrary: v)
  case (Cons c s)
  then have "hex_digit_value c \<le> 15" by (auto simp: hex_digit_value_def is_digit_def)
  then have "(16 * v + hex_digit_value c + 1) * 16 ^ length s \<le> (16 * (v + 1)) * 16 ^ length s"
    by (intro mult_right_mono) simp_all
  also have "\<dots> = (v + 1) * 16 ^ length (c # s)" by (simp add: algebra_simps)
  finally show ?case using Cons.IH [of "16 * v + hex_digit_value c"] Cons.prems by simp
qed simp

lemma hextet_value: "HEXTET_RE p \<Longrightarrow> hex_value p < 65536"
proof -
  assume h: "HEXTET_RE p"
  then have "hex_value p < 16 ^ length p" using foldl_hex_bound [of p 0] by (simp add: HEXTET_RE_def hex_value_def)
  also have "(16::nat) ^ length p \<le> 16 ^ 4" using h by (intro power_increasing) (auto simp: HEXTET_RE_def)
  finally show ?thesis by simp
qed

lemma octet_value: "is_octet p \<Longrightarrow> dec_value p < 256"
  by (induction p rule: is_octet.induct) (auto simp: dec_value_def is_digit_def)

lemma loop_groups: "groups_loop b ps = Some gs \<Longrightarrow> list_all group gs"
proof (induction b ps arbitrary: gs rule: groups_loop.induct)
  case (2 b part parts)
  show ?case
  proof (cases "46 \<in> set part")
    case True
    with 2 have r: "IPV4_RE part" by (auto split: if_splits)
    then obtain w x y z where q: "split_on 46 part = [w, x, y, z]"
      by (auto simp: IPV4_RE_def numeral_eq_Suc length_Suc_conv)
    with r have "dec_value w < 256" "dec_value x < 256" "dec_value y < 256" "dec_value z < 256"
      by (simp_all add: IPV4_RE_def octet_value)
    with True 2(2) q show ?thesis by (auto simp: group_def split: if_splits)
  next
    case False
    with 2 show ?thesis by (auto simp: group_def hextet_value split: if_splits)
  qed
qed simp

lemma parsed_groups:
  assumes "parseIpv6 s = Some g"
  shows "length g = 8 \<and> list_all group g"
proof -
  have t: "toGroups ps b = Some gs \<Longrightarrow> list_all group gs" for ps b gs
    by (auto simp: toGroups_def dest: loop_groups split: option.splits if_splits)
  have "list_all group (replicate n 0)" for n by (simp add: list_all_iff group_def)
  then show ?thesis
    using assms by (auto simp: parseIpv6_def dest!: t split: if_splits option.splits)
qed

lemma lower_colon: "58 \<in> set (ascii_lower s) \<longleftrightarrow> 58 \<in> set s"
proof -
  have "(58 = (if 65 \<le> c \<and> c \<le> 90 then c + 32 else c)) = (58 = c)" for c :: nat by auto
  then show ?thesis by (simp add: ascii_lower_def image_iff)
qed

lemma octet_no_colon: "is_octet p \<Longrightarrow> 58 \<notin> set p"
  by (induction p rule: is_octet.induct) (auto simp: is_digit_def)

lemma ipv4_no_colon: "IPV4_RE s \<Longrightarrow> 58 \<notin> set s"
proof
  assume r: "IPV4_RE s" and c: "58 \<in> set s"
  have "set (join_with 46 ps) \<subseteq> insert 46 (\<Union> (set ` set ps))" for ps
    by (induction "46 :: nat" ps rule: join_with.induct) auto
  from this [of "split_on 46 s"] c obtain p where "p \<in> set (split_on 46 s)" "58 \<in> set p" by auto
  with r show False by (auto simp: IPV4_RE_def list_all_iff dest: octet_no_colon)
qed

lemma bucket_of_groups:
  assumes "ip_groups s = Some g" and "\<not> mapped g"
  shows "clientIpKey (Some s) = formatIpv6 (take 4 g @ [0, 0, 0, 0]) @ 47 # dec_digits IPV6_BUCKET_PREFIX_BITS"
proof -
  have c: "58 \<in> set (stripEnvelope (trim s))"
    using assms(1) by (auto simp: ip_groups_def parseIpv6_def lower_colon split: if_splits)
  then have "trim s \<noteq> []" by (auto simp: stripEnvelope_def BRACKETED_RE_def IPV4_WITH_PORT_RE_def)
  moreover have "\<not> IPV4_RE (stripEnvelope (trim s))" using ipv4_no_colon c by blast
  moreover have "ipv4MappedDottedQuad g = None" using assms(2) by (simp add: mapped_def ipv4MappedDottedQuad_def)
  ultimately show ?thesis using assms(1) by (simp add: clientIpKey_def ip_groups_def)
qed

text \<open>
  One bucket for one subscriber. Two texts of IPv6 addresses, however written, with brackets, port
  or zone or without, count in the same bucket exactly when the addresses agree in their first 64 bits:
  changing the lower half of the address never gives a fresh bucket, and no two networks share one.
\<close>

theorem one_bucket_per_subscriber:
  assumes "ip_groups a = Some g" and "ip_groups b = Some h" and "\<not> mapped g" and "\<not> mapped h"
  shows "clientIpKey (Some a) = clientIpKey (Some b) \<longleftrightarrow> take 4 g = take 4 h"
proof -
  have p: "parseIpv6 (formatIpv6 (take 4 x @ [0, 0, 0, 0])) = Some (take 4 x @ [0, 0, 0, 0])"
    if "ip_groups s = Some x" for s x
    using parsed_groups [OF that [unfolded ip_groups_def]]
    by (intro format_parse) (auto simp: list_all_iff group_def dest: in_set_takeD)
  have "formatIpv6 (take 4 g @ [0, 0, 0, 0]) = formatIpv6 (take 4 h @ [0, 0, 0, 0]) \<longleftrightarrow> take 4 g = take 4 h"
    using p [OF assms(1)] p [OF assms(2)] by (metis append_same_eq option.inject)
  then show ?thesis by (simp add: bucket_of_groups assms)
qed

text \<open>Two spellings of one address, and an address of the same network.\<close>

lemma one_bucket_per_subscriber_witness:
  "clientIpKey (Some (js ''[2001:DB8::9]:443'')) = clientIpKey (Some (js ''2001:db8:0:0:5::1%eth0''))"
proof -
  have "ip_groups (js ''[2001:DB8::9]:443'') = Some [8193, 3512, 0, 0, 0, 0, 0, 9]"
    and "ip_groups (js ''2001:db8:0:0:5::1%eth0'') = Some [8193, 3512, 0, 0, 5, 0, 0, 1]"
    by (simp_all add: ip_groups_def trim_def is_space_def js_def stripEnvelope_def BRACKETED_RE_def port_digits_def
        is_digit_def IPV4_WITH_PORT_RE_def ascii_lower_def parseIpv6_def parts_of_def toGroups_def HEXTET_RE_def
        hex_value_def hex_digit_value_def) (simp_all add: eval_nat_numeral)
  from one_bucket_per_subscriber [OF this] show ?thesis by (simp add: mapped_def)
qed

end
