(* ===== verification/Throttle.thy ===== *)
theory Throttle
  imports ClientIp Cursor AccessGate
begin

text \<open>
  The limits on how often something may be tried: \<open>apps/api/src/auth/throttle.service.ts\<close> with the
  constants of \<open>auth.constants.ts\<close>, \<open>common/org-rate-limit.guard.ts\<close> with the rules of
  \<open>packages/config/src/org-policy.ts\<close>. Redis is a service: its commands are an argument, and what the
  code relies on of them is \<open>redis_ok\<close>. A command that answers \<open>None\<close> failed (the promise was
  rejected); nothing is known of the store then. The commands of one call take place at one time.
\<close>

section \<open>The store\<close>

text \<open>Times in milliseconds; \<open>EXPIRE\<close> and \<open>TTL\<close> speak of seconds.\<close>

record 's Redis =
  rd_incr :: "int \<Rightarrow> jstring \<Rightarrow> 's \<Rightarrow> 's \<times> nat option"
  rd_expire :: "int \<Rightarrow> jstring \<Rightarrow> nat \<Rightarrow> 's \<Rightarrow> 's \<times> unit option"
  rd_ttl :: "int \<Rightarrow> jstring \<Rightarrow> 's \<Rightarrow> 's \<times> int option"
  rd_get :: "int \<Rightarrow> jstring \<Rightarrow> 's \<Rightarrow> 's \<times> jstring option option"
  rd_del :: "int \<Rightarrow> jstring \<Rightarrow> 's \<Rightarrow> 's \<times> unit option"

text \<open>The content of a key: a count with the time it expires, if it does.\<close>

type_synonym cell = "(nat \<times> int option) option"

definition seen :: "int \<Rightarrow> cell \<Rightarrow> cell" where
  "seen t x =
     (case x of
        Some (c, Some d) \<Rightarrow> if t < d then x else None
      | _ \<Rightarrow> x)"

definition bumped :: "cell \<Rightarrow> nat \<times> int option" where
  "bumped x = (case x of None \<Rightarrow> (1, None) | Some (c, e) \<Rightarrow> (Suc c, e))"

text \<open>The documented behaviour of the commands, with \<open>cell s\<close> the content of the store \<open>s\<close>.\<close>

definition redis_ok :: "'s Redis \<Rightarrow> ('s \<Rightarrow> jstring \<Rightarrow> cell) \<Rightarrow> bool" where
  "redis_ok R cell \<longleftrightarrow>
     (\<forall>t k s s' n. rd_incr R t k s = (s', Some n) \<longrightarrow>
        cell s' = (cell s)(k := Some (bumped (seen t (cell s k)))) \<and> n = fst (bumped (seen t (cell s k)))) \<and>
     (\<forall>t k w s s'. rd_expire R t k w s = (s', Some ()) \<longrightarrow>
        cell s' = (cell s)(k := map_option (\<lambda>(c, e). (c, Some (t + 1000 * int w))) (seen t (cell s k)))) \<and>
     (\<forall>t k s s' r. rd_ttl R t k s = (s', Some r) \<longrightarrow> cell s' = cell s \<and>
        (case seen t (cell s k) of
           None \<Rightarrow> r = -2 | Some (c, None) \<Rightarrow> r = -1
         | Some (c, Some d) \<Rightarrow> 0 \<le> r \<and> \<bar>1000 * r - (d - t)\<bar> \<le> 1000)) \<and>
     (\<forall>t k s s' v. rd_get R t k s = (s', Some v) \<longrightarrow>
        cell s' = cell s \<and> v = map_option (\<lambda>(c, e). dec_digits c) (seen t (cell s k))) \<and>
     (\<forall>t k s s'. rd_del R t k s = (s', Some ()) \<longrightarrow> cell s' = (cell s)(k := None))"

text \<open>The service answers every command.\<close>

definition redis_up :: "'s Redis \<Rightarrow> bool" where
  "redis_up R \<longleftrightarrow>
     (\<forall>t k s. snd (rd_incr R t k s) \<noteq> None) \<and> (\<forall>t k w s. snd (rd_expire R t k w s) \<noteq> None) \<and>
     (\<forall>t k s. snd (rd_ttl R t k s) \<noteq> None) \<and> (\<forall>t k s. snd (rd_get R t k s) \<noteq> None) \<and>
     (\<forall>t k s. snd (rd_del R t k s) \<noteq> None)"

section \<open>The constants\<close>

definition THROTTLE_IP_PREFIX :: jstring where "THROTTLE_IP_PREFIX = js ''throttle:ip:''"
definition THROTTLE_ACCT_PREFIX :: jstring where "THROTTLE_ACCT_PREFIX = js ''throttle:acct:''"
definition IP_WINDOW_MAX :: nat where "IP_WINDOW_MAX = 20"
definition IP_WINDOW_SECONDS :: nat where "IP_WINDOW_SECONDS = 5 * 60"
definition ACCT_COUNTER_TTL_SECONDS :: nat where "ACCT_COUNTER_TTL_SECONDS = 15 * 60"
definition DEGRADED_IP_MAX :: nat where "DEGRADED_IP_MAX = 20"
definition DEGRADED_IP_WINDOW_MS :: int where "DEGRADED_IP_WINDOW_MS = 5 * 60 * 1000"

section \<open>The throttle of sign-up, login and refresh\<close>

record DegradedBucket =
  db_count :: nat
  db_windowStart :: int

text \<open>The service's state: the store, and the limiter of this process for the time the store is away.\<close>

record 's Throttle =
  th_redis :: 's
  th_degraded :: "jstring \<rightharpoonup> DegradedBucket"

type_synonym Emitted = "(SecurityEventType \<times> payload) list"

text \<open>\<open>Math.ceil(remainingMs / 1000) || 1\<close>.\<close>

definition seconds_up :: "int \<Rightarrow> int" where
  "seconds_up ms = (let s = - ((- ms) div 1000) in if s = 0 then 1 else s)"

definition failOpenIp ::
    "jstring \<Rightarrow> jstring \<Rightarrow> int \<Rightarrow> 's Throttle \<Rightarrow> int \<times> Emitted \<times> 's Throttle" where
  "failOpenIp ip ipBucket nowMs th =
     (let event = (Ev_auth_throttle_fail_open, [(js ''ip'', JStr ip)]);
          fresh = th\<lparr>th_degraded := (th_degraded th)(ipBucket \<mapsto> \<lparr>db_count = 1, db_windowStart = nowMs\<rparr>)\<rparr>
      in case th_degraded th ipBucket of
           None \<Rightarrow> (0, [event], fresh)
         | Some bucket \<Rightarrow>
             if nowMs - db_windowStart bucket > DEGRADED_IP_WINDOW_MS then (0, [event], fresh)
             else (let bucket' = bucket\<lparr>db_count := Suc (db_count bucket)\<rparr>;
                       th' = th\<lparr>th_degraded := (th_degraded th)(ipBucket \<mapsto> bucket')\<rparr>
                   in if db_count bucket' > DEGRADED_IP_MAX
                      then (let remainingMs = max (DEGRADED_IP_WINDOW_MS - (nowMs - db_windowStart bucket)) 0
                            in (seconds_up remainingMs, [event], th'))
                      else (0, [event], th')))"

text \<open>
  \<open>INCR\<close>, on the first hit \<open>EXPIRE\<close>, past the limit \<open>TTL\<close>: the commands both limiters send. The
  answer is \<open>None\<close> when one failed, else the count and the time to live, read only past the limit.
\<close>

definition hit :: "'s Redis \<Rightarrow> int \<Rightarrow> jstring \<Rightarrow> nat \<Rightarrow> nat \<Rightarrow> 's \<Rightarrow> 's \<times> (nat \<times> int) option" where
  "hit R t key limit windowSec s =
     (case rd_incr R t key s of
        (s1, None) \<Rightarrow> (s1, None)
      | (s1, Some count) \<Rightarrow>
          (case (if count = 1 then rd_expire R t key windowSec s1 else (s1, Some ())) of
             (s2, None) \<Rightarrow> (s2, None)
           | (s2, Some _) \<Rightarrow>
               if count > limit
               then (case rd_ttl R t key s2 of
                       (s3, None) \<Rightarrow> (s3, None)
                     | (s3, Some ttl) \<Rightarrow> (s3, Some (count, ttl)))
               else (s2, Some (count, 0))))"

definition checkIp ::
    "'s Redis \<Rightarrow> int \<Rightarrow> int \<Rightarrow> jstring \<Rightarrow> 's Throttle \<Rightarrow> int \<times> Emitted \<times> 's Throttle" where
  "checkIp R t nowMs ip th =
     (let bucket = clientIpKey (Some ip)
      in case hit R t (THROTTLE_IP_PREFIX @ bucket) IP_WINDOW_MAX IP_WINDOW_SECONDS (th_redis th) of
           (s, None) \<Rightarrow> failOpenIp ip bucket nowMs (th\<lparr>th_redis := s\<rparr>)
         | (s, Some (count, ttl)) \<Rightarrow>
             (if count > IP_WINDOW_MAX then (if ttl > 0 then ttl else int IP_WINDOW_SECONDS) else 0,
              [], th\<lparr>th_redis := s\<rparr>))"

text \<open>A \<open>RangeError\<close> of the curve is caught with the failures of the store.\<close>

definition accountRetryAfter :: "'s Redis \<Rightarrow> int \<Rightarrow> jstring \<Rightarrow> 's \<Rightarrow> nat \<times> 's" where
  "accountRetryAfter R t acctKey s =
     (case rd_get R t (THROTTLE_ACCT_PREFIX @ acctKey) s of
        (s', None) \<Rightarrow> (0, s')
      | (s', Some raw) \<Rightarrow>
          (let failures = (case not_empty raw of Some v \<Rightarrow> to_number (JStr v) | None \<Rightarrow> Fin 0)
           in (case backoffSeconds failures of Inr n \<Rightarrow> n | Inl _ \<Rightarrow> 0, s')))"

definition recordAccountFailure :: "'s Redis \<Rightarrow> int \<Rightarrow> jstring \<Rightarrow> 's \<Rightarrow> nat \<times> 's" where
  "recordAccountFailure R t acctKey s =
     (case rd_incr R t (THROTTLE_ACCT_PREFIX @ acctKey) s of
        (s1, None) \<Rightarrow> (0, s1)
      | (s1, Some count) \<Rightarrow>
          (case rd_expire R t (THROTTLE_ACCT_PREFIX @ acctKey) ACCT_COUNTER_TTL_SECONDS s1 of
             (s2, None) \<Rightarrow> (0, s2)
           | (s2, Some _) \<Rightarrow> (case backoffSeconds (of_nat_num count) of Inr n \<Rightarrow> n | Inl _ \<Rightarrow> 0, s2)))"

definition clearAccount :: "'s Redis \<Rightarrow> int \<Rightarrow> jstring \<Rightarrow> 's \<Rightarrow> 's" where
  "clearAccount R t acctKey s = fst (rd_del R t (THROTTLE_ACCT_PREFIX @ acctKey) s)"

section \<open>The quotas of the organization routes\<close>

datatype OrgRateLimitKeyDimension = By_userId | By_organizationId | By_ip | By_userId_organizationId

record OrgRateLimitRule =
  rl_limit :: nat
  rl_windowSec :: nat
  rl_key :: OrgRateLimitKeyDimension

definition HOUR_SEC :: nat where "HOUR_SEC = 3600"

fun ORG_RATE_LIMIT_DEFAULTS :: "OrgRateLimitAction \<Rightarrow> OrgRateLimitRule" where
  "ORG_RATE_LIMIT_DEFAULTS createOrganization = \<lparr>rl_limit = 10, rl_windowSec = HOUR_SEC, rl_key = By_userId\<rparr>"
| "ORG_RATE_LIMIT_DEFAULTS createInvitation = \<lparr>rl_limit = 30, rl_windowSec = HOUR_SEC, rl_key = By_organizationId\<rparr>"
| "ORG_RATE_LIMIT_DEFAULTS reissueInvitationLink = \<lparr>rl_limit = 60, rl_windowSec = HOUR_SEC, rl_key = By_organizationId\<rparr>"
| "ORG_RATE_LIMIT_DEFAULTS publicInvitationEntry = \<lparr>rl_limit = 30, rl_windowSec = HOUR_SEC, rl_key = By_ip\<rparr>"
| "ORG_RATE_LIMIT_DEFAULTS revealTaxProfile = \<lparr>rl_limit = 20, rl_windowSec = HOUR_SEC, rl_key = By_userId_organizationId\<rparr>"

definition ORG_RATE_LIMIT_PREFIX :: jstring where "ORG_RATE_LIMIT_PREFIX = js ''orgrl:''"

fun action_name :: "OrgRateLimitAction \<Rightarrow> jstring" where
  "action_name createOrganization = js ''createOrganization''"
| "action_name createInvitation = js ''createInvitation''"
| "action_name reissueInvitationLink = js ''reissueInvitationLink''"
| "action_name publicInvitationEntry = js ''publicInvitationEntry''"
| "action_name revealTaxProfile = js ''revealTaxProfile''"

text \<open>\<open>None\<close> is a bucket that cannot be named.\<close>

definition resolveBucket ::
    "OrgRateLimitRule \<Rightarrow> OrgAuthState option \<Rightarrow> jstring option \<Rightarrow> jstring option \<Rightarrow> jstring option" where
  "resolveBucket rule orgAuth pathOrgId ip =
     (let userId = not_empty (case orgAuth of Some a \<Rightarrow> if oa_tokenValid a then oa_userId a else None | None \<Rightarrow> None);
          orgId = not_empty pathOrgId
      in case rl_key rule of
           By_userId \<Rightarrow> map_option (\<lambda>u. js ''u:'' @ u) userId
         | By_organizationId \<Rightarrow> map_option (\<lambda>o'. js ''o:'' @ o') orgId
         | By_userId_organizationId \<Rightarrow>
             (case (userId, orgId) of
                (Some u, Some o') \<Rightarrow> Some (js ''u:'' @ u @ js ''|o:'' @ o')
              | _ \<Rightarrow> None)
         | By_ip \<Rightarrow> Some (js ''i:'' @ clientIpKey (Some (case ip of Some i \<Rightarrow> i | None \<Rightarrow> []))))"

definition failOpen :: "OrgRateLimitAction \<Rightarrow> jstring \<Rightarrow> int \<times> Emitted" where
  "failOpen action route =
     (0, [(Ev_auth_throttle_fail_open, [(js ''action'', JStr (action_name action)), (js ''route'', JStr route)])])"

text \<open>\<open>R = None\<close>: no connection was bound.\<close>

definition consume ::
    "'s Redis option \<Rightarrow> int \<Rightarrow> jstring \<Rightarrow> OrgRateLimitRule \<Rightarrow> OrgRateLimitAction \<Rightarrow> jstring \<Rightarrow> 's \<Rightarrow>
     (int \<times> Emitted) \<times> 's" where
  "consume R t key rule action route s =
     (case R of
        None \<Rightarrow> (failOpen action route, s)
      | Some redis \<Rightarrow>
          (case hit redis t key (rl_limit rule) (rl_windowSec rule) s of
             (s', None) \<Rightarrow> (failOpen action route, s')
           | (s', Some (count, ttl)) \<Rightarrow>
               ((if count \<le> rl_limit rule then 0
                 else max 1 (if ttl > 0 then ttl else int (rl_windowSec rule)), []), s')))"

definition dec_int :: "int \<Rightarrow> jstring" where
  "dec_int i = (if i < 0 then 45 # dec_digits (nat (- i)) else dec_digits (nat i))"

definition rate_limited :: "int \<Rightarrow> Thrown" where
  "rate_limited retryAfter =
     TDomain (domainError E_RATE_LIMITED
       (no_options\<lparr>dxo_headers := Some [(js ''Retry-After'', dec_int retryAfter)]\<rparr>))"

text \<open>
  \<open>limits\<close> are the rules in force (the defaults with what the environment overrides), \<open>routePath\<close> the
  template of the framework's route, \<open>orgAuth\<close> what the middleware left on the request.
\<close>

definition orgRateLimitGuard ::
    "'s Redis option \<Rightarrow> (OrgRateLimitAction \<Rightarrow> OrgRateLimitRule) \<Rightarrow> int \<Rightarrow> Controller \<Rightarrow> Handler \<Rightarrow> Request \<Rightarrow>
     jstring option \<Rightarrow> OrgAuthState option \<Rightarrow> 's \<Rightarrow> unit verdict \<times> 's" where
  "orgRateLimitGuard R limits t c h req routePath orgAuth s =
     (case override (mk_rateLimit (hd_marks h)) (mk_rateLimit (ct_marks c)) of
        None \<Rightarrow> (([], Inr ()), s)
      | Some action \<Rightarrow>
          (let rule = limits action;
               route = rq_method req @ 32 # (case routePath of Some p \<Rightarrow> p | None \<Rightarrow> rq_url req)
           in case resolveBucket rule orgAuth (map_of (rq_params req) ORG_ID_PARAM) (rq_ip req) of
                None \<Rightarrow> (([], Inr ()), s)
              | Some v \<Rightarrow>
                  (case consume R t (ORG_RATE_LIMIT_PREFIX @ action_name action @ 58 # v) rule action route s of
                     ((retryAfter, events), s') \<Rightarrow>
                       ((events, if retryAfter > 0 then Inl (rate_limited retryAfter) else Inr ()), s'))))"

end
