(* ===== verification/ThrottleFacts.thy ===== *)
theory ThrottleFacts
  imports Throttle
begin

text \<open>
  What the two limiters promise over sequences of calls: how many are let through in a window, what an
  outage changes, and where the limits give way.
\<close>

section \<open>One key\<close>

lemma seen_simps [simp]: "seen t None = None" "seen t (Some (c, None)) = Some (c, None)"
  by (simp_all add: seen_def)

lemma redis_incr:
  assumes "redis_ok R cell" and "rd_incr R t k s = (s', Some n)"
  shows "cell s' = (cell s)(k := Some (bumped (seen t (cell s k))))" "n = fst (bumped (seen t (cell s k)))"
proof -
  have "cell s' = (cell s)(k := Some (bumped (seen t (cell s k)))) \<and> n = fst (bumped (seen t (cell s k)))"
    by (rule conjunct1 [OF assms(1) [unfolded redis_ok_def], rule_format, OF assms(2)])
  then show "cell s' = (cell s)(k := Some (bumped (seen t (cell s k))))" "n = fst (bumped (seen t (cell s k)))"
    by (rule conjunct1, rule conjunct2)
qed

lemma redis_expire:
  "redis_ok R cell \<Longrightarrow> rd_expire R t k w s = (s', Some ()) \<Longrightarrow>
     cell s' = (cell s)(k := map_option (\<lambda>(c, e). (c, Some (t + 1000 * int w))) (seen t (cell s k)))"
  unfolding redis_ok_def by blast

lemma redis_ttl:
  assumes "redis_ok R cell" and "rd_ttl R t k s = (s', Some r)"
  shows "cell s' = cell s" and "seen t (cell s k) = Some (c, None) \<Longrightarrow> r = -1"
    and "seen t (cell s k) = Some (c, Some d) \<Longrightarrow> 0 \<le> r \<and> \<bar>1000 * r - (d - t)\<bar> \<le> 1000"
proof -
  have l: "cell s' = cell s \<and>
        (case seen t (cell s k) of
           None \<Rightarrow> r = -2 | Some (c, None) \<Rightarrow> r = -1
         | Some (c, Some d) \<Rightarrow> 0 \<le> r \<and> \<bar>1000 * r - (d - t)\<bar> \<le> 1000)"
    using assms unfolding redis_ok_def by blast
  then show "cell s' = cell s" by (rule conjunct1)
  from conjunct2 [OF l] show "seen t (cell s k) = Some (c, None) \<Longrightarrow> r = -1"
    and "seen t (cell s k) = Some (c, Some d) \<Longrightarrow> 0 \<le> r \<and> \<bar>1000 * r - (d - t)\<bar> \<le> 1000"
    by auto
qed

lemma redis_get:
  assumes "redis_ok R cell" and "rd_get R t k s = (s', Some v)"
  shows "cell s' = cell s \<and> v = map_option (\<lambda>(c, e). dec_digits c) (seen t (cell s k))"
  using assms unfolding redis_ok_def by blast

lemma up_expire: "redis_up R \<Longrightarrow> \<exists>s'. rd_expire R t k w s = (s', Some ())"
  unfolding redis_up_def by (metis not_None_eq old.unit.exhaust prod.collapse)

lemma up_ttl: "redis_up R \<Longrightarrow> \<exists>s' r. rd_ttl R t k s = (s', Some r)"
  unfolding redis_up_def by (metis not_None_eq prod.collapse)

lemma up_get: "redis_up R \<Longrightarrow> \<exists>s' v. rd_get R t k s = (s', Some v)"
  unfolding redis_up_def by (metis not_None_eq prod.collapse)

lemma up_incr: "redis_up R \<Longrightarrow> \<exists>s' n. rd_incr R t k s = (s', Some n)"
  unfolding redis_up_def by (metis not_None_eq prod.collapse)

lemma seen_some: "seen t (Some (c, e)) = Some (c, e) \<longleftrightarrow> (\<forall>d. e = Some d \<longrightarrow> t < d)"
  by (cases e) (auto simp: seen_def)

text \<open>A hit on a key that is counting, and on one that is not there (any more).\<close>

lemma hit_counting:
  assumes "redis_ok R cell" and "redis_up R" and "cell s k = Some (c, e)" and "0 < c"
    and "\<And>d. e = Some d \<Longrightarrow> t < d"
  shows "\<exists>s' ttl. hit R t k limit w s = (s', Some (Suc c, ttl)) \<and> cell s' = (cell s)(k \<mapsto> (Suc c, e)) \<and>
    (limit < Suc c \<longrightarrow> (case e of None \<Rightarrow> ttl = -1 | Some d \<Rightarrow> 0 \<le> ttl \<and> 1000 * ttl \<le> d - t + 1000))"
proof -
  have v: "seen t (Some (c, e)) = Some (c, e)" for c using assms(5) by (simp add: seen_some)
  from up_incr [OF assms(2)] obtain s1 n where i: "rd_incr R t k s = (s1, Some n)" by blast
  note r = redis_incr [OF assms(1) i, unfolded assms(3) v]
  then have n: "n = Suc c" and c1: "cell s1 = (cell s)(k \<mapsto> (Suc c, e))" by (simp_all add: bumped_def)
  show ?thesis
  proof (cases "limit < Suc c")
    case True
    from up_ttl [OF assms(2)] obtain s2 ttl where l: "rd_ttl R t k s1 = (s2, Some ttl)" by blast
    have k: "seen t (cell s1 k) = Some (Suc c, e)" by (simp add: c1 v)
    have "case e of None \<Rightarrow> ttl = -1 | Some d \<Rightarrow> 0 \<le> ttl \<and> 1000 * ttl \<le> d - t + 1000"
    proof (cases e)
      case None
      with redis_ttl(2) [OF assms(1) l] k show ?thesis by simp
    next
      case (Some d)
      with redis_ttl(3) [OF assms(1) l] k have "0 \<le> ttl \<and> \<bar>1000 * ttl - (d - t)\<bar> \<le> 1000" by simp
      then have "0 \<le> ttl" "1000 * ttl - (d - t) \<le> 1000" by (simp_all add: abs_le_iff)
      with Some show ?thesis by simp
    qed
    with redis_ttl(1) [OF assms(1) l] i n c1 l True assms(4) show ?thesis by (simp add: hit_def)
  next
    case False
    with i n c1 assms(4) show ?thesis by (simp add: hit_def)
  qed
qed

lemma hit_first:
  assumes "redis_ok R cell" and "redis_up R" and "seen t (cell s k) = None" and "1 \<le> limit" and "0 < w"
  shows "\<exists>s' ttl. hit R t k limit w s = (s', Some (1, ttl)) \<and> cell s' = (cell s)(k \<mapsto> (1, Some (t + 1000 * int w)))"
proof -
  from up_incr [OF assms(2)] obtain s1 n where i: "rd_incr R t k s = (s1, Some n)" by blast
  from redis_incr [OF assms(1) i] assms(3) have n: "n = 1" and c1: "cell s1 = (cell s)(k \<mapsto> (1, None))"
    by (simp_all add: bumped_def)
  from up_expire [OF assms(2)] obtain s2 where e: "rd_expire R t k w s1 = (s2, Some ())" by blast
  have "cell s2 = (cell s)(k \<mapsto> (1, Some (t + 1000 * int w)))"
    using redis_expire [OF assms(1) e] by (simp add: c1 seen_some)
  with i n e assms(4) show ?thesis by (simp add: hit_def)
qed

section \<open>Sequences of hits\<close>

text \<open>Hits on any keys at any times, each with its limit and window, and the counts they got.\<close>

record Hit =
  ht_time :: int
  ht_key :: jstring
  ht_limit :: nat
  ht_window :: nat

fun hits :: "'s Redis \<Rightarrow> Hit list \<Rightarrow> 's \<Rightarrow> (jstring \<times> nat option) list" where
  "hits R [] s = []"
| "hits R (x # xs) s =
     (case hit R (ht_time x) (ht_key x) (ht_limit x) (ht_window x) s of
        (s', a) \<Rightarrow> (ht_key x, map_option fst a) # hits R xs s')"

definition on_key :: "jstring \<Rightarrow> (jstring \<times> 'a) list \<Rightarrow> 'a list" where
  "on_key k as = map snd (filter (\<lambda>x. fst x = k) as)"

lemma on_key_simps [simp]:
  "on_key k [] = []" "on_key k ((k', a) # as) = (if k' = k then a # on_key k as else on_key k as)"
  by (simp_all add: on_key_def)

lemma hit_other:
  assumes "redis_ok R cell" and "redis_up R" and "k' \<noteq> k" and "hit R t k limit w s = (s', a)"
  shows "cell s' k' = cell s k'"
proof -
  from up_incr [OF assms(2)] obtain s1 n where i: "rd_incr R t k s = (s1, Some n)" by blast
  from up_expire [OF assms(2)] obtain s2 where e: "rd_expire R t k w s1 = (s2, Some ())" by blast
  let ?s = "if n = 1 then s2 else s1"
  from up_ttl [OF assms(2)] obtain s3 r where l: "rd_ttl R t k ?s = (s3, Some r)" by blast
  have "cell ?s k' = cell s k'"
    using redis_incr(1) [OF assms(1) i] redis_expire [OF assms(1) e] assms(3) by simp
  moreover have "s' = ?s \<or> s' = s3" using assms(4) i e l by (auto simp: hit_def split: if_splits)
  ultimately show ?thesis using redis_ttl(1) [OF assms(1) l] by auto
qed

lemma hits_counting:
  assumes "redis_ok R cell" and "redis_up R" and "cell s k = Some (c, e)" and "0 < c"
    and "\<And>x d. x \<in> set xs \<Longrightarrow> ht_key x = k \<Longrightarrow> e = Some d \<Longrightarrow> ht_time x < d"
  shows "on_key k (hits R xs s) =
    map Some [Suc c ..< Suc c + length (filter (\<lambda>x. ht_key x = k) xs)]"
  using assms(3-5)
proof (induction xs arbitrary: s c)
  case (Cons x xs)
  obtain s' a where h: "hit R (ht_time x) (ht_key x) (ht_limit x) (ht_window x) s = (s', a)" by fastforce
  have times: "\<And>y d. y \<in> set xs \<Longrightarrow> ht_key y = k \<Longrightarrow> e = Some d \<Longrightarrow> ht_time y < d"
    using Cons.prems(3) by simp
  show ?case
  proof (cases "ht_key x = k")
    case True
    have "\<exists>s' ttl. hit R (ht_time x) k (ht_limit x) (ht_window x) s = (s', Some (Suc c, ttl)) \<and>
        cell s' = (cell s)(k \<mapsto> (Suc c, e)) \<and>
        (ht_limit x < Suc c \<longrightarrow> (case e of None \<Rightarrow> ttl = -1 | Some d \<Rightarrow> 0 \<le> ttl \<and> 1000 * ttl \<le> d - ht_time x + 1000))"
      by (rule hit_counting [OF assms(1,2) Cons.prems(1,2)]) (use Cons.prems(3) [of x] True in simp)
    with h True obtain ttl where a: "a = Some (Suc c, ttl)" and s': "cell s' k = Some (Suc c, e)" by auto
    have "on_key k (hits R xs s') = map Some [Suc (Suc c) ..< Suc (Suc c) + length (filter (\<lambda>x. ht_key x = k) xs)]"
      by (rule Cons.IH [OF s' _ times]) simp_all
    with h True a show ?thesis by (simp add: upt_conv_Cons del: upt_Suc)
  next
    case False
    with hit_other [OF assms(1,2) _ h] Cons.prems(1) have "cell s' k = Some (c, e)" by metis
    then have "on_key k (hits R xs s') = map Some [Suc c ..< Suc c + length (filter (\<lambda>x. ht_key x = k) xs)]"
      by (rule Cons.IH [OF _ Cons.prems(2) times]) simp_all
    with h False show ?thesis by (simp del: upt_Suc)
  qed
qed simp

lemma hits_window:
  assumes "redis_ok R cell" and "redis_up R" and "filter (\<lambda>x. ht_key x = k) xs = y # ys"
    and "seen (ht_time y) (cell s k) = None" and "1 \<le> ht_limit y" and "0 < ht_window y"
    and "\<And>x. x \<in> set ys \<Longrightarrow> ht_time x < ht_time y + 1000 * int (ht_window y)"
  shows "on_key k (hits R xs s) = map Some [1 ..< Suc (Suc (length ys))]"
  using assms(3,4)
proof (induction xs arbitrary: s)
  case (Cons x xs)
  obtain s' a where h: "hit R (ht_time x) (ht_key x) (ht_limit x) (ht_window x) s = (s', a)" by fastforce
  show ?case
  proof (cases "ht_key x = k")
    case True
    with Cons.prems(1) have y: "y = x" "filter (\<lambda>x. ht_key x = k) xs = ys" by auto
    from hit_first [OF assms(1,2) Cons.prems(2) assms(5,6)] h True y obtain ttl where
      a: "a = Some (1, ttl)" and s': "cell s' k = Some (1, Some (ht_time y + 1000 * int (ht_window y)))" by auto
    have "on_key k (hits R xs s') = map Some [Suc 1 ..< Suc 1 + length (filter (\<lambda>x. ht_key x = k) xs)]"
      by (rule hits_counting [OF assms(1,2) s']) (use assms(7) y in auto)
    with h True a y show ?thesis by (simp add: upt_conv_Cons del: upt_Suc)
  next
    case False
    with hit_other [OF assms(1,2) _ h] have "cell s' k = cell s k" by metis
    with Cons.IH [of s'] Cons.prems h False show ?thesis by simp
  qed
qed simp

section \<open>The address limiter\<close>

text \<open>Calls of \<open>checkIp\<close> at a time of the store and one of the process, with their answers.\<close>

fun ip_calls :: "'s Redis \<Rightarrow> (int \<times> int \<times> jstring) list \<Rightarrow> 's Throttle \<Rightarrow> (jstring \<times> int \<times> Emitted) list" where
  "ip_calls R [] th = []"
| "ip_calls R ((t, now, ip) # cs) th =
     (case checkIp R t now ip th of (r, evs, th') \<Rightarrow> (clientIpKey (Some ip), r, evs) # ip_calls R cs th')"

definition ip_hit :: "int \<times> int \<times> jstring \<Rightarrow> Hit" where
  "ip_hit c = \<lparr>ht_time = fst c, ht_key = THROTTLE_IP_PREFIX @ clientIpKey (Some (snd (snd c))),
     ht_limit = IP_WINDOW_MAX, ht_window = IP_WINDOW_SECONDS\<rparr>"

definition passed :: "int \<times> Emitted \<Rightarrow> bool" where "passed r \<longleftrightarrow> fst r = 0"

lemma up_hit: "redis_up R \<Longrightarrow> \<exists>s' c ttl. hit R t k limit w s = (s', Some (c, ttl))"
proof -
  assume up: "redis_up R"
  from up_incr [OF up] obtain s1 n where i: "rd_incr R t k s = (s1, Some n)" by blast
  from up_expire [OF up] obtain s2 where e: "rd_expire R t k w s1 = (s2, Some ())" by blast
  from up_ttl [OF up] obtain s3 r where l: "rd_ttl R t k (if n = 1 then s2 else s1) = (s3, Some r)" by blast
  from i e l show ?thesis by (cases "n = 1") (auto simp: hit_def)
qed

lemma ip_answer:
  assumes "hit R t (THROTTLE_IP_PREFIX @ clientIpKey (Some ip)) IP_WINDOW_MAX IP_WINDOW_SECONDS (th_redis th) =
      (s', Some (c, ttl))"
  shows "\<exists>r. checkIp R t now ip th = (r, [], th\<lparr>th_redis := s'\<rparr>) \<and> (r = 0 \<longleftrightarrow> c \<le> 20)"
  using assms by (auto simp: checkIp_def IP_WINDOW_MAX_def IP_WINDOW_SECONDS_def)

definition let_through :: "jstring \<times> nat option \<Rightarrow> jstring \<times> bool" where
  "let_through x = (fst x, case snd x of Some n \<Rightarrow> n \<le> 20 | None \<Rightarrow> False)"

lemma ip_calls_hits:
  assumes "redis_up R"
  shows "map (\<lambda>x. (THROTTLE_IP_PREFIX @ fst x, passed (snd x))) (ip_calls R cs th) =
    map let_through (hits R (map ip_hit cs) (th_redis th))"
proof (induction cs arbitrary: th)
  case (Cons x cs)
  obtain t now ip where x: "x = (t, now, ip)" by (cases x) auto
  from up_hit [OF assms] obtain s' c ttl where
    h: "hit R t (THROTTLE_IP_PREFIX @ clientIpKey (Some ip)) IP_WINDOW_MAX IP_WINDOW_SECONDS (th_redis th) = (s', Some (c, ttl))"
    by blast
  from ip_answer [OF h, of now] obtain r where r: "checkIp R t now ip th = (r, [], th\<lparr>th_redis := s'\<rparr>)" "r = 0 \<longleftrightarrow> c \<le> 20"
    by blast
  have "hits R (map ip_hit (x # cs)) (th_redis th) =
      (THROTTLE_IP_PREFIX @ clientIpKey (Some ip), Some c) # hits R (map ip_hit cs) s'"
    using h by (simp add: x ip_hit_def)
  with Cons.IH [of "th\<lparr>th_redis := s'\<rparr>"] r show ?case by (simp add: x let_through_def passed_def)
qed simp

text \<open>The answers of one bucket, and the calls that count in it.\<close>

definition answers_of :: "jstring \<Rightarrow> (jstring \<times> int \<times> Emitted) list \<Rightarrow> bool list" where
  "answers_of b as = map (\<lambda>x. passed (snd x)) (filter (\<lambda>x. fst x = b) as)"

definition calls_of :: "jstring \<Rightarrow> (int \<times> int \<times> jstring) list \<Rightarrow> (int \<times> int \<times> jstring) list" where
  "calls_of b cs = filter (\<lambda>c. clientIpKey (Some (snd (snd c))) = b) cs"

lemma answers_of_hits:
  assumes "redis_up R"
  shows "answers_of b (ip_calls R cs th) =
    map (\<lambda>a. case a of Some n \<Rightarrow> n \<le> 20 | None \<Rightarrow> False)
      (on_key (THROTTLE_IP_PREFIX @ b) (hits R (map ip_hit cs) (th_redis th)))"
proof -
  let ?k = "THROTTLE_IP_PREFIX @ b"
  have "answers_of b as = map snd (filter (\<lambda>x. fst x = ?k) (map (\<lambda>x. (THROTTLE_IP_PREFIX @ fst x, passed (snd x))) as))" for as
    by (induction as) (auto simp: answers_of_def)
  moreover have "map snd (filter (\<lambda>x. fst x = ?k) (map let_through as)) =
      map (\<lambda>a. case a of Some n \<Rightarrow> n \<le> 20 | None \<Rightarrow> False) (on_key ?k as)" for as
    by (induction as) (auto simp: let_through_def on_key_def)
  ultimately show ?thesis using ip_calls_hits [OF assms, of cs th] by simp
qed

lemma ip_hit_key: "ht_key (ip_hit c) = THROTTLE_IP_PREFIX @ b \<longleftrightarrow> clientIpKey (Some (snd (snd c))) = b"
  by (simp add: ip_hit_def)

lemma hits_of_bucket: "filter (\<lambda>x. ht_key x = THROTTLE_IP_PREFIX @ b) (map ip_hit cs) = map ip_hit (calls_of b cs)"
  by (induction cs) (simp_all add: calls_of_def ip_hit_key)

text \<open>
  Twenty attempts in five minutes. While the store answers, of the attempts that count in one
  bucket within five minutes of the first, whatever other clients do in between, exactly the first
  twenty are let through; the others are told to wait, and no event is written.
\<close>

theorem ip_window_enforced:
  assumes "redis_ok R cell" and "redis_up R" and "calls_of b cs = (t0, now0, ip0) # rest"
    and "seen t0 (cell (th_redis th) (THROTTLE_IP_PREFIX @ b)) = None"
    and "\<forall>c \<in> set rest. fst c < t0 + 300000"
  shows "answers_of b (ip_calls R cs th) = map (\<lambda>i. i < 20) [0 ..< Suc (length rest)] \<and>
    list_all (\<lambda>(b', r, evs). evs = [] \<and> 0 \<le> r) (ip_calls R cs th)"
proof
  have "on_key (THROTTLE_IP_PREFIX @ b) (hits R (map ip_hit cs) (th_redis th)) =
      map Some [1 ..< Suc (Suc (length (map ip_hit rest)))]"
    by (rule hits_window [OF assms(1,2) hits_of_bucket [of b cs, unfolded assms(3), simplified]])
      (use assms(4,5) in \<open>auto simp: ip_hit_def IP_WINDOW_MAX_def IP_WINDOW_SECONDS_def\<close>)
  then show "answers_of b (ip_calls R cs th) = map (\<lambda>i. i < 20) [0 ..< Suc (length rest)]"
    by (simp add: answers_of_hits [OF assms(2)] map_Suc_upt [symmetric] del: upt_Suc)
      (simp add: comp_def less_eq_Suc_le)
  show "list_all (\<lambda>(b', r, evs). evs = [] \<and> 0 \<le> r) (ip_calls R cs th)"
  proof (induction cs arbitrary: th)
    case (Cons x cs)
    obtain t now ip where x: "x = (t, now, ip)" by (cases x) auto
    from up_hit [OF assms(2)] obtain s' c ttl where
      h: "hit R t (THROTTLE_IP_PREFIX @ clientIpKey (Some ip)) IP_WINDOW_MAX IP_WINDOW_SECONDS (th_redis th) = (s', Some (c, ttl))"
      by blast
    with Cons show ?case by (simp add: x checkIp_def)
  qed simp
qed

section \<open>The account counter\<close>

lemma trim_digits: "list_all is_digit s \<Longrightarrow> trim s = s"
proof -
  assume "list_all is_digit s"
  then have d: "\<not> is_space c" if "c \<in> set s" for c using that by (auto simp: list_all_iff is_digit_def is_space_def)
  have "dropWhile is_space s = s" using d [of "hd s"] by (cases s) simp_all
  moreover have "dropWhile is_space (rev s) = rev s"
    using d [of "last s"] by (cases s rule: rev_cases) simp_all
  ultimately show ?thesis by (simp add: trim_def)
qed

lemma dec_digits_number:
  assumes "n < 2 ^ 53"
  shows "to_number (JStr (dec_digits n)) = of_nat_num n"
proof -
  have d: "list_all is_digit (dec_digits n)" using dec_digits_are_digits by (auto simp: list_all_iff)
  obtain c r where s: "dec_digits n = c # r" by (cases "dec_digits n") auto
  have c: "48 \<le> c" "c \<le> 57" and r: "\<forall>x \<in> set r. 48 \<le> x \<and> x \<le> 57" using d by (auto simp: s is_digit_def list_all_iff)
  have t: "trim (dec_digits n) = c # r" using trim_digits [OF d] s by simp
  have l: "decimal_literal (c # r) = Some (of_nat n)"
  proof -
    have "digits_span (dec_digits n) = (dec_digits n, [])"
      using d by (auto simp: digits_span_def takeWhile_eq_all_conv list_all_iff)
    then show ?thesis
      by (simp add: decimal_literal_def json_exp_def scale10_def s [symmetric])
  qed
  have "(of_nat n :: rat) < 2 ^ 53" using assms by (metis of_nat_less_iff of_nat_numeral of_nat_power)
  then have b: "\<not> (2 ^ 1024 - 2 ^ 970 \<le> (of_nat n :: rat))" by (simp add: not_le)
  have "number_value (of_nat n) = Fin (of_nat n)"
  proof -
    have "\<not> of_nat n \<le> - (2 ^ 1024 - 2 ^ 970 :: rat)"
    proof -
      have "- (2 ^ 1024 - 2 ^ 970 :: rat) < 0" by simp
      also have "0 \<le> (of_nat n :: rat)" by simp
      finally show ?thesis by (simp add: not_le)
    qed
    with b show ?thesis by (simp add: number_value_def)
  qed
  moreover have "r = [] \<or> (hd r \<noteq> 120 \<and> hd r \<noteq> 88 \<and> hd r \<noteq> 111 \<and> hd r \<noteq> 79 \<and> hd r \<noteq> 98 \<and> hd r \<noteq> 66)"
    using r by (cases r) auto
  moreover have "c # r \<noteq> js ''Infinity''" using c by (auto simp: js_def)
  ultimately show ?thesis using c t l
    by (auto simp: string_to_number_def of_nat_num_def)
qed

lemma up_del: "redis_up R \<Longrightarrow> \<exists>s'. rd_del R t k s = (s', Some ())"
  unfolding redis_up_def by (metis not_None_eq old.unit.exhaust prod.collapse)

lemma redis_del: "redis_ok R cell \<Longrightarrow> rd_del R t k s = (s', Some ()) \<Longrightarrow> cell s' = (cell s)(k := None)"
  unfolding redis_ok_def by blast

lemma record_failure:
  assumes "redis_ok R cell" and "redis_up R"
  shows "cell (snd (recordAccountFailure R t a s)) =
    (cell s)(THROTTLE_ACCT_PREFIX @ a \<mapsto> (fst (bumped (seen t (cell s (THROTTLE_ACCT_PREFIX @ a)))), Some (t + 900000)))"
    and "fst (recordAccountFailure R t a s) =
      backoff_window (fst (bumped (seen t (cell s (THROTTLE_ACCT_PREFIX @ a)))))"
proof -
  let ?r = "recordAccountFailure R t a s" and ?k = "THROTTLE_ACCT_PREFIX @ a"
  let ?n = "fst (bumped (seen t (cell s ?k)))"
  from up_incr [OF assms(2)] obtain s1 n where i: "rd_incr R t ?k s = (s1, Some n)" by blast
  from up_expire [OF assms(2)] obtain s2 where e: "rd_expire R t ?k ACCT_COUNTER_TTL_SECONDS s1 = (s2, Some ())" by blast
  note r = redis_incr [OF assms(1) i]
  have "seen t (Some (bumped (seen t x))) = Some (bumped (seen t x))" for x
    by (auto simp: bumped_def seen_def split: option.splits prod.splits if_splits)
  then have "cell s2 = (cell s)(?k \<mapsto> (?n, Some (t + 900000)))"
    using redis_expire [OF assms(1) e] r(1) by (simp add: case_prod_beta ACCT_COUNTER_TTL_SECONDS_def)
  moreover have "?r = (backoff_window ?n, s2)" using i e r(2) by (simp add: recordAccountFailure_def)
  ultimately show "cell (snd ?r) = (cell s)(?k \<mapsto> (?n, Some (t + 900000)))" and "fst ?r = backoff_window ?n"
    by simp_all
qed

lemma retry_after:
  assumes "redis_ok R cell" and "redis_up R" and "cell s (THROTTLE_ACCT_PREFIX @ a) = Some (n, Some d)"
    and "t < d" and "n < 2 ^ 53"
  shows "fst (accountRetryAfter R t a s) = backoff_window n"
proof -
  from up_get [OF assms(2)] obtain s' v where g: "rd_get R t (THROTTLE_ACCT_PREFIX @ a) s = (s', Some v)" by blast
  from redis_get [OF assms(1) g] assms(3,4) have "v = Some (dec_digits n)" by (simp add: seen_def)
  with g show ?thesis by (simp add: accountRetryAfter_def not_empty_def dec_digits_number [OF assms(5)] del: to_number.simps)
qed

text \<open>Failures one after the other, each at a time of its own.\<close>

fun record_failures :: "'s Redis \<Rightarrow> jstring \<Rightarrow> int list \<Rightarrow> 's \<Rightarrow> 's" where
  "record_failures R a [] s = s"
| "record_failures R a (t # ts) s = record_failures R a ts (snd (recordAccountFailure R t a s))"

fun gaps_ok :: "int list \<Rightarrow> bool" where
  "gaps_ok (t # t' # ts) = (t' < t + 900000 \<and> gaps_ok (t' # ts))"
| "gaps_ok _ = True"

lemma failures_counted:
  assumes "redis_ok R cell" and "redis_up R" and "ts \<noteq> []" and "gaps_ok ts"
    and "seen (hd ts) (cell s (THROTTLE_ACCT_PREFIX @ a)) = (if n = 0 then None else Some (n, e))"
  shows "cell (record_failures R a ts s) (THROTTLE_ACCT_PREFIX @ a) = Some (n + length ts, Some (last ts + 900000))"
  using assms(3-5)
proof (induction ts arbitrary: s n e)
  case (Cons t ts)
  let ?s = "snd (recordAccountFailure R t a s)"
  have c: "cell ?s (THROTTLE_ACCT_PREFIX @ a) = Some (Suc n, Some (t + 900000))"
    unfolding record_failure(1) [OF assms(1,2)] using Cons.prems(3) by (simp add: bumped_def)
  show ?case
  proof (cases ts)
    case (Cons t' ts')
    with Cons.prems c have "seen (hd ts) (cell ?s (THROTTLE_ACCT_PREFIX @ a)) =
        (if Suc n = 0 then None else Some (Suc n, Some (t + 900000)))" by (simp add: seen_def)
    from Cons.IH [OF _ _ this] Cons.prems Cons show ?thesis by simp
  qed (simp add: c)
qed simp

text \<open>
  The backoff does not run down. After \<open>n\<close> failures in a row, at least five, every attempt
  within fifteen minutes of the last one is told to wait, and always the same number of seconds, the
  one of the curve for \<open>n\<close>: the time that has passed since the failure counts for nothing, so
  that an account with five failures is shut for a quarter of an hour while the answer promises one
  second. When the fifteen minutes are over, or a success clears the counter, it is open again.
\<close>

theorem backoff_ignores_elapsed_time:
  assumes "redis_ok R cell" and "redis_up R" and "5 \<le> length ts" and "length ts < 2 ^ 53" and "gaps_ok ts"
    and "seen (hd ts) (cell s (THROTTLE_ACCT_PREFIX @ a)) = None"
  shows "(t < last ts + 900000 \<longrightarrow>
      fst (accountRetryAfter R t a (record_failures R a ts s)) = min (2 ^ (length ts - 5)) 900) \<and>
    (last ts + 900000 \<le> t \<longrightarrow> fst (accountRetryAfter R t a (record_failures R a ts s)) = 0) \<and>
    fst (accountRetryAfter R t a (clearAccount R t a (record_failures R a ts s))) = 0"
proof (intro conjI impI)
  let ?s = "record_failures R a ts s" and ?k = "THROTTLE_ACCT_PREFIX @ a"
  have "ts \<noteq> []" using assms(3) by auto
  from failures_counted [OF assms(1,2) this assms(5), of _ _ 0] assms(6)
  have c: "cell ?s ?k = Some (length ts, Some (last ts + 900000))" by simp
  show "fst (accountRetryAfter R t a ?s) = min (2 ^ (length ts - 5)) 900" if "t < last ts + 900000"
    using retry_after [OF assms(1,2) c that assms(4)] assms(3) by (simp add: backoff_window_unclamped)
  have gone: "fst (accountRetryAfter R t a s') = 0" if "seen t (cell s' ?k) = None" for s'
  proof -
    from up_get [OF assms(2)] obtain s2 v where g: "rd_get R t ?k s' = (s2, Some v)" by blast
    from redis_get [OF assms(1) g] that have "v = None" by simp
    with g show ?thesis
      by (simp add: accountRetryAfter_def not_empty_def backoffSeconds_nat [of 0, unfolded of_nat_num_def, simplified]
          backoff_window_unclamped)
  qed
  show "fst (accountRetryAfter R t a ?s) = 0" if "last ts + 900000 \<le> t"
    by (rule gone) (use c that in \<open>simp add: seen_def\<close>)
  from up_del [OF assms(2)] obtain s3 where d: "rd_del R t ?k ?s = (s3, Some ())" by blast
  show "fst (accountRetryAfter R t a (clearAccount R t a ?s)) = 0"
    by (rule gone) (use redis_del [OF assms(1) d] d in \<open>simp add: clearAccount_def\<close>)
qed

section \<open>Without the store\<close>

text \<open>Calls while every \<open>INCR\<close> fails, at the given times of the process.\<close>

definition redis_down :: "'s Redis \<Rightarrow> bool" where
  "redis_down R \<longleftrightarrow> (\<forall>t k s. snd (rd_incr R t k s) = None)"

lemma down_check:
  assumes "redis_down R"
  shows "\<exists>s'. checkIp R t now ip th = failOpenIp ip (clientIpKey (Some ip)) now (th\<lparr>th_redis := s'\<rparr>)"
proof -
  obtain s' where "rd_incr R t (THROTTLE_IP_PREFIX @ clientIpKey (Some ip)) (th_redis th) = (s', None)"
    using assms by (metis prod.collapse redis_down_def)
  then show ?thesis by (auto simp: checkIp_def hit_def Let_def)
qed

lemma seconds_up_pos: "0 \<le> ms \<Longrightarrow> 0 < seconds_up ms"
proof -
  assume "0 \<le> ms"
  then have "- ms div 1000 \<le> 0" by (simp add: div_nonpos_pos_le0)
  then show ?thesis by (auto simp: seconds_up_def Let_def)
qed

lemma down_counting:
  assumes "redis_down R" and "th_degraded th b = Some \<lparr>db_count = n, db_windowStart = t0\<rparr>"
    and "\<forall>c \<in> set (calls_of b cs). fst (snd c) - t0 \<le> 300000"
  shows "answers_of b (ip_calls R cs th) = map (\<lambda>i. i \<le> 20) [Suc n ..< Suc n + length (calls_of b cs)]"
  using assms(2,3)
proof (induction cs arbitrary: th n)
  case (Cons x cs)
  obtain t now ip where x: "x = (t, now, ip)" by (cases x) auto
  from down_check [OF assms(1)] obtain s' where
    c: "checkIp R t now ip th = failOpenIp ip (clientIpKey (Some ip)) now (th\<lparr>th_redis := s'\<rparr>)" by blast
  obtain r evs th' where f: "failOpenIp ip (clientIpKey (Some ip)) now (th\<lparr>th_redis := s'\<rparr>) = (r, evs, th')"
    by (metis prod_cases3)
  have rest: "\<forall>c \<in> set (calls_of b cs). fst (snd c) - t0 \<le> 300000" using Cons.prems(2) by (simp add: calls_of_def)
  show ?case
  proof (cases "clientIpKey (Some ip) = b")
    case True
    then have "now - t0 \<le> 300000" using Cons.prems(2) by (simp add: calls_of_def x)
    then have th: "th_degraded th' b = Some \<lparr>db_count = Suc n, db_windowStart = t0\<rparr>" and r: "r = 0 \<longleftrightarrow> Suc n \<le> 20"
      using f True Cons.prems(1) seconds_up_pos [of "max (300000 - (now - t0)) 0"]
      by (auto simp: failOpenIp_def Let_def DEGRADED_IP_WINDOW_MS_def DEGRADED_IP_MAX_def split: if_splits)
    have "answers_of b (ip_calls R cs th') = map (\<lambda>i. i \<le> 20) [Suc (Suc n) ..< Suc (Suc n) + length (calls_of b cs)]"
      by (rule Cons.IH [OF th rest])
    with True r c f show ?thesis
      by (simp add: x calls_of_def answers_of_def passed_def upt_conv_Cons del: upt_Suc)
  next
    case False
    then have th: "th_degraded th' b = Some \<lparr>db_count = n, db_windowStart = t0\<rparr>"
      using f Cons.prems(1) by (auto simp: failOpenIp_def Let_def split: if_splits option.splits)
    have "answers_of b (ip_calls R cs th') = map (\<lambda>i. i \<le> 20) [Suc n ..< Suc n + length (calls_of b cs)]"
      by (rule Cons.IH [OF th rest])
    with False c f show ?thesis by (simp add: x calls_of_def answers_of_def del: upt_Suc)
  qed
qed (simp add: calls_of_def answers_of_def)

lemma calls_of_Cons:
  "calls_of b (c # cs) = (if clientIpKey (Some (snd (snd c))) = b then c # calls_of b cs else calls_of b cs)"
  by (simp add: calls_of_def)

text \<open>
  An outage is not a free pass. While the store is away, each process still lets through only
  twenty attempts of a bucket in the five minutes after the first, whatever the others do.
\<close>

theorem outage_still_limited:
  assumes "redis_down R" and "th_degraded th b = None"
    and "calls_of b cs = (t0, now0, ip0) # rest" and "\<forall>c \<in> set rest. fst (snd c) - now0 \<le> 300000"
  shows "answers_of b (ip_calls R cs th) = map (\<lambda>i. i < 20) [0 ..< Suc (length rest)]"
  using assms(2,3)
proof (induction cs arbitrary: th)
  case (Cons x cs)
  obtain t now ip where x: "x = (t, now, ip)" by (cases x) auto
  from down_check [OF assms(1)] obtain s' where
    c: "checkIp R t now ip th = failOpenIp ip (clientIpKey (Some ip)) now (th\<lparr>th_redis := s'\<rparr>)" by blast
  obtain r evs th' where f: "failOpenIp ip (clientIpKey (Some ip)) now (th\<lparr>th_redis := s'\<rparr>) = (r, evs, th')"
    by (metis prod_cases3)
  show ?case
  proof (cases "clientIpKey (Some ip) = b")
    case True
    with Cons.prems(2) have e: "now0 = now" "calls_of b cs = rest" by (simp_all add: calls_of_Cons x)
    have th: "th_degraded th' b = Some \<lparr>db_count = 1, db_windowStart = now0\<rparr>" and r: "r = 0"
      using f True Cons.prems(1) e(1) by (auto simp: failOpenIp_def Let_def)
    have "answers_of b (ip_calls R cs th') = map (\<lambda>i. i \<le> 20) [Suc 1 ..< Suc 1 + length rest]"
      using down_counting [OF assms(1) th, of cs] assms(4) e(2) by (simp del: upt_Suc)
    moreover have "map (\<lambda>i. i < 20) [0 ..< Suc (length rest)] = True # map (\<lambda>i. i \<le> 20) [Suc 1 ..< Suc 1 + length rest]"
      by (simp add: upt_conv_Cons map_Suc_upt [symmetric] del: upt_Suc) (simp add: comp_def less_eq_Suc_le)
    ultimately show ?thesis using True r c f by (simp add: x answers_of_def passed_def del: upt_Suc)
  next
    case False
    then have "th_degraded th' b = None"
      using f Cons.prems(1) by (auto simp: failOpenIp_def Let_def split: if_splits option.splits)
    from Cons.IH [OF this] Cons.prems(2) False c f show ?thesis
      by (simp add: x calls_of_Cons answers_of_def del: upt_Suc)
  qed
qed (simp add: calls_of_def)

text \<open>
  A lost \<open>EXPIRE\<close> locks a bucket for good. When the first attempt's \<open>INCR\<close> was stored and its
  \<open>EXPIRE\<close> was not, the key has no end: from then on, once the store is back, attempts nineteen more
  are let through, and no later one ever is, at no time.
\<close>

theorem lost_expire_locks_forever:
  assumes "redis_ok R cell" and "redis_up R" and "cell (th_redis th) (THROTTLE_IP_PREFIX @ b) = Some (1, None)"
  shows "answers_of b (ip_calls R cs th) = map (\<lambda>i. i < 19) [0 ..< length (calls_of b cs)]"
proof -
  have "on_key (THROTTLE_IP_PREFIX @ b) (hits R (map ip_hit cs) (th_redis th)) =
      map Some [Suc 1 ..< Suc 1 + length (filter (\<lambda>x. ht_key x = THROTTLE_IP_PREFIX @ b) (map ip_hit cs))]"
    by (rule hits_counting [OF assms]) simp_all
  then show ?thesis
    by (simp add: answers_of_hits [OF assms(2)] hits_of_bucket map_Suc_upt [symmetric] del: upt_Suc)
      (simp add: comp_def less_eq_Suc_le)
qed

section \<open>The quotas\<close>

text \<open>The action and the bucket a request counts in, if any.\<close>

definition quota_key ::
    "(OrgRateLimitAction \<Rightarrow> OrgRateLimitRule) \<Rightarrow> Controller \<Rightarrow> Handler \<Rightarrow> Request \<Rightarrow> OrgAuthState option \<Rightarrow>
     (OrgRateLimitAction \<times> jstring) option" where
  "quota_key limits c h req orgAuth =
     (case override (mk_rateLimit (hd_marks h)) (mk_rateLimit (ct_marks c)) of
        None \<Rightarrow> None
      | Some a \<Rightarrow> map_option (\<lambda>v. (a, v))
                  (resolveBucket (limits a) orgAuth (map_of (rq_params req) ORG_ID_PARAM) (rq_ip req)))"

definition redis_key :: "OrgRateLimitAction \<Rightarrow> jstring \<Rightarrow> jstring" where
  "redis_key a v = ORG_RATE_LIMIT_PREFIX @ action_name a @ 58 # v"

lemma action_name_cut: "takeWhile (\<lambda>c. c \<noteq> 58) (action_name a @ 58 # v) = action_name a"
  by (cases a) (simp_all add: js_def)

lemma action_name_inj: "action_name a = action_name b \<Longrightarrow> a = b"
  by (cases a; cases b) simp_all

lemma redis_key_inj: "redis_key a v = redis_key b w \<longleftrightarrow> a = b \<and> v = w"
proof
  assume "redis_key a v = redis_key b w"
  then have e: "action_name a @ 58 # v = action_name b @ 58 # w" by (simp add: redis_key_def)
  then have "action_name a = action_name b" using action_name_cut by metis
  with e action_name_inj show "a = b \<and> v = w" by auto
qed simp

lemma guard_counts:
  assumes "quota_key limits c h req orgAuth = Some (a, v)"
    and "hit R t (redis_key a v) (rl_limit (limits a)) (rl_windowSec (limits a)) s = (s', Some (n, ttl))"
  shows "\<exists>r. orgRateLimitGuard (Some R) limits t c h req routePath orgAuth s =
    (([], if n \<le> rl_limit (limits a) then Inr () else Inl (rate_limited r)), s') \<and> 1 \<le> r"
proof -
  from assms(1) have "override (mk_rateLimit (hd_marks h)) (mk_rateLimit (ct_marks c)) = Some a"
    and "resolveBucket (limits a) orgAuth (map_of (rq_params req) ORG_ID_PARAM) (rq_ip req) = Some v"
    by (auto simp: quota_key_def split: option.splits)
  with assms(2) show ?thesis
    by (auto simp: orgRateLimitGuard_def consume_def redis_key_def Let_def)
qed

lemma guard_skips:
  "quota_key limits c h req orgAuth = None \<Longrightarrow>
     orgRateLimitGuard R limits t c h req routePath orgAuth s = (([], Inr ()), s)"
  by (auto simp: quota_key_def orgRateLimitGuard_def Let_def split: option.splits)

text \<open>Requests that reach the guard, each with the time, the handler and what the middleware left.\<close>

record Arrival =
  ar_time :: int
  ar_controller :: Controller
  ar_handler :: Handler
  ar_request :: Request
  ar_routePath :: "jstring option"
  ar_auth :: "OrgAuthState option"

definition arrival_key :: "(OrgRateLimitAction \<Rightarrow> OrgRateLimitRule) \<Rightarrow> Arrival \<Rightarrow> (OrgRateLimitAction \<times> jstring) option" where
  "arrival_key limits x = quota_key limits (ar_controller x) (ar_handler x) (ar_request x) (ar_auth x)"

fun guard_run ::
    "'s Redis \<Rightarrow> (OrgRateLimitAction \<Rightarrow> OrgRateLimitRule) \<Rightarrow> Arrival list \<Rightarrow> 's \<Rightarrow> (Arrival \<times> unit verdict) list" where
  "guard_run R limits [] s = []"
| "guard_run R limits (x # xs) s =
     (case orgRateLimitGuard (Some R) limits (ar_time x) (ar_controller x) (ar_handler x) (ar_request x)
             (ar_routePath x) (ar_auth x) s of
        (v, s') \<Rightarrow> (x, v) # guard_run R limits xs s')"

definition admitted_of ::
    "(OrgRateLimitAction \<Rightarrow> OrgRateLimitRule) \<Rightarrow> OrgRateLimitAction \<Rightarrow> jstring \<Rightarrow> (Arrival \<times> unit verdict) list \<Rightarrow> bool list" where
  "admitted_of limits a v rs =
     map (\<lambda>r. snd (snd r) = Inr ()) (filter (\<lambda>r. arrival_key limits (fst r) = Some (a, v)) rs)"

definition arrival_hits :: "(OrgRateLimitAction \<Rightarrow> OrgRateLimitRule) \<Rightarrow> Arrival list \<Rightarrow> Hit list" where
  "arrival_hits limits xs =
     concat (map (\<lambda>x. case arrival_key limits x of
        None \<Rightarrow> []
      | Some (a, v) \<Rightarrow> [\<lparr>ht_time = ar_time x, ht_key = redis_key a v, ht_limit = rl_limit (limits a),
                        ht_window = rl_windowSec (limits a)\<rparr>]) xs)"

lemma guard_run_hits:
  assumes "redis_up R"
  shows "admitted_of limits a v (guard_run R limits xs s) =
    map (\<lambda>n. case n of Some m \<Rightarrow> m \<le> rl_limit (limits a) | None \<Rightarrow> False)
      (on_key (redis_key a v) (hits R (arrival_hits limits xs) s))"
proof (induction xs arbitrary: s)
  case (Cons x xs)
  show ?case
  proof (cases "arrival_key limits x")
    case None
    have "orgRateLimitGuard (Some R) limits (ar_time x) (ar_controller x) (ar_handler x) (ar_request x)
        (ar_routePath x) (ar_auth x) s = (([], Inr ()), s)"
      by (rule guard_skips [OF None [unfolded arrival_key_def]])
    with None Cons show ?thesis
      by (simp add: arrival_hits_def admitted_of_def)
  next
    case (Some av)
    obtain b w where bw: "av = (b, w)" by fastforce
    from up_hit [OF assms] obtain s' n ttl where
      h: "hit R (ar_time x) (redis_key b w) (rl_limit (limits b)) (rl_windowSec (limits b)) s = (s', Some (n, ttl))"
      by blast
    from guard_counts [OF Some [unfolded arrival_key_def bw] h] obtain r where
      g: "orgRateLimitGuard (Some R) limits (ar_time x) (ar_controller x) (ar_handler x) (ar_request x)
             (ar_routePath x) (ar_auth x) s =
          (([], if n \<le> rl_limit (limits b) then Inr () else Inl (rate_limited r)), s')" by blast
    from h g Some bw Cons [of s'] show ?thesis
      by (auto simp: arrival_hits_def admitted_of_def redis_key_inj)
  qed
qed (simp add: admitted_of_def arrival_hits_def)

lemma filter_arrivals:
  "filter (\<lambda>x. ht_key x = redis_key a v) (arrival_hits limits xs) =
     map (\<lambda>x. \<lparr>ht_time = ar_time x, ht_key = redis_key a v, ht_limit = rl_limit (limits a),
        ht_window = rl_windowSec (limits a)\<rparr>) (filter (\<lambda>x. arrival_key limits x = Some (a, v)) xs)"
  by (induction xs) (auto simp: arrival_hits_def redis_key_inj split: option.splits)

text \<open>
  C39: The quota of an action is kept. While the store answers, of the requests that count in one
  bucket of an action within its window, among any others, exactly the first as many as the rule
  allows get through to the handler.
\<close>

theorem quota_enforced:
  assumes "redis_ok R cell" and "redis_up R" and "1 \<le> rl_limit (limits a)" and "0 < rl_windowSec (limits a)"
    and "filter (\<lambda>x. arrival_key limits x = Some (a, v)) xs = y # ys"
    and "seen (ar_time y) (cell s (redis_key a v)) = None"
    and "\<forall>x \<in> set ys. ar_time x < ar_time y + 1000 * int (rl_windowSec (limits a))"
  shows "admitted_of limits a v (guard_run R limits xs s) =
    map (\<lambda>i. i < rl_limit (limits a)) [0 ..< Suc (length ys)]"
proof -
  have "on_key (redis_key a v) (hits R (arrival_hits limits xs) s) = map Some [1 ..< Suc (Suc (length ys))]"
    by (rule hits_window [OF assms(1,2) filter_arrivals [of a v limits xs, unfolded assms(5) list.map],
          unfolded length_map])
      (use assms(3,4,6,7) in auto)
  then show ?thesis
    by (simp add: guard_run_hits [OF assms(2)] map_Suc_upt [symmetric] del: upt_Suc)
      (simp add: comp_def less_eq_Suc_le)
qed

text \<open>
  Spaces in the path open a new quota. A request whose path names the organization with white
  space before it is taken by the middleware for the same organization, but counts in a bucket of
  its own: as many spellings of a path, as many quotas.
\<close>

theorem spaced_path_escapes_quota:
  assumes "list_all is_space w" and "trim o' = o'" and "o' \<noteq> []" and "readHeader (rq_organization req) = None"
    and "rl_key rule = By_organizationId" and "list_all is_space w'"
  shows "resolveOrgScoped look req auth (Some (w @ o')) = resolveOrgScoped look req auth (Some o') \<and>
    (resolveBucket rule orgAuth (Some (w @ o')) ip = resolveBucket rule orgAuth (Some (w' @ o')) ip \<longleftrightarrow> w = w')"
proof -
  have "dropWhile is_space (w @ o') = dropWhile is_space o'"
    using assms(1) by (induction w) auto
  then have "trim (w @ o') = o'" using assms(2) by (simp add: trim_def)
  then show ?thesis
    using assms(2,3,5) by (simp add: resolveOrgScoped_def assms(4) resolveBucket_def not_empty_def)
qed

section \<open>A store in memory\<close>

text \<open>The commands on a map from keys to cells, for the instances of the theorems.\<close>

definition memory :: "(jstring \<Rightarrow> cell) Redis" where
  "memory =
     \<lparr>rd_incr = (\<lambda>t k s. (s(k := Some (bumped (seen t (s k)))), Some (fst (bumped (seen t (s k)))))),
      rd_expire = (\<lambda>t k w s. (s(k := map_option (\<lambda>(c, e). (c, Some (t + 1000 * int w))) (seen t (s k))), Some ())),
      rd_ttl = (\<lambda>t k s. (s, Some (case seen t (s k) of
         None \<Rightarrow> -2 | Some (c, None) \<Rightarrow> -1 | Some (c, Some d) \<Rightarrow> (d - t) div 1000))),
      rd_get = (\<lambda>t k s. (s, Some (map_option (\<lambda>(c, e). dec_digits c) (seen t (s k))))),
      rd_del = (\<lambda>t k s. (s(k := None), Some ()))\<rparr>"

lemma memory_up: "redis_up memory"
  by (simp add: redis_up_def memory_def)

lemma memory_ttl:
  fixes d t :: int
  assumes "t < d"
  shows "0 \<le> (d - t) div 1000 \<and> \<bar>1000 * ((d - t) div 1000) - (d - t)\<bar> \<le> 1000"
proof -
  have "1000 * ((d - t) div 1000) = (d - t) - (d - t) mod 1000" by (simp add: minus_mod_eq_mult_div)
  moreover have "0 \<le> (d - t) mod 1000" "(d - t) mod 1000 < 1000" by simp_all
  ultimately show ?thesis using assms by (simp add: pos_imp_zdiv_nonneg_iff)
qed

lemma memory_ok: "redis_ok memory (\<lambda>s. s)"
  unfolding redis_ok_def memory_def
  by (auto simp: memory_ttl seen_def split: option.splits prod.splits if_splits)

definition no_store :: "jstring \<Rightarrow> cell" where "no_store k = None"

definition fresh_throttle :: "(jstring \<Rightarrow> cell) Throttle" where
  "fresh_throttle = \<lparr>th_redis = no_store, th_degraded = (\<lambda>b. None)\<rparr>"

text \<open>Twenty-five attempts of one address, with another one between.\<close>

definition attempts :: "(int \<times> int \<times> jstring) list" where
  "attempts = (1, 1, js ''x'') # (2, 2, js ''7.7.7.7'') # replicate 24 (3, 3, js ''x'')"

lemma seven: "clientIpKey (Some (js ''7.7.7.7'')) = js ''7.7.7.7''"
  by (simp add: clientIpKey_def trim_def is_space_def js_def stripEnvelope_def BRACKETED_RE_def IPV4_WITH_PORT_RE_def
      IPV4_RE_def is_digit_def)

lemma garbage: "clientIpKey (Some (js ''x'')) = UNKNOWN_IP_BUCKET"
  by (simp add: clientIpKey_def trim_def is_space_def js_def stripEnvelope_def BRACKETED_RE_def IPV4_WITH_PORT_RE_def
      IPV4_RE_def is_digit_def ascii_lower_def parseIpv6_def)

lemma attempts_of: "calls_of UNKNOWN_IP_BUCKET attempts = (1, 1, js ''x'') # replicate 24 (3, 3, js ''x'')"
  by (simp add: calls_of_def attempts_def garbage seven) (simp add: UNKNOWN_IP_BUCKET_def)

lemma ip_window_enforced_witness:
  "answers_of UNKNOWN_IP_BUCKET (ip_calls memory attempts fresh_throttle) =
     map (\<lambda>i. i < 20) [0 ..< Suc (length (replicate 24 (3 :: int, 3 :: int, js ''x'')))]"
  using ip_window_enforced [OF memory_ok memory_up attempts_of, of fresh_throttle]
  by (simp add: fresh_throttle_def no_store_def)

definition cut_off :: "(jstring \<Rightarrow> cell) Redis" where
  "cut_off = memory\<lparr>rd_incr := (\<lambda>t k s. (s, None))\<rparr>"

lemma outage_still_limited_witness:
  "answers_of UNKNOWN_IP_BUCKET (ip_calls cut_off attempts fresh_throttle) =
     map (\<lambda>i. i < 20) [0 ..< Suc (length (replicate 24 (3 :: int, 3 :: int, js ''x'')))]"
  by (rule outage_still_limited [OF _ _ attempts_of])
    (simp_all add: redis_down_def cut_off_def fresh_throttle_def)

lemma lost_expire_locks_forever_witness:
  "answers_of UNKNOWN_IP_BUCKET (ip_calls memory attempts
      (fresh_throttle\<lparr>th_redis := no_store(THROTTLE_IP_PREFIX @ UNKNOWN_IP_BUCKET \<mapsto> (1, None))\<rparr>)) =
     map (\<lambda>i. i < 19) [0 ..< length (calls_of UNKNOWN_IP_BUCKET attempts)]"
  by (rule lost_expire_locks_forever [OF memory_ok memory_up]) simp

lemma backoff_ignores_elapsed_time_witness:
  "fst (accountRetryAfter memory 800000 (js ''a'') (record_failures memory (js ''a'') [1, 2, 3, 4, 5] no_store)) = 1"
  using backoff_ignores_elapsed_time [OF memory_ok memory_up, of "[1, 2, 3, 4, 5]" no_store "js ''a''" 800000]
  by (simp add: no_store_def del: record_failures.simps)

definition arrival :: "int \<Rightarrow> Arrival" where
  "arrival t =
     \<lparr>ar_time = t, ar_controller = \<lparr>ct_name = [], ct_path = JUndef,
        ct_marks = \<lparr>mk_scope = None, mk_capability = JUndef, mk_anyActiveMember = False, mk_rateLimit = None\<rparr>, ct_handlers = []\<rparr>,
      ar_handler = \<lparr>hd_name = [], hd_method = Some RM_POST, hd_path = JUndef,
        hd_marks = \<lparr>mk_scope = None, mk_capability = JUndef, mk_anyActiveMember = False, mk_rateLimit = Some createInvitation\<rparr>,
        hd_jsonOnly = True, hd_jwt = False, hd_status = 201, hd_headers = []\<rparr>,
      ar_request = \<lparr>rq_method = js ''POST'', rq_url = js ''/orgs/o1/invitations'', rq_authorization = JUndef,
        rq_organization = JUndef, rq_contentType = None, rq_params = [(js ''orgId'', js ''o1'')], rq_ip = None\<rparr>,
      ar_routePath = None, ar_auth = None\<rparr>"

lemma arrival_key: "arrival_key ORG_RATE_LIMIT_DEFAULTS (arrival t) = Some (createInvitation, js ''o:o1'')"
  by (simp add: arrival_key_def quota_key_def arrival_def override_def resolveBucket_def ORG_ID_PARAM_def not_empty_def
      js_append [symmetric])

lemma quota_enforced_witness:
  "admitted_of ORG_RATE_LIMIT_DEFAULTS createInvitation (js ''o:o1'')
     (guard_run memory ORG_RATE_LIMIT_DEFAULTS (arrival 1 # replicate 40 (arrival 2)) no_store) =
   map (\<lambda>i. i < 30) [0 ..< Suc (length (replicate 40 (arrival 2)))]"
proof -
  have "filter (\<lambda>x. arrival_key ORG_RATE_LIMIT_DEFAULTS x = Some (createInvitation, js ''o:o1''))
      (arrival 1 # replicate 40 (arrival 2)) = arrival 1 # replicate 40 (arrival 2)"
    by (simp add: arrival_key filter_replicate)
  from quota_enforced [OF memory_ok memory_up _ _ this, of no_store] show ?thesis
    by (simp add: no_store_def HOUR_SEC_def arrival_def)
qed

definition caller_auth :: OrgAuthState where
  "caller_auth = \<lparr>oa_userId = Some (js ''ann''), oa_tokenValid = True, oa_orgOutcome = Out_skipped, oa_routeTier = Some Org_tier\<rparr>"

lemma spaced_path_escapes_quota_witness:
  "resolveOrgScoped (find_membership demo_db) (ar_request (arrival 1)) caller_auth (Some ([32] @ js ''o1'')) =
     resolveOrgScoped (find_membership demo_db) (ar_request (arrival 1)) caller_auth (Some (js ''o1'')) \<and>
   resolveBucket (ORG_RATE_LIMIT_DEFAULTS createInvitation) None (Some ([32] @ js ''o1'')) None \<noteq>
     resolveBucket (ORG_RATE_LIMIT_DEFAULTS createInvitation) None (Some ([] @ js ''o1'')) None"
proof -
  have o1: "trim (js ''o1'') = js ''o1''" "js ''o1'' \<noteq> []" by (simp_all add: trim_def is_space_def js_def)
  have sp: "list_all is_space [32]" "list_all is_space []" by (simp_all add: is_space_def)
  have h: "readHeader (rq_organization (ar_request (arrival 1))) = None"
    by (simp add: arrival_def readHeader_def Let_def trim_def)
  have k: "rl_key (ORG_RATE_LIMIT_DEFAULTS createInvitation) = By_organizationId" by simp
  from spaced_path_escapes_quota [OF sp(1) o1 h k sp(2), of "find_membership demo_db" caller_auth None None]
  show ?thesis by simp
qed

end
