(* ===== verification/Requests.thy ===== *)
theory Requests
  imports Throttle Sessions AdminReset AccessGate OrgLock
begin

text \<open>
  The state the authentication endpoints share and the shape of a request over it: a step answers or
  throws, emits audit events and leaves a new state. What was written before a throw stays written; only
  a database transaction is rolled back. The parts outside the repository are a record of functions, and
  what one request reads of clocks and random sources is another.
\<close>

section \<open>The state\<close>

text \<open>
  \<open>sv_argon2\<close> are the calls made so far of the hashing library, the work an answer costs.
\<close>

datatype Argon2Call = Argon2_hash | Argon2_verify

record 's Server =
  sv_db :: OrgDb
  sv_tokens :: "RefreshToken list"
  sv_throttle :: "'s Throttle"
  sv_argon2 :: "Argon2Call list"

text \<open>
  The library functions: \<open>toLowerCase\<close>, argon2 (\<open>hash\<close> with its salt; \<open>verify\<close> and \<open>needsRehash\<close>, which may
  throw, then \<open>None\<close>), the keyed hash, the JWT library (\<open>verify\<close> at a time in milliseconds with HS256
  and the tolerance of thirty seconds, \<open>None\<close> when it throws) and Redis. \<open>wd_commonPasswords\<close> is the text of
  the breached list, \<open>wd_secret\<close> the key of the token hash.
\<close>

record 's World =
  wd_lower :: "jstring \<Rightarrow> jstring"
  wd_commonPasswords :: jstring
  wd_hash :: "jstring \<Rightarrow> jstring \<Rightarrow> jstring"
  wd_verify :: "jstring \<Rightarrow> jstring \<Rightarrow> bool option"
  wd_needsRehash :: "jstring \<Rightarrow> bool option"
  wd_hmac :: "jstring \<Rightarrow> jstring \<Rightarrow> jstring"
  wd_secret :: jstring
  wd_sign :: "AccessTokenClaims \<Rightarrow> jstring"
  wd_jwt :: "int \<Rightarrow> jstring \<Rightarrow> AccessTokenClaims option"
  wd_redis :: "'s Redis"

text \<open>One request: the clocks of the process and of Redis, and what it draws.\<close>

record Moment =
  mo_now :: int
  mo_redisNow :: int
  mo_salt :: jstring
  mo_refresh :: Draw
  mo_csrfBytes :: "nat list"
  mo_jti :: jstring
  mo_userId :: jstring
  mo_createdAt :: int

section \<open>Steps\<close>

type_synonym ('s, 'a) step = "'s Server \<Rightarrow> ((Thrown + 'a) \<times> Emitted) \<times> 's Server"

definition sret :: "'a \<Rightarrow> ('s, 'a) step" where "sret x st = ((Inr x, []), st)"

definition sthrow :: "Thrown \<Rightarrow> ('s, 'a) step" where "sthrow e st = ((Inl e, []), st)"

definition sbind :: "('s, 'a) step \<Rightarrow> ('a \<Rightarrow> ('s, 'b) step) \<Rightarrow> ('s, 'b) step" where
  "sbind m f st =
     (case m st of
        ((Inl e, evs), st1) \<Rightarrow> ((Inl e, evs), st1)
      | ((Inr x, evs), st1) \<Rightarrow> (case f x st1 of ((r, evs2), st2) \<Rightarrow> ((r, evs @ evs2), st2)))"

text \<open>\<open>catch (err) { await h; throw err; }\<close>.\<close>

definition on_error :: "('s, 'a) step \<Rightarrow> ('s, unit) step \<Rightarrow> ('s, 'a) step" where
  "on_error m h st =
     (case m st of
        ((Inl e, evs), st1) \<Rightarrow> sbind (\<lambda>st. ((Inr (), evs), st)) (\<lambda>_. sbind h (\<lambda>_. sthrow e)) st1
      | done \<Rightarrow> done)"

definition sread :: "('s Server \<Rightarrow> 'a) \<Rightarrow> ('s, 'a) step" where "sread f st = ((Inr (f st), []), st)"

definition swrite :: "('s Server \<Rightarrow> 's Server) \<Rightarrow> ('s, unit) step" where "swrite f st = ((Inr (), []), f st)"

definition semit :: "SecurityEventType \<Rightarrow> payload \<Rightarrow> ('s, unit) step" where
  "semit ty p st = ((Inr (), [(ty, p)]), st)"

definition slift :: "Thrown + 'a \<Rightarrow> ('s, 'a) step" where "slift r st = ((r, []), st)"

definition swhen :: "bool \<Rightarrow> ('s, unit) step \<Rightarrow> ('s, unit) step" where
  "swhen b m = (if b then m else sret ())"

lemmas step_defs = sret_def sthrow_def sread_def swrite_def semit_def slift_def swhen_def

text \<open>A sequence that returned ran both its parts; one that threw stopped in one of them.\<close>

lemma sbind_Inr:
  assumes "sbind m f st = ((Inr y, evs), st2)"
  obtains x evs1 st1 evs2 where "m st = ((Inr x, evs1), st1)" and "f x st1 = ((Inr y, evs2), st2)"
    and "evs = evs1 @ evs2"
  using assms by (auto simp: sbind_def split: prod.splits sum.splits)

lemma sbind_simps [simp]:
  "m st = ((Inl e, evs), st1) \<Longrightarrow> sbind m f st = ((Inl e, evs), st1)"
  "m st = ((Inr x, evs), st1) \<Longrightarrow> f x st1 = ((r, evs2), st2) \<Longrightarrow> sbind m f st = ((r, evs @ evs2), st2)"
  by (simp_all add: sbind_def)

lemma sbind_pure [simp]:
  "sbind (sret x) f st = f x st"
  "sbind (sread g) f st = f (g st) st"
  "sbind (swrite h) f' st = f' () (h st)"
  "sbind (sthrow e) f st = ((Inl e, []), st)"
  "sbind (slift (Inl e)) f st = ((Inl e, []), st)"
  "sbind (slift (Inr x)) f st = f x st"
  by (simp_all add: sbind_def step_defs split: prod.splits)

lemma sbind_silent: "m st = ((Inr x, []), st1) \<Longrightarrow> sbind m f st = f x st1"
  by (simp add: sbind_def split: prod.splits)

lemma sbind_assoc: "sbind (sbind m f) g = sbind m (\<lambda>x. sbind (f x) g)"
  by (rule ext) (simp add: sbind_def split: prod.splits sum.splits)

text \<open>A part of the state that a step leaves alone.\<close>

definition keeps :: "('s Server \<Rightarrow> 'b) \<Rightarrow> ('s, 'a) step \<Rightarrow> bool" where
  "keeps p m \<longleftrightarrow> (\<forall>st. p (snd (m st)) = p st)"

lemma keeps_sbind: "keeps p m \<Longrightarrow> (\<And>x. keeps p (f x)) \<Longrightarrow> keeps p (sbind m f)"
  by (simp add: keeps_def sbind_def split: prod.splits sum.splits) (metis snd_conv)

lemma keeps_pure [simp]: "keeps p (sret x)" "keeps p (sthrow e)" "keeps p (sread g)" "keeps p (semit ty q)"
  "keeps p (slift r)"
  by (simp_all add: keeps_def step_defs)

lemma keeps_swhen: "keeps p m \<Longrightarrow> keeps p (swhen b m)"
  by (simp add: swhen_def)

lemma keepsD: "keeps p m \<Longrightarrow> m st = (r, st1) \<Longrightarrow> p st1 = p st"
  unfolding keeps_def by (metis snd_conv)

section \<open>The throttle as steps\<close>

definition checkIp_step :: "'s World \<Rightarrow> Moment \<Rightarrow> jstring \<Rightarrow> ('s, int) step" where
  "checkIp_step W M ip st =
     (case checkIp (wd_redis W) (mo_redisNow M) (mo_now M) ip (sv_throttle st) of
        (retryAfter, evs, th) \<Rightarrow> ((Inr retryAfter, evs), st\<lparr>sv_throttle := th\<rparr>))"

definition with_redis :: "('s \<Rightarrow> 'a \<times> 's) \<Rightarrow> ('s, 'a) step" where
  "with_redis f st =
     (case f (th_redis (sv_throttle st)) of
        (x, s) \<Rightarrow> ((Inr x, []), st\<lparr>sv_throttle := (sv_throttle st)\<lparr>th_redis := s\<rparr>\<rparr>))"

definition accountRetryAfter_step :: "'s World \<Rightarrow> Moment \<Rightarrow> jstring \<Rightarrow> ('s, nat) step" where
  "accountRetryAfter_step W M acctKey = with_redis (accountRetryAfter (wd_redis W) (mo_redisNow M) acctKey)"

definition recordAccountFailure_step :: "'s World \<Rightarrow> Moment \<Rightarrow> jstring \<Rightarrow> ('s, unit) step" where
  "recordAccountFailure_step W M acctKey =
     with_redis (\<lambda>s. ((), snd (recordAccountFailure (wd_redis W) (mo_redisNow M) acctKey s)))"

definition clearAccount_step :: "'s World \<Rightarrow> Moment \<Rightarrow> jstring \<Rightarrow> ('s, unit) step" where
  "clearAccount_step W M acctKey =
     with_redis (\<lambda>s. ((), clearAccount (wd_redis W) (mo_redisNow M) acctKey s))"

end
