(* ===== verification/AuthService.thy ===== *)
theory AuthService
  imports Requests
begin

text \<open>
  The authentication services: \<open>apps/api/src/auth/hashing.service.ts\<close>, \<open>access-token.service.ts\<close> and
  \<open>auth.service.ts\<close> (sign-up, login, change of password, reset by an administrator). Rows of \<open>User\<close> are
  those of \<open>OrgDb\<close>, refresh tokens those of \<open>Sessions\<close>.
\<close>

section \<open>Hashing\<close>

definition note_argon2 :: "Argon2Call \<Rightarrow> ('s, unit) step" where
  "note_argon2 c = swrite (\<lambda>st. st\<lparr>sv_argon2 := sv_argon2 st @ [c]\<rparr>)"

definition hash_password :: "'s World \<Rightarrow> Moment \<Rightarrow> jstring \<Rightarrow> ('s, jstring) step" where
  "hash_password W M plaintext =
     sbind (note_argon2 Argon2_hash) (\<lambda>_. sret (wd_hash W (mo_salt M) plaintext))"

definition verify_hash :: "'s World \<Rightarrow> jstring \<Rightarrow> jstring \<Rightarrow> bool" where
  "verify_hash W h plaintext = (case wd_verify W h plaintext of Some b \<Rightarrow> b | None \<Rightarrow> False)"

definition verify_password :: "'s World \<Rightarrow> jstring \<Rightarrow> jstring \<Rightarrow> ('s, bool) step" where
  "verify_password W h plaintext =
     sbind (note_argon2 Argon2_verify) (\<lambda>_. sret (verify_hash W h plaintext))"

text \<open>The hash of a placeholder made at boot, with some salt.\<close>

definition dummyVerify :: "'s World \<Rightarrow> jstring \<Rightarrow> jstring \<Rightarrow> ('s, bool) step" where
  "dummyVerify W dummyHash plaintext = verify_password W dummyHash plaintext"

definition needsRehash :: "'s World \<Rightarrow> jstring \<Rightarrow> bool" where
  "needsRehash W h = (case wd_needsRehash W h of Some b \<Rightarrow> b | None \<Rightarrow> True)"

section \<open>Access tokens\<close>

definition CLOCK_SKEW_LEEWAY_SECONDS :: int where "CLOCK_SKEW_LEEWAY_SECONDS = 30"

text \<open>The library stamps \<open>iat\<close> and \<open>exp\<close> on the three claims given.\<close>

definition sign_access :: "'s World \<Rightarrow> Moment \<Rightarrow> jstring \<Rightarrow> jstring" where
  "sign_access W M userId =
     wd_sign W (buildAccessClaims \<lparr>bac_userId = userId, bac_jti = mo_jti M,
                                   bac_nowSeconds = mo_now M div 1000, bac_ttlSeconds = None\<rparr>)"

definition verify_access :: "'s World \<Rightarrow> Moment \<Rightarrow> jstring \<Rightarrow> AccessTokenClaims option" where
  "verify_access W M token =
     (case wd_jwt W (mo_now M) token of
        None \<Rightarrow> None
      | Some decoded \<Rightarrow> if atc_typ decoded \<noteq> ACCESS_TOKEN_TYP then None else Some decoded)"

section \<open>The rows of users\<close>

definition find_user :: "(User \<Rightarrow> bool) \<Rightarrow> ('s, User option) step" where
  "find_user P = sread (\<lambda>st. find P (db_users (sv_db st)))"

definition create_user :: "User \<Rightarrow> OrgDb \<Rightarrow> Thrown + OrgDb" where
  "create_user u db =
     (let rows = db_users db @ [u]
      in if users_unique rows then Inr (db\<lparr>db_users := rows\<rparr>) else Inl unique_violation)"

definition set_password :: "jstring \<Rightarrow> jstring \<Rightarrow> OrgDb \<Rightarrow> Thrown + OrgDb" where
  "set_password u h db =
     (if user_fk db u
      then Inr (db\<lparr>db_users := map (\<lambda>x. if usr_id x = u then x\<lparr>usr_passwordHash := h\<rparr> else x) (db_users db)\<rparr>)
      else Inl row_not_found)"

definition db_step :: "(OrgDb \<Rightarrow> Thrown + OrgDb) \<Rightarrow> ('s, unit) step" where
  "db_step f =
     sbind (sread (\<lambda>st. f (sv_db st))) (\<lambda>r.
     sbind (slift r) (\<lambda>db. swrite (\<lambda>st. st\<lparr>sv_db := db\<rparr>)))"

definition revoke_step :: "(RefreshToken list \<Rightarrow> RefreshToken list) \<Rightarrow> ('s, unit) step" where
  "revoke_step f = swrite (\<lambda>st. st\<lparr>sv_tokens := f (sv_tokens st)\<rparr>)"

section \<open>Sign-up\<close>

fun policy_code :: "PasswordPolicyError \<Rightarrow> ErrorCode" where
  "policy_code PASSWORD_TOO_SHORT = E_PASSWORD_TOO_SHORT"
| "policy_code PASSWORD_TOO_LONG = E_PASSWORD_TOO_LONG"
| "policy_code PASSWORD_BREACHED = E_PASSWORD_BREACHED"

definition check_policy :: "'s World \<Rightarrow> jstring \<Rightarrow> ('s, unit) step" where
  "check_policy W password =
     (case checkPasswordPolicy (wd_lower W) (wd_commonPasswords W) password None of
        Inl e \<Rightarrow> sthrow (derr (policy_code e))
      | Inr _ \<Rightarrow> sret ())"

record SignupResult =
  sr_userId :: jstring
  sr_email :: jstring
  sr_verified :: bool

definition signup :: "'s World \<Rightarrow> Moment \<Rightarrow> jstring \<Rightarrow> jstring \<Rightarrow> ('s, SignupResult) step" where
  "signup W M rawEmail password =
     (let email = normalizeEmail (wd_lower W) rawEmail in
      if \<not> isValidEmailShape email then sthrow (derr E_EMAIL_INVALID)
      else
        sbind (check_policy W password) (\<lambda>_.
        sbind (find_user (\<lambda>u. usr_email u = email)) (\<lambda>existing.
        if existing \<noteq> None then sthrow (derr E_EMAIL_TAKEN)
        else
          sbind (hash_password W M password) (\<lambda>passwordHash.
          let user = \<lparr>usr_id = mo_userId M, usr_email = email, usr_passwordHash = passwordHash,
                      usr_verified = False, usr_createdAt = mo_createdAt M\<rparr>
          in sbind (db_step (create_user user)) (\<lambda>_.
             sret \<lparr>sr_userId = usr_id user, sr_email = usr_email user, sr_verified = usr_verified user\<rparr>)))))"

section \<open>Login\<close>

record LoginResult =
  lr_accessToken :: jstring
  lr_issued :: IssuedRefresh
  lr_expiresIn :: int
  lr_userId :: jstring

definition issue_step :: "'s World \<Rightarrow> Moment \<Rightarrow> jstring \<Rightarrow> jstring option \<Rightarrow> ('s, IssuedRefresh) step" where
  "issue_step W M userId deviceId =
     sbind (sread (\<lambda>st. issueOnLogin (wd_hmac W) (wd_secret W) (mo_now M) (mo_refresh M) userId deviceId (sv_tokens st)))
       (\<lambda>r. sbind (slift r) (\<lambda>(issued, rows).
        sbind (swrite (\<lambda>st. st\<lparr>sv_tokens := rows\<rparr>)) (\<lambda>_. sret issued)))"

text \<open>\<open>onFailure\<close> and \<open>onSuccess\<close> are the caller's hooks.\<close>

definition login ::
    "'s World \<Rightarrow> Moment \<Rightarrow> jstring \<Rightarrow> jstring \<Rightarrow> jstring \<Rightarrow> jstring option \<Rightarrow> ('s, unit) step \<Rightarrow> ('s, unit) step \<Rightarrow>
     ('s, LoginResult) step" where
  "login W M dummyHash rawEmail password deviceId onFailure onSuccess =
     (let email = normalizeEmail (wd_lower W) rawEmail in
      sbind (find_user (\<lambda>u. usr_email u = email)) (\<lambda>found.
      case found of
        None \<Rightarrow>
          sbind (dummyVerify W dummyHash password) (\<lambda>_.
          sbind onFailure (\<lambda>_. sthrow (derr E_INVALID_CREDENTIALS)))
      | Some user \<Rightarrow>
          sbind (verify_password W (usr_passwordHash user) password) (\<lambda>ok.
          if \<not> ok then sbind onFailure (\<lambda>_. sthrow (derr E_INVALID_CREDENTIALS))
          else
            sbind onSuccess (\<lambda>_.
            sbind (swhen (needsRehash W (usr_passwordHash user))
                     (sbind (hash_password W M password) (\<lambda>upgraded. db_step (set_password (usr_id user) upgraded)))) (\<lambda>_.
            sbind (issue_step W M (usr_id user) deviceId) (\<lambda>issued.
            sret \<lparr>lr_accessToken = sign_access W M (usr_id user), lr_issued = issued,
                  lr_expiresIn = ACCESS_TOKEN_TTL_SECONDS, lr_userId = usr_id user\<rparr>))))))"

section \<open>Change of password\<close>

definition user_payload :: "jstring \<Rightarrow> payload" where "user_payload u = [(js ''userId'', JStr u)]"

definition changePassword ::
    "'s World \<Rightarrow> Moment \<Rightarrow> jstring \<Rightarrow> jstring \<Rightarrow> jstring \<Rightarrow> jstring option \<Rightarrow> ('s, unit) step \<Rightarrow> ('s, unit) step \<Rightarrow>
     ('s, unit) step" where
  "changePassword W M userId currentPassword newPassword spareFamilyId onFailure onSuccess =
     sbind (find_user (\<lambda>u. usr_id u = userId)) (\<lambda>found.
     case found of
       None \<Rightarrow> sbind onFailure (\<lambda>_. sthrow (derr E_INVALID_CREDENTIALS))
     | Some user \<Rightarrow>
         sbind (verify_password W (usr_passwordHash user) currentPassword) (\<lambda>ok.
         if \<not> ok then sbind onFailure (\<lambda>_. sthrow (derr E_INVALID_CREDENTIALS))
         else
           sbind onSuccess (\<lambda>_.
           sbind (check_policy W newPassword) (\<lambda>_.
           sbind (hash_password W M newPassword) (\<lambda>newHash.
           sbind (db_step (set_password userId newHash)) (\<lambda>_.
           sbind (revoke_step (case not_empty spareFamilyId of
                    Some f \<Rightarrow> revokeAllExceptFamily (mo_now M) userId f
                  | None \<Rightarrow> revokeAllForUser (mo_now M) userId)) (\<lambda>_.
           semit Ev_auth_password_self_changed (user_payload userId)))))))) "

section \<open>Reset by an administrator\<close>

definition readMembershipFacts :: "OrgDb \<Rightarrow> jstring \<Rightarrow> jstring \<Rightarrow> AdminResetMembershipFacts" where
  "readMembershipFacts db organizationId userId =
     (case find (\<lambda>m. mem_org m = organizationId \<and> mem_userId m = userId) (db_memberships db) of
        None \<Rightarrow> \<lparr>arm_status = None, arm_capabilities = []\<rparr>
      | Some m \<Rightarrow>
          \<lparr>arm_status = Some (mem_status m),
           arm_capabilities =
             caps_of_role (find_scoped role_org organizationId (\<lambda>r. role_id r = mem_roleId m) (db_roles db))\<rparr>)"

definition other_active :: "OrgDb \<Rightarrow> jstring \<Rightarrow> jstring \<Rightarrow> nat" where
  "other_active db orgId u =
     length (filter (\<lambda>m. mem_userId m = u \<and> mem_status m = MActive \<and> mem_org m \<noteq> orgId) (db_memberships db))"

definition readFacts :: "OrgDb \<Rightarrow> jstring \<Rightarrow> jstring \<Rightarrow> jstring \<Rightarrow> User option \<Rightarrow> AdminResetInput" where
  "readFacts db callerUserId orgId targetUserId targetUser =
     \<lparr>ari_caller = readMembershipFacts db orgId callerUserId,
      ari_target = readMembershipFacts db orgId targetUserId,
      ari_targetActiveMembershipsInOtherOrgs = other_active db orgId targetUserId,
      ari_targetUserExists = (targetUser \<noteq> None),
      ari_callerIsTarget = (callerUserId = targetUserId)\<rparr>"

fun ADMIN_RESET_REFUSAL_EVENTS :: "AdminResetRefusal \<Rightarrow> SecurityEventType option" where
  "ADMIN_RESET_REFUSAL_EVENTS Target_active_in_other_org = Some Ev_auth_password_admin_reset_blocked_multi_org"
| "ADMIN_RESET_REFUSAL_EVENTS Target_is_owner = Some Ev_auth_password_admin_reset_blocked_owner_target"
| "ADMIN_RESET_REFUSAL_EVENTS _ = None"

definition reset_payload :: "jstring \<Rightarrow> jstring \<Rightarrow> jstring \<Rightarrow> payload" where
  "reset_payload actorUserId orgId targetUserId =
     [(js ''actorUserId'', JStr actorUserId), (js ''orgId'', JStr orgId), (js ''targetUserId'', JStr targetUserId)]"

definition refusal_events :: "jstring \<Rightarrow> jstring \<Rightarrow> jstring \<Rightarrow> AdminResetRefusal list \<Rightarrow> Emitted" where
  "refusal_events actorUserId orgId targetUserId refusals =
     map (\<lambda>ty. (ty, reset_payload actorUserId orgId targetUserId))
       (List.map_filter ADMIN_RESET_REFUSAL_EVENTS refusals)"

text \<open>
  What the transaction leaves: the error of the driver or of the lock policy, the refusals of the
  decision that rolled it back, or the address of the user whose hash it wrote. \<open>others\<close> is what other
  transactions commit after the first reading of the facts: under Read Committed the second one sees it.
\<close>

datatype ResetOutcome = Reset_faulted Thrown | Reset_turned_down "AdminResetRefusal list" | Reset_written jstring

definition admin_reset_tx ::
    "Driver \<Rightarrow> (OrgDb \<Rightarrow> OrgDb) \<Rightarrow> jstring \<Rightarrow> jstring \<Rightarrow> jstring \<Rightarrow> jstring \<Rightarrow> OrgDb \<Rightarrow> ResetOutcome \<times> OrgDb" where
  "admin_reset_tx drv others callerUserId orgId targetUserId newHash db =
     (case (case drv_fault drv of Some e \<Rightarrow> Inl (TRaw e) | None \<Rightarrow> readLockTimeoutMs (drv_lockTimeoutMs drv)) of
        Inl e \<Rightarrow> (Reset_faulted e, db)
      | Inr _ \<Rightarrow>
          (let targetUser = find (\<lambda>u. usr_id u = targetUserId) (db_users db)
           in case decideAdminReset (readFacts db callerUserId orgId targetUserId targetUser) of
                Reset_refused rs \<Rightarrow> (Reset_turned_down rs, db)
              | Reset_allowed \<Rightarrow>
                  (let db2 = others db
                   in case set_password targetUserId newHash db2 of
                        Inl e \<Rightarrow> (Reset_faulted e, db2)
                      | Inr db3 \<Rightarrow>
                          (case decideAdminReset (readFacts db3 callerUserId orgId targetUserId targetUser) of
                             Reset_refused rs \<Rightarrow> (Reset_turned_down rs, db2)
                           | Reset_allowed \<Rightarrow>
                               (Reset_written (case targetUser of Some u \<Rightarrow> usr_email u | None \<Rightarrow> []), db3)))))"

text \<open>\<open>while_hashing\<close> is what other requests commit between the check of the caller and the transaction.\<close>

record Interference =
  in_whileHashing :: "OrgDb \<Rightarrow> OrgDb"
  in_afterReading :: "OrgDb \<Rightarrow> OrgDb"

definition run_reset_tx ::
    "Driver \<Rightarrow> Interference \<Rightarrow> jstring \<Rightarrow> jstring \<Rightarrow> jstring \<Rightarrow> jstring \<Rightarrow> ('s, ResetOutcome) step" where
  "run_reset_tx drv I callerUserId orgId targetUserId newHash st =
     (case admin_reset_tx drv (in_afterReading I) callerUserId orgId targetUserId newHash
             (in_whileHashing I (sv_db st)) of
        (out, db) \<Rightarrow> ((Inr out, []), st\<lparr>sv_db := db\<rparr>))"

definition adminResetPassword ::
    "'s World \<Rightarrow> Moment \<Rightarrow> Driver \<Rightarrow> Interference \<Rightarrow> jstring \<Rightarrow> jstring \<Rightarrow> jstring \<Rightarrow> jstring \<Rightarrow> ('s, unit) step" where
  "adminResetPassword W M drv I callerUserId orgId targetUserId newPassword =
     sbind (check_policy W newPassword) (\<lambda>_.
     sbind (sread (\<lambda>st. readMembershipFacts (sv_db st) orgId callerUserId)) (\<lambda>callerFacts.
     if \<not> isAdminResetCallerAuthorized callerFacts then sthrow (derr E_NOT_FOUND)
     else
       sbind (hash_password W M newPassword) (\<lambda>newHash.
       sbind (run_reset_tx drv I callerUserId orgId targetUserId newHash) (\<lambda>outcome.
       case outcome of
         Reset_faulted e \<Rightarrow> sthrow (rethrowOrgLockError e (Some (js ''adminResetPassword'')))
       | Reset_turned_down refusals \<Rightarrow>
           sbind (\<lambda>st. ((Inr (), refusal_events callerUserId orgId targetUserId refusals), st)) (\<lambda>_.
           sthrow (derr E_NOT_FOUND))
       | Reset_written targetEmail \<Rightarrow>
           sbind (revoke_step (revokeAllForUser (mo_now M) targetUserId)) (\<lambda>_.
           sbind (clearAccount_step W M (normalizeEmail (wd_lower W) targetEmail)) (\<lambda>_.
           semit Ev_auth_password_admin_reset (reset_payload callerUserId orgId targetUserId)))))))"

end
