(* ===== verification/AuthApi.thy ===== *)
theory AuthApi
  imports AuthService IsoDates
begin

text \<open>
  The authentication endpoints: \<open>apps/api/src/auth/auth.controller.ts\<close> and the password reset of
  \<open>members.controller.ts\<close>, with the guards they name (\<open>json-only.guard.ts\<close>, \<open>jwt-auth.guard.ts\<close>), the
  double-submit check (\<open>csrf.ts\<close>) and the cookies (\<open>cookies.ts\<close>). A handler is given the request and the
  fields of its validated body.
\<close>

section \<open>The request and the answer\<close>

record AuthRequest = Request +
  ar_cookies :: "(jstring \<times> jstring) list"
  ar_csrfHeader :: jsv

definition COOKIE_REFRESH :: jstring where "COOKIE_REFRESH = js ''omni_rt''"
definition COOKIE_CSRF :: jstring where "COOKIE_CSRF = js ''omni_csrf''"
definition COOKIE_PATH :: jstring where "COOKIE_PATH = js ''/auth''"
definition CSRF_COOKIE_PATH :: jstring where "CSRF_COOKIE_PATH = js ''/''"
definition COOKIE_REFRESH_MAX_AGE_SECONDS :: int where "COOKIE_REFRESH_MAX_AGE_SECONDS = 60 * 24 * 60 * 60"

record CookieOptions =
  co_httpOnly :: bool
  co_secure :: bool
  co_sameSite :: jstring
  co_path :: jstring
  co_maxAge :: int

datatype CookieOp = Set_cookie jstring jstring CookieOptions | Clear_cookie jstring jstring

definition refresh_cookie :: "jstring \<Rightarrow> CookieOp" where
  "refresh_cookie v =
     Set_cookie COOKIE_REFRESH v
       \<lparr>co_httpOnly = True, co_secure = True, co_sameSite = js ''strict'', co_path = COOKIE_PATH,
        co_maxAge = COOKIE_REFRESH_MAX_AGE_SECONDS * 1000\<rparr>"

definition setAuthCookies :: "jstring \<Rightarrow> jstring \<Rightarrow> CookieOp list" where
  "setAuthCookies refreshValue csrfValue =
     [refresh_cookie refreshValue,
      Set_cookie COOKIE_CSRF csrfValue
        \<lparr>co_httpOnly = False, co_secure = True, co_sameSite = js ''strict'', co_path = CSRF_COOKIE_PATH,
         co_maxAge = COOKIE_REFRESH_MAX_AGE_SECONDS * 1000\<rparr>]"

definition setRefreshCookie :: "jstring \<Rightarrow> CookieOp list" where
  "setRefreshCookie refreshValue = [refresh_cookie refreshValue]"

definition clearAuthCookies :: "CookieOp list" where
  "clearAuthCookies = [Clear_cookie COOKIE_REFRESH COOKIE_PATH, Clear_cookie COOKIE_CSRF CSRF_COOKIE_PATH]"

section \<open>Guards\<close>

text \<open>\<open>/^application\/json\b/i\<close> on the trimmed header.\<close>

definition is_word :: "nat \<Rightarrow> bool" where
  "is_word c \<longleftrightarrow> is_digit c \<or> 65 \<le> c \<and> c \<le> 90 \<or> 97 \<le> c \<and> c \<le> 122 \<or> c = 95"

definition JSON_TYPE :: jstring where "JSON_TYPE = js ''application/json''"

definition is_json :: "jstring option \<Rightarrow> bool" where
  "is_json contentType =
     (let t = trim (case contentType of Some c \<Rightarrow> c | None \<Rightarrow> []); rest = drop (length JSON_TYPE) t
      in take (length JSON_TYPE) (ascii_lower t) = JSON_TYPE \<and> (rest = [] \<or> \<not> is_word (hd rest)))"

definition jsonOnlyGuard :: "AuthRequest \<Rightarrow> ('s, unit) step" where
  "jsonOnlyGuard req =
     (if is_json (rq_contentType req) then sret () else sthrow (derr E_UNSUPPORTED_MEDIA_TYPE))"

text \<open>The two messages of framework exceptions, in UTF-16.\<close>

definition LOGIN_REQUIRED_MESSAGE :: jstring where
  "LOGIN_REQUIRED_MESSAGE =
     [3605, 3657, 3629, 3591, 3648, 3586, 3657, 3634, 3626, 3641, 3656, 3619, 3632, 3610, 3610]"

definition CSRF_MESSAGE :: jstring where
  "CSRF_MESSAGE = js ''CSRF token '' @ [3652, 3617, 3656, 3606, 3641, 3585, 3605, 3657, 3629, 3591]"

definition http_error :: "nat \<Rightarrow> string \<Rightarrow> jstring \<Rightarrow> Thrown" where
  "http_error status code message =
     THttp status (JObj [(js ''error'', JObj [(js ''code'', JStr (js code)), (js ''message'', JStr message)])])"

definition BEARER :: jstring where "BEARER = js ''Bearer ''"

definition jwtAuthGuard :: "'s World \<Rightarrow> Moment \<Rightarrow> AuthRequest \<Rightarrow> ('s, jstring) step" where
  "jwtAuthGuard W M req =
     (let refused = sthrow (http_error 401 ''UNAUTHENTICATED'' LOGIN_REQUIRED_MESSAGE)
      in case rq_authorization req of
           JStr header \<Rightarrow>
             if header = [] \<or> take (length BEARER) header \<noteq> BEARER then refused
             else (case verify_access W M (trim (drop (length BEARER) header)) of
                     Some claims \<Rightarrow> sret (atc_sub claims)
                   | None \<Rightarrow> refused)
         | _ \<Rightarrow> refused)"

section \<open>The double-submit check\<close>

definition mintCsrfToken :: "Moment \<Rightarrow> jstring" where "mintCsrfToken M = base64url (mo_csrfBytes M)"

definition cookie :: "AuthRequest \<Rightarrow> jstring \<Rightarrow> jstring option" where
  "cookie req name = map_of (ar_cookies req) name"

definition csrf_header :: "AuthRequest \<Rightarrow> jstring option" where
  "csrf_header req =
     (case ar_csrfHeader req of
        JStr s \<Rightarrow> Some s | JArr (JStr s # _) \<Rightarrow> Some s | _ \<Rightarrow> None)"

definition enforceCsrfIfCookiePath :: "AuthRequest \<Rightarrow> ('s, unit) step" where
  "enforceCsrfIfCookiePath req =
     (case not_empty (cookie req COOKIE_REFRESH) of
        None \<Rightarrow> sret ()
      | Some _ \<Rightarrow>
          (case (not_empty (cookie req COOKIE_CSRF), not_empty (csrf_header req)) of
             (Some c, Some h) \<Rightarrow> if h \<noteq> c then sthrow (http_error 403 ''CSRF_FAILED'' CSRF_MESSAGE) else sret ()
           | _ \<Rightarrow> sthrow (http_error 403 ''CSRF_FAILED'' CSRF_MESSAGE)))"

definition isCookiePath :: "AuthRequest \<Rightarrow> bool" where
  "isCookiePath req \<longleftrightarrow> cookie req COOKIE_REFRESH \<noteq> None"

definition resolvePresentedRefreshToken :: "AuthRequest \<Rightarrow> jstring option \<Rightarrow> jstring option" where
  "resolvePresentedRefreshToken req bodyToken =
     (case not_empty (cookie req COOKIE_REFRESH) of Some rt \<Rightarrow> Some rt | None \<Rightarrow> bodyToken)"

section \<open>Bodies\<close>

record SignupDto =
  sd_email :: jstring
  sd_password :: jstring

datatype Transport = Cookie_transport | Body_transport

record LoginDto =
  ld_email :: jstring
  ld_password :: jstring
  ld_deviceId :: "jstring option"
  ld_tokenTransport :: "Transport option"

record RefreshDto =
  rd_refreshToken :: "jstring option"
  rd_deviceId :: "jstring option"

record LogoutDto =
  od_refreshToken :: "jstring option"
  od_familyId :: "jstring option"

record ChangePasswordDto =
  cd_currentPassword :: jstring
  cd_newPassword :: jstring
  cd_refreshToken :: "jstring option"

record TokenReply =
  tr_accessToken :: jstring
  tr_refreshToken :: "jstring option"
  tr_expiresIn :: int
  tr_tokenType :: jstring

section \<open>Handlers\<close>

definition clientIp :: "AuthRequest \<Rightarrow> jstring" where
  "clientIp req = (case rq_ip req of Some ip \<Rightarrow> ip | None \<Rightarrow> js ''unknown'')"

text \<open>\<open>if (retryAfter > 0) throttled(retryAfter)\<close>, whose exception carries the header.\<close>

definition throttled :: "int \<Rightarrow> ('s, unit) step" where
  "throttled retryAfter = (if retryAfter > 0 then sthrow (rate_limited retryAfter) else sret ())"

definition throttle_ip :: "'s World \<Rightarrow> Moment \<Rightarrow> AuthRequest \<Rightarrow> ('s, unit) step" where
  "throttle_ip W M req = sbind (checkIp_step W M (clientIp req)) throttled"

definition throttle_account :: "'s World \<Rightarrow> Moment \<Rightarrow> jstring \<Rightarrow> ('s, unit) step" where
  "throttle_account W M acctKey = sbind (accountRetryAfter_step W M acctKey) (\<lambda>n. throttled (int n))"

definition deliverTokens ::
    "Moment \<Rightarrow> Transport \<Rightarrow> jstring \<Rightarrow> jstring \<Rightarrow> int \<Rightarrow> bool \<Rightarrow> TokenReply \<times> CookieOp list" where
  "deliverTokens M transport accessToken refreshValue expiresIn mintCsrf =
     (case transport of
        Cookie_transport \<Rightarrow>
          (\<lparr>tr_accessToken = accessToken, tr_refreshToken = None, tr_expiresIn = expiresIn, tr_tokenType = js ''Bearer''\<rparr>,
           if mintCsrf then setAuthCookies refreshValue (mintCsrfToken M) else setRefreshCookie refreshValue)
      | Body_transport \<Rightarrow>
          (\<lparr>tr_accessToken = accessToken, tr_refreshToken = Some refreshValue, tr_expiresIn = expiresIn,
            tr_tokenType = js ''Bearer''\<rparr>, []))"

definition signup_handler :: "'s World \<Rightarrow> Moment \<Rightarrow> AuthRequest \<Rightarrow> SignupDto \<Rightarrow> ('s, SignupResult) step" where
  "signup_handler W M req dto =
     sbind (jsonOnlyGuard req) (\<lambda>_.
     sbind (throttle_ip W M req) (\<lambda>_.
     signup W M (sd_email dto) (sd_password dto)))"

definition login_handler ::
    "'s World \<Rightarrow> Moment \<Rightarrow> jstring \<Rightarrow> AuthRequest \<Rightarrow> LoginDto \<Rightarrow> ('s, TokenReply \<times> CookieOp list) step" where
  "login_handler W M dummyHash req dto =
     sbind (jsonOnlyGuard req) (\<lambda>_.
     (let emailNorm = normalizeEmail (wd_lower W) (ld_email dto);
          transport = (case ld_tokenTransport dto of Some t \<Rightarrow> t | None \<Rightarrow> Body_transport)
      in sbind (throttle_ip W M req) (\<lambda>_.
         sbind (throttle_account W M emailNorm) (\<lambda>_.
         sbind (login W M dummyHash (ld_email dto) (ld_password dto) (ld_deviceId dto)
                  (recordAccountFailure_step W M emailNorm) (clearAccount_step W M emailNorm)) (\<lambda>result.
         sret (deliverTokens M transport (lr_accessToken result) (ir_value (lr_issued result))
                 (lr_expiresIn result) True))))))"

definition rotate_step :: "'s World \<Rightarrow> Moment \<Rightarrow> jstring \<Rightarrow> jstring option \<Rightarrow> ('s, RotateResult) step" where
  "rotate_step W M presented deviceId st =
     (case rotate_token (wd_hmac W) (wd_secret W) (mo_now M) (mo_refresh M) presented deviceId (sv_tokens st) of
        Inl e \<Rightarrow> ((Inl e, []), st)
      | Inr (result, evs, rows) \<Rightarrow> ((Inr result, evs), st\<lparr>sv_tokens := rows\<rparr>))"

definition refresh_handler ::
    "'s World \<Rightarrow> Moment \<Rightarrow> AuthRequest \<Rightarrow> RefreshDto \<Rightarrow> ('s, TokenReply \<times> CookieOp list) step" where
  "refresh_handler W M req dto =
     sbind (jsonOnlyGuard req) (\<lambda>_.
     sbind (throttle_ip W M req) (\<lambda>_.
     case not_empty (resolvePresentedRefreshToken req (rd_refreshToken dto)) of
       None \<Rightarrow> sthrow (derr E_NO_REFRESH_TOKEN)
     | Some presented \<Rightarrow>
         sbind (enforceCsrfIfCookiePath req) (\<lambda>_.
         sbind (rotate_step W M presented (rd_deviceId dto)) (\<lambda>result.
         case result of
           INVALID_REFRESH \<Rightarrow> sthrow (derr E_INVALID_REFRESH)
         | Rotated issued userId \<Rightarrow>
             sret (deliverTokens M (if isCookiePath req then Cookie_transport else Body_transport)
                     (sign_access W M userId) (ir_value issued) ACCESS_TOKEN_TTL_SECONDS False)))))"

definition owner_of :: "'s World \<Rightarrow> Moment \<Rightarrow> jstring option \<Rightarrow> bool \<Rightarrow> ('s, (jstring \<times> jstring) option) step" where
  "owner_of W M presented liveOnly =
     sread (\<lambda>st. case not_empty presented of
                   None \<Rightarrow> None
                 | Some v \<Rightarrow> resolveFamily (wd_hmac W) (wd_secret W) (mo_now M) v liveOnly (sv_tokens st))"

definition logout_handler :: "'s World \<Rightarrow> Moment \<Rightarrow> AuthRequest \<Rightarrow> LogoutDto \<Rightarrow> ('s, CookieOp list) step" where
  "logout_handler W M req dto =
     sbind (jsonOnlyGuard req) (\<lambda>_.
     sbind (enforceCsrfIfCookiePath req) (\<lambda>_.
     sbind (owner_of W M (resolvePresentedRefreshToken req (od_refreshToken dto)) False) (\<lambda>owner.
     sbind (case owner of
              None \<Rightarrow> sret ()
            | Some (userId, familyId) \<Rightarrow>
                revoke_step (revokeFamily (mo_now M) userId
                  (case not_empty (od_familyId dto) of Some f \<Rightarrow> f | None \<Rightarrow> familyId))) (\<lambda>_.
     sret clearAuthCookies))))"

definition logoutAll_handler :: "'s World \<Rightarrow> Moment \<Rightarrow> AuthRequest \<Rightarrow> ('s, CookieOp list) step" where
  "logoutAll_handler W M req =
     sbind (jsonOnlyGuard req) (\<lambda>_.
     sbind (jwtAuthGuard W M req) (\<lambda>userId.
     sbind (revoke_step (revokeAllForUser (mo_now M) userId)) (\<lambda>_.
     sret clearAuthCookies)))"

record SessionView =
  sw_familyId :: jstring
  sw_deviceId :: "jstring option"
  sw_createdAt :: jstring
  sw_lastUsedAt :: "jstring option"
  sw_current :: bool

definition own_family :: "jstring \<Rightarrow> (jstring \<times> jstring) option \<Rightarrow> jstring option" where
  "own_family userId owner =
     (case owner of Some (u, f) \<Rightarrow> if u = userId then Some f else None | None \<Rightarrow> None)"

definition session_view :: "jstring option \<Rightarrow> Session \<Rightarrow> SessionView" where
  "session_view currentFamilyId s =
     \<lparr>sw_familyId = ss_familyId s, sw_deviceId = ss_deviceId s, sw_createdAt = toISOString (ss_createdAt s),
      sw_lastUsedAt = map_option toISOString (ss_lastUsedAt s), sw_current = (currentFamilyId = Some (ss_familyId s))\<rparr>"

definition sessions_handler :: "'s World \<Rightarrow> Moment \<Rightarrow> AuthRequest \<Rightarrow> ('s, SessionView list) step" where
  "sessions_handler W M req =
     sbind (jwtAuthGuard W M req) (\<lambda>userId.
     sbind (sread (\<lambda>st. listLiveSessions (mo_now M) userId (sv_tokens st))) (\<lambda>live.
     sbind (owner_of W M (cookie req COOKIE_REFRESH) False) (\<lambda>owner.
     sret (map (session_view (own_family userId owner)) live))))"

definition changePassword_handler :: "'s World \<Rightarrow> Moment \<Rightarrow> AuthRequest \<Rightarrow> ChangePasswordDto \<Rightarrow> ('s, unit) step" where
  "changePassword_handler W M req dto =
     sbind (jsonOnlyGuard req) (\<lambda>_.
     sbind (jwtAuthGuard W M req) (\<lambda>userId.
     sbind (enforceCsrfIfCookiePath req) (\<lambda>_.
     sbind (throttle_account W M userId) (\<lambda>_.
     sbind (owner_of W M (resolvePresentedRefreshToken req (cd_refreshToken dto)) True) (\<lambda>owner.
     changePassword W M userId (cd_currentPassword dto) (cd_newPassword dto) (own_family userId owner)
       (recordAccountFailure_step W M userId) (clearAccount_step W M userId))))))"

text \<open>\<open>orgId\<close> and \<open>targetUserId\<close> are the two parameters of the path.\<close>

definition resetPassword_handler ::
    "'s World \<Rightarrow> Moment \<Rightarrow> Driver \<Rightarrow> Interference \<Rightarrow> AuthRequest \<Rightarrow> jstring \<Rightarrow> jstring \<Rightarrow> jstring \<Rightarrow> ('s, unit) step" where
  "resetPassword_handler W M drv I req orgId targetUserId newPassword =
     sbind (jsonOnlyGuard req) (\<lambda>_.
     sbind (jwtAuthGuard W M req) (\<lambda>callerUserId.
     (let acctKey = callerUserId @ js '':reset-password''
      in sbind (throttle_account W M acctKey) (\<lambda>_.
         sbind (on_error (adminResetPassword W M drv I callerUserId orgId targetUserId newPassword)
                  (recordAccountFailure_step W M acctKey)) (\<lambda>_.
         clearAccount_step W M acctKey)))))"

end
