(* ===== verification/AuthFacts.thy ===== *)
theory AuthFacts
  imports AuthApi SessionLifecycle ThrottleFacts
begin

text \<open>
  What the authentication endpoints promise: login tells nothing about accounts and counts wrong guesses,
  a changed or reset password ends the sessions it must, a cookie request needs its double-submit token,
  and a refused request changes nothing.
\<close>

section \<open>What a step leaves alone\<close>

text \<open>The parts of the state that the throttle never touches.\<close>

abbreviation stored :: "'s Server \<Rightarrow> OrgDb \<times> RefreshToken list" where
  "stored st \<equiv> (sv_db st, sv_tokens st)"

lemma with_redis_keeps: "keeps stored (with_redis f)" "keeps sv_argon2 (with_redis f)"
  by (simp_all add: keeps_def with_redis_def split: prod.splits)

lemma checkIp_step_keeps: "keeps stored (checkIp_step W M ip)" "keeps sv_argon2 (checkIp_step W M ip)"
  by (simp_all add: keeps_def checkIp_step_def split: prod.splits)

lemma throttled_keeps: "keeps p (throttled n)"
  by (simp add: throttled_def)

lemma throttle_keeps:
  "keeps stored (throttle_ip W M req)" "keeps sv_argon2 (throttle_ip W M req)"
  "keeps stored (throttle_account W M a)" "keeps sv_argon2 (throttle_account W M a)"
  "keeps stored (recordAccountFailure_step W M a)" "keeps sv_argon2 (recordAccountFailure_step W M a)"
  "keeps stored (clearAccount_step W M a)" "keeps sv_argon2 (clearAccount_step W M a)"
  unfolding throttle_ip_def throttle_account_def accountRetryAfter_step_def recordAccountFailure_step_def
    clearAccount_step_def
  by (intro keeps_sbind checkIp_step_keeps with_redis_keeps throttled_keeps)+

lemma guard_keeps: "keeps p (jsonOnlyGuard req)" "keeps p (enforceCsrfIfCookiePath req)" "keeps p (check_policy W pw)"
  by (simp_all add: jsonOnlyGuard_def enforceCsrfIfCookiePath_def check_policy_def split: option.splits sum.splits)

lemma jwt_keeps: "keeps p (jwtAuthGuard W M req)"
  by (simp add: jwtAuthGuard_def Let_def split: option.splits jsv.splits)

text \<open>A step that looks at nothing but the throttle does the same whatever is stored.\<close>

definition throttle_only :: "('s, 'a) step \<Rightarrow> bool" where
  "throttle_only m \<longleftrightarrow>
     (\<forall>st db. m (st\<lparr>sv_db := db\<rparr>) = (fst (m st), (snd (m st))\<lparr>sv_db := db\<rparr>))"

lemma throttle_only_sbind: "throttle_only m \<Longrightarrow> (\<And>x. throttle_only (f x)) \<Longrightarrow> throttle_only (sbind m f)"
  by (simp add: throttle_only_def sbind_def split: prod.splits sum.splits)

lemma throttle_only_pure: "throttle_only (sret x)" "throttle_only (sthrow e)"
  by (simp_all add: throttle_only_def step_defs)

lemma throttle_only_redis: "throttle_only (with_redis f)" "throttle_only (checkIp_step W M ip)"
  by (simp_all add: throttle_only_def with_redis_def checkIp_step_def split: prod.splits)

lemma throttle_only_steps:
  "throttle_only (throttle_ip W M req)" "throttle_only (throttle_account W M a)"
  "throttle_only (recordAccountFailure_step W M a)" "throttle_only (jsonOnlyGuard req)"
  "throttle_only (note_argon2 c)"
proof -
  have t: "throttle_only (throttled n)" for n by (simp add: throttled_def throttle_only_pure)
  show "throttle_only (throttle_ip W M req)" "throttle_only (throttle_account W M a)"
    "throttle_only (recordAccountFailure_step W M a)"
    unfolding throttle_ip_def throttle_account_def accountRetryAfter_step_def recordAccountFailure_step_def
    by (intro throttle_only_sbind throttle_only_redis t)+
  show "throttle_only (jsonOnlyGuard req)" by (simp add: jsonOnlyGuard_def throttle_only_pure)
  show "throttle_only (note_argon2 c)" by (simp add: throttle_only_def note_argon2_def swrite_def)
qed

section \<open>Login tells nothing\<close>

text \<open>A login that fails at the credentials, with the database out of the picture.\<close>

definition failed_login :: "'s World \<Rightarrow> Moment \<Rightarrow> AuthRequest \<Rightarrow> LoginDto \<Rightarrow> ('s, TokenReply \<times> CookieOp list) step" where
  "failed_login W M req dto =
     (let a = normalizeEmail (wd_lower W) (ld_email dto) in
      sbind (jsonOnlyGuard req) (\<lambda>_.
      sbind (throttle_ip W M req) (\<lambda>_.
      sbind (throttle_account W M a) (\<lambda>_.
      sbind (note_argon2 Argon2_verify) (\<lambda>_.
      sbind (recordAccountFailure_step W M a) (\<lambda>_.
      sthrow (derr E_INVALID_CREDENTIALS)))))))"

lemma failed_login_throws: "\<exists>e. fst (fst (failed_login W M req dto st)) = Inl e"
  by (simp add: failed_login_def Let_def sbind_def sthrow_def split: prod.splits sum.splits)

lemma failed_login_only: "throttle_only (failed_login W M req dto)"
  unfolding failed_login_def Let_def by (intro throttle_only_sbind throttle_only_steps throttle_only_pure)

lemma sbind_cong_state:
  assumes "m st = m' st" and "\<And>x evs st1. m' st = ((Inr x, evs), st1) \<Longrightarrow> f x st1 = g x st1"
  shows "sbind m f st = sbind m' g st"
  using assms by (auto simp: sbind_def split: prod.splits sum.splits)

definition wrong_credentials :: "'s World \<Rightarrow> jstring \<Rightarrow> jstring \<Rightarrow> OrgDb \<Rightarrow> bool" where
  "wrong_credentials W a password db \<longleftrightarrow>
     (case find (\<lambda>u. usr_email u = a) (db_users db) of
        None \<Rightarrow> True
      | Some u \<Rightarrow> \<not> verify_hash W (usr_passwordHash u) password)"

lemma login_fails:
  assumes "wrong_credentials W (normalizeEmail (wd_lower W) (ld_email dto)) (ld_password dto) (sv_db st)"
  shows "login_handler W M dummyHash req dto st = failed_login W M req dto st"
proof -
  let ?a = "normalizeEmail (wd_lower W) (ld_email dto)"
  have k: "sv_db st1 = sv_db st" if "jsonOnlyGuard req st = (r, st2)" "throttle_ip W M req st2 = (r', st3)"
    "throttle_account W M ?a st3 = (r'', st1)" for r r' r'' st1 st2 st3
    using keepsD [OF guard_keeps(1) [of stored] that(1)] keepsD [OF throttle_keeps(1) that(2)]
      keepsD [OF throttle_keeps(3) that(3)] by simp
  have l: "sbind (login W M dummyHash (ld_email dto) (ld_password dto) (ld_deviceId dto)
        (recordAccountFailure_step W M ?a) (clearAccount_step W M ?a)) f st1 =
      sbind (note_argon2 Argon2_verify) (\<lambda>_. sbind (recordAccountFailure_step W M ?a)
        (\<lambda>_. sthrow (derr E_INVALID_CREDENTIALS))) st1" if "sv_db st1 = sv_db st" for f st1
  proof (cases "find (\<lambda>u. usr_email u = ?a) (db_users (sv_db st1))")
    case None
    then show ?thesis
      by (simp add: login_def Let_def find_user_def dummyVerify_def verify_password_def sbind_assoc)
        (simp add: sbind_def sthrow_def sret_def split: prod.splits sum.splits)
  next
    case (Some u)
    with assms that have "\<not> verify_hash W (usr_passwordHash u) (ld_password dto)" by (simp add: wrong_credentials_def)
    with Some show ?thesis
      by (simp add: login_def Let_def find_user_def verify_password_def sbind_assoc)
        (simp add: sbind_def sthrow_def sret_def split: prod.splits sum.splits)
  qed
  show ?thesis
    unfolding login_handler_def failed_login_def Let_def
    by (intro sbind_cong_state refl l) (auto dest: k)
qed

text \<open>
  C14: A failed login tells nothing about the account. Take one and the same request against two
  databases, one without a user of the address, the other with that user and a password that does not
  verify, all else equal. The answer is the same error, the audit events are the same, and the state left
  behind is the same but for the database itself, which neither changed: the same counters of address and
  account, the same sessions and the same calls of the hashing library.
\<close>

theorem login_tells_nothing:
  assumes "find (\<lambda>u. usr_email u = normalizeEmail (wd_lower W) (ld_email dto)) (db_users db1) = None"
    and "find (\<lambda>u. usr_email u = normalizeEmail (wd_lower W) (ld_email dto)) (db_users db2) = Some u"
    and "\<not> verify_hash W (usr_passwordHash u) (ld_password dto)"
  shows "\<exists>e evs st2.
    login_handler W M dummyHash req dto (st\<lparr>sv_db := db1\<rparr>) = ((Inl e, evs), st2\<lparr>sv_db := db1\<rparr>) \<and>
    login_handler W M dummyHash req dto (st\<lparr>sv_db := db2\<rparr>) = ((Inl e, evs), st2\<lparr>sv_db := db2\<rparr>) \<and>
    sv_tokens st2 = sv_tokens st"
proof -
  have w: "wrong_credentials W (normalizeEmail (wd_lower W) (ld_email dto)) (ld_password dto) db1"
    "wrong_credentials W (normalizeEmail (wd_lower W) (ld_email dto)) (ld_password dto) db2"
    using assms by (simp_all add: wrong_credentials_def)
  obtain e evs st2 where f: "failed_login W M req dto st = ((Inl e, evs), st2)"
    using failed_login_throws [of W M req dto st] by (metis prod.collapse)
  have o: "failed_login W M req dto (st\<lparr>sv_db := db\<rparr>) = ((Inl e, evs), st2\<lparr>sv_db := db\<rparr>)" for db
    using failed_login_only [of W M req dto] f by (simp add: throttle_only_def)
  have "keeps stored (failed_login W M req dto)"
    unfolding failed_login_def Let_def
    by (intro keeps_sbind throttle_keeps guard_keeps keeps_pure) (simp add: keeps_def note_argon2_def swrite_def)
  from keepsD [OF this f] have "sv_tokens st2 = sv_tokens st" by simp
  with o login_fails [of W dto "st\<lparr>sv_db := _\<rparr>" M dummyHash req] w show ?thesis by auto
qed

section \<open>Wrong guesses\<close>

text \<open>A login that did not get past the password.\<close>

definition turned_away :: "Thrown + 'a \<Rightarrow> bool" where
  "turned_away r \<longleftrightarrow>
     r = Inl (derr E_INVALID_CREDENTIALS) \<or> r = Inl (derr E_UNSUPPORTED_MEDIA_TYPE) \<or> (\<exists>n. r = Inl (rate_limited n))"

abbreviation acct_cell :: "('s \<Rightarrow> jstring \<Rightarrow> cell) \<Rightarrow> jstring \<Rightarrow> 's Server \<Rightarrow> cell" where
  "acct_cell cell a st \<equiv> cell (th_redis (sv_throttle st)) (THROTTLE_ACCT_PREFIX @ a)"

lemma ip_key_not_acct: "THROTTLE_IP_PREFIX @ x \<noteq> THROTTLE_ACCT_PREFIX @ a"
  by (simp add: THROTTLE_IP_PREFIX_def THROTTLE_ACCT_PREFIX_def js_def)

locale redis_world =
  fixes W :: "'s World" and cell :: "'s \<Rightarrow> jstring \<Rightarrow> cell"
  assumes ok: "redis_ok (wd_redis W) cell" and up: "redis_up (wd_redis W)"
begin

lemma ip_keeps_cell: "keeps (acct_cell cell a) (throttle_ip W M req)"
proof -
  have "acct_cell cell a (snd (checkIp_step W M ip st)) = acct_cell cell a st" for ip st
  proof -
    from up_hit [OF up] obtain s' c ttl where h: "hit (wd_redis W) (mo_redisNow M)
        (THROTTLE_IP_PREFIX @ clientIpKey (Some ip)) IP_WINDOW_MAX IP_WINDOW_SECONDS (th_redis (sv_throttle st)) =
        (s', Some (c, ttl))" by blast
    from ip_answer [OF h] obtain r where "checkIp (wd_redis W) (mo_redisNow M) (mo_now M) ip (sv_throttle st) =
        (r, [], (sv_throttle st)\<lparr>th_redis := s'\<rparr>)" by blast
    with hit_other [OF ok up ip_key_not_acct [symmetric] h] show ?thesis by (simp add: checkIp_step_def)
  qed
  then show ?thesis unfolding throttle_ip_def by (intro keeps_sbind throttled_keeps) (simp add: keeps_def)
qed

lemma retry_keeps_cell: "keeps (acct_cell cell a) (throttle_account W M b)"
proof -
  have "acct_cell cell a (snd (accountRetryAfter_step W M b st)) = acct_cell cell a st" for st
  proof -
    from up_get [OF up] obtain s' v where
      g: "rd_get (wd_redis W) (mo_redisNow M) (THROTTLE_ACCT_PREFIX @ b) (th_redis (sv_throttle st)) = (s', Some v)" by blast
    with redis_get [OF ok g] show ?thesis by (simp add: accountRetryAfter_step_def with_redis_def accountRetryAfter_def Let_def)
  qed
  then show ?thesis unfolding throttle_account_def by (intro keeps_sbind throttled_keeps) (simp add: keeps_def)
qed

lemma record_cell:
  assumes "recordAccountFailure_step W M b st = (r, st2)"
  shows "acct_cell cell a st2 =
    (if a = b then Some (fst (bumped (seen (mo_redisNow M) (acct_cell cell a st))), Some (mo_redisNow M + 900000))
     else acct_cell cell a st)"
  using assms record_failure(1) [OF ok up, of "mo_redisNow M" b]
  by (auto simp: recordAccountFailure_step_def with_redis_def)

lemma clear_cell: "a \<noteq> b \<Longrightarrow> keeps (acct_cell cell a) (clearAccount_step W M b)"
proof -
  assume "a \<noteq> b"
  have "acct_cell cell a (snd (clearAccount_step W M b st)) = acct_cell cell a st" for st
  proof -
    from up_del [OF up] obtain s' where
      d: "rd_del (wd_redis W) (mo_redisNow M) (THROTTLE_ACCT_PREFIX @ b) (th_redis (sv_throttle st)) = (s', Some ())" by blast
    with redis_del [OF ok d] \<open>a \<noteq> b\<close> show ?thesis by (simp add: clearAccount_step_def with_redis_def clearAccount_def)
  qed
  then show ?thesis by (simp add: keeps_def)
qed

text \<open>The account's gate opens only below five failures.\<close>

lemma retry_zero:
  assumes "throttle_account W M a st = ((Inr (), evs), st2)" and "acct_cell cell a st = Some (n, Some d)"
    and "mo_redisNow M < d" and "n < 2 ^ 53"
  shows "n < 5"
proof -
  have "fst (accountRetryAfter (wd_redis W) (mo_redisNow M) a (th_redis (sv_throttle st))) = backoff_window n"
    by (rule retry_after [OF ok up assms(2-4)])
  then obtain s' where a: "accountRetryAfter (wd_redis W) (mo_redisNow M) a (th_redis (sv_throttle st)) = (backoff_window n, s')"
    by (metis prod.collapse)
  have "\<not> 0 < backoff_window n"
  proof
    assume "0 < backoff_window n"
    then show False using assms(1) a
      by (simp add: throttle_account_def accountRetryAfter_step_def with_redis_def sbind_def throttled_def sthrow_def)
  qed
  then show ?thesis using backoff_window_pos [of n] by simp
qed

end

text \<open>The part of a login before the credentials.\<close>

definition login_gate :: "'s World \<Rightarrow> Moment \<Rightarrow> AuthRequest \<Rightarrow> jstring \<Rightarrow> ('s, unit) step" where
  "login_gate W M req a =
     sbind (jsonOnlyGuard req) (\<lambda>_. sbind (throttle_ip W M req) (\<lambda>_. throttle_account W M a))"

definition login_rest ::
    "'s World \<Rightarrow> Moment \<Rightarrow> jstring \<Rightarrow> LoginDto \<Rightarrow> jstring \<Rightarrow> ('s, TokenReply \<times> CookieOp list) step" where
  "login_rest W M dummyHash dto a =
     sbind (login W M dummyHash (ld_email dto) (ld_password dto) (ld_deviceId dto)
              (recordAccountFailure_step W M a) (clearAccount_step W M a)) (\<lambda>result.
     sret (deliverTokens M (case ld_tokenTransport dto of Some t \<Rightarrow> t | None \<Rightarrow> Body_transport)
             (lr_accessToken result) (ir_value (lr_issued result)) (lr_expiresIn result) True))"

lemma login_handler_gate:
  "login_handler W M dummyHash req dto st =
    sbind (login_gate W M req (normalizeEmail (wd_lower W) (ld_email dto)))
      (\<lambda>_. login_rest W M dummyHash dto (normalizeEmail (wd_lower W) (ld_email dto))) st"
  unfolding login_handler_def login_gate_def login_rest_def Let_def by (simp add: sbind_assoc)

lemma throttled_throws: "throttled n st = ((Inl e, evs), st2) \<Longrightarrow> e = rate_limited n"
  by (auto simp: throttled_def step_defs split: if_splits)

lemma gate_throws:
  assumes "login_gate W M req a st = ((Inl e, evs), st2)"
  shows "e = derr E_UNSUPPORTED_MEDIA_TYPE \<or> (\<exists>n. e = rate_limited n)"
  using assms
  by (auto simp: login_gate_def sbind_def jsonOnlyGuard_def throttle_ip_def throttle_account_def step_defs
      checkIp_step_def accountRetryAfter_step_def with_redis_def
      dest: throttled_throws split: prod.splits sum.splits if_splits)

lemma not_credentials: "rate_limited n \<noteq> derr E_INVALID_CREDENTIALS" "derr E_UNSUPPORTED_MEDIA_TYPE \<noteq> derr E_INVALID_CREDENTIALS"
  "rate_limited n \<noteq> TRaw v" "derr k \<noteq> TRaw v"
  by (auto simp: rate_limited_def derr_def domainError_def)

lemma issue_throws: "issue_step W M u dev st = ((Inl e, evs), st2) \<Longrightarrow> \<exists>v. e = TRaw v"
  by (auto simp: issue_step_def sbind_def step_defs issueOnLogin_def login_write_def create_token_def rbind_def
      prisma_error_def Let_def split: prod.splits sum.splits option.splits if_splits)

lemma rest_right:
  assumes "\<not> wrong_credentials W a (ld_password dto) (sv_db st)" and "a = normalizeEmail (wd_lower W) (ld_email dto)"
    and "login_rest W M dummyHash dto a st = ((r, evs), st2)"
  shows "\<not> turned_away r"
proof (cases r)
  case (Inl e)
  from assms(1) obtain u where u: "find (\<lambda>u. usr_email u = a) (db_users (sv_db st)) = Some u"
    and v: "verify_hash W (usr_passwordHash u) (ld_password dto)"
    by (auto simp: wrong_credentials_def split: option.splits)
  have "\<exists>v. e = TRaw v"
    using assms(3) u v Inl
    by (auto simp: login_rest_def login_def assms(2) [symmetric] Let_def find_user_def sbind_def verify_password_def
        note_argon2_def hash_password_def step_defs clearAccount_step_def with_redis_def db_step_def set_password_def
        prisma_error_def dest!: issue_throws split: prod.splits sum.splits if_splits)
  then show ?thesis using Inl not_credentials by (auto simp: turned_away_def) metis+
qed (simp add: turned_away_def)

context redis_world
begin

lemma gate_keeps_cell: "keeps (acct_cell cell a) (login_gate W M req b)"
  unfolding login_gate_def by (intro keeps_sbind guard_keeps ip_keeps_cell retry_keeps_cell)

lemma rest_other: "a \<noteq> b \<Longrightarrow> keeps (acct_cell cell a) (login_rest W M dummyHash dto b)"
proof -
  assume n: "a \<noteq> b"
  have r: "keeps (acct_cell cell a) (recordAccountFailure_step W M b)"
    using record_cell n by (auto simp: keeps_def) (metis prod.collapse)
  have d: "keeps (acct_cell cell a) (db_step f)" for f
    by (auto simp: keeps_def db_step_def sbind_def step_defs split: sum.splits)
  have i: "keeps (acct_cell cell a) (issue_step W M u dev)" for u dev
    by (auto simp: keeps_def issue_step_def sbind_def step_defs split: sum.splits prod.splits)
  have c: "keeps (acct_cell cell a) (note_argon2 x)" for x by (simp add: keeps_def note_argon2_def step_defs)
  show ?thesis
    unfolding login_rest_def login_def Let_def find_user_def dummyVerify_def verify_password_def hash_password_def
    by (intro keeps_sbind keeps_pure keeps_swhen r d i c clear_cell n)
      (auto split: option.splits intro!: keeps_sbind keeps_pure keeps_swhen r d i c clear_cell n)
qed

lemma gate_open:
  assumes "login_gate W M req a st = ((Inr (), evs), st2)" and "acct_cell cell a st = Some (n, Some d)"
    and "mo_redisNow M < d" and "n < 2 ^ 53"
  shows "n < 5"
proof -
  from assms(1) obtain e1 e2 s1 s2 e3 where j: "jsonOnlyGuard req st = ((Inr (), e1), s1)"
    and i: "throttle_ip W M req s1 = ((Inr (), e2), s2)" and t: "throttle_account W M a s2 = ((Inr (), e3), st2)"
    by (auto simp: login_gate_def elim!: sbind_Inr)
  have "acct_cell cell a s2 = acct_cell cell a st"
    using keepsD [OF guard_keeps(1) j] keepsD [OF ip_keeps_cell i] by metis
  from retry_zero [OF t, unfolded this, OF assms(2-4)] show ?thesis .
qed

text \<open>
  A login refused for its credentials is counted for its account and for no other: the failures that had not
  expired and one more, until a quarter of an hour from now.
\<close>

lemma wrong_login_counted:
  assumes "login_handler W M dummyHash req dto st = ((Inl (derr E_INVALID_CREDENTIALS), evs), st2)"
  shows "acct_cell cell a st2 =
    (if a = normalizeEmail (wd_lower W) (ld_email dto)
     then Some (fst (bumped (seen (mo_redisNow M) (acct_cell cell a st))), Some (mo_redisNow M + 900000))
     else acct_cell cell a st)"
proof -
  let ?b = "normalizeEmail (wd_lower W) (ld_email dto)"
  note h = assms [unfolded login_handler_gate]
  obtain g e1 s1 where g: "login_gate W M req ?b st = ((g, e1), s1)" by (metis prod.collapse)
  have "g = Inr ()"
  proof (cases g)
    case (Inl e)
    with h g have "e = derr E_INVALID_CREDENTIALS" by simp
    with gate_throws [of W M req ?b st e] g Inl not_credentials show ?thesis by metis
  qed simp
  with g have g: "login_gate W M req ?b st = ((Inr (), e1), s1)" by simp
  obtain r2 e2 s2 where rest: "login_rest W M dummyHash dto ?b s1 = ((r2, e2), s2)" by (metis prod.collapse)
  with h g have r: "r2 = Inl (derr E_INVALID_CREDENTIALS)" "st2 = s2" by simp_all
  have db: "sv_db s1 = sv_db st"
  proof -
    have "keeps stored (login_gate W M req ?b)"
      unfolding login_gate_def by (intro keeps_sbind throttle_keeps guard_keeps)
    from keepsD [OF this g] show ?thesis by simp
  qed
  have w: "wrong_credentials W ?b (ld_password dto) (sv_db s1)"
    using rest_right [OF _ refl rest] r by (auto simp: turned_away_def)
  have f: "failed_login W M req dto st = ((Inl (derr E_INVALID_CREDENTIALS), evs), st2)"
    using login_fails [of W dto st M dummyHash req] w db assms by simp
  have fg: "failed_login W M req dto st = sbind (login_gate W M req ?b) (\<lambda>_. sbind (note_argon2 Argon2_verify)
      (\<lambda>_. sbind (recordAccountFailure_step W M ?b) (\<lambda>_. sthrow (derr E_INVALID_CREDENTIALS)))) st"
    unfolding failed_login_def login_gate_def Let_def by (simp add: sbind_assoc)
  let ?s = "s1\<lparr>sv_argon2 := sv_argon2 s1 @ [Argon2_verify]\<rparr>"
  obtain s3 where rec: "recordAccountFailure_step W M ?b ?s = ((Inr (), []), s3)"
    by (simp add: recordAccountFailure_step_def with_redis_def)
  from f fg g rec have "st2 = s3" by (simp add: sbind_def note_argon2_def step_defs)
  with record_cell [OF rec, of a] keepsD [OF gate_keeps_cell g] show ?thesis by simp
qed

end

end
