(* ===== verification/PasswordFacts.thy ===== *)
theory PasswordFacts
  imports AuthFacts
begin

text \<open>
  A changed or reset password, request by request: what an answer of success means, and that a refusal
  changes nothing. Then the double-submit check, and the way from sign-up to a session.
\<close>

section \<open>Revoked sessions\<close>

lemma revoke_where_live: "r \<in> set (revoke_where P now rows) \<Longrightarrow> rt_live t r \<Longrightarrow> \<not> P r"
  by (auto simp: revoke_where_def revoke_one_live) (auto simp: revoke_one_def)

lemma revoke_where_rest:
  "(\<And>r. P (revoke_one P now r) \<longleftrightarrow> P r) \<Longrightarrow>
     filter (\<lambda>r. \<not> P r) (revoke_where P now rows) = filter (\<lambda>r. \<not> P r) rows"
  by (induction rows) (auto simp: revoke_where_def revoke_one_def)

text \<open>The rows of \<open>u\<close> outside the spared family are revoked, every other row is as it was.\<close>

definition sessions_ended :: "jstring \<Rightarrow> jstring option \<Rightarrow> int \<Rightarrow> RefreshToken list \<Rightarrow> RefreshToken list \<Rightarrow> bool" where
  "sessions_ended u spare now rows rows2 \<longleftrightarrow>
     (\<forall>r t. r \<in> set rows2 \<and> rt_userId r = u \<and> rt_live t r \<longrightarrow> spare = Some (rt_familyId r)) \<and>
     filter (\<lambda>r. rt_userId r \<noteq> u \<or> spare = Some (rt_familyId r)) rows2 =
     filter (\<lambda>r. rt_userId r \<noteq> u \<or> spare = Some (rt_familyId r)) rows"

lemma all_ended: "sessions_ended u None now rows (revokeAllForUser now u rows)"
proof -
  let ?P = "\<lambda>r. rt_userId r = u"
  show ?thesis using revoke_where_live [of _ ?P now rows] revoke_where_rest [of ?P now rows]
    by (auto simp: sessions_ended_def revokeAllForUser_def)
qed

lemma others_ended: "sessions_ended u (Some f) now rows (revokeAllExceptFamily now u f rows)"
proof -
  let ?P = "\<lambda>r. rt_userId r = u \<and> rt_familyId r \<noteq> f"
  have c: "f = rt_familyId r \<longleftrightarrow> rt_familyId r = f" for r by auto
  show ?thesis using revoke_where_live [of _ ?P now rows] revoke_where_rest [of ?P now rows]
    by (auto simp: sessions_ended_def revokeAllExceptFamily_def c)
qed

lemma spared_ended:
  "sessions_ended u spare now rows
     ((case spare of Some f \<Rightarrow> revokeAllExceptFamily now u f | None \<Rightarrow> revokeAllForUser now u) rows)"
  by (simp add: all_ended others_ended split: option.splits)

section \<open>The own password\<close>

lemma set_password_effect:
  "set_password u h db = Inr db2 \<longleftrightarrow>
     user_fk db u \<and>
     db2 = db\<lparr>db_users := map (\<lambda>x. if usr_id x = u then x\<lparr>usr_passwordHash := h\<rparr> else x) (db_users db)\<rparr>"
  by (auto simp: set_password_def)

lemma found_user_fk: "find (\<lambda>u. usr_id u = i) (db_users db) = Some user \<Longrightarrow> user_fk db i"
  by (auto simp: user_fk_def list_ex_iff dest: find_SomeD)

definition policy_ok :: "'s World \<Rightarrow> jstring \<Rightarrow> bool" where
  "policy_ok W pw \<longleftrightarrow> checkPasswordPolicy (wd_lower W) (wd_commonPasswords W) pw None = Inr ()"

lemma check_policy_cases: "check_policy W pw st = ((if policy_ok W pw then Inr () else fst (fst (check_policy W pw st)), []), st)"
  by (auto simp: check_policy_def policy_ok_def step_defs split: sum.splits)

lemma check_policy_Inr: "check_policy W pw st = ((Inr (), evs), st2) \<Longrightarrow> policy_ok W pw \<and> evs = [] \<and> st2 = st"
  by (auto simp: check_policy_def policy_ok_def step_defs split: sum.splits)

lemma check_policy_Inl: "check_policy W pw st = ((Inl e, evs), st2) \<Longrightarrow> evs = [] \<and> st2 = st"
  by (auto simp: check_policy_def policy_ok_def step_defs split: sum.splits)

definition password_changed ::
    "'s World \<Rightarrow> Moment \<Rightarrow> jstring \<Rightarrow> jstring \<Rightarrow> jstring \<Rightarrow> jstring option \<Rightarrow> Emitted \<Rightarrow> 's Server \<Rightarrow> 's Server \<Rightarrow> bool" where
  "password_changed W M u current new spare evs st st2 \<longleftrightarrow>
     (\<exists>user. find (\<lambda>x. usr_id x = u) (db_users (sv_db st)) = Some user \<and>
        verify_hash W (usr_passwordHash user) current) \<and>
     policy_ok W new \<and>
     set_password u (wd_hash W (mo_salt M) new) (sv_db st) = Inr (sv_db st2) \<and>
     sessions_ended u spare (mo_now M) (sv_tokens st) (sv_tokens st2) \<and>
     evs = [(Ev_auth_password_self_changed, user_payload u)]"

lemma record_step: "\<exists>s. recordAccountFailure_step W M a st = ((Inr (), []), st\<lparr>sv_throttle := s\<rparr>)"
  by (rule exI [of _ "(sv_throttle st)\<lparr>th_redis :=
      snd (recordAccountFailure (wd_redis W) (mo_redisNow M) a (th_redis (sv_throttle st)))\<rparr>"])
    (simp add: recordAccountFailure_step_def with_redis_def)

lemma clear_step: "\<exists>s. clearAccount_step W M a st = ((Inr (), []), st\<lparr>sv_throttle := s\<rparr>)"
  by (rule exI [of _ "(sv_throttle st)\<lparr>th_redis :=
      clearAccount (wd_redis W) (mo_redisNow M) a (th_redis (sv_throttle st))\<rparr>"])
    (simp add: clearAccount_step_def with_redis_def)

lemma changePassword_cases:
  assumes "changePassword W M u current new spare (recordAccountFailure_step W M a) (clearAccount_step W M a) st =
      ((r, evs), st2)"
  shows "(\<exists>e. r = Inl e \<and> evs = [] \<and> stored st2 = stored st) \<or>
    r = Inr () \<and> password_changed W M u current new (not_empty spare) evs st st2"
proof (cases "find (\<lambda>x. usr_id x = u) (db_users (sv_db st))")
  case None
  obtain s where "recordAccountFailure_step W M a st = ((Inr (), []), st\<lparr>sv_throttle := s\<rparr>)" using record_step by blast
  with assms None show ?thesis by (auto simp: changePassword_def find_user_def sbind_def sthrow_def sread_def)
next
  case (Some user)
  let ?st = "st\<lparr>sv_argon2 := sv_argon2 st @ [Argon2_verify]\<rparr>"
  show ?thesis
  proof (cases "verify_hash W (usr_passwordHash user) current")
    case False
    obtain s where "recordAccountFailure_step W M a ?st = ((Inr (), []), ?st\<lparr>sv_throttle := s\<rparr>)" using record_step by blast
    with assms Some False show ?thesis
      by (auto simp: changePassword_def find_user_def sbind_def step_defs verify_password_def note_argon2_def)
  next
    case True
    obtain s where "clearAccount_step W M a ?st = ((Inr (), []), ?st\<lparr>sv_throttle := s\<rparr>)" using clear_step by blast
    with assms Some True found_user_fk [OF Some] show ?thesis
      by (cases "policy_ok W new")
        (auto simp: changePassword_def find_user_def sbind_def step_defs verify_password_def note_argon2_def
          check_policy_def policy_ok_def hash_password_def db_step_def set_password_def revoke_step_def
          password_changed_def spared_ended split: sum.splits)
  qed
qed

lemma changePassword_succeeds:
  assumes "find (\<lambda>x. usr_id x = u) (db_users (sv_db st)) = Some user" and "verify_hash W (usr_passwordHash user) current"
    and "policy_ok W new"
  shows "\<exists>evs st2. changePassword W M u current new spare (recordAccountFailure_step W M a) (clearAccount_step W M a) st =
    ((Inr (), evs), st2)"
proof -
  let ?st = "st\<lparr>sv_argon2 := sv_argon2 st @ [Argon2_verify]\<rparr>"
  obtain s where "clearAccount_step W M a ?st = ((Inr (), []), ?st\<lparr>sv_throttle := s\<rparr>)" using clear_step by blast
  with assms found_user_fk [OF assms(1)] show ?thesis
    by (simp add: changePassword_def find_user_def sbind_def step_defs verify_password_def note_argon2_def
        check_policy_def policy_ok_def hash_password_def db_step_def set_password_def revoke_step_def)
qed

text \<open>The family a change of password spares: that of a live token of the caller, if one was presented.\<close>

definition presented_family :: "'s World \<Rightarrow> Moment \<Rightarrow> jstring \<Rightarrow> jstring option \<Rightarrow> RefreshToken list \<Rightarrow> jstring option" where
  "presented_family W M u presented rows =
     not_empty (own_family u (case not_empty presented of
       None \<Rightarrow> None
     | Some v \<Rightarrow> resolveFamily (wd_hmac W) (wd_secret W) (mo_now M) v True rows))"

lemma guard_result: "jsonOnlyGuard req st = ((r, evs), st2) \<Longrightarrow> evs = [] \<and> st2 = st"
  "enforceCsrfIfCookiePath req st = ((r, evs), st2) \<Longrightarrow> evs = [] \<and> st2 = st"
  by (auto simp: jsonOnlyGuard_def enforceCsrfIfCookiePath_def step_defs split: option.splits if_splits)

lemma jwt_cases: "(\<exists>u. jwtAuthGuard W M req = sret u) \<or> (\<exists>e. jwtAuthGuard W M req = sthrow e)"
  by (auto simp: jwtAuthGuard_def Let_def split: option.splits jsv.splits)

lemma account_result: "throttle_account W M a st = ((r, evs), st2) \<Longrightarrow> evs = [] \<and> stored st2 = stored st"
  by (auto simp: throttle_account_def accountRetryAfter_step_def with_redis_def sbind_def throttled_def step_defs
      split: prod.splits if_splits)

lemma sret_facts [simp]: "sret u \<noteq> sthrow e" "sthrow e \<noteq> sret u" "sret u = sret v \<longleftrightarrow> u = v"
  by (auto simp: step_defs fun_eq_iff)

lemma guarded_cases:
  assumes "sbind (jsonOnlyGuard req) (\<lambda>_. sbind (jwtAuthGuard W M req) f) st = ((r, evs), st2)"
  shows "(\<exists>e. r = Inl e \<and> evs = [] \<and> st2 = st \<and>
      \<not> (is_json (rq_contentType req) \<and> (\<exists>u. jwtAuthGuard W M req = sret u))) \<or>
    (\<exists>u. is_json (rq_contentType req) \<and> jwtAuthGuard W M req = sret u \<and> f u st = ((r, evs), st2))"
  using assms jwt_cases [of W M req]
  by (cases "is_json (rq_contentType req)")
    (auto simp: jsonOnlyGuard_def)

text \<open>
  C15: A change of password. When the endpoint answers success, the bearer of the token is a user whose
  current password verified, the new one passed the policy, the row of exactly that user has the new hash
  and nothing else of the database changed; every session of the user is ended except the one whose live
  refresh token the request presented, those of other users are untouched, and the change is on the audit
  trail. When it answers anything else, neither a password nor a session changed and no event was emitted.
\<close>

theorem password_change_ends_other_sessions:
  assumes "changePassword_handler W M req dto st = ((r, evs), st2)"
  shows "(\<exists>e. r = Inl e \<and> evs = [] \<and> sv_db st2 = sv_db st \<and> sv_tokens st2 = sv_tokens st) \<or>
    r = Inr () \<and> (\<exists>u. jwtAuthGuard W M req = sret u \<and>
      password_changed W M u (cd_currentPassword dto) (cd_newPassword dto)
        (presented_family W M u (resolvePresentedRefreshToken req (cd_refreshToken dto)) (sv_tokens st)) evs st st2)"
proof -
  from guarded_cases [OF assms [unfolded changePassword_handler_def]] show ?thesis
  proof (elim disjE exE conjE)
    fix u
    assume j: "jwtAuthGuard W M req = sret u"
      and b: "sbind (enforceCsrfIfCookiePath req) (\<lambda>_. sbind (throttle_account W M u) (\<lambda>_.
        sbind (owner_of W M (resolvePresentedRefreshToken req (cd_refreshToken dto)) True) (\<lambda>owner.
        changePassword W M u (cd_currentPassword dto) (cd_newPassword dto) (own_family u owner)
          (recordAccountFailure_step W M u) (clearAccount_step W M u)))) st = ((r, evs), st2)"
    obtain c e1 s1 where c: "enforceCsrfIfCookiePath req st = ((c, e1), s1)" by (metis prod.collapse)
    obtain t e2 s2 where t: "throttle_account W M u st = ((t, e2), s2)" by (metis prod.collapse)
    note same = guard_result(2) [OF c] account_result [OF t]
    show ?thesis
    proof (cases "(\<exists>e. c = Inl e) \<or> (\<exists>e. t = Inl e)")
      case True
      then show ?thesis using b c t same by (cases c) (auto simp: sbind_def)
    next
      case False
      let ?spare = "own_family u (case not_empty (resolvePresentedRefreshToken req (cd_refreshToken dto)) of
          None \<Rightarrow> None | Some v \<Rightarrow> resolveFamily (wd_hmac W) (wd_secret W) (mo_now M) v True (sv_tokens s2))"
      have "changePassword W M u (cd_currentPassword dto) (cd_newPassword dto) ?spare
          (recordAccountFailure_step W M u) (clearAccount_step W M u) s2 = ((r, evs), st2)"
        using b c t same False by (cases c; cases t) (auto simp: sbind_def owner_of_def sread_def split: prod.splits)
      note r = changePassword_cases [OF this, folded presented_family_def]
      have e: "sv_db s2 = sv_db st" "sv_tokens s2 = sv_tokens st" using same by simp_all
      show ?thesis using r [unfolded password_changed_def e] j e unfolding password_changed_def by blast
    qed
  qed auto
qed

section \<open>Reset by an administrator\<close>

text \<open>Who may reset whose password in the organization \<open>o'\<close>, as the database stands.\<close>

definition standing :: "OrgDb \<Rightarrow> jstring \<Rightarrow> jstring \<Rightarrow> jstring list option" where
  "standing db o' u =
     (let f = readMembershipFacts db o' u in if arm_status f = Some MActive then Some (arm_capabilities f) else None)"

definition may_reset :: "OrgDb \<Rightarrow> jstring \<Rightarrow> jstring \<Rightarrow> jstring \<Rightarrow> bool" where
  "may_reset db o' u target \<longleftrightarrow>
     u \<noteq> target \<and>
     (\<exists>caps tcaps. standing db o' u = Some caps \<and> standing db o' target = Some tcaps \<and>
        hasCapability caps CAPABILITY_MANAGE_MEMBERS \<and> (isOwnerRole tcaps \<longrightarrow> isOwnerRole caps)) \<and>
     (\<forall>m \<in> set (db_memberships db). mem_userId m = target \<and> mem_status m = MActive \<longrightarrow> mem_org m = o')"

lemma decide_may_reset:
  "decideAdminReset (readFacts db u o' target (Some tu)) = Reset_allowed \<longleftrightarrow> may_reset db o' u target"
  unfolding admin_reset_allowed_iff
  by (auto simp: readFacts_def may_reset_def standing_def Let_def other_active_def filter_empty_conv)

lemma readFacts_password:
  "set_password t h db = Inr db2 \<Longrightarrow> readFacts db2 u o' target tu = readFacts db u o' target tu"
  by (auto simp: set_password_effect readFacts_def readMembershipFacts_def other_active_def cong: option.case_cong)

lemma tx_written:
  assumes "admin_reset_tx drv others u o' target h db = (Reset_written email, db2)"
  obtains tu where "find (\<lambda>x. usr_id x = target) (db_users db) = Some tu" and "email = usr_email tu"
    and "may_reset db o' u target" and "may_reset (others db) o' u target"
    and "set_password target h (others db) = Inr db2"
proof -
  let ?tu = "find (\<lambda>x. usr_id x = target) (db_users db)"
  from assms have a: "decideAdminReset (readFacts db u o' target ?tu) = Reset_allowed"
    by (auto simp: admin_reset_tx_def Let_def split: sum.splits option.splits AdminResetDecision.splits)
  then obtain tu where tu: "?tu = Some tu"
    by (cases ?tu) (auto simp: readFacts_def decideAdminReset_def split: if_splits)
  from assms have "set_password target h (others db) = Inr db2"
    and b: "decideAdminReset (readFacts db2 u o' target ?tu) = Reset_allowed" and "email = usr_email tu"
    by (auto simp: admin_reset_tx_def Let_def tu split: sum.splits option.splits AdminResetDecision.splits)
  then show thesis using that [OF tu] a b readFacts_password decide_may_reset by (metis tu)
qed

lemma tx_database:
  assumes "admin_reset_tx drv others u o' target h db = (out, db2)" and "\<And>email. out \<noteq> Reset_written email"
  shows "db2 = db \<or> db2 = others db"
  using assms by (auto simp: admin_reset_tx_def Let_def split: sum.splits option.splits AdminResetDecision.splits)

lemma tx_calm:
  assumes "driver_ok drv" and "\<And>x. user_fk x target \<Longrightarrow> user_fk (others x) target"
    and "admin_reset_tx drv others u o' target h db = (out, db2)"
  shows "\<nexists>e. out = Reset_faulted e"
proof -
  have l: "readLockTimeoutMs (drv_lockTimeoutMs drv) = Inr (drv_lockTimeoutMs drv)" "drv_fault drv = None"
    using assms(1) by (simp_all add: driver_ok_def)
  have "user_fk (others db) target" if "decideAdminReset (readFacts db u o' target (find (\<lambda>x. usr_id x = target) (db_users db))) = Reset_allowed"
  proof -
    from that obtain tu where "find (\<lambda>x. usr_id x = target) (db_users db) = Some tu"
      by (cases "find (\<lambda>x. usr_id x = target) (db_users db)")
        (auto simp: readFacts_def decideAdminReset_def split: if_splits)
    from assms(2) [OF found_user_fk [OF this]] show ?thesis .
  qed
  then show ?thesis using assms(3) l
    by (auto simp: admin_reset_tx_def Let_def set_password_def split: AdminResetDecision.splits if_splits)
qed

text \<open>What a reset by \<open>u\<close> did, against what others committed meanwhile.\<close>

definition password_reset ::
    "'s World \<Rightarrow> Moment \<Rightarrow> Interference \<Rightarrow> jstring \<Rightarrow> jstring \<Rightarrow> jstring \<Rightarrow> jstring \<Rightarrow> Emitted \<Rightarrow> 's Server \<Rightarrow> 's Server \<Rightarrow> bool" where
  "password_reset W M I u o' target new evs st st2 \<longleftrightarrow>
     (let db1 = in_whileHashing I (sv_db st); db2 = in_afterReading I db1 in
      may_reset db1 o' u target \<and> may_reset db2 o' u target \<and>
      set_password target (wd_hash W (mo_salt M) new) db2 = Inr (sv_db st2) \<and>
      sessions_ended target None (mo_now M) (sv_tokens st) (sv_tokens st2) \<and>
      evs = [(Ev_auth_password_admin_reset, reset_payload u o' target)])"

lemma adminReset_cases:
  assumes "adminResetPassword W M drv I u o' target new st = ((r, evs), st2)"
  shows "r = Inr () \<and> policy_ok W new \<and> password_reset W M I u o' target new evs st st2 \<or>
    (\<exists>e. r = Inl e \<and> sv_tokens st2 = sv_tokens st \<and> sv_throttle st2 = sv_throttle st \<and>
       sv_db st2 \<in> {sv_db st, in_whileHashing I (sv_db st), in_afterReading I (in_whileHashing I (sv_db st))} \<and>
       (policy_ok W new \<longrightarrow> e = derr E_NOT_FOUND \<or> \<not> driver_ok drv \<or>
          \<not> (\<forall>x. user_fk x target \<longrightarrow> user_fk (in_afterReading I x) target)) \<and>
       (\<not> isAdminResetCallerAuthorized (readMembershipFacts (sv_db st) o' u) \<longrightarrow> evs = [] \<and> st2 = st) \<and>
       set evs \<subseteq> {(Ev_auth_password_admin_reset_blocked_multi_org, reset_payload u o' target),
         (Ev_auth_password_admin_reset_blocked_owner_target, reset_payload u o' target)})"
proof (cases "policy_ok W new \<and> isAdminResetCallerAuthorized (readMembershipFacts (sv_db st) o' u)")
  case False
  then show ?thesis using assms
    by (auto simp: adminResetPassword_def check_policy_def policy_ok_def step_defs sbind_def split: sum.splits if_splits)
next
  case True
  let ?db1 = "in_whileHashing I (sv_db st)" and ?h = "wd_hash W (mo_salt M) new"
  obtain out db where tx: "admin_reset_tx drv (in_afterReading I) u o' target ?h ?db1 = (out, db)" by force
  note run = assms [unfolded adminResetPassword_def] True tx
  have p: "check_policy W new st = ((Inr (), []), st)" using True by (simp add: check_policy_def policy_ok_def step_defs)
  show ?thesis
  proof (cases out)
    case (Reset_faulted e)
    then have "\<not> driver_ok drv \<or> \<not> (\<forall>x. user_fk x target \<longrightarrow> user_fk (in_afterReading I x) target)"
      using tx_calm [OF _ _ tx] by blast
    then show ?thesis using run p Reset_faulted tx_database [OF tx]
      by (auto simp: sbind_def step_defs hash_password_def note_argon2_def run_reset_tx_def split: prod.splits)
  next
    case (Reset_turned_down rs)
    have "set (refusal_events u o' target rs) \<subseteq>
      {(Ev_auth_password_admin_reset_blocked_multi_org, reset_payload u o' target),
       (Ev_auth_password_admin_reset_blocked_owner_target, reset_payload u o' target)}"
    proof -
      have "ADMIN_RESET_REFUSAL_EVENTS x \<noteq> None \<Longrightarrow> the (ADMIN_RESET_REFUSAL_EVENTS x) \<in>
        {Ev_auth_password_admin_reset_blocked_multi_org, Ev_auth_password_admin_reset_blocked_owner_target}" for x
        by (cases x) auto
      then show ?thesis by (auto simp: refusal_events_def List.map_filter_def)
    qed
    then show ?thesis using run p Reset_turned_down tx_database [OF tx]
      by (auto simp: sbind_def step_defs hash_password_def note_argon2_def run_reset_tx_def split: prod.splits)
  next
    case (Reset_written email)
    from tx_written [OF tx [unfolded Reset_written]] have
      f: "may_reset ?db1 o' u target" "may_reset (in_afterReading I ?db1) o' u target"
        "set_password target ?h (in_afterReading I ?db1) = Inr db" by metis+
    show ?thesis using run p Reset_written f
      by (auto simp: sbind_def step_defs hash_password_def note_argon2_def run_reset_tx_def revoke_step_def
          clearAccount_step_def with_redis_def password_reset_def Let_def all_ended split: prod.splits)
  qed
qed

lemma adminReset_succeeds:
  assumes "db1 = in_whileHashing I (sv_db st)" and "policy_ok W new" and "driver_ok drv" and "isAdminResetCallerAuthorized (readMembershipFacts (sv_db st) o' u)"
    and "find (\<lambda>x. usr_id x = target) (db_users db1) = Some tu" and "may_reset db1 o' u target"
    and "may_reset (in_afterReading I db1) o' u target" and "user_fk (in_afterReading I db1) target"
  shows "\<exists>evs st2. adminResetPassword W M drv I u o' target new st = ((Inr (), evs), st2)"
proof -
  let ?h = "wd_hash W (mo_salt M) new"
  obtain db3 where db3: "set_password target ?h (in_afterReading I db1) = Inr db3"
    using assms(8) by (simp add: set_password_def)
  have l: "readLockTimeoutMs (drv_lockTimeoutMs drv) = Inr (drv_lockTimeoutMs drv)" "drv_fault drv = None"
    using assms(3) by (simp_all add: driver_ok_def)
  have "decideAdminReset (readFacts db1 u o' target (Some tu)) = Reset_allowed"
    "decideAdminReset (readFacts db3 u o' target (Some tu)) = Reset_allowed"
    unfolding readFacts_password [OF db3] decide_may_reset by (fact assms(6,7))+
  then have "admin_reset_tx drv (in_afterReading I) u o' target ?h db1 = (Reset_written (usr_email tu), db3)"
    using assms(5) db3 l by (simp add: admin_reset_tx_def Let_def)
  then show ?thesis using assms(2,4)
    by (simp add: adminResetPassword_def check_policy_def policy_ok_def sbind_def step_defs hash_password_def
        note_argon2_def run_reset_tx_def assms(1) [symmetric] revoke_step_def clearAccount_step_def with_redis_def)
qed

definition reset_key :: "jstring \<Rightarrow> jstring" where "reset_key u = u @ js '':reset-password''"

lemma account_throws: "throttle_account W M a st = ((Inl e, evs), st2) \<Longrightarrow> \<exists>n. e = rate_limited n"
  by (auto simp: throttle_account_def accountRetryAfter_step_def with_redis_def sbind_def throttled_def step_defs
      split: prod.splits if_splits)

lemma account_argon2: "throttle_account W M a st = ((r, evs), st2) \<Longrightarrow> sv_argon2 st2 = sv_argon2 st"
  by (rule keepsD [OF throttle_keeps(4)])

lemma resetPassword_cases:
  assumes "resetPassword_handler W M drv I req o' target new st = ((r, evs), st2)"
  shows "(\<exists>e. r = Inl e \<and> evs = [] \<and> stored st2 = stored st \<and> sv_argon2 st2 = sv_argon2 st \<and>
      (is_json (rq_contentType req) \<and> (\<exists>u. jwtAuthGuard W M req = sret u) \<longrightarrow> (\<exists>n. e = rate_limited n))) \<or>
    (\<exists>u s3 s4. jwtAuthGuard W M req = sret u \<and> stored s3 = stored st \<and> sv_argon2 s3 = sv_argon2 st \<and>
      adminResetPassword W M drv I u o' target new s3 = ((r, evs), s4) \<and>
      stored st2 = stored s4 \<and> sv_argon2 st2 = sv_argon2 s4)"
proof (cases "is_json (rq_contentType req) \<and> (\<exists>u. jwtAuthGuard W M req = sret u)")
  case False
  with guarded_cases [OF assms [unfolded resetPassword_handler_def]] show ?thesis by auto
next
  case True
  with guarded_cases [OF assms [unfolded resetPassword_handler_def]] obtain u where
    u: "jwtAuthGuard W M req = sret u" and b: "sbind (throttle_account W M (reset_key u)) (\<lambda>_.
      sbind (on_error (adminResetPassword W M drv I u o' target new) (recordAccountFailure_step W M (reset_key u)))
        (\<lambda>_. clearAccount_step W M (reset_key u))) st = ((r, evs), st2)"
    by (auto simp: Let_def reset_key_def)
  obtain t e1 s3 where t: "throttle_account W M (reset_key u) st = ((t, e1), s3)" by (metis prod.collapse)
  obtain a e2 s4 where a: "adminResetPassword W M drv I u o' target new s3 = ((a, e2), s4)" by (metis prod.collapse)
  obtain x y where x: "recordAccountFailure_step W M (reset_key u) s4 = ((Inr (), []), s4\<lparr>sv_throttle := x\<rparr>)"
    and y: "clearAccount_step W M (reset_key u) s4 = ((Inr (), []), s4\<lparr>sv_throttle := y\<rparr>)"
    using record_step clear_step by metis
  note same = account_result [OF t] account_argon2 [OF t]
  show ?thesis
  proof (cases t)
    case (Inl e)
    with account_throws t have "\<exists>n. e = rate_limited n" by metis
    with Inl b t same show ?thesis by (auto simp: sbind_def)
  next
    case (Inr z)
    have "stored st2 = stored s4 \<and> sv_argon2 st2 = sv_argon2 s4 \<and> r = a \<and> evs = e2"
      using b t Inr a x y same by (cases a) (auto simp: sbind_def on_error_def sthrow_def)
    with a u same show ?thesis by blast
  qed
qed

text \<open>
  C16: A reset by an administrator, with any interference of other transactions. When it succeeds, the
  bearer of the token was, in the database the transaction first read and again in the one it wrote to,
  an active member of the organization with manage_members; the target was somebody else, an active member
  of this organization and of no other, and an Owner only if the bearer is an Owner too. Exactly the
  target's password hash is then the new one on top of what the others committed, every session of the
  target is ended and no other one, and the reset is on the audit trail. When it does not succeed, no
  session is touched and the database is what the others made of it: no password was written.
\<close>

theorem admin_reset_exact:
  assumes "resetPassword_handler W M drv I req o' target new st = ((r, evs), st2)"
  shows "(\<exists>u. r = Inr () \<and> jwtAuthGuard W M req = sret u \<and> policy_ok W new \<and>
      password_reset W M I u o' target new evs st st2) \<or>
    (\<exists>e. r = Inl e \<and> sv_tokens st2 = sv_tokens st \<and>
      sv_db st2 \<in> {sv_db st, in_whileHashing I (sv_db st), in_afterReading I (in_whileHashing I (sv_db st))})"
  using resetPassword_cases [OF assms]
proof (elim disjE exE conjE)
  fix u s3 s4
  assume u: "jwtAuthGuard W M req = sret u" and s:
    "stored s3 = stored st" "stored st2 = stored s4"
    and a: "adminResetPassword W M drv I u o' target new s3 = ((r, evs), s4)"
  have "sv_db s3 = sv_db st" "sv_tokens s3 = sv_tokens st" "sv_db st2 = sv_db s4" "sv_tokens st2 = sv_tokens s4"
    using s by simp_all
  with adminReset_cases [OF a] u show ?thesis by (auto simp: password_reset_def)
qed auto

text \<open>
  C37: All refusals of a reset look alike. For a request with a valid token that the throttle lets pass and
  a password the policy accepts, with the driver working and the target not deleted meanwhile, every
  failure is the same 404, whichever condition failed; the events are at most the two documented ones, and
  a caller without standing in the organization causes no event and no call of the hashing library.
\<close>

theorem admin_reset_refusals_uniform:
  assumes "resetPassword_handler W M drv I req o' target new st = ((Inl e, evs), st2)"
    and "is_json (rq_contentType req)" and "jwtAuthGuard W M req = sret u" and "\<nexists>n. e = rate_limited n"
    and "policy_ok W new" and "driver_ok drv"
    and "\<And>x. user_fk x target \<Longrightarrow> user_fk (in_afterReading I x) target"
  shows "e = derr E_NOT_FOUND \<and>
    set evs \<subseteq> {(Ev_auth_password_admin_reset_blocked_multi_org, reset_payload u o' target),
      (Ev_auth_password_admin_reset_blocked_owner_target, reset_payload u o' target)} \<and>
    (\<not> isAdminResetCallerAuthorized (readMembershipFacts (sv_db st) o' u) \<longrightarrow>
       evs = [] \<and> sv_argon2 st2 = sv_argon2 st)"
  using resetPassword_cases [OF assms(1)] assms(2-4)
proof (elim disjE exE conjE)
  fix v s3 s4
  assume v: "jwtAuthGuard W M req = sret v" and s: "stored s3 = stored st" "sv_argon2 s3 = sv_argon2 st"
    "sv_argon2 st2 = sv_argon2 s4"
    and a: "adminResetPassword W M drv I v o' target new s3 = ((Inl e, evs), s4)"
  have vu: "v = u" using v assms(3) by simp
  have "sv_db s3 = sv_db st" using s(1) by simp
  then show ?thesis using adminReset_cases [OF a] assms(5-7) s(2,3) vu by auto
qed auto

end
