(* ===== verification/AuthJourneys.thy ===== *)
theory AuthJourneys
  imports PasswordFacts GateDemo
begin

text \<open>
  Requests that carry the refresh token in a cookie, the way from sign-up to an authenticated request, and
  instances of the theorems on authentication.
\<close>

section \<open>The double-submit token\<close>

definition csrf_ok :: "AuthRequest \<Rightarrow> bool" where
  "csrf_ok req \<longleftrightarrow> (\<exists>c. not_empty (cookie req COOKIE_CSRF) = Some c \<and> csrf_header req = Some c)"

lemma csrf_refused:
  assumes "not_empty (cookie req COOKIE_REFRESH) = Some rt" and "\<not> csrf_ok req"
  shows "enforceCsrfIfCookiePath req = sthrow (http_error 403 ''CSRF_FAILED'' CSRF_MESSAGE)"
  using assms
  by (cases "csrf_header req")
    (auto simp: enforceCsrfIfCookiePath_def csrf_ok_def not_empty_def split: option.splits if_splits)

lemma csrf_accepted:
  assumes "not_empty (cookie req COOKIE_REFRESH) = None \<or> csrf_ok req"
  shows "enforceCsrfIfCookiePath req = sret ()"
  using assms
  by (auto simp: enforceCsrfIfCookiePath_def csrf_ok_def not_empty_def split: option.splits if_splits)

text \<open>A step that always throws and stores nothing.\<close>

definition refuses :: "('s, 'a) step \<Rightarrow> bool" where
  "refuses m \<longleftrightarrow> (\<forall>st. (\<exists>e. fst (fst (m st)) = Inl e) \<and> stored (snd (m st)) = stored st \<and>
     sv_argon2 (snd (m st)) = sv_argon2 st)"

lemma refuses_sthrow: "refuses (sthrow e)" "refuses (sbind (sthrow e) f)"
  by (simp_all add: refuses_def step_defs sbind_def)

lemma refuses_sbind:
  assumes "keeps stored m" and "keeps sv_argon2 m" and "\<And>x. refuses (f x)"
  shows "refuses (sbind m f)"
  unfolding refuses_def
proof
  fix st
  obtain r evs st2 where m: "m st = ((r, evs), st2)" by (metis prod.collapse)
  have k: "stored st2 = stored st" "sv_argon2 st2 = sv_argon2 st" using keepsD [OF assms(1) m] keepsD [OF assms(2) m] by auto
  show "(\<exists>e. fst (fst (sbind m f st)) = Inl e) \<and> stored (snd (sbind m f st)) = stored st \<and>
      sv_argon2 (snd (sbind m f st)) = sv_argon2 st"
  proof (cases r)
    case (Inr x)
    obtain r2 e2 s3 where f: "f x st2 = ((r2, e2), s3)" by (metis prod.collapse)
    have "(\<exists>e. r2 = Inl e) \<and> stored s3 = stored st2 \<and> sv_argon2 s3 = sv_argon2 st2"
      using assms(3) [of x, unfolded refuses_def, THEN spec, of st2] f by simp
    then show ?thesis using m k Inr f by (auto simp: sbind_def)
  qed (use m k in simp)
qed

text \<open>The check is passed by a request without the cookie, and by one with the pair, and by no other.\<close>

lemma sret_then [simp]: "sbind (sret x) f = f x"
  by (rule ext) (simp add: sbind_def sret_def)

lemma csrf_passes_iff:
  "enforceCsrfIfCookiePath req = sret () \<longleftrightarrow> not_empty (cookie req COOKIE_REFRESH) = None \<or> csrf_ok req"
proof (cases "not_empty (cookie req COOKIE_REFRESH)")
  case (Some rt)
  show ?thesis
  proof (cases "csrf_ok req")
    case False
    with Some show ?thesis by (simp add: csrf_refused [OF Some False])
  qed (simp add: csrf_accepted)
qed (simp add: csrf_accepted)


section \<open>From sign-up to an authenticated request\<close>

text \<open>
  The documented behaviour of the two libraries: a hash verifies the password it was made from; a signed
  token, which has no white space, is verified until its expiry and the leeway.
\<close>

definition argon2_ok :: "'s World \<Rightarrow> bool" where
  "argon2_ok W \<longleftrightarrow> (\<forall>salt p. wd_verify W (wd_hash W salt p) p = Some True)"

definition jwt_ok :: "'s World \<Rightarrow> bool" where
  "jwt_ok W \<longleftrightarrow>
     (\<forall>t c. trim (wd_sign W c) = wd_sign W c \<and>
        wd_jwt W t (wd_sign W c) = (if t div 1000 < atc_exp c + CLOCK_SKEW_LEEWAY_SECONDS then Some c else None))"

lemma access_token_lifetime:
  assumes "jwt_ok W" and "rq_authorization req = JStr (BEARER @ sign_access W M u)"
  shows "jwtAuthGuard W M2 req =
    (if mo_now M2 div 1000 < mo_now M div 1000 + 930 then sret u
     else sthrow (http_error 401 ''UNAUTHENTICATED'' LOGIN_REQUIRED_MESSAGE))"
proof -
  let ?c = "buildAccessClaims \<lparr>bac_userId = u, bac_jti = mo_jti M, bac_nowSeconds = mo_now M div 1000, bac_ttlSeconds = None\<rparr>"
  have "trim (sign_access W M u) = sign_access W M u" and
    "wd_jwt W (mo_now M2) (sign_access W M u) =
      (if mo_now M2 div 1000 < atc_exp ?c + CLOCK_SKEW_LEEWAY_SECONDS then Some ?c else None)"
    using assms(1) by (simp_all add: jwt_ok_def sign_access_def)
  moreover have "BEARER \<noteq> []" by (simp add: BEARER_def js_def)
  ultimately show ?thesis using assms(2)
    by (auto simp: jwtAuthGuard_def verify_access_def buildAccessClaims_def CLOCK_SKEW_LEEWAY_SECONDS_def
        ACCESS_TOKEN_TTL_SECONDS_def Let_def)
qed

lemma signup_Inr:
  assumes "signup W M rawEmail password st = ((Inr res, evs), st1)"
  shows "\<exists>u. find (\<lambda>x. usr_email x = normalizeEmail (wd_lower W) rawEmail) (db_users (sv_db st1)) = Some u \<and>
    usr_id u = sr_userId res \<and> usr_passwordHash u = wd_hash W (mo_salt M) password"
proof -
  let ?e = "normalizeEmail (wd_lower W) rawEmail"
  let ?u = "\<lparr>usr_id = mo_userId M, usr_email = ?e, usr_passwordHash = wd_hash W (mo_salt M) password,
      usr_verified = False, usr_createdAt = mo_createdAt M\<rparr>"
  have n: "find (\<lambda>x. usr_email x = ?e) (db_users (sv_db st)) = None"
    and d: "sv_db st1 = (sv_db st)\<lparr>db_users := db_users (sv_db st) @ [?u]\<rparr>" and i: "sr_userId res = mo_userId M"
    using assms
    by (auto simp: signup_def Let_def sbind_def step_defs check_policy_def find_user_def hash_password_def note_argon2_def
        db_step_def create_user_def split: if_splits sum.splits)
  have "find P (xs @ [y]) = Some y" if "find P xs = None" "P y" for P and xs :: "User list" and y
    using that by (induction xs) (auto split: if_splits)
  from this [OF n, of ?u] d i show ?thesis by auto
qed

text \<open>
  C34: Who signs up gets in. After a successful sign-up, at any later state where the row of the address is
  still the same, a login with the password, in any spelling of the address that normalizes alike, that the
  throttle lets pass and whose random values are fresh, succeeds: it stores the session's first token and
  hands out its value, in the cookie or in the body as asked and never in both. The access token of the
  answer authenticates exactly the new user, for fifteen minutes and the leeway of thirty seconds and not
  longer.
\<close>

theorem signed_up_user_gets_in:
  assumes "argon2_ok W" and "jwt_ok W"
    and "signup W M1 rawEmail password st = ((Inr res, evs1), st1)"
    and "normalizeEmail (wd_lower W) (ld_email dto) = normalizeEmail (wd_lower W) rawEmail" and "ld_password dto = password"
    and "find (\<lambda>x. usr_email x = normalizeEmail (wd_lower W) rawEmail) (db_users (sv_db st2)) =
      find (\<lambda>x. usr_email x = normalizeEmail (wd_lower W) rawEmail) (db_users (sv_db st1))"
    and "login_gate W M req (normalizeEmail (wd_lower W) rawEmail) st2 = ((Inr (), evs2), st3)"
    and "issueOnLogin (wd_hmac W) (wd_secret W) (mo_now M) (mo_refresh M) (sr_userId res) (ld_deviceId dto) (sv_tokens st2) =
      Inr (issued, rows)"
  shows "\<exists>reply cookies evs st4. login_handler W M dummyHash req dto st2 = ((Inr (reply, cookies), evs), st4) \<and>
    sv_tokens st4 = rows \<and>
    (if ld_tokenTransport dto = Some Cookie_transport
     then tr_refreshToken reply = None \<and> refresh_cookie (ir_value issued) \<in> set cookies
     else tr_refreshToken reply = Some (ir_value issued) \<and> cookies = []) \<and>
    (\<forall>M2 req2. rq_authorization req2 = JStr (BEARER @ tr_accessToken reply) \<longrightarrow>
       jwtAuthGuard W M2 req2 =
         (if mo_now M2 div 1000 < mo_now M div 1000 + 930 then sret (sr_userId res)
          else sthrow (http_error 401 ''UNAUTHENTICATED'' LOGIN_REQUIRED_MESSAGE)))"
proof -
  let ?a = "normalizeEmail (wd_lower W) rawEmail"
  from signup_Inr [OF assms(3)] assms(6) obtain u where
    u: "find (\<lambda>x. usr_email x = ?a) (db_users (sv_db st2)) = Some u" and id: "usr_id u = sr_userId res"
    and h: "usr_passwordHash u = wd_hash W (mo_salt M1) password" by auto
  have v: "verify_hash W (usr_passwordHash u) (ld_password dto)"
    using assms(1,5) by (simp add: h verify_hash_def argon2_ok_def)
  have "keeps stored (login_gate W M req ?a)"
    unfolding login_gate_def by (intro keeps_sbind throttle_keeps guard_keeps)
  from keepsD [OF this assms(7)] have st3: "sv_db st3 = sv_db st2" "sv_tokens st3 = sv_tokens st2" by simp_all
  let ?s = "st3\<lparr>sv_argon2 := sv_argon2 st3 @ [Argon2_verify]\<rparr>"
  obtain x where x: "clearAccount_step W M ?a ?s = ((Inr (), []), ?s\<lparr>sv_throttle := x\<rparr>)" using clear_step by metis
  have fk: "user_fk (sv_db st2) (usr_id u)" using u by (auto simp: user_fk_def list_ex_iff dest: find_SomeD)
  let ?result = "\<lparr>lr_accessToken = sign_access W M (usr_id u), lr_issued = issued,
      lr_expiresIn = ACCESS_TOKEN_TTL_SECONDS, lr_userId = usr_id u\<rparr>"
  have "\<exists>evs st4. login W M dummyHash (ld_email dto) (ld_password dto) (ld_deviceId dto)
      (recordAccountFailure_step W M ?a) (clearAccount_step W M ?a) st3 = ((Inr ?result, evs), st4) \<and> sv_tokens st4 = rows"
    using u v x st3 fk assms(8) id
    by (cases "needsRehash W (usr_passwordHash u)")
      (auto simp: login_def assms(4) Let_def find_user_def sbind_def step_defs verify_password_def note_argon2_def
        hash_password_def db_step_def set_password_def issue_step_def)
  then obtain evs st4 where l: "login W M dummyHash (ld_email dto) (ld_password dto) (ld_deviceId dto)
      (recordAccountFailure_step W M ?a) (clearAccount_step W M ?a) st3 = ((Inr ?result, evs), st4)"
    and rows: "sv_tokens st4 = rows" by blast
  let ?out = "deliverTokens M (case ld_tokenTransport dto of Some t \<Rightarrow> t | None \<Rightarrow> Body_transport)
      (sign_access W M (usr_id u)) (ir_value issued) ACCESS_TOKEN_TTL_SECONDS True"
  obtain reply cookies where out: "?out = (reply, cookies)" by force
  then have r: "tr_accessToken reply = sign_access W M (sr_userId res)"
    "if ld_tokenTransport dto = Some Cookie_transport
     then tr_refreshToken reply = None \<and> refresh_cookie (ir_value issued) \<in> set cookies
     else tr_refreshToken reply = Some (ir_value issued) \<and> cookies = []"
    by (auto simp: deliverTokens_def setAuthCookies_def id split: option.splits Transport.splits)
  have "login_handler W M dummyHash req dto st2 = ((Inr (reply, cookies), evs2 @ evs), st4)"
    unfolding login_handler_gate assms(4) using assms(7) l by (simp add: login_rest_def sbind_def sret_def out)
  with r rows access_token_lifetime [OF assms(2)] show ?thesis
    by (intro exI [of _ reply] exI [of _ cookies] exI [of _ "evs2 @ evs"] exI [of _ st4]) simp
qed

end
