(* ===== verification/AuthDemo.thy ===== *)
theory AuthDemo
  imports AuthJourneys
begin

text \<open>
  A concrete world, with the libraries as small functions that behave as documented, and instances of the
  theorems on authentication in it.
\<close>

section \<open>The world\<close>

text \<open>A token lists its claims with their lengths; the store is the one in memory.\<close>

definition put_int :: "int \<Rightarrow> jstring" where
  "put_int i = [if i < 0 then 1 else 0, nat \<bar>i\<bar>]"

definition get_int :: "nat \<Rightarrow> nat \<Rightarrow> int" where
  "get_int s n = (if s = 1 then - int n else int n)"

definition put_text :: "jstring \<Rightarrow> jstring" where "put_text s = length s # s"

definition demo_sign :: "AccessTokenClaims \<Rightarrow> jstring" where
  "demo_sign c =
     97 # put_int (atc_iat c) @ put_int (atc_exp c) @ put_text (atc_sub c) @ put_text (atc_jti c) @ atc_typ c @ [97]"

fun demo_claims :: "jstring \<Rightarrow> AccessTokenClaims option" where
  "demo_claims (_ # s1 # n1 # s2 # n2 # k # rest) =
     (let sub = take k rest in
      case drop k rest of
        j # rest2 \<Rightarrow>
          Some \<lparr>atc_sub = sub, atc_iat = get_int s1 n1, atc_exp = get_int s2 n2, atc_jti = take j rest2,
                atc_typ = butlast (drop j rest2)\<rparr>
      | [] \<Rightarrow> None)"
| "demo_claims _ = None"

definition demo_jwt :: "int \<Rightarrow> jstring \<Rightarrow> AccessTokenClaims option" where
  "demo_jwt t token =
     (case demo_claims token of
        None \<Rightarrow> None
      | Some c \<Rightarrow> if t div 1000 < atc_exp c + CLOCK_SKEW_LEEWAY_SECONDS then Some c else None)"

definition demo_world :: "(jstring \<Rightarrow> cell) World" where
  "demo_world =
     \<lparr>wd_lower = ascii_lower, wd_commonPasswords = [], wd_hash = (\<lambda>salt p. js ''h'' @ p),
      wd_verify = (\<lambda>h p. Some (h = js ''h'' @ p)), wd_needsRehash = (\<lambda>h. Some False),
      wd_hmac = demo_hmac, wd_secret = [7], wd_sign = demo_sign, wd_jwt = demo_jwt, wd_redis = memory\<rparr>"

lemma demo_decoded: "demo_claims (demo_sign c) = Some c"
  by (cases c) (simp add: demo_sign_def put_int_def get_int_def put_text_def)

lemma demo_jwt_ok: "jwt_ok demo_world"
proof -
  have "trim (demo_sign c) = demo_sign c" for c
    by (rule trim_trimmed) (simp add: trimmed_def demo_sign_def is_space_def)
  then show ?thesis by (simp add: jwt_ok_def demo_world_def demo_jwt_def demo_decoded)
qed

lemma demo_argon2_ok: "argon2_ok demo_world"
  by (simp add: argon2_ok_def demo_world_def)

lemma demo_redis: "wd_redis demo_world = memory" by (simp add: demo_world_def)

interpretation demo: redis_world demo_world "\<lambda>s. s"
  by unfold_locales (simp_all add: demo_redis memory_ok memory_up)

definition demo_moment :: "int \<Rightarrow> nat \<Rightarrow> Moment" where
  "demo_moment t n =
     \<lparr>mo_now = t, mo_redisNow = t, mo_salt = [n], mo_refresh = draw n [n], mo_csrfBytes = [n], mo_jti = [n],
      mo_userId = js ''new'', mo_createdAt = t\<rparr>"

definition demo_server :: "(jstring \<Rightarrow> cell) Server" where
  "demo_server = \<lparr>sv_db = demo_db, sv_tokens = [demo_login], sv_throttle = fresh_throttle, sv_argon2 = []\<rparr>"

definition demo_request :: "jstring option \<Rightarrow> AuthRequest" where
  "demo_request token =
     \<lparr>rq_method = js ''POST'', rq_url = js ''/'', rq_authorization = (case token of Some t \<Rightarrow> JStr (BEARER @ t) | None \<Rightarrow> JUndef),
      rq_organization = JUndef, rq_contentType = Some (js ''application/json''), rq_params = [], rq_ip = Some (js ''7.7.7.7''),
      ar_cookies = [], ar_csrfHeader = JUndef\<rparr>"

lemma demo_json [simp]: "is_json (rq_contentType (demo_request token))"
  by (simp add: demo_request_def is_json_def JSON_TYPE_def trim_def is_space_def js_def ascii_lower_def)

lemma demo_json_guard [simp]: "jsonOnlyGuard (demo_request token) = sret ()"
  by (simp add: jsonOnlyGuard_def)

definition token_of :: "jstring \<Rightarrow> jstring" where "token_of u = sign_access demo_world (demo_moment 5 0) u"

lemma demo_bearer_user: "t < 900000 \<Longrightarrow> jwtAuthGuard demo_world (demo_moment t n) (demo_request (Some (token_of u))) = sret u"
  using access_token_lifetime [OF demo_jwt_ok, of "demo_request (Some (token_of u))" "demo_moment 5 0" u "demo_moment t n"]
  by (simp add: demo_request_def token_of_def) (simp add: demo_moment_def)

lemma no_cookie: "cookie (demo_request token) c = None"
  by (simp add: cookie_def demo_request_def)

lemma demo_csrf: "enforceCsrfIfCookiePath (demo_request token) = sret ()"
  by (rule csrf_accepted) (simp add: no_cookie not_empty_def)

lemma demo_presented: "resolvePresentedRefreshToken (demo_request token) body = body"
  by (simp add: resolvePresentedRefreshToken_def no_cookie not_empty_def)

lemma fresh_account: "throttle_account demo_world M a demo_server = ((Inr (), []), demo_server)"
proof -
  have "accountRetryAfter memory t a no_store = (0, no_store)" for t
    using backoffSeconds_nat [of 0, unfolded of_nat_num_def, simplified]
    by (simp add: accountRetryAfter_def memory_def no_store_def not_empty_def backoff_window_unclamped)
  then show ?thesis
    by (simp add: throttle_account_def accountRetryAfter_step_def with_redis_def sbind_def demo_redis demo_server_def
        fresh_throttle_def throttled_def sret_def)
qed

lemma fresh_account_bind: "sbind (throttle_account demo_world M a) f demo_server = f () demo_server"
  by (rule sbind_silent) (rule fresh_account)

section \<open>Login\<close>

definition demo_login_dto :: "string \<Rightarrow> LoginDto" where
  "demo_login_dto pw =
     \<lparr>ld_email = js ''ann@x.co'', ld_password = js pw, ld_deviceId = None, ld_tokenTransport = None\<rparr>"

lemma ann_email: "normalizeEmail (wd_lower demo_world) (ld_email (demo_login_dto pw)) = js ''ann@x.co''"
  by (simp add: normalizeEmail_def demo_world_def demo_login_dto_def ascii_lower_def trim_def is_space_def js_def)

lemma ann_found: "find (\<lambda>u. usr_email u = js ''ann@x.co'') (db_users demo_db) = Some (demo_user ''ann'')"
  by (simp add: demo_db_def demo_rows js_append)

lemma login_tells_nothing_witness:
  "\<exists>e evs st2.
    login_handler demo_world (demo_moment 1 1) [] (demo_request None) (demo_login_dto ''x'')
      (demo_server\<lparr>sv_db := demo_db\<lparr>db_users := []\<rparr>\<rparr>) = ((Inl e, evs), st2\<lparr>sv_db := demo_db\<lparr>db_users := []\<rparr>\<rparr>) \<and>
    login_handler demo_world (demo_moment 1 1) [] (demo_request None) (demo_login_dto ''x'')
      (demo_server\<lparr>sv_db := demo_db\<rparr>) = ((Inl e, evs), st2\<lparr>sv_db := demo_db\<rparr>) \<and>
    sv_tokens st2 = sv_tokens demo_server"
proof (rule login_tells_nothing)
  show "\<not> verify_hash demo_world (usr_passwordHash (demo_user ''ann'')) (ld_password (demo_login_dto ''x''))"
    by (simp add: verify_hash_def demo_world_def demo_rows demo_login_dto_def js_append [symmetric] js_eq_iff)
qed (simp_all only: ann_email ann_found, simp)

section \<open>Passwords\<close>

definition twelve :: jstring where "twelve = js ''aaaaaaaaaaaa''"

lemma twelve_ok: "policy_ok demo_world twelve"
proof -
  have "code_points twelve = map (\<lambda>c. [c]) twelve"
    by (rule code_points_plain) (simp add: twelve_def js_def is_high_surrogate_def)
  then show ?thesis
    by (simp add: policy_ok_def checkPasswordPolicy_def demo_world_def PASSWORD_MIN_LENGTH_def PASSWORD_MAX_LENGTH_def
        isBreachedPassword_def loadCommonPasswords_def trim_def)
      (simp add: twelve_def isBreachedPassword_def loadCommonPasswords_def trim_def PASSWORD_MAX_LENGTH_def)
qed

lemma password_change_ends_other_sessions_witness:
  "\<exists>evs st2. changePassword_handler demo_world (demo_moment 10 3) (demo_request (Some (token_of (js ''ann''))))
      \<lparr>cd_currentPassword = [], cd_newPassword = twelve, cd_refreshToken = None\<rparr> demo_server = ((Inr (), evs), st2) \<and>
    password_changed demo_world (demo_moment 10 3) (js ''ann'') [] twelve None evs demo_server st2"
proof -
  let ?M = "demo_moment 10 3" and ?req = "demo_request (Some (token_of (js ''ann'')))"
    and ?dto = "\<lparr>cd_currentPassword = [], cd_newPassword = twelve, cd_refreshToken = None\<rparr>"
  have u: "jwtAuthGuard demo_world ?M ?req = sret (js ''ann'')" by (rule demo_bearer_user) simp
  have f: "find (\<lambda>x. usr_id x = js ''ann'') (db_users (sv_db demo_server)) = Some (demo_user ''ann'')"
    by (simp add: demo_server_def demo_db_def demo_rows)
  have v: "verify_hash demo_world (usr_passwordHash (demo_user ''ann'')) []"
    by (simp add: verify_hash_def demo_world_def demo_rows)
  have "changePassword_handler demo_world ?M ?req ?dto demo_server =
      changePassword demo_world ?M (js ''ann'') [] twelve None (recordAccountFailure_step demo_world ?M (js ''ann''))
        (clearAccount_step demo_world ?M (js ''ann'')) demo_server"
    by (simp add: changePassword_handler_def u demo_csrf fresh_account_bind demo_presented owner_of_def
        not_empty_def own_family_def)
  with changePassword_succeeds [OF f v twelve_ok] obtain evs st2 where
    h: "changePassword_handler demo_world ?M ?req ?dto demo_server = ((Inr (), evs), st2)" by metis
  from password_change_ends_other_sessions [OF h] u h show ?thesis
    by (auto simp: presented_family_def demo_presented not_empty_def own_family_def)
qed

definition demo_driver :: Driver where "demo_driver = \<lparr>drv_lockTimeoutMs = Fin 3000, drv_fault = None\<rparr>"

definition nobody :: Interference where "nobody = \<lparr>in_whileHashing = (\<lambda>db. db), in_afterReading = (\<lambda>db. db)\<rparr>"

lemma demo_driver_ok: "driver_ok demo_driver"
  unfolding demo_driver_def by (rule driver_ok_example)

lemma demo_facts:
  "readMembershipFacts demo_db (js ''o1'') (js ''ann'') = \<lparr>arm_status = Some MActive, arm_capabilities = [CAPABILITY_FULL_ACCESS]\<rparr>"
  "readMembershipFacts demo_db (js ''o1'') (js ''bob'') = \<lparr>arm_status = Some MActive, arm_capabilities = [CAPABILITY_MANAGE_MEMBERS]\<rparr>"
  by (simp_all add: readMembershipFacts_def demo_db_def demo_rows find_scoped_def caps_of_role_def)

lemma ann_may: "may_reset demo_db (js ''o1'') (js ''ann'') (js ''bob'')"
  unfolding may_reset_def standing_def demo_facts
  by (simp add: hasCapability_iff isOwnerRole_iff) (simp add: demo_db_def demo_rows)

lemma admin_reset_exact_witness:
  "\<exists>evs st2. resetPassword_handler demo_world (demo_moment 10 3) demo_driver nobody
      (demo_request (Some (token_of (js ''ann'')))) (js ''o1'') (js ''bob'') twelve demo_server = ((Inr (), evs), st2) \<and>
    password_reset demo_world (demo_moment 10 3) nobody (js ''ann'') (js ''o1'') (js ''bob'') twelve evs demo_server st2"
proof -
  let ?M = "demo_moment 10 3" and ?req = "demo_request (Some (token_of (js ''ann'')))"
  have u: "jwtAuthGuard demo_world ?M ?req = sret (js ''ann'')" by (rule demo_bearer_user) simp
  have "\<exists>evs st2. adminResetPassword demo_world ?M demo_driver nobody (js ''ann'') (js ''o1'') (js ''bob'') twelve demo_server =
      ((Inr (), evs), st2)"
    by (rule adminReset_succeeds [OF refl twelve_ok demo_driver_ok, of _ _ _ _ _ "demo_user ''bob''"])
      (use ann_may in \<open>simp_all add: nobody_def demo_server_def demo_facts isAdminResetCallerAuthorized_iff hasCapability_iff,
        simp_all add: demo_db_def demo_rows user_fk_def\<close>)
  then obtain evs s1 where a: "adminResetPassword demo_world ?M demo_driver nobody (js ''ann'') (js ''o1'') (js ''bob'')
      twelve demo_server = ((Inr (), evs), s1)" by blast
  obtain x where x: "clearAccount_step demo_world ?M (reset_key (js ''ann'')) s1 = ((Inr (), []), s1\<lparr>sv_throttle := x\<rparr>)"
    using clear_step by metis
  have h: "resetPassword_handler demo_world ?M demo_driver nobody ?req (js ''o1'') (js ''bob'') twelve demo_server =
      ((Inr (), evs), s1\<lparr>sv_throttle := x\<rparr>)"
    using a x by (simp add: resetPassword_handler_def u Let_def fresh_account_bind sbind_def [of "on_error _ _"]
        on_error_def reset_key_def [symmetric])
  from admin_reset_exact [OF h] u h show ?thesis by auto
qed

lemma admin_reset_refusals_uniform_witness:
  "\<exists>e evs st2. resetPassword_handler demo_world (demo_moment 10 3) demo_driver nobody
      (demo_request (Some (token_of (js ''bob'')))) (js ''o1'') (js ''ann'') twelve demo_server = ((Inl e, evs), st2) \<and>
    e = derr E_NOT_FOUND"
proof -
  let ?M = "demo_moment 10 3" and ?req = "demo_request (Some (token_of (js ''bob'')))"
  have u: "jwtAuthGuard demo_world ?M ?req = sret (js ''bob'')" by (rule demo_bearer_user) simp
  obtain r evs s1 where a: "adminResetPassword demo_world ?M demo_driver nobody (js ''bob'') (js ''o1'') (js ''ann'')
      twelve demo_server = ((r, evs), s1)" by (metis prod.collapse)
  have "\<not> may_reset demo_db (js ''o1'') (js ''bob'') (js ''ann'')"
    unfolding may_reset_def standing_def demo_facts by (simp add: isOwnerRole_iff capability_names)
  then have "\<not> password_reset demo_world ?M nobody (js ''bob'') (js ''o1'') (js ''ann'') twelve evs demo_server s1"
    by (simp add: password_reset_def nobody_def demo_server_def)
  with adminReset_cases [OF a] demo_driver_ok twelve_ok obtain e where r: "r = Inl e" and e: "e = derr E_NOT_FOUND"
    by (auto simp: nobody_def)
  obtain x where x: "recordAccountFailure_step demo_world ?M (reset_key (js ''bob'')) s1 =
      ((Inr (), []), s1\<lparr>sv_throttle := x\<rparr>)" using record_step by metis
  have h: "resetPassword_handler demo_world ?M demo_driver nobody ?req (js ''o1'') (js ''ann'') twelve demo_server =
      ((Inl e, evs), s1\<lparr>sv_throttle := x\<rparr>)"
    using a x r by (simp add: resetPassword_handler_def u Let_def fresh_account_bind on_error_def
        reset_key_def [symmetric]) (simp add: sbind_def sthrow_def on_error_def)
  have "\<nexists>n. e = rate_limited n" using e not_credentials by (auto simp: rate_limited_def derr_def domainError_def)
  from admin_reset_refusals_uniform [OF h demo_json u this twelve_ok demo_driver_ok] h show ?thesis
    by (auto simp: nobody_def)
qed

section \<open>Cookies and sign-up\<close>

definition cookie_request :: AuthRequest where
  "cookie_request = (demo_request None)\<lparr>ar_cookies := [(COOKIE_REFRESH, js ''v'')]\<rparr>"


definition zed_server :: "(jstring \<Rightarrow> cell) Server" where
  "zed_server = demo_server\<lparr>sv_argon2 := [Argon2_hash],
     sv_db := demo_db\<lparr>db_users := db_users demo_db @ [\<lparr>usr_id = js ''new'', usr_email = js ''zed@x.co'',
       usr_passwordHash = js ''h'' @ twelve, usr_verified = False, usr_createdAt = 20\<rparr>]\<rparr>\<rparr>"

lemma zed_email: "normalizeEmail (wd_lower demo_world) (js ''Zed@x.co '') = js ''zed@x.co''"
  by (simp add: normalizeEmail_def demo_world_def ascii_lower_def trim_def is_space_def js_def)

lemma zed_signs_up:
  "signup demo_world (demo_moment 20 5) (js ''Zed@x.co '') twelve demo_server =
     ((Inr \<lparr>sr_userId = js ''new'', sr_email = js ''zed@x.co'', sr_verified = False\<rparr>, []), zed_server)"
proof -
  have "isValidEmailShape (js ''zed@x.co'')"
    by (simp add: isValidEmailShape_def js_def is_space_def char_at_def char_dot_def Let_def)
  moreover have "find (\<lambda>u. usr_email u = js ''zed@x.co'') (db_users demo_db) = None"
    by (simp add: demo_db_def demo_rows js_append)
  moreover have "check_policy demo_world twelve = sret ()" using twelve_ok by (simp add: check_policy_def policy_ok_def)
  moreover have "users_unique (db_users demo_db @ [\<lparr>usr_id = js ''new'', usr_email = js ''zed@x.co'',
      usr_passwordHash = js ''h'' @ twelve, usr_verified = False, usr_createdAt = 20\<rparr>])"
    by (simp add: users_unique_def unique_by_def demo_db_def demo_rows js_append)
  ultimately show ?thesis
    by (simp add: signup_def zed_email Let_def find_user_def hash_password_def note_argon2_def sbind_assoc db_step_def
        create_user_def zed_server_def)
      (simp add: demo_server_def demo_world_def demo_moment_def create_user_def sbind_def step_defs)
qed

definition zed_login :: LoginDto where
  "zed_login = \<lparr>ld_email = js ''Zed@x.co '', ld_password = twelve, ld_deviceId = None, ld_tokenTransport = None\<rparr>"

lemma zed_gate:
  "\<exists>evs st3. login_gate demo_world (demo_moment 30 9) (demo_request None) (js ''zed@x.co'') zed_server = ((Inr (), evs), st3)"
proof -
  let ?M = "demo_moment 30 9" and ?th = "\<lambda>c. fresh_throttle\<lparr>th_redis := no_store(THROTTLE_IP_PREFIX @ js ''7.7.7.7'' := c)\<rparr>"
  have "\<exists>c. throttle_ip demo_world ?M (demo_request None) zed_server = ((Inr (), []), zed_server\<lparr>sv_throttle := ?th c\<rparr>)"
    by (simp add: throttle_ip_def clientIp_def demo_request_def checkIp_step_def checkIp_def seven hit_def demo_redis memory_def
        no_store_def zed_server_def demo_server_def fresh_throttle_def bumped_def IP_WINDOW_MAX_def sbind_def throttled_def
        sret_def) blast
  then obtain c where i: "throttle_ip demo_world ?M (demo_request None) zed_server =
      ((Inr (), []), zed_server\<lparr>sv_throttle := ?th c\<rparr>)" by blast
  have "accountRetryAfter memory t (js ''zed@x.co'') (th_redis (?th c)) = (0, th_redis (?th c))" for t
    using backoffSeconds_nat [of 0, unfolded of_nat_num_def, simplified]
    by (simp add: accountRetryAfter_def memory_def no_store_def not_empty_def backoff_window_unclamped ip_key_not_acct [symmetric])
  then have "throttle_account demo_world ?M (js ''zed@x.co'') (zed_server\<lparr>sv_throttle := ?th c\<rparr>) =
      ((Inr (), []), zed_server\<lparr>sv_throttle := ?th c\<rparr>)"
    by (simp add: throttle_account_def accountRetryAfter_step_def with_redis_def sbind_def demo_redis throttled_def sret_def)
  with i show ?thesis by (simp add: login_gate_def sbind_def sret_def)
qed

lemma signed_up_user_gets_in_witness:
  "\<exists>reply cookies evs st4. login_handler demo_world (demo_moment 30 9) [] (demo_request None) zed_login zed_server =
      ((Inr (reply, cookies), evs), st4) \<and> cookies = [] \<and>
    jwtAuthGuard demo_world (demo_moment 40 9) (demo_request (Some (tr_accessToken reply))) = sret (js ''new'')"
proof -
  let ?M = "demo_moment 30 9"
  obtain evs st3 where g: "login_gate demo_world ?M (demo_request None)
      (normalizeEmail (wd_lower demo_world) (js ''Zed@x.co '')) zed_server = ((Inr (), evs), st3)"
    unfolding zed_email using zed_gate by blast
  have i: "issueOnLogin (wd_hmac demo_world) (wd_secret demo_world) (mo_now ?M) (mo_refresh ?M) (js ''new'') None
      (sv_tokens zed_server) = Inr (login_issued 30 (draw 9 [9]),
        [demo_login, login_row demo_hmac [7] 30 (draw 9 [9]) (js ''new'') None])"
    by (simp add: issueOnLogin_def demo_world_def demo_moment_def zed_server_def demo_server_def liveFamilies_def
        decideFamilyCap_def LIVE_FAMILY_CAP_def login_write_def evict_def create_token_def tokens_unique_def unique_by_def
        demo_session_rows)
  have e: "ld_email zed_login = js ''Zed@x.co ''" "ld_password zed_login = twelve" "ld_deviceId zed_login = None"
    "ld_tokenTransport zed_login = None" by (simp_all add: zed_login_def)
  let ?res = "\<lparr>sr_userId = js ''new'', sr_email = js ''zed@x.co'', sr_verified = False\<rparr>"
  have i': "issueOnLogin (wd_hmac demo_world) (wd_secret demo_world) (mo_now ?M) (mo_refresh ?M) (sr_userId ?res)
      (ld_deviceId zed_login) (sv_tokens zed_server) = Inr (login_issued 30 (draw 9 [9]),
        [demo_login, login_row demo_hmac [7] 30 (draw 9 [9]) (js ''new'') None])"
    using i by (simp add: e)
  have n: "normalizeEmail (wd_lower demo_world) (ld_email zed_login) = normalizeEmail (wd_lower demo_world) (js ''Zed@x.co '')"
    by (simp add: e)
  from signed_up_user_gets_in [where dummyHash = "[]", OF demo_argon2_ok demo_jwt_ok zed_signs_up n e(2) refl g i']
  obtain reply cookies evs st4 where
    l: "login_handler demo_world ?M [] (demo_request None) zed_login zed_server = ((Inr (reply, cookies), evs), st4)"
      "cookies = []"
    and j: "\<forall>M2 req2. rq_authorization req2 = JStr (BEARER @ tr_accessToken reply) \<longrightarrow>
      jwtAuthGuard demo_world M2 req2 = (if mo_now M2 div 1000 < mo_now ?M div 1000 + 930 then sret (js ''new'')
        else sthrow (http_error 401 ''UNAUTHENTICATED'' LOGIN_REQUIRED_MESSAGE))"
    by (auto simp: e)
  have "jwtAuthGuard demo_world (demo_moment 40 9) (demo_request (Some (tr_accessToken reply))) = sret (js ''new'')"
    using j by (simp add: demo_request_def demo_moment_def)
  with l show ?thesis by blast
qed

end
