(* ===== verification/OrgProvisioning.thy ===== *)
theory OrgProvisioning
  imports MembersService
begin

text \<open>
  Creating an organization: \<open>apps/api/src/orgs/system/org-provisioning.service.ts\<close> with the plan it is
  bound to (\<open>plan-provisioning.service.ts\<close>). The cap and the plan are read before the transaction; the
  transaction inserts the organization, its three roles, the creator's membership, the entitlement
  and the default warehouse, one statement each; the event follows the commit. The identifiers and
  the creation time the database fills in are fields of the environment, and so is what a read or
  the transaction throws, if anything.
\<close>

section \<open>Inserts\<close>

definition insert_organization :: "Organization \<Rightarrow> OrgDb \<Rightarrow> Thrown + OrgDb" where
  "insert_organization o' db =
     (if \<not> unique_by org_id (db_orgs db @ [o']) then Inl unique_violation
      else Inr (db\<lparr>db_orgs := db_orgs db @ [o']\<rparr>))"

definition insert_role :: "Role \<Rightarrow> OrgDb \<Rightarrow> Thrown + OrgDb" where
  "insert_role r db =
     (if \<not> roles_unique (db_roles db @ [r]) then Inl unique_violation
      else if \<not> org_fk db (role_org r) then Inl fk_violation
      else Inr (db\<lparr>db_roles := db_roles db @ [r]\<rparr>))"

definition insert_entitlement :: "OrgEntitlement \<Rightarrow> OrgDb \<Rightarrow> Thrown + OrgDb" where
  "insert_entitlement e db =
     (if \<not> entitlements_unique (db_entitlements db @ [e]) then Inl unique_violation
      else if \<not> (org_fk db (ent_org e) \<and> plan_fk db (ent_planDefinitionId e)) then Inl fk_violation
      else Inr (db\<lparr>db_entitlements := db_entitlements db @ [e]\<rparr>))"

definition insert_warehouse :: "Warehouse \<Rightarrow> OrgDb \<Rightarrow> Thrown + OrgDb" where
  "insert_warehouse w db =
     (if \<not> warehouses_unique (db_warehouses db @ [w]) then Inl unique_violation
      else if \<not> org_fk db (wh_org w) then Inl fk_violation
      else Inr (db\<lparr>db_warehouses := db_warehouses db @ [w]\<rparr>))"

lemmas insert_defs = insert_organization_def insert_role_def insert_entitlement_def insert_warehouse_def

lemma inserts_db_ok:
  assumes "db_ok db"
  shows "insert_organization o' db = Inr db' \<Longrightarrow> db_ok db'"
    "insert_role r db = Inr db' \<Longrightarrow> db_ok db'"
    "insert_entitlement e db = Inr db' \<Longrightarrow> db_ok db'"
    "insert_warehouse w db = Inr db' \<Longrightarrow> db_ok db'"
  using assms
  by (auto simp: insert_defs db_ok_def list_all_iff org_fk_def user_fk_def role_fk_def plan_fk_def
      split: if_splits)

section \<open>The plan of a new organization\<close>

record ProvisioningEnv =
  pe_env :: ServiceEnv
  pe_maxOrgsPerUser :: jsnum
  pe_defaultPlanKey :: jstring
  pe_organizationId :: jstring
  pe_roleId :: "nat \<Rightarrow> jstring"
  pe_membershipId :: jstring
  pe_entitlementId :: jstring
  pe_warehouseId :: jstring
  pe_createdAt :: int
  pe_countFault :: "jsv option"
  pe_planFault :: "jsv option"

definition read_or_throw :: "jsv option \<Rightarrow> 'a \<Rightarrow> Thrown + 'a" where
  "read_or_throw fault x = (case fault of Some e \<Rightarrow> Inl (TRaw e) | None \<Rightarrow> Inr x)"

record ResolvedPlan =
  rp_planDefinitionId :: jstring
  rp_planKey :: jstring
  rp_tierLabel :: "jstring option"

definition resolveForNewOrg :: "ProvisioningEnv \<Rightarrow> jstring \<Rightarrow> OrgDb \<Rightarrow> Thrown + ResolvedPlan" where
  "resolveForNewOrg pe userId db =
     rbind (read_or_throw (pe_planFault pe) (find (\<lambda>p. plan_key p = pe_defaultPlanKey pe) (db_plans db))) (\<lambda>plan.
     case plan of
       None \<Rightarrow> Inl (derr E_ORG_PROVISIONING_UNAVAILABLE)
     | Some p \<Rightarrow> Inr \<lparr>rp_planDefinitionId = plan_id p, rp_planKey = plan_key p, rp_tierLabel = plan_tierLabel p\<rparr>)"

section \<open>The transaction\<close>

text \<open>\<open>prisma.$transaction(fn, { timeout, maxWait })\<close>: what \<open>fn\<close> wrote is kept only when it returns.\<close>

definition prisma_transaction :: "Driver \<Rightarrow> 'a tx \<Rightarrow> 'a tx" where
  "prisma_transaction drv fn db = (case drv_fault drv of Some e \<Rightarrow> Inl (TRaw e) | None \<Rightarrow> fn db)"

definition new_organization :: "ProvisioningEnv \<Rightarrow> jstring \<Rightarrow> NewOrganizationInput \<Rightarrow> Organization" where
  "new_organization pe userId input =
     \<lparr>org_id = pe_organizationId pe, org_name = noi_name input, org_logo = None,
      org_timezone = noi_timezone input, org_currency = ORG_DEFAULT_CURRENCY, org_taxEntityType = None,
      org_taxId = None, org_vatRegistered = None, org_taxBranchCode = None,
      org_createdByUserId = Some userId, org_createdAt = pe_createdAt pe\<rparr>"

definition new_role :: "ProvisioningEnv \<Rightarrow> jstring \<Rightarrow> nat \<Rightarrow> SystemRoleBlueprint \<Rightarrow> Role" where
  "new_role pe o' n blueprint =
     \<lparr>role_id = pe_roleId pe n, role_org = o', role_name = srb_name blueprint,
      role_key = Some (srb_key blueprint), role_isSystem = srb_isSystem blueprint,
      role_capabilities = srb_capabilities blueprint, role_createdAt = pe_createdAt pe\<rparr>"

text \<open>\<open>for (const blueprint of SYSTEM_ROLE_BLUEPRINT)\<close>, filling the map from name to role.\<close>

primrec create_roles ::
    "ProvisioningEnv \<Rightarrow> jstring \<Rightarrow> nat \<Rightarrow> SystemRoleBlueprint list \<Rightarrow> (jstring \<rightharpoonup> Role) \<Rightarrow> (jstring \<rightharpoonup> Role) tx"
  where
  "create_roles pe o' n [] roles db = Inr (roles, db)"
| "create_roles pe o' n (blueprint # rest) roles db =
     rbind (insert_role (new_role pe o' n blueprint) db) (\<lambda>db'.
       create_roles pe o' (Suc n) rest (roles(srb_name blueprint \<mapsto> new_role pe o' n blueprint)) db')"

definition owner_membership :: "ProvisioningEnv \<Rightarrow> jstring \<Rightarrow> jstring \<Rightarrow> Role \<Rightarrow> Membership" where
  "owner_membership pe o' userId ownerRole =
     \<lparr>mem_id = pe_membershipId pe, mem_org = o', mem_userId = userId, mem_roleId = role_id ownerRole,
      mem_status = MActive, mem_activatedAt = Some (se_now (pe_env pe)), mem_revokedAt = None,
      mem_revokedByUserId = None, mem_createdAt = pe_createdAt pe\<rparr>"

definition new_entitlement :: "ProvisioningEnv \<Rightarrow> jstring \<Rightarrow> ResolvedPlan \<Rightarrow> OrgEntitlement" where
  "new_entitlement pe o' plan =
     \<lparr>ent_id = pe_entitlementId pe, ent_org = o', ent_planDefinitionId = rp_planDefinitionId plan\<rparr>"

definition default_warehouse :: "ProvisioningEnv \<Rightarrow> jstring \<Rightarrow> Warehouse" where
  "default_warehouse pe o' =
     \<lparr>wh_id = pe_warehouseId pe, wh_org = o', wh_name = DEFAULT_WAREHOUSE_NAME, wh_isDefault = True\<rparr>"

record Provisioned =
  pv_organization :: Organization
  pv_ownerRole :: Role
  pv_membership :: Membership
  pv_warehouse :: Warehouse

definition provision_tx ::
    "ProvisioningEnv \<Rightarrow> jstring \<Rightarrow> NewOrganizationInput \<Rightarrow> SystemRoleBlueprint \<Rightarrow> ResolvedPlan \<Rightarrow> Provisioned tx" where
  "provision_tx pe userId input ownerBlueprint plan db =
     (let organization = new_organization pe userId input; o' = org_id organization in
      rbind (insert_organization organization db) (\<lambda>db1.
      rbind (create_roles pe o' 0 SYSTEM_ROLE_BLUEPRINT Map.empty db1) (\<lambda>(roles, db2).
      case roles (srb_name ownerBlueprint) of
        None \<Rightarrow> Inl (error_named ''Error'')
      | Some ownerRole \<Rightarrow>
          rbind (insert_membership (owner_membership pe o' userId ownerRole) db2) (\<lambda>db3.
          rbind (insert_entitlement (new_entitlement pe o' plan) db3) (\<lambda>db4.
          rbind (insert_warehouse (default_warehouse pe o') db4) (\<lambda>db5.
            Inr (\<lparr>pv_organization = organization, pv_ownerRole = ownerRole,
                  pv_membership = owner_membership pe o' userId ownerRole,
                  pv_warehouse = default_warehouse pe o'\<rparr>, db5)))))))"

section \<open>The service\<close>

record CreatedOrganization =
  co_id :: jstring
  co_name :: jstring
  co_logo :: "jstring option"
  co_timezone :: jstring
  co_currency :: jstring
  co_taxProfileComplete :: bool
  co_createdAt :: jstring
  co_userId :: jstring
  co_roleId :: jstring
  co_roleName :: jstring
  co_roleKey :: "jstring option"
  co_status :: MembershipStatus
  co_planKey :: jstring
  co_tierLabel :: "jstring option"
  co_warehouseId :: jstring
  co_warehouseName :: jstring

definition created_organization :: "Provisioned \<Rightarrow> ResolvedPlan \<Rightarrow> CreatedOrganization" where
  "created_organization created plan =
     \<lparr>co_id = org_id (pv_organization created), co_name = org_name (pv_organization created),
      co_logo = org_logo (pv_organization created), co_timezone = org_timezone (pv_organization created),
      co_currency = org_currency (pv_organization created), co_taxProfileComplete = False,
      co_createdAt = toISOString (org_createdAt (pv_organization created)),
      co_userId = mem_userId (pv_membership created), co_roleId = mem_roleId (pv_membership created),
      co_roleName = role_name (pv_ownerRole created), co_roleKey = role_key (pv_ownerRole created),
      co_status = mem_status (pv_membership created), co_planKey = rp_planKey plan,
      co_tierLabel = rp_tierLabel plan, co_warehouseId = wh_id (pv_warehouse created),
      co_warehouseName = wh_name (pv_warehouse created)\<rparr>"

definition created_by :: "jstring \<Rightarrow> OrgDb \<Rightarrow> nat" where
  "created_by userId db = length (filter (\<lambda>o'. org_createdByUserId o' = Some userId) (db_orgs db))"

definition create_organization ::
    "ProvisioningEnv \<Rightarrow> jstring \<Rightarrow> NewOrganizationInput \<Rightarrow> OrgDb \<Rightarrow> CreatedOrganization outcome" where
  "create_organization pe userId input db =
     (case rbind (read_or_throw (pe_countFault pe) (created_by userId db)) (\<lambda>createdOrgCount.
           if isOrgCapReached (of_nat_num createdOrgCount) (pe_maxOrgsPerUser pe)
           then Inl (derr_details E_ORG_LIMIT_REACHED [(js ''limit'', JNum (pe_maxOrgsPerUser pe))])
           else
             rbind (resolveForNewOrg pe userId db) (\<lambda>plan.
             case ownerRoleBlueprint SYSTEM_ROLE_BLUEPRINT of
               Inl _ \<Rightarrow> Inl (error_named ''Error'')
             | Inr ownerBlueprint \<Rightarrow>
                 rbind (prisma_transaction (se_driver (pe_env pe)) (provision_tx pe userId input ownerBlueprint plan) db)
                   (\<lambda>(created, db'). Inr (created_organization created plan, db',
                      [event (pe_env pe) Ev_org_created
                         [(js ''actorUserId'', JStr userId),
                          (js ''organizationId'', JStr (org_id (pv_organization created))),
                          (js ''planKey'', JStr (rp_planKey plan))]])))) of
        Inl e \<Rightarrow> (Inl e, db, [])
      | Inr (r, db', evs) \<Rightarrow> (Inr r, db', evs))"

section \<open>What a creation leaves\<close>

text \<open>The rows the transaction adds, and a database with them.\<close>

primrec role_rows :: "ProvisioningEnv \<Rightarrow> jstring \<Rightarrow> nat \<Rightarrow> SystemRoleBlueprint list \<Rightarrow> Role list" where
  "role_rows pe o' n [] = []"
| "role_rows pe o' n (b # bs) = new_role pe o' n b # role_rows pe o' (Suc n) bs"

definition owner_role :: "ProvisioningEnv \<Rightarrow> Role" where
  "owner_role pe = new_role pe (pe_organizationId pe) 0 (hd SYSTEM_ROLE_BLUEPRINT)"

definition with_new_organization ::
    "ProvisioningEnv \<Rightarrow> jstring \<Rightarrow> NewOrganizationInput \<Rightarrow> ResolvedPlan \<Rightarrow> OrgDb \<Rightarrow> OrgDb" where
  "with_new_organization pe userId input plan db =
     (let o' = pe_organizationId pe in
      db\<lparr>db_orgs := db_orgs db @ [new_organization pe userId input],
         db_roles := db_roles db @ role_rows pe o' 0 SYSTEM_ROLE_BLUEPRINT,
         db_memberships := db_memberships db @ [owner_membership pe o' userId (owner_role pe)],
         db_entitlements := db_entitlements db @ [new_entitlement pe o' plan],
         db_warehouses := db_warehouses db @ [default_warehouse pe o']\<rparr>)"

definition ids_fresh :: "ProvisioningEnv \<Rightarrow> OrgDb \<Rightarrow> bool" where
  "ids_fresh pe db \<longleftrightarrow>
     \<not> org_fk db (pe_organizationId pe) \<and>
     distinct (map (pe_roleId pe) [0, 1, 2] @ map role_id (db_roles db)) \<and>
     pe_membershipId pe \<notin> mem_id ` set (db_memberships db) \<and>
     pe_entitlementId pe \<notin> ent_id ` set (db_entitlements db) \<and>
     pe_warehouseId pe \<notin> wh_id ` set (db_warehouses db)"

lemma create_roles_ok:
  assumes "create_roles pe o' n bs roles db = Inr (roles', db')"
  shows "db' = db\<lparr>db_roles := db_roles db @ role_rows pe o' n bs\<rparr> \<and> (db_ok db \<longrightarrow> db_ok db')"
  using assms
proof (induction bs arbitrary: n roles db)
  case Nil
  then show ?case by simp
next
  case (Cons b bs)
  from Cons.prems obtain db1 where i: "insert_role (new_role pe o' n b) db = Inr db1"
    and r: "create_roles pe o' (Suc n) bs (roles(srb_name b \<mapsto> new_role pe o' n b)) db1 = Inr (roles', db')"
    by (auto simp: rbind_Inr_iff)
  from i have "db1 = db\<lparr>db_roles := db_roles db @ [new_role pe o' n b]\<rparr>"
    by (auto simp: insert_role_def split: if_splits)
  with Cons.IH [OF r] inserts_db_ok(2) [OF _ i] show ?case by auto
qed

lemma unique_by_snoc: "unique_by key (rows @ [r]) \<longleftrightarrow> unique_by key rows \<and> key r \<notin> key ` set rows"
  by (auto simp: unique_by_def)

text \<open>No row refers to an organization that does not exist.\<close>

lemma nothing_of_unknown_org:
  assumes "db_ok db" and "\<not> org_fk db o'"
  shows "\<forall>r \<in> set (db_roles db). role_org r \<noteq> o'" "\<forall>m \<in> set (db_memberships db). mem_org m \<noteq> o'"
    "\<forall>w \<in> set (db_warehouses db). wh_org w \<noteq> o'" "\<forall>e \<in> set (db_entitlements db). ent_org e \<noteq> o'"
  using assms by (auto simp: db_ok_def list_all_iff)

lemma blueprint_rows:
  "SYSTEM_ROLE_BLUEPRINT = [hd SYSTEM_ROLE_BLUEPRINT, SYSTEM_ROLE_BLUEPRINT ! 1, SYSTEM_ROLE_BLUEPRINT ! 2]"
  "map srb_name SYSTEM_ROLE_BLUEPRINT = [js ''Owner'', js ''Admin'', js ''Staff'']"
  "map srb_key SYSTEM_ROLE_BLUEPRINT = [js ''owner'', js ''admin'', js ''staff'']"
  by (simp_all add: SYSTEM_ROLE_BLUEPRINT_def)

lemma blueprint_names [simp]:
  "srb_name (hd SYSTEM_ROLE_BLUEPRINT) = js ''Owner''" "srb_name (SYSTEM_ROLE_BLUEPRINT ! Suc 0) = js ''Admin''"
  "srb_name (SYSTEM_ROLE_BLUEPRINT ! 2) = js ''Staff''"
  "srb_name (SYSTEM_ROLE_BLUEPRINT ! Suc (Suc 0)) = js ''Staff''"
  "srb_key (hd SYSTEM_ROLE_BLUEPRINT) = js ''owner''" "srb_key (SYSTEM_ROLE_BLUEPRINT ! Suc 0) = js ''admin''"
  "srb_key (SYSTEM_ROLE_BLUEPRINT ! 2) = js ''staff''"
  "srb_capabilities (hd SYSTEM_ROLE_BLUEPRINT) = [CAPABILITY_FULL_ACCESS]"
  by (simp_all add: SYSTEM_ROLE_BLUEPRINT_def)

lemma new_role_fields [simp]:
  "role_id (new_role pe o' n b) = pe_roleId pe n" "role_org (new_role pe o' n b) = o'"
  "role_name (new_role pe o' n b) = srb_name b" "role_key (new_role pe o' n b) = Some (srb_key b)"
  "role_capabilities (new_role pe o' n b) = srb_capabilities b"
  by (simp_all add: new_role_def)

lemma insert_role_iff:
  assumes "db_ok db" and "org_fk db (role_org r)"
    and "\<forall>x \<in> set (db_roles db). role_org x = role_org r \<longrightarrow> role_name x \<noteq> role_name r \<and> role_key x \<noteq> role_key r"
  shows "insert_role r db =
    (if role_id r \<in> role_id ` set (db_roles db) then Inl unique_violation
     else Inr (db\<lparr>db_roles := db_roles db @ [r]\<rparr>))"
proof -
  have "roles_unique (db_roles db)" using assms(1) by (simp add: db_ok_def)
  then have "roles_unique (db_roles db @ [r]) \<longleftrightarrow> role_id r \<notin> role_id ` set (db_roles db)"
    using assms(3) by (auto simp: roles_unique_def unique_by_snoc image_iff)
  then show ?thesis using assms(2) by (simp add: insert_role_def)
qed

abbreviation with_role :: "Role \<Rightarrow> OrgDb \<Rightarrow> OrgDb" where
  "with_role r db \<equiv> db\<lparr>db_roles := db_roles db @ [r]\<rparr>"

lemma org_fk_with_role [simp]: "org_fk (db\<lparr>db_roles := rs\<rparr>) o' = org_fk db o'"
  by (simp add: org_fk_def)

lemma create_system_roles:
  assumes ok: "db_ok db" and fk: "org_fk db o'" and none: "\<forall>r \<in> set (db_roles db). role_org r \<noteq> o'"
  shows "(\<exists>roles db'. create_roles pe o' 0 SYSTEM_ROLE_BLUEPRINT Map.empty db = Inr (roles, db')) \<longleftrightarrow>
      distinct (map (pe_roleId pe) [0, 1, 2] @ map role_id (db_roles db))"
    and "create_roles pe o' 0 SYSTEM_ROLE_BLUEPRINT Map.empty db = Inr (roles, db') \<Longrightarrow>
      roles (js ''Owner'') = Some (new_role pe o' 0 (hd SYSTEM_ROLE_BLUEPRINT))"
proof -
  let ?r = "\<lambda>n. new_role pe o' n (SYSTEM_ROLE_BLUEPRINT ! n)"
  let ?own = "new_role pe o' 0 (hd SYSTEM_ROLE_BLUEPRINT)"
  have d: "distinct (map role_id (db_roles db))"
    using ok by (simp add: db_ok_def roles_unique_def unique_by_def)
  have i0: "insert_role ?own db = (if pe_roleId pe 0 \<in> role_id ` set (db_roles db) then Inl unique_violation
      else Inr (with_role ?own db))"
    using insert_role_iff [OF ok, of ?own] fk none by auto
  have i1: "insert_role (?r 1) (with_role ?own db) =
      (if pe_roleId pe 1 \<in> insert (pe_roleId pe 0) (role_id ` set (db_roles db)) then Inl unique_violation
       else Inr (with_role (?r 1) (with_role ?own db)))"
    if "insert_role ?own db = Inr (with_role ?own db)"
    using insert_role_iff [OF inserts_db_ok(2) [OF ok that], of "?r 1"] fk none by auto
  have i2: "insert_role (?r 2) (with_role (?r 1) (with_role ?own db)) =
      (if pe_roleId pe 2 \<in> {pe_roleId pe 0, pe_roleId pe 1} \<union> role_id ` set (db_roles db) then Inl unique_violation
       else Inr (with_role (?r 2) (with_role (?r 1) (with_role ?own db))))"
    if "insert_role ?own db = Inr (with_role ?own db)"
      "insert_role (?r 1) (with_role ?own db) = Inr (with_role (?r 1) (with_role ?own db))"
    using insert_role_iff [OF inserts_db_ok(2) [OF inserts_db_ok(2) [OF ok that(1)] that(2)], of "?r 2"] fk none
    by auto
  have run: "create_roles pe o' 0 SYSTEM_ROLE_BLUEPRINT Map.empty db =
      rbind (insert_role ?own db) (\<lambda>db1. rbind (insert_role (?r 1) db1) (\<lambda>db2. rbind (insert_role (?r 2) db2)
        (\<lambda>db3. Inr ([js ''Owner'' \<mapsto> ?own, js ''Admin'' \<mapsto> ?r 1, js ''Staff'' \<mapsto> ?r 2], db3))))"
    by (subst blueprint_rows(1)) (simp add: numeral_2_eq_2)
  show "(\<exists>roles db'. create_roles pe o' 0 SYSTEM_ROLE_BLUEPRINT Map.empty db = Inr (roles, db')) \<longleftrightarrow>
      distinct (map (pe_roleId pe) [0, 1, 2] @ map role_id (db_roles db))"
  proof (cases "distinct (map (pe_roleId pe) [0, 1, 2] @ map role_id (db_roles db))")
    case True
    then have i0': "insert_role ?own db = Inr (with_role ?own db)" by (simp add: i0)
    with True have i1': "insert_role (?r 1) (with_role ?own db) = Inr (with_role (?r 1) (with_role ?own db))"
      using i1 [OF i0'] by auto
    show ?thesis using True i2 [OF i0' i1'] i0' i1' by (auto simp: run)
  next
    case False
    then have "pe_roleId pe 0 \<in> role_id ` set (db_roles db) \<or>
      pe_roleId pe 1 \<in> insert (pe_roleId pe 0) (role_id ` set (db_roles db)) \<or>
      pe_roleId pe 2 \<in> {pe_roleId pe 0, pe_roleId pe 1} \<union> role_id ` set (db_roles db)"
      using d by auto
    then show ?thesis using False i0 i1 i2 by (auto simp: run rbind_def split: if_splits sum.splits)
  qed
  show "create_roles pe o' 0 SYSTEM_ROLE_BLUEPRINT Map.empty db = Inr (roles, db') \<Longrightarrow> roles (js ''Owner'') = Some ?own"
    by (auto simp: run rbind_Inr_iff)
qed

text \<open>Each remaining statement, on a database where nothing of the organization exists yet.\<close>

lemma org_fk_iff: "org_fk db o' \<longleftrightarrow> o' \<in> org_id ` set (db_orgs db)"
  by (auto simp: org_fk_def list_ex_iff)

lemma insert_organization_iff:
  assumes "db_ok db"
  shows "insert_organization r db =
    (if org_fk db (org_id r) then Inl unique_violation else Inr (db\<lparr>db_orgs := db_orgs db @ [r]\<rparr>))"
  using assms by (simp add: insert_organization_def db_ok_def unique_by_snoc org_fk_iff)

lemma insert_membership_iff:
  assumes "db_ok db" and "\<forall>x \<in> set (db_memberships db). mem_org x \<noteq> mem_org m"
    and "org_fk db (mem_org m)" "role_fk db (mem_org m) (mem_roleId m)"
  shows "insert_membership m db =
    (if mem_id m \<in> mem_id ` set (db_memberships db) then Inl unique_violation
     else if \<not> user_fk db (mem_userId m) then Inl fk_violation
     else Inr (db\<lparr>db_memberships := db_memberships db @ [m]\<rparr>))"
proof -
  have "memberships_unique (db_memberships db @ [m]) \<longleftrightarrow> mem_id m \<notin> mem_id ` set (db_memberships db)"
    using assms(1,2) by (auto simp: db_ok_def memberships_unique_def unique_by_snoc)
  then show ?thesis
    using assms(1,3,4)
    by (auto simp: insert_membership_def write_memberships_def put_memberships_def db_ok_def)
qed

lemma insert_entitlement_iff:
  assumes "db_ok db" and "\<forall>x \<in> set (db_entitlements db). ent_org x \<noteq> ent_org e" and "org_fk db (ent_org e)"
  shows "insert_entitlement e db =
    (if ent_id e \<in> ent_id ` set (db_entitlements db) then Inl unique_violation
     else if \<not> plan_fk db (ent_planDefinitionId e) then Inl fk_violation
     else Inr (db\<lparr>db_entitlements := db_entitlements db @ [e]\<rparr>))"
  using assms by (auto simp: insert_entitlement_def db_ok_def entitlements_unique_def unique_by_snoc)

lemma insert_warehouse_iff:
  assumes "db_ok db" and "\<forall>x \<in> set (db_warehouses db). wh_org x \<noteq> wh_org w" and "org_fk db (wh_org w)"
  shows "insert_warehouse w db =
    (if wh_id w \<in> wh_id ` set (db_warehouses db) then Inl unique_violation
     else Inr (db\<lparr>db_warehouses := db_warehouses db @ [w]\<rparr>))"
  using assms by (auto simp: insert_warehouse_def db_ok_def warehouses_unique_def unique_by_snoc)

definition provisioned :: "ProvisioningEnv \<Rightarrow> jstring \<Rightarrow> NewOrganizationInput \<Rightarrow> Provisioned" where
  "provisioned pe userId input =
     \<lparr>pv_organization = new_organization pe userId input, pv_ownerRole = owner_role pe,
      pv_membership = owner_membership pe (pe_organizationId pe) userId (owner_role pe),
      pv_warehouse = default_warehouse pe (pe_organizationId pe)\<rparr>"

lemma new_row_fields [simp]:
  "org_id (new_organization pe u input) = pe_organizationId pe"
  "org_createdByUserId (new_organization pe u input) = Some u"
  "mem_org (owner_membership pe o' u r) = o'" "mem_userId (owner_membership pe o' u r) = u"
  "mem_id (owner_membership pe o' u r) = pe_membershipId pe"
  "mem_roleId (owner_membership pe o' u r) = role_id r" "mem_status (owner_membership pe o' u r) = MActive"
  "ent_org (new_entitlement pe o' plan) = o'" "ent_id (new_entitlement pe o' plan) = pe_entitlementId pe"
  "ent_planDefinitionId (new_entitlement pe o' plan) = rp_planDefinitionId plan"
  "wh_org (default_warehouse pe o') = o'" "wh_id (default_warehouse pe o') = pe_warehouseId pe"
  "wh_isDefault (default_warehouse pe o') = True"
  by (simp_all add: new_organization_def owner_membership_def new_entitlement_def default_warehouse_def)

lemma owner_role_facts [simp]:
  "role_id (owner_role pe) = pe_roleId pe 0" "role_org (owner_role pe) = pe_organizationId pe"
  "role_capabilities (owner_role pe) = [CAPABILITY_FULL_ACCESS]"
  by (simp_all add: owner_role_def)

lemma role_rows_hd: "role_rows pe o' 0 SYSTEM_ROLE_BLUEPRINT =
   new_role pe o' 0 (hd SYSTEM_ROLE_BLUEPRINT) # role_rows pe o' (Suc 0) (tl SYSTEM_ROLE_BLUEPRINT)"
  by (simp add: SYSTEM_ROLE_BLUEPRINT_def)

text \<open>The part after the roles, on the database the roles were written to.\<close>

definition provision_rest ::
    "ProvisioningEnv \<Rightarrow> jstring \<Rightarrow> NewOrganizationInput \<Rightarrow> ResolvedPlan \<Rightarrow> Provisioned tx" where
  "provision_rest pe userId input plan db2 =
     (let o' = pe_organizationId pe in
      rbind (insert_membership (owner_membership pe o' userId (owner_role pe)) db2) (\<lambda>db3.
      rbind (insert_entitlement (new_entitlement pe o' plan) db3) (\<lambda>db4.
      rbind (insert_warehouse (default_warehouse pe o') db4) (\<lambda>db5. Inr (provisioned pe userId input, db5)))))"

lemma provision_tx_steps:
  assumes "db_ok db"
  shows "provision_tx pe u input (hd SYSTEM_ROLE_BLUEPRINT) plan db =
    rbind (insert_organization (new_organization pe u input) db) (\<lambda>db1.
    rbind (create_roles pe (pe_organizationId pe) 0 SYSTEM_ROLE_BLUEPRINT Map.empty db1) (\<lambda>(roles, db2).
      provision_rest pe u input plan db2))"
proof (cases "insert_organization (new_organization pe u input) db")
  case (Inr db1)
  then have "db_ok db1" and fk: "org_fk db1 (pe_organizationId pe)"
    and "\<forall>r \<in> set (db_roles db1). role_org r \<noteq> pe_organizationId pe"
    using inserts_db_ok(1) [OF assms Inr] nothing_of_unknown_org(1) [OF assms]
    by (auto simp: insert_organization_iff [OF assms] org_fk_iff split: if_splits)
  note owner = create_system_roles(2) [OF this, where pe = pe]
  show ?thesis
  proof (cases "create_roles pe (pe_organizationId pe) 0 SYSTEM_ROLE_BLUEPRINT Map.empty db1")
    case (Inr p)
    obtain roles db2 where p: "p = (roles, db2)" by (cases p)
    with Inr owner have "roles (js ''Owner'') = Some (owner_role pe)" by (simp add: owner_role_def)
    then show ?thesis
      using Inr p \<open>insert_organization _ _ = _\<close>
      by (simp add: provision_tx_def Let_def provision_rest_def provisioned_def)
  qed (simp add: provision_tx_def Let_def Inr)
qed (simp add: provision_tx_def Let_def)

lemma provision_rest_iff:
  assumes ok: "db_ok db2" and fk: "org_fk db2 (pe_organizationId pe)" "role_fk db2 (pe_organizationId pe) (pe_roleId pe 0)"
    and none: "\<forall>m \<in> set (db_memberships db2). mem_org m \<noteq> pe_organizationId pe"
      "\<forall>w \<in> set (db_warehouses db2). wh_org w \<noteq> pe_organizationId pe"
      "\<forall>e \<in> set (db_entitlements db2). ent_org e \<noteq> pe_organizationId pe"
  shows "(\<exists>r. provision_rest pe u input plan db2 = Inr r) \<longleftrightarrow>
      pe_membershipId pe \<notin> mem_id ` set (db_memberships db2) \<and> user_fk db2 u \<and>
      pe_entitlementId pe \<notin> ent_id ` set (db_entitlements db2) \<and> plan_fk db2 (rp_planDefinitionId plan) \<and>
      pe_warehouseId pe \<notin> wh_id ` set (db_warehouses db2)"
    (is "_ \<longleftrightarrow> ?fresh")
    and "provision_rest pe u input plan db2 = Inr (c, db') \<Longrightarrow>
      c = provisioned pe u input \<and> db_ok db' \<and>
      db' = db2\<lparr>db_memberships := db_memberships db2 @ [owner_membership pe (pe_organizationId pe) u (owner_role pe)],
        db_entitlements := db_entitlements db2 @ [new_entitlement pe (pe_organizationId pe) plan],
        db_warehouses := db_warehouses db2 @ [default_warehouse pe (pe_organizationId pe)]\<rparr>"
proof -
  let ?o = "pe_organizationId pe"
  let ?m = "owner_membership pe ?o u (owner_role pe)"
  let ?e = "new_entitlement pe ?o plan"
  let ?w = "default_warehouse pe ?o"
  let ?db3 = "db2\<lparr>db_memberships := db_memberships db2 @ [?m]\<rparr>"
  let ?db4 = "?db3\<lparr>db_entitlements := db_entitlements ?db3 @ [?e]\<rparr>"
  have m: "insert_membership ?m db2 =
      (if pe_membershipId pe \<in> mem_id ` set (db_memberships db2) then Inl unique_violation
       else if \<not> user_fk db2 u then Inl fk_violation else Inr ?db3)"
    using insert_membership_iff [OF ok, of ?m] fk none by simp
  have keep: "org_fk ?db3 ?o" "org_fk ?db4 ?o" "plan_fk ?db3 x = plan_fk db2 x" for x
    using fk by (simp_all add: org_fk_def plan_fk_def)
  have e: "insert_entitlement ?e ?db3 =
      (if pe_entitlementId pe \<in> ent_id ` set (db_entitlements db2) then Inl unique_violation
       else if \<not> plan_fk db2 (rp_planDefinitionId plan) then Inl fk_violation else Inr ?db4)"
    if "insert_membership ?m db2 = Inr ?db3"
    using insert_entitlement_iff [OF writes_db_ok(2) [OF ok that], of ?e] keep(1,3) none by simp
  have w: "insert_warehouse ?w ?db4 =
      (if pe_warehouseId pe \<in> wh_id ` set (db_warehouses db2) then Inl unique_violation
       else Inr (?db4\<lparr>db_warehouses := db_warehouses ?db4 @ [?w]\<rparr>))"
    if "insert_membership ?m db2 = Inr ?db3" "insert_entitlement ?e ?db3 = Inr ?db4"
    using insert_warehouse_iff [OF inserts_db_ok(3) [OF writes_db_ok(2) [OF ok that(1)] that(2)], of ?w] keep(2) none
    by simp
  have good: "provision_rest pe u input plan db2 =
      Inr (provisioned pe u input, ?db4\<lparr>db_warehouses := db_warehouses ?db4 @ [?w]\<rparr>)" if ?fresh
  proof -
    from that m have m': "insert_membership ?m db2 = Inr ?db3" by simp
    from that e [OF m'] have e': "insert_entitlement ?e ?db3 = Inr ?db4" by simp
    from that w [OF m' e'] have w': "insert_warehouse ?w ?db4 = Inr (?db4\<lparr>db_warehouses := db_warehouses ?db4 @ [?w]\<rparr>)"
      by simp
    show ?thesis unfolding provision_rest_def Let_def m' rbind_simps e' w' ..
  qed
  have only: "?fresh \<and> db_ok db'" if r: "provision_rest pe u input plan db2 = Inr (c, db')" for c db'
  proof -
    from r obtain db3 db4 where 3: "insert_membership ?m db2 = Inr db3" and 4: "insert_entitlement ?e db3 = Inr db4"
      and 5: "insert_warehouse ?w db4 = Inr db'"
      by (auto simp: provision_rest_def Let_def rbind_Inr_iff)
    from 3 m have f3: "pe_membershipId pe \<notin> mem_id ` set (db_memberships db2)" "user_fk db2 u" "db3 = ?db3"
      by (simp_all split: if_splits)
    note s3 = 3 [unfolded f3(3)] and s4 = 4 [unfolded f3(3)]
    from s4 e [OF s3] have f4: "pe_entitlementId pe \<notin> ent_id ` set (db_entitlements db2)"
      "plan_fk db2 (rp_planDefinitionId plan)" "db4 = ?db4"
      by (simp_all split: if_splits)
    from 5 [unfolded f4(3)] w [OF s3 s4 [unfolded f4(3)]] have "pe_warehouseId pe \<notin> wh_id ` set (db_warehouses db2)"
      by (simp split: if_splits)
    with f3 f4 show ?thesis
      using inserts_db_ok(4) [OF inserts_db_ok(3) [OF writes_db_ok(2) [OF ok 3] 4] 5] by blast
  qed
  show "(\<exists>r. provision_rest pe u input plan db2 = Inr r) \<longleftrightarrow> ?fresh"
    using good only by (metis surj_pair)
  assume r: "provision_rest pe u input plan db2 = Inr (c, db')"
  from only [OF r] good r show "c = provisioned pe u input \<and> db_ok db' \<and>
      db' = db2\<lparr>db_memberships := db_memberships db2 @ [?m], db_entitlements := db_entitlements db2 @ [?e],
        db_warehouses := db_warehouses db2 @ [?w]\<rparr>" by simp
qed

lemma provision_tx_spec:
  assumes ok: "db_ok db"
  shows "provision_tx pe u input (hd SYSTEM_ROLE_BLUEPRINT) plan db = Inr (c, db') \<Longrightarrow>
      c = provisioned pe u input \<and> db_ok db' \<and> db' = with_new_organization pe u input plan db"
    and "(\<exists>r. provision_tx pe u input (hd SYSTEM_ROLE_BLUEPRINT) plan db = Inr r) \<longleftrightarrow>
      ids_fresh pe db \<and> user_fk db u \<and> plan_fk db (rp_planDefinitionId plan)"
proof -
  let ?o = "pe_organizationId pe"
  let ?db1 = "db\<lparr>db_orgs := db_orgs db @ [new_organization pe u input]\<rparr>"
  let ?db2 = "?db1\<lparr>db_roles := db_roles db @ role_rows pe ?o 0 SYSTEM_ROLE_BLUEPRINT\<rparr>"
  have step1: "insert_organization (new_organization pe u input) db =
      (if org_fk db ?o then Inl unique_violation else Inr ?db1)"
    using insert_organization_iff [OF ok] by simp
  have fk1: "org_fk ?db1 ?o" "org_fk ?db2 ?o" by (simp_all add: org_fk_iff)
  have rfk: "role_fk ?db2 ?o (pe_roleId pe 0)" by (simp add: role_fk_def role_rows_hd)
  have ok1: "db_ok ?db1" if "\<not> org_fk db ?o"
    using inserts_db_ok(1) [OF ok] that step1 by auto
  have ok2: "db_ok db2 \<and> db2 = ?db2"
    if "\<not> org_fk db ?o" "create_roles pe ?o 0 SYSTEM_ROLE_BLUEPRINT Map.empty ?db1 = Inr (roles, db2)" for roles db2
    using create_roles_ok [OF that(2)] ok1 [OF that(1)] by auto
  have roles_iff: "(\<exists>roles db'. create_roles pe ?o 0 SYSTEM_ROLE_BLUEPRINT Map.empty ?db1 = Inr (roles, db')) \<longleftrightarrow>
      distinct (map (pe_roleId pe) [0, 1, 2] @ map role_id (db_roles db))" if "\<not> org_fk db ?o"
    using create_system_roles(1) [OF ok1 [OF that] fk1(1), of pe] nothing_of_unknown_org(1) [OF ok that] by simp
  have rest: "(\<exists>r. provision_rest pe u input plan ?db2 = Inr r) \<longleftrightarrow>
      pe_membershipId pe \<notin> mem_id ` set (db_memberships db) \<and> user_fk db u \<and>
      pe_entitlementId pe \<notin> ent_id ` set (db_entitlements db) \<and> plan_fk db (rp_planDefinitionId plan) \<and>
      pe_warehouseId pe \<notin> wh_id ` set (db_warehouses db)"
    "provision_rest pe u input plan ?db2 = Inr (c, db') \<Longrightarrow>
      c = provisioned pe u input \<and> db_ok db' \<and> db' = with_new_organization pe u input plan db"
    if "\<not> org_fk db ?o" "db_ok ?db2" for c db'
    using provision_rest_iff [OF that(2) fk1(2) rfk, of u input plan] nothing_of_unknown_org [OF ok that(1)]
    by (auto simp: user_fk_def plan_fk_def with_new_organization_def Let_def)
  show "(\<exists>r. provision_tx pe u input (hd SYSTEM_ROLE_BLUEPRINT) plan db = Inr r) \<longleftrightarrow>
      ids_fresh pe db \<and> user_fk db u \<and> plan_fk db (rp_planDefinitionId plan)"
  proof (cases "\<not> org_fk db ?o \<and> distinct (map (pe_roleId pe) [0, 1, 2] @ map role_id (db_roles db))")
    case True
    then obtain roles where c: "create_roles pe ?o 0 SYSTEM_ROLE_BLUEPRINT Map.empty ?db1 = Inr (roles, ?db2)"
      using roles_iff ok2 by blast
    then have "provision_tx pe u input (hd SYSTEM_ROLE_BLUEPRINT) plan db = provision_rest pe u input plan ?db2"
      using True by (simp add: provision_tx_steps [OF ok] step1)
    then show ?thesis using rest(1) ok2 [OF _ c] True by (auto simp: ids_fresh_def)
  next
    case False
    then show ?thesis
      using roles_iff by (auto simp: provision_tx_steps [OF ok] step1 ids_fresh_def rbind_Inr_iff)
  qed
  assume r: "provision_tx pe u input (hd SYSTEM_ROLE_BLUEPRINT) plan db = Inr (c, db')"
  then have new: "\<not> org_fk db ?o" by (auto simp: provision_tx_steps [OF ok] step1)
  with r obtain roles db2 where c: "create_roles pe ?o 0 SYSTEM_ROLE_BLUEPRINT Map.empty ?db1 = Inr (roles, db2)"
    and p: "provision_rest pe u input plan db2 = Inr (c, db')"
    by (auto simp: provision_tx_steps [OF ok] step1 rbind_Inr_iff)
  from ok2 [OF new c] have "db_ok ?db2" "db2 = ?db2" by auto
  with rest(2) [OF new] p show "c = provisioned pe u input \<and> db_ok db' \<and>
      db' = with_new_organization pe u input plan db" by auto
qed

section \<open>An organization exists completely or not at all\<close>

definition complete_org :: "jstring \<Rightarrow> OrgDb \<Rightarrow> bool" where
  "complete_org o' db \<longleftrightarrow>
     org_fk db o' \<and> has_active_owner o' db \<and>
     (\<exists>e \<in> set (db_entitlements db). ent_org e = o') \<and>
     (\<exists>w \<in> set (db_warehouses db). wh_org w = o' \<and> wh_isDefault w)"

lemma set_role_rows: "r \<in> set (role_rows pe o' n bs) \<Longrightarrow> role_org r = o'"
  by (induction bs arbitrary: n) auto

lemma with_new_organization_fields [simp]:
  "db_orgs (with_new_organization pe u input plan db) = db_orgs db @ [new_organization pe u input]"
  "db_roles (with_new_organization pe u input plan db) =
     db_roles db @ role_rows pe (pe_organizationId pe) 0 SYSTEM_ROLE_BLUEPRINT"
  "db_memberships (with_new_organization pe u input plan db) =
     db_memberships db @ [owner_membership pe (pe_organizationId pe) u (owner_role pe)]"
  "db_entitlements (with_new_organization pe u input plan db) =
     db_entitlements db @ [new_entitlement pe (pe_organizationId pe) plan]"
  "db_warehouses (with_new_organization pe u input plan db) =
     db_warehouses db @ [default_warehouse pe (pe_organizationId pe)]"
  "db_users (with_new_organization pe u input plan db) = db_users db"
  "db_invitations (with_new_organization pe u input plan db) = db_invitations db"
  by (simp_all add: with_new_organization_def Let_def)

lemma new_organization_complete:
  assumes "db_ok db" and "\<not> org_fk db (pe_organizationId pe)"
  shows "complete_org (pe_organizationId pe) (with_new_organization pe u input plan db)"
proof -
  let ?o = "pe_organizationId pe" and ?db = "with_new_organization pe u input plan db"
  have "find (\<lambda>x. role_org x = ?o \<and> role_id x = pe_roleId pe 0) (db_roles db) = None"
    using nothing_of_unknown_org(1) [OF assms] by (auto simp: find_None_iff)
  then have "role_caps ?db ?o (pe_roleId pe 0) = [CAPABILITY_FULL_ACCESS]"
    by (simp add: role_caps_def find_append role_rows_hd)
  then show ?thesis
    by (auto simp: complete_org_def org_fk_iff has_active_owner_def isOwnerRole_iff)
qed

lemma other_organizations_owned:
  assumes "o' \<noteq> pe_organizationId pe"
  shows "has_active_owner o' (with_new_organization pe u input plan db) = has_active_owner o' db"
proof -
  let ?db = "with_new_organization pe u input plan db"
  have "find (\<lambda>x. role_org x = o' \<and> role_id x = i) (role_rows pe (pe_organizationId pe) 0 SYSTEM_ROLE_BLUEPRINT) = None" for i
    using assms by (auto simp: find_None_iff dest: set_role_rows)
  then have "role_caps ?db o' i = role_caps db o' i" for i
    by (simp add: role_caps_def find_append split: option.split)
  then show ?thesis using assms by (auto simp: has_active_owner_def)
qed

text \<open>Which calls create an organization, and what the caller is told.\<close>

definition default_plan :: "ProvisioningEnv \<Rightarrow> OrgDb \<Rightarrow> PlanDefinition option" where
  "default_plan pe db = find (\<lambda>p. plan_key p = pe_defaultPlanKey pe) (db_plans db)"

definition may_create :: "ProvisioningEnv \<Rightarrow> jstring \<Rightarrow> OrgDb \<Rightarrow> bool" where
  "may_create pe u db \<longleftrightarrow>
     pe_countFault pe = None \<and> pe_planFault pe = None \<and> drv_fault (se_driver (pe_env pe)) = None \<and>
     \<not> isOrgCapReached (of_nat_num (created_by u db)) (pe_maxOrgsPerUser pe) \<and>
     default_plan pe db \<noteq> None \<and> ids_fresh pe db \<and> user_fk db u"

definition resolved :: "PlanDefinition \<Rightarrow> ResolvedPlan" where
  "resolved p = \<lparr>rp_planDefinitionId = plan_id p, rp_planKey = plan_key p, rp_tierLabel = plan_tierLabel p\<rparr>"

lemma create_organization_cases:
  assumes ok: "db_ok db"
  shows "if may_create pe u db
    then create_organization pe u input db =
      (Inr (created_organization (provisioned pe u input) (resolved (the (default_plan pe db)))),
       with_new_organization pe u input (resolved (the (default_plan pe db))) db,
       [event (pe_env pe) Ev_org_created
          [(js ''actorUserId'', JStr u), (js ''organizationId'', JStr (pe_organizationId pe)),
           (js ''planKey'', JStr (pe_defaultPlanKey pe))]])
    else \<exists>e. create_organization pe u input db = (Inl e, db, [])"
proof (cases "pe_countFault pe = None \<and> \<not> isOrgCapReached (of_nat_num (created_by u db)) (pe_maxOrgsPerUser pe) \<and>
    pe_planFault pe = None \<and> default_plan pe db \<noteq> None \<and> drv_fault (se_driver (pe_env pe)) = None")
  case True
  then obtain p where p: "default_plan pe db = Some p" by auto
  then have pk: "p \<in> set (db_plans db)" "plan_key p = pe_defaultPlanKey pe"
    by (auto simp: default_plan_def dest: find_SomeD)
  then have fk: "plan_fk db (rp_planDefinitionId (resolved p))"
    by (auto simp: plan_fk_def list_ex_iff resolved_def)
  have r: "resolveForNewOrg pe u db = Inr (resolved p)"
    using True p by (simp add: resolveForNewOrg_def read_or_throw_def default_plan_def resolved_def)
  let ?tx = "provision_tx pe u input (hd SYSTEM_ROLE_BLUEPRINT) (resolved p) db"
  have run: "create_organization pe u input db =
      (case rbind ?tx (\<lambda>(created, db'). Inr (created_organization created (resolved p), db',
          [event (pe_env pe) Ev_org_created
             [(js ''actorUserId'', JStr u), (js ''organizationId'', JStr (org_id (pv_organization created))),
              (js ''planKey'', JStr (pe_defaultPlanKey pe))]])) of
         Inl e \<Rightarrow> (Inl e, db, []) | Inr (r, db', evs) \<Rightarrow> (Inr r, db', evs))"
    using True pk(2) r
    by (simp add: create_organization_def read_or_throw_def owner_of_system_blueprint prisma_transaction_def resolved_def)
  have iff: "(\<exists>r. ?tx = Inr r) \<longleftrightarrow> may_create pe u db"
    using provision_tx_spec(2) [OF ok, of pe u input "resolved p"] fk True by (simp add: may_create_def)
  show ?thesis
  proof (cases ?tx)
    case (Inl e)
    with iff show ?thesis by (simp add: run)
  next
    case (Inr x)
    obtain c db' where x: "x = (c, db')" by (cases x)
    from provision_tx_spec(1) [OF ok Inr [unfolded x]] iff Inr x show ?thesis
      by (simp add: run p provisioned_def)
  qed
next
  case False
  then have "\<not> may_create pe u db" by (auto simp: may_create_def)
  moreover have "\<exists>e. create_organization pe u input db = (Inl e, db, [])"
    using False
    by (auto simp: create_organization_def read_or_throw_def resolveForNewOrg_def default_plan_def
        prisma_transaction_def owner_of_system_blueprint split: option.splits)
  ultimately show ?thesis by simp
qed

lemma created_db_ok:
  assumes "db_ok db" and "may_create pe u db"
  shows "db_ok (with_new_organization pe u input (resolved (the (default_plan pe db))) db)"
proof -
  let ?p = "the (default_plan pe db)"
  have "?p \<in> set (db_plans db)"
    using assms(2) by (auto simp: may_create_def default_plan_def dest: find_SomeD)
  then have "plan_fk db (rp_planDefinitionId (resolved ?p))" by (auto simp: plan_fk_def list_ex_iff resolved_def)
  then show ?thesis
    using provision_tx_spec [OF assms(1), of pe u input "resolved ?p"] assms(2) by (auto simp: may_create_def)
qed

text \<open>
  C11: An organization exists completely or not at all. A creation succeeds exactly when the counts could
  be read and the cap is not reached, the default plan is in the catalog, the transaction commits, the
  identifiers are new and the user exists. It then leaves an organization of the caller with the three
  system roles, an active Owner who is the caller, an entitlement of the default plan and a default
  warehouse, one audit event, nothing else changed, and every constraint of the database kept. A
  creation that fails leaves the database as it was and no event.
\<close>

theorem organization_complete_or_absent:
  assumes ok: "db_ok db"
  shows "case create_organization pe u input db of
      (Inr r, db', evs) \<Rightarrow> may_create pe u db \<and> db_ok db' \<and> complete_org (co_id r) db' \<and>
        \<not> org_fk db (co_id r) \<and> co_planKey r = pe_defaultPlanKey pe \<and>
        (\<exists>p. plan_key p = pe_defaultPlanKey pe \<and> p \<in> set (db_plans db) \<and>
           db' = with_new_organization pe u input (resolved p) db) \<and>
        (\<forall>o'. o' \<noteq> co_id r \<longrightarrow> has_active_owner o' db' = has_active_owner o' db) \<and>
        created_by u db' = Suc (created_by u db) \<and> length evs = 1
    | (Inl e, db', evs) \<Rightarrow> \<not> may_create pe u db \<and> db' = db \<and> evs = []"
proof (cases "may_create pe u db")
  case True
  let ?p = "the (default_plan pe db)"
  have p: "plan_key ?p = pe_defaultPlanKey pe" "?p \<in> set (db_plans db)"
    using True by (auto simp: may_create_def default_plan_def dest: find_SomeD)
  have new: "\<not> org_fk db (pe_organizationId pe)" using True by (simp add: may_create_def ids_fresh_def)
  note created_db_ok [OF ok True, of input]
  moreover have "co_id (created_organization (provisioned pe u input) (resolved ?p)) = pe_organizationId pe"
    "co_planKey (created_organization (provisioned pe u input) (resolved ?p)) = pe_defaultPlanKey pe"
    using p by (simp_all add: created_organization_def provisioned_def resolved_def)
  ultimately show ?thesis
    using create_organization_cases [OF ok, of pe u input] True p new
      new_organization_complete [OF ok new] other_organizations_owned
    by (auto simp: created_by_def)
next
  case False
  with create_organization_cases [OF ok, of pe u input] show ?thesis by auto
qed

definition demo_catalog :: OrgDb where
  "demo_catalog = demo_db\<lparr>db_plans := [\<lparr>plan_id = js ''p1'', plan_key = js ''free'', plan_tierLabel = None\<rparr>]\<rparr>"

definition demo_provisioning :: ProvisioningEnv where
  "demo_provisioning = \<lparr>pe_env = demo_env, pe_maxOrgsPerUser = of_nat_num 3, pe_defaultPlanKey = js ''free'',
     pe_organizationId = js ''o9'', pe_roleId = (\<lambda>n. js ''q'' @ [n]), pe_membershipId = js ''m9'',
     pe_entitlementId = js ''e9'', pe_warehouseId = js ''w9'', pe_createdAt = 50, pe_countFault = None,
     pe_planFault = None\<rparr>"

lemma demo_catalog_ok: "db_ok demo_catalog"
  using demo_db_ok
  by (simp add: db_ok_def demo_catalog_def demo_db_def plans_unique_def unique_by_def org_fk_def user_fk_def
      role_fk_def plan_fk_def)

lemma demo_may_create: "may_create demo_provisioning (js ''dan'') demo_catalog"
  by (simp add: may_create_def demo_provisioning_def demo_env_def created_by_def demo_catalog_def demo_db_def
      demo_rows default_plan_def ids_fresh_def org_fk_def user_fk_def js_def)

lemma organization_complete_or_absent_witness:
  "\<exists>r db' evs. create_organization demo_provisioning (js ''dan'') \<lparr>noi_name = js ''shop'', noi_timezone = js ''Asia/Bangkok''\<rparr>
     demo_catalog = (Inr r, db', evs) \<and> complete_org (co_id r) db'"
  using organization_complete_or_absent [OF demo_catalog_ok, of demo_provisioning "js ''dan''"
      "\<lparr>noi_name = js ''shop'', noi_timezone = js ''Asia/Bangkok''\<rparr>"] demo_may_create
  by (auto split: prod.splits sum.splits)

end
