(* ===== verification/OrgProfileService.thy ===== *)
theory OrgProfileService
  imports Listings OrgProvisioning
begin

text \<open>
  The profile of an organization and its tax identity: \<open>apps/api/src/orgs/org-profile.service.ts\<close> and
  \<open>tax-profile.service.ts\<close>. Both read and write through the scoped client, so every query is about the
  organization of the request. A write is one statement: it is kept whatever fails after it.
\<close>

section \<open>The tenant row through the scoped client\<close>

text \<open>
  \<open>where: { id: organizationId }\<close> on the tenant root: the seam compares the identifier with the
  organization of the context, trimmed.
\<close>

definition own_organization :: "OrgRequestContext option \<Rightarrow> jstring \<Rightarrow> Thrown + jstring" where
  "own_organization ctx organizationId =
     rbind (client_org ctx) (\<lambda>o'.
       if organizationId \<noteq> o' then Inl OrgScopeViolationError else Inr o')"

definition find_organization :: "OrgDb \<Rightarrow> jstring \<Rightarrow> Organization option" where
  "find_organization db o' = find (\<lambda>r. org_id r = o') (db_orgs db)"

definition change_org :: "jstring \<Rightarrow> (Organization \<Rightarrow> Organization) \<Rightarrow> OrgDb \<Rightarrow> OrgDb" where
  "change_org o' f db = db\<lparr>db_orgs := map (\<lambda>r. if org_id r = o' then f r else r) (db_orgs db)\<rparr>"

definition update_organization ::
    "OrgRequestContext option \<Rightarrow> jstring \<Rightarrow> (Organization \<Rightarrow> Organization) \<Rightarrow> OrgDb \<Rightarrow> Thrown + OrgDb" where
  "update_organization ctx organizationId f db =
     rbind (own_organization ctx organizationId) (\<lambda>o'.
       if find_organization db o' = None then Inl row_not_found
       else Inr (change_org o' f db))"

section \<open>The view\<close>

definition ORG_PROFILE_SELECT :: "Organization \<Rightarrow> OrgProfileRow" where
  "ORG_PROFILE_SELECT r =
     \<lparr>opr_id = org_id r, opr_name = org_name r, opr_logo = org_logo r, opr_timezone = org_timezone r,
      opr_currency = org_currency r, opr_taxEntityType = org_taxEntityType r, opr_taxId = org_taxId r,
      opr_vatRegistered = org_vatRegistered r, opr_taxBranchCode = org_taxBranchCode r\<rparr>"

text \<open>The caller's own membership, whatever its status, with its role.\<close>

definition own_membership :: "jstring \<Rightarrow> jstring \<Rightarrow> OrgDb \<Rightarrow> Thrown + (Membership \<times> Role) option" where
  "own_membership o' userId db =
     (case find_scoped mem_org o' (\<lambda>m. mem_userId m = userId) (db_memberships db) of
        None \<Rightarrow> Inr None
      | Some m \<Rightarrow> (case member_role db m of
                     None \<Rightarrow> Inl inconsistent_relation
                   | Some r \<Rightarrow> Inr (Some (m, r))))"

definition active_members :: "jstring \<Rightarrow> OrgDb \<Rightarrow> nat" where
  "active_members o' db =
     length (filter_scoped mem_org o' (\<lambda>m. mem_status m = MActive) (db_memberships db))"

definition pending_invitations :: "jstring \<Rightarrow> int \<Rightarrow> OrgDb \<Rightarrow> nat" where
  "pending_invitations o' now db =
     length (filter_scoped inv_org o' (\<lambda>i. inv_status i = SPending \<and> now < inv_expiresAt i) (db_invitations db))"

definition buildView :: "OrgRequestContext option \<Rightarrow> int \<Rightarrow> OrgDb \<Rightarrow> Thrown + OrgProfileView" where
  "buildView ctx now db =
     rbind (requireOrganizationId ctx) (\<lambda>organizationId.
     rbind (requireUserId ctx) (\<lambda>userId.
     rbind (own_organization ctx organizationId) (\<lambda>o'.
     let organization = find_organization db o' in
     rbind (own_membership o' userId db) (\<lambda>membership.
     rbind (entitlement_view db o') (\<lambda>entitlement.
     case (organization, membership) of
       (Some row, Some (m, role)) \<Rightarrow>
         Inr (toOrgProfileView (ORG_PROFILE_SELECT row)
                \<lparr>opv_userId = userId, opv_roleId = mem_roleId m, opv_roleName = role_name role,
                 opv_roleKey = role_key role, opv_capabilities = role_capabilities role, opv_status = mem_status m\<rparr>
                entitlement
                \<lparr>opc_activeMembers = active_members o' db, opc_pendingInvitations = pending_invitations o' now db\<rparr>)
     | _ \<Rightarrow> Inl (derr E_INTERNAL))))))"

section \<open>The profile service\<close>

definition get_profile :: "ServiceEnv \<Rightarrow> OrgRequestContext option \<Rightarrow> OrgDb \<Rightarrow> OrgProfileView outcome" where
  "get_profile env ctx db = (buildView ctx (se_now env) db, db, [])"

definition patch_is_empty :: "OrgProfilePatch \<Rightarrow> bool" where
  "patch_is_empty patch \<longleftrightarrow> opp_name patch = None \<and> \<not> opp_logo patch \<and> opp_timezone patch = None"

definition apply_patch :: "OrgProfilePatch \<Rightarrow> Organization \<Rightarrow> Organization" where
  "apply_patch patch r =
     r\<lparr>org_name := (case opp_name patch of Some n \<Rightarrow> n | None \<Rightarrow> org_name r),
       org_logo := (if opp_logo patch then None else org_logo r),
       org_timezone := (case opp_timezone patch of Some tz \<Rightarrow> tz | None \<Rightarrow> org_timezone r)\<rparr>"

definition update_profile ::
    "ServiceEnv \<Rightarrow> OrgRequestContext option \<Rightarrow> OrgProfilePatch \<Rightarrow> OrgDb \<Rightarrow> OrgProfileView outcome" where
  "update_profile env ctx patch db =
     (case rbind (requireOrganizationId ctx) (\<lambda>organizationId.
           if patch_is_empty patch then Inr db
           else update_organization ctx organizationId (apply_patch patch) db) of
        Inl e \<Rightarrow> (Inl e, db, [])
      | Inr db' \<Rightarrow> get_profile env ctx db')"

section \<open>The tax service\<close>

definition write_tax :: "TaxProfileWrite \<Rightarrow> Organization \<Rightarrow> Organization" where
  "write_tax w r =
     r\<lparr>org_taxEntityType := tpw_taxEntityType w, org_taxId := tpw_taxId w,
       org_vatRegistered := tpw_vatRegistered w, org_taxBranchCode := tpw_taxBranchCode w\<rparr>"

definition nullable :: "('a \<Rightarrow> jsv) \<Rightarrow> 'a option \<Rightarrow> jsv" where
  "nullable f v = (case v of None \<Rightarrow> JNull | Some x \<Rightarrow> f x)"

definition set_tax_profile ::
    "ServiceEnv \<Rightarrow> OrgRequestContext option \<Rightarrow> TaxProfileWrite \<Rightarrow> OrgDb \<Rightarrow> OrgProfileView outcome" where
  "set_tax_profile env ctx w db =
     (case rbind (requireOrganizationId ctx) (\<lambda>organizationId.
           rbind (requireUserId ctx) (\<lambda>actorUserId.
           rbind (update_organization ctx organizationId (write_tax w) db) (\<lambda>db'.
             Inr (organizationId, actorUserId, db')))) of
        Inl e \<Rightarrow> (Inl e, db, [])
      | Inr (organizationId, actorUserId, db') \<Rightarrow>
          (fst (get_profile env ctx db'), db',
           [event env Ev_org_tax_profile_set
              [(js ''actorUserId'', JStr actorUserId), (js ''organizationId'', JStr organizationId),
               (js ''taxEntityType'', nullable JStr (tpw_taxEntityType w)),
               (js ''vatRegistered'', nullable JBool (tpw_vatRegistered w)),
               (js ''taxIdPresent'', JBool (tpw_taxId w \<noteq> None))]]))"

definition read_revealed ::
    "OrgRequestContext option \<Rightarrow> int \<Rightarrow> OrgDb \<Rightarrow> Thrown + (jstring \<times> jstring \<times> RevealedTaxProfile)" where
  "read_revealed ctx now db =
     rbind (requireOrganizationId ctx) (\<lambda>organizationId.
     rbind (requireUserId ctx) (\<lambda>actorUserId.
     rbind (own_organization ctx organizationId) (\<lambda>o'.
     case find_organization db o' of
       None \<Rightarrow> Inl (derr E_INTERNAL)
     | Some row \<Rightarrow>
         (case toTaxProfileReveal (org_taxEntityType row) (org_taxId row) now of
            None \<Rightarrow> Inl (derr E_NOT_FOUND)
          | Some revealed \<Rightarrow> Inr (organizationId, actorUserId, revealed)))))"

definition reveal_tax_profile ::
    "ServiceEnv \<Rightarrow> OrgRequestContext option \<Rightarrow> OrgDb \<Rightarrow> RevealedTaxProfile outcome" where
  "reveal_tax_profile env ctx db =
     (case read_revealed ctx (se_now env) db of
        Inl e \<Rightarrow> (Inl e, db, [])
      | Inr (organizationId, actorUserId, revealed) \<Rightarrow>
          (Inr revealed, db,
           [event env Ev_org_tax_profile_revealed
              [(js ''actorUserId'', JStr actorUserId), (js ''organizationId'', JStr organizationId)]]))"

section \<open>Constraints and isolation\<close>

lemma own_organization_ok:
  "own_organization ctx organizationId = Inr o' \<longleftrightarrow>
     organizationId = o' \<and> (\<exists>c. ctx = Some c \<and> trim (ctx_organizationId c) = o' \<and> o' \<noteq> [])"
  by (auto simp: own_organization_def client_org_def rbind_Inr_iff split: option.splits if_splits)

lemma update_organization_ok:
  assumes "update_organization ctx organizationId f db = Inr db'"
  shows "db' = change_org organizationId f db"
    "org_fk db organizationId" "\<exists>c. ctx = Some c \<and> trim (ctx_organizationId c) = organizationId"
  using assms
  by (auto simp: update_organization_def rbind_Inr_iff own_organization_ok find_organization_def org_fk_def
      list_ex_iff find_None_iff split: if_splits)

lemma map_orgs_frame:
  assumes "\<And>r. org_id (f r) = org_id r"
  shows "map org_id (map (\<lambda>r. if org_id r = o' then f r else r) orgs) = map org_id orgs"
    "other_orgs org_id o' (map (\<lambda>r. if org_id r = o' then f r else r) orgs) = other_orgs org_id o' orgs"
  using assms by (induction orgs) (auto simp: other_orgs_def)

lemma same_org_ids:
  assumes "map org_id orgs = map org_id (db_orgs db)" and "db_ok db"
  shows "db_ok (db\<lparr>db_orgs := orgs\<rparr>)"
proof -
  have "set (map org_id orgs) = set (map org_id (db_orgs db))" by (simp only: assms(1))
  then have "org_fk (db\<lparr>db_orgs := orgs\<rparr>) o' = org_fk db o'" for o' by (simp add: org_fk_iff)
  moreover have "user_fk (db\<lparr>db_orgs := orgs\<rparr>) = user_fk db" "role_fk (db\<lparr>db_orgs := orgs\<rparr>) = role_fk db"
    "plan_fk (db\<lparr>db_orgs := orgs\<rparr>) = plan_fk db"
    by (simp_all add: fun_eq_iff user_fk_def role_fk_def plan_fk_def)
  ultimately show ?thesis using assms by (simp add: db_ok_def unique_by_def)
qed

lemma update_organization_safe:
  assumes "db_ok db" and u: "update_organization ctx o' f db = Inr db'" and "\<And>r. org_id (f r) = org_id r"
  shows "step_safe o' db db'"
proof -
  note d = update_organization_ok(1) [OF u, unfolded change_org_def]
  have "has_active_owner o' db' = has_active_owner o' db"
    by (rule has_active_owner_frame) (simp_all add: d)
  moreover have "db_ok db'" unfolding d by (rule same_org_ids [OF map_orgs_frame(1) assms(1)]) (rule assms(3))
  moreover have "outside_unchanged o' db db'"
    using map_orgs_frame [of f o' "db_orgs db", OF assms(3)] by (simp add: outside_unchanged_def d del: map_map)
  ultimately show ?thesis by (simp add: step_safe_def)
qed

lemma apply_patch_id [simp]: "org_id (apply_patch patch r) = org_id r"
  by (simp add: apply_patch_def)

lemma write_tax_id [simp]: "org_id (write_tax w r) = org_id r"
  by (simp add: write_tax_def)

lemma update_profile_cases:
  "update_profile env ctx patch db = (r, db', evs) \<Longrightarrow>
     evs = [] \<and> (db' = db \<or> (\<exists>o'. update_organization ctx o' (apply_patch patch) db = Inr db'))"
  by (auto simp: update_profile_def get_profile_def rbind_Inr_iff split: sum.splits if_splits)

lemma set_tax_profile_cases:
  "set_tax_profile env ctx w db = (r, db', evs) \<Longrightarrow>
     db' = db \<and> evs = [] \<or> (\<exists>o'. update_organization ctx o' (write_tax w) db = Inr db')"
  by (auto simp: set_tax_profile_def get_profile_def rbind_Inr_iff split: sum.splits if_splits)

lemma update_profile_safe:
  assumes ok: "db_ok db" and u: "update_profile env ctx patch db = (r, db', evs)"
  shows "\<exists>o'. step_safe o' db db'"
  using update_profile_cases [OF u] step_safe_refl [OF ok]
    update_organization_safe [OF ok, of ctx _ "apply_patch patch" db'] by auto

lemma set_tax_profile_safe:
  assumes ok: "db_ok db" and u: "set_tax_profile env ctx w db = (r, db', evs)"
  shows "\<exists>o'. step_safe o' db db'"
  using set_tax_profile_cases [OF u] step_safe_refl [OF ok]
    update_organization_safe [OF ok, of ctx _ "write_tax w" db'] by auto

section \<open>Where the tax number goes\<close>

text \<open>Rows of an organization that no profile view tells apart.\<close>

definition shown_alike :: "Organization \<Rightarrow> Organization \<Rightarrow> bool" where
  "shown_alike r r' \<longleftrightarrow> org_id r = org_id r' \<and>
     (\<forall>viewer e c. toOrgProfileView (ORG_PROFILE_SELECT r) viewer e c = toOrgProfileView (ORG_PROFILE_SELECT r') viewer e c)"

lemma find_organization_changed:
  assumes "\<And>r. org_id (f r) = org_id r"
  shows "find_organization (change_org o' f db) i =
    map_option (\<lambda>r. if org_id r = o' then f r else r) (find_organization db i)"
proof -
  have "find (\<lambda>r. org_id r = i) (map (\<lambda>r. if org_id r = o' then f r else r) rs) =
      map_option (\<lambda>r. if org_id r = o' then f r else r) (find (\<lambda>r. org_id r = i) rs)" for rs
    using assms by (induction rs) auto
  then show ?thesis by (simp add: find_organization_def change_org_def)
qed

lemma buildView_alike:
  assumes id: "\<And>r. org_id (f r) = org_id r" "\<And>r. org_id (g r) = org_id r" and alike: "\<And>r. shown_alike (f r) (g r)"
  shows "buildView ctx now (change_org o' f db) = buildView ctx now (change_org o' g db)"
proof -
  have reads: "own_membership i u (change_org o' h db) = own_membership i u db"
    "entitlement_view (change_org o' h db) i = entitlement_view db i"
    "active_members i (change_org o' h db) = active_members i db"
    "pending_invitations i now (change_org o' h db) = pending_invitations i now db" for i u h
    by (simp_all add: own_membership_def entitlement_view_def active_members_def pending_invitations_def
        change_org_def member_role_def cong: option.case_cong)
  have "toOrgProfileView (ORG_PROFILE_SELECT (f r)) v e c = toOrgProfileView (ORG_PROFILE_SELECT (g r)) v e c" for r v e c
    using alike by (simp add: shown_alike_def)
  then show ?thesis
    unfolding buildView_def Let_def reads find_organization_changed [of f, OF id(1)] find_organization_changed [of g, OF id(2)]
    by (intro arg_cong [where f = "rbind _"] ext) (auto split: option.splits)
qed

definition same_suffix_numbers :: "jstring \<Rightarrow> jstring \<Rightarrow> bool" where
  "same_suffix_numbers s s' \<longleftrightarrow>
     length s = 13 \<and> length s' = 13 \<and> drop 9 s = drop 9 s' \<and> list_all is_digit s \<and> list_all is_digit s'"

lemma numbers_shown_alike:
  assumes "same_suffix_numbers s s'"
  shows "shown_alike (r\<lparr>org_taxId := Some s\<rparr>) (r\<lparr>org_taxId := Some s'\<rparr>)"
proof -
  have ne: "s \<noteq> []" "s' \<noteq> []" and ds: "\<forall>c \<in> set s. is_digit c" "\<forall>c \<in> set s'. is_digit c"
    using assms by (auto simp: same_suffix_numbers_def list_all_iff)
  have m: "maskTaxId (Some s) = maskTaxId (Some s')"
    using maskTaxId_plain [of s] maskTaxId_plain [of s'] ne ds assms by (simp add: same_suffix_numbers_def)
  have "maskTaxId (Some s) \<noteq> None" "maskTaxId (Some s') \<noteq> None"
    using maskTaxId_plain [of s] maskTaxId_plain [of s'] ne ds by simp_all
  then have "trim s \<noteq> []" "trim s' \<noteq> []" by (auto simp: maskTaxId_None_iff)
  then show ?thesis
    by (auto simp: shown_alike_def toOrgProfileView_def toTaxProfileView_def isTaxProfileComplete_def
        ORG_PROFILE_SELECT_def Let_def m)
qed

lemma change_org_id [simp]:
  "org_id (r\<lparr>org_taxId := t\<rparr>) = org_id r"
  by simp

lemma write_tax_number:
  "write_tax (w\<lparr>tpw_taxId := Some s\<rparr>) = (\<lambda>r. (write_tax w r)\<lparr>org_taxId := Some s\<rparr>)"
  by (simp add: write_tax_def fun_eq_iff)

lemma own_organization_same: "own_organization ctx i = Inr o' \<Longrightarrow> o' = i"
  by (simp add: own_organization_ok)

lemma set_number_cases:
  "set_tax_profile env ctx (w\<lparr>tpw_taxId := Some s\<rparr>) db =
    (case rbind (requireOrganizationId ctx) (\<lambda>o'. rbind (requireUserId ctx) (\<lambda>u.
        rbind (update_organization ctx o' id db) (\<lambda>_. Inr (o', u)))) of
       Inl e \<Rightarrow> (Inl e, db, [])
     | Inr (o', u) \<Rightarrow>
         (buildView ctx (se_now env) (change_org o' (\<lambda>r. (write_tax w r)\<lparr>org_taxId := Some s\<rparr>) db),
          change_org o' (\<lambda>r. (write_tax w r)\<lparr>org_taxId := Some s\<rparr>) db,
          [event env Ev_org_tax_profile_set
             [(js ''actorUserId'', JStr u), (js ''organizationId'', JStr o'),
              (js ''taxEntityType'', nullable JStr (tpw_taxEntityType w)),
              (js ''vatRegistered'', nullable JBool (tpw_vatRegistered w)), (js ''taxIdPresent'', JBool True)]]))"
  by (auto simp: set_tax_profile_def get_profile_def rbind_def update_organization_def write_tax_number
      split: sum.splits if_splits dest!: own_organization_same)

lemma toTaxProfileReveal_ok: "toTaxProfileReveal e n now = Some x \<Longrightarrow> \<exists>t. n = Some t \<and> rtp_taxId x = trim t"
  by (auto simp: toTaxProfileReveal_def Let_def split: option.splits if_splits)

lemma read_revealed_ok:
  assumes "read_revealed ctx now db = Inr (o', u, x)"
  shows "\<exists>c r t. ctx = Some c \<and> caller c u \<and> ctx_organizationId c = o' \<and>
    find_organization db o' = Some r \<and> org_taxId r = Some t \<and> rtp_taxId x = trim t"
proof -
  from assms have 1: "requireOrganizationId ctx = Inr o'" "requireUserId ctx = Inr u"
    and "\<exists>r. find_organization db o' = Some r \<and> toTaxProfileReveal (org_taxEntityType r) (org_taxId r) now = Some x"
    by (auto simp: read_revealed_def rbind_Inr_iff split: option.splits dest: own_organization_same)
  moreover from 1 have "\<exists>c. ctx = Some c \<and> caller c u \<and> ctx_organizationId c = o'"
    using prologue_ok [of ctx o' u] by (auto simp: prologue_def)
  ultimately show ?thesis by (blast dest: toTaxProfileReveal_ok)
qed

text \<open>
  C12: The tax number leaves the system only through the reveal. Two databases that differ in the number of
  one organization, both numbers of thirteen digits with the same last four, give every caller the same
  profile; storing either number answers the same body, fails in the same cases and emits the same audit
  event. A reveal that answers gives the stored number, changes nothing and leaves exactly one audit event,
  which says who and where and nothing of the number; a reveal that fails leaves none.
\<close>

theorem tax_number_confined:
  assumes "same_suffix_numbers s s'"
  shows "buildView ctx now (change_org o' (\<lambda>r. r\<lparr>org_taxId := Some s\<rparr>) db) =
      buildView ctx now (change_org o' (\<lambda>r. r\<lparr>org_taxId := Some s'\<rparr>) db) \<and>
    (case (set_tax_profile env ctx (w\<lparr>tpw_taxId := Some s\<rparr>) db, set_tax_profile env ctx (w\<lparr>tpw_taxId := Some s'\<rparr>) db) of
      ((r, _, evs), (r', _, evs')) \<Rightarrow> r = r' \<and> evs = evs') \<and>
    (case reveal_tax_profile env ctx db of
      (Inr x, db', evs) \<Rightarrow> db' = db \<and> (\<exists>c u r t. ctx = Some c \<and> caller c u \<and>
        find_organization db (ctx_organizationId c) = Some r \<and> org_taxId r = Some t \<and> rtp_taxId x = trim t \<and>
        evs = [event env Ev_org_tax_profile_revealed
          [(js ''actorUserId'', JStr u), (js ''organizationId'', JStr (ctx_organizationId c))]])
    | (Inl e, db', evs) \<Rightarrow> db' = db \<and> evs = [])"
proof (intro conjI)
  note alike = numbers_shown_alike [OF assms]
  show "buildView ctx now (change_org o' (\<lambda>r. r\<lparr>org_taxId := Some s\<rparr>) db) =
      buildView ctx now (change_org o' (\<lambda>r. r\<lparr>org_taxId := Some s'\<rparr>) db)"
    by (rule buildView_alike) (simp_all add: alike)
  have view: "buildView ctx now (change_org o' (\<lambda>r. (write_tax w r)\<lparr>org_taxId := Some s\<rparr>) db) =
      buildView ctx now (change_org o' (\<lambda>r. (write_tax w r)\<lparr>org_taxId := Some s'\<rparr>) db)" for now o'
    by (rule buildView_alike) (simp_all add: alike)
  show "case (set_tax_profile env ctx (w\<lparr>tpw_taxId := Some s\<rparr>) db, set_tax_profile env ctx (w\<lparr>tpw_taxId := Some s'\<rparr>) db) of
      ((r, _, evs), (r', _, evs')) \<Rightarrow> r = r' \<and> evs = evs'"
    by (auto simp: set_number_cases view split: prod.splits sum.splits)
  show "case reveal_tax_profile env ctx db of
      (Inr x, db', evs) \<Rightarrow> db' = db \<and> (\<exists>c u r t. ctx = Some c \<and> caller c u \<and>
        find_organization db (ctx_organizationId c) = Some r \<and> org_taxId r = Some t \<and> rtp_taxId x = trim t \<and>
        evs = [event env Ev_org_tax_profile_revealed
          [(js ''actorUserId'', JStr u), (js ''organizationId'', JStr (ctx_organizationId c))]])
    | (Inl e, db', evs) \<Rightarrow> db' = db \<and> evs = []"
    using read_revealed_ok [of ctx "se_now env" db]
    by (fastforce simp: reveal_tax_profile_def split: sum.splits prod.splits)
qed

lemma tax_number_confined_witness:
  "buildView (Some (demo_ctx ''bob'')) 50 (change_org (js ''o1'') (\<lambda>r. r\<lparr>org_taxId := Some (js ''1101700207366'')\<rparr>) demo_db) =
   buildView (Some (demo_ctx ''bob'')) 50 (change_org (js ''o1'') (\<lambda>r. r\<lparr>org_taxId := Some (js ''0000000007366'')\<rparr>) demo_db)"
  by (rule tax_number_confined [THEN conjunct1]) (simp add: same_suffix_numbers_def js_def is_digit_def)

end
