(* ===== verification/OrgHandlers.thy ===== *)
theory OrgHandlers
  imports OrgProfileService RouteTable
begin

text \<open>
  The handlers of the organization endpoints (\<open>apps/api/src/orgs/*.controller.ts\<close>): the fields of the
  body are read and refused together, the headers of the answer are set, the service is called. A
  handler is given the headers set so far and answers the outcome of the operation with the headers of
  the answer. The guards before it are those of the access gate and of the rate limits.
\<close>

type_synonym headers = "(jstring \<times> jstring) list"

type_synonym 'a answer = "'a outcome \<times> headers"

definition refused :: "Thrown \<Rightarrow> OrgDb \<Rightarrow> headers \<Rightarrow> 'a answer" where
  "refused e db res = ((Inl e, db, []), res)"

definition reading :: "Thrown + 'a \<Rightarrow> OrgDb \<Rightarrow> 'a outcome" where
  "reading r db = (r, db, [])"

section \<open>Reading a body\<close>

text \<open>\<open>typeof v === "string" ? v.trim() : ""\<close>.\<close>

definition trimmed_string :: "jsv \<Rightarrow> jstring" where
  "trimmed_string v = (case v of JStr s \<Rightarrow> trim s | _ \<Rightarrow> [])"

definition missing :: "jstring \<Rightarrow> FieldCopy \<Rightarrow> jstring \<Rightarrow> (jstring \<times> FieldCopy) list" where
  "missing field message v = (if v = [] then [(field, message)] else [])"

definition requireToken :: "jsv \<Rightarrow> Thrown + jstring" where
  "requireToken body =
     (let token = trimmed_string body in
      if token = [] then Inl (derr_fields E_VALIDATION_FAILED [(js ''token'', TOKEN_REQUIRED_MESSAGE)])
      else Inr token)"

section \<open>Organizations and profiles\<close>

definition createOrganization_handler ::
    "ProvisioningEnv \<Rightarrow> jstring list option \<Rightarrow> jstring option \<Rightarrow> jsv \<Rightarrow> jsv \<Rightarrow> headers \<Rightarrow> OrgDb \<Rightarrow>
     CreatedOrganization answer" where
  "createOrganization_handler pe zones userId name timezone res db =
     (let hs = applyResponseHeaders res ORG_PROFILE_RESPONSE_HEADERS in
      case userId of
        None \<Rightarrow> refused (derr E_INTERNAL) db hs
      | Some u \<Rightarrow>
          if u = [] then refused (derr E_INTERNAL) db hs
          else (case validateNewOrganization zones name timezone of
                  Inl fieldErrors \<Rightarrow>
                    refused (derr_fields E_VALIDATION_FAILED (map (\<lambda>(k, m). (k, OrgCopy m)) fieldErrors)) db hs
                | Inr input \<Rightarrow> (create_organization pe u input db, hs)))"

definition getProfile_handler ::
    "ServiceEnv \<Rightarrow> OrgRequestContext option \<Rightarrow> headers \<Rightarrow> OrgDb \<Rightarrow> OrgProfileView answer" where
  "getProfile_handler env ctx res db =
     (get_profile env ctx db, applyResponseHeaders res ORG_PROFILE_RESPONSE_HEADERS)"

definition updateProfile_handler ::
    "ServiceEnv \<Rightarrow> OrgRequestContext option \<Rightarrow> jstring list option \<Rightarrow> jsv \<Rightarrow> jsv \<Rightarrow> jsv \<Rightarrow> headers \<Rightarrow> OrgDb \<Rightarrow>
     OrgProfileView answer" where
  "updateProfile_handler env ctx zones name logo timezone res db =
     (case validateOrgProfilePatch zones name logo timezone of
        Inl fieldErrors \<Rightarrow>
          refused (derr_fields E_VALIDATION_FAILED (map (\<lambda>(k, m). (k, OrgCopy m)) fieldErrors)) db res
      | Inr patch \<Rightarrow> (update_profile env ctx patch db, applyResponseHeaders res ORG_PROFILE_RESPONSE_HEADERS))"

fun tax_code :: "TaxProfileErrorCode \<Rightarrow> ErrorCode" where
  "tax_code TAX_ID_INVALID_code = E_TAX_ID_INVALID"
| "tax_code TAX_VALIDATION_FAILED_code = E_VALIDATION_FAILED"

definition putTaxProfile_handler ::
    "ServiceEnv \<Rightarrow> OrgRequestContext option \<Rightarrow> TaxProfileInput \<Rightarrow> headers \<Rightarrow> OrgDb \<Rightarrow> OrgProfileView answer" where
  "putTaxProfile_handler env ctx dto res db =
     (case validateTaxProfilePut dto of
        Inl (code, fieldErrors) \<Rightarrow>
          refused (derr_fields (tax_code code) (map (\<lambda>(k, m). (k, TaxCopy m)) fieldErrors)) db res
      | Inr w \<Rightarrow> (set_tax_profile env ctx w db, applyResponseHeaders res ORG_PROFILE_RESPONSE_HEADERS))"

definition revealTaxProfile_handler ::
    "ServiceEnv \<Rightarrow> OrgRequestContext option \<Rightarrow> headers \<Rightarrow> OrgDb \<Rightarrow> RevealedTaxProfile answer" where
  "revealTaxProfile_handler env ctx res db =
     (reveal_tax_profile env ctx db, applyResponseHeaders res TAX_ID_REVEAL_RESPONSE_HEADERS)"

definition listRoles_handler ::
    "OrgRequestContext option \<Rightarrow> headers \<Rightarrow> OrgDb \<Rightarrow> (RoleRow list \<times> jstring option) answer" where
  "listRoles_handler ctx res db =
     (reading (listRoles ctx db) db, applyResponseHeaders res ORG_PROFILE_RESPONSE_HEADERS)"

section \<open>Members\<close>

definition updateRole_handler ::
    "ServiceEnv \<Rightarrow> OrgRequestContext option \<Rightarrow> jstring \<Rightarrow> jsv \<Rightarrow> headers \<Rightarrow> OrgDb \<Rightarrow> MemberRow answer" where
  "updateRole_handler env ctx userId body res db =
     (let roleId = trimmed_string body in
      if roleId = []
      then refused (derr_fields E_VALIDATION_FAILED [(js ''roleId'', ROLE_ID_REQUIRED_MESSAGE)]) db res
      else (updateRole env ctx userId roleId db, applyResponseHeaders res ORG_PROFILE_RESPONSE_HEADERS))"

definition revoke_handler ::
    "ServiceEnv \<Rightarrow> OrgRequestContext option \<Rightarrow> jstring \<Rightarrow> headers \<Rightarrow> OrgDb \<Rightarrow> RevokeMemberResult answer" where
  "revoke_handler env ctx userId res db =
     (revoke env ctx userId db, applyResponseHeaders res ORG_PROFILE_RESPONSE_HEADERS)"

definition leave_handler ::
    "ServiceEnv \<Rightarrow> OrgRequestContext option \<Rightarrow> headers \<Rightarrow> OrgDb \<Rightarrow> LeaveOrgResult answer" where
  "leave_handler env ctx res db =
     (leave env ctx db, applyResponseHeaders res ORG_PROFILE_RESPONSE_HEADERS)"

section \<open>Invitations\<close>

definition createInvitation_handler ::
    "InvitationEnv \<Rightarrow> OrgRequestContext option \<Rightarrow> jsv \<Rightarrow> jsv \<Rightarrow> headers \<Rightarrow> OrgDb \<Rightarrow> IssuedInvitation answer" where
  "createInvitation_handler env ctx bodyEmail bodyRoleId res db =
     (let email = trimmed_string bodyEmail; roleId = trimmed_string bodyRoleId;
          fieldErrors = missing (js ''email'') EMAIL_REQUIRED_MESSAGE email @
                        missing (js ''roleId'') ROLE_ID_REQUIRED_MESSAGE roleId
      in if length fieldErrors > 0 then refused (derr_fields E_VALIDATION_FAILED fieldErrors) db res
         else (create env ctx email roleId db, applyResponseHeaders res INVITATION_RESPONSE_HEADERS))"

definition reissueLink_handler ::
    "InvitationEnv \<Rightarrow> OrgRequestContext option \<Rightarrow> jstring \<Rightarrow> headers \<Rightarrow> OrgDb \<Rightarrow> ReissuedLink answer" where
  "reissueLink_handler env ctx invitationId res db =
     (reissueLink env ctx invitationId db, applyResponseHeaders res INVITATION_RESPONSE_HEADERS)"

definition cancel_handler ::
    "InvitationEnv \<Rightarrow> OrgRequestContext option \<Rightarrow> jstring \<Rightarrow> headers \<Rightarrow> OrgDb \<Rightarrow> CancelledInvitation answer" where
  "cancel_handler env ctx invitationId res db =
     (cancel env ctx invitationId db, applyResponseHeaders res INVITATION_RESPONSE_HEADERS)"

definition preview_handler :: "InvitationEnv \<Rightarrow> jsv \<Rightarrow> headers \<Rightarrow> OrgDb \<Rightarrow> InvitationPreview answer" where
  "preview_handler env body res db =
     (case requireToken body of
        Inl e \<Rightarrow> refused e db res
      | Inr token \<Rightarrow>
          (reading (preview env token db) db, applyResponseHeaders res INVITATION_RESPONSE_HEADERS))"

definition accept_handler ::
    "InvitationEnv \<Rightarrow> jstring option \<Rightarrow> jsv \<Rightarrow> headers \<Rightarrow> OrgDb \<Rightarrow> OrgDb \<Rightarrow> InvitationAcceptResult answer" where
  "accept_handler env userId body res snapshot db =
     (case userId of
        None \<Rightarrow> refused (derr E_INTERNAL) db res
      | Some u \<Rightarrow>
          if u = [] then refused (derr E_INTERNAL) db res
          else (case requireToken body of
                  Inl e \<Rightarrow> refused e db res
                | Inr token \<Rightarrow>
                    (accept env u token snapshot db, applyResponseHeaders res INVITATION_RESPONSE_HEADERS)))"

end
