(* ===== verification/OrgSystem.thy ===== *)
theory OrgSystem
  imports OrgHandlers InvitationLifecycle AuthFacts
begin

text \<open>
  The program as one transition system. A transition is one write of one request: a handler of the
  organization endpoints, or one of the two statements the authentication service sends to the table of
  users. The requests of many callers are any sequence of transitions, each with its own environment,
  context and body. What every reachable database satisfies is proved here, and that the handlers of the
  authentication endpoints are sequences of these transitions.
\<close>

section \<open>Transitions\<close>

abbreviation db_after :: "'a answer \<Rightarrow> OrgDb" where
  "db_after a \<equiv> fst (snd (fst a))"

inductive api_write :: "OrgDb \<Rightarrow> OrgDb \<Rightarrow> bool" where
  OrganizationCreated: "api_write db (db_after (createOrganization_handler pe zones u name tz res db))"
| ProfileUpdated: "api_write db (db_after (updateProfile_handler env ctx zones name logo tz res db))"
| TaxProfilePut: "api_write db (db_after (putTaxProfile_handler env ctx dto res db))"
| RoleUpdated: "api_write db (db_after (updateRole_handler env ctx target body res db))"
| MemberRevoked: "api_write db (db_after (revoke_handler env ctx target res db))"
| MemberLeft: "api_write db (db_after (leave_handler env ctx res db))"
| InvitationCreated: "api_write db (db_after (createInvitation_handler ienv ctx email roleId res db))"
| LinkReissued: "api_write db (db_after (reissueLink_handler ienv ctx i res db))"
| InvitationCancelled: "api_write db (db_after (cancel_handler ienv ctx i res db))"
| InvitationAccepted: "api_write db (db_after (accept_handler ienv u body res snapshot db))"
| UserCreated: "create_user usr db = Inr db' \<Longrightarrow> api_write db db'"
| PasswordSet: "set_password u h db = Inr db' \<Longrightarrow> api_write db db'"

inductive_cases api_writeE: "api_write db db'"

abbreviation reaches :: "OrgDb \<Rightarrow> OrgDb \<Rightarrow> bool" where
  "reaches \<equiv> api_write\<^sup>*\<^sup>*"

section \<open>What a transition does\<close>

text \<open>
  Every transition is of one of four kinds: nothing, a step inside one organization, a new organization,
  or a change of the table of users.
\<close>

definition users_change :: "OrgDb \<Rightarrow> OrgDb \<Rightarrow> bool" where
  "users_change db db' \<longleftrightarrow>
     db_ok db' \<and> set (map usr_id (db_users db)) \<subseteq> set (map usr_id (db_users db')) \<and>
     (\<exists>us. db' = db\<lparr>db_users := us\<rparr>)"

definition org_created :: "OrgDb \<Rightarrow> OrgDb \<Rightarrow> bool" where
  "org_created db db' \<longleftrightarrow>
     db_ok db' \<and> (\<exists>pe u input plan. \<not> org_fk db (pe_organizationId pe) \<and>
       db' = with_new_organization pe u input plan db)"

definition write_effect :: "OrgDb \<Rightarrow> OrgDb \<Rightarrow> bool" where
  "write_effect db db' \<longleftrightarrow> (\<exists>o'. step_safe o' db db') \<or> org_created db db' \<or> users_change db db'"

lemma change_is_step: "membership_change_safe o' db db' \<Longrightarrow> step_safe o' db db'"
  by (simp add: membership_change_safe_def step_safe_def)

lemma in_org_step:
  assumes "db_ok db" and "\<And>o' u x db'. body o' u db = Inr (x, db') \<Longrightarrow> step_safe o' db db'"
  shows "\<exists>o'. step_safe o' db (fst (snd (in_org_transaction env ctx operation body finish db)))"
proof -
  obtain r db' evs where e: "in_org_transaction env ctx operation body finish db = (r, db', evs)" by (rule prod_cases3)
  show ?thesis
  proof (cases r)
    case (Inl x)
    then show ?thesis using in_org_fails [OF e [unfolded Inl]] assms(1) by (auto simp: e)
  next
    case (Inr x)
    with in_org_commits [OF e [unfolded Inr]] obtain o' u y where "body o' u db = Inr (y, db')" by blast
    from assms(2) [OF this] show ?thesis by (auto simp: e)
  qed
qed

lemma member_writes_step:
  assumes "db_ok db"
  shows "\<exists>o'. step_safe o' db (fst (snd (updateRole env ctx t r db)))"
    "\<exists>o'. step_safe o' db (fst (snd (revoke env ctx t db)))"
    "\<exists>o'. step_safe o' db (fst (snd (leave env ctx db)))"
  unfolding updateRole_def revoke_def leave_def
  by (rule in_org_step [OF assms]; force intro: change_is_step updateRole_tx_safe [OF assms] revoke_tx_safe [OF assms]
      leave_tx_safe [OF assms])+

lemma invitation_writes_step:
  assumes "db_ok db"
  shows "\<exists>o'. step_safe o' db (fst (snd (create ienv ctx email roleId db)))"
    "\<exists>o'. step_safe o' db (fst (snd (reissueLink ienv ctx i db)))"
    "\<exists>o'. step_safe o' db (fst (snd (cancel ienv ctx i db)))"
proof -
  have ret: "fst (snd (also_return oc k)) = fst (snd oc)" for oc :: "'x outcome" and k :: "'x \<Rightarrow> Thrown + 'y"
    by (cases oc) (auto simp: also_return_def)
  have keep: "\<exists>o'. step_safe o' db db" using step_safe_refl [OF assms] by blast
  have tx: "\<exists>o'. step_safe o' db (fst (snd (in_org_transaction env ctx op body finish db)))"
    if "\<And>o' u x db'. body o' u db = Inr (x, db') \<Longrightarrow> step_safe o' db db'" for env op body finish
    by (rule in_org_step [OF assms that])
  show "\<exists>o'. step_safe o' db (fst (snd (create ienv ctx email roleId db)))"
    using keep tx [OF create_tx_safe [OF assms]]
    by (auto simp: create_def Let_def ret split: sum.splits)
  show "\<exists>o'. step_safe o' db (fst (snd (reissueLink ienv ctx i db)))"
    unfolding reissueLink_def ret by (rule tx, rule reissueLink_tx_safe [OF assms])
  show "\<exists>o'. step_safe o' db (fst (snd (cancel ienv ctx i db)))"
    unfolding cancel_def by (rule tx, rule cancel_tx_safe [OF assms])
qed

lemma creation_effect:
  assumes ok: "db_ok db"
  shows "write_effect db (fst (snd (create_organization pe u input db)))"
proof (cases "may_create pe u db")
  case True
  let ?db' = "with_new_organization pe u input (resolved (the (default_plan pe db))) db"
  have "\<not> org_fk db (pe_organizationId pe)" using True by (simp add: may_create_def ids_fresh_def)
  with created_db_ok [OF ok True] have "org_created db ?db'" unfolding org_created_def by blast
  then show ?thesis using create_organization_cases [OF ok, of pe u input] True by (simp add: write_effect_def)
next
  case False
  with create_organization_cases [OF ok, of pe u input] obtain e where
    "create_organization pe u input db = (Inl e, db, [])" by auto
  then show ?thesis using step_safe_refl [OF ok] by (auto simp: write_effect_def)
qed

lemma user_fk_iff: "user_fk db u \<longleftrightarrow> u \<in> usr_id ` set (db_users db)"
  by (auto simp: user_fk_def list_ex_iff)

lemma same_user_ids:
  assumes "db_ok db" and "users_unique us" and "set (map usr_id (db_users db)) \<subseteq> set (map usr_id us)"
  shows "users_change db (db\<lparr>db_users := us\<rparr>)"
proof -
  have "user_fk db u \<Longrightarrow> user_fk (db\<lparr>db_users := us\<rparr>) u" for u
    using assms(3) by (simp add: user_fk_iff subset_iff)
  moreover have "org_fk (db\<lparr>db_users := us\<rparr>) = org_fk db" "role_fk (db\<lparr>db_users := us\<rparr>) = role_fk db"
    "plan_fk (db\<lparr>db_users := us\<rparr>) = plan_fk db"
    by (simp_all add: fun_eq_iff org_fk_def role_fk_def plan_fk_def)
  ultimately have "db_ok (db\<lparr>db_users := us\<rparr>)"
    using assms(1,2) by (simp add: db_ok_def list_all_iff)
  then show ?thesis using assms(3) unfolding users_change_def by (simp add: exI [of _ us])
qed

lemma account_writes:
  assumes "db_ok db"
  shows "create_user usr db = Inr db' \<Longrightarrow> users_change db db'"
    "set_password u h db = Inr db' \<Longrightarrow> users_change db db'"
proof -
  show "users_change db db'" if "create_user usr db = Inr db'"
    using that same_user_ids [OF assms, of "db_users db @ [usr]"]
    by (auto simp: create_user_def Let_def split: if_splits)
  let ?us = "map (\<lambda>x. if usr_id x = u then x\<lparr>usr_passwordHash := h\<rparr> else x) (db_users db)"
  have keys: "map usr_id ?us = map usr_id (db_users db)" "map usr_email ?us = map usr_email (db_users db)"
    by simp_all
  have "users_unique ?us" using assms unfolding db_ok_def users_unique_def unique_by_def keys by simp
  moreover have "set (map usr_id (db_users db)) \<subseteq> set (map usr_id ?us)" by (simp only: keys)
  ultimately show "users_change db db'" if "set_password u h db = Inr db'"
    using that same_user_ids [OF assms, of ?us] by (auto simp: set_password_def split: if_splits)
qed

lemma org_step_effect:
  "\<exists>o'. step_safe o' db db' \<Longrightarrow> write_effect db db'"
  by (simp add: write_effect_def)

lemma api_write_effect:
  assumes "api_write db db'" and ok: "db_ok db"
  shows "write_effect db db'"
proof -
  have keep: "write_effect db db" using step_safe_refl [OF ok] by (auto simp: write_effect_def)
  note org = org_step_effect [OF member_writes_step(1) [OF ok]] org_step_effect [OF member_writes_step(2) [OF ok]]
    org_step_effect [OF member_writes_step(3) [OF ok]] org_step_effect [OF invitation_writes_step(1) [OF ok]]
    org_step_effect [OF invitation_writes_step(2) [OF ok]] org_step_effect [OF invitation_writes_step(3) [OF ok]]
  have profile: "write_effect db (fst (snd (update_profile env ctx patch db)))" for env ctx patch
    using update_profile_safe [OF ok] by (intro org_step_effect) (metis prod.collapse)
  have tax: "write_effect db (fst (snd (set_tax_profile env ctx w db)))" for env ctx w
    using set_tax_profile_safe [OF ok] by (intro org_step_effect) (metis prod.collapse)
  have acc: "write_effect db (fst (snd (accept ienv u token snapshot db)))" for ienv u token snapshot
    using accept_safe [OF ok] by (intro org_step_effect) (metis prod.collapse)
  from assms(1) show ?thesis
    by cases (auto simp: refused_def Let_def createOrganization_handler_def updateProfile_handler_def
        putTaxProfile_handler_def updateRole_handler_def revoke_handler_def leave_handler_def
        createInvitation_handler_def reissueLink_handler_def cancel_handler_def accept_handler_def
        write_effect_def [of _ db'] keep org profile tax acc creation_effect [OF ok]
        intro: account_writes [OF ok] split: option.split sum.split)
qed

section \<open>The invariant\<close>

text \<open>
  Every constraint of the schema holds and every organization is complete: an active Owner, an
  entitlement and a default warehouse.
\<close>

definition sys_ok :: "OrgDb \<Rightarrow> bool" where
  "sys_ok db \<longleftrightarrow> db_ok db \<and> (\<forall>o'. org_fk db o' \<longrightarrow> complete_org o' db)"

text \<open>What no request takes away: organizations, accounts, roles and their capabilities, plans, entitlements.\<close>

definition kept :: "OrgDb \<Rightarrow> OrgDb \<Rightarrow> bool" where
  "kept db db' \<longleftrightarrow>
     set (map org_id (db_orgs db)) \<subseteq> set (map org_id (db_orgs db')) \<and>
     set (map usr_id (db_users db)) \<subseteq> set (map usr_id (db_users db')) \<and>
     set (db_roles db) \<subseteq> set (db_roles db') \<and> set (db_entitlements db) \<subseteq> set (db_entitlements db') \<and>
     set (db_warehouses db) \<subseteq> set (db_warehouses db') \<and> db_plans db' = db_plans db"

lemma kept_refl [simp]: "kept db db" by (simp add: kept_def)

lemma kept_trans: "kept a b \<Longrightarrow> kept b c \<Longrightarrow> kept a c"
  unfolding kept_def by (metis subset_trans)

lemma other_orgs_members:
  assumes "other_orgs orgOf o' rows' = other_orgs orgOf o' rows" and "orgOf m \<noteq> o'"
  shows "m \<in> set rows' \<longleftrightarrow> m \<in> set rows"
proof -
  have "m \<in> set (other_orgs orgOf o' rows') \<longleftrightarrow> m \<in> set (other_orgs orgOf o' rows)" by (simp only: assms(1))
  then show ?thesis using assms(2) by (simp add: other_orgs_def)
qed

lemma step_keeps_owner:
  assumes "step_safe o' db db'" and "has_active_owner a db"
  shows "has_active_owner a db'"
proof (cases "a = o'")
  case False
  have out: "outside_unchanged o' db db'" using assms(1) by (simp add: step_safe_def)
  then have "role_caps db' = role_caps db" by (simp add: outside_unchanged_def role_caps_def fun_eq_iff)
  moreover have "m \<in> set (db_memberships db') \<longleftrightarrow> m \<in> set (db_memberships db)" if "mem_org m = a" for m
    using out False that by (intro other_orgs_members [of mem_org o']) (auto simp: outside_unchanged_def)
  ultimately show ?thesis using assms(2) unfolding has_active_owner_def by metis
qed (use assms in \<open>simp add: step_safe_def\<close>)

lemma step_safe_sys:
  assumes "step_safe o' db db'" and "sys_ok db"
  shows "sys_ok db' \<and> kept db db'"
proof -
  have out: "outside_unchanged o' db db'" and ok: "db_ok db'" using assms(1) by (simp_all add: step_safe_def)
  then have ids: "map org_id (db_orgs db') = map org_id (db_orgs db)"
    and same: "db_entitlements db' = db_entitlements db" "db_warehouses db' = db_warehouses db"
      "db_roles db' = db_roles db" "db_users db' = db_users db" "db_plans db' = db_plans db"
    by (simp_all add: outside_unchanged_def)
  have "set (map org_id (db_orgs db')) = set (map org_id (db_orgs db))" by (simp only: ids)
  then have fk: "org_fk db' a = org_fk db a" for a by (simp add: org_fk_iff)
  have "complete_org a db'" if "org_fk db' a" for a
    using assms(2) that step_keeps_owner [OF assms(1)] unfolding sys_ok_def complete_org_def fk same by metis
  moreover have "kept db db'" unfolding kept_def same ids by simp
  ultimately show ?thesis using ok by (simp add: sys_ok_def)
qed

lemma users_change_sys:
  assumes "users_change db db'" and "sys_ok db"
  shows "sys_ok db' \<and> kept db db'"
proof -
  from assms(1) obtain us where d: "db' = db\<lparr>db_users := us\<rparr>" and ok: "db_ok db'"
    and ids: "set (map usr_id (db_users db)) \<subseteq> set (map usr_id (db_users db'))"
    unfolding users_change_def by blast
  have "complete_org a db' = complete_org a db" "org_fk db' a = org_fk db a" for a
    by (simp_all add: d complete_org_def org_fk_def has_active_owner_def role_caps_def)
  then show ?thesis using ok ids assms(2) by (simp add: sys_ok_def kept_def d)
qed

lemma org_created_sys:
  assumes "org_created db db'" and "sys_ok db"
  shows "sys_ok db' \<and> kept db db'"
proof -
  from assms(1) obtain pe u input plan where new: "\<not> org_fk db (pe_organizationId pe)"
    and d: "db' = with_new_organization pe u input plan db" and ok: "db_ok db'"
    unfolding org_created_def by blast
  have dbok: "db_ok db" using assms(2) by (simp add: sys_ok_def)
  have "complete_org a db'" if "org_fk db' a" for a
  proof (cases "a = pe_organizationId pe")
    case True
    then show ?thesis using new_organization_complete [OF dbok new] by (simp add: d)
  next
    case False
    with that have "complete_org a db" using assms(2) by (auto simp: sys_ok_def d org_fk_iff)
    then show ?thesis
      using other_organizations_owned [OF False] by (auto simp: complete_org_def d org_fk_iff)
  qed
  moreover have "db_plans db' = db_plans db" by (simp add: d with_new_organization_def Let_def)
  ultimately show ?thesis using ok by (auto simp: sys_ok_def kept_def d)
qed

lemma api_write_sys:
  assumes "api_write db db'" and "sys_ok db"
  shows "sys_ok db' \<and> kept db db'"
  using api_write_effect [OF assms(1)] assms(2) step_safe_sys org_created_sys users_change_sys
  unfolding write_effect_def sys_ok_def by metis

lemma reaches_sys:
  assumes "reaches db db'" and "sys_ok db"
  shows "sys_ok db' \<and> kept db db'"
  using assms
proof (induction rule: rtranclp_induct)
  case (step b c)
  then show ?case using api_write_sys kept_trans by blast
qed simp

text \<open>
  C2: Every organization stays complete whatever anybody requests. From a database that satisfies the
  schema and in which every organization has an active Owner, an entitlement and a default warehouse,
  any sequence of requests of any callers, refused or granted and in any order, leads to such a
  database again; and no organization, account, role, plan, entitlement or warehouse is ever taken away,
  nor the capabilities of an existing role changed.
\<close>

theorem organizations_stay_complete:
  assumes "api_write\<^sup>*\<^sup>* db db'" and "sys_ok db"
  shows "db_ok db' \<and> (\<forall>o'. org_fk db' o' \<longrightarrow> complete_org o' db') \<and> kept db db'"
  using reaches_sys [OF assms] unfolding sys_ok_def by simp

definition empty_catalog :: OrgDb where
  "empty_catalog = demo_catalog\<lparr>db_orgs := [], db_roles := [], db_memberships := [], db_invitations := []\<rparr>"

lemma empty_sys_ok: "sys_ok empty_catalog"
  by (simp add: sys_ok_def org_fk_def db_ok_def empty_catalog_def demo_catalog_def demo_db_def demo_rows users_unique_def
      roles_unique_def memberships_unique_def invitations_unique_def warehouses_unique_def entitlements_unique_def
      unique_by_def pending_def plans_unique_def user_fk_def js_append)

lemma shop_input:
  "validateNewOrganization None (JStr (js ''shop'')) JUndef =
     Inr \<lparr>noi_name = js ''shop'', noi_timezone = ORG_DEFAULT_TIMEZONE\<rparr>"
proof -
  have "trim (js ''shop'') = js ''shop''" by (simp add: trim_def is_space_def js_def)
  moreover have "length (code_points (js ''shop'')) = 4"
    by (subst code_points_plain) (auto simp: is_high_surrogate_def js_def)
  ultimately have "validateOrgName (JStr (js ''shop'')) = Inr (js ''shop'')"
    by (simp add: validateOrgName_def ORG_NAME_MIN_LENGTH_def ORG_NAME_MAX_LENGTH_def)
  then show ?thesis by (simp add: validateNewOrganization_def timezone_choice_def)
qed

text \<open>A first organization on a system without one.\<close>

lemma organizations_stay_complete_witness:
  "\<exists>db'. api_write\<^sup>*\<^sup>* empty_catalog db' \<and> org_fk db' (js ''o9'') \<and> complete_org (js ''o9'') db'"
proof -
  let ?h = "createOrganization_handler demo_provisioning None (Some (js ''dan'')) (JStr (js ''shop'')) JUndef [] empty_catalog"
  have may: "may_create demo_provisioning (js ''dan'') empty_catalog"
    by (simp add: may_create_def demo_provisioning_def demo_env_def created_by_def empty_catalog_def demo_catalog_def
        demo_db_def demo_rows default_plan_def ids_fresh_def org_fk_def user_fk_def js_def)
  have ok: "db_ok empty_catalog" using empty_sys_ok by (simp add: sys_ok_def)
  have "db_after ?h = fst (snd (create_organization demo_provisioning (js ''dan'')
      \<lparr>noi_name = js ''shop'', noi_timezone = ORG_DEFAULT_TIMEZONE\<rparr> empty_catalog))"
    by (simp add: createOrganization_handler_def shop_input Let_def)
  then have "org_fk (db_after ?h) (js ''o9'')"
    using create_organization_cases [OF ok, of demo_provisioning "js ''dan''"] may
    by (simp add: org_fk_iff demo_provisioning_def)
  moreover have r: "api_write\<^sup>*\<^sup>* empty_catalog (db_after ?h)"
    by (rule r_into_rtranclp) (rule OrganizationCreated)
  ultimately show ?thesis using organizations_stay_complete [OF r empty_sys_ok] by blast
qed

end
