(* ===== verification/RequestSystem.thy ===== *)
theory RequestSystem
  imports OrgSystem AuthDemo
begin

text \<open>
  The authentication endpoints inside the transition system: whatever a handler of \<open>/auth\<close> or the password
  reset does to the database is a sequence of transitions, so what holds of every reachable database holds
  after every request.
\<close>

section \<open>Steps that move the database along a relation\<close>

definition moves :: "(OrgDb \<Rightarrow> OrgDb \<Rightarrow> bool) \<Rightarrow> ('s, 'a) step \<Rightarrow> bool" where
  "moves R m \<longleftrightarrow> (\<forall>st. R (sv_db st) (sv_db (snd (m st))))"

locale db_relation =
  fixes R :: "OrgDb \<Rightarrow> OrgDb \<Rightarrow> bool"
  assumes stay: "R db db"
    and follow: "R db1 db2 \<Longrightarrow> R db2 db3 \<Longrightarrow> R db1 db3"
begin

lemma moves_keeps: "keeps stored m \<Longrightarrow> moves R m"
  by (simp add: keeps_def moves_def stay)

lemma moves_db: "keeps sv_db m \<Longrightarrow> moves R m"
  by (simp add: keeps_def moves_def stay)

lemma moves_pure: "moves R (sret x)" "moves R (sthrow e)" "moves R (sread g)" "moves R (semit ty q)" "moves R (slift r)"
  by (rule moves_db, simp)+

lemma moves_sbind: "moves R m \<Longrightarrow> (\<And>x. moves R (f x)) \<Longrightarrow> moves R (sbind m f)"
  by (auto simp: moves_def sbind_def split: prod.splits sum.splits) (metis follow snd_conv)+

lemma moves_swhen: "moves R m \<Longrightarrow> moves R (swhen b m)"
  by (simp add: swhen_def moves_pure)

lemma moves_on_error:
  fixes m :: "('s, 'a) step" and h :: "('s, unit) step"
  assumes "moves R m" and "moves R h"
  shows "moves R (on_error m h)"
proof -
  have "R (sv_db st) (sv_db (snd (on_error m h st)))" for st
  proof (cases "fst (fst (m st))")
    case (Inl e)
    then obtain evs st1 where m: "m st = ((Inl e, evs), st1)" by (metis prod.collapse)
    have "moves R (sbind (\<lambda>st. ((Inr (), evs), st)) (\<lambda>_. sbind h (\<lambda>_. sthrow e) :: ('s, 'a) step))"
      by (intro moves_sbind assms(2) moves_pure) (simp add: moves_def stay)
    then have "R (sv_db st1) (sv_db (snd (on_error m h st)))" by (simp add: moves_def on_error_def m)
    moreover have "R (sv_db st) (sv_db st1)" using assms(1) m unfolding moves_def by (metis snd_conv)
    ultimately show ?thesis by (rule follow [rotated])
  next
    case (Inr x)
    then obtain evs st1 where m: "m st = ((Inr x, evs), st1)" by (metis prod.collapse)
    then have "on_error m h st = m st" by (simp add: on_error_def)
    then show ?thesis using assms(1) by (simp add: moves_def)
  qed
  then show ?thesis by (simp add: moves_def)
qed

lemma moves_db_step:
  assumes "\<And>db db'. f db = Inr db' \<Longrightarrow> R db db'"
  shows "moves R (db_step f :: ('s, unit) step)"
proof -
  have "R (sv_db st) (sv_db (snd (db_step f st)))" for st :: "'s Server"
    using assms [of "sv_db st"] by (cases "f (sv_db st)") (auto simp: db_step_def sbind_def step_defs stay)
  then show ?thesis by (simp add: moves_def)
qed

end

interpretation api: db_relation reaches
  by unfold_locales auto

section \<open>The handlers\<close>

lemma reaches_account:
  "create_user usr db = Inr db' \<Longrightarrow> reaches db db'"
  "set_password u h db = Inr db' \<Longrightarrow> reaches db db'"
  by (auto intro: r_into_rtranclp UserCreated PasswordSet)

lemma account_steps: "moves reaches (db_step (create_user usr))" "moves reaches (db_step (set_password u h))"
  by (rule api.moves_db_step, erule reaches_account)+

lemma token_steps:
  "moves reaches (revoke_step f)" "moves reaches (rotate_step W M presented dev)" "moves reaches (issue_step W M u dev)"
  "moves reaches (owner_of W M v live)" "moves reaches (note_argon2 c)"
  by (simp_all add: moves_def revoke_step_def rotate_step_def issue_step_def owner_of_def note_argon2_def sbind_def step_defs
      split: sum.splits prod.splits)

lemmas moves_intros = api.moves_sbind api.moves_pure api.moves_swhen account_steps token_steps
  api.moves_keeps [OF throttle_keeps(1)] api.moves_keeps [OF throttle_keeps(3)]
  api.moves_keeps [OF throttle_keeps(5)] api.moves_keeps [OF throttle_keeps(7)]
  api.moves_db [OF guard_keeps(1)] api.moves_db [OF guard_keeps(2)] api.moves_db [OF guard_keeps(3)]
  api.moves_db [OF jwt_keeps]

lemma hash_steps: "moves reaches (hash_password W M pw)" "moves reaches (verify_password W h pw)"
  unfolding hash_password_def verify_password_def by (intro moves_intros)+

lemma find_step: "moves reaches (find_user P)"
  unfolding find_user_def by (rule api.moves_pure)

lemma signup_moves: "moves reaches (signup_handler W M req dto)"
  unfolding signup_handler_def signup_def Let_def
  by (intro moves_intros) (auto intro!: moves_intros hash_steps find_step)

lemma login_moves: "moves reaches (login_handler W M dummyHash req dto)"
  unfolding login_handler_def login_def dummyVerify_def Let_def
  by (intro moves_intros) (auto intro!: moves_intros hash_steps find_step split: option.splits)

lemma session_moves:
  "moves reaches (refresh_handler W M req rdto)" "moves reaches (logout_handler W M req odto)"
  "moves reaches (logoutAll_handler W M req)" "moves reaches (sessions_handler W M req)"
  unfolding refresh_handler_def logout_handler_def logoutAll_handler_def sessions_handler_def
  by (intro moves_intros; auto intro!: moves_intros split: option.split RotateResult.split)+

lemma changePassword_moves: "moves reaches (changePassword_handler W M req dto)"
  unfolding changePassword_handler_def changePassword_def
  by (intro moves_intros) (auto intro!: moves_intros hash_steps find_step split: option.splits)

text \<open>Other requests at work meanwhile: each of the two gaps is any sequence of transitions.\<close>

definition interleaved :: "Interference \<Rightarrow> bool" where
  "interleaved I \<longleftrightarrow> (\<forall>db. reaches db (in_whileHashing I db) \<and> reaches db (in_afterReading I db))"

lemma reset_tx_moves:
  assumes "\<And>db. reaches db (others db)"
  shows "reaches db (snd (admin_reset_tx drv others c o' t h db))"
proof -
  have "reaches db db'" if "set_password t h (others db) = Inr db'" for db'
    using assms [of db] reaches_account(2) [OF that] by (rule rtranclp_trans)
  then show ?thesis using assms
    by (auto simp: admin_reset_tx_def Let_def split: option.splits sum.splits AdminResetDecision.splits)
qed

lemma run_reset_moves:
  assumes "interleaved I"
  shows "moves reaches (run_reset_tx drv I c o' t h)"
proof -
  have "reaches db (snd (admin_reset_tx drv (in_afterReading I) c o' t h (in_whileHashing I db)))" for db
    using assms reset_tx_moves [of "in_afterReading I"] rtranclp_trans [of api_write]
    unfolding interleaved_def by blast
  then show ?thesis by (simp add: moves_def run_reset_tx_def split: prod.splits) (metis snd_conv)
qed

lemma reset_moves:
  assumes "interleaved I"
  shows "moves reaches (resetPassword_handler W M drv I req o' t pw)"
proof -
  have emits: "moves reaches (\<lambda>st. ((Inr (), evs), st))" for evs by (simp add: moves_def)
  have "moves reaches (adminResetPassword W M drv I c o' t pw)" for c
    unfolding adminResetPassword_def
    by (intro moves_intros) (auto intro!: moves_intros hash_steps run_reset_moves [OF assms] emits split: ResetOutcome.split)
  then show ?thesis
    unfolding resetPassword_handler_def Let_def by (intro moves_intros api.moves_on_error)
qed

text \<open>
  C13: The authentication endpoints are part of the system. What a sign-up, a login (which may upgrade a
  stored hash), a refresh, a logout, the list of sessions, a change of password or the reset of another's
  password does to the database, granted or refused, is a sequence of the transitions; so every
  organization is complete after it, with whatever other requests commit while the reset is under way.
\<close>

theorem handlers_are_transitions:
  assumes "interleaved I"
  shows "list_all (\<lambda>st'. reaches (sv_db st) (sv_db st') \<and> (sys_ok (sv_db st) \<longrightarrow> sys_ok (sv_db st')))
    [snd (signup_handler W M req sdto st), snd (login_handler W M dummyHash req ldto st),
     snd (refresh_handler W M req rdto st), snd (logout_handler W M req odto st),
     snd (logoutAll_handler W M req st), snd (sessions_handler W M req st),
     snd (changePassword_handler W M req cdto st), snd (resetPassword_handler W M drv I req o' t pw st)]"
proof -
  have moved: "reaches (sv_db st) (sv_db (snd (m st))) \<and> (sys_ok (sv_db st) \<longrightarrow> sys_ok (sv_db (snd (m st))))"
    if "moves reaches m" for m
    using that reaches_sys unfolding moves_def by blast
  show ?thesis
    by (simp add: moved signup_moves login_moves session_moves changePassword_moves reset_moves [OF assms])
qed

lemma handlers_are_transitions_witness:
  "sys_ok (sv_db (snd (resetPassword_handler demo_world (demo_moment 5 0) demo_driver nobody
     (demo_request (Some (token_of (js ''ann'')))) (js ''o1'') (js ''dan'') twelve (demo_server\<lparr>sv_db := empty_catalog\<rparr>))))"
proof -
  have "interleaved nobody" by (simp add: interleaved_def nobody_def)
  from handlers_are_transitions [OF this, where W = demo_world and M = "demo_moment 5 0" and drv = demo_driver
      and req = "demo_request (Some (token_of (js ''ann'')))" and o' = "js ''o1''" and t = "js ''dan''"
      and pw = twelve and st = "demo_server\<lparr>sv_db := empty_catalog\<rparr>"]
  show ?thesis using empty_sys_ok by simp
qed

end
