(* ===== verification/EnvConfig.thy ===== *)
theory EnvConfig
  imports Throttle InvitationsService OrgProvisioning "HOL-Library.Monad_Syntax"
begin

text \<open>
  The configuration of the API (\<open>packages/config/src/env.ts\<close>, \<open>org-policy.ts\<close>) and the providers that
  hand it to the services (\<open>apps/api/src/orgs/org-config.ts\<close>, the resolver calls of \<open>packages/db\<close>).

  The environment of the process is a partial map from names to strings. A schema field is a
  function of the environment that answers \<open>None\<close> where the library would report an issue; the texts
  of the issues are printed and are not modelled. \<open>parseUrl\<close> stands for \<open>new URL\<close>: it answers the
  protocol and the host name, \<open>None\<close> where the constructor throws. \<open>loadEnv\<close> answering \<open>None\<close> is the
  process exit.
\<close>

type_synonym ProcessEnv = "jstring \<Rightarrow> jstring option"

section \<open>Positive integers\<close>

definition POSITIVE_INT_ENV_MAX :: nat where "POSITIVE_INT_ENV_MAX = 1000000000"

definition digits_only :: "jstring \<Rightarrow> bool" where
  "digits_only s \<longleftrightarrow> s \<noteq> [] \<and> list_all is_digit s"

definition positiveIntEnv :: "string \<Rightarrow> nat \<Rightarrow> ProcessEnv \<Rightarrow> jstring option" where
  "positiveIntEnv name defaultValue source =
     (case source (js name) of
        None \<Rightarrow> Some (dec_digits defaultValue)
      | Some v \<Rightarrow>
          if digits_only v \<and> 1 \<le> dec_value v \<and> dec_value v \<le> POSITIVE_INT_ENV_MAX then Some v else None)"

definition positive_int :: "nat \<Rightarrow> bool" where
  "positive_int n \<longleftrightarrow> 1 \<le> n \<and> n \<le> POSITIVE_INT_ENV_MAX"

lemma positiveIntEnv_bounds:
  "positiveIntEnv name d source = Some v \<Longrightarrow> positive_int d \<Longrightarrow> positive_int (dec_value v)"
  by (auto simp: positiveIntEnv_def positive_int_def split: option.splits if_splits)

lemma positiveIntEnv_default: "source (js name) = None \<Longrightarrow> positiveIntEnv name d source = Some (dec_digits d)"
  by (simp add: positiveIntEnv_def)

section \<open>The timeouts of the locking transactions\<close>

record OrgTxTimeouts =
  lockTimeoutMs :: nat
  txTimeoutMs :: nat
  maxWaitMs :: nat

definition ORG_TX_TIMEOUT_DEFAULTS :: OrgTxTimeouts where
  "ORG_TX_TIMEOUT_DEFAULTS = \<lparr>lockTimeoutMs = 3000, txTimeoutMs = 5000, maxWaitMs = 2000\<rparr>"

record OrgTxVars =
  ORG_LOCK_TIMEOUT_MS :: jstring
  ORG_TX_TIMEOUT_MS :: jstring
  ORG_TX_MAX_WAIT_MS :: jstring

definition orgTxTimeoutShape :: "ProcessEnv \<Rightarrow> OrgTxVars option" where
  "orgTxTimeoutShape source = do {
     l \<leftarrow> positiveIntEnv ''ORG_LOCK_TIMEOUT_MS'' (lockTimeoutMs ORG_TX_TIMEOUT_DEFAULTS) source;
     t \<leftarrow> positiveIntEnv ''ORG_TX_TIMEOUT_MS'' (txTimeoutMs ORG_TX_TIMEOUT_DEFAULTS) source;
     w \<leftarrow> positiveIntEnv ''ORG_TX_MAX_WAIT_MS'' (maxWaitMs ORG_TX_TIMEOUT_DEFAULTS) source;
     Some \<lparr>ORG_LOCK_TIMEOUT_MS = l, ORG_TX_TIMEOUT_MS = t, ORG_TX_MAX_WAIT_MS = w\<rparr>
   }"

definition refineOrgTxTimeouts :: "OrgTxVars \<Rightarrow> bool" where
  "refineOrgTxTimeouts v \<longleftrightarrow> \<not> dec_value (ORG_LOCK_TIMEOUT_MS v) \<ge> dec_value (ORG_TX_TIMEOUT_MS v)"

section \<open>The quotas\<close>

record OrgRateVars =
  ORG_RATE_LIMIT_CREATE_ORG_PER_HOUR :: jstring
  ORG_RATE_LIMIT_INVITE_CREATE_PER_HOUR :: jstring
  ORG_RATE_LIMIT_INVITE_LINK_PER_HOUR :: jstring
  ORG_RATE_LIMIT_INVITE_PUBLIC_PER_HOUR :: jstring
  ORG_RATE_LIMIT_TAX_REVEAL_PER_HOUR :: jstring

fun ORG_RATE_LIMIT_ENV_VARS :: "OrgRateLimitAction \<Rightarrow> string" where
  "ORG_RATE_LIMIT_ENV_VARS createOrganization = ''ORG_RATE_LIMIT_CREATE_ORG_PER_HOUR''"
| "ORG_RATE_LIMIT_ENV_VARS createInvitation = ''ORG_RATE_LIMIT_INVITE_CREATE_PER_HOUR''"
| "ORG_RATE_LIMIT_ENV_VARS reissueInvitationLink = ''ORG_RATE_LIMIT_INVITE_LINK_PER_HOUR''"
| "ORG_RATE_LIMIT_ENV_VARS publicInvitationEntry = ''ORG_RATE_LIMIT_INVITE_PUBLIC_PER_HOUR''"
| "ORG_RATE_LIMIT_ENV_VARS revealTaxProfile = ''ORG_RATE_LIMIT_TAX_REVEAL_PER_HOUR''"

definition orgRateLimitShape :: "ProcessEnv \<Rightarrow> OrgRateVars option" where
  "orgRateLimitShape source = do {
     a \<leftarrow> positiveIntEnv ''ORG_RATE_LIMIT_CREATE_ORG_PER_HOUR''
            (rl_limit (ORG_RATE_LIMIT_DEFAULTS createOrganization)) source;
     b \<leftarrow> positiveIntEnv ''ORG_RATE_LIMIT_INVITE_CREATE_PER_HOUR''
            (rl_limit (ORG_RATE_LIMIT_DEFAULTS createInvitation)) source;
     c \<leftarrow> positiveIntEnv ''ORG_RATE_LIMIT_INVITE_LINK_PER_HOUR''
            (rl_limit (ORG_RATE_LIMIT_DEFAULTS reissueInvitationLink)) source;
     d \<leftarrow> positiveIntEnv ''ORG_RATE_LIMIT_INVITE_PUBLIC_PER_HOUR''
            (rl_limit (ORG_RATE_LIMIT_DEFAULTS publicInvitationEntry)) source;
     e \<leftarrow> positiveIntEnv ''ORG_RATE_LIMIT_TAX_REVEAL_PER_HOUR''
            (rl_limit (ORG_RATE_LIMIT_DEFAULTS revealTaxProfile)) source;
     Some \<lparr>ORG_RATE_LIMIT_CREATE_ORG_PER_HOUR = a, ORG_RATE_LIMIT_INVITE_CREATE_PER_HOUR = b,
           ORG_RATE_LIMIT_INVITE_LINK_PER_HOUR = c, ORG_RATE_LIMIT_INVITE_PUBLIC_PER_HOUR = d,
           ORG_RATE_LIMIT_TAX_REVEAL_PER_HOUR = e\<rparr>
   }"

section \<open>The whole environment\<close>

datatype NodeEnv = NodeDevelopment | NodeTest | NodeProduction

definition node_env :: "jstring \<Rightarrow> NodeEnv option" where
  "node_env s =
     (if s = js ''development'' then Some NodeDevelopment
      else if s = js ''test'' then Some NodeTest
      else if s = js ''production'' then Some NodeProduction else None)"

type_synonym UrlParser = "jstring \<Rightarrow> (jstring \<times> jstring) option"

definition isAcceptableWebAppBaseUrl :: "UrlParser \<Rightarrow> jstring \<Rightarrow> NodeEnv \<Rightarrow> bool" where
  "isAcceptableWebAppBaseUrl parseUrl raw nodeEnv =
     (case parseUrl raw of
        None \<Rightarrow> False
      | Some (protocol, hostname) \<Rightarrow>
          if protocol = js ''https:'' then True
          else if protocol \<noteq> js ''http:'' then False
          else if nodeEnv = NodeProduction then False
          else List.member [js ''localhost'', js ''127.0.0.1'', js ''[::1]'', js ''::1''] hostname)"

definition string_min :: "nat \<Rightarrow> string \<Rightarrow> ProcessEnv \<Rightarrow> jstring option" where
  "string_min n name source =
     (case source (js name) of None \<Rightarrow> None | Some s \<Rightarrow> if n \<le> length s then Some s else None)"

definition string_url :: "UrlParser \<Rightarrow> string \<Rightarrow> ProcessEnv \<Rightarrow> jstring option" where
  "string_url parseUrl name source = do {
     s \<leftarrow> string_min 1 name source;
     if parseUrl s \<noteq> None then Some s else None
   }"

definition string_digits :: "string \<Rightarrow> ProcessEnv \<Rightarrow> jstring option" where
  "string_digits name source = do {
     s \<leftarrow> string_min 1 name source;
     if digits_only s then Some s else None
   }"

definition digits_default :: "string \<Rightarrow> jstring \<Rightarrow> ProcessEnv \<Rightarrow> jstring option" where
  "digits_default name d source =
     (case source (js name) of None \<Rightarrow> Some d | Some s \<Rightarrow> if digits_only s then Some s else None)"

definition corsAllowedOrigins :: "ProcessEnv \<Rightarrow> jstring list" where
  "corsAllowedOrigins source =
     (let raw = (case source (js ''CORS_ALLOWED_ORIGINS'') of None \<Rightarrow> [] | Some r \<Rightarrow> r)
      in filter (\<lambda>p. length p > 0) (map trim (split_on 44 raw)))"

record Env =
  DATABASE_URL :: jstring
  REDIS_URL :: jstring
  JWT_ACCESS_SECRET :: jstring
  JWT_REFRESH_SECRET :: jstring
  PORT :: jstring
  NODE_ENV :: NodeEnv
  TRUST_PROXY_HOPS :: jstring
  CORS_ALLOWED_ORIGINS :: "jstring list"
  INVITATION_TOKEN_SECRET :: jstring
  WEB_APP_BASE_URL :: jstring
  DEFAULT_ORG_PLAN_KEY :: jstring
  MAX_ORGS_PER_USER :: jstring
  env_tx :: OrgTxVars
  env_rate :: OrgRateVars

definition MAX_ORGS_PER_USER_DEFAULT :: nat where "MAX_ORGS_PER_USER_DEFAULT = 50"

definition envObjectSchema :: "UrlParser \<Rightarrow> ProcessEnv \<Rightarrow> Env option" where
  "envObjectSchema parseUrl source = do {
     databaseUrl \<leftarrow> string_url parseUrl ''DATABASE_URL'' source;
     redisUrl \<leftarrow> string_url parseUrl ''REDIS_URL'' source;
     accessSecret \<leftarrow> string_min 32 ''JWT_ACCESS_SECRET'' source;
     refreshSecret \<leftarrow> string_min 32 ''JWT_REFRESH_SECRET'' source;
     port \<leftarrow> string_digits ''PORT'' source;
     nodeEnv \<leftarrow> Option.bind (source (js ''NODE_ENV'')) node_env;
     hops \<leftarrow> digits_default ''TRUST_PROXY_HOPS'' (js ''0'') source;
     invitationSecret \<leftarrow> string_min 32 ''INVITATION_TOKEN_SECRET'' source;
     baseUrl \<leftarrow> string_url parseUrl ''WEB_APP_BASE_URL'' source;
     planKey \<leftarrow> string_min 1 ''DEFAULT_ORG_PLAN_KEY'' source;
     maxOrgs \<leftarrow> positiveIntEnv ''MAX_ORGS_PER_USER'' MAX_ORGS_PER_USER_DEFAULT source;
     tx \<leftarrow> orgTxTimeoutShape source;
     rate \<leftarrow> orgRateLimitShape source;
     Some \<lparr>DATABASE_URL = databaseUrl, REDIS_URL = redisUrl, JWT_ACCESS_SECRET = accessSecret,
           JWT_REFRESH_SECRET = refreshSecret, PORT = port, NODE_ENV = nodeEnv, TRUST_PROXY_HOPS = hops,
           CORS_ALLOWED_ORIGINS = corsAllowedOrigins source, INVITATION_TOKEN_SECRET = invitationSecret,
           WEB_APP_BASE_URL = baseUrl, DEFAULT_ORG_PLAN_KEY = planKey, MAX_ORGS_PER_USER = maxOrgs,
           env_tx = tx, env_rate = rate\<rparr>
   }"

text \<open>The rules across fields.\<close>

definition env_refined :: "UrlParser \<Rightarrow> Env \<Rightarrow> bool" where
  "env_refined parseUrl env \<longleftrightarrow>
     \<not> JWT_ACCESS_SECRET env = JWT_REFRESH_SECRET env \<and>
     \<not> (INVITATION_TOKEN_SECRET env = JWT_ACCESS_SECRET env \<or>
        INVITATION_TOKEN_SECRET env = JWT_REFRESH_SECRET env) \<and>
     isAcceptableWebAppBaseUrl parseUrl (WEB_APP_BASE_URL env) (NODE_ENV env) \<and>
     refineOrgTxTimeouts (env_tx env)"

definition envSchema :: "UrlParser \<Rightarrow> ProcessEnv \<Rightarrow> Env option" where
  "envSchema parseUrl source =
     Option.bind (envObjectSchema parseUrl source) (\<lambda>env. if env_refined parseUrl env then Some env else None)"

definition loadEnv :: "UrlParser \<Rightarrow> ProcessEnv \<Rightarrow> Env option" where
  "loadEnv parseUrl source = (case envSchema parseUrl source of None \<Rightarrow> None | Some data \<Rightarrow> Some data)"

section \<open>Resolvers\<close>

abbreviation ZodError :: Thrown where "ZodError \<equiv> error_named ''ZodError''"

definition resolveOrgTxTimeouts :: "ProcessEnv \<Rightarrow> Thrown + OrgTxTimeouts" where
  "resolveOrgTxTimeouts source =
     (case orgTxTimeoutShape source of
        None \<Rightarrow> Inl ZodError
      | Some v \<Rightarrow>
          if refineOrgTxTimeouts v
          then Inr \<lparr>lockTimeoutMs = dec_value (ORG_LOCK_TIMEOUT_MS v), txTimeoutMs = dec_value (ORG_TX_TIMEOUT_MS v),
                    maxWaitMs = dec_value (ORG_TX_MAX_WAIT_MS v)\<rparr>
          else Inl ZodError)"

fun quota_var :: "OrgRateLimitAction \<Rightarrow> OrgRateVars \<Rightarrow> jstring" where
  "quota_var createOrganization v = ORG_RATE_LIMIT_CREATE_ORG_PER_HOUR v"
| "quota_var createInvitation v = ORG_RATE_LIMIT_INVITE_CREATE_PER_HOUR v"
| "quota_var reissueInvitationLink v = ORG_RATE_LIMIT_INVITE_LINK_PER_HOUR v"
| "quota_var publicInvitationEntry v = ORG_RATE_LIMIT_INVITE_PUBLIC_PER_HOUR v"
| "quota_var revealTaxProfile v = ORG_RATE_LIMIT_TAX_REVEAL_PER_HOUR v"

definition resolveOrgRateLimits :: "ProcessEnv \<Rightarrow> Thrown + (OrgRateLimitAction \<Rightarrow> OrgRateLimitRule)" where
  "resolveOrgRateLimits source =
     (case orgRateLimitShape source of
        None \<Rightarrow> Inl ZodError
      | Some v \<Rightarrow> Inr (\<lambda>action. (ORG_RATE_LIMIT_DEFAULTS action)\<lparr>rl_limit := dec_value (quota_var action v)\<rparr>))"

definition resolveInvitationTokenSecret :: "ProcessEnv \<Rightarrow> Thrown + jstring" where
  "resolveInvitationTokenSecret source =
     (case string_min 32 ''INVITATION_TOKEN_SECRET'' source of
        None \<Rightarrow> Inl ZodError
      | Some secret \<Rightarrow>
          if list_ex (\<lambda>name. source (js name) \<noteq> None \<and> source (js name) = Some secret)
               [''JWT_ACCESS_SECRET'', ''JWT_REFRESH_SECRET'']
          then Inl (error_named ''Error'')
          else Inr secret)"

text \<open>The live views read the environment on every access.\<close>

definition ORG_TX_TIMEOUTS :: "(OrgTxTimeouts \<Rightarrow> nat) \<Rightarrow> ProcessEnv \<Rightarrow> Thrown + nat" where
  "ORG_TX_TIMEOUTS field source = rbind (resolveOrgTxTimeouts source) (\<lambda>t. Inr (field t))"

definition ORG_RATE_LIMITS :: "OrgRateLimitAction \<Rightarrow> ProcessEnv \<Rightarrow> Thrown + OrgRateLimitRule" where
  "ORG_RATE_LIMITS action source = rbind (resolveOrgRateLimits source) (\<lambda>limits. Inr (limits action))"

section \<open>Where the services read it\<close>

text \<open>\<open>packages/db\<close>: the lock reads its timeout, the token hash its key, on every call.\<close>

definition configuredLockTimeoutMs :: "ProcessEnv \<Rightarrow> Thrown + jsnum" where
  "configuredLockTimeoutMs source =
     rbind (ORG_TX_TIMEOUTS lockTimeoutMs source) (\<lambda>ms. readLockTimeoutMs (of_nat_num ms))"

definition keyedInvitationHash ::
    "(jstring \<Rightarrow> jstring \<Rightarrow> jstring) \<Rightarrow> ProcessEnv \<Rightarrow> jstring \<Rightarrow> jstring option \<Rightarrow> Thrown + jstring" where
  "keyedInvitationHash hmac source token secret =
     rbind (case secret of Some k \<Rightarrow> Inr k | None \<Rightarrow> resolveInvitationTokenSecret source) (\<lambda>key. Inr (hmac key token))"

definition INVITATION_PENDING_CAP_DEFAULT :: nat where "INVITATION_PENDING_CAP_DEFAULT = 100"

record OrgConfig =
  cfg_DEFAULT_ORG_PLAN_KEY :: jstring
  cfg_INVITATION_PENDING_CAP :: nat
  cfg_WEB_APP_BASE_URL :: jstring
  cfg_MAX_ORGS_PER_USER :: jsnum

definition orgConfigProviders :: "UrlParser \<Rightarrow> ProcessEnv \<Rightarrow> OrgConfig option" where
  "orgConfigProviders parseUrl source =
     map_option (\<lambda>env. \<lparr>cfg_DEFAULT_ORG_PLAN_KEY = DEFAULT_ORG_PLAN_KEY env,
                        cfg_INVITATION_PENDING_CAP = INVITATION_PENDING_CAP_DEFAULT,
                        cfg_WEB_APP_BASE_URL = WEB_APP_BASE_URL env,
                        cfg_MAX_ORGS_PER_USER = of_nat_num (dec_value (MAX_ORGS_PER_USER env))\<rparr>)
       (loadEnv parseUrl source)"

section \<open>Facts\<close>

lemma bind_Some_iff: "Option.bind r k = Some y \<longleftrightarrow> (\<exists>x. r = Some x \<and> k x = Some y)"
  by (cases r) auto

lemma defaults_positive:
  "positive_int (lockTimeoutMs ORG_TX_TIMEOUT_DEFAULTS)" "positive_int (txTimeoutMs ORG_TX_TIMEOUT_DEFAULTS)"
  "positive_int (maxWaitMs ORG_TX_TIMEOUT_DEFAULTS)" "positive_int MAX_ORGS_PER_USER_DEFAULT"
  "positive_int (rl_limit (ORG_RATE_LIMIT_DEFAULTS a))"
  by (cases a; simp add: positive_int_def POSITIVE_INT_ENV_MAX_def ORG_TX_TIMEOUT_DEFAULTS_def
      MAX_ORGS_PER_USER_DEFAULT_def)+

lemma string_min_Some: "string_min n name source = Some s \<longleftrightarrow> source (js name) = Some s \<and> n \<le> length s"
  by (auto simp: string_min_def split: option.splits)

lemma tx_shape_bounds:
  assumes "orgTxTimeoutShape source = Some v"
  shows "positive_int (dec_value (ORG_LOCK_TIMEOUT_MS v))" "positive_int (dec_value (ORG_TX_TIMEOUT_MS v))"
    "positive_int (dec_value (ORG_TX_MAX_WAIT_MS v))"
  using assms by (auto simp: orgTxTimeoutShape_def bind_Some_iff intro: positiveIntEnv_bounds defaults_positive)

lemma rate_shape_bounds:
  assumes "orgRateLimitShape source = Some v"
  shows "positive_int (dec_value (quota_var a v))"
  using assms by (cases a) (auto simp: orgRateLimitShape_def bind_Some_iff simp del: ORG_RATE_LIMIT_DEFAULTS.simps
      intro: positiveIntEnv_bounds [OF _ defaults_positive(5)])

lemma load_env_fields:
  assumes "loadEnv parseUrl source = Some env"
  shows "env_refined parseUrl env" "orgTxTimeoutShape source = Some (env_tx env)"
    "orgRateLimitShape source = Some (env_rate env)"
    "source (js ''JWT_ACCESS_SECRET'') = Some (JWT_ACCESS_SECRET env)" "32 \<le> length (JWT_ACCESS_SECRET env)"
    "source (js ''JWT_REFRESH_SECRET'') = Some (JWT_REFRESH_SECRET env)" "32 \<le> length (JWT_REFRESH_SECRET env)"
    "source (js ''INVITATION_TOKEN_SECRET'') = Some (INVITATION_TOKEN_SECRET env)"
    "32 \<le> length (INVITATION_TOKEN_SECRET env)"
    "positive_int (dec_value (MAX_ORGS_PER_USER env))" "DEFAULT_ORG_PLAN_KEY env \<noteq> []"
    "CORS_ALLOWED_ORIGINS env = corsAllowedOrigins source"
  using assms by (auto simp: loadEnv_def envSchema_def envObjectSchema_def bind_Some_iff string_min_Some
      split: option.splits if_splits intro: positiveIntEnv_bounds [OF _ defaults_positive(4)])

lemma cors_origins_trimmed: "p \<in> set (corsAllowedOrigins source) \<Longrightarrow> p \<noteq> [] \<and> trimmed p"
  by (auto simp: corsAllowedOrigins_def trimmed_trim)

lemma configured_rules:
  assumes "resolveOrgRateLimits source = Inr limits"
  shows "positive_int (rl_limit (limits a))" "rl_windowSec (limits a) = HOUR_SEC"
    "rl_key (limits a) = rl_key (ORG_RATE_LIMIT_DEFAULTS a)"
  using assms by (auto simp: resolveOrgRateLimits_def rate_shape_bounds split: option.splits) (cases a; simp)

lemma resolved_timeouts:
  assumes "resolveOrgTxTimeouts source = Inr t"
  shows "positive_int (lockTimeoutMs t)" "positive_int (txTimeoutMs t)" "positive_int (maxWaitMs t)"
    "lockTimeoutMs t < txTimeoutMs t"
  using assms by (auto simp: resolveOrgTxTimeouts_def refineOrgTxTimeouts_def tx_shape_bounds
      split: option.splits if_splits)

text \<open>The check of the lock's timeout cannot fail on a configured value.\<close>

lemma read_positive: "positive_int n \<Longrightarrow> readLockTimeoutMs (of_nat_num n) = Inr (of_nat_num n)"
  by (simp add: readLockTimeoutMs_def of_nat_num_def positive_int_def)

lemma configured_lock:
  assumes "resolveOrgTxTimeouts source = Inr t"
  shows "configuredLockTimeoutMs source = Inr (of_nat_num (lockTimeoutMs t))"
    "driver_ok \<lparr>drv_lockTimeoutMs = of_nat_num (lockTimeoutMs t), drv_fault = None\<rparr>"
  using read_positive [OF resolved_timeouts(1) [OF assms]]
  by (simp_all add: configuredLockTimeoutMs_def ORG_TX_TIMEOUTS_def assms driver_ok_def)

lemma loaded_resolvers:
  assumes "loadEnv parseUrl source = Some env"
  shows "\<exists>t. resolveOrgTxTimeouts source = Inr t" "\<exists>limits. resolveOrgRateLimits source = Inr limits"
    "resolveInvitationTokenSecret source = Inr (INVITATION_TOKEN_SECRET env)"
  using load_env_fields [OF assms]
  by (auto simp: resolveOrgTxTimeouts_def resolveOrgRateLimits_def resolveInvitationTokenSecret_def env_refined_def
      string_min_def)

section \<open>Theorems\<close>

text \<open>
  C35: a process that boots runs on well-formed policy values. Whenever the environment passes the boot
  validation, every later reading of it succeeds: the lock timeout is a positive integer strictly below
  the transaction timeout and the driver accepts it, every quota is a positive integer over one hour
  with the key of the documented table, and the services receive a non-empty plan key and a cap of at
  least one organization.
\<close>

theorem accepted_environment_is_usable:
  assumes "loadEnv parseUrl source = Some env"
  shows "(\<exists>t. resolveOrgTxTimeouts source = Inr t \<and> 1 \<le> lockTimeoutMs t \<and> lockTimeoutMs t < txTimeoutMs t \<and>
           txTimeoutMs t \<le> POSITIVE_INT_ENV_MAX \<and> 1 \<le> maxWaitMs t \<and> maxWaitMs t \<le> POSITIVE_INT_ENV_MAX \<and>
           configuredLockTimeoutMs source = Inr (of_nat_num (lockTimeoutMs t)) \<and>
           driver_ok \<lparr>drv_lockTimeoutMs = of_nat_num (lockTimeoutMs t), drv_fault = None\<rparr>) \<and>
    (\<forall>a. \<exists>rule. ORG_RATE_LIMITS a source = Inr rule \<and> 1 \<le> rl_limit rule \<and> rl_limit rule \<le> POSITIVE_INT_ENV_MAX \<and>
           rl_windowSec rule = 3600 \<and> rl_key rule = rl_key (ORG_RATE_LIMIT_DEFAULTS a)) \<and>
    (\<exists>cfg n. orgConfigProviders parseUrl source = Some cfg \<and> cfg_MAX_ORGS_PER_USER cfg = of_nat_num n \<and>
           1 \<le> n \<and> n \<le> POSITIVE_INT_ENV_MAX \<and> cfg_DEFAULT_ORG_PLAN_KEY cfg \<noteq> [] \<and>
           cfg_WEB_APP_BASE_URL cfg = WEB_APP_BASE_URL env)"
proof (intro conjI)
  obtain t where t: "resolveOrgTxTimeouts source = Inr t" using loaded_resolvers(1) [OF assms] by blast
  show "\<exists>t. resolveOrgTxTimeouts source = Inr t \<and> 1 \<le> lockTimeoutMs t \<and> lockTimeoutMs t < txTimeoutMs t \<and>
      txTimeoutMs t \<le> POSITIVE_INT_ENV_MAX \<and> 1 \<le> maxWaitMs t \<and> maxWaitMs t \<le> POSITIVE_INT_ENV_MAX \<and>
      configuredLockTimeoutMs source = Inr (of_nat_num (lockTimeoutMs t)) \<and>
      driver_ok \<lparr>drv_lockTimeoutMs = of_nat_num (lockTimeoutMs t), drv_fault = None\<rparr>"
    using t resolved_timeouts [OF t] configured_lock [OF t] by (auto simp: positive_int_def)
  obtain limits where l: "resolveOrgRateLimits source = Inr limits" using loaded_resolvers(2) [OF assms] by blast
  show "\<forall>a. \<exists>rule. ORG_RATE_LIMITS a source = Inr rule \<and> 1 \<le> rl_limit rule \<and>
      rl_limit rule \<le> POSITIVE_INT_ENV_MAX \<and> rl_windowSec rule = 3600 \<and>
      rl_key rule = rl_key (ORG_RATE_LIMIT_DEFAULTS a)"
    using configured_rules [OF l] by (auto simp: ORG_RATE_LIMITS_def l positive_int_def HOUR_SEC_def)
  show "\<exists>cfg n. orgConfigProviders parseUrl source = Some cfg \<and> cfg_MAX_ORGS_PER_USER cfg = of_nat_num n \<and>
      1 \<le> n \<and> n \<le> POSITIVE_INT_ENV_MAX \<and> cfg_DEFAULT_ORG_PLAN_KEY cfg \<noteq> [] \<and>
      cfg_WEB_APP_BASE_URL cfg = WEB_APP_BASE_URL env"
    using load_env_fields [OF assms] by (auto simp: orgConfigProviders_def assms positive_int_def)
qed

text \<open>A minimal environment: only the variables without a default.\<close>

definition demo_secret :: "char \<Rightarrow> jstring" where "demo_secret c = js (replicate 32 c)"

definition demo_source :: ProcessEnv where
  "demo_source = map_of
     [(js ''DATABASE_URL'', js ''postgresql://db/omni''), (js ''REDIS_URL'', js ''redis://cache''),
      (js ''JWT_ACCESS_SECRET'', demo_secret CHR ''a''), (js ''JWT_REFRESH_SECRET'', demo_secret CHR ''r''),
      (js ''PORT'', js ''3001''), (js ''NODE_ENV'', js ''production''),
      (js ''INVITATION_TOKEN_SECRET'', demo_secret CHR ''i''),
      (js ''WEB_APP_BASE_URL'', js ''https://app.example.com''), (js ''DEFAULT_ORG_PLAN_KEY'', js ''free'')]"

definition demo_parse :: UrlParser where
  "demo_parse s = (if take 8 s = js ''https://'' then Some (js ''https:'', drop 8 s) else Some (js ''other:'', []))"

lemma demo_secret_facts: "length (demo_secret c) = 32" "demo_secret c = demo_secret d \<longleftrightarrow> c = d"
  by (simp_all add: demo_secret_def)

lemma demo_load: "\<exists>env. loadEnv demo_parse demo_source = Some env"
proof -
  note source = demo_source_def demo_secret_facts string_min_def
  have tx: "orgTxTimeoutShape demo_source = Some \<lparr>ORG_LOCK_TIMEOUT_MS = dec_digits 3000,
      ORG_TX_TIMEOUT_MS = dec_digits 5000, ORG_TX_MAX_WAIT_MS = dec_digits 2000\<rparr>"
    by (simp add: orgTxTimeoutShape_def positiveIntEnv_def source ORG_TX_TIMEOUT_DEFAULTS_def)
  have rate: "orgRateLimitShape demo_source \<noteq> None"
    by (simp add: orgRateLimitShape_def positiveIntEnv_def source)
  have url: "string_url demo_parse ''WEB_APP_BASE_URL'' demo_source = Some (js ''https://app.example.com'')"
    "string_url demo_parse ''DATABASE_URL'' demo_source = Some (js ''postgresql://db/omni'')"
    "string_url demo_parse ''REDIS_URL'' demo_source = Some (js ''redis://cache'')"
    by (simp_all add: string_url_def source demo_parse_def)
  have port: "string_digits ''PORT'' demo_source = Some (js ''3001'')"
    by (simp add: string_digits_def source digits_only_def js_def is_digit_def)
  have https: "isAcceptableWebAppBaseUrl demo_parse (js ''https://app.example.com'') NodeProduction"
    by (simp add: isAcceptableWebAppBaseUrl_def demo_parse_def js_def)
  have fields: "string_min 32 ''JWT_ACCESS_SECRET'' demo_source = Some (demo_secret CHR ''a'')"
    "string_min 32 ''JWT_REFRESH_SECRET'' demo_source = Some (demo_secret CHR ''r'')"
    "string_min 32 ''INVITATION_TOKEN_SECRET'' demo_source = Some (demo_secret CHR ''i'')"
    "string_min (Suc 0) ''DEFAULT_ORG_PLAN_KEY'' demo_source = Some (js ''free'')"
    "demo_source (js ''NODE_ENV'') = Some (js ''production'')"
    "digits_default ''TRUST_PROXY_HOPS'' (js ''0'') demo_source = Some (js ''0'')"
    "positiveIntEnv ''MAX_ORGS_PER_USER'' MAX_ORGS_PER_USER_DEFAULT demo_source = Some (dec_digits 50)"
    by (simp_all add: source digits_default_def positiveIntEnv_def MAX_ORGS_PER_USER_DEFAULT_def)
  from rate obtain v where v: "orgRateLimitShape demo_source = Some v" by blast
  show ?thesis
    using https by (simp add: loadEnv_def envSchema_def envObjectSchema_def tx v url port fields env_refined_def
        refineOrgTxTimeouts_def node_env_def demo_secret_facts)
qed

theorem accepted_environment_is_usable_witness:
  "\<exists>t. resolveOrgTxTimeouts demo_source = Inr t \<and> lockTimeoutMs t < txTimeoutMs t"
proof -
  obtain env where "loadEnv demo_parse demo_source = Some env" using demo_load by blast
  from accepted_environment_is_usable [OF this] show ?thesis by blast
qed

text \<open>
  C36: the three keys are separate, wherever the process starts from. At boot the access, refresh and
  invitation secrets are pairwise different and at least 32 code units long, and the invitation hash
  then uses exactly the invitation secret. A program that hashes a token without having validated its
  environment either fails or uses a key of that length that is no session secret of its environment.
\<close>

theorem signing_keys_are_separate:
  "(\<forall>env token. loadEnv parseUrl source = Some env \<longrightarrow>
      distinct [JWT_ACCESS_SECRET env, JWT_REFRESH_SECRET env, INVITATION_TOKEN_SECRET env] \<and>
      32 \<le> length (JWT_ACCESS_SECRET env) \<and> 32 \<le> length (JWT_REFRESH_SECRET env) \<and>
      keyedInvitationHash hmac source token None = Inr (hmac (INVITATION_TOKEN_SECRET env) token)) \<and>
   (\<forall>token h. keyedInvitationHash hmac source token None = Inr h \<longrightarrow>
      (\<exists>key. h = hmac key token \<and> 32 \<le> length key \<and> source (js ''JWT_ACCESS_SECRET'') \<noteq> Some key \<and>
         source (js ''JWT_REFRESH_SECRET'') \<noteq> Some key))"
proof (intro conjI allI impI)
  fix env token assume l: "loadEnv parseUrl source = Some env"
  note f = load_env_fields [OF l]
  show "distinct [JWT_ACCESS_SECRET env, JWT_REFRESH_SECRET env, INVITATION_TOKEN_SECRET env]"
    using f(1) by (auto simp: env_refined_def)
  show "32 \<le> length (JWT_ACCESS_SECRET env)" "32 \<le> length (JWT_REFRESH_SECRET env)" by (rule f)+
  show "keyedInvitationHash hmac source token None = Inr (hmac (INVITATION_TOKEN_SECRET env) token)"
    by (simp add: keyedInvitationHash_def loaded_resolvers(3) [OF l])
next
  fix token h assume "keyedInvitationHash hmac source token None = Inr h"
  then show "\<exists>key. h = hmac key token \<and> 32 \<le> length key \<and> source (js ''JWT_ACCESS_SECRET'') \<noteq> Some key \<and>
      source (js ''JWT_REFRESH_SECRET'') \<noteq> Some key"
    by (auto simp: keyedInvitationHash_def rbind_Inr_iff resolveInvitationTokenSecret_def string_min_Some
        split: option.splits if_splits)
qed

theorem signing_keys_are_separate_witness:
  "\<exists>key. keyedInvitationHash (\<lambda>k v. k @ v) demo_source (js ''t'') None = Inr (key @ js ''t'') \<and> 32 \<le> length key"
proof -
  obtain env where l: "loadEnv demo_parse demo_source = Some env" using demo_load by blast
  note s = signing_keys_are_separate [of demo_parse demo_source "\<lambda>k v. k @ v"]
  from l s have "keyedInvitationHash (\<lambda>k v. k @ v) demo_source (js ''t'') None =
      Inr (INVITATION_TOKEN_SECRET env @ js ''t'')" by blast
  with load_env_fields(9) [OF l] show ?thesis by blast
qed

text \<open>
  The origin that carries the invitation token: encrypted, or a loopback address outside production.
\<close>

lemma base_url_confidential:
  assumes "loadEnv parseUrl source = Some env"
  shows "\<exists>protocol host. parseUrl (WEB_APP_BASE_URL env) = Some (protocol, host) \<and>
    (protocol = js ''https:'' \<or> protocol = js ''http:'' \<and> NODE_ENV env \<noteq> NodeProduction \<and>
       host \<in> {js ''localhost'', js ''127.0.0.1'', js ''[::1]'', js ''::1''})"
  using load_env_fields(1) [OF assms]
  by (auto simp: env_refined_def isAcceptableWebAppBaseUrl_def split: option.splits if_splits)

end
