(* ===== verification/WebFailures.thy ===== *)
theory WebFailures
  imports MembersService ThrottleFacts
begin

text \<open>
  How the browser reads a refusal: the error of a request (\<open>apps/web/src/lib/auth-client.ts\<close>,
  \<open>lib/api/error.ts\<close>, \<open>lib/api/clients.ts\<close>), the failure every screen decides from, and the decisions:
  retrying (\<open>lib/api/query-client.ts\<close>), the shell of an organization (\<open>lib/org/org-access.ts\<close>), leaving
  (\<open>features/org/leave-org.ts\<close>), creating (\<open>features/org/create-org-error.ts\<close>) and accepting an invitation
  (\<open>features/invite/invite-error.ts\<close>).

  The body of a response is the value \<open>res.json()\<close> gives. A text of the interface is represented by the key
  of the entry that holds it; the texts themselves are not modelled, nor is the message of an error, which
  no decision reads.
\<close>

section \<open>Errors of a request\<close>

record ApiError =
  ae_status :: jsnum
  ae_code :: jsv
  ae_retryAfterSeconds :: "jsnum option"
  ae_request :: "(jsv \<times> jsv) option"

text \<open>
  \<open>ae_request\<close> holds \<open>details\<close> and \<open>fieldErrors\<close> of an \<open>ApiRequestError\<close>. What a request may reject with:
  an \<open>ApiError\<close>, a \<open>SessionExpiredError\<close>, or any other error (a dead connection, a \<open>TypeError\<close>).
\<close>

datatype Rejection = RApi ApiError | RSessionExpired | ROther

definition nullish :: "jsv \<Rightarrow> bool" where
  "nullish v \<longleftrightarrow> (case v of JUndef \<Rightarrow> True | JNull \<Rightarrow> True | _ \<Rightarrow> False)"

text \<open>\<open>body?.error.k\<close>: \<open>None\<close> is the \<open>TypeError\<close> of a body that is no envelope.\<close>

definition envelope_member :: "jsv \<Rightarrow> string \<Rightarrow> jsv option" where
  "envelope_member body k =
     (if nullish body then Some JUndef
      else (let e = get_prop body (js ''error'') in if nullish e then None else Some (get_prop e (js k))))"

definition new_ApiError :: "jsnum \<Rightarrow> jsv \<Rightarrow> jsnum option \<Rightarrow> Rejection" where
  "new_ApiError status body retryAfterSeconds =
     (case envelope_member body ''code'' of
        None \<Rightarrow> ROther
      | Some code \<Rightarrow> RApi \<lparr>ae_status = status, ae_code = code, ae_retryAfterSeconds = retryAfterSeconds,
                          ae_request = None\<rparr>)"

definition new_ApiRequestError :: "jsnum \<Rightarrow> jsv \<Rightarrow> jsnum option \<Rightarrow> Rejection" where
  "new_ApiRequestError status body retryAfterSeconds =
     (case (new_ApiError status body retryAfterSeconds, envelope_member body ''details'',
            envelope_member body ''fieldErrors'') of
        (RApi e, Some details, Some fieldErrors) \<Rightarrow> RApi (e\<lparr>ae_request := Some (details, fieldErrors)\<rparr>)
      | _ \<Rightarrow> ROther)"

definition parseRetryAfter :: "jstring option \<Rightarrow> jsnum option" where
  "parseRetryAfter header =
     (case header of
        None \<Rightarrow> None
      | Some h \<Rightarrow> if h = [] then None
                  else (let seconds = string_to_number h in if is_finite seconds then Some seconds else None))"

text \<open>The result of the generated client: \<open>data\<close>, \<open>error\<close> and the response's status and Retry-After.\<close>

definition response_ok :: "jsnum \<Rightarrow> bool" where
  "response_ok status \<longleftrightarrow> num_ge status (Fin 200) \<and> num_less status (Fin 300)"

definition unwrap :: "'a option \<Rightarrow> jsv \<Rightarrow> jsnum \<Rightarrow> jstring option \<Rightarrow> Rejection + 'a" where
  "unwrap data error status retryAfter =
     (case (response_ok status, data) of
        (True, Some d) \<Rightarrow> Inr d
      | _ \<Rightarrow> Inl (new_ApiRequestError status (if nullish error then JNull else error) (parseRetryAfter retryAfter)))"

section \<open>The failure\<close>

datatype ApiFailure =
    Network
  | Throttled "jsnum option"
  | AuthExpired
  | OrgAccessDenied
  | Forbidden jsv jsv
  | Entitlement jsv
  | Validation jsv jsv
  | Busy
  | Conflict jsv jsv
  | NotFound jsv
  | Server jsv

definition detailsOf :: "ApiError \<Rightarrow> jsv" where
  "detailsOf e = (case ae_request e of Some (d, _) \<Rightarrow> d | None \<Rightarrow> JUndef)"

definition fieldErrorsOf :: "ApiError \<Rightarrow> jsv" where
  "fieldErrorsOf e =
     (let f = (case ae_request e of Some (_, f) \<Rightarrow> f | None \<Rightarrow> JUndef) in if nullish f then JObj [] else f)"

definition opt_prop :: "jsv \<Rightarrow> string \<Rightarrow> jsv" where
  "opt_prop v k = (if nullish v then JUndef else get_prop v (js k))"

definition BUSY_REASON :: jstring where "BUSY_REASON = js ''busy''"

definition fromStatus :: "ApiError \<Rightarrow> ApiFailure" where
  "fromStatus e =
     (let code = ae_code e; status = ae_status e in
      if status = Fin 429 then Throttled (ae_retryAfterSeconds e)
      else if status = Fin 401 then AuthExpired
      else if status = Fin 403 then
        (if code = JStr (js ''ORG_ACCESS_DENIED'') then OrgAccessDenied else Forbidden code (detailsOf e))
      else if status = Fin 404 then NotFound code
      else if status = Fin 409 then
        (if opt_prop (detailsOf e) ''reason'' = JStr BUSY_REASON then Busy else Conflict code (detailsOf e))
      else if status = Fin 422 \<or> status = Fin 400 then Validation code (fieldErrorsOf e)
      else Server code)"

definition toApiFailure :: "Rejection \<Rightarrow> ApiFailure" where
  "toApiFailure err =
     (case err of RSessionExpired \<Rightarrow> AuthExpired | RApi e \<Rightarrow> fromStatus e | ROther \<Rightarrow> Network)"

datatype ErrorsTh =
    Th_network | Th_server | Th_clientBug | Th_validation | Th_notFound | Th_conflict | Th_forbidden
  | Th_orgAccessDenied_withoutName | Th_busy

fun failureMessage :: "ApiFailure \<Rightarrow> ErrorsTh" where
  "failureMessage Network = Th_network"
| "failureMessage (Throttled _) = Th_network"
| "failureMessage AuthExpired = Th_server"
| "failureMessage OrgAccessDenied = Th_orgAccessDenied_withoutName"
| "failureMessage (Forbidden _ _) = Th_forbidden"
| "failureMessage (Entitlement _) = Th_forbidden"
| "failureMessage (Validation code _) =
     (if code = JStr (js ''ORG_MISMATCH'') \<or> code = JStr (js ''ORG_CONTEXT_REQUIRED'')
      then Th_clientBug else Th_validation)"
| "failureMessage Busy = Th_busy"
| "failureMessage (Conflict _ _) = Th_conflict"
| "failureMessage (NotFound _) = Th_notFound"
| "failureMessage (Server _) = Th_server"

definition isRetryable :: "ApiFailure \<Rightarrow> bool" where
  "isRetryable f \<longleftrightarrow> (case f of Busy \<Rightarrow> True | Network \<Rightarrow> True | Server _ \<Rightarrow> True | _ \<Rightarrow> False)"

definition isOrgAccessDenied :: "ApiFailure \<Rightarrow> bool" where
  "isOrgAccessDenied f \<longleftrightarrow> f = OrgAccessDenied"

section \<open>Retrying queries\<close>

definition MAX_QUERY_RETRIES :: nat where "MAX_QUERY_RETRIES = 2"

definition shouldRetryQuery :: "nat \<Rightarrow> Rejection \<Rightarrow> bool" where
  "shouldRetryQuery failureCount error =
     (if failureCount \<ge> MAX_QUERY_RETRIES then False
      else (case toApiFailure error of Network \<Rightarrow> True | Server _ \<Rightarrow> True | _ \<Rightarrow> False))"

section \<open>The shell of an organization\<close>

datatype SessionState = SESSION_UNKNOWN | SESSION_NONE | SESSION_AUTHED

definition isSignedOut :: "SessionState \<Rightarrow> bool" where "isSignedOut s \<longleftrightarrow> s = SESSION_NONE"
definition isSignedIn :: "SessionState \<Rightarrow> bool" where "isSignedIn s \<longleftrightarrow> s = SESSION_AUTHED"

definition settledSession :: "bool \<Rightarrow> SessionState" where
  "settledSession refreshed = (if refreshed then SESSION_AUTHED else SESSION_NONE)"

datatype OrgShellDecision = Shell_loading | Shell_signIn | Shell_leaveOrg | Shell_error ApiFailure | Shell_ready

record ProfileQuery =
  pq_isPending :: bool
  pq_isError :: bool
  pq_error :: Rejection

definition decideOrgShell :: "SessionState \<Rightarrow> ProfileQuery \<Rightarrow> OrgShellDecision" where
  "decideOrgShell session profile =
     (if session = SESSION_UNKNOWN then Shell_loading
      else if isSignedOut session then Shell_signIn
      else if \<not> isSignedIn session then Shell_loading
      else if pq_isError profile then
        (let failure = toApiFailure (pq_error profile) in
         if failure = OrgAccessDenied then Shell_leaveOrg
         else if failure = AuthExpired then Shell_signIn
         else Shell_error failure)
      else if pq_isPending profile then Shell_loading
      else Shell_ready)"

datatype RootDecision = Root_wait | Root_signIn | Root_pickShop

fun decideRoot :: "SessionState \<Rightarrow> RootDecision" where
  "decideRoot SESSION_AUTHED = Root_pickShop"
| "decideRoot SESSION_NONE = Root_signIn"
| "decideRoot SESSION_UNKNOWN = Root_wait"

section \<open>Leaving\<close>

datatype LeaveCopy = Leave_lastOwner | Leave_busy | Leave_generic

datatype LeaveOrgOutcome = LeaveBlocked LeaveCopy bool | LeaveRetryable LeaveCopy | LeaveAlreadyLeft

definition toLeaveOrgOutcome :: "Rejection \<Rightarrow> bool \<Rightarrow> LeaveOrgOutcome" where
  "toLeaveOrgOutcome error canManageMembers =
     (let failure = toApiFailure error in
      if failure = OrgAccessDenied \<or> (case failure of Forbidden _ _ \<Rightarrow> True | _ \<Rightarrow> False) then LeaveAlreadyLeft
      else if failure = Busy then LeaveRetryable Leave_busy
      else if (case failure of Conflict code _ \<Rightarrow> code = JStr (js ''LAST_OWNER'') | _ \<Rightarrow> False)
      then LeaveBlocked Leave_lastOwner canManageMembers
      else LeaveRetryable Leave_generic)"

section \<open>Creating an organization\<close>

datatype CreateCopy = Create_name | Create_limitReached jsnum | Create_generic | Create_provisioning | Create_server jsv

datatype CreateOrgError =
    CreateField CreateCopy
  | CreateBanner CreateCopy bool
  | CreateThrottled jsnum

definition toCreateOrgError :: "Rejection \<Rightarrow> CreateOrgError" where
  "toCreateOrgError error =
     (case toApiFailure error of
        Throttled retryAfter \<Rightarrow> CreateThrottled (case retryAfter of Some n \<Rightarrow> n | None \<Rightarrow> Fin 60)
      | Validation _ fieldErrors \<Rightarrow>
          (let name = get_prop fieldErrors (js ''name'') in
           CreateField (if nullish name then Create_name else Create_server name))
      | Conflict code details \<Rightarrow>
          if code = JStr (js ''ORG_LIMIT_REACHED'') then
            (case opt_prop details ''limit'' of
               JNum limit \<Rightarrow> CreateBanner (Create_limitReached limit) False
             | _ \<Rightarrow> CreateBanner Create_generic True)
          else CreateBanner Create_generic True
      | Busy \<Rightarrow> CreateBanner Create_generic True
      | Server code \<Rightarrow>
          if code = JStr (js ''ORG_PROVISIONING_UNAVAILABLE'') then CreateBanner Create_provisioning True
          else CreateBanner Create_generic True
      | _ \<Rightarrow> CreateBanner Create_generic True)"

section \<open>Opening an invitation\<close>

datatype InviteNextStep = Step_home | Step_login | Step_enterOrg | Step_switchAccount | Step_retry

datatype InviteCopy = Invite_row jstring | Invite_generic | Invite_throttled | Invite_noToken

text \<open>\<open>ie_issuedTo\<close> is the address the body names before its own text.\<close>

record InviteError =
  ie_copy :: InviteCopy
  ie_issuedTo :: "jstring option"
  ie_next :: InviteNextStep
  ie_retryAfterSeconds :: "jsnum option"

definition BY_CODE :: "(jstring \<times> InviteNextStep) list" where
  "BY_CODE =
     [(js ''INVITATION_INVALID'', Step_home), (js ''INVITATION_EXPIRED'', Step_home),
      (js ''INVITATION_CANCELLED'', Step_home), (js ''INVITATION_ALREADY_ACCEPTED'', Step_login),
      (js ''ALREADY_MEMBER'', Step_enterOrg), (js ''INVITATION_SUPERSEDED'', Step_home),
      (js ''INVITATION_ROLE_UNAVAILABLE'', Step_home), (js ''INVITATION_EMAIL_MISMATCH'', Step_switchAccount)]"

definition invite_error :: "InviteCopy \<Rightarrow> InviteNextStep \<Rightarrow> InviteError" where
  "invite_error copy next = \<lparr>ie_copy = copy, ie_issuedTo = None, ie_next = next, ie_retryAfterSeconds = None\<rparr>"

definition NO_TOKEN_ERROR :: InviteError where "NO_TOKEN_ERROR = invite_error Invite_noToken Step_home"

definition withMaskedEmail :: "InviteError \<Rightarrow> jsv \<Rightarrow> InviteError" where
  "withMaskedEmail error details =
     (case get_prop details (js ''emailMasked'') of
        JStr masked \<Rightarrow> if masked = [] then error else error\<lparr>ie_issuedTo := Some masked\<rparr>
      | _ \<Rightarrow> error)"

text \<open>The code and the details of a failure that has them.\<close>

definition coded :: "ApiFailure \<Rightarrow> (jsv \<times> jsv) option" where
  "coded failure =
     (case failure of
        Conflict code details \<Rightarrow> Some (code, details)
      | NotFound code \<Rightarrow> Some (code, JUndef)
      | Forbidden code details \<Rightarrow> Some (code, details)
      | _ \<Rightarrow> None)"

definition toInviteError :: "Rejection \<Rightarrow> InviteError" where
  "toInviteError error =
     (case toApiFailure error of
        Throttled retryAfter \<Rightarrow>
          (invite_error Invite_throttled Step_retry)
            \<lparr>ie_retryAfterSeconds := Some (case retryAfter of Some n \<Rightarrow> n | None \<Rightarrow> Fin 60)\<rparr>
      | failure \<Rightarrow>
          (case coded failure of
             Some (JStr code, details) \<Rightarrow>
               (let mapped = (case map_of BY_CODE code of
                                Some next \<Rightarrow> invite_error (Invite_row code) next
                              | None \<Rightarrow> invite_error Invite_generic Step_retry)
                in if code = js ''INVITATION_EMAIL_MISMATCH'' \<and> truthy details
                   then withMaskedEmail mapped details else mapped)
           | _ \<Rightarrow> invite_error Invite_generic Step_retry))"

section \<open>The body on the wire\<close>

text \<open>
  The JSON of the filter's envelope (\<open>domain-exception.filter.ts\<close>), without the members that are
  undefined; \<open>message_text\<close> and \<open>field_text\<close> are the texts of the registry and of the field messages.
\<close>

definition optional :: "string \<Rightarrow> jsv option \<Rightarrow> (jstring \<times> jsv) list" where
  "optional k v = (case v of None \<Rightarrow> [] | Some x \<Rightarrow> [(js k, x)])"

definition wire_fields :: "(FieldCopy \<Rightarrow> jstring) \<Rightarrow> FieldErrorsBody \<Rightarrow> jsv" where
  "wire_fields field_text f =
     (case f of Named ps \<Rightarrow> JObj (map (\<lambda>(k, m). (k, JStr (field_text m))) ps) | Foreign v \<Rightarrow> v)"

definition wire_envelope :: "(Copy \<Rightarrow> jstring) \<Rightarrow> (FieldCopy \<Rightarrow> jstring) \<Rightarrow> WireError \<Rightarrow> jsv" where
  "wire_envelope message_text field_text e =
     JObj [(js ''error'',
       JObj ([(js ''code'', JStr (we_code e)), (js ''message'', JStr (message_text (we_message e)))] @
             optional ''details'' (we_details e) @
             optional ''fieldErrors'' (map_option (wire_fields field_text) (we_fieldErrors e)) @
             [(js ''traceId'', JStr (we_traceId e))]))]"

definition retry_after_header :: "(jstring \<times> jstring) list \<Rightarrow> jstring option" where
  "retry_after_header hs = (case header_values (js ''Retry-After'') hs of [] \<Rightarrow> None | v # _ \<Rightarrow> Some v)"

text \<open>What the client throws for an error response of the API.\<close>

definition received :: "(Copy \<Rightarrow> jstring) \<Rightarrow> (FieldCopy \<Rightarrow> jstring) \<Rightarrow> WireResponse \<Rightarrow> Rejection" where
  "received message_text field_text r =
     (case unwrap (None :: unit option) (wire_envelope message_text field_text (wr_error r)) (wr_status r)
             (retry_after_header (wr_headers r)) of
        Inl e \<Rightarrow> e
      | Inr _ \<Rightarrow> ROther)"

section \<open>Facts\<close>

lemma nullish_simps [simp]:
  "nullish JUndef" "nullish JNull" "\<not> nullish (JBool b)" "\<not> nullish (JNum n)" "\<not> nullish (JStr s)"
  "\<not> nullish (JArr vs)" "\<not> nullish (JObj kvs)"
  by (simp_all add: nullish_def)

lemma wire_member:
  "envelope_member (wire_envelope mt ft e) ''code'' = Some (JStr (we_code e))"
  "envelope_member (wire_envelope mt ft e) ''details'' =
     Some (case we_details e of None \<Rightarrow> JUndef | Some d \<Rightarrow> d)"
  "envelope_member (wire_envelope mt ft e) ''fieldErrors'' =
     Some (case we_fieldErrors e of None \<Rightarrow> JUndef | Some f \<Rightarrow> wire_fields ft f)"
  by (simp_all add: envelope_member_def wire_envelope_def get_prop_def optional_def Let_def
      split: option.split)

lemma received_eq:
  "received mt ft r = RApi
     \<lparr>ae_status = wr_status r, ae_code = JStr (we_code (wr_error r)),
      ae_retryAfterSeconds = parseRetryAfter (retry_after_header (wr_headers r)),
      ae_request = Some (case we_details (wr_error r) of None \<Rightarrow> JUndef | Some d \<Rightarrow> d,
                         case we_fieldErrors (wr_error r) of None \<Rightarrow> JUndef | Some f \<Rightarrow> wire_fields ft f)\<rparr>"
proof -
  have "\<not> nullish (wire_envelope mt ft (wr_error r))" by (simp add: wire_envelope_def)
  then show ?thesis
    by (simp add: received_def unwrap_def new_ApiRequestError_def new_ApiError_def wire_member split: bool.split)
qed

abbreviation shown :: "(Copy \<Rightarrow> jstring) \<Rightarrow> (FieldCopy \<Rightarrow> jstring) \<Rightarrow> jstring \<Rightarrow> jstring option \<Rightarrow> Thrown \<Rightarrow> Rejection" where
  "shown mt ft traceId up t \<equiv> received mt ft (catch_exception [] traceId up t)"

lemma shown_domain:
  "shown mt ft traceId up (TDomain d) = RApi
     \<lparr>ae_status = Fin (of_nat (status_of (dx_code d))), ae_code = JStr (code_string (dx_code d)),
      ae_retryAfterSeconds = parseRetryAfter (retry_after_header (wr_headers (catch_exception [] traceId up (TDomain d)))),
      ae_request = Some (case dx_details d of None \<Rightarrow> JUndef | Some x \<Rightarrow> x,
        case dx_fieldErrors d of None \<Rightarrow> JUndef | Some f \<Rightarrow> wire_fields ft (Named f))\<rparr>"
  unfolding received_eq
  by (simp add: catch_exception_def send_def of_nat_num_def split: option.split)

lemma shown_busy:
  "shown mt ft traceId up (TBusy b) = RApi
     \<lparr>ae_status = Fin 409, ae_code = JStr (js ''CONFLICT''),
      ae_retryAfterSeconds = parseRetryAfter (retry_after_header (wr_headers (catch_exception [] traceId up (TBusy b)))),
      ae_request = Some (ORG_BUSY_DETAILS, JUndef)\<rparr>"
  unfolding received_eq
  by (simp add: catch_exception_def send_def of_nat_num_def describeOrgBusy_def busy_description_def
      ORG_BUSY_HTTP_STATUS_def ORG_BUSY_ERROR_CODE_def)

lemma failure_busy [simp]: "toApiFailure (shown mt ft traceId up (TBusy b)) = Busy"
  by (simp add: toApiFailure_def shown_busy fromStatus_def Let_def detailsOf_def opt_prop_def ORG_BUSY_DETAILS_def
      get_prop_def BUSY_REASON_def)

text \<open>Which failure a code of the registry becomes when its exception carries no details.\<close>

definition failure_of_code :: "ErrorCode \<Rightarrow> ApiFailure option" where
  "failure_of_code k =
     (let code = JStr (code_string k) in
      if status_of k = 401 then Some AuthExpired
      else if k = E_ORG_ACCESS_DENIED then Some OrgAccessDenied
      else if status_of k = 403 then Some (Forbidden code JUndef)
      else if status_of k = 404 then Some (NotFound code)
      else if status_of k = 409 then Some (Conflict code JUndef)
      else if status_of k = 422 then Some (Validation code (JObj []))
      else if status_of k = 429 then None
      else Some (Server code))"

lemma failure_derr: "failure_of_code k = Some f \<Longrightarrow> toApiFailure (shown mt ft traceId up (derr k)) = f"
  unfolding derr_def shown_domain
  by (cases k) (auto simp: failure_of_code_def toApiFailure_def fromStatus_def Let_def detailsOf_def fieldErrorsOf_def
      domainError_def no_options_def opt_prop_def)

lemma retry_after_sent:
  assumes "0 < n" and "n < 2 ^ 53"
  shows "parseRetryAfter (retry_after_header (wr_headers (catch_exception [] traceId up (rate_limited (int n))))) =
    Some (Fin (of_nat n))"
proof -
  have v: "dec_int (int n) = dec_digits n" by (simp add: dec_int_def)
  have h: "retry_after_header (wr_headers (catch_exception [] traceId up (rate_limited (int n)))) = Some (dec_digits n)"
    by (simp add: rate_limited_def catch_exception_def send_def domainError_def no_options_def applyHeaders_def
        setHeader_def REQUEST_ID_HEADER_def retry_after_header_def header_values_def same_header_def ascii_lower_def
        js_def v)
  have "string_to_number (dec_digits n) = Fin (of_nat n)"
    using dec_digits_number [OF assms(2)] by (simp add: of_nat_num_def)
  then show ?thesis unfolding h by (simp add: parseRetryAfter_def Let_def is_finite_def)
qed

text \<open>An error of the database client that does not pass itself off as the lock's own.\<close>

lemma raw_failure:
  assumes "\<not> looks_like_busy e"
  shows "toApiFailure (shown mt ft traceId up (rethrowOrgLockError (TRaw e) operation)) =
    (if classifyOrgLockError e = None then Server (JStr (js ''INTERNAL'')) else Busy)"
proof (cases "toOrgBusyError e operation")
  case (Some x)
  then have "classifyOrgLockError e \<noteq> None" by (auto simp: toOrgBusyError_def split: option.splits)
  with Some show ?thesis by (simp add: rethrowOrgLockError_def)
next
  case None
  then have c: "classifyOrgLockError e = None" by (auto simp: toOrgBusyError_def split: option.splits prod.splits)
  then have "toOrgBusyError e None = None" by (simp add: toOrgBusyError_def)
  with None assms c show ?thesis
    by (simp add: rethrowOrgLockError_def received_eq catch_exception_def describeOrgBusy_def send_def
        toApiFailure_def fromStatus_def of_nat_num_def)
qed

section \<open>Theorems\<close>

text \<open>
  C23: a refusal of the API reaches the screen as what it was. A member is taken out of an organization only
  by the refusal that says the membership is gone, sent to the login only by the four codes of a failed
  authentication, told to wait exactly as long as the quota demands, and told that the organization is busy
  for every contention of the database, whatever its class; nothing thrown inside the API looks like a
  lost membership or a lost session.
\<close>

theorem refusals_reach_the_screen:
  "(toApiFailure (shown mt ft traceId up (TDomain d)) = OrgAccessDenied \<longleftrightarrow> dx_code d = E_ORG_ACCESS_DENIED) \<and>
   (toApiFailure (shown mt ft traceId up (TDomain d)) = AuthExpired \<longleftrightarrow>
      dx_code d \<in> {E_INVALID_CREDENTIALS, E_NO_REFRESH_TOKEN, E_INVALID_REFRESH, E_UNAUTHENTICATED}) \<and>
   (0 < n \<and> n < 2 ^ 53 \<longrightarrow>
      toApiFailure (shown mt ft traceId up (rate_limited (int n))) = Throttled (Some (Fin (of_nat n)))) \<and>
   (\<not> looks_like_busy e \<longrightarrow>
      toApiFailure (shown mt ft traceId up (rethrowOrgLockError (TRaw e) operation)) =
        (if classifyOrgLockError e = None then Server (JStr (js ''INTERNAL'')) else Busy))"
proof (intro conjI impI)
  show "toApiFailure (shown mt ft traceId up (TDomain d)) = OrgAccessDenied \<longleftrightarrow> dx_code d = E_ORG_ACCESS_DENIED"
    unfolding shown_domain by (cases "dx_code d") (simp_all add: toApiFailure_def fromStatus_def Let_def)
  show "toApiFailure (shown mt ft traceId up (TDomain d)) = AuthExpired \<longleftrightarrow>
      dx_code d \<in> {E_INVALID_CREDENTIALS, E_NO_REFRESH_TOKEN, E_INVALID_REFRESH, E_UNAUTHENTICATED}"
    unfolding shown_domain by (cases "dx_code d") (simp_all add: toApiFailure_def fromStatus_def Let_def)
next
  assume "0 < n \<and> n < 2 ^ 53"
  then have "parseRetryAfter (retry_after_header (wr_headers (catch_exception [] traceId up (rate_limited (int n))))) =
      Some (Fin (of_nat n))" using retry_after_sent by blast
  then show "toApiFailure (shown mt ft traceId up (rate_limited (int n))) = Throttled (Some (Fin (of_nat n)))"
    unfolding rate_limited_def shown_domain by (simp add: toApiFailure_def fromStatus_def Let_def)
next
  assume "\<not> looks_like_busy e"
  then show "toApiFailure (shown mt ft traceId up (rethrowOrgLockError (TRaw e) operation)) =
      (if classifyOrgLockError e = None then Server (JStr (js ''INTERNAL'')) else Busy)"
    by (rule raw_failure)
qed

theorem refusals_reach_the_screen_witness:
  "toApiFailure (shown (\<lambda>_. []) (\<lambda>_. []) [] None (rate_limited (int 1800))) = Throttled (Some (Fin 1800)) \<and>
   toApiFailure (shown (\<lambda>_. []) (\<lambda>_. []) [] None (rethrowOrgLockError (TRaw (JObj [(js ''code'', JStr (js ''P2034''))])) None)) = Busy"
proof -
  let ?e = "JObj [(js ''code'', JStr (js ''P2034''))]"
  have b: "\<not> looks_like_busy ?e" by (simp add: looks_like_busy_def get_prop_def)
  have c: "classifyOrgLockError ?e \<noteq> None"
    by (simp add: classifyOrgLockError_def readErrorCodes_def is_prisma_code_def get_prop_def is_object_def
        PRISMA_CODE_REASON_def SQLSTATE_REASON_def Let_def js_def is_digit_def)
  from refusals_reach_the_screen [of "\<lambda>_. []" "\<lambda>_. []" "[]" None _ 1800 ?e None] b c show ?thesis by simp
qed

definition active_member :: "jstring \<Rightarrow> jstring \<Rightarrow> OrgDb \<Rightarrow> bool" where
  "active_member o' u db \<longleftrightarrow>
     (\<exists>m \<in> set (db_memberships db). mem_org m = o' \<and> mem_userId m = u \<and> mem_status m = MActive)"


lemma no_active_read:
  assumes "db_ok db" and "\<not> active_member o' u db"
  shows "readActiveMembership o' u db = Inr None"
proof (cases "find_scoped mem_org o' (\<lambda>m. mem_userId m = u) (db_memberships db)")
  case None
  then show ?thesis by (simp add: readActiveMembership_def)
next
  case (Some m)
  note m = find_scoped_SomeD [OF Some]
  from assms(2) m have s: "mem_status m \<noteq> MActive" by (auto simp: active_member_def)
  from select_decision_ok [OF assms(1)] m obtain d where "select_decision db m = Inr d" "md_membership d = m" by blast
  with Some s show ?thesis by (simp add: readActiveMembership_def)
qed

definition contended :: "Driver \<Rightarrow> bool" where
  "contended drv \<longleftrightarrow> (\<exists>e. drv_fault drv = Some e \<and> classifyOrgLockError e \<noteq> None)"

text \<open>The database client never raises an error under the name and shape of the lock's own.\<close>

definition driver_plain :: "Driver \<Rightarrow> bool" where
  "driver_plain drv \<longleftrightarrow> (\<forall>e. drv_fault drv = Some e \<longrightarrow> \<not> looks_like_busy e)"

lemma named_error:
  "n \<noteq> ''OrgBusyError'' \<Longrightarrow> \<not> looks_like_busy (JObj [(js ''name'', JStr (js n))])"
  "classifyOrgLockError (JObj [(js ''name'', JStr (js n))]) = None"
  by (simp_all add: looks_like_busy_def classifyOrgLockError_def readErrorCodes_def get_prop_def is_object_def Let_def
      js_eq_iff)

lemma internal_failure: "toApiFailure (shown mt ft traceId up (derr E_INTERNAL)) = Server (JStr (js ''INTERNAL''))"
  using failure_derr [of E_INTERNAL "Server (JStr (js ''INTERNAL''))"] by (simp add: failure_of_code_def Let_def)

text \<open>
  A call that does not get to its statements, for want of a caller, of an organization, of the organization's
  row or of a working database, is shown as a contention or as an error of the server.
\<close>

lemma not_run_failure:
  assumes user: "ctx_userId c = Some u" and no: "\<not> may_run env c (ctx_organizationId c) u db"
    and plain: "driver_plain (se_driver env)"
    and run: "in_org_transaction env (Some c) operation body finish db = (Inl e, db', evs)"
  shows "toApiFailure (shown mt ft traceId up e) =
    (if caller c u \<and> trim (ctx_organizationId c) \<noteq> [] \<and> contended (se_driver env)
     then Busy else Server (JStr (js ''INTERNAL'')))"
proof (cases "caller c u \<and> trim (ctx_organizationId c) \<noteq> []")
  case False
  show ?thesis
  proof (cases "caller c u")
    case True
    with False have t: "trim (ctx_organizationId c) = []" by simp
    have p: "prologue (Some c) = Inr (ctx_organizationId c, u)" using True by (simp add: prologue_ok)
    have "e = rethrowOrgLockError MissingOrgContextError None"
      using run t by (auto simp: in_org_transaction_def p runInOrgLockTransaction_def resolveOrgContext_def
          rethrowOrgLockError_def toOrgBusyError_def named_error error_named_def)
    with raw_failure [OF named_error(1)] t show ?thesis by (simp add: named_error error_named_def)
  next
    case False
    have "e = derr E_INTERNAL"
      using run user False
      by (auto simp: in_org_transaction_def prologue_def requireOrganizationId_def requireUserId_def caller_def
          split: prod.splits if_splits)
    with False show ?thesis by (simp add: internal_failure)
  qed
next
  case True
  have p: "prologue (Some c) = Inr (ctx_organizationId c, u)" using True by (simp add: prologue_ok)
  have r: "resolveOrgContext (Some c) JUndef = Inr (ctx_organizationId c)"
    using True by (simp add: resolveOrgContext_def)
  show ?thesis
  proof (cases "drv_fault (se_driver env)")
    case (Some x)
    then have "e = rethrowOrgLockError (TRaw x) (Some operation)"
      using run by (simp add: in_org_transaction_def p r runInOrgLockTransaction_def)
    moreover have "\<not> looks_like_busy x" using plain Some by (simp add: driver_plain_def)
    ultimately show ?thesis using True Some raw_failure by (simp add: contended_def)
  next
    case None
    have "\<not> (readLockTimeoutMs (drv_lockTimeoutMs (se_driver env)) = Inr (drv_lockTimeoutMs (se_driver env)) \<and>
        org_fk db (ctx_organizationId c))"
      using no True None by (auto simp: may_run_def driver_ok_def)
    then have "lockCurrentOrganization (se_driver env) (Some c)
        (JObj [(js ''organizationId'', JStr (ctx_organizationId c))]) (Some tx_client) db \<in>
        {Inl LockTimeoutConfigError, Inl OrgLockAnchorMissingError}"
      using True by (auto simp: lockCurrentOrganization_def resolveOrgContext_def assertContextShape_def get_prop_def
          readLockTimeoutMs_def org_fk_def list_ex_iff filter_empty_conv split: if_splits)
    then have "e \<in> {rethrowOrgLockError LockTimeoutConfigError (Some operation),
        rethrowOrgLockError OrgLockAnchorMissingError (Some operation)}"
      using run None by (auto simp: in_org_transaction_def p r runInOrgLockTransaction_def)
    with None show ?thesis using raw_failure [OF named_error(1)] by (auto simp: contended_def named_error error_named_def)
  qed
qed

lemma outcome_of:
  "toLeaveOrgOutcome (shown mt ft traceId up (derr E_ORG_ACCESS_DENIED)) x = LeaveAlreadyLeft"
  "toLeaveOrgOutcome (shown mt ft traceId up (derr E_LAST_OWNER)) x = LeaveBlocked Leave_lastOwner x"
  using failure_derr [of E_ORG_ACCESS_DENIED OrgAccessDenied mt ft traceId up]
    failure_derr [of E_LAST_OWNER "Conflict (JStr (js ''LAST_OWNER'')) JUndef" mt ft traceId up]
  by (simp_all add: toLeaveOrgOutcome_def failure_of_code_def)

lemma leave_refusals:
  assumes ok: "db_ok db" and c: "caller c u" "trim (ctx_organizationId c) \<noteq> []" "org_fk db (ctx_organizationId c)"
    and drv: "driver_ok (se_driver env)"
    and run: "leave env (Some c) db = (Inl t, db', evs)"
  shows "t = (if active_member (ctx_organizationId c) u db then derr E_LAST_OWNER else derr E_ORG_ACCESS_DENIED)"
    and "\<And>m. m \<in> set (db_memberships db) \<Longrightarrow> mem_org m = ctx_organizationId c \<Longrightarrow> mem_userId m = u \<Longrightarrow>
      mem_status m = MActive \<Longrightarrow> \<not> other_active_owner db m"
proof -
  let ?o = "ctx_organizationId c"
  have may: "may_run env c ?o u db" using c drv by (simp add: may_run_def)
  have body: "t = rethrowOrgLockError e (Some (js ''leaveOrganization''))" if "leave_tx (se_now env) ?o u db = Inl e" for e
  proof -
    have "leave env (Some c) db = (Inl (rethrowOrgLockError e (Some (js ''leaveOrganization''))), db, [])"
      unfolding leave_def using in_org_refuses [OF may, where body = "leave_tx (se_now env)", OF that] .
    with run show ?thesis by simp
  qed
  have active: "t = derr E_LAST_OWNER \<and> \<not> other_active_owner db m"
    if m: "m \<in> set (db_memberships db)" "mem_org m = ?o" "mem_userId m = u" "mem_status m = MActive" for m
  proof -
    from readActive_ok [OF ok m(1,4)] m obtain d where d: "readActiveMembership ?o u db = Inr (Some d)" by auto
    show ?thesis
    proof (cases "other_active_owner db m")
      case False
      then have "assertOwnerRemainsInTx ?o (Revoke u) db = Inl (derr E_LAST_OWNER)"
        using guard_revoke_exact [OF ok m(1,4)] m by simp
      with False body [of "derr E_LAST_OWNER"] show ?thesis by (simp add: leave_tx_def d)
    next
      case True
      then have g: "assertOwnerRemainsInTx ?o (Revoke u) db = Inr ()" using guard_revoke_exact [OF ok m(1,4)] m by simp
      obtain rv db1 where w: "writeRevocation (se_now env) (mem_org m) (mem_userId m) (md_email d) u db = Inr (rv, db1)"
        using writeRevocation_succeeds [OF ok m(1) refl refl] by blast
      have "leave_tx (se_now env) ?o u db = Inr ((rv, mem_roleId (md_membership d)), db1)"
        using w m by (simp add: leave_tx_def d g)
      then have "\<exists>r evs. leave env (Some c) db = (Inr r, db1, evs)"
        unfolding leave_def by (subst in_org_succeeds [OF may]) simp_all
      with run show ?thesis by auto
    qed
  qed
  show "t = (if active_member ?o u db then derr E_LAST_OWNER else derr E_ORG_ACCESS_DENIED)"
  proof (cases "active_member ?o u db")
    case True
    with active show ?thesis by (auto simp: active_member_def)
  next
    case False
    from no_active_read [OF ok False] body [of "derr E_ORG_ACCESS_DENIED"] False show ?thesis by (simp add: leave_tx_def)
  qed
  show "\<not> other_active_owner db m" if "m \<in> set (db_memberships db)" "mem_org m = ?o" "mem_userId m = u" "mem_status m = MActive"
    for m using active that by blast
qed

text \<open>
  C24: the dialog for leaving an organization tells the truth. Whatever refuses the departure of a caller,
  the rules, a contended or broken database, a missing organization, nothing was written. If the rules were
  asked, the dialog says that the caller already left exactly when the caller has no active membership any
  more, and that the caller is the last Owner when there is one, and then no other active member holds
  \<open>full_access\<close>. If they were not, it offers a retry, as busy exactly when the database was contended. And
  of all failures a request can have, a lost one, a server error and a wait among them, each keeps its retry,
  except a refused access and the last Owner.
\<close>

theorem leave_dialog_is_true:
  assumes "db_ok db" and "ctx_userId c = Some u" and "driver_plain (se_driver env)"
    and "leave env (Some c) db = (Inl t, db', evs)"
  shows "db' = db \<and> evs = [] \<and>
    toLeaveOrgOutcome (shown mt ft traceId up t) canManage =
      (if \<not> may_run env c (ctx_organizationId c) u db
       then LeaveRetryable
         (if caller c u \<and> trim (ctx_organizationId c) \<noteq> [] \<and> contended (se_driver env) then Leave_busy else Leave_generic)
       else if active_member (ctx_organizationId c) u db then LeaveBlocked Leave_lastOwner canManage
       else LeaveAlreadyLeft) \<and>
    (toLeaveOrgOutcome (shown mt ft traceId up t) canManage = LeaveBlocked Leave_lastOwner canManage \<longrightarrow>
       (\<exists>m \<in> set (db_memberships db). mem_org m = ctx_organizationId c \<and> mem_userId m = u \<and>
          mem_status m = MActive \<and> \<not> other_active_owner db m)) \<and>
    ((\<exists>copy. toLeaveOrgOutcome err canManage = LeaveRetryable copy) \<longleftrightarrow>
       toApiFailure err \<noteq> OrgAccessDenied \<and> (\<nexists>code d. toApiFailure err = Forbidden code d) \<and>
       (\<nexists>d. toApiFailure err = Conflict (JStr (js ''LAST_OWNER'')) d))"
proof -
  have w: "db' = db" "evs = []" using in_org_fails assms(4) unfolding leave_def by blast+
  have retry: "(\<exists>copy. toLeaveOrgOutcome err canManage = LeaveRetryable copy) \<longleftrightarrow>
       toApiFailure err \<noteq> OrgAccessDenied \<and> (\<nexists>code d. toApiFailure err = Forbidden code d) \<and>
       (\<nexists>d. toApiFailure err = Conflict (JStr (js ''LAST_OWNER'')) d)"
    by (cases "toApiFailure err") (simp_all add: toLeaveOrgOutcome_def)
  show ?thesis
  proof (cases "may_run env c (ctx_organizationId c) u db")
    case False
    from not_run_failure [OF assms(2) False assms(3) assms(4) [unfolded leave_def], of mt ft traceId up] False w retry
    show ?thesis by (simp add: toLeaveOrgOutcome_def)
  next
    case True
    then have d: "caller c u" "trim (ctx_organizationId c) \<noteq> []" "org_fk db (ctx_organizationId c)"
      "driver_ok (se_driver env)" by (simp_all add: may_run_def)
    note r = leave_refusals [OF assms(1) d assms(4)]
    from r(1) r(2) w True retry show ?thesis by (auto simp: outcome_of active_member_def)
  qed
qed

lemma demo_refused_to_leave:
  "leave demo_env (Some (demo_ctx ''ann'')) demo_db = (Inl (derr E_LAST_OWNER), demo_db, [])"
proof -
  let ?m = "demo_member ''m1'' ''ann'' ''r1'' MActive None"
  have m: "?m \<in> set (db_memberships demo_db)" "mem_status ?m = MActive" "mem_org ?m = js ''o1''"
    "mem_userId ?m = js ''ann''" by (simp_all add: demo_db_def demo_member_def)
  have none: "\<not> other_active_owner demo_db ?m"
    by (simp add: other_active_owner_def demo_db_def demo_rows role_caps_def authz_eval)
  from readActive_ok [OF demo_db_ok m(1,2)] obtain d where
    "readActiveMembership (js ''o1'') (js ''ann'') demo_db = Inr (Some d)" unfolding m(3,4) by blast
  then have tx: "leave_tx (se_now demo_env) (js ''o1'') (js ''ann'') demo_db = Inl (derr E_LAST_OWNER)"
    using guard_revoke_exact [OF demo_db_ok m(1,2)] none unfolding m(3,4) by (simp add: leave_tx_def)
  have may: "may_run demo_env (demo_ctx ''ann'') (js ''o1'') (js ''ann'') demo_db" by (rule demo_may_run) simp
  show ?thesis
    unfolding leave_def using in_org_refuses [OF may, where body = "leave_tx (se_now demo_env)", OF tx] by simp
qed

text \<open>The only Owner tries to leave; and tries again when the database is shutting down.\<close>

definition broken_env :: ServiceEnv where
  "broken_env = demo_env\<lparr>se_driver := \<lparr>drv_lockTimeoutMs = Fin 3000,
     drv_fault = Some (JObj [(js ''name'', JStr (js ''PrismaClientInitializationError''))])\<rparr>\<rparr>"

theorem leave_dialog_is_true_witness:
  "toLeaveOrgOutcome (shown (\<lambda>_. []) (\<lambda>_. []) [] None (derr E_LAST_OWNER)) True = LeaveBlocked Leave_lastOwner True \<and>
   active_member (js ''o1'') (js ''ann'') demo_db \<and>
   (\<exists>t. leave broken_env (Some (demo_ctx ''ann'')) demo_db = (Inl t, demo_db, []) \<and>
      toLeaveOrgOutcome (shown (\<lambda>_. []) (\<lambda>_. []) [] None t) True = LeaveRetryable Leave_generic)"
proof (intro conjI)
  have a: "active_member (js ''o1'') (js ''ann'') demo_db" by (simp add: active_member_def demo_db_def demo_rows)
  have may: "may_run demo_env (demo_ctx ''ann'') (js ''o1'') (js ''ann'') demo_db" by (rule demo_may_run) simp
  have u: "ctx_userId (demo_ctx ''ann'') = Some (js ''ann'')" "ctx_organizationId (demo_ctx ''ann'') = js ''o1''" by simp_all
  have plain: "driver_plain (se_driver demo_env)" by (simp add: driver_plain_def demo_env_def)
  from leave_dialog_is_true [OF demo_db_ok u(1) plain demo_refused_to_leave, of "\<lambda>_. []" "\<lambda>_. []" "[]" None True] may a
  show "toLeaveOrgOutcome (shown (\<lambda>_. []) (\<lambda>_. []) [] None (derr E_LAST_OWNER)) True = LeaveBlocked Leave_lastOwner True"
    by simp
  show "active_member (js ''o1'') (js ''ann'') demo_db" by (rule a)
  let ?e = "JObj [(js ''name'', JStr (js ''PrismaClientInitializationError''))]"
  have c: "\<not> looks_like_busy ?e" "classifyOrgLockError ?e = None" by (rule named_error, simp, rule named_error)
  have p: "prologue (Some (demo_ctx ''ann'')) = Inr (js ''o1'', js ''ann'')"
    using may by (simp add: prologue_ok may_run_def)
  have l: "leave broken_env (Some (demo_ctx ''ann'')) demo_db = (Inl (TRaw ?e), demo_db, [])"
    using may by (simp add: leave_def in_org_transaction_def p runInOrgLockTransaction_def resolveOrgContext_def broken_env_def
        may_run_def rethrowOrgLockError_def toOrgBusyError_def c(2))
  have no: "\<not> may_run broken_env (demo_ctx ''ann'') (js ''o1'') (js ''ann'') demo_db" "\<not> contended (se_driver broken_env)"
    by (simp_all add: may_run_def broken_env_def driver_ok_def contended_def c(2))
  have plain: "driver_plain (se_driver broken_env)" by (simp add: driver_plain_def broken_env_def c(1))
  from leave_dialog_is_true [OF demo_db_ok u(1) plain l, of "\<lambda>_. []" "\<lambda>_. []" "[]" None True] no l
  show "\<exists>t. leave broken_env (Some (demo_ctx ''ann'')) demo_db = (Inl t, demo_db, []) \<and>
      toLeaveOrgOutcome (shown (\<lambda>_. []) (\<lambda>_. []) [] None t) True = LeaveRetryable Leave_generic" by auto
qed

text \<open>
  The invitation screen has a row of its own for the eight refusals of an invitation and no other code:
  every other refusal is the generic text, the countdown, or a session that ended.
\<close>

lemma invite_table_complete:
  assumes "k \<noteq> E_RATE_LIMITED"
  shows "toInviteError (shown mt ft traceId up (derr k)) =
    (case map_of BY_CODE (code_string k) of
       Some next \<Rightarrow> invite_error (Invite_row (code_string k)) next
     | None \<Rightarrow> invite_error Invite_generic Step_retry)"
proof (cases "failure_of_code k")
  case None
  with assms show ?thesis by (cases k) (simp_all add: failure_of_code_def Let_def)
next
  case (Some f)
  note f = failure_derr [OF Some, of mt ft traceId up]
  show ?thesis
    unfolding toInviteError_def f using Some
    by (cases k) (auto simp: failure_of_code_def Let_def coded_def BY_CODE_def truthy_def)
qed

end
