(* ===== verification/WebSession.thy ===== *)
theory WebSession
  imports WebFailures SessionLifecycle RouteRegistry
begin

text \<open>
  The session in the browser: the authentication client (\<open>apps/web/src/lib/auth-client.ts\<close>,
  \<open>csrf.ts\<close>, \<open>token-store.ts\<close>, \<open>api-base.ts\<close>), the two transports of the API (\<open>lib/api/clients.ts\<close>), the state
  of the page (\<open>lib/session\<close>), and the calls of one page as a transition system in which many requests share
  one silent refresh.

  A browser is a pair of functions over a state: \<open>br_fetch\<close> answers a request or rejects, and may change the
  cookies, \<open>br_cookie\<close> is \<open>document.cookie\<close>. A page holds the access token. The body of an answer is \<open>None\<close>
  when it is no JSON. An access token that is no string, which the API never sends, counts as none.
\<close>

section \<open>Requests and answers\<close>

record WebRequest =
  wq_url :: jstring
  wq_method :: jstring
  wq_headers :: "(jstring \<times> jstring) list"
  wq_body :: "jsv option"

record WebAnswer =
  wa_status :: nat
  wa_retryAfter :: "jstring option"
  wa_json :: "jsv option"

record 's Browser =
  br_fetch :: "WebRequest \<Rightarrow> 's \<Rightarrow> WebAnswer option \<times> 's"
  br_cookie :: "'s \<Rightarrow> jstring"

record 's Page =
  pg_token :: "jstring option"
  pg_world :: 's

type_synonym ('a, 's) call = "'s Page \<Rightarrow> (Rejection + 'a) \<times> 's Page"

definition cbind :: "('a, 's) call \<Rightarrow> ('a \<Rightarrow> ('b, 's) call) \<Rightarrow> ('b, 's) call" where
  "cbind m k p = (case m p of (Inl e, p') \<Rightarrow> (Inl e, p') | (Inr x, p') \<Rightarrow> k x p')"

definition creturn :: "'a \<Rightarrow> ('a, 's) call" where "creturn x p = (Inr x, p)"
definition creject :: "Rejection \<Rightarrow> ('a, 's) call" where "creject e p = (Inl e, p)"

section \<open>The access token and the double-submit cookie\<close>

definition clearAccessToken :: "'s Page \<Rightarrow> 's Page" where "clearAccessToken p = p\<lparr>pg_token := None\<rparr>"

definition setAccessToken :: "jsv \<Rightarrow> 's Page \<Rightarrow> 's Page" where
  "setAccessToken token p = p\<lparr>pg_token := (case token of JStr t \<Rightarrow> Some t | _ \<Rightarrow> None)\<rparr>"

definition getAccessToken :: "'s Page \<Rightarrow> jstring option" where "getAccessToken p = pg_token p"

text \<open>\<open>s.split("; ")\<close>.\<close>

fun split_cookies :: "jstring \<Rightarrow> jstring list" where
  "split_cookies [] = [[]]"
| "split_cookies [c] = [[c]]"
| "split_cookies (c # d # r) =
     (if c = 59 \<and> d = 32 then [] # split_cookies r
      else (case split_cookies (d # r) of [] \<Rightarrow> [[c]] | p # ps \<Rightarrow> (c # p) # ps))"

definition CSRF_COOKIE_PREFIX :: jstring where "CSRF_COOKIE_PREFIX = js ''omni_csrf=''"

text \<open>\<open>Inl\<close> is the \<open>URIError\<close> of a malformed escape.\<close>

definition readCsrfCookie :: "jstring \<Rightarrow> Rejection + jstring option" where
  "readCsrfCookie documentCookie =
     (case find (\<lambda>row. take (length CSRF_COOKIE_PREFIX) row = CSRF_COOKIE_PREFIX) (split_cookies documentCookie) of
        None \<Rightarrow> Inr None
      | Some match \<Rightarrow>
          (let v = drop (length CSRF_COOKIE_PREFIX) match in
           if v = [] then Inr None
           else (case decodeURIComponent v of None \<Rightarrow> Inl ROther | Some t \<Rightarrow> Inr (Some t))))"

definition csrfHeader :: "jstring \<Rightarrow> Rejection + (jstring \<times> jstring) list" where
  "csrfHeader documentCookie =
     rbind (readCsrfCookie documentCookie) (\<lambda>token.
       Inr (case token of Some t \<Rightarrow> if t \<noteq> [] then [(js ''X-CSRF-Token'', t)] else [] | None \<Rightarrow> []))"

definition bearer_header :: "jstring option \<Rightarrow> (jstring \<times> jstring) list \<Rightarrow> (jstring \<times> jstring) list" where
  "bearer_header token hs =
     (case token of
        Some t \<Rightarrow> if t \<noteq> [] then setHeader (js ''Authorization'') (js ''Bearer '' @ t) hs else hs
      | None \<Rightarrow> hs)"

section \<open>Sending\<close>

record RequestOptions =
  opt_auth :: bool
  opt_csrf :: bool

definition AUTH_BASE :: jstring where "AUTH_BASE = js ''/auth''"
definition API_BASE :: jstring where "API_BASE = js ''/api''"

definition AUTH_PATHS :: "jstring list" where
  "AUTH_PATHS = [js ''/signup'', js ''/login'', js ''/refresh'', js ''/logout'', js ''/logout-all'',
     js ''/sessions'', js ''/change-password'']"

definition rawRequest ::
    "'s Browser \<Rightarrow> jstring \<Rightarrow> jstring \<Rightarrow> jsv option \<Rightarrow> RequestOptions \<Rightarrow> (WebAnswer, 's) call" where
  "rawRequest B path method body opts p =
     (let h1 = setHeader (js ''Content-Type'') (js ''application/json'') [];
          h2 = (if opt_auth opts then bearer_header (getAccessToken p) h1 else h1)
      in case (if opt_csrf opts then csrfHeader (br_cookie B (pg_world p)) else Inr []) of
           Inl e \<Rightarrow> (Inl e, p)
         | Inr csrf \<Rightarrow>
             if \<not> List.member AUTH_PATHS path then (Inl ROther, p)
             else (case br_fetch B \<lparr>wq_url = AUTH_BASE @ path, wq_method = method,
                           wq_headers = fold (\<lambda>(k, v). setHeader k v) csrf h2, wq_body = body\<rparr> (pg_world p) of
                     (None, w) \<Rightarrow> (Inl ROther, p\<lparr>pg_world := w\<rparr>)
                   | (Some res, w) \<Rightarrow> (Inr res, p\<lparr>pg_world := w\<rparr>)))"

definition answer_ok :: "WebAnswer \<Rightarrow> bool" where
  "answer_ok res \<longleftrightarrow> 200 \<le> wa_status res \<and> wa_status res \<le> 299"

definition json :: "WebAnswer \<Rightarrow> (jsv, 's) call" where
  "json res = (case wa_json res of None \<Rightarrow> creject ROther | Some v \<Rightarrow> creturn v)"

definition parseErrorBody :: "WebAnswer \<Rightarrow> jsv" where
  "parseErrorBody res = (case wa_json res of None \<Rightarrow> JNull | Some v \<Rightarrow> v)"

definition fail_with :: "WebAnswer \<Rightarrow> jsnum option \<Rightarrow> ('a, 's) call" where
  "fail_with res retryAfter =
     creject (new_ApiError (of_nat_num (wa_status res)) (parseErrorBody res) retryAfter)"

text \<open>Storing the token of a \<open>TokenResponse\<close>; reading a member of \<open>null\<close> is a \<open>TypeError\<close>.\<close>

definition store_token :: "jsv \<Rightarrow> (unit, 's) call" where
  "store_token body p =
     (if nullish body then (Inl ROther, p) else (Inr (), setAccessToken (get_prop body (js ''accessToken'')) p))"

definition doRefresh :: "'s Browser \<Rightarrow> (bool, 's) call" where
  "doRefresh B =
     cbind (rawRequest B (js ''/refresh'') (js ''POST'') (Some (JObj [])) \<lparr>opt_auth = False, opt_csrf = True\<rparr>) (\<lambda>res.
       if \<not> answer_ok res then (\<lambda>p. (Inr False, clearAccessToken p))
       else cbind (json res) (\<lambda>body. cbind (store_token body) (\<lambda>_. creturn True)))"

definition defaultIsAuthExpiry :: "WebAnswer \<Rightarrow> bool" where "defaultIsAuthExpiry res = True"

text \<open>A body whose \<open>error\<close> is \<open>null\<close> or absent has no code.\<close>

definition isChangePasswordAuthExpiry :: "WebAnswer \<Rightarrow> bool" where
  "isChangePasswordAuthExpiry res \<longleftrightarrow>
     opt_prop (opt_prop (parseErrorBody res) ''error'') ''code'' \<noteq> JStr (js ''INVALID_CREDENTIALS'')"

definition requestWithRefresh ::
    "(WebAnswer, 's) call \<Rightarrow> (bool, 's) call \<Rightarrow> (WebAnswer \<Rightarrow> bool) \<Rightarrow> (WebAnswer, 's) call" where
  "requestWithRefresh request refresh isAuthExpiry =
     cbind request (\<lambda>first.
       if wa_status first \<noteq> 401 \<or> \<not> isAuthExpiry first then creturn first
       else cbind refresh (\<lambda>refreshed.
         if \<not> refreshed then creject RSessionExpired
         else cbind request (\<lambda>second.
           if wa_status second = 401 \<and> isAuthExpiry second
           then (\<lambda>p. (Inl RSessionExpired, clearAccessToken p))
           else creturn second)))"

section \<open>The endpoints\<close>

definition web_signup :: "'s Browser \<Rightarrow> jsv \<Rightarrow> (jsv, 's) call" where
  "web_signup B req =
     cbind (rawRequest B (js ''/signup'') (js ''POST'') (Some req) \<lparr>opt_auth = False, opt_csrf = False\<rparr>) (\<lambda>res.
       if wa_status res = 201 then json res else fail_with res (parseRetryAfter (wa_retryAfter res)))"

definition web_login :: "'s Browser \<Rightarrow> jstring \<Rightarrow> jstring \<Rightarrow> jstring option \<Rightarrow> (jsv, 's) call" where
  "web_login B email password deviceId =
     (let req = JObj ([(js ''email'', JStr email), (js ''password'', JStr password),
                       (js ''tokenTransport'', JStr (js ''cookie''))] @
                      (case deviceId of Some d \<Rightarrow> if d \<noteq> [] then [(js ''deviceId'', JStr d)] else [] | None \<Rightarrow> []))
      in cbind (rawRequest B (js ''/login'') (js ''POST'') (Some req) \<lparr>opt_auth = False, opt_csrf = False\<rparr>) (\<lambda>res.
           if wa_status res = 200
           then cbind (json res) (\<lambda>body. cbind (store_token body) (\<lambda>_. creturn body))
           else fail_with res (parseRetryAfter (wa_retryAfter res))))"

definition web_getSessions :: "'s Browser \<Rightarrow> (jsv, 's) call" where
  "web_getSessions B =
     cbind (requestWithRefresh
              (rawRequest B (js ''/sessions'') (js ''GET'') None \<lparr>opt_auth = True, opt_csrf = False\<rparr>)
              (doRefresh B) defaultIsAuthExpiry) (\<lambda>res.
       if wa_status res = 200 then json res else fail_with res None)"

definition web_logoutDevice :: "'s Browser \<Rightarrow> jstring option \<Rightarrow> (unit, 's) call" where
  "web_logoutDevice B familyId =
     (let req = (case familyId of
                   Some f \<Rightarrow> if f \<noteq> [] then JObj [(js ''familyId'', JStr f)] else JObj []
                 | None \<Rightarrow> JObj [])
      in cbind (rawRequest B (js ''/logout'') (js ''POST'') (Some req) \<lparr>opt_auth = False, opt_csrf = True\<rparr>) (\<lambda>res.
           if wa_status res \<noteq> 204 then fail_with res None else (\<lambda>p. (Inr (), clearAccessToken p))))"

definition web_logoutAll :: "'s Browser \<Rightarrow> (unit, 's) call" where
  "web_logoutAll B =
     cbind (requestWithRefresh
              (rawRequest B (js ''/logout-all'') (js ''POST'') None \<lparr>opt_auth = True, opt_csrf = False\<rparr>)
              (doRefresh B) defaultIsAuthExpiry) (\<lambda>res.
       if wa_status res \<noteq> 204 then fail_with res None else (\<lambda>p. (Inr (), clearAccessToken p)))"

definition web_changePassword :: "'s Browser \<Rightarrow> jsv \<Rightarrow> (jsv, 's) call" where
  "web_changePassword B req =
     cbind (requestWithRefresh
              (rawRequest B (js ''/change-password'') (js ''POST'') (Some req) \<lparr>opt_auth = True, opt_csrf = True\<rparr>)
              (doRefresh B) isChangePasswordAuthExpiry) (\<lambda>res.
       if wa_status res = 200 then json res else fail_with res (parseRetryAfter (wa_retryAfter res)))"

section \<open>The two transports of the API\<close>

definition ORG_HEADER :: jstring where "ORG_HEADER = js ''X-Organization-Id''"

definition is_org_id_char :: "nat \<Rightarrow> bool" where
  "is_org_id_char c \<longleftrightarrow> (65 \<le> c \<and> c \<le> 90) \<or> (97 \<le> c \<and> c \<le> 122) \<or> is_digit c \<or> c = 95 \<or> c = 45"

definition isValidOrgId :: "jstring \<Rightarrow> bool" where
  "isValidOrgId orgId \<longleftrightarrow> 1 \<le> length orgId \<and> length orgId \<le> 64 \<and> list_all is_org_id_char orgId"

definition delete_header :: "jstring \<Rightarrow> (jstring \<times> jstring) list \<Rightarrow> (jstring \<times> jstring) list" where
  "delete_header name hs = filter (\<lambda>h. \<not> same_header (fst h) name) hs"

definition attempt_headers ::
    "jstring option \<Rightarrow> jstring option \<Rightarrow> (jstring \<times> jstring) list \<Rightarrow> (jstring \<times> jstring) list" where
  "attempt_headers orgId token hs =
     (let h1 = delete_header ORG_HEADER hs;
          h2 = (case orgId of Some o' \<Rightarrow> setHeader ORG_HEADER o' h1 | None \<Rightarrow> h1)
      in case token of
           Some t \<Rightarrow> if t \<noteq> [] then setHeader (js ''Authorization'') (js ''Bearer '' @ t) h2
                     else delete_header (js ''Authorization'') h2
         | None \<Rightarrow> delete_header (js ''Authorization'') h2)"

definition attempt :: "'s Browser \<Rightarrow> jstring option \<Rightarrow> WebRequest \<Rightarrow> (WebAnswer, 's) call" where
  "attempt B orgId input p =
     (case br_fetch B (input\<lparr>wq_headers := attempt_headers orgId (getAccessToken p) (wq_headers input)\<rparr>) (pg_world p) of
        (None, w) \<Rightarrow> (Inl ROther, p\<lparr>pg_world := w\<rparr>)
      | (Some res, w) \<Rightarrow> (Inr res, p\<lparr>pg_world := w\<rparr>))"

definition createAuthedFetch :: "'s Browser \<Rightarrow> jstring option \<Rightarrow> WebRequest \<Rightarrow> (WebAnswer, 's) call" where
  "createAuthedFetch B orgId =
     (if (case orgId of Some o' \<Rightarrow> \<not> isValidOrgId o' | None \<Rightarrow> False) then (\<lambda>_. creject ROther)
      else (\<lambda>input. requestWithRefresh (attempt B orgId input) (doRefresh B) defaultIsAuthExpiry))"

definition createOrgFetch :: "'s Browser \<Rightarrow> jstring \<Rightarrow> WebRequest \<Rightarrow> (WebAnswer, 's) call" where
  "createOrgFetch B orgId = createAuthedFetch B (Some orgId)"

definition createUserFetch :: "'s Browser \<Rightarrow> WebRequest \<Rightarrow> (WebAnswer, 's) call" where
  "createUserFetch B = createAuthedFetch B None"

section \<open>An invitation held across the sign-in\<close>

definition HOLD_MS :: int where "HOLD_MS = 30 * 60000"

definition isInviteJourneyRoute :: "jstring \<Rightarrow> bool" where
  "isInviteJourneyRoute pathname \<longleftrightarrow> List.member [js ''/invite'', js ''/login'', js ''/signup''] pathname"

type_synonym Held = "(jstring \<times> int) option"

definition holdInviteToken :: "jstring \<Rightarrow> int \<Rightarrow> Held \<Rightarrow> Held" where
  "holdInviteToken token now held = (if token = [] then held else Some (token, now + HOLD_MS))"

definition hasPendingInvite :: "int \<Rightarrow> Held \<Rightarrow> bool" where
  "hasPendingInvite now held \<longleftrightarrow> (case held of Some (_, until) \<Rightarrow> now < until | None \<Rightarrow> False)"

definition takeInviteToken :: "int \<Rightarrow> Held \<Rightarrow> jstring option \<times> Held" where
  "takeInviteToken now held =
     ((case held of Some (token, until) \<Rightarrow> if now < until then Some token else None | None \<Rightarrow> None), None)"

definition dropPendingInvite :: "Held \<Rightarrow> Held" where "dropPendingInvite held = None"

definition destinationAfterLogin :: "int \<Rightarrow> Held \<Rightarrow> jstring" where
  "destinationAfterLogin now held = (if hasPendingInvite now held then js ''/invite'' else js ''/select-org'')"

section \<open>The state of the page\<close>

text \<open>What the provider of the session keeps; the access token and the held invitation are of the module.\<close>

record App =
  app_session :: SessionState
  app_token :: "jstring option"
  app_held :: Held

datatype AppEvent =
    Navigated jstring
  | Bootstrapped bool
  | BeginSession
  | EndSession
  | LeftInvite jstring int
  | OpenedLink
  | BackToInvite int

definition app_step :: "AppEvent \<Rightarrow> App \<Rightarrow> App" where
  "app_step e a =
     (case e of
        Navigated pathname \<Rightarrow>
          if \<not> isInviteJourneyRoute pathname then a\<lparr>app_held := dropPendingInvite (app_held a)\<rparr> else a
      | Bootstrapped refreshed \<Rightarrow> a\<lparr>app_session := settledSession refreshed\<rparr>
      | BeginSession \<Rightarrow> a\<lparr>app_session := settledSession True\<rparr>
      | EndSession \<Rightarrow>
          a\<lparr>app_token := None, app_held := dropPendingInvite (app_held a), app_session := settledSession False\<rparr>
      | LeftInvite token now \<Rightarrow> a\<lparr>app_held := holdInviteToken token now (app_held a)\<rparr>
      | OpenedLink \<Rightarrow> a\<lparr>app_held := dropPendingInvite (app_held a)\<rparr>
      | BackToInvite now \<Rightarrow> a\<lparr>app_held := snd (takeInviteToken now (app_held a))\<rparr>)"

definition app_run :: "AppEvent list \<Rightarrow> App" where
  "app_run es = fold app_step es \<lparr>app_session = SESSION_UNKNOWN, app_token = None, app_held = None\<rparr>"

section \<open>Many requests, one refresh\<close>

text \<open>
  The requests of a page run concurrently; each is \<open>requestWithRefresh\<close> at some point. \<open>tab_inflight\<close> is the
  variable \<open>inflightRefresh\<close>, \<open>tab_flying\<close> the number of refresh requests under way, \<open>tab_refreshes\<close> all that were
  sent, \<open>tab_sends\<close> how often each request was sent. A step is what runs between two waits of one request, or
  the arrival of the answer to a refresh, which resumes every request that waits for it.
\<close>

datatype Phase =
    Unsent | Awaiting_first | Awaiting_refresh | Resuming | Awaiting_second | Answered | Session_expired | Rejected

record Tab =
  tab_token :: "jstring option"
  tab_inflight :: bool
  tab_flying :: nat
  tab_refreshes :: nat
  tab_calls :: "Phase list"
  tab_sends :: "nat list"

definition move :: "nat \<Rightarrow> Phase \<Rightarrow> Tab \<Rightarrow> Tab" where
  "move i ph s = s\<lparr>tab_calls := (tab_calls s)[i := ph]\<rparr>"

definition send_again :: "nat \<Rightarrow> Phase \<Rightarrow> Tab \<Rightarrow> Tab" where
  "send_again i ph s = (move i ph s)\<lparr>tab_sends := (tab_sends s)[i := Suc (tab_sends s ! i)]\<rparr>"

text \<open>\<open>silentRefresh\<close>: join the refresh under way, or start one.\<close>

definition silentRefresh :: "nat \<Rightarrow> Tab \<Rightarrow> Tab" where
  "silentRefresh i s =
     (if tab_inflight s then move i Awaiting_refresh s
      else (move i Awaiting_refresh s)\<lparr>tab_inflight := True, tab_flying := Suc (tab_flying s),
                                       tab_refreshes := Suc (tab_refreshes s)\<rparr>)"

datatype RefreshAnswer = Refresh_ok jstring | Refresh_refused | Refresh_lost

definition resume :: "Phase \<Rightarrow> Phase list \<Rightarrow> Phase list" where
  "resume ph = map (\<lambda>x. if x = Awaiting_refresh then ph else x)"

definition refresh_settles :: "RefreshAnswer \<Rightarrow> Tab \<Rightarrow> Tab" where
  "refresh_settles answer s =
     (let s' = s\<lparr>tab_inflight := False, tab_flying := tab_flying s - 1\<rparr> in
      case answer of
        Refresh_ok t \<Rightarrow> s'\<lparr>tab_token := Some t, tab_calls := resume Resuming (tab_calls s)\<rparr>
      | Refresh_refused \<Rightarrow> s'\<lparr>tab_token := None, tab_calls := resume Session_expired (tab_calls s)\<rparr>
      | Refresh_lost \<Rightarrow> s'\<lparr>tab_calls := resume Rejected (tab_calls s)\<rparr>)"

definition at_phase :: "nat \<Rightarrow> Phase \<Rightarrow> Tab \<Rightarrow> bool" where
  "at_phase i ph s \<longleftrightarrow> i < length (tab_calls s) \<and> tab_calls s ! i = ph"

inductive tab_step :: "Tab \<Rightarrow> Tab \<Rightarrow> bool" where
  send: "at_phase i Unsent s \<Longrightarrow> tab_step s (send_again i Awaiting_first s)"
| answered_first: "at_phase i Awaiting_first s \<Longrightarrow> tab_step s (move i Answered s)"
| expired_first: "at_phase i Awaiting_first s \<Longrightarrow> tab_step s (silentRefresh i s)"
| lost_first: "at_phase i Awaiting_first s \<Longrightarrow> tab_step s (move i Rejected s)"
| settled: "0 < tab_flying s \<Longrightarrow> tab_step s (refresh_settles answer s)"
| resend: "at_phase i Resuming s \<Longrightarrow> tab_step s (send_again i Awaiting_second s)"
| answered_second: "at_phase i Awaiting_second s \<Longrightarrow> tab_step s (move i Answered s)"
| expired_second: "at_phase i Awaiting_second s \<Longrightarrow>
    tab_step s ((move i Session_expired s)\<lparr>tab_token := None\<rparr>)"
| lost_second: "at_phase i Awaiting_second s \<Longrightarrow> tab_step s (move i Rejected s)"

inductive_cases tab_stepE: "tab_step s s'"

definition opened_tab :: "nat \<Rightarrow> jstring option \<Rightarrow> Tab" where
  "opened_tab n token =
     \<lparr>tab_token = token, tab_inflight = False, tab_flying = 0, tab_refreshes = 0,
      tab_calls = replicate n Unsent, tab_sends = replicate n 0\<rparr>"

definition final :: "Phase \<Rightarrow> bool" where
  "final ph \<longleftrightarrow> ph = Answered \<or> ph = Session_expired \<or> ph = Rejected"

section \<open>Every request settles\<close>

fun rank :: "Phase \<Rightarrow> nat" where
  "rank Unsent = 5"
| "rank Awaiting_first = 4"
| "rank Awaiting_refresh = 3"
| "rank Resuming = 2"
| "rank Awaiting_second = 1"
| "rank _ = 0"

fun sends_allowed :: "Phase \<Rightarrow> nat" where
  "sends_allowed Unsent = 0"
| "sends_allowed Awaiting_first = 1"
| "sends_allowed Awaiting_refresh = 1"
| "sends_allowed Resuming = 1"
| "sends_allowed _ = 2"

text \<open>The requests that may still start a refresh.\<close>

fun may_start :: "Phase \<Rightarrow> nat" where
  "may_start Unsent = 1"
| "may_start Awaiting_first = 1"
| "may_start _ = 0"

definition total :: "(Phase \<Rightarrow> nat) \<Rightarrow> Phase list \<Rightarrow> nat" where "total f ps = sum_list (map f ps)"

definition tab_ok :: "nat \<Rightarrow> Tab \<Rightarrow> bool" where
  "tab_ok n s \<longleftrightarrow>
     length (tab_calls s) = n \<and> length (tab_sends s) = n \<and>
     (\<forall>i < n. tab_sends s ! i \<le> sends_allowed (tab_calls s ! i)) \<and>
     tab_flying s = (if tab_inflight s then 1 else 0) \<and>
     (tab_inflight s \<longleftrightarrow> Awaiting_refresh \<in> set (tab_calls s)) \<and>
     tab_refreshes s + total may_start (tab_calls s) \<le> n"

lemma tab_ok_opened: "tab_ok n (opened_tab n token)"
  by (simp add: tab_ok_def opened_tab_def total_def sum_list_replicate)

lemma total_update: "i < length ps \<Longrightarrow> total f (ps[i := ph]) + f (ps ! i) = total f ps + f ph"
  by (induction ps arbitrary: i) (simp_all add: total_def nth_Cons split: nat.split)

lemma total_resume:
  assumes "f ph \<le> f Awaiting_refresh"
  shows "total f (resume ph ps) \<le> total f ps"
  using assms by (induction ps) (auto simp: total_def resume_def)

lemma rank_resume:
  assumes "rank ph \<le> 2" and "Awaiting_refresh \<in> set ps"
  shows "total rank (resume ph ps) < total rank ps"
  using assms(2)
proof (induction ps)
  case (Cons x xs)
  have "total rank (resume ph xs) \<le> total rank xs" using assms(1) by (intro total_resume) simp
  moreover have "total rank (resume ph xs) < total rank xs" if "x \<noteq> Awaiting_refresh" using Cons that by auto
  ultimately show ?case using assms(1) by (cases "x = Awaiting_refresh") (auto simp: total_def resume_def)
qed simp

lemma resume_done: "ph \<noteq> Awaiting_refresh \<Longrightarrow> Awaiting_refresh \<notin> set (resume ph ps)"
  by (auto simp: resume_def)

lemma sends_move:
  assumes "tab_ok n s" and "at_phase i ph s" and "sends_allowed ph \<le> sends_allowed ph'"
  shows "\<forall>k < n. tab_sends s ! k \<le> sends_allowed ((tab_calls s)[i := ph'] ! k)"
  using assms by (auto simp: tab_ok_def at_phase_def nth_list_update intro: order_trans)

lemma waiting_after:
  assumes "at_phase i ph s" and "ph \<noteq> Awaiting_refresh" and "ph' \<noteq> Awaiting_refresh"
  shows "Awaiting_refresh \<in> set ((tab_calls s)[i := ph']) \<longleftrightarrow> Awaiting_refresh \<in> set (tab_calls s)"
  using assms by (auto simp: at_phase_def in_set_conv_nth nth_list_update)

text \<open>Moving one request on keeps the invariant and leaves less to do.\<close>

lemma move_ok:
  assumes "tab_ok n s" and "at_phase i ph s" and "ph \<noteq> Awaiting_refresh" and "ph' \<noteq> Awaiting_refresh"
    and "sends_allowed ph \<le> sends_allowed ph'" and "may_start ph' \<le> may_start ph" and "rank ph' < rank ph"
  shows "tab_ok n (move i ph' s)" "total rank (tab_calls (move i ph' s)) < total rank (tab_calls s)"
proof -
  have i: "i < length (tab_calls s)" "tab_calls s ! i = ph" using assms(2) by (simp_all add: at_phase_def)
  note t = total_update [OF i(1), unfolded i(2), of may_start ph'] total_update [OF i(1), unfolded i(2), of rank ph']
  from t(2) assms(7) show "total rank (tab_calls (move i ph' s)) < total rank (tab_calls s)" by (simp add: move_def)
  from sends_move [OF assms(1,2,5)] waiting_after [OF assms(2-4)] assms(1,6) t(1)
  show "tab_ok n (move i ph' s)" by (simp add: tab_ok_def move_def)
qed

lemma send_again_ok:
  assumes "tab_ok n s" and "at_phase i ph s" and "ph \<noteq> Awaiting_refresh" and "ph' \<noteq> Awaiting_refresh"
    and "sends_allowed ph < sends_allowed ph'" and "may_start ph' \<le> may_start ph" and "rank ph' < rank ph"
  shows "tab_ok n (send_again i ph' s)" "total rank (tab_calls (send_again i ph' s)) < total rank (tab_calls s)"
proof -
  note m = move_ok [OF assms(1-4) less_imp_le [OF assms(5)] assms(6,7)]
  show "total rank (tab_calls (send_again i ph' s)) < total rank (tab_calls s)" using m(2) by (simp add: send_again_def)
  have "tab_sends s ! i \<le> sends_allowed ph" "i < n" using assms(1,2) by (auto simp: tab_ok_def at_phase_def)
  then show "tab_ok n (send_again i ph' s)"
    using m(1) assms(1,5) by (auto simp: tab_ok_def send_again_def move_def nth_list_update split: if_splits)
qed

lemma refresh_ok:
  assumes "tab_ok n s" and "at_phase i Awaiting_first s"
  shows "tab_ok n (silentRefresh i s)" "total rank (tab_calls (silentRefresh i s)) < total rank (tab_calls s)"
proof -
  have i: "i < length (tab_calls s)" "tab_calls s ! i = Awaiting_first" using assms(2) by (simp_all add: at_phase_def)
  note t = total_update [OF i(1), unfolded i(2), of may_start Awaiting_refresh]
    total_update [OF i(1), unfolded i(2), of rank Awaiting_refresh]
  from t(2) show "total rank (tab_calls (silentRefresh i s)) < total rank (tab_calls s)"
    by (simp add: silentRefresh_def move_def)
  have "Awaiting_refresh \<in> set ((tab_calls s)[i := Awaiting_refresh])" using i(1) by (rule set_update_memI)
  with sends_move [OF assms, of Awaiting_refresh] assms(1) t(1) show "tab_ok n (silentRefresh i s)"
    by (auto simp: tab_ok_def silentRefresh_def move_def)
qed

lemma settled_ok:
  assumes "tab_ok n s" and "0 < tab_flying s"
  shows "tab_ok n (refresh_settles a s)" "total rank (tab_calls (refresh_settles a s)) < total rank (tab_calls s)"
proof -
  from assms have w: "Awaiting_refresh \<in> set (tab_calls s)" "tab_flying s = 1" by (auto simp: tab_ok_def split: if_splits)
  have step: "tab_ok n (s\<lparr>tab_inflight := False, tab_flying := tab_flying s - 1, tab_calls := resume ph (tab_calls s)\<rparr>) \<and>
      total rank (resume ph (tab_calls s)) < total rank (tab_calls s)"
    if ph: "ph \<in> {Resuming, Session_expired, Rejected}" for ph
  proof -
    have p: "rank ph \<le> 2" "may_start ph = 0" "1 \<le> sends_allowed ph" "ph \<noteq> Awaiting_refresh"
      using ph by auto
    have "total may_start (resume ph (tab_calls s)) \<le> total may_start (tab_calls s)"
      by (rule total_resume) (simp add: p(2))
    moreover have "tab_sends s ! k \<le> sends_allowed (resume ph (tab_calls s) ! k)" if "k < n" for k
    proof -
      from assms(1) that have "tab_sends s ! k \<le> sends_allowed (tab_calls s ! k)" "k < length (tab_calls s)"
        by (auto simp: tab_ok_def)
      with p(3) show ?thesis by (cases "tab_calls s ! k = Awaiting_refresh") (auto simp: resume_def)
    qed
    ultimately have "tab_ok n (s\<lparr>tab_inflight := False, tab_flying := tab_flying s - 1, tab_calls := resume ph (tab_calls s)\<rparr>)"
      using assms(1) w(2) resume_done [OF p(4), of "tab_calls s"] by (simp add: tab_ok_def resume_def)
    with rank_resume [OF p(1) w(1)] show ?thesis by blast
  qed
  show "tab_ok n (refresh_settles a s)"
    using step [of Resuming] step [of Session_expired] step [of Rejected]
    by (cases a) (auto simp: refresh_settles_def tab_ok_def)
  show "total rank (tab_calls (refresh_settles a s)) < total rank (tab_calls s)"
    using step [of Resuming] step [of Session_expired] step [of Rejected]
    by (cases a) (auto simp: refresh_settles_def)
qed

lemma tab_step_ok:
  assumes "tab_step s s'" and "tab_ok n s"
  shows "tab_ok n s' \<and> total rank (tab_calls s') < total rank (tab_calls s)"
  using assms(1)
proof cases
  case (expired_second i)
  with move_ok [OF assms(2), of i Awaiting_second Session_expired] show ?thesis by (simp add: tab_ok_def)
qed (use assms(2) in \<open>auto intro: move_ok send_again_ok refresh_ok settled_ok\<close>)

lemma run_ok:
  "(tab_step ^^ k) s s' \<Longrightarrow> tab_ok n s \<Longrightarrow> tab_ok n s' \<and> k + total rank (tab_calls s') \<le> total rank (tab_calls s)"
proof (induction k arbitrary: s')
  case (Suc k)
  from Suc.prems(1) obtain u where u: "(tab_step ^^ k) s u" "tab_step u s'" by auto
  from Suc.IH [OF u(1) Suc.prems(2)] tab_step_ok [OF u(2), of n] show ?case by auto
qed simp

text \<open>A request that is not settled can go on.\<close>

lemma not_final_steps:
  assumes "tab_ok n s" and "i < n" and "\<not> final (tab_calls s ! i)"
  shows "\<exists>s'. tab_step s s'"
proof -
  have l: "i < length (tab_calls s)" using assms(1,2) by (simp add: tab_ok_def)
  then have a: "at_phase i (tab_calls s ! i) s" by (simp add: at_phase_def)
  show ?thesis
  proof (cases "tab_calls s ! i")
    case Awaiting_refresh
    then have "Awaiting_refresh \<in> set (tab_calls s)" using l by (metis nth_mem)
    then have "0 < tab_flying s" using assms(1) by (simp add: tab_ok_def)
    then show ?thesis by (blast intro: settled)
  qed (use a assms(3) in \<open>auto simp: final_def intro: send answered_first resend answered_second\<close>)
qed

section \<open>The refreshes of a page at the server\<close>

text \<open>
  A page and the server: the browser keeps the refresh token in its cookie, the answer to a refresh is the
  one \<open>rotate_token\<close> gives for it, and the cookie becomes the token it carries. A refresh may fail before
  the token is looked at, at the network or at one of the checks before the rotation; the answer may get
  lost after the server has exchanged the token, with its cookie (\<open>answer_lost\<close>, noted in \<open>dv_lost\<close>) or
  with the body only; and a refusal may get lost as well. Random draws do not collide: a rotation that the
  unique keys refuse is not a step. \<open>deadline\<close> bounds the times of the run.
\<close>

record Device =
  dv_tab :: Tab
  dv_jar :: jstring
  dv_rows :: "RefreshToken list"
  dv_time :: int
  dv_lost :: bool

inductive device_step ::
    "(jstring \<Rightarrow> jstring \<Rightarrow> jstring) \<Rightarrow> jstring \<Rightarrow> int \<Rightarrow> Device \<Rightarrow> Device \<Rightarrow> bool" for hmac secret deadline where
  request: "tab_step (dv_tab d) s' \<Longrightarrow> tab_flying (dv_tab d) \<le> tab_flying s' \<Longrightarrow>
    device_step hmac secret deadline d (d\<lparr>dv_tab := s'\<rparr>)"
| refreshed: "0 < tab_flying (dv_tab d) \<Longrightarrow> dv_time d \<le> now \<Longrightarrow> now < deadline \<Longrightarrow>
    rotate_token hmac secret now dw (dv_jar d) dev (dv_rows d) = Inr (Rotated issued u, evs, rows') \<Longrightarrow>
    a = Refresh_ok access \<or> a = Refresh_lost \<Longrightarrow>
    device_step hmac secret deadline d
      (d\<lparr>dv_tab := refresh_settles a (dv_tab d), dv_jar := ir_value issued, dv_rows := rows', dv_time := now\<rparr>)"
| answer_lost: "0 < tab_flying (dv_tab d) \<Longrightarrow> dv_time d \<le> now \<Longrightarrow> now < deadline \<Longrightarrow>
    rotate_token hmac secret now dw (dv_jar d) dev (dv_rows d) = Inr (Rotated issued u, evs, rows') \<Longrightarrow>
    device_step hmac secret deadline d
      (d\<lparr>dv_tab := refresh_settles Refresh_lost (dv_tab d), dv_rows := rows', dv_time := now, dv_lost := True\<rparr>)"
| refused: "0 < tab_flying (dv_tab d) \<Longrightarrow> dv_time d \<le> now \<Longrightarrow> now < deadline \<Longrightarrow>
    rotate_token hmac secret now dw (dv_jar d) dev (dv_rows d) = Inr (INVALID_REFRESH, evs, rows') \<Longrightarrow>
    a = Refresh_refused \<or> a = Refresh_lost \<Longrightarrow>
    device_step hmac secret deadline d
      (d\<lparr>dv_tab := refresh_settles a (dv_tab d), dv_rows := rows', dv_time := now\<rparr>)"
| unreached: "0 < tab_flying (dv_tab d) \<Longrightarrow> a = Refresh_refused \<or> a = Refresh_lost \<Longrightarrow>
    device_step hmac secret deadline d (d\<lparr>dv_tab := refresh_settles a (dv_tab d)\<rparr>)"

text \<open>The cookie is the newest token of its session, and lives until the deadline.\<close>

definition jar_current :: "(jstring \<Rightarrow> jstring \<Rightarrow> jstring) \<Rightarrow> jstring \<Rightarrow> int \<Rightarrow> Device \<Rightarrow> bool" where
  "jar_current hmac secret deadline d \<longleftrightarrow>
     chains_ok (dv_rows d) \<and>
     (\<exists>r \<in> set (dv_rows d). rt_tokenHash r = hashRefreshToken hmac (dv_jar d) secret \<and> rt_revokedAt r = None \<and>
        deadline \<le> rt_expiresAt r \<and> deadline \<le> rt_familyExpiresAt r \<and> successor_of (dv_rows d) r = None)"

text \<open>
  The cookie is \<open>r\<close>, the token before the newest one \<open>s\<close> of its session, exchanged by the server without the
  browser learning of it: neither is revoked yet, or the leeway after the exchange is over.
\<close>

definition spent_by ::
    "(jstring \<Rightarrow> jstring \<Rightarrow> jstring) \<Rightarrow> jstring \<Rightarrow> int \<Rightarrow> Device \<Rightarrow> RefreshToken \<Rightarrow> RefreshToken \<Rightarrow> bool" where
  "spent_by hmac secret deadline d r s \<longleftrightarrow>
     r \<in> set (dv_rows d) \<and> s \<in> set (dv_rows d) \<and> rt_tokenHash r = hashRefreshToken hmac (dv_jar d) secret \<and>
     rt_rotatedFrom s = Some (rt_id r) \<and> successor_of (dv_rows d) s = None \<and>
     deadline \<le> rt_expiresAt r \<and> deadline \<le> rt_familyExpiresAt r \<and>
     (rt_revokedAt r = None \<and> rt_revokedAt s = None \<or>
      rt_revokedAt r \<noteq> None \<and> rt_createdAt s + 60000 < dv_time d)"

definition jar_spent :: "(jstring \<Rightarrow> jstring \<Rightarrow> jstring) \<Rightarrow> jstring \<Rightarrow> int \<Rightarrow> Device \<Rightarrow> bool" where
  "jar_spent hmac secret deadline d \<longleftrightarrow> chains_ok (dv_rows d) \<and> (\<exists>r s. spent_by hmac secret deadline d r s)"

lemma jar_spentI: "chains_ok (dv_rows d) \<Longrightarrow> spent_by hmac secret deadline d r s \<Longrightarrow> jar_spent hmac secret deadline d"
  unfolding jar_spent_def by blast

lemma jar_spentE:
  assumes "jar_spent hmac secret deadline d"
  obtains r s where "chains_ok (dv_rows d)" and "spent_by hmac secret deadline d r s"
  using assms unfolding jar_spent_def by blast

lemma jar_found:
  assumes "chains_ok rows" and "r \<in> set rows" and "rt_tokenHash r = hashRefreshToken hmac v secret"
  shows "find (\<lambda>x. rt_tokenHash x = hashRefreshToken hmac v secret) rows = Some r"
proof -
  have "distinct (map rt_tokenHash rows)" using assms(1) by (simp add: chains_ok_def tokens_unique_def unique_by_def)
  from find_keyed [OF this assms(2)] assms(3) show ?thesis by simp
qed

lemma jar_rotates:
  assumes "jar_current hmac secret deadline d" and "now < deadline"
  obtains r where "r \<in> set (dv_rows d)" and "rt_tokenHash r = hashRefreshToken hmac (dv_jar d) secret"
    and "rotate_token hmac secret now dw (dv_jar d) dev (dv_rows d) =
      rbind (create_token (rotated_row hmac secret now dw r dev) (dv_rows d))
        (\<lambda>rows. Inr (Rotated (rotated_issued now dw r) (rt_userId r), [], rows))"
    and "successor_of (dv_rows d) r = None" and "rt_revokedAt r = None"
    and "deadline \<le> rt_expiresAt r" and "deadline \<le> rt_familyExpiresAt r"
proof -
  from assms(1) obtain r where r: "r \<in> set (dv_rows d)" "rt_tokenHash r = hashRefreshToken hmac (dv_jar d) secret"
    "rt_revokedAt r = None" "deadline \<le> rt_expiresAt r" "deadline \<le> rt_familyExpiresAt r"
    "successor_of (dv_rows d) r = None" and ok: "chains_ok (dv_rows d)" by (auto simp: jar_current_def)
  have "rotate_action now (dv_rows d) r = ALLOW_ROTATE" using r assms(2) by (simp add: action_rotates rt_live_def)
  with jar_found [OF ok r(1,2)] have "rotate_token hmac secret now dw (dv_jar d) dev (dv_rows d) =
      rbind (create_token (rotated_row hmac secret now dw r dev) (dv_rows d))
        (\<lambda>rows. Inr (Rotated (rotated_issued now dw r) (rt_userId r), [], rows))"
    by (simp add: rotate_token_def)
  with that r show thesis by blast
qed

text \<open>An exchange leaves the new token as the newest one, behind the old one.\<close>

lemma jar_advances:
  assumes "jar_current hmac secret deadline d" and "dv_time d \<le> now" and "now < deadline"
    and "deadline \<le> dv_time d + 60 * 24 * 60 * 60 * 1000"
    and "rotate_token hmac secret now dw (dv_jar d) dev (dv_rows d) = Inr (Rotated issued u, evs, rows')"
  shows "jar_current hmac secret deadline (d\<lparr>dv_tab := t, dv_jar := ir_value issued, dv_rows := rows', dv_time := now\<rparr>)"
    and "jar_spent hmac secret deadline (d\<lparr>dv_tab := t, dv_rows := rows', dv_time := now, dv_lost := x\<rparr>)"
proof -
  from jar_rotates [OF assms(1,3)] obtain r where r: "r \<in> set (dv_rows d)"
    "rt_tokenHash r = hashRefreshToken hmac (dv_jar d) secret"
    "rotate_token hmac secret now dw (dv_jar d) dev (dv_rows d) =
      rbind (create_token (rotated_row hmac secret now dw r dev) (dv_rows d))
        (\<lambda>rows. Inr (Rotated (rotated_issued now dw r) (rt_userId r), [], rows))"
    "successor_of (dv_rows d) r = None" "rt_revokedAt r = None" "deadline \<le> rt_expiresAt r"
    "deadline \<le> rt_familyExpiresAt r" .
  let ?n = "rotated_row hmac secret now dw r dev"
  from assms(5) r(3) have i: "issued = rotated_issued now dw r" and rows: "rows' = dv_rows d @ [?n]"
    and uniq: "tokens_unique (dv_rows d @ [?n])"
    by (auto simp: create_token_def rbind_Inr_iff Let_def split: if_splits)
  have ok: "chains_ok (dv_rows d)" using assms(1) by (simp add: jar_current_def)
  have n: "rt_tokenHash ?n = hashRefreshToken hmac (ir_value issued) secret" "rt_revokedAt ?n = None"
    "deadline \<le> rt_expiresAt ?n" "deadline \<le> rt_familyExpiresAt ?n" "rt_rotatedFrom ?n = Some (rt_id r)"
    using assms(2,4) r(7)
    by (simp_all add: rotated_row_def i rotated_issued_def tokenExpiresAt_def REFRESH_TOKEN_TTL_MS_def)
  have ch: "chains_ok rows'"
    unfolding rows using r(1,4) by (intro chains_append [OF ok uniq]) (auto simp: rotated_row_def)
  have "rt_rotatedFrom y \<noteq> Some (rt_id ?n)" if "y \<in> set rows'" for y
  proof
    assume y: "rt_rotatedFrom y = Some (rt_id ?n)"
    have "\<exists>p \<in> set (dv_rows d). rt_id p = rt_id ?n"
    proof (cases "y = ?n")
      case True
      with y n(5) r(1) show ?thesis by (metis option.inject)
    next
      case False
      with that y ok rows show ?thesis by (auto simp: chains_ok_def)
    qed
    with fresh_id [OF uniq] show False by (metis imageI)
  qed
  then have s: "successor_of rows' ?n = None" by (simp add: successor_None)
  have m: "?n \<in> set rows'" "r \<in> set rows'" using r(1) by (simp_all add: rows)
  show "jar_current hmac secret deadline (d\<lparr>dv_tab := t, dv_jar := ir_value issued, dv_rows := rows', dv_time := now\<rparr>)"
    using ch m(1) n(1-4) s by (auto simp: jar_current_def)
  show "jar_spent hmac secret deadline (d\<lparr>dv_tab := t, dv_rows := rows', dv_time := now, dv_lost := x\<rparr>)"
    by (rule jar_spentI [of _ _ _ _ r ?n]) (use ch m r(2,5-7) n(2,5) s in \<open>simp_all add: spent_by_def\<close>)
qed

text \<open>What the server answers to a cookie whose exchange the browser missed.\<close>

lemma spent_answer:
  assumes "chains_ok (dv_rows d)" and "spent_by hmac secret deadline d r s" and "dv_time d \<le> now" and "now < deadline"
  shows "rotate_token hmac secret now dw (dv_jar d) dev (dv_rows d) =
      (if now \<le> rt_createdAt s + 60000 then Inr (INVALID_REFRESH, [], dv_rows d)
       else Inr (INVALID_REFRESH, [(Ev_auth_refresh_reuse_detected, reuse_payload r dev)],
              revoke_where (\<lambda>x. rt_familyId x = rt_familyId r) now (dv_rows d)))"
proof -
  have m: "r \<in> set (dv_rows d)" "s \<in> set (dv_rows d)"
    and r: "rt_tokenHash r = hashRefreshToken hmac (dv_jar d) secret" "rt_rotatedFrom s = Some (rt_id r)"
      "successor_of (dv_rows d) s = None" "deadline \<le> rt_expiresAt r" "deadline \<le> rt_familyExpiresAt r"
    and c: "rt_revokedAt r = None \<and> rt_revokedAt s = None \<or> rt_revokedAt r \<noteq> None \<and> rt_createdAt s + 60000 < dv_time d"
    using assms(2) by (simp_all add: spent_by_def)
  have "tokens_unique (dv_rows d)" using assms(1) by (simp add: chains_ok_def)
  note next_row = successor_is [OF m(2) r(2) this]
  have "rotate_action now (dv_rows d) r = (if now \<le> rt_createdAt s + 60000 then REJECT_BENIGN_RETRY else REVOKE_FAMILY)"
    using c r(3-5) assms(3,4)
    by (auto simp: rotate_action_def decideReuse_def successorInfo_def next_row Let_def REUSE_LEEWAY_MS_def)
  with jar_found [OF assms(1) m(1) r(1)] show ?thesis by (simp add: rotate_token_def)
qed

lemma spent_refused:
  assumes "jar_spent hmac secret deadline d" and "dv_time d \<le> now" and "now < deadline"
    and "rotate_token hmac secret now dw (dv_jar d) dev (dv_rows d) = Inr (INVALID_REFRESH, evs, rows')"
  shows "jar_spent hmac secret deadline (d\<lparr>dv_tab := t, dv_rows := rows', dv_time := now\<rparr>)"
proof -
  from assms(1) obtain r s where ok: "chains_ok (dv_rows d)" and sp: "spent_by hmac secret deadline d r s"
    by (rule jar_spentE)
  note a = spent_answer [OF ok sp assms(2,3), of dw dev]
  show ?thesis
  proof (cases "now \<le> rt_createdAt s + 60000")
    case True
    with a assms(4) have rows: "rows' = dv_rows d" by simp
    have "spent_by hmac secret deadline (d\<lparr>dv_tab := t, dv_rows := rows', dv_time := now\<rparr>) r s"
      using sp assms(2) by (auto simp: spent_by_def rows)
    moreover have "chains_ok rows'" using ok by (simp add: rows)
    ultimately show ?thesis by (intro jar_spentI [of _ _ _ _ r s]) simp_all
  next
    case False
    let ?P = "\<lambda>x. rt_familyId x = rt_familyId r"
    from False a assms(4) have rows: "rows' = revoke_where ?P now (dv_rows d)" by simp
    let ?r = "revoke_one ?P now r" and ?s = "revoke_one ?P now s"
    have "?r \<in> set rows'" "?s \<in> set rows'" using sp by (simp_all add: spent_by_def rows revoke_where_def)
    moreover have "rt_createdAt ?s = rt_createdAt s" by (simp add: revoke_one_def)
    moreover have "successor_of rows' ?s = None" using sp by (simp add: spent_by_def rows successor_revoke)
    ultimately have "spent_by hmac secret deadline (d\<lparr>dv_tab := t, dv_rows := rows', dv_time := now\<rparr>) ?r ?s"
      using sp False by (simp add: spent_by_def)
    moreover have "chains_ok rows'" unfolding rows by (rule chains_revoke [OF ok])
    ultimately show ?thesis by (intro jar_spentI [of _ _ _ _ ?r ?s]) simp_all
  qed
qed

text \<open>What every step keeps.\<close>

definition jar_ok :: "(jstring \<Rightarrow> jstring \<Rightarrow> jstring) \<Rightarrow> jstring \<Rightarrow> int \<Rightarrow> Device \<Rightarrow> bool" where
  "jar_ok hmac secret deadline d \<longleftrightarrow>
     (if dv_lost d then jar_spent hmac secret deadline d else jar_current hmac secret deadline d)"

lemma jar_cases:
  assumes "jar_ok hmac secret deadline d" and "dv_time d \<le> now" and "now < deadline"
  shows "dv_lost d \<Longrightarrow> rotate_token hmac secret now dw (dv_jar d) dev (dv_rows d) \<noteq> Inr (Rotated i u, evs, rows')"
    and "\<not> dv_lost d \<Longrightarrow> rotate_token hmac secret now dw (dv_jar d) dev (dv_rows d) \<noteq> Inr (INVALID_REFRESH, evs, rows')"
proof -
  assume "dv_lost d"
  with assms(1) have "jar_spent hmac secret deadline d" by (simp add: jar_ok_def)
  then obtain r s where "chains_ok (dv_rows d)" "spent_by hmac secret deadline d r s" by (rule jar_spentE)
  from spent_answer [OF this assms(2,3), of dw dev]
  show "rotate_token hmac secret now dw (dv_jar d) dev (dv_rows d) \<noteq> Inr (Rotated i u, evs, rows')" by simp
next
  assume "\<not> dv_lost d"
  with assms(1) have "jar_current hmac secret deadline d" by (simp add: jar_ok_def)
  from jar_rotates [OF this assms(3)] obtain r where
    r: "rotate_token hmac secret now dw (dv_jar d) dev (dv_rows d) =
      rbind (create_token (rotated_row hmac secret now dw r dev) (dv_rows d))
        (\<lambda>rows. Inr (Rotated (rotated_issued now dw r) (rt_userId r), [], rows))" by metis
  show "rotate_token hmac secret now dw (dv_jar d) dev (dv_rows d) \<noteq> Inr (INVALID_REFRESH, evs, rows')"
    unfolding r by (simp add: rbind_Inr_iff)
qed

lemma jar_kept:
  assumes "device_step hmac secret deadline d d'" and "jar_ok hmac secret deadline d"
    and "deadline \<le> dv_time d + 60 * 24 * 60 * 60 * 1000"
  shows "jar_ok hmac secret deadline d' \<and> dv_time d \<le> dv_time d'"
  using assms(1)
proof cases
  case (refreshed now dw dev issued u evs rows' a access)
  note n = jar_cases(1) [OF assms(2) refreshed(3,4)]
  have c: "\<not> dv_lost d" using n refreshed(5) by blast
  with assms(2) have "jar_current hmac secret deadline d" by (simp add: jar_ok_def)
  from jar_advances(1) [OF this refreshed(3,4) assms(3) refreshed(5)] c show ?thesis
    using refreshed(1,3) by (simp add: jar_ok_def)
next
  case (answer_lost now dw dev issued u evs rows')
  note n = jar_cases(1) [OF assms(2) answer_lost(3,4)]
  have c: "\<not> dv_lost d" using n answer_lost(5) by blast
  with assms(2) have "jar_current hmac secret deadline d" by (simp add: jar_ok_def)
  from jar_advances(2) [OF this answer_lost(3,4) assms(3) answer_lost(5)] show ?thesis
    using answer_lost(1,3) by (simp add: jar_ok_def)
next
  case (refused now dw dev evs rows' a)
  note n = jar_cases(2) [OF assms(2) refused(3,4)]
  have c: "dv_lost d" using n refused(5) by blast
  with assms(2) have "jar_spent hmac secret deadline d" by (simp add: jar_ok_def)
  from spent_refused [OF this refused(3-5)] c show ?thesis
    using refused(1,3) by (simp add: jar_ok_def)
qed (use assms(2) in \<open>auto simp: jar_ok_def jar_current_def jar_spent_def spent_by_def split: if_splits\<close>)

section \<open>Theorems\<close>

text \<open>
  C21: every request of a page settles. However the answers of concurrent requests and of refreshes are
  ordered, and whatever they are, a run over \<open>n\<close> requests takes at most five steps per request, and when no
  step is left every request was answered, rejected or told that the session is over. On the way no request
  is sent more than twice, at most one refresh is under way at any time, and at most one is sent per request.
\<close>

theorem requests_settle:
  assumes "(tab_step ^^ k) (opened_tab n token) s"
  shows "k \<le> 5 * n \<and> (\<forall>i < n. tab_sends s ! i \<le> 2) \<and> tab_flying s \<le> 1 \<and> tab_refreshes s \<le> n \<and>
    ((\<nexists>s'. tab_step s s') \<longrightarrow> list_all final (tab_calls s))"
proof -
  from run_ok [OF assms tab_ok_opened] have ok: "tab_ok n s"
    and k: "k + total rank (tab_calls s) \<le> total rank (tab_calls (opened_tab n token))" by blast+
  have "total rank (tab_calls (opened_tab n token)) = 5 * n"
    by (simp add: opened_tab_def total_def sum_list_replicate)
  with k have "k \<le> 5 * n" by simp
  moreover have "tab_sends s ! i \<le> 2" if "i < n" for i
  proof -
    have "sends_allowed (tab_calls s ! i) \<le> 2" by (cases "tab_calls s ! i") simp_all
    with ok that show ?thesis by (auto simp: tab_ok_def intro: order_trans)
  qed
  moreover have "tab_flying s \<le> 1" "tab_refreshes s \<le> n" using ok by (auto simp: tab_ok_def)
  moreover have "list_all final (tab_calls s)" if "\<nexists>s'. tab_step s s'"
    using not_final_steps [OF ok] that ok by (auto simp: list_all_length tab_ok_def)
  ultimately show ?thesis by blast
qed

lemma five_steps:
  assumes "P a b" and "P b c" and "P c d" and "P d e" and "P e f"
  shows "(P ^^ 5) a f"
proof -
  have "(5::nat) = Suc (Suc (Suc (Suc (Suc 0))))" by simp
  with assms show ?thesis by (metis relpowp_0_I relpowp_Suc_I)
qed

text \<open>One request whose token had expired: the bound of five steps is reached.\<close>

lemma demo_tab_run:
  "\<exists>s. (tab_step ^^ 5) (opened_tab 1 None) s \<and> tab_calls s = [Answered] \<and> tab_sends s = [2] \<and> tab_refreshes s = 1"
proof -
  let ?s1 = "send_again 0 Awaiting_first (opened_tab 1 None)"
  let ?s2 = "silentRefresh 0 ?s1"
  let ?s3 = "refresh_settles (Refresh_ok (js ''t'')) ?s2"
  let ?s4 = "send_again 0 Awaiting_second ?s3"
  let ?s5 = "move 0 Answered ?s4"
  note defs = send_again_def move_def silentRefresh_def refresh_settles_def opened_tab_def at_phase_def resume_def Let_def
  have a: "tab_step (opened_tab 1 None) ?s1" by (rule send) (simp add: defs)
  have b: "tab_step ?s1 ?s2" by (rule expired_first) (simp add: defs)
  have c: "tab_step ?s2 ?s3" by (rule settled) (simp add: defs)
  have d: "tab_step ?s3 ?s4" by (rule resend) (simp add: defs)
  have e: "tab_step ?s4 ?s5" by (rule answered_second) (simp add: defs)
  have "(tab_step ^^ 5) (opened_tab 1 None) ?s5"
    by (rule five_steps [where P = tab_step, OF a b c d e])
  moreover have "tab_calls ?s5 = [Answered]" "tab_sends ?s5 = [2]" "tab_refreshes ?s5 = 1" by (simp_all add: defs)
  ultimately show ?thesis by blast
qed

theorem requests_settle_witness:
  "\<exists>s. (tab_step ^^ 5) (opened_tab 1 None) s \<and> 5 \<le> 5 * (1::nat) \<and> tab_flying s \<le> 1 \<and> tab_sends s ! 0 \<le> 2"
proof -
  obtain s where s: "(tab_step ^^ 5) (opened_tab 1 None) s" using demo_tab_run by blast
  from requests_settle [OF s] s show ?thesis by auto
qed

text \<open>
  C22: a page alone loses its session to its own refreshes only by a lost answer. Take any run of a page
  whose cookie is the newest token of its session, in which its requests expire, join a refresh, repeat and
  fail in any order, up to a time before the token and the session end. As long as the answer of no
  exchange was lost together with its cookie, the API answers the next refresh with the next token of the
  session (unless the drawn keys collide): it never takes it for a replay, revokes nothing and reports
  nothing. Once such an answer was lost, the cookie is the token before the newest one: until a minute after
  that one was created a refresh is refused and the session left alone, without a report; later it is taken
  for a replay, reported, and the session revoked.
\<close>

theorem page_keeps_its_session:
  assumes "(device_step hmac secret deadline)\<^sup>*\<^sup>* d d'"
    and "jar_current hmac secret deadline d" and "\<not> dv_lost d"
    and "deadline \<le> dv_time d + 60 * 24 * 60 * 60 * 1000"
    and "dv_time d' \<le> now" and "now < deadline"
  shows "if \<not> dv_lost d'
    then \<exists>r \<in> set (dv_rows d'). rt_tokenHash r = hashRefreshToken hmac (dv_jar d') secret \<and>
      rotate_token hmac secret now dw (dv_jar d') dev (dv_rows d') =
        rbind (create_token (rotated_row hmac secret now dw r dev) (dv_rows d'))
          (\<lambda>rows. Inr (Rotated (rotated_issued now dw r) (rt_userId r), [], rows))
    else \<exists>r \<in> set (dv_rows d'). \<exists>s \<in> set (dv_rows d'). rt_tokenHash r = hashRefreshToken hmac (dv_jar d') secret \<and>
      rt_rotatedFrom s = Some (rt_id r) \<and> successor_of (dv_rows d') s = None \<and>
      rotate_token hmac secret now dw (dv_jar d') dev (dv_rows d') =
        (if now \<le> rt_createdAt s + 60000 then Inr (INVALID_REFRESH, [], dv_rows d')
         else Inr (INVALID_REFRESH, [(Ev_auth_refresh_reuse_detected, reuse_payload r dev)],
                revoke_where (\<lambda>x. rt_familyId x = rt_familyId r) now (dv_rows d')))"
proof -
  have "jar_ok hmac secret deadline d' \<and> dv_time d \<le> dv_time d'"
    using assms(1)
  proof induction
    case (step y z)
    have "deadline \<le> dv_time y + 60 * 24 * 60 * 60 * 1000" using step.IH assms(4) by simp
    with jar_kept [OF step.hyps(2)] step.IH show ?case by (meson order_trans)
  qed (use assms(2,3) in \<open>simp add: jar_ok_def\<close>)
  then have j: "jar_ok hmac secret deadline d'" ..
  show ?thesis
  proof (cases "dv_lost d'")
    case True
    with j have "jar_spent hmac secret deadline d'" by (simp add: jar_ok_def)
    then obtain r s where ok: "chains_ok (dv_rows d')" and sp: "spent_by hmac secret deadline d' r s" by (rule jar_spentE)
    have "r \<in> set (dv_rows d')" "s \<in> set (dv_rows d')" "rt_tokenHash r = hashRefreshToken hmac (dv_jar d') secret"
      "rt_rotatedFrom s = Some (rt_id r)" "successor_of (dv_rows d') s = None"
      using sp by (simp_all add: spent_by_def)
    with True spent_answer [OF ok sp assms(5,6), of dw dev] show ?thesis
      by (simp only: not_True_eq_False if_False) blast
  next
    case False
    with j have "jar_current hmac secret deadline d'" by (simp add: jar_ok_def)
    with False jar_rotates [OF this assms(6), of dw dev] show ?thesis by (simp only: not_False_eq_True if_True) metis
  qed
qed

text \<open>
  A device that has just logged in and refreshes after five milliseconds: once the answer arrives, once it
  gets lost and the next refresh comes within the minute.
\<close>

definition demo_device :: Device where
  "demo_device =
     \<lparr>dv_tab = silentRefresh 0 (send_again 0 Awaiting_first (opened_tab 1 None)), dv_jar = base64url [1],
      dv_rows = [login_row (\<lambda>k v. k @ v) [] 0 \<lparr>dw_bytes = [1], dw_familyId = js ''f'', dw_id = js ''i'', dw_createdAt = 0\<rparr>
                   (js ''ann'') None],
      dv_time = 0, dv_lost = False\<rparr>"

definition demo_draw :: Draw where
  "demo_draw = \<lparr>dw_bytes = [2], dw_familyId = js ''f'', dw_id = js ''j'', dw_createdAt = 5\<rparr>"

lemma demo_device_current: "jar_current (\<lambda>k v. k @ v) [] 100000 demo_device"
  by (simp add: jar_current_def demo_device_def login_row_def chains_ok_def tokens_unique_def unique_by_def
      same_family_def successor_of_def hashRefreshToken_def generateRefreshTokenValue_def tokenExpiresAt_def
      familyExpiresAt_def REFRESH_TOKEN_TTL_MS_def FAMILY_LIFETIME_CAP_MS_def)

definition demo_rotated :: "RefreshToken list" where
  "demo_rotated = dv_rows demo_device @ [rotated_row (\<lambda>k v. k @ v) [] 5 demo_draw (hd (dv_rows demo_device)) None]"

lemma demo_exchange:
  "rotate_token (\<lambda>k v. k @ v) [] 5 demo_draw (dv_jar demo_device) None (dv_rows demo_device) =
     Inr (Rotated (rotated_issued 5 demo_draw (hd (dv_rows demo_device))) (js ''ann''), [], demo_rotated)"
proof -
  from jar_rotates [OF demo_device_current, of 5 demo_draw None] obtain r where r: "r \<in> set (dv_rows demo_device)"
    "rotate_token (\<lambda>k v. k @ v) [] 5 demo_draw (dv_jar demo_device) None (dv_rows demo_device) =
      rbind (create_token (rotated_row (\<lambda>k v. k @ v) [] 5 demo_draw r None) (dv_rows demo_device))
        (\<lambda>rows. Inr (Rotated (rotated_issued 5 demo_draw r) (rt_userId r), [], rows))" by simp metis
  have one: "dv_rows demo_device = [hd (dv_rows demo_device)]" "rt_userId (hd (dv_rows demo_device)) = js ''ann''"
    by (simp_all add: demo_device_def login_row_def)
  then have "r = hd (dv_rows demo_device)" using r(1) by (metis empty_iff list.set(1) set_ConsD)
  moreover have "tokens_unique demo_rotated"
    by (simp add: tokens_unique_def unique_by_def demo_rotated_def demo_device_def rotated_row_def login_row_def demo_draw_def
        hashRefreshToken_def generateRefreshTokenValue_def b64_char_def js_eq_iff)
  ultimately show ?thesis using r(2) one(2) by (simp add: create_token_def demo_rotated_def)
qed

lemma demo_arrives:
  "device_step (\<lambda>k v. k @ v) [] 100000 demo_device
     (demo_device\<lparr>dv_tab := refresh_settles (Refresh_ok []) (dv_tab demo_device), dv_jar := base64url [2],
        dv_rows := demo_rotated, dv_time := 5\<rparr>)"
  using device_step.refreshed [OF _ _ _ demo_exchange, of 100000 "Refresh_ok []" "[]"]
  by (simp add: demo_device_def silentRefresh_def send_again_def move_def opened_tab_def Let_def rotated_issued_def
      generateRefreshTokenValue_def demo_draw_def)

lemma demo_goes_missing:
  "device_step (\<lambda>k v. k @ v) [] 100000 demo_device
     (demo_device\<lparr>dv_tab := refresh_settles Refresh_lost (dv_tab demo_device), dv_rows := demo_rotated, dv_time := 5,
        dv_lost := True\<rparr>)"
  using device_step.answer_lost [OF _ _ _ demo_exchange, of 100000]
  by (simp add: demo_device_def silentRefresh_def send_again_def move_def opened_tab_def Let_def)

theorem page_keeps_its_session_witness:
  "(\<exists>r \<in> set demo_rotated. rotate_token (\<lambda>k v. k @ v) [] 9 demo_draw (base64url [2]) None demo_rotated =
      rbind (create_token (rotated_row (\<lambda>k v. k @ v) [] 9 demo_draw r None) demo_rotated)
        (\<lambda>rows. Inr (Rotated (rotated_issued 9 demo_draw r) (rt_userId r), [], rows))) \<and>
   rotate_token (\<lambda>k v. k @ v) [] 9 demo_draw (base64url [1]) None demo_rotated = Inr (INVALID_REFRESH, [], demo_rotated)"
proof
  note runs = page_keeps_its_session [OF r_into_rtranclp demo_device_current, where now = 9 and dw = demo_draw and dev = None]
  show "\<exists>r \<in> set demo_rotated. rotate_token (\<lambda>k v. k @ v) [] 9 demo_draw (base64url [2]) None demo_rotated =
      rbind (create_token (rotated_row (\<lambda>k v. k @ v) [] 9 demo_draw r None) demo_rotated)
        (\<lambda>rows. Inr (Rotated (rotated_issued 9 demo_draw r) (rt_userId r), [], rows))"
    using runs [OF demo_arrives] by (auto simp: demo_device_def)
  show "rotate_token (\<lambda>k v. k @ v) [] 9 demo_draw (base64url [1]) None demo_rotated = Inr (INVALID_REFRESH, [], demo_rotated)"
  proof -
    from runs [OF demo_goes_missing] obtain r s where "s \<in> set demo_rotated" "rt_rotatedFrom s = Some (rt_id r)"
      "rotate_token (\<lambda>k v. k @ v) [] 9 demo_draw (base64url [1]) None demo_rotated =
        (if 9 \<le> rt_createdAt s + 60000 then Inr (INVALID_REFRESH, [], demo_rotated)
         else Inr (INVALID_REFRESH, [(Ev_auth_refresh_reuse_detected, reuse_payload r None)],
                revoke_where (\<lambda>x. rt_familyId x = rt_familyId r) 9 demo_rotated))"
      by (auto simp: demo_device_def)
    moreover have "rt_createdAt x = 0 \<or> rt_createdAt x = 5" if "x \<in> set demo_rotated" for x
      using that by (auto simp: demo_rotated_def demo_device_def login_row_def rotated_row_def demo_draw_def)
    ultimately show ?thesis by fastforce
  qed
qed

section \<open>What a request carries\<close>

text \<open>
  The tier of the user sends no organization, whatever the caller put into the request; the tier of an
  organization sends the one it was made for and no other; the bearer token is the page's current one.
\<close>

lemma same_header_refl [simp]: "same_header n n"
  by (simp add: same_header_def)

lemma other_header_kept:
  assumes "\<not> same_header m n"
  shows "filter (\<lambda>h. same_header (fst h) n) (filter (\<lambda>h. \<not> same_header (fst h) m) hs) =
    filter (\<lambda>h. same_header (fst h) n) hs"
  unfolding filter_filter using assms by (intro filter_cong) (auto simp: same_header_def)

lemma values_set_other: "\<not> same_header m n \<Longrightarrow> header_values n (setHeader m v hs) = header_values n hs"
  by (simp add: header_values_def setHeader_def other_header_kept del: filter_filter)

lemma values_delete: "header_values n (delete_header m hs) = (if same_header m n then [] else header_values n hs)"
proof (cases "same_header m n")
  case True
  then show ?thesis by (auto simp: header_values_def delete_header_def same_header_def filter_empty_conv)
qed (simp add: header_values_def delete_header_def other_header_kept del: filter_filter)

lemma transport_headers:
  "header_values ORG_HEADER (attempt_headers None token hs) = []"
  "header_values ORG_HEADER (attempt_headers (Some o') token hs) = [o']"
  "header_values (js ''Authorization'') (attempt_headers org token hs) =
     (case token of Some t \<Rightarrow> if t \<noteq> [] then [js ''Bearer '' @ t] else [] | None \<Rightarrow> [])"
  by (auto simp: attempt_headers_def Let_def values_set_other values_delete setHeader_values ORG_HEADER_def
      same_header_def ascii_lower_def js_def split: option.split)

text \<open>The outcomes of a request with a refresh.\<close>

lemma request_outcomes:
  assumes "requestWithRefresh request refresh expiry p = (r, p')"
  shows "(\<exists>first q. request p = (Inr first, q) \<and> (wa_status first \<noteq> 401 \<or> \<not> expiry first) \<and> r = Inr first \<and> p' = q) \<or>
    (\<exists>e. r = Inl e) \<or>
    (\<exists>first q u second. request p = (Inr first, q) \<and> refresh q = (Inr True, u) \<and> request u = (Inr second, p') \<and>
       r = Inr second \<and> \<not> (wa_status second = 401 \<and> expiry second))"
proof (cases r)
  case (Inr second)
  with assms show ?thesis
    by (auto simp: requestWithRefresh_def cbind_def creturn_def creject_def split: prod.splits sum.splits if_splits)
qed blast

text \<open>An unknown path is never sent.\<close>

lemma allowed_path: "path \<notin> set AUTH_PATHS \<Longrightarrow> \<exists>e. rawRequest B path m b opts p = (Inl e, p)"
  by (auto simp: rawRequest_def Let_def split: sum.splits)

section \<open>A held invitation\<close>

lemma held_once: "fst (takeInviteToken later (snd (takeInviteToken now held))) = None"
  by (simp add: takeInviteToken_def)

lemma held_half_an_hour:
  "token \<noteq> [] \<Longrightarrow> fst (takeInviteToken later (holdInviteToken token now held)) = (if later < now + 1800000 then Some token else None)"
  by (simp add: takeInviteToken_def holdInviteToken_def HOLD_MS_def)

lemma journey_end_drops:
  "app_held (app_run (es @ [EndSession])) = None" "app_held (app_run (es @ [OpenedLink])) = None"
  "\<not> isInviteJourneyRoute pathname \<Longrightarrow> app_held (app_run (es @ [Navigated pathname])) = None"
  by (simp_all add: app_run_def app_step_def dropPendingInvite_def)

end
