(* ===== verification/WebOrg.thy ===== *)
theory WebOrg
  imports OrgProfileService InvitationLifecycle
begin

text \<open>
  What the screens of an organization decide (\<open>apps/web/src/features/org\<close>, \<open>lib/org\<close>): which actions a row
  of the member list offers, which roles may be handed out, what the tax card shows, what a row says about
  its invitation, and the two values that are shown once and dropped. The rows are the ones the API answers
  with. Texts of the interface are represented by their entry, with what is inserted into them.
\<close>

section \<open>Capabilities in the browser\<close>

text \<open>The set of capabilities is the list it was made from.\<close>

definition can :: "jstring list \<Rightarrow> jstring \<Rightarrow> bool" where
  "can capabilities capability = hasCapability capabilities capability"

section \<open>Actions on a member\<close>

record MemberActionInput =
  mai_myCapabilities :: "jstring list"
  mai_targetIsOwner :: bool
  mai_isSelf :: bool
  mai_targetStatus :: MembershipStatus

record MemberActions =
  act_changeRole :: bool
  act_removeFromOrg :: bool
  act_leaveOrg :: bool
  act_ownerOnlyNotice :: bool

definition NO_ACTIONS :: MemberActions where
  "NO_ACTIONS = \<lparr>act_changeRole = False, act_removeFromOrg = False, act_leaveOrg = False,
     act_ownerOnlyNotice = False\<rparr>"

definition isOwner :: "jstring list \<Rightarrow> bool" where
  "isOwner capabilities \<longleftrightarrow> list_ex (\<lambda>c. c = CAPABILITY_FULL_ACCESS) capabilities"

definition memberActionsFor :: "MemberActionInput \<Rightarrow> MemberActions" where
  "memberActionsFor input =
     (if mai_targetStatus input \<noteq> MActive then NO_ACTIONS
      else (let iAmOwner = isOwner (mai_myCapabilities input); targetIsOwner = mai_targetIsOwner input in
        if mai_isSelf input then
          \<lparr>act_changeRole = True, act_removeFromOrg = False, act_leaveOrg = True, act_ownerOnlyNotice = False\<rparr>
        else if targetIsOwner \<and> \<not> iAmOwner then NO_ACTIONS\<lparr>act_ownerOnlyNotice := True\<rparr>
        else \<lparr>act_changeRole = True, act_removeFromOrg = True, act_leaveOrg = False, act_ownerOnlyNotice = False\<rparr>))"

definition assignableRoles :: "RoleRow list \<Rightarrow> jstring list \<Rightarrow> jstring list \<Rightarrow> RoleRow list" where
  "assignableRoles roles myCapabilities ownerRoleIds =
     (if isOwner myCapabilities then roles
      else filter (\<lambda>role. \<not> List.member ownerRoleIds (rl_id role)) roles)"

text \<open>The members screen: the roles that grant ownership, and the actions of a row.\<close>

definition ownerRoleIds :: "RoleRow list \<Rightarrow> jstring list \<Rightarrow> jstring \<Rightarrow> jstring list" where
  "ownerRoleIds roles myCapabilities myRoleId =
     map rl_id (filter (\<lambda>role. rl_grantsOwnership role) roles) @
     (if isOwner myCapabilities \<and> myRoleId \<noteq> [] then [myRoleId] else [])"

definition row_actions :: "jstring list \<Rightarrow> MemberRow \<Rightarrow> MemberActions" where
  "row_actions capabilities member =
     memberActionsFor \<lparr>mai_myCapabilities = capabilities, mai_targetIsOwner = mr_isOwner member,
       mai_isSelf = mr_isMe member, mai_targetStatus = mr_status member\<rparr>"

section \<open>The tax card\<close>

datatype TaxCardView =
    Card_undeclared bool
  | Card_summary "bool option"
  | Card_details "jstring option" "jstring option" "bool option" "jstring option"

definition taxCardView :: "OrgProfileView \<Rightarrow> jstring list \<Rightarrow> TaxCardView" where
  "taxCardView profile capabilities =
     (let canEdit = can capabilities CAPABILITY_MANAGE_ORG_SETTINGS in
      if \<not> opw_taxProfileComplete profile then Card_undeclared canEdit
      else (let view = opw_taxProfile profile in
        if \<not> canEdit then Card_summary (Option.bind view tpv_vatRegistered)
        else Card_details (Option.bind view tpv_entityType) (Option.bind view tpv_taxIdMasked)
               (Option.bind view tpv_vatRegistered) (Option.bind view tpv_branchCode)))"

record OnboardingItems =
  onb_inviteTeam :: bool
  onb_declareTax :: bool
  onb_inviteBackupOwner :: bool

definition onboardingItems :: "OrgProfileView \<Rightarrow> jstring list \<Rightarrow> OnboardingItems option" where
  "onboardingItems profile capabilities =
     (if \<not> can capabilities CAPABILITY_MANAGE_ORG_SETTINGS then None
      else (let items =
              \<lparr>onb_inviteTeam = (opc_activeMembers (opw_counts profile) = 1),
               onb_declareTax = (\<not> opw_taxProfileComplete profile),
               onb_inviteBackupOwner = (List.member capabilities CAPABILITY_FULL_ACCESS \<and>
                                        opc_activeMembers (opw_counts profile) = 1)\<rparr>
            in if onb_inviteTeam items \<or> onb_declareTax items \<or> onb_inviteBackupOwner items
               then Some items else None))"

section \<open>Values shown once\<close>

datatype RevealState = REVEAL_HIDDEN | REVEAL_LOADING | Reveal_shown jstring jstring | REVEAL_ERROR

definition toggleReveal :: "RevealState \<Rightarrow> RevealState" where
  "toggleReveal state = (case state of Reveal_shown _ _ \<Rightarrow> REVEAL_HIDDEN | _ \<Rightarrow> REVEAL_LOADING)"

definition pressRequestsReveal :: "RevealState \<Rightarrow> bool" where
  "pressRequestsReveal state \<longleftrightarrow>
     (case state of Reveal_shown _ _ \<Rightarrow> False | REVEAL_LOADING \<Rightarrow> False | _ \<Rightarrow> True)"

definition visibleTaxId :: "RevealState \<Rightarrow> jstring option" where
  "visibleTaxId state = (case state of Reveal_shown taxId _ \<Rightarrow> Some taxId | _ \<Rightarrow> None)"

datatype InviteLinkState = INVITE_LINK_CLOSED | Link_open jstring jstring jstring bool

definition openInviteLink :: "jstring \<Rightarrow> jstring \<Rightarrow> jstring \<Rightarrow> InviteLinkState" where
  "openInviteLink url email expiresAt = Link_open url email expiresAt False"

definition closeInviteLink :: "InviteLinkState" where "closeInviteLink = INVITE_LINK_CLOSED"

definition markCopied :: "InviteLinkState \<Rightarrow> InviteLinkState" where
  "markCopied state = (case state of Link_open u e x _ \<Rightarrow> Link_open u e x True | _ \<Rightarrow> state)"

datatype ButtonVariant = Button_primary | Button_secondary

definition closeButtonVariant :: "InviteLinkState \<Rightarrow> ButtonVariant" where
  "closeButtonVariant state = (case state of Link_open _ _ _ True \<Rightarrow> Button_primary | _ \<Rightarrow> Button_secondary)"

definition visibleInviteUrl :: "InviteLinkState \<Rightarrow> jstring option" where
  "visibleInviteUrl state = (case state of Link_open u _ _ _ \<Rightarrow> Some u | _ \<Rightarrow> None)"

section \<open>The end of an invitation\<close>

text \<open>\<open>Math.round\<close> of a quotient of integers with a positive divisor: halves are rounded up.\<close>

definition round_div :: "int \<Rightarrow> int \<Rightarrow> int" where
  "round_div a b = (2 * a + b) div (2 * b)"

definition HOUR_MS :: int where "HOUR_MS = 3600000"
definition DAY_MS :: int where "DAY_MS = 24 * HOUR_MS"

datatype Remaining = Remaining_over | Remaining_days int | Remaining_hours int | Remaining_minutes int

text \<open>\<open>other\<close> answers \<open>Date.parse\<close> of the texts that are no ISO instants.\<close>

definition formatRemaining :: "(jstring \<Rightarrow> int option) \<Rightarrow> jstring \<Rightarrow> int \<Rightarrow> Remaining" where
  "formatRemaining other expiresAt now =
     (case Date_parse other expiresAt of
        None \<Rightarrow> Remaining_over
      | Some t \<Rightarrow>
          (let ms = t - now in
           if ms \<le> 0 then Remaining_over
           else if ms \<ge> DAY_MS then Remaining_days (round_div ms DAY_MS)
           else if ms \<ge> HOUR_MS then Remaining_hours (round_div ms HOUR_MS)
           else Remaining_minutes (max 1 (round_div ms 60000))))"

text \<open>The expiry line names the instant and what remains; an unreadable instant gives the empty text.\<close>

definition formatExpiry :: "(jstring \<Rightarrow> int option) \<Rightarrow> jstring \<Rightarrow> int \<Rightarrow> (int \<times> Remaining) option" where
  "formatExpiry other expiresAt now =
     map_option (\<lambda>t. (t, formatRemaining other expiresAt now)) (Date_parse other expiresAt)"

datatype InvitationLabel = Label_acceptedAt int | Label_accepted | Label_cancelled | Label_expired | Label_waiting

definition invitationStatusLabel :: "(jstring \<Rightarrow> int option) \<Rightarrow> InvitationRow \<Rightarrow> int \<Rightarrow> InvitationLabel" where
  "invitationStatusLabel other invitation now =
     (case ir_status invitation of
        RAccepted \<Rightarrow>
          (case ir_acceptedAt invitation of
             None \<Rightarrow> Label_accepted
           | Some text \<Rightarrow>
               if text = [] then Label_accepted
               else (case Date_parse other text of None \<Rightarrow> Label_accepted | Some t \<Rightarrow> Label_acceptedAt t))
      | RCancelled \<Rightarrow> Label_cancelled
      | RExpired \<Rightarrow> Label_expired
      | RPending \<Rightarrow>
          (case Date_parse other (ir_expiresAt invitation) of
             Some t \<Rightarrow> if t \<le> now then Label_expired else Label_waiting
           | None \<Rightarrow> Label_waiting))"

definition isInvitationLinkLive :: "(jstring \<Rightarrow> int option) \<Rightarrow> InvitationRow \<Rightarrow> int \<Rightarrow> bool" where
  "isInvitationLinkLive other invitation now =
     (if ir_status invitation \<noteq> RPending then False
      else (case Date_parse other (ir_expiresAt invitation) of None \<Rightarrow> False | Some t \<Rightarrow> t > now))"

section \<open>The forms of the sign-in pages\<close>

definition EMAIL_RE :: "jstring \<Rightarrow> bool" where
  "EMAIL_RE s \<longleftrightarrow>
     \<not> list_ex is_space s \<and>
     (case split_on char_at s of
        [local, domain] \<Rightarrow> local \<noteq> [] \<and> List.member (butlast (tl domain)) char_dot
      | _ \<Rightarrow> False)"

definition client_isValidEmailShape :: "jstring \<Rightarrow> bool" where
  "client_isValidEmailShape email = EMAIL_RE (trim email)"

definition isPasswordLongEnough :: "jstring \<Rightarrow> bool" where
  "isPasswordLongEnough password \<longleftrightarrow> length (code_points password) \<ge> 8"

section \<open>The keys of the cache\<close>

definition orgRootKey :: "jstring \<Rightarrow> jsv list" where
  "orgRootKey orgId = [JStr (js ''org''), JStr orgId]"

definition orgKey :: "jstring \<Rightarrow> jsv list \<Rightarrow> jsv list" where
  "orgKey orgId rest = orgRootKey orgId @ rest"

definition MY_ORGANIZATIONS_KEY :: "jsv list" where
  "MY_ORGANIZATIONS_KEY = [JStr (js ''me''), JStr (js ''organizations'')]"

section \<open>Facts\<close>

lemma isOwner_iff: "isOwner caps \<longleftrightarrow> isOwnerRole caps"
  by (auto simp: isOwner_def isOwnerRole_iff list_ex_iff)

lemma card_hides_digits:
  "\<not> hasCapability capabilities CAPABILITY_MANAGE_ORG_SETTINGS \<Longrightarrow>
     taxCardView profile capabilities \<in>
       {Card_undeclared False, Card_summary (Option.bind (opw_taxProfile profile) tpv_vatRegistered)}"
  by (simp add: taxCardView_def can_def Let_def)

lemma hidden_value_is_gone:
  "visibleTaxId (toggleReveal (Reveal_shown taxId at')) = None"
  "visibleInviteUrl closeInviteLink = None"
  "visibleInviteUrl (markCopied state) = visibleInviteUrl state"
  by (simp_all add: toggleReveal_def visibleTaxId_def closeInviteLink_def visibleInviteUrl_def markCopied_def
      split: InviteLinkState.split)

lemma org_keys_separate:
  "orgKey a rest = orgKey b rest' \<longleftrightarrow> a = b \<and> rest = rest'" "orgKey a rest \<noteq> MY_ORGANIZATIONS_KEY"
  by (simp_all add: orgKey_def orgRootKey_def MY_ORGANIZATIONS_KEY_def)

text \<open>What a label announces is never zero, and never more than half a unit away.\<close>

lemma round_div_near:
  assumes "0 < b"
  shows "2 * (b * round_div a b) \<le> 2 * a + b" "2 * a + b < 2 * (b * round_div a b) + 2 * b"
proof -
  have e: "2 * a + b = (2 * b) * round_div a b + (2 * a + b) mod (2 * b)"
    unfolding round_div_def by (rule mult_div_mod_eq [symmetric])
  have m: "0 \<le> (2 * a + b) mod (2 * b)" "(2 * a + b) mod (2 * b) < 2 * b" using assms by simp_all
  from e m show "2 * (b * round_div a b) \<le> 2 * a + b" "2 * a + b < 2 * (b * round_div a b) + 2 * b"
    by (simp_all add: algebra_simps)
qed

lemma round_div_pos: "0 < b \<Longrightarrow> b \<le> a \<Longrightarrow> 1 \<le> round_div a b"
  using round_div_near(2) [of b a] by (smt (verit) mult_less_cancel_left_pos mult_le_0_iff)

lemma remaining_positive:
  "formatRemaining other text now = Remaining_days n \<Longrightarrow> 1 \<le> n"
  "formatRemaining other text now = Remaining_hours n \<Longrightarrow> 1 \<le> n"
  "formatRemaining other text now = Remaining_minutes n \<Longrightarrow> 1 \<le> n"
  by (auto simp: formatRemaining_def Let_def DAY_MS_def HOUR_MS_def round_div_pos split: option.splits if_splits)

lemma row_fields:
  "ir_status (toRow s now) = resolveInvitationStatus (inv_status (sel_row s)) (inv_expiresAt (sel_row s)) now"
  "ir_expiresAt (toRow s now) = toISOString (inv_expiresAt (sel_row s))"
  by (simp_all add: toRow_def toInvitationRow_def Let_def)

lemma accepted_label:
  "ir_status i = RAccepted \<Longrightarrow> invitationStatusLabel other i now \<notin> {Label_waiting, Label_expired}"
  by (simp add: invitationStatusLabel_def split: option.split)

section \<open>Theorems\<close>

text \<open>
  C30: a row of the list of invitations ages with the clock. Take a row the API answered with at one time,
  shown at any later time, and the invitation \<open>x\<close> stored at that later time, whose status and expiry are still
  those the answer was made from. Then the row says live exactly when \<open>x\<close> is pending and not expired at the
  time of showing, which is exactly when an acceptance is not refused for the state of \<open>x\<close>, and its label says
  waiting, or expired, when that is the state of \<open>x\<close>, without asking the API again. The side condition is
  needed: an invitation cancelled, accepted or given a new link after the answer is shown as it was answered,
  until the list is read again.
\<close>

theorem shown_link_state_is_current:
  assumes "\<bar>inv_expiresAt (sel_row s)\<bar> \<le> MAX_TIME" and "answered \<le> now"
    and "inv_status x = inv_status (sel_row s)" and "inv_expiresAt x = inv_expiresAt (sel_row s)"
  shows "(isInvitationLinkLive other (toRow s answered) now \<longleftrightarrow>
      resolveInvitationStatus (inv_status x) (inv_expiresAt x) now = RPending) \<and>
    (isInvitationLinkLive other (toRow s answered) now \<longleftrightarrow>
      (\<forall>m r. canAcceptInvitation
         \<lparr>cai_invitation = \<lparr>ai_status = inv_status x, ai_expiresAt = inv_expiresAt x, ai_tokenIssuedAt = inv_tokenIssuedAt x\<rparr>,
          cai_membership = m, cai_roleExistsInOrg = r, cai_now = now\<rparr>
        \<notin> {AccExpired, AccCancelled, AccAlreadyAccepted})) \<and>
    (invitationStatusLabel other (toRow s answered) now = Label_waiting \<longleftrightarrow>
      resolveInvitationStatus (inv_status x) (inv_expiresAt x) now = RPending) \<and>
    (invitationStatusLabel other (toRow s answered) now = Label_expired \<longleftrightarrow>
      resolveInvitationStatus (inv_status x) (inv_expiresAt x) now = RExpired)"
proof -
  note d = Date_parse_toISOString [OF assms(1), of other]
  let ?y = "sel_row s"
  have live: "isInvitationLinkLive other (toRow s answered) now \<longleftrightarrow>
      inv_status ?y = SPending \<and> now < inv_expiresAt ?y"
    using assms(2) by (cases "inv_status ?y") (auto simp: isInvitationLinkLive_def row_fields d)
  have label: "invitationStatusLabel other (toRow s answered) now = Label_waiting \<longleftrightarrow>
      inv_status ?y = SPending \<and> now < inv_expiresAt ?y"
    "invitationStatusLabel other (toRow s answered) now = Label_expired \<longleftrightarrow>
      inv_status ?y = SExpired \<or> inv_status ?y = SPending \<and> inv_expiresAt ?y \<le> now"
  proof -
    show "invitationStatusLabel other (toRow s answered) now = Label_waiting \<longleftrightarrow>
      inv_status ?y = SPending \<and> now < inv_expiresAt ?y"
      using assms(2) accepted_label [of "toRow s answered" other now]
      by (cases "inv_status ?y") (simp_all add: row_fields invitationStatusLabel_def d)
    show "invitationStatusLabel other (toRow s answered) now = Label_expired \<longleftrightarrow>
      inv_status ?y = SExpired \<or> inv_status ?y = SPending \<and> inv_expiresAt ?y \<le> now"
      using assms(2) accepted_label [of "toRow s answered" other now]
      by (cases "inv_status ?y") (simp_all add: row_fields invitationStatusLabel_def d)
  qed
  have accept: "canAcceptInvitation
      \<lparr>cai_invitation = \<lparr>ai_status = inv_status x, ai_expiresAt = inv_expiresAt x, ai_tokenIssuedAt = inv_tokenIssuedAt x\<rparr>,
        cai_membership = m, cai_roleExistsInOrg = r, cai_now = now\<rparr> \<in> {AccExpired, AccCancelled, AccAlreadyAccepted} \<longleftrightarrow>
      \<not> (inv_status ?y = SPending \<and> now < inv_expiresAt ?y)" for m r
    unfolding assms(3,4)
    by (cases "inv_status ?y"; cases m) (simp_all add: canAcceptInvitation_def Let_def split: option.split)
  show ?thesis unfolding live label accept unfolding assms(3,4) by (cases "inv_status ?y") auto
qed

text \<open>The side condition is needed: the row of an invitation cancelled after the answer still says live.\<close>

lemma stale_row_says_live:
  assumes "\<bar>inv_expiresAt (sel_row s)\<bar> \<le> MAX_TIME" and "answered \<le> now"
    and "inv_status (sel_row s) = SPending" and "now < inv_expiresAt (sel_row s)"
    and "x = (sel_row s)\<lparr>inv_status := SCancelled, inv_cancelledAt := Some now\<rparr>"
  shows "isInvitationLinkLive other (toRow s answered) now \<and>
    resolveInvitationStatus (inv_status x) (inv_expiresAt x) now = RCancelled"
  using assms Date_parse_toISOString [OF assms(1), of other]
  by (simp add: isInvitationLinkLive_def row_fields)

section \<open>The menu and the server\<close>

definition forbidden :: "Thrown + 'a \<Rightarrow> bool" where
  "forbidden r \<longleftrightarrow> (case r of Inl e \<Rightarrow> code_of e = Some E_FORBIDDEN | Inr _ \<Rightarrow> False)"

lemma forbidden_simps [simp]:
  "forbidden (Inl e) \<longleftrightarrow> code_of e = Some E_FORBIDDEN" "\<not> forbidden (Inr x)"
  by (simp_all add: forbidden_def)

lemma in_org_forbidden:
  assumes "may_run env c o' u db"
  shows "forbidden (fst (in_org_transaction env (Some c) operation body finish db)) \<longleftrightarrow> forbidden (body o' u db)"
proof (cases "body o' u db")
  case (Inl e)
  then show ?thesis by (simp add: in_org_refuses [OF assms, where body = body, OF Inl])
next
  case (Inr p)
  obtain x db' where p: "p = (x, db')" by (cases p)
  then show ?thesis using Inr by (simp add: in_org_succeeds [OF assms, where body = body, OF Inr [unfolded p]])
qed

lemma owner_guard_code: "forbidden (rbind (assertOwnerRemainsInTx o' change db) k) \<Longrightarrow> \<exists>x. forbidden (k x)"
  by (auto simp: assertOwnerRemainsInTx_def rbind_def split: sum.splits)

lemma driver_codes: "code_of (prisma_error k) = None" "code_of inconsistent_relation = None"
  by (simp_all add: prisma_error_def inconsistent_relation_def error_named_def)

lemma forbidden_bind: "forbidden (rbind r k) \<longleftrightarrow> forbidden r \<or> (\<exists>x. r = Inr x \<and> forbidden (k x))"
  by (cases r) auto

lemma update_code: "\<not> forbidden (update_membership o' t f db)"
  by (simp add: update_membership_def write_memberships_def driver_codes)

lemma select_code: "\<not> forbidden (select_decision db m)"
  by (simp add: select_decision_def driver_codes split: option.split)

lemma guard_code: "\<not> forbidden (assertOwnerRemainsInTx o' change db)"
  by (simp add: assertOwnerRemainsInTx_def split: sum.split)

lemma outcome_code: "\<not> forbidden (role_change_outcome o' a t from r db)"
  by (simp add: role_change_outcome_def driver_codes forbidden_bind select_code split: option.split)

lemma updateRole_tx_forbidden:
  assumes "readActiveMembership o' t db = Inr (Some d)" and "readActorCapabilities o' u db = Inr caps"
    and "find_scoped role_org o' (\<lambda>x. role_id x = r) (db_roles db) = Some nr"
  shows "forbidden (updateRole_tx o' u t r db) \<longleftrightarrow> \<not> canAssignRole \<lparr>car_actorCapabilities = caps,
    car_targetIsOwner = isOwnerRole (role_capabilities (md_role d)),
    car_newRoleIsOwner = isOwnerRole (role_capabilities nr)\<rparr>"
  using assms by (simp add: updateRole_tx_def forbidden_bind guard_code update_code outcome_code)

lemma revoke_tx_forbidden:
  assumes "readActiveMembership o' t db = Inr (Some d)" and "readActorCapabilities o' u db = Inr caps"
    and "\<not> forbidden (writeRevocation now o' t (md_email d) u db)"
  shows "forbidden (revoke_tx now o' u t db) \<longleftrightarrow> \<not> canAssignRole \<lparr>car_actorCapabilities = caps,
    car_targetIsOwner = isOwnerRole (role_capabilities (md_role d)), car_newRoleIsOwner = False\<rparr>"
  using assms by (simp add: revoke_tx_def forbidden_bind guard_code)

lemma role_listed:
  assumes "db_ok db" and "listRoles (Some c) db = Inr (items, cursor)" and "trimmed (ctx_organizationId c)"
    and "ctx_organizationId c \<noteq> []" and "item \<in> set items" and "\<not> isOwner caps"
  obtains r where "find_scoped role_org (ctx_organizationId c) (\<lambda>x. role_id x = rl_id item) (db_roles db) = Some r"
    and "List.member (ownerRoleIds items caps mine) (rl_id item) \<longleftrightarrow> isOwnerRole (role_capabilities r)"
proof -
  let ?o = "ctx_organizationId c"
  from roles_listed [OF assms(1) trim_trimmed [OF assms(3)] assms(4)] assms(2) have
    d: "distinct (map rl_id items)" and
    s: "set (map rl_id items) = role_id ` {r \<in> set (db_roles db). role_org r = ?o}" and
    g: "\<forall>item \<in> set items. \<forall>r \<in> set (db_roles db). role_id r = rl_id item \<longrightarrow>
       (rl_grantsOwnership item \<longleftrightarrow> CAPABILITY_FULL_ACCESS \<in> set (role_capabilities r))" by auto
  have "rl_id item \<in> set (map rl_id items)" using assms(5) by simp
  then obtain r where r: "r \<in> set (db_roles db)" "role_org r = ?o" "role_id r = rl_id item" unfolding s by auto
  have "find_scoped role_org ?o (\<lambda>x. role_id x = rl_id item) (db_roles db) = Some r"
    unfolding find_scoped_def using r assms(1)
    by (intro find_unique) (auto simp: db_ok_def roles_unique_def unique_by_def distinct_map inj_on_def)
  moreover have "List.member (ownerRoleIds items caps mine) (rl_id item) \<longleftrightarrow> rl_grantsOwnership item"
    using d assms(5,6) by (auto simp: ownerRoleIds_def distinct_map inj_on_def)
  moreover have "rl_grantsOwnership item \<longleftrightarrow> isOwnerRole (role_capabilities r)"
    using g assms(5) r by (simp add: isOwnerRole_iff)
  ultimately show thesis using that by blast
qed

text \<open>
  C29: the menu of the member list offers what the API allows. For a caller who manages members, on the
  database the lists were read from, another member's row offers the removal exactly when the API would not
  refuse it as forbidden, and a role is offered for that member exactly when the API would not refuse the
  change to it as forbidden. The browser derives both from the published bits alone, without the
  capabilities of anybody else.
\<close>

theorem menu_offers_what_is_allowed:
  assumes "db_ok db" and "may_run env c o' u db" and "trimmed o'"
    and "readActorCapabilities o' u db = Inr caps" and "hasCapability caps CAPABILITY_MANAGE_MEMBERS"
    and "readActiveMembership o' t db = Inr (Some d)" and "t \<noteq> u"
    and "listRoles (Some c) db = Inr (items, cursor)"
  shows "(act_removeFromOrg (row_actions caps (member_row_of u d)) \<longleftrightarrow> \<not> forbidden (fst (revoke env (Some c) t db))) \<and>
    (\<forall>item \<in> set items.
       act_changeRole (row_actions caps (member_row_of u d)) \<and>
         item \<in> set (assignableRoles items caps (ownerRoleIds items caps mine)) \<longleftrightarrow>
       \<not> forbidden (fst (updateRole env (Some c) t (rl_id item) db)))"
proof -
  note D = readActive_SomeD [OF assms(6)]
  have o: "ctx_organizationId c = o'" "o' \<noteq> []" using assms(2) by (auto simp: may_run_def)
  have row: "mr_isOwner (member_row_of u d) = isOwnerRole (role_capabilities (md_role d))"
    "mr_isMe (member_row_of u d) = False" "mr_status (member_row_of u d) = MActive"
    using D assms(7) by (simp_all add: member_row_of_def toMemberRow_def)
  have acts: "act_removeFromOrg (row_actions caps (member_row_of u d)) \<longleftrightarrow>
      (isOwnerRole (role_capabilities (md_role d)) \<longrightarrow> isOwnerRole caps)"
    "act_changeRole (row_actions caps (member_row_of u d)) \<longleftrightarrow>
      (isOwnerRole (role_capabilities (md_role d)) \<longrightarrow> isOwnerRole caps)"
    by (auto simp: row_actions_def memberActionsFor_def row isOwner_iff NO_ACTIONS_def Let_def)
  have can: "canAssignRole \<lparr>car_actorCapabilities = caps, car_targetIsOwner = a, car_newRoleIsOwner = b\<rparr> \<longleftrightarrow>
      (a \<or> b \<longrightarrow> isOwnerRole caps)" for a b
    using assms(5) by (auto simp: canAssignRole_iff)
  obtain rv db1 where "writeRevocation (se_now env) (mem_org (md_membership d)) (mem_userId (md_membership d))
      (md_email d) u db = Inr (rv, db1)"
    using writeRevocation_succeeds [OF assms(1) D(1) refl refl] by blast
  then have w: "\<not> forbidden (writeRevocation (se_now env) o' t (md_email d) u db)" using D by simp
  have "forbidden (fst (revoke env (Some c) t db)) \<longleftrightarrow>
      \<not> canAssignRole \<lparr>car_actorCapabilities = caps,
         car_targetIsOwner = isOwnerRole (role_capabilities (md_role d)), car_newRoleIsOwner = False\<rparr>"
    unfolding revoke_def in_org_forbidden [OF assms(2)] by (rule revoke_tx_forbidden [OF assms(6,4) w])
  then have one: "act_removeFromOrg (row_actions caps (member_row_of u d)) \<longleftrightarrow>
      \<not> forbidden (fst (revoke env (Some c) t db))"
    unfolding acts can by simp
  have two: "act_changeRole (row_actions caps (member_row_of u d)) \<and>
         item \<in> set (assignableRoles items caps (ownerRoleIds items caps mine)) \<longleftrightarrow>
       \<not> forbidden (fst (updateRole env (Some c) t (rl_id item) db))" if item: "item \<in> set items" for item
  proof -
    have f: "forbidden (fst (updateRole env (Some c) t (rl_id item) db)) \<longleftrightarrow>
        \<not> (isOwnerRole (role_capabilities (md_role d)) \<or> isOwnerRole (role_capabilities r) \<longrightarrow> isOwnerRole caps)"
      if "find_scoped role_org o' (\<lambda>x. role_id x = rl_id item) (db_roles db) = Some r" for r
      unfolding updateRole_def in_org_forbidden [OF assms(2)] updateRole_tx_forbidden [OF assms(6,4) that] can ..
    obtain r where r: "find_scoped role_org o' (\<lambda>x. role_id x = rl_id item) (db_roles db) = Some r"
      and m: "\<not> isOwner caps \<longrightarrow> (List.member (ownerRoleIds items caps mine) (rl_id item) \<longleftrightarrow>
        isOwnerRole (role_capabilities r))"
    proof -
      have n: "\<not> isOwner []" by (simp add: isOwner_def)
      note listed = role_listed [OF assms(1,8), unfolded o, OF assms(3) o(2) item, where mine = mine]
      show thesis
      proof (cases "isOwner caps")
        case True
        from listed [OF n] that True show thesis by blast
      next
        case False
        from listed [OF False] that show thesis by blast
      qed
    qed
    show ?thesis unfolding acts f [OF r] using m item by (auto simp: assignableRoles_def isOwner_iff)
  qed
  from one two show ?thesis by blast
qed

theorem menu_offers_what_is_allowed_witness:
  "\<exists>items cursor. listRoles (Some (demo_ctx ''bob'')) demo_db = Inr (items, cursor) \<and>
    (\<forall>item \<in> set items. forbidden (fst (updateRole demo_env (Some (demo_ctx ''bob'')) (js ''ann'') (rl_id item) demo_db)))"
proof -
  let ?a = "demo_member ''m1'' ''ann'' ''r1'' MActive None" and ?b = "demo_member ''m2'' ''bob'' ''r2'' MActive None"
  have m: "?a \<in> set (db_memberships demo_db)" "?b \<in> set (db_memberships demo_db)"
    "mem_org ?a = js ''o1''" "mem_userId ?a = js ''ann''" "mem_org ?b = js ''o1''" "mem_userId ?b = js ''bob''"
    "mem_status ?a = MActive" "mem_status ?b = MActive" by (simp_all add: demo_db_def demo_member_def)
  from readActive_ok [OF demo_db_ok m(1,7)] obtain d where
    d: "readActiveMembership (js ''o1'') (js ''ann'') demo_db = Inr (Some d)" "md_membership d = ?a"
    unfolding m(3,4) by blast
  from readActive_ok [OF demo_db_ok m(2,8)] obtain e where
    e: "readActiveMembership (js ''o1'') (js ''bob'') demo_db = Inr (Some e)" "md_membership e = ?b"
    unfolding m(5,6) by blast
  have "member_role demo_db ?a = Some (demo_role ''r1'' ''Owner'' ''owner'' [CAPABILITY_FULL_ACCESS])"
    "member_role demo_db ?b = Some (demo_role ''r2'' ''Admin'' ''admin'' [CAPABILITY_MANAGE_MEMBERS])"
    by (simp_all add: member_role_def demo_db_def demo_rows)
  then have r: "md_role d = demo_role ''r1'' ''Owner'' ''owner'' [CAPABILITY_FULL_ACCESS]"
    "md_role e = demo_role ''r2'' ''Admin'' ''admin'' [CAPABILITY_MANAGE_MEMBERS]"
    using readActive_SomeD(5) [OF d(1)] readActive_SomeD(5) [OF e(1)] by (simp_all add: d(2) e(2))
  have rd: "role_capabilities (md_role d) = [CAPABILITY_FULL_ACCESS]" "role_capabilities (md_role e) = [CAPABILITY_MANAGE_MEMBERS]"
    by (simp_all add: r demo_role_def)
  have caps: "readActorCapabilities (js ''o1'') (js ''bob'') demo_db = Inr [CAPABILITY_MANAGE_MEMBERS]"
    by (simp add: readActorCapabilities_def e(1) rd)
  obtain items cursor where l: "listRoles (Some (demo_ctx ''bob'')) demo_db = Inr (items, cursor)"
    using roles_listed [OF demo_db_ok, of "demo_ctx ''bob''" "js ''o1''"] by (auto simp: trim_o1)
  have tr: "trimmed (js ''o1'')" using trimmed_trim [of "js ''o1''"] by (simp add: trim_o1)
  have "\<not> act_changeRole (row_actions [CAPABILITY_MANAGE_MEMBERS] (member_row_of (js ''bob'') d))"
    using d(2) rd(1) by (simp add: row_actions_def memberActionsFor_def member_row_of_def toMemberRow_def demo_member_def
        isOwnerRole_iff isOwner_def NO_ACTIONS_def)
  with menu_offers_what_is_allowed [OF demo_db_ok demo_may_run tr caps _ d(1) _ l] l show ?thesis
    by (auto simp: hasCapability_iff)
qed

definition demo_selected :: InvitationSelected where
  "demo_selected =
     \<lparr>sel_row = demo_invitation, sel_role = demo_role ''r2'' ''Admin'' ''admin'' [CAPABILITY_MANAGE_MEMBERS]\<rparr>"

theorem shown_link_state_is_current_witness:
  "isInvitationLinkLive (\<lambda>_. None) (toRow demo_selected 0) (inv_expiresAt demo_invitation - 1) \<and>
   \<not> isInvitationLinkLive (\<lambda>_. None) (toRow demo_selected 0) (inv_expiresAt demo_invitation)"
proof -
  have b: "\<bar>inv_expiresAt (sel_row demo_selected)\<bar> \<le> MAX_TIME"
    "0 \<le> inv_expiresAt demo_invitation - 1" "inv_status demo_invitation = SPending"
    "sel_row demo_selected = demo_invitation"
    by (simp_all add: demo_selected_def demo_invitation_def MAX_TIME_def)
  have same: "inv_status demo_invitation = inv_status (sel_row demo_selected)"
    "inv_expiresAt demo_invitation = inv_expiresAt (sel_row demo_selected)"
    by (simp_all add: b(4))
  have "0 \<le> inv_expiresAt demo_invitation" using b(2) by simp
  note shown = shown_link_state_is_current [OF b(1) b(2) same, THEN conjunct1, of "\<lambda>_. None"]
    shown_link_state_is_current [OF b(1) this same, THEN conjunct1, of "\<lambda>_. None"]
  show ?thesis unfolding shown by (simp add: b(3))
qed

text \<open>The form lets through every address the API accepts, and every password it does not call short.\<close>

lemma inner_dot:
  assumes "x \<in> set d" and "hd d \<noteq> x" and "last d \<noteq> x"
  shows "x \<in> set (butlast (tl d))"
proof (cases d)
  case (Cons y ys)
  with assms(1,2) have x: "x \<in> set ys" by auto
  then show ?thesis using Cons assms(3) by (cases ys rule: rev_cases) auto
qed (use assms in simp)

lemma client_checks_are_weaker:
  "isValidEmailShape s \<Longrightarrow> EMAIL_RE s"
  "isPasswordLongEnough p \<longleftrightarrow> checkPasswordPolicy lower raw p f \<noteq> Inl PASSWORD_TOO_SHORT"
proof -
  show "isPasswordLongEnough p \<longleftrightarrow> checkPasswordPolicy lower raw p f \<noteq> Inl PASSWORD_TOO_SHORT"
    by (auto simp: isPasswordLongEnough_def checkPasswordPolicy_def PASSWORD_MIN_LENGTH_def Let_def)
  assume v: "isValidEmailShape s"
  then obtain k where k: "index_of char_at s = Some k" "k \<noteq> 0" and sp: "\<not> list_ex is_space s"
    and d: "index_of char_at (drop (Suc k) s) = None" "char_dot \<in> set (drop (Suc k) s)"
      "hd (drop (Suc k) s) \<noteq> char_dot" "last (drop (Suc k) s) \<noteq> char_dot"
    by (auto simp: isValidEmailShape_def Let_def split: option.splits if_splits)
  from k have s: "s = take k s @ char_at # drop (Suc k) s" "char_at \<notin> set (take k s)" "take k s \<noteq> []"
    using index_of_SomeD [OF k(1)] id_take_nth_drop [of k s] by auto
  have "split_on char_at s = [take k s, drop (Suc k) s]"
    using split_on_append [OF s(2), of "drop (Suc k) s"] split_on_absent [of char_at "drop (Suc k) s"] d(1) s(1)
    by (simp add: index_of_None_iff)
  with sp s(3) inner_dot [OF d(2-4)] show "EMAIL_RE s" by (simp add: EMAIL_RE_def)
qed

end
