(* ===== verification/WebForms.thy ===== *)
theory WebForms
  imports WebSession WebOrg
begin

text \<open>
  The forms of the sign-in pages and the list of devices (\<open>apps/web/src/app/login\<close>, \<open>app/signup\<close>,
  \<open>features/auth/components\<close>, \<open>hooks/use-throttle-countdown.ts\<close>, \<open>lib/throttle-countdown.ts\<close>,
  \<open>lib/error-messages.ts\<close>), the sign-out of the shell, and the link of an invitation
  (\<open>features/invite/invite-token.ts\<close>, \<open>use-invite-token.ts\<close>). A form is a record of the states its component
  keeps; a handler is split at the answer it waits for. The texts are represented by their entry.
\<close>

section \<open>The countdown\<close>

fun num_ceil :: "jsnum \<Rightarrow> jsnum" where
  "num_ceil (Fin q) = Fin (of_int \<lceil>q\<rceil>)"
| "num_ceil x = x"

text \<open>\<open>Math.max(0, x)\<close>.\<close>

fun max_zero :: "jsnum \<Rightarrow> jsnum" where
  "max_zero (Fin q) = Fin (max 0 q)"
| "max_zero NegInf = Fin 0"
| "max_zero x = x"

fun num_dec :: "jsnum \<Rightarrow> jsnum" where
  "num_dec (Fin q) = Fin (q - 1)"
| "num_dec x = x"

definition throttle_start :: "jsnum \<Rightarrow> jsnum" where
  "throttle_start seconds = max_zero (num_ceil seconds)"

definition throttle_active :: "jsnum \<Rightarrow> bool" where
  "throttle_active remainingSeconds \<longleftrightarrow> num_less (Fin 0) remainingSeconds"

text \<open>A second passes: the interval runs only while the countdown is active.\<close>

definition throttle_tick :: "jsnum \<Rightarrow> jsnum" where
  "throttle_tick s = (if throttle_active s then max_zero (num_dec s) else s)"

definition pad2 :: "nat \<Rightarrow> jstring" where
  "pad2 n = replicate (2 - length (dec_digits n)) 48 @ dec_digits n"

datatype ThrottleCopy = Banner_long jstring jstring | Banner_short jsnum

definition formatThrottleMessage :: "jsnum \<Rightarrow> ThrottleCopy" where
  "formatThrottleMessage remainingSeconds =
     (let clamped = max_zero (num_ceil remainingSeconds) in
      if num_less (Fin 60) clamped
      then (case clamped of
              Fin q \<Rightarrow> Banner_long (pad2 (nat \<lfloor>q\<rfloor> div 60)) (pad2 (nat \<lfloor>q\<rfloor> mod 60))
            | _ \<Rightarrow> Banner_long (js ''Infinity'') (js ''NaN''))
      else Banner_short clamped)"

text \<open>\<open>err.retryAfterSeconds ?? 60\<close>\<close>

definition wait_or_minute :: "jsnum option \<Rightarrow> jsnum" where
  "wait_or_minute r = (case r of Some s \<Rightarrow> s | None \<Rightarrow> Fin 60)"

section \<open>The texts of a refusal\<close>

datatype AuthCopy =
    Signup_emailInvalid | Signup_passwordTooShort | Signup_passwordBreached | Signup_emailTaken | Signup_generic
  | Login_invalidCredentials | Login_generic
  | Change_invalidCurrent | Change_passwordTooShort | Change_passwordBreached | Change_generic

definition signupErrorMessage :: "jsv \<Rightarrow> AuthCopy" where
  "signupErrorMessage code =
     (if code = JStr (js ''EMAIL_INVALID'') then Signup_emailInvalid
      else if code = JStr (js ''PASSWORD_TOO_SHORT'') \<or> code = JStr (js ''PASSWORD_TOO_LONG'') then Signup_passwordTooShort
      else if code = JStr (js ''PASSWORD_BREACHED'') then Signup_passwordBreached
      else if code = JStr (js ''EMAIL_TAKEN'') then Signup_emailTaken
      else Signup_generic)"

definition loginErrorMessage :: "jsv \<Rightarrow> AuthCopy" where
  "loginErrorMessage code = Login_invalidCredentials"

definition changePasswordErrorMessage :: "jsv \<Rightarrow> AuthCopy" where
  "changePasswordErrorMessage code =
     (if code = JStr (js ''INVALID_CREDENTIALS'') then Change_invalidCurrent
      else if code = JStr (js ''PASSWORD_TOO_SHORT'') \<or> code = JStr (js ''PASSWORD_TOO_LONG'') then Change_passwordTooShort
      else if code = JStr (js ''PASSWORD_BREACHED'') then Change_passwordBreached
      else Change_generic)"

text \<open>\<open>AuthForm\<close> takes no submit while the request is out or a wait is shown.\<close>

definition auth_formDisabled :: "bool \<Rightarrow> jsnum option \<Rightarrow> bool" where
  "auth_formDisabled loading throttleRemainingSeconds \<longleftrightarrow>
     loading \<or> (case throttleRemainingSeconds of Some s \<Rightarrow> throttle_active s | None \<Rightarrow> False)"

section \<open>Signing in\<close>

record LoginForm =
  lf_email :: jstring
  lf_password :: jstring
  lf_loading :: bool
  lf_bannerError :: "AuthCopy option"
  lf_passwordAutoFocus :: bool
  lf_throttle :: jsnum

definition login_submit :: "LoginForm \<Rightarrow> LoginForm" where
  "login_submit f = f\<lparr>lf_bannerError := None, lf_loading := True\<rparr>"

text \<open>The answer to \<open>login\<close>: the form, the page, and where the browser goes.\<close>

definition login_settled ::
    "Rejection + jsv \<Rightarrow> int \<Rightarrow> LoginForm \<times> App \<Rightarrow> (LoginForm \<times> App) \<times> jstring option" where
  "login_settled answer now fa =
     (case fa of (f, a) \<Rightarrow>
        let done = f\<lparr>lf_loading := False\<rparr> in
        case answer of
          Inr _ \<Rightarrow> ((done, app_step BeginSession a), Some (destinationAfterLogin now (app_held a)))
        | Inl (RApi e) \<Rightarrow>
            if ae_status e = Fin 429
            then ((done\<lparr>lf_throttle := throttle_start (wait_or_minute (ae_retryAfterSeconds e))\<rparr>, a), None)
            else ((done\<lparr>lf_bannerError := Some (loginErrorMessage (ae_code e)), lf_password := [],
                        lf_passwordAutoFocus := True\<rparr>, a), None)
        | Inl _ \<Rightarrow> ((done\<lparr>lf_bannerError := Some Login_generic\<rparr>, a), None))"

section \<open>Signing up\<close>

record SignupForm =
  sf_email :: jstring
  sf_password :: jstring
  sf_emailTouched :: bool
  sf_loading :: bool
  sf_bannerError :: "AuthCopy option"
  sf_emailError :: "AuthCopy option"
  sf_passwordError :: "AuthCopy option"
  sf_throttleSeconds :: "jsnum option"

text \<open>The press of the button: the form, and whether \<open>signup\<close> is called.\<close>

definition signup_submit :: "SignupForm \<Rightarrow> SignupForm \<times> bool" where
  "signup_submit f =
     (let clear = f\<lparr>sf_bannerError := None, sf_emailError := None, sf_passwordError := None,
                    sf_throttleSeconds := None\<rparr> in
      if \<not> client_isValidEmailShape (sf_email f) then (clear\<lparr>sf_emailError := Some Signup_emailInvalid\<rparr>, False)
      else (clear\<lparr>sf_loading := True\<rparr>, True))"

text \<open>The answer; \<open>Some email\<close> is the move to the login page with the address filled in.\<close>

definition signup_settled :: "Rejection + jsv \<Rightarrow> SignupForm \<Rightarrow> SignupForm \<times> jstring option" where
  "signup_settled answer f =
     (let done = f\<lparr>sf_loading := False\<rparr> in
      case answer of
        Inr _ \<Rightarrow> (done, Some (sf_email f))
      | Inl (RApi e) \<Rightarrow>
          (let code = ae_code e; message = signupErrorMessage (ae_code e) in
           if ae_status e = Fin 429
           then (done\<lparr>sf_throttleSeconds := Some (wait_or_minute (ae_retryAfterSeconds e))\<rparr>, None)
           else if code = JStr (js ''EMAIL_TAKEN'') then (done\<lparr>sf_emailError := Some message\<rparr>, None)
           else if code = JStr (js ''PASSWORD_TOO_SHORT'') \<or> code = JStr (js ''PASSWORD_BREACHED'')
           then (done\<lparr>sf_passwordError := Some message\<rparr>, None)
           else if code = JStr (js ''EMAIL_INVALID'') then (done\<lparr>sf_emailError := Some message\<rparr>, None)
           else (done\<lparr>sf_bannerError := Some message\<rparr>, None))
      | Inl _ \<Rightarrow> (done\<lparr>sf_bannerError := Some Signup_generic\<rparr>, None))"

text \<open>
  What the page can do next: the fields are closed while the form is disabled, and so is the button; the
  retry of the banner is hidden behind the wait; the address field may still lose the focus. Nothing counts \<open>sf_throttleSeconds\<close> down.
\<close>

abbreviation signup_disabled :: "SignupForm \<Rightarrow> bool" where
  "signup_disabled f \<equiv> auth_formDisabled (sf_loading f) (sf_throttleSeconds f)"

inductive signup_step :: "SignupForm \<Rightarrow> SignupForm \<Rightarrow> bool" where
  type_email: "\<not> signup_disabled f \<Longrightarrow> signup_step f (f\<lparr>sf_email := v, sf_emailError := None\<rparr>)"
| type_password: "\<not> signup_disabled f \<Longrightarrow> signup_step f (f\<lparr>sf_password := v, sf_passwordError := None\<rparr>)"
| blur_email: "signup_step f (f\<lparr>sf_emailTouched := True\<rparr>)"
| press: "\<not> signup_disabled f \<Longrightarrow> signup_step f (fst (signup_submit f))"
| answer: "sf_loading f \<Longrightarrow> signup_step f (fst (signup_settled r f))"

inductive_cases signup_stepE: "signup_step f f'"

section \<open>Changing the password\<close>

record PasswordForm =
  pf_currentPassword :: jstring
  pf_newPassword :: jstring
  pf_loading :: bool
  pf_bannerError :: "AuthCopy option"
  pf_currentError :: "AuthCopy option"
  pf_newError :: "AuthCopy option"
  pf_throttle :: jsnum

datatype PasswordNext = Stay | Session_over | Password_changed

definition password_formDisabled :: "PasswordForm \<Rightarrow> bool" where
  "password_formDisabled f \<longleftrightarrow> pf_loading f \<or> throttle_active (pf_throttle f)"

definition password_submit :: "PasswordForm \<Rightarrow> PasswordForm" where
  "password_submit f =
     f\<lparr>pf_bannerError := None, pf_currentError := None, pf_newError := None, pf_loading := True\<rparr>"

definition password_settled :: "Rejection + jsv \<Rightarrow> PasswordForm \<Rightarrow> PasswordForm \<times> PasswordNext" where
  "password_settled answer f =
     (let done = f\<lparr>pf_loading := False\<rparr> in
      case answer of
        Inr _ \<Rightarrow> (done\<lparr>pf_currentPassword := [], pf_newPassword := []\<rparr>, Password_changed)
      | Inl RSessionExpired \<Rightarrow> (done, Session_over)
      | Inl (RApi e) \<Rightarrow>
          (let code = ae_code e; message = changePasswordErrorMessage (ae_code e) in
           if ae_status e = Fin 429
           then (done\<lparr>pf_throttle := throttle_start (wait_or_minute (ae_retryAfterSeconds e))\<rparr>, Stay)
           else if code = JStr (js ''INVALID_CREDENTIALS'') then (done\<lparr>pf_currentError := Some message\<rparr>, Stay)
           else if code = JStr (js ''PASSWORD_TOO_SHORT'') \<or> code = JStr (js ''PASSWORD_BREACHED'')
           then (done\<lparr>pf_newError := Some message\<rparr>, Stay)
           else (done\<lparr>pf_bannerError := Some message\<rparr>, Stay))
      | Inl ROther \<Rightarrow> (done\<lparr>pf_bannerError := Some Change_generic\<rparr>, Stay))"

section \<open>The list of devices\<close>

datatype DeviceToast = Toast_deviceLoggedOut | Toast_deviceLogoutFailed

record SessionList =
  sl_sessions :: "jstring list option"
  sl_loading :: bool
  sl_error :: bool
  sl_pendingLogoutFamilyId :: "jstring option"
  sl_confirmLogoutAllOpen :: bool
  sl_logoutAllError :: bool
  sl_logoutAllLoading :: bool
  sl_toast :: "DeviceToast option"

text \<open>A session is represented by its family. A handler answers whether the browser leaves for the login.\<close>

definition sessions_load :: "SessionList \<Rightarrow> SessionList" where
  "sessions_load l = l\<lparr>sl_loading := True, sl_error := False\<rparr>"

definition sessions_loaded :: "Rejection + jstring list \<Rightarrow> SessionList \<Rightarrow> SessionList \<times> bool" where
  "sessions_loaded answer l =
     (let done = l\<lparr>sl_loading := False\<rparr> in
      case answer of
        Inr fs \<Rightarrow> (done\<lparr>sl_sessions := Some fs\<rparr>, False)
      | Inl RSessionExpired \<Rightarrow> (done, True)
      | Inl _ \<Rightarrow> (done\<lparr>sl_error := True\<rparr>, False))"

text \<open>The confirmed removal of a device: what is called, with the list to go back to.\<close>

definition confirmLogoutDevice :: "SessionList \<Rightarrow> SessionList \<times> (jstring \<times> jstring list option) option" where
  "confirmLogoutDevice l =
     (case sl_pendingLogoutFamilyId l of
        None \<Rightarrow> (l, None)
      | Some familyId \<Rightarrow>
          if familyId = [] then (l, None)
          else (l\<lparr>sl_pendingLogoutFamilyId := None,
                  sl_sessions := map_option (filter (\<lambda>f. f \<noteq> familyId)) (sl_sessions l)\<rparr>,
                Some (familyId, sl_sessions l)))"

definition logoutDevice_settled :: "bool \<Rightarrow> jstring list option \<Rightarrow> SessionList \<Rightarrow> SessionList" where
  "logoutDevice_settled succeeded previous l =
     (if succeeded then l\<lparr>sl_toast := Some Toast_deviceLoggedOut\<rparr>
      else l\<lparr>sl_sessions := previous, sl_toast := Some Toast_deviceLogoutFailed\<rparr>)"

definition confirmLogoutAll :: "SessionList \<Rightarrow> SessionList" where
  "confirmLogoutAll l =
     l\<lparr>sl_confirmLogoutAllOpen := False, sl_logoutAllError := False, sl_logoutAllLoading := True\<rparr>"

datatype LogoutAllNext = All_stay | All_login | All_sessionOver

definition logoutAll_settled :: "Rejection + unit \<Rightarrow> SessionList \<Rightarrow> SessionList \<times> LogoutAllNext" where
  "logoutAll_settled answer l =
     (case answer of
        Inr _ \<Rightarrow> (l, All_login)
      | Inl RSessionExpired \<Rightarrow> (l, All_sessionOver)
      | Inl _ \<Rightarrow> (l\<lparr>sl_logoutAllLoading := False, sl_logoutAllError := True\<rparr>, All_stay))"

text \<open>The sign-out of the shell: the state of the page, and where the browser goes.\<close>

definition signOut_settled :: "Rejection + unit \<Rightarrow> App \<Rightarrow> App \<times> jstring option" where
  "signOut_settled answer a =
     (case answer of Inr _ \<Rightarrow> (app_step EndSession a, Some (js ''/login'')) | Inl _ \<Rightarrow> (a, None))"

section \<open>The list and the server\<close>

text \<open>
  The list of a page, the removals and the loads under way, and the sessions that are live at the server. A
  removal ends its session when it reaches the server; its answer may still be lost. A load has not been
  answered yet (\<open>None\<close>) or carries the sessions that were live when it was. Meanwhile other devices sign in,
  each with a family id of its own, and sessions end elsewhere. \<open>ds_ever\<close> and \<open>ds_loaded\<close> only record: the
  family ids used so far, and the answer of the load that settled last.
\<close>

record Devices =
  ds_list :: SessionList
  ds_calls :: "(jstring \<times> jstring list option) list"
  ds_loads :: "jstring list option list"
  ds_live :: "jstring list"
  ds_ever :: "jstring list"
  ds_loaded :: "jstring list"

definition ended :: "jstring \<Rightarrow> Devices \<Rightarrow> Devices" where
  "ended f s = s\<lparr>ds_live := filter (\<lambda>x. x \<noteq> f) (ds_live s)\<rparr>"

inductive devices_step :: "Devices \<Rightarrow> Devices \<Rightarrow> bool" where
  ask: "devices_step s (s\<lparr>ds_list := (ds_list s)\<lparr>sl_pendingLogoutFamilyId := f\<rparr>\<rparr>)"
| confirm: "confirmLogoutDevice (ds_list s) = (l, Some call) \<Longrightarrow>
    devices_step s (s\<lparr>ds_list := l, ds_calls := call # ds_calls s\<rparr>)"
| succeeded: "(f, previous) \<in> set (ds_calls s) \<Longrightarrow>
    devices_step s ((ended f s)\<lparr>ds_list := logoutDevice_settled True previous (ds_list s),
                                ds_calls := remove1 (f, previous) (ds_calls s)\<rparr>)"
| failed: "(f, previous) \<in> set (ds_calls s) \<Longrightarrow> s' = s \<or> s' = ended f s \<Longrightarrow>
    devices_step s (s'\<lparr>ds_list := logoutDevice_settled False previous (ds_list s),
                        ds_calls := remove1 (f, previous) (ds_calls s)\<rparr>)"
| load_sent: "devices_step s (s\<lparr>ds_list := sessions_load (ds_list s), ds_loads := None # ds_loads s\<rparr>)"
| load_read: "ds_loads s = xs @ None # ys \<Longrightarrow> devices_step s (s\<lparr>ds_loads := xs @ Some (ds_live s) # ys\<rparr>)"
| load_settled: "ds_loads s = xs @ Some fs # ys \<Longrightarrow>
    devices_step s (s\<lparr>ds_list := fst (sessions_loaded (Inr fs) (ds_list s)), ds_loads := xs @ ys, ds_loaded := fs\<rparr>)"
| load_failed: "ds_loads s = xs @ x # ys \<Longrightarrow>
    devices_step s (s\<lparr>ds_list := fst (sessions_loaded (Inl e) (ds_list s)), ds_loads := xs @ ys\<rparr>)"
| signed_in: "f \<notin> set (ds_ever s) \<Longrightarrow>
    devices_step s (s\<lparr>ds_live := ds_live s @ [f], ds_ever := f # ds_ever s\<rparr>)"
| ended_elsewhere: "devices_step s (s\<lparr>ds_live := filter P (ds_live s)\<rparr>)"
| all_pressed: "devices_step s (s\<lparr>ds_list := confirmLogoutAll (ds_list s)\<rparr>)"
| all_settled: "devices_step s (s\<lparr>ds_list := fst (logoutAll_settled answer (ds_list s)), ds_live := filter P (ds_live s)\<rparr>)"
| toast_over: "devices_step s (s\<lparr>ds_list := (ds_list s)\<lparr>sl_toast := None\<rparr>\<rparr>)"

text \<open>The sessions of a list; those the page keeps; and what it renders while no load runs or has failed.\<close>

definition sessions_in :: "jstring list option \<Rightarrow> jstring set" where
  "sessions_in l = (case l of None \<Rightarrow> {} | Some fs \<Rightarrow> set fs)"

abbreviation listed_devices :: "Devices \<Rightarrow> jstring set" where
  "listed_devices s \<equiv> sessions_in (sl_sessions (ds_list s))"

definition shown_devices :: "Devices \<Rightarrow> jstring set" where
  "shown_devices s =
     (if sl_loading (ds_list s) \<or> sl_error (ds_list s) then {} else sessions_in (sl_sessions (ds_list s)))"

text \<open>The page just opened, with its first load under way.\<close>

definition opened_devices :: "jstring list \<Rightarrow> Devices" where
  "opened_devices live =
     \<lparr>ds_list = \<lparr>sl_sessions = None, sl_loading = True, sl_error = False, sl_pendingLogoutFamilyId = None,
                  sl_confirmLogoutAllOpen = False, sl_logoutAllError = False, sl_logoutAllLoading = False,
                  sl_toast = None\<rparr>,
      ds_calls = [], ds_loads = [None], ds_live = live, ds_ever = live, ds_loaded = []\<rparr>"

section \<open>The link of an invitation\<close>

text \<open>
  The parts of a URL are those of its parser, which is a parameter: the path, the pairs of the query and the
  fragment with its mark. \<open>search_text\<close> writes the pairs back.
\<close>

record UrlParts =
  url_pathname :: jstring
  url_params :: "(jstring \<times> jstring) list"
  url_hash :: jstring

definition INVITE_TOKEN_PARAM :: jstring where "INVITE_TOKEN_PARAM = js ''token''"

definition stripInviteToken ::
    "(jstring \<Rightarrow> UrlParts option) \<Rightarrow> ((jstring \<times> jstring) list \<Rightarrow> jstring) \<Rightarrow> jstring \<Rightarrow>
     jstring option \<times> jstring" where
  "stripInviteToken parse_url search_text href =
     (case parse_url href of
        None \<Rightarrow> (None, href)
      | Some url \<Rightarrow>
          (case map_of (url_params url) INVITE_TOKEN_PARAM of
             None \<Rightarrow> (None, href)
           | Some token \<Rightarrow>
               (let search = search_text (filter (\<lambda>p. fst p \<noteq> INVITE_TOKEN_PARAM) (url_params url)) in
                (if token = [] then None else Some token,
                 url_pathname url @ (if search = [] then [] else 63 # search) @ url_hash url))))"

text \<open>The screen of the invitation: the token it holds, the text of the address bar, the page.\<close>

definition useInviteToken ::
    "(jstring \<Rightarrow> UrlParts option) \<Rightarrow> ((jstring \<times> jstring) list \<Rightarrow> jstring) \<Rightarrow> int \<Rightarrow>
     jstring option \<Rightarrow> jstring \<Rightarrow> App \<Rightarrow> jstring option \<times> jstring \<times> App" where
  "useInviteToken parse_url search_text now ref href a =
     (case stripInviteToken parse_url search_text href of
        (Some token, cleanUrl) \<Rightarrow> (Some token, cleanUrl, app_step OpenedLink a)
      | (None, _) \<Rightarrow>
          (case ref of
             Some t \<Rightarrow> (Some t, href, a)
           | None \<Rightarrow> (fst (takeInviteToken now (app_held a)), href, app_step (BackToInvite now) a)))"

section \<open>Facts\<close>

lemma throttle_counts:
  "(throttle_tick ^^ k) (throttle_start (Fin (of_nat n))) = Fin (of_nat (n - k))"
proof (induction k)
  case (Suc k)
  then show ?case
    by (cases "k < n") (simp_all add: throttle_tick_def throttle_active_def of_nat_diff)
qed (simp add: throttle_start_def)

lemma throttle_active_nat [simp]: "throttle_active (Fin (of_nat n)) \<longleftrightarrow> 0 < n"
  by (simp add: throttle_active_def)

lemma message_of_seconds:
  "formatThrottleMessage (Fin (of_nat n)) =
     (if 60 < n then Banner_long (pad2 (n div 60)) (pad2 (n mod 60)) else Banner_short (Fin (of_nat n)))"
proof -
  have "(60 :: rat) < of_nat n \<longleftrightarrow> 60 < n" by (metis of_nat_less_iff of_nat_numeral)
  then show ?thesis by (simp add: formatThrottleMessage_def Let_def)
qed

text \<open>Which refusal a login meets, and of which account, leaves no trace on the screen.\<close>

lemma login_screen_uniform:
  assumes "ae_status e1 \<noteq> Fin 429" and "ae_status e2 \<noteq> Fin 429"
  shows "login_settled (Inl (RApi e1)) now fa = login_settled (Inl (RApi e2)) now fa"
  using assms by (simp add: login_settled_def loginErrorMessage_def Let_def split: prod.split)

text \<open>A removal that is disturbed neither by another nor by a load keeps every live session in sight.\<close>

definition calm :: "Devices \<Rightarrow> bool" where
  "calm s \<longleftrightarrow> ds_calls s = [] \<or> length (ds_calls s) = 1 \<and> ds_loads s = []"

definition calm_step :: "Devices \<Rightarrow> Devices \<Rightarrow> bool" where
  "calm_step s s' \<longleftrightarrow> devices_step s s' \<and> calm s'"

text \<open>The sessions of the last answer that are still live.\<close>

definition known_live :: "Devices \<Rightarrow> jstring set" where
  "known_live s = set (ds_loaded s) \<inter> set (ds_live s)"

definition devices_ok :: "Devices \<Rightarrow> bool" where
  "devices_ok s \<longleftrightarrow> set (ds_live s) \<union> set (ds_loaded s) \<subseteq> set (ds_ever s) \<and>
     (\<forall>fs. Some fs \<in> set (ds_loads s) \<longrightarrow> set fs \<subseteq> set (ds_ever s)) \<and>
     listed_devices s \<subseteq> set (ds_loaded s) \<and> known_live s \<subseteq> listed_devices s \<union> fst ` set (ds_calls s) \<and>
     (\<forall>(f, previous) \<in> set (ds_calls s). known_live s \<subseteq> sessions_in previous \<and> sessions_in previous \<subseteq> set (ds_loaded s))"

lemma confirmed:
  assumes "confirmLogoutDevice l = (l', Some (f, previous))"
  shows "previous = sl_sessions l" "sessions_in (sl_sessions l') = sessions_in (sl_sessions l) - {f}"
  using assms by (auto simp: confirmLogoutDevice_def sessions_in_def split: option.splits if_splits)

lemma other_settlings_keep [simp]:
  "sl_sessions (sessions_load l) = sl_sessions l" "sl_sessions (fst (sessions_loaded (Inl e) l)) = sl_sessions l"
  "sl_sessions (confirmLogoutAll l) = sl_sessions l" "sl_sessions (fst (logoutAll_settled answer l)) = sl_sessions l"
  "sl_sessions (logoutDevice_settled True previous l) = sl_sessions l"
  "sl_sessions (logoutDevice_settled False previous l) = previous"
  "sl_sessions (fst (sessions_loaded (Inr fs) l)) = Some fs"
  by (cases e, simp_all add: sessions_load_def sessions_loaded_def confirmLogoutAll_def logoutAll_settled_def
      logoutDevice_settled_def Let_def split: sum.split Rejection.split)

lemma fewer_live:
  assumes "devices_ok s" and "set (ds_live t) \<subseteq> set (ds_live s)" and "ds_ever t = ds_ever s" and "ds_loaded t = ds_loaded s"
    and "set (ds_loads t) \<subseteq> insert None (set (ds_loads s))" and "ds_calls t = ds_calls s"
    and "listed_devices t = listed_devices s"
  shows "devices_ok t"
  using assms unfolding devices_ok_def known_live_def by (simp add: subset_iff) fastforce

lemma devices_ok_step:
  assumes "devices_step s s'" and "devices_ok s" and "calm s" and "calm s'"
  shows "devices_ok s'"
  using assms(1)
proof cases
  case (confirm l call)
  obtain f previous where c: "call = (f, previous)" by (cases call)
  have none: "ds_calls s = []" using confirm(1) assms(4) by (simp add: calm_def)
  from confirmed [OF confirm(2) [unfolded c]] assms(2) none show ?thesis
    by (auto simp: confirm(1) devices_ok_def known_live_def c)
next
  case (succeeded f previous)
  then have "ds_calls s = [(f, previous)]" using assms(3) by (auto simp: calm_def length_Suc_conv)
  with assms(2) show ?thesis by (auto simp: succeeded(1) devices_ok_def known_live_def ended_def)
next
  case (failed f previous t)
  then have one: "ds_calls s = [(f, previous)]" using assms(3) by (auto simp: calm_def length_Suc_conv)
  have "set (ds_live t) \<subseteq> set (ds_live s)" "ds_calls t = ds_calls s" "ds_ever t = ds_ever s"
    "ds_loaded t = ds_loaded s" "ds_loads t = ds_loads s"
    using failed(3) by (auto simp: ended_def)
  with one assms(2) show ?thesis by (auto simp: failed(1) devices_ok_def known_live_def)
next
  case (load_read xs ys)
  with assms(2) show ?thesis by (auto simp: devices_ok_def known_live_def)
next
  case (load_settled xs fs ys)
  then have none: "ds_calls s = []" using assms(3) by (auto simp: calm_def)
  with assms(2) load_settled show ?thesis by (auto simp: devices_ok_def known_live_def sessions_in_def)
next
  case (load_failed xs x ys e)
  then show ?thesis using fewer_live [OF assms(2), of s'] by auto
next
  case (signed_in f)
  then have "f \<notin> set (ds_loaded s)" using assms(2) by (auto simp: devices_ok_def)
  then have k: "known_live s' = known_live s" by (simp add: signed_in(1) known_live_def)
  have "sl_sessions (ds_list s') = sl_sessions (ds_list s)" "ds_calls s' = ds_calls s" "ds_loads s' = ds_loads s"
    "ds_loaded s' = ds_loaded s" "set (ds_ever s') = insert f (set (ds_ever s))" "set (ds_live s') = insert f (set (ds_live s))"
    by (simp_all add: signed_in(1))
  with assms(2) show ?thesis unfolding devices_ok_def k by (simp add: subset_iff)
qed (auto intro!: fewer_live [OF assms(2)])

section \<open>Theorems\<close>

lemma pad2_digits: "dec_value (pad2 n) = n" "list_all is_digit (pad2 n)" "2 \<le> length (pad2 n)"
  using dec_digits_are_digits [of _ n] by (auto simp: pad2_def dec_value_zeros list_all_iff is_digit_def)

lemma pad2_short: "n < 60 \<Longrightarrow> length (pad2 n) = 2"
  using dec_digits_length [of n 2] by (simp add: pad2_def)

text \<open>
  C28: the login form counts its wait down. After the API asked a login to wait for \<open>n\<close> seconds, the form is
  closed for exactly the next \<open>n\<close> ticks of its countdown, and the banner names what is left of it: as seconds
  during the last minute; before that as minutes and seconds, the seconds below sixty and of two digits, the
  minutes of two digits at least, which together are the time left.
\<close>

theorem waits_of_the_forms:
  assumes "ae_status e = Fin 429" and "ae_retryAfterSeconds e = Some (Fin (of_nat n))"
  shows "(auth_formDisabled False
      (Some ((throttle_tick ^^ k) (lf_throttle (fst (fst (login_settled (Inl (RApi e)) now (f, a)))))))
      \<longleftrightarrow> k < n) \<and>
    (case formatThrottleMessage ((throttle_tick ^^ k) (lf_throttle (fst (fst (login_settled (Inl (RApi e)) now (f, a))))))
      of Banner_short x \<Rightarrow> n - k \<le> 60 \<and> x = Fin (of_nat (n - k))
       | Banner_long mm ss \<Rightarrow> 60 < n - k \<and> dec_value mm * 60 + dec_value ss = n - k \<and> dec_value ss < 60 \<and>
           list_all is_digit mm \<and> list_all is_digit ss \<and> 2 \<le> length mm \<and> length ss = 2)"
proof -
  have t: "lf_throttle (fst (fst (login_settled (Inl (RApi e)) now (f, a)))) = throttle_start (Fin (of_nat n))"
    using assms by (simp add: login_settled_def wait_or_minute_def Let_def)
  show ?thesis
    unfolding t throttle_counts message_of_seconds
    by (simp add: auth_formDisabled_def pad2_digits pad2_short)
qed

text \<open>A wait of two minutes and five seconds: shown as 02:05, and over after the last second.\<close>

theorem waits_of_the_forms_witness:
  "let t = lf_throttle (fst (fst (login_settled
      (Inl (RApi \<lparr>ae_status = Fin 429, ae_code = JStr (js ''RATE_LIMITED''), ae_retryAfterSeconds = Some (Fin 125),
                    ae_request = None\<rparr>)) 0
      (\<lparr>lf_email = js ''a@b.c'', lf_password = js ''p'', lf_loading = True, lf_bannerError = None,
        lf_passwordAutoFocus = False, lf_throttle = Fin 0\<rparr>, app_run []))))
   in auth_formDisabled False (Some ((throttle_tick ^^ 124) t)) \<and> \<not> auth_formDisabled False (Some ((throttle_tick ^^ 125) t)) \<and>
     (\<exists>mm ss. formatThrottleMessage t = Banner_long mm ss \<and> dec_value mm * 60 + dec_value ss = 125 \<and> dec_value ss < 60)"
proof -
  let ?e = "\<lparr>ae_status = Fin 429, ae_code = JStr (js ''RATE_LIMITED''), ae_retryAfterSeconds = Some (Fin 125), ae_request = None\<rparr>"
  have e: "ae_status ?e = Fin 429" "ae_retryAfterSeconds ?e = Some (Fin (of_nat 125))" by simp_all
  note w = waits_of_the_forms [OF e, where now = 0 and a = "app_run []"
      and f = "\<lparr>lf_email = js ''a@b.c'', lf_password = js ''p'', lf_loading = True, lf_bannerError = None,
        lf_passwordAutoFocus = False, lf_throttle = Fin 0\<rparr>"]
  show ?thesis
    using w [of 124] w [of 125] w [of 0] unfolding Let_def
    by (auto split: ThrottleCopy.splits)
qed

text \<open>
  The form of the sign-up keeps the number of seconds without a countdown: whatever happens on the page after
  the answer, it stays closed, with the same number and the same fields, and sends nothing.
\<close>

lemma signup_wait_never_ends:
  assumes "ae_status e = Fin 429" and "ae_retryAfterSeconds e = Some (Fin (of_nat n))" and "0 < n"
    and "signup_step\<^sup>*\<^sup>* (fst (signup_settled (Inl (RApi e)) h)) g"
  shows "signup_disabled g \<and> sf_throttleSeconds g = Some (Fin (of_nat n)) \<and> \<not> sf_loading g \<and>
    sf_email g = sf_email h \<and> sf_password g = sf_password h"
  using assms(4)
proof induction
  case base
  show ?case using assms(1-3) by (simp add: signup_settled_def wait_or_minute_def auth_formDisabled_def Let_def)
next
  case (step g g')
  from step.hyps(2) step.IH show ?case by cases auto
qed

text \<open>
  C26: the list of devices loses no session it was given. Take any run of the page from its opening: loads and
  reloads that are answered or fail, removals that succeed, fail or lose their answer, the end of all sessions,
  while other devices sign in and sessions end elsewhere. As long as at most one removal is under way at a
  time and none together with a load, every session of the last answer that is still live is in the list the
  page keeps, or is the one being removed; the list holds no other session than those of that answer; and when
  neither a load is running nor the last one failed, it is what the page shows. A device that signed in after
  the last answer is not in it until the next one.
\<close>

theorem device_list_hides_nothing:
  assumes "calm_step\<^sup>*\<^sup>* (opened_devices live) s"
  shows "set (ds_loaded s) \<inter> set (ds_live s) \<subseteq> listed_devices s \<union> fst ` set (ds_calls s) \<and>
    listed_devices s \<subseteq> set (ds_loaded s) \<and> length (ds_calls s) \<le> 1 \<and>
    (\<not> sl_loading (ds_list s) \<and> \<not> sl_error (ds_list s) \<longrightarrow> shown_devices s = listed_devices s)"
proof -
  have "devices_ok s \<and> calm s"
    using assms
  proof induction
    case base
    show ?case by (simp add: opened_devices_def devices_ok_def known_live_def calm_def sessions_in_def)
  next
    case (step y z)
    then show ?case using devices_ok_step [of y z] by (simp add: calm_step_def)
  qed
  then show ?thesis by (auto simp: devices_ok_def known_live_def calm_def shown_devices_def)
qed

text \<open>The steps as functions, to follow a run.\<close>

definition pressed :: "string \<Rightarrow> Devices \<Rightarrow> Devices" where
  "pressed f s = s\<lparr>ds_list := (ds_list s)\<lparr>sl_pendingLogoutFamilyId := Some (js f)\<rparr>\<rparr>"

definition confirmed_removal :: "Devices \<Rightarrow> Devices" where
  "confirmed_removal s =
     (case confirmLogoutDevice (ds_list s) of
        (l, Some call) \<Rightarrow> s\<lparr>ds_list := l, ds_calls := call # ds_calls s\<rparr>
      | (l, None) \<Rightarrow> s)"

definition lost_removal :: "jstring \<times> jstring list option \<Rightarrow> Devices \<Rightarrow> Devices" where
  "lost_removal call s =
     s\<lparr>ds_list := logoutDevice_settled False (snd call) (ds_list s), ds_calls := remove1 call (ds_calls s)\<rparr>"

definition sent_load :: "Devices \<Rightarrow> Devices" where
  "sent_load s = s\<lparr>ds_list := sessions_load (ds_list s), ds_loads := None # ds_loads s\<rparr>"

definition read_load :: "Devices \<Rightarrow> Devices" where
  "read_load s = s\<lparr>ds_loads := Some (ds_live s) # tl (ds_loads s)\<rparr>"

definition settled_load :: "Devices \<Rightarrow> Devices" where
  "settled_load s =
     s\<lparr>ds_list := fst (sessions_loaded (Inr (the (hd (ds_loads s)))) (ds_list s)), ds_loads := tl (ds_loads s),
       ds_loaded := the (hd (ds_loads s))\<rparr>"

definition another_device :: "string \<Rightarrow> Devices \<Rightarrow> Devices" where
  "another_device f s = s\<lparr>ds_live := ds_live s @ [js f], ds_ever := js f # ds_ever s\<rparr>"

lemma pressed_step: "devices_step s (pressed f s)"
  unfolding pressed_def by (rule ask)

lemma confirmed_step:
  "snd (confirmLogoutDevice (ds_list s)) \<noteq> None \<Longrightarrow> devices_step s (confirmed_removal s)"
  by (cases "confirmLogoutDevice (ds_list s)") (auto simp: confirmed_removal_def intro: confirm)

lemma lost_step: "call \<in> set (ds_calls s) \<Longrightarrow> devices_step s (lost_removal call s)"
  using failed [of "fst call" "snd call" s s] by (simp add: lost_removal_def)

lemma load_steps:
  "devices_step s (sent_load s)"
  "ds_loads s = None # ys \<Longrightarrow> devices_step s (read_load s)"
  "ds_loads s = Some fs # ys \<Longrightarrow> devices_step s (settled_load s)"
  using load_sent [of s] load_read [of s "[]" ys] load_settled [of s "[]" fs ys]
  by (simp_all add: sent_load_def read_load_def settled_load_def)

lemma another_device_step: "js f \<notin> set (ds_ever s) \<Longrightarrow> devices_step s (another_device f s)"
  unfolding another_device_def by (rule signed_in)

text \<open>The page with two sessions in the list.\<close>

definition demo_devices :: Devices where
  "demo_devices = settled_load (read_load (opened_devices [js ''a'', js ''b'']))"

lemmas devices_eval = demo_devices_def pressed_def confirmed_removal_def confirmLogoutDevice_def lost_removal_def
  logoutDevice_settled_def sessions_load_def sessions_loaded_def sent_load_def read_load_def settled_load_def
  another_device_def opened_devices_def sessions_in_def calm_def Let_def js_def

lemma demo_devices_run: "calm_step\<^sup>*\<^sup>* (opened_devices [js ''a'', js ''b'']) demo_devices"
proof -
  let ?s = "opened_devices [js ''a'', js ''b'']"
  have "calm_step ?s (read_load ?s)"
    unfolding calm_step_def by (intro conjI load_steps(2) [of _ "[]"]) (simp_all add: devices_eval)
  moreover have "calm_step (read_load ?s) demo_devices"
    unfolding calm_step_def demo_devices_def
    by (intro conjI load_steps(3) [of _ "[js ''a'', js ''b'']" "[]"]) (simp_all add: devices_eval)
  ultimately show ?thesis by simp
qed

text \<open>Another device signs in, a session is removed, and the removal does not arrive: it is in the list again.\<close>

theorem device_list_hides_nothing_witness:
  "\<exists>s. calm_step\<^sup>*\<^sup>* (opened_devices [js ''a'', js ''b'']) s \<and> ds_live s = [js ''a'', js ''b'', js ''c''] \<and>
     ds_calls s = [] \<and> ds_loaded s = [js ''a'', js ''b''] \<and> {js ''a'', js ''b''} \<subseteq> listed_devices s"
proof -
  let ?n = "another_device ''c'' demo_devices"
  let ?p = "pressed ''a'' ?n"
  let ?r = "confirmed_removal ?p"
  let ?call = "(js ''a'', Some [js ''a'', js ''b''])"
  let ?l = "lost_removal ?call ?r"
  have "calm_step demo_devices ?n"
    unfolding calm_step_def by (intro conjI another_device_step) (simp_all add: devices_eval)
  moreover have "calm_step ?n ?p"
    unfolding calm_step_def by (intro conjI pressed_step) (simp add: devices_eval)
  moreover have "calm_step ?p ?r"
    unfolding calm_step_def by (intro conjI confirmed_step) (simp_all add: devices_eval)
  moreover have "calm_step ?r ?l"
    unfolding calm_step_def by (intro conjI lost_step) (simp_all add: devices_eval)
  ultimately have r: "calm_step\<^sup>*\<^sup>* (opened_devices [js ''a'', js ''b'']) ?l"
    using demo_devices_run by (meson rtranclp.rtrancl_into_rtrancl)
  have e: "ds_live ?l = [js ''a'', js ''b'', js ''c'']" "ds_calls ?l = []" "ds_loaded ?l = [js ''a'', js ''b'']"
    by (simp_all add: devices_eval)
  from device_list_hides_nothing [OF r] have "{js ''a'', js ''b''} \<subseteq> listed_devices ?l"
    unfolding e by auto
  with r e show ?thesis by blast
qed

text \<open>
  Two removals at once may hide a session that is still live: both fail, and the second goes back to the list
  it had seen, from which the first had taken its session. So may a reload during a removal: it shows a device
  that signed in meanwhile, and the removal that fails goes back to the list without it.
\<close>

lemma overlapping_removals_hide_a_session:
  "\<exists>s. devices_step\<^sup>*\<^sup>* demo_devices s \<and> ds_calls s = [] \<and> js ''a'' \<in> set (ds_loaded s) \<inter> set (ds_live s) \<and>
     js ''a'' \<notin> shown_devices s"
proof -
  let ?c = "\<lambda>f s. confirmed_removal (pressed f s)"
  let ?both = "?c ''b'' (?c ''a'' demo_devices)"
  let ?ca = "(js ''a'', Some [js ''a'', js ''b''])" and ?cb = "(js ''b'', Some [js ''b''])"
  let ?last = "lost_removal ?cb (lost_removal ?ca ?both)"
  have c: "devices_step\<^sup>*\<^sup>* s (?c f s)" if "snd (confirmLogoutDevice (ds_list (pressed f s))) \<noteq> None" for f s
    using pressed_step confirmed_step [OF that] by (meson converse_rtranclp_into_rtranclp r_into_rtranclp)
  have "devices_step\<^sup>*\<^sup>* demo_devices (?c ''a'' demo_devices)" by (rule c) (simp add: devices_eval)
  moreover have "devices_step\<^sup>*\<^sup>* (?c ''a'' demo_devices) ?both" by (rule c) (simp add: devices_eval)
  moreover have "devices_step ?both (lost_removal ?ca ?both)" by (rule lost_step) (simp add: devices_eval)
  moreover have "devices_step (lost_removal ?ca ?both) ?last" by (rule lost_step) (simp add: devices_eval)
  ultimately have "devices_step\<^sup>*\<^sup>* demo_devices ?last" by (meson rtranclp.rtrancl_into_rtrancl rtranclp_trans)
  moreover have "ds_calls ?last = []" "js ''a'' \<in> set (ds_loaded ?last) \<inter> set (ds_live ?last)" "js ''a'' \<notin> shown_devices ?last"
    by (simp_all add: devices_eval shown_devices_def)
  ultimately show ?thesis by blast
qed

lemma reload_during_removal_hides_a_session:
  "\<exists>s. devices_step\<^sup>*\<^sup>* demo_devices s \<and> ds_calls s = [] \<and> js ''c'' \<in> set (ds_loaded s) \<inter> set (ds_live s) \<and>
     js ''c'' \<notin> shown_devices s"
proof -
  let ?p = "pressed ''a'' demo_devices"
  let ?r = "confirmed_removal ?p"
  let ?n = "another_device ''c'' ?r"
  let ?l1 = "sent_load ?n"
  let ?l2 = "read_load ?l1"
  let ?l3 = "settled_load ?l2"
  let ?last = "lost_removal (js ''a'', Some [js ''a'', js ''b'']) ?l3"
  have "devices_step demo_devices ?p" by (rule pressed_step)
  moreover have "devices_step ?p ?r" by (rule confirmed_step) (simp add: devices_eval)
  moreover have "devices_step ?r ?n" by (rule another_device_step) (simp add: devices_eval)
  moreover have "devices_step ?n ?l1" by (rule load_steps)
  moreover have "devices_step ?l1 ?l2" by (rule load_steps(2) [of _ "[]"]) (simp add: devices_eval)
  moreover have "devices_step ?l2 ?l3"
    by (rule load_steps(3) [of _ "[js ''a'', js ''b'', js ''c'']" "[]"]) (simp add: devices_eval)
  moreover have "devices_step ?l3 ?last" by (rule lost_step) (simp add: devices_eval)
  ultimately have "devices_step\<^sup>*\<^sup>* demo_devices ?last"
    by (meson converse_rtranclp_into_rtranclp r_into_rtranclp)
  moreover have "ds_calls ?last = []" "js ''c'' \<in> set (ds_loaded ?last) \<inter> set (ds_live ?last)" "js ''c'' \<notin> shown_devices ?last"
    by (simp_all add: devices_eval shown_devices_def)
  ultimately show ?thesis by blast
qed

text \<open>The effect of the invitation screen runs twice without harm: the address bar no longer holds the token.\<close>

lemma invite_token_twice:
  assumes "stripInviteToken parse_url search_text href = (Some t, clean)"
    and "stripInviteToken parse_url search_text clean = (None, clean)"
    and "useInviteToken parse_url search_text now ref href a = (ref', href', a')"
  shows "ref' = Some t \<and> href' = clean \<and> app_held a' = None \<and>
    useInviteToken parse_url search_text now' ref' href' a' = (ref', href', a')"
  using assms by (auto simp: useInviteToken_def app_step_def dropPendingInvite_def)

end
