(* ===== verification/WebDialogs.thy ===== *)
theory WebDialogs
  imports WebForms OrgHandlers
begin

text \<open>
  The dialogs of the organization screens (\<open>apps/web/src/features/org/components\<close>): what a refused write makes
  them show, what they offer before the press, and the card that reveals a tax number on demand; the shell a
  page renders behind (\<open>components/org/OrgGuard.tsx\<close>, \<open>lib/org/org-context.tsx\<close>). A dialog is given by what
  happens when its call settles. The theorems relate the dialogs to the services that refuse.
\<close>

section \<open>The active organization\<close>

record ActiveOrg =
  ao_orgId :: jstring
  ao_name :: jstring
  ao_capabilities :: "jstring list"
  ao_roleKey :: "jstring option"
  ao_roleName :: jstring
  ao_profile :: OrgProfileView

definition toActiveOrg :: "jstring \<Rightarrow> OrgProfileView \<Rightarrow> ActiveOrg" where
  "toActiveOrg orgId profile =
     \<lparr>ao_orgId = orgId, ao_name = opw_name profile, ao_capabilities = opw_capabilities profile,
      ao_roleKey = opw_roleKey profile, ao_roleName = opw_roleName profile, ao_profile = profile\<rparr>"

definition useCan :: "ActiveOrg \<Rightarrow> jstring \<Rightarrow> bool" where
  "useCan org capability = can (ao_capabilities org) capability"

datatype RoleLabel = Role_owner | Role_admin | Role_staff | Role_named jstring

definition roleLabel :: "jstring option \<Rightarrow> jstring option \<Rightarrow> RoleLabel" where
  "roleLabel roleKey roleName =
     (if roleKey = Some (js ''owner'') then Role_owner
      else if roleKey = Some (js ''admin'') then Role_admin
      else if roleKey = Some (js ''staff'') then Role_staff
      else Role_named (case roleName of Some n \<Rightarrow> n | None \<Rightarrow> []))"

text \<open>What the guard of an organization's pages does with the verdict.\<close>

datatype GuardView =
    Guard_skeleton
  | Guard_replace jstring
  | Guard_removed jstring
  | Guard_error ErrorsTh
  | Guard_children ActiveOrg

definition orgGuard :: "jstring \<Rightarrow> OrgShellDecision \<Rightarrow> OrgProfileView option \<Rightarrow> GuardView" where
  "orgGuard orgId decision profile =
     (case decision of
        Shell_signIn \<Rightarrow> Guard_replace (js ''/login'')
      | Shell_leaveOrg \<Rightarrow> Guard_removed orgId
      | Shell_error failure \<Rightarrow> Guard_error (failureMessage failure)
      | Shell_ready \<Rightarrow> (case profile of Some p \<Rightarrow> Guard_children (toActiveOrg orgId p) | None \<Rightarrow> Guard_skeleton)
      | Shell_loading \<Rightarrow> Guard_skeleton)"

section \<open>Removing a member\<close>

datatype RemoveCopy = Remove_gone | Remove_lastOwner | Remove_forbidden | Remove_generic

text \<open>A dialog that settled is closed with a toast, or stays open with a banner.\<close>

datatype 'c Settled = Closed 'c | Banner 'c

definition cancelledCount :: "jsv \<Rightarrow> jsnum" where
  "cancelledCount result =
     (case opt_prop result ''cancelledInvitations'' of
        JNum n \<Rightarrow> if is_finite n then n else Fin 0
      | _ \<Rightarrow> Fin 0)"

text \<open>The toast of a removal: the address, and the number of invitations cancelled with it when there were any.\<close>

definition removeMember_succeeded :: "jstring \<Rightarrow> jsv \<Rightarrow> jstring \<times> jsnum option" where
  "removeMember_succeeded email result =
     (let cancelled = cancelledCount result in
      (email, if num_less (Fin 0) cancelled then Some cancelled else None))"

definition removeMember_failed :: "Rejection \<Rightarrow> RemoveCopy Settled" where
  "removeMember_failed err =
     (case toApiFailure err of
        NotFound _ \<Rightarrow> Closed Remove_gone
      | Conflict code _ \<Rightarrow> if code = JStr (js ''LAST_OWNER'') then Banner Remove_lastOwner else Banner Remove_generic
      | Forbidden _ _ \<Rightarrow> Banner Remove_forbidden
      | OrgAccessDenied \<Rightarrow> Banner Remove_forbidden
      | _ \<Rightarrow> Banner Remove_generic)"

section \<open>Changing a role\<close>

datatype ChangeRoleCopy =
    ChangeRole_gone | ChangeRole_lastOwner | ChangeRole_forbidden | ChangeRole_roleInvalid | ChangeRole_generic

text \<open>The second component tells whether the list of roles is fetched again.\<close>

definition changeRole_failed :: "Rejection \<Rightarrow> ChangeRoleCopy Settled \<times> bool" where
  "changeRole_failed err =
     (case toApiFailure err of
        NotFound _ \<Rightarrow> (Closed ChangeRole_gone, False)
      | Conflict code _ \<Rightarrow>
          (if code = JStr (js ''LAST_OWNER'') then Banner ChangeRole_lastOwner else Banner ChangeRole_generic, False)
      | Forbidden _ _ \<Rightarrow> (Banner ChangeRole_forbidden, False)
      | OrgAccessDenied \<Rightarrow> (Banner ChangeRole_forbidden, False)
      | Validation _ _ \<Rightarrow> (Banner ChangeRole_roleInvalid, True)
      | _ \<Rightarrow> (Banner ChangeRole_generic, False))"

definition demotingAnOwner :: "bool \<Rightarrow> jstring list \<Rightarrow> jstring \<Rightarrow> bool" where
  "demotingAnOwner memberIsOwner ownerRoles roleId \<longleftrightarrow> memberIsOwner \<and> \<not> List.member ownerRoles roleId"

record RoleOption =
  ro_value :: jstring
  ro_label :: RoleLabel
  ro_current :: bool
  ro_disabled :: bool
  ro_ownerOnly :: bool

definition changeRole_options :: "RoleRow list \<Rightarrow> jstring list \<Rightarrow> jstring list \<Rightarrow> jstring \<Rightarrow> bool \<Rightarrow> RoleOption list" where
  "changeRole_options offered ownerRoles capabilities currentRoleId isPending =
     map (\<lambda>role.
       let closed = List.member ownerRoles (rl_id role) \<and> \<not> isOwner capabilities in
       \<lparr>ro_value = rl_id role, ro_label = roleLabel (rl_key role) (Some (rl_name role)),
        ro_current = (rl_id role = currentRoleId), ro_disabled = (isPending \<or> closed), ro_ownerOnly = closed\<rparr>) offered"

text \<open>
  The dialog computes its own flag and does not call \<open>assignableRoles\<close>; a role is open in it exactly when
  that function would offer it.
\<close>

lemma changeRole_options_agree:
  "map ro_value (filter (\<lambda>x. \<not> ro_ownerOnly x) (changeRole_options offered ownerRoles capabilities current isPending)) =
     map rl_id (assignableRoles offered capabilities ownerRoles)"
  by (induction offered) (auto simp: changeRole_options_def assignableRoles_def Let_def)

section \<open>Inviting\<close>

datatype InviteFormCopy =
    InviteForm_role | InviteForm_email | InviteForm_server jsv
  | InviteForm_alreadyMember | InviteForm_pending | InviteForm_limitReached | InviteForm_generic

datatype InviteFormError = Role_field InviteFormCopy | Email_field InviteFormCopy | Invite_banner InviteFormCopy

text \<open>The press: \<open>None\<close> sends the request.\<close>

definition invite_submit :: "jstring \<Rightarrow> InviteFormError option" where
  "invite_submit roleId = (if roleId = [] then Some (Role_field InviteForm_role) else None)"

definition invite_failed :: "Rejection \<Rightarrow> InviteFormError" where
  "invite_failed err =
     (case toApiFailure err of
        Validation _ fieldErrors \<Rightarrow>
          (let e = get_prop fieldErrors (js ''email'') in
           Email_field (if nullish e then InviteForm_email else InviteForm_server e))
      | Conflict code _ \<Rightarrow>
          Invite_banner
            (if code = JStr (js ''ALREADY_MEMBER'') then InviteForm_alreadyMember
             else if code = JStr (js ''INVITATION_PENDING'') then InviteForm_pending
             else if code = JStr (js ''INVITATION_LIMIT_REACHED'') then InviteForm_limitReached
             else InviteForm_generic)
      | _ \<Rightarrow> Invite_banner InviteForm_generic)"

definition invite_options :: "RoleRow list \<Rightarrow> jstring list \<Rightarrow> jstring list \<Rightarrow> bool \<Rightarrow> RoleOption list" where
  "invite_options roles capabilities ownerRoles isPending =
     (let assignable = map rl_id (assignableRoles roles capabilities ownerRoles) in
      map (\<lambda>role.
        let closed = \<not> List.member assignable (rl_id role) in
        \<lparr>ro_value = rl_id role, ro_label = roleLabel (rl_key role) (Some (rl_name role)), ro_current = False,
         ro_disabled = (isPending \<or> closed), ro_ownerOnly = closed\<rparr>) roles)"

datatype InvitationButtons = Buttons_reissue_cancel | Button_inviteAgain | No_buttons

definition invitation_buttons :: "InvitationRow \<Rightarrow> InvitationButtons" where
  "invitation_buttons invitation =
     (case ir_status invitation of
        RPending \<Rightarrow> Buttons_reissue_cancel
      | RExpired \<Rightarrow> Button_inviteAgain
      | RCancelled \<Rightarrow> Button_inviteAgain
      | RAccepted \<Rightarrow> No_buttons)"

text \<open>Inviting again carries the address over, and the role unless the presser may not hand it out.\<close>

definition reinvite_prefill :: "InvitationRow \<Rightarrow> jstring list \<Rightarrow> jstring list \<Rightarrow> jstring \<times> jstring option" where
  "reinvite_prefill invitation ownerRoles capabilities =
     (ir_email invitation,
      if List.member ownerRoles (ir_roleId invitation) \<and> \<not> isOwner capabilities then None
      else Some (ir_roleId invitation))"

section \<open>Renaming\<close>

datatype RenameCopy = Rename_server jsv | Rename_invalid | Rename_failure ErrorsTh

definition rename_failed :: "Rejection \<Rightarrow> RenameCopy" where
  "rename_failed err =
     (case toApiFailure err of
        Validation _ fieldErrors \<Rightarrow>
          (let e = get_prop fieldErrors (js ''name'') in if nullish e then Rename_invalid else Rename_server e)
      | failure \<Rightarrow> Rename_failure (failureMessage failure))"

section \<open>Declaring the tax identity\<close>

datatype TaxFormCopy = TaxForm_taxId | TaxForm_server jsv | TaxForm_forbidden | TaxForm_generic

record TaxForm =
  tf_editing :: bool
  tf_entityType :: jstring
  tf_taxId :: jstring
  tf_vatRegistered :: bool
  tf_branchCode :: jstring
  tf_taxIdError :: "TaxFormCopy option"
  tf_branchCodeError :: "TaxFormCopy option"
  tf_banner :: "TaxFormCopy option"
  tf_revealUnavailable :: bool
  tf_confirming :: bool

definition tax_open :: "OrgProfileView \<Rightarrow> TaxForm" where
  "tax_open profile =
     (let view = opw_taxProfile profile in
      \<lparr>tf_editing = opw_taxProfileComplete profile,
       tf_entityType = (case Option.bind view tpv_entityType of Some e \<Rightarrow> e | None \<Rightarrow> js ''company''),
       tf_taxId = [],
       tf_vatRegistered = (case Option.bind view tpv_vatRegistered of Some b \<Rightarrow> b | None \<Rightarrow> False),
       tf_branchCode = (case Option.bind view tpv_branchCode of Some b \<Rightarrow> b | None \<Rightarrow> []),
       tf_taxIdError = None, tf_branchCodeError = None, tf_banner = None,
       tf_revealUnavailable = False, tf_confirming = False\<rparr>)"

text \<open>An edited declaration is revealed once when the dialog opens.\<close>

definition tax_revealed :: "Rejection + jstring \<Rightarrow> TaxForm \<Rightarrow> TaxForm" where
  "tax_revealed answer f =
     (case answer of Inr taxId \<Rightarrow> f\<lparr>tf_taxId := taxId\<rparr> | Inl _ \<Rightarrow> f\<lparr>tf_revealUnavailable := True\<rparr>)"

definition tax_body :: "TaxForm \<Rightarrow> TaxProfileInput" where
  "tax_body f =
     \<lparr>tpi_entityType = JStr (tf_entityType f), tpi_taxId = JStr (tf_taxId f),
      tpi_vatRegistered = JBool (tf_vatRegistered f),
      tpi_branchCode =
        (if tf_entityType f = js ''company'' \<and> tf_branchCode f \<noteq> [] then JStr (tf_branchCode f) else JUndef)\<rparr>"

text \<open>The press of the button: an existing declaration is overwritten only after a second press.\<close>

definition tax_submit :: "TaxForm \<Rightarrow> TaxForm \<times> TaxProfileInput option" where
  "tax_submit f =
     (if tf_editing f \<and> \<not> tf_confirming f then (f\<lparr>tf_confirming := True\<rparr>, None)
      else (f\<lparr>tf_taxIdError := None, tf_branchCodeError := None, tf_banner := None\<rparr>, Some (tax_body f)))"

definition server_text :: "jsv \<Rightarrow> TaxFormCopy option" where
  "server_text v = (if nullish v then None else Some (TaxForm_server v))"

definition tax_failed :: "Rejection \<Rightarrow> TaxForm \<Rightarrow> TaxForm" where
  "tax_failed err f =
     (case toApiFailure err of
        Validation code fieldErrors \<Rightarrow>
          f\<lparr>tf_taxIdError :=
              (case server_text (get_prop fieldErrors (js ''taxId'')) of
                 Some t \<Rightarrow> Some t
               | None \<Rightarrow> if code = JStr (js ''TAX_ID_INVALID'') then Some TaxForm_taxId else None),
            tf_branchCodeError := server_text (get_prop fieldErrors (js ''branchCode''))\<rparr>
      | Forbidden _ _ \<Rightarrow> f\<lparr>tf_banner := Some TaxForm_forbidden\<rparr>
      | _ \<Rightarrow> f\<lparr>tf_banner := Some TaxForm_generic\<rparr>)"

section \<open>Revealing the tax number\<close>

datatype RevealCopy = Reveal_notFound | Reveal_generic

text \<open>
  The card: what it shows, its message and its wait; \<open>cd_asking\<close> counts the requests under way, \<open>cd_asked\<close> all
  that were sent, \<open>cd_presses\<close> the presses of the button, \<open>cd_stale\<close> tells that the profile is read again.
\<close>

record Card =
  cd_reveal :: RevealState
  cd_error :: "RevealCopy option"
  cd_throttle :: jsnum
  cd_asking :: nat
  cd_asked :: nat
  cd_presses :: nat
  cd_stale :: bool

definition card_press :: "Card \<Rightarrow> Card" where
  "card_press c =
     (let c' = c\<lparr>cd_error := None, cd_reveal := toggleReveal (cd_reveal c), cd_presses := Suc (cd_presses c)\<rparr> in
      if \<not> pressRequestsReveal (cd_reveal c) then c'
      else c'\<lparr>cd_asking := Suc (cd_asking c), cd_asked := Suc (cd_asked c)\<rparr>)"

definition card_answered :: "Rejection + RevealedTaxProfile \<Rightarrow> Card \<Rightarrow> Card" where
  "card_answered answer c0 =
     (let c = c0\<lparr>cd_asking := cd_asking c0 - 1\<rparr> in
      case answer of
        Inr d \<Rightarrow> c\<lparr>cd_reveal := Reveal_shown (rtp_taxId d) (rtp_revealedAt d)\<rparr>
      | Inl err \<Rightarrow>
          (case toApiFailure err of
             Throttled w \<Rightarrow> c\<lparr>cd_reveal := REVEAL_ERROR, cd_throttle := throttle_start (wait_or_minute w)\<rparr>
           | NotFound _ \<Rightarrow> c\<lparr>cd_reveal := REVEAL_HIDDEN, cd_stale := True, cd_error := Some Reveal_notFound\<rparr>
           | Forbidden _ _ \<Rightarrow> c\<lparr>cd_reveal := REVEAL_ERROR, cd_stale := True\<rparr>
           | OrgAccessDenied \<Rightarrow> c\<lparr>cd_reveal := REVEAL_ERROR, cd_stale := True\<rparr>
           | _ \<Rightarrow> c\<lparr>cd_reveal := REVEAL_ERROR, cd_error := Some Reveal_generic\<rparr>))"

inductive card_step :: "Card \<Rightarrow> Card \<Rightarrow> bool" where
  press: "\<not> throttle_active (cd_throttle c) \<Longrightarrow> cd_reveal c \<noteq> REVEAL_LOADING \<Longrightarrow> card_step c (card_press c)"
| answered: "0 < cd_asking c \<Longrightarrow> card_step c (card_answered answer c)"
| tick: "card_step c (c\<lparr>cd_throttle := throttle_tick (cd_throttle c)\<rparr>)"

text \<open>The digits on the card: only the view of a caller who may edit has a place for them.\<close>

definition card_digits :: "TaxCardView \<Rightarrow> Card \<Rightarrow> jstring option" where
  "card_digits view c =
     (case view of
        Card_details _ masked _ _ \<Rightarrow> (case visibleTaxId (cd_reveal c) of Some t \<Rightarrow> Some t | None \<Rightarrow> masked)
      | _ \<Rightarrow> None)"

definition opened_card :: Card where
  "opened_card = \<lparr>cd_reveal = REVEAL_HIDDEN, cd_error = None, cd_throttle = Fin 0, cd_asking = 0, cd_asked = 0,
     cd_presses = 0, cd_stale = False\<rparr>"

section \<open>Facts\<close>

text \<open>The card asks once per showing: a press that hides the number, or comes too early, asks nothing.\<close>

definition card_ok :: "Card \<Rightarrow> bool" where
  "card_ok c \<longleftrightarrow> cd_asking c = (if cd_reveal c = REVEAL_LOADING then 1 else 0) \<and>
     cd_asking c \<le> cd_asked c \<and> cd_asked c \<le> cd_presses c \<and>
     (visibleTaxId (cd_reveal c) \<noteq> None \<longrightarrow> 0 < cd_asked c)"

lemma card_ok_step: "card_step c c' \<Longrightarrow> card_ok c \<Longrightarrow> card_ok c'"
proof (induction rule: card_step.induct)
  case (press c)
  then show ?case
    by (cases "cd_reveal c")
      (auto simp: card_ok_def card_press_def toggleReveal_def pressRequestsReveal_def visibleTaxId_def Let_def)
next
  case (answered c answer)
  then have l: "cd_reveal c = REVEAL_LOADING" "cd_asking c = 1" "0 < cd_asked c" "cd_asked c \<le> cd_presses c"
    by (auto simp: card_ok_def split: if_splits)
  show ?case
  proof (cases answer)
    case (Inl err)
    then show ?thesis
      using l by (cases "toApiFailure err") (auto simp: card_ok_def card_answered_def visibleTaxId_def Let_def)
  next
    case (Inr d)
    then show ?thesis using l by (simp add: card_ok_def card_answered_def visibleTaxId_def Let_def)
  qed
qed (simp add: card_ok_def)

lemma reveal_on_demand:
  assumes "card_step\<^sup>*\<^sup>* opened_card c"
  shows "cd_asking c \<le> 1" "cd_asked c \<le> cd_presses c"
    "cd_asked c = 0 \<Longrightarrow> card_digits (taxCardView profile capabilities) c \<in>
       {None, Option.bind (opw_taxProfile profile) tpv_taxIdMasked}"
    "\<not> hasCapability capabilities CAPABILITY_MANAGE_ORG_SETTINGS \<Longrightarrow>
       card_digits (taxCardView profile capabilities) c = None"
proof -
  from assms have "card_ok c"
  proof induction
    case base
    show ?case by (simp add: card_ok_def opened_card_def visibleTaxId_def)
  qed (use card_ok_step in blast)
  then show "cd_asking c \<le> 1" "cd_asked c \<le> cd_presses c"
    "cd_asked c = 0 \<Longrightarrow> card_digits (taxCardView profile capabilities) c \<in>
       {None, Option.bind (opw_taxProfile profile) tpv_taxIdMasked}"
    by (auto simp: card_ok_def card_digits_def taxCardView_def Let_def split: option.split)
  show "\<not> hasCapability capabilities CAPABILITY_MANAGE_ORG_SETTINGS \<Longrightarrow>
       card_digits (taxCardView profile capabilities) c = None"
    by (auto simp: card_digits_def taxCardView_def can_def Let_def)
qed

section \<open>The declaration\<close>

lemma trim_entity:
  "e \<in> {js ''personal'', js ''company''} \<Longrightarrow> trim e = e \<and> e \<noteq> []"
  by (auto simp: trim_def is_space_def js_def)

lemma tin_kept:
  assumes "well_formed_tin t"
  shows "trim t = t" "t \<noteq> []" "isValidThaiTaxId (Some t)" "normalizeThaiTaxId (Some t) = t"
  using assms normalize_digits [of t] trim_digits [of t]
  by (auto simp: well_formed_tin_def isValid_iff list_all_iff)

lemma tax_opened:
  assumes "profile_complete w" and "hasCapability (opv_capabilities viewer) CAPABILITY_MANAGE_ORG_SETTINGS"
    and "opr_taxEntityType r = tpw_taxEntityType w" and "opr_taxId r = tpw_taxId w"
    and "opr_vatRegistered r = tpw_vatRegistered w" and "opr_taxBranchCode r = tpw_taxBranchCode w"
    and "tpw_taxEntityType w = Some e" and "tpw_vatRegistered w = Some b"
  shows "tf_editing (tax_open (toOrgProfileView r viewer entitlement counts))"
    "tf_entityType (tax_open (toOrgProfileView r viewer entitlement counts)) = e"
    "tf_taxId (tax_open (toOrgProfileView r viewer entitlement counts)) = []"
    "tf_vatRegistered (tax_open (toOrgProfileView r viewer entitlement counts)) = b"
    "tf_branchCode (tax_open (toOrgProfileView r viewer entitlement counts)) =
       (case tpw_taxBranchCode w of Some c \<Rightarrow> c | None \<Rightarrow> [])"
    "\<not> tf_confirming (tax_open (toOrgProfileView r viewer entitlement counts))"
proof -
  from assms(1,7) obtain t where t: "tpw_taxId w = Some t" "well_formed_tin t"
    and e: "e \<in> {js ''personal'', js ''company''}" by (auto simp: profile_complete_def)
  have v: "toTaxProfileView r (opv_capabilities viewer) = Some
      \<lparr>tpv_entityType = Some e, tpv_taxIdMasked = maskTaxId (tpw_taxId w), tpv_vatRegistered = Some b,
       tpv_branchCode = tpw_taxBranchCode w\<rparr>"
    using assms(2-8) by (simp add: toTaxProfileView_def Let_def)
  have c: "isTaxProfileComplete (opr_taxEntityType r) (opr_taxId r) (opr_vatRegistered r)"
    using assms(3-8) t tin_kept [OF t(2)] trim_entity [OF e] by (simp add: isTaxProfileComplete_def)
  show "tf_editing (tax_open (toOrgProfileView r viewer entitlement counts))"
    "tf_entityType (tax_open (toOrgProfileView r viewer entitlement counts)) = e"
    "tf_taxId (tax_open (toOrgProfileView r viewer entitlement counts)) = []"
    "tf_vatRegistered (tax_open (toOrgProfileView r viewer entitlement counts)) = b"
    "tf_branchCode (tax_open (toOrgProfileView r viewer entitlement counts)) =
       (case tpw_taxBranchCode w of Some c \<Rightarrow> c | None \<Rightarrow> [])"
    "\<not> tf_confirming (tax_open (toOrgProfileView r viewer entitlement counts))"
    by (simp_all add: tax_open_def toOrgProfileView_def v c Let_def)
qed

lemma declaration_accepted:
  assumes "e \<in> {js ''personal'', js ''company''}" and "well_formed_tin t"
    and "\<And>c. branch = JStr c \<Longrightarrow> length c = 5 \<and> (\<forall>x \<in> set c. is_digit x)" and "branch = JUndef \<or> (\<exists>c. branch = JStr c)"
  shows "validateTaxProfilePut \<lparr>tpi_entityType = JStr e, tpi_taxId = JStr t, tpi_vatRegistered = JBool b, tpi_branchCode = branch\<rparr> =
    Inr \<lparr>tpw_taxEntityType = Some e, tpw_taxId = Some t, tpw_vatRegistered = Some b,
         tpw_taxBranchCode = (case branch of JStr c \<Rightarrow> Some c | _ \<Rightarrow> None)\<rparr>"
proof -
  have 1: "check_entityType (JStr e) = (Some e, None)"
    using assms(1) trim_entity [OF assms(1)] by (auto simp: check_entityType_def provided_def TAX_ENTITY_TYPES_def)
  have 2: "check_taxId (JStr t) = (Some t, None, False)"
    using tin_kept [OF assms(2)] by (simp add: check_taxId_def provided_def)
  have 3: "check_branchCode branch = ((case branch of JStr c \<Rightarrow> Some c | _ \<Rightarrow> None), None)"
    using assms(3,4) trim_digits by (auto simp: check_branchCode_def provided_def isValidBranchCode_def list_all_iff)
  show ?thesis
    by (simp add: validateTaxProfilePut_def 1 2 3 check_vatRegistered_def provided_def Let_def field_error_def)
qed

text \<open>
  C27: the tax dialog keeps a declaration it does not change. Opened on a complete declaration by a caller who may
  edit it, filled in by the reveal and saved, it sends what the API accepts as the same declaration; only the
  branch of a person, which the dialog does not show, is left out. Without the reveal the number is refused, so
  a failed reveal never overwrites it.
\<close>

theorem tax_dialog_keeps_declaration:
  assumes "profile_complete w" and "hasCapability (opv_capabilities viewer) CAPABILITY_MANAGE_ORG_SETTINGS"
    and "opr_taxEntityType r = tpw_taxEntityType w" and "opr_taxId r = tpw_taxId w"
    and "opr_vatRegistered r = tpw_vatRegistered w" and "opr_taxBranchCode r = tpw_taxBranchCode w"
    and "f = tax_open (toOrgProfileView r viewer entitlement counts)"
  shows "\<exists>d. toTaxProfileReveal (tpw_taxEntityType w) (tpw_taxId w) now = Some d \<and>
    snd (tax_submit (tax_revealed (Inr (rtp_taxId d)) f)) = None \<and>
    (\<exists>body. snd (tax_submit (fst (tax_submit (tax_revealed (Inr (rtp_taxId d)) f)))) = Some body \<and>
       validateTaxProfilePut body =
         Inr (if tpw_taxEntityType w = Some (js ''company'') then w else w\<lparr>tpw_taxBranchCode := None\<rparr>)) \<and>
    (\<exists>errors. validateTaxProfilePut (tax_body (tax_revealed (Inl e) f)) = Inl (TAX_ID_INVALID_code, errors))"
proof -
  from assms(1) obtain en t b where w: "tpw_taxEntityType w = Some en" "tpw_taxId w = Some t" "tpw_vatRegistered w = Some b"
    and en: "en \<in> {js ''personal'', js ''company''}" and t: "well_formed_tin t"
    and br: "\<And>c. tpw_taxBranchCode w = Some c \<Longrightarrow> length c = 5 \<and> (\<forall>d \<in> set c. is_digit d)"
    by (auto simp: profile_complete_def)
  note opened = tax_opened [OF assms(1-6) w(1,3), of entitlement counts, folded assms(7)]
  obtain d where d: "toTaxProfileReveal (tpw_taxEntityType w) (tpw_taxId w) now = Some d" "rtp_taxId d = t"
    using tin_kept [OF t] trim_entity [OF en] by (auto simp: toTaxProfileReveal_def w Let_def)
  let ?g = "tax_revealed (Inr (rtp_taxId d)) f"
  have one: "tax_submit ?g = (?g\<lparr>tf_confirming := True\<rparr>, None)"
    using opened by (simp add: tax_submit_def tax_revealed_def)
  let ?branch = "if en = js ''company'' \<and> tf_branchCode f \<noteq> [] then JStr (tf_branchCode f) else JUndef"
  have body: "tax_body (?g\<lparr>tf_confirming := True\<rparr>) =
      \<lparr>tpi_entityType = JStr en, tpi_taxId = JStr t, tpi_vatRegistered = JBool b, tpi_branchCode = ?branch\<rparr>"
    using opened by (simp add: tax_body_def tax_revealed_def d)
  have two: "snd (tax_submit (?g\<lparr>tf_confirming := True\<rparr>)) = Some (tax_body (?g\<lparr>tf_confirming := True\<rparr>))"
    by (simp add: tax_submit_def)
  have "validateTaxProfilePut (tax_body (?g\<lparr>tf_confirming := True\<rparr>)) =
      Inr \<lparr>tpw_taxEntityType = Some en, tpw_taxId = Some t, tpw_vatRegistered = Some b,
           tpw_taxBranchCode = (case ?branch of JStr c \<Rightarrow> Some c | _ \<Rightarrow> None)\<rparr>"
    unfolding body using br opened(5)
    by (intro declaration_accepted [OF en t]) (auto split: option.splits if_splits)
  also have "\<dots> = Inr (if tpw_taxEntityType w = Some (js ''company'') then w else w\<lparr>tpw_taxBranchCode := None\<rparr>)"
    using w br opened(5) by (cases w) (auto split: option.splits)
  finally have same: "validateTaxProfilePut (tax_body (?g\<lparr>tf_confirming := True\<rparr>)) =
      Inr (if tpw_taxEntityType w = Some (js ''company'') then w else w\<lparr>tpw_taxBranchCode := None\<rparr>)" .
  have "tpi_taxId (tax_body (tax_revealed (Inl e) f)) = JStr []"
    using opened by (simp add: tax_body_def tax_revealed_def)
  then have "\<exists>errors. validateTaxProfilePut (tax_body (tax_revealed (Inl e) f)) = Inl (TAX_ID_INVALID_code, errors)"
    unfolding validate_code by (simp add: check_taxId_rejected provided_def isValid_iff normalizeThaiTaxId_def well_formed_tin_def)
  with d one two same show ?thesis by auto
qed

text \<open>A shop that declared as a company, with its branch.\<close>

definition demo_declaration :: TaxProfileWrite where
  "demo_declaration =
     \<lparr>tpw_taxEntityType = Some (js ''company''), tpw_taxId = Some (js ''1101700207366''),
      tpw_vatRegistered = Some True, tpw_taxBranchCode = Some (js ''00001'')\<rparr>"

definition demo_profile_row :: OrgProfileRow where
  "demo_profile_row =
     \<lparr>opr_id = js ''o1'', opr_name = js ''Shop'', opr_logo = None, opr_timezone = js ''Asia/Bangkok'',
      opr_currency = js ''THB'', opr_taxEntityType = Some (js ''company''), opr_taxId = Some (js ''1101700207366''),
      opr_vatRegistered = Some True, opr_taxBranchCode = Some (js ''00001'')\<rparr>"

definition demo_viewer :: OrgProfileViewer where
  "demo_viewer =
     \<lparr>opv_userId = js ''ann'', opv_roleId = js ''r1'', opv_roleName = js ''Owner'', opv_roleKey = Some (js ''owner''),
      opv_capabilities = [CAPABILITY_FULL_ACCESS], opv_status = MActive\<rparr>"

lemma demo_declaration_complete: "profile_complete demo_declaration"
proof -
  have w: "weighted_sum (js ''1101700207366'') = 159"
    by (simp add: weighted_sum_def digit_def js_def eval_nat_numeral)
  have d: "\<forall>c \<in> set (js ''1101700207366''). is_digit c" "\<forall>c \<in> set (js ''00001''). is_digit c"
    by (simp_all add: js_def is_digit_def)
  have "well_formed_tin (js ''1101700207366'')"
    unfolding well_formed_tin_def w using d(1) by (intro conjI) (simp_all add: js_def digit_def)
  moreover have "length (js ''00001'') = 5" by (simp add: js_def)
  ultimately show ?thesis using d(2) by (simp add: profile_complete_def demo_declaration_def) blast
qed

theorem tax_dialog_keeps_declaration_witness:
  "\<exists>d body. toTaxProfileReveal (tpw_taxEntityType demo_declaration) (tpw_taxId demo_declaration) 0 = Some d \<and>
    validateTaxProfilePut body = Inr demo_declaration"
proof -
  have c: "hasCapability (opv_capabilities demo_viewer) CAPABILITY_MANAGE_ORG_SETTINGS"
    by (simp add: demo_viewer_def authz_eval)
  have e: "tpw_taxEntityType demo_declaration = Some (js ''company'')" by (simp add: demo_declaration_def)
  from tax_dialog_keeps_declaration [OF demo_declaration_complete c, of demo_profile_row _ None
      "\<lparr>opc_activeMembers = 1, opc_pendingInvitations = 0\<rparr>" 0] e
  show ?thesis by (auto simp: demo_declaration_def demo_profile_row_def)
qed

section \<open>What a refused write makes a dialog say\<close>

definition member_caps :: "jstring \<Rightarrow> jstring \<Rightarrow> OrgDb \<Rightarrow> jstring list" where
  "member_caps o' u db =
     (case readActiveMembership o' u db of Inr (Some d) \<Rightarrow> role_capabilities (md_role d) | _ \<Rightarrow> [])"

text \<open>May \<open>u\<close> act on \<open>t\<close>, giving a role that grants ownership or not?\<close>

definition may_act :: "jstring \<Rightarrow> jstring \<Rightarrow> jstring \<Rightarrow> bool \<Rightarrow> OrgDb \<Rightarrow> bool" where
  "may_act o' u t toOwner db =
     canAssignRole \<lparr>car_actorCapabilities = member_caps o' u db,
       car_targetIsOwner = isOwnerRole (member_caps o' t db), car_newRoleIsOwner = toOwner\<rparr>"

definition only_owner :: "jstring \<Rightarrow> jstring \<Rightarrow> OrgDb \<Rightarrow> bool" where
  "only_owner o' t db \<longleftrightarrow>
     (\<forall>m \<in> set (db_memberships db). mem_org m = o' \<and> mem_userId m = t \<longrightarrow> \<not> other_active_owner db m)"

lemma active_read:
  assumes "db_ok db" and "active_member o' u db"
  obtains d where "readActiveMembership o' u db = Inr (Some d)" and "md_membership d \<in> set (db_memberships db)"
    and "mem_org (md_membership d) = o'" and "mem_userId (md_membership d) = u"
    and "mem_status (md_membership d) = MActive" and "member_caps o' u db = role_capabilities (md_role d)"
proof -
  from assms(2) obtain m where m: "m \<in> set (db_memberships db)" "mem_org m = o'" "mem_userId m = u" "mem_status m = MActive"
    by (auto simp: active_member_def)
  from readActive_ok [OF assms(1) m(1,4)] m obtain d where "readActiveMembership o' u db = Inr (Some d)" "md_membership d = m"
    by auto
  with m that show thesis by (auto simp: member_caps_def)
qed

lemma actor_read:
  assumes "db_ok db"
  shows "readActorCapabilities o' u db =
    (if active_member o' u db then Inr (member_caps o' u db) else Inl (derr E_ORG_ACCESS_DENIED))"
proof (cases "active_member o' u db")
  case True
  obtain d where "readActiveMembership o' u db = Inr (Some d)" "member_caps o' u db = role_capabilities (md_role d)"
    by (rule active_read [OF assms True])
  with True show ?thesis by (simp add: readActorCapabilities_def)
qed (simp add: readActorCapabilities_def no_active_read [OF assms])

lemma only_ownerI:
  assumes "mem_org m = o'" and "mem_userId m = t" and "\<not> other_active_owner db m"
  shows "only_owner o' t db"
proof -
  have "other_active_owner db x = other_active_owner db m" if "mem_org x = o'" "mem_userId x = t" for x
    unfolding other_active_owner_def assms(1,2) that ..
  with assms(3) show ?thesis unfolding only_owner_def by blast
qed

lemma guard_role_last:
  assumes "assertOwnerRemainsInTx o' (RoleChange t caps) db = Inl e"
  shows "e = derr E_LAST_OWNER \<and> only_owner o' t db"
proof -
  let ?view = "owner_view o' db"
  from assms have e: "e = derr E_LAST_OWNER" and n: "activeOwnersAfter (owner_rows ?view) (RoleChange t caps) = []"
    by (auto simp: assertOwnerRemainsInTx_def owner_candidates_view assertOwnerRemains_def split: sum.splits if_splits)
  have "\<not> other_active_owner db m" if m: "m \<in> set (db_memberships db)" "mem_org m = o'" "mem_userId m = t" for m
  proof
    assume "other_active_owner db m"
    then obtain x where x: "x \<in> set (db_memberships db)" "mem_org x = o'" "mem_userId x \<noteq> t" "mem_status x = MActive"
      "isOwnerRole (role_caps db (mem_org x) (mem_roleId x))" using m by (auto simp: other_active_owner_def)
    then have "owner_row_of db x \<in> set (owner_rows ?view)" "owner_row_kept (RoleChange t caps) (owner_row_of db x)"
      by (auto simp: owner_rows_def owner_view_def owner_row_kept_def owner_row_caps)
    then have "om_userId (owner_row_of db x) \<in> set (activeOwnersAfter (owner_rows ?view) (RoleChange t caps))"
      unfolding activeOwnersAfter_set by (intro UnI1 imageI) simp
    with n show False by simp
  qed
  with e show ?thesis by (auto simp: only_owner_def)
qed

text \<open>The refusals of a removal and of a change of role, in the order they are found.\<close>

definition removal_error :: "jstring \<Rightarrow> jstring \<Rightarrow> jstring \<Rightarrow> OrgDb \<Rightarrow> Thrown" where
  "removal_error o' u t db =
     (if \<not> active_member o' t db then derr E_NOT_FOUND
      else if \<not> active_member o' u db then derr E_ORG_ACCESS_DENIED
      else if \<not> may_act o' u t False db then derr E_FORBIDDEN else derr E_LAST_OWNER)"

definition role_change_error :: "jstring \<Rightarrow> jstring \<Rightarrow> jstring \<Rightarrow> jstring \<Rightarrow> OrgDb \<Rightarrow> Thrown" where
  "role_change_error o' u t r db =
     (if \<not> active_member o' t db then derr E_NOT_FOUND
      else if \<not> active_member o' u db then derr E_ORG_ACCESS_DENIED
      else case find_scoped role_org o' (\<lambda>x. role_id x = r) (db_roles db) of
        None \<Rightarrow> derr_fields E_ROLE_INVALID [(js ''roleId'', ROLE_INVALID_COPY)]
      | Some nr \<Rightarrow>
          if \<not> may_act o' u t (isOwnerRole (role_capabilities nr)) db then derr E_FORBIDDEN else derr E_LAST_OWNER)"

lemma removal_refused:
  assumes ok: "db_ok db" and run: "revoke_tx now o' u t db = Inl e"
  shows "e = removal_error o' u t db \<and> (e = derr E_LAST_OWNER \<longrightarrow> only_owner o' t db)"
proof (cases "active_member o' t db \<and> active_member o' u db \<and> may_act o' u t False db")
  case False
  show ?thesis
  proof (cases "active_member o' t db")
    case t: True
    from active_read [OF ok t] obtain d where "readActiveMembership o' t db = Inr (Some d)"
      "member_caps o' t db = role_capabilities (md_role d)" by metis
    with False t run show ?thesis
      by (auto simp: revoke_tx_def actor_read [OF ok] may_act_def removal_error_def derr_def domainError_def
          split: if_splits)
  next
    case False
    from no_active_read [OF ok False] run False show ?thesis
      by (auto simp: revoke_tx_def removal_error_def derr_def domainError_def)
  qed
next
  case True
  then have t: "active_member o' t db" by blast
  from active_read [OF ok t] obtain d where d: "readActiveMembership o' t db = Inr (Some d)"
    "md_membership d \<in> set (db_memberships db)" "mem_org (md_membership d) = o'" "mem_userId (md_membership d) = t"
    "mem_status (md_membership d) = MActive" "member_caps o' t db = role_capabilities (md_role d)" by metis
  have "revoke_tx now o' u t db = rbind (assertOwnerRemainsInTx o' (Revoke t) db) (\<lambda>_.
      writeRevocation now o' t (md_email d) u db)"
    using True by (simp add: revoke_tx_def d(1) actor_read [OF ok] may_act_def d(6))
  moreover obtain rv db1 where "writeRevocation now o' t (md_email d) u db = Inr (rv, db1)"
    using writeRevocation_succeeds [OF ok d(2-4)] by blast
  moreover note guard_revoke_exact [OF ok d(2,5), unfolded d(3,4)]
  ultimately have "e = derr E_LAST_OWNER" "\<not> other_active_owner db (md_membership d)"
    using run by (auto split: if_splits)
  with True only_ownerI [OF d(3,4)] show ?thesis by (simp add: removal_error_def)
qed

lemma role_change_done:
  assumes ok: "db_ok db" and t: "active_member o' t db"
    and nr: "find_scoped role_org o' (\<lambda>x. role_id x = r) (db_roles db) = Some nr"
  shows "\<exists>x. rbind (update_membership o' t (\<lambda>m. m\<lparr>mem_roleId := role_id nr\<rparr>) db)
    (role_change_outcome o' u t from nr) = Inr x"
proof -
  from t obtain m where m: "m \<in> set (db_memberships db)" "mem_org m = o'" "mem_userId m = t"
    by (auto simp: active_member_def)
  let ?w = "SetRole t (role_id nr)"
  have fk: "role_fk db o' (role_id nr)" using find_scoped_SomeD [OF nr] by (auto simp: role_fk_def list_ex_iff)
  have "update_membership o' (write_target ?w) (member_write ?w) db = Inr (apply_write o' ?w db)"
    using update_membership_succeeds [OF ok m(1,2), of ?w] m(3) fk by simp
  moreover have "member_write ?w = (\<lambda>m. m\<lparr>mem_roleId := role_id nr\<rparr>)" by (simp add: fun_eq_iff)
  ultimately have up: "update_membership o' t (\<lambda>m. m\<lparr>mem_roleId := role_id nr\<rparr>) db = Inr (apply_write o' ?w db)"
    by simp
  have ok1: "db_ok (apply_write o' ?w db)" using writes_db_ok(1) [OF ok] up by fastforce
  let ?m = "m\<lparr>mem_roleId := role_id nr\<rparr>"
  have m1: "?m \<in> set (db_memberships (apply_write o' ?w db))"
    using m by (auto simp: apply_write_def put_memberships_def update_scoped_def intro: image_eqI [of _ _ m])
  from select_decision_ok [OF ok1 m1] obtain d where "select_decision (apply_write o' ?w db) ?m = Inr d" by blast
  moreover have "find_scoped mem_org o' (\<lambda>x. mem_userId x = t) (db_memberships (apply_write o' ?w db)) = Some ?m"
    using find_member [OF ok1 m1] m by simp
  ultimately show ?thesis by (simp add: up role_change_outcome_def)
qed

lemma role_change_refused:
  assumes ok: "db_ok db" and run: "updateRole_tx o' u t r db = Inl e"
  shows "e = role_change_error o' u t r db \<and> (e = derr E_LAST_OWNER \<longrightarrow> only_owner o' t db)"
proof (cases "active_member o' t db")
  case False
  from no_active_read [OF ok False] run False show ?thesis
    by (auto simp: updateRole_tx_def role_change_error_def derr_def domainError_def)
next
  case t: True
  from active_read [OF ok t] obtain d where d: "readActiveMembership o' t db = Inr (Some d)"
    "member_caps o' t db = role_capabilities (md_role d)" by metis
  show ?thesis
  proof (cases "find_scoped role_org o' (\<lambda>x. role_id x = r) (db_roles db)")
    case None
    with d t run show ?thesis
      by (auto simp: updateRole_tx_def actor_read [OF ok] role_change_error_def derr_def derr_fields_def domainError_def
          split: if_splits)
  next
    case (Some nr)
    show ?thesis
    proof (cases "active_member o' u db \<and> may_act o' u t (isOwnerRole (role_capabilities nr)) db")
      case False
      with d t run Some show ?thesis
        by (auto simp: updateRole_tx_def actor_read [OF ok] may_act_def role_change_error_def derr_def domainError_def
            split: if_splits)
    next
      case True
      then have "updateRole_tx o' u t r db =
          rbind (assertOwnerRemainsInTx o' (RoleChange t (role_capabilities nr)) db) (\<lambda>_.
            rbind (update_membership o' t (\<lambda>m. m\<lparr>mem_roleId := role_id nr\<rparr>) db)
              (role_change_outcome o' u t (mem_roleId (md_membership d)) nr))"
        by (simp add: updateRole_tx_def d actor_read [OF ok] may_act_def Some)
      with run role_change_done [OF ok t Some, of u "mem_roleId (md_membership d)"]
      have "assertOwnerRemainsInTx o' (RoleChange t (role_capabilities nr)) db = Inl e"
        by (auto simp: rbind_def split: sum.splits)
      from guard_role_last [OF this] True t Some show ?thesis by (simp add: role_change_error_def)
    qed
  qed
qed

lemma remove_dialog:
  "removeMember_failed (shown mt ft tr up (removal_error o' u t db)) =
    (if \<not> active_member o' t db then Closed Remove_gone
     else if active_member o' u db \<and> may_act o' u t False db then Banner Remove_lastOwner
     else Banner Remove_forbidden)"
  using failure_derr [of E_NOT_FOUND "NotFound (JStr (js ''NOT_FOUND''))" mt ft tr up]
    failure_derr [of E_ORG_ACCESS_DENIED OrgAccessDenied mt ft tr up]
    failure_derr [of E_FORBIDDEN "Forbidden (JStr (js ''FORBIDDEN'')) JUndef" mt ft tr up]
    failure_derr [of E_LAST_OWNER "Conflict (JStr (js ''LAST_OWNER'')) JUndef" mt ft tr up]
  by (simp add: removeMember_failed_def removal_error_def failure_of_code_def)

lemma role_invalid_failure:
  "\<exists>fs. toApiFailure (shown mt ft tr up (derr_fields E_ROLE_INVALID f)) = Validation (JStr (js ''ROLE_INVALID'')) fs"
  by (simp add: derr_fields_def shown_domain toApiFailure_def fromStatus_def domainError_def no_options_def Let_def)

lemma change_dialog:
  "fst (changeRole_failed (shown mt ft tr up (role_change_error o' u t r db))) =
    (if \<not> active_member o' t db then Closed ChangeRole_gone
     else if \<not> active_member o' u db then Banner ChangeRole_forbidden
     else case find_scoped role_org o' (\<lambda>x. role_id x = r) (db_roles db) of
       None \<Rightarrow> Banner ChangeRole_roleInvalid
     | Some nr \<Rightarrow> if may_act o' u t (isOwnerRole (role_capabilities nr)) db then Banner ChangeRole_lastOwner
                  else Banner ChangeRole_forbidden)"
proof -
  obtain fs where v: "toApiFailure (shown mt ft tr up
      (derr_fields E_ROLE_INVALID [(js ''roleId'', ROLE_INVALID_COPY)])) = Validation (JStr (js ''ROLE_INVALID'')) fs"
    using role_invalid_failure by blast
  show ?thesis
    using failure_derr [of E_NOT_FOUND "NotFound (JStr (js ''NOT_FOUND''))" mt ft tr up]
      failure_derr [of E_ORG_ACCESS_DENIED OrgAccessDenied mt ft tr up]
      failure_derr [of E_FORBIDDEN "Forbidden (JStr (js ''FORBIDDEN'')) JUndef" mt ft tr up]
      failure_derr [of E_LAST_OWNER "Conflict (JStr (js ''LAST_OWNER'')) JUndef" mt ft tr up]
    by (simp add: changeRole_failed_def role_change_error_def failure_of_code_def v split: option.split)
qed

lemma rethrow_refusals:
  "rethrowOrgLockError (removal_error o' u t db) op = removal_error o' u t db"
  "rethrowOrgLockError (role_change_error o' u t r db) op = role_change_error o' u t r db"
  by (simp_all add: removal_error_def role_change_error_def split: option.split)

lemma transaction_refused:
  assumes may: "may_run env c o' u db"
    and run: "in_org_transaction env (Some c) operation body finish db = (Inl e, db', evs)"
  obtains x where "body o' u db = Inl x" and "e = rethrowOrgLockError x (Some operation)" and "db' = db" and "evs = []"
proof (cases "body o' u db")
  case (Inl x)
  from in_org_refuses [OF may, where body = body and operation = operation and finish = finish, OF Inl] run
  have "e = rethrowOrgLockError x (Some operation)" "db' = db" "evs = []" by simp_all
  from that [OF Inl this] show thesis .
next
  case (Inr p)
  then show thesis
    using in_org_succeeds [OF may, where body = body and operation = operation and finish = finish,
      of "fst p" "snd p"] run by simp
qed



end
