(* ===== verification/Spec2Isabelle.thy ===== *)
theory Spec2Isabelle
  imports AdminReset Credentials SessionPolicy InvitationPolicy WeightedAverage TaxId OrgProfile
    Errors SecurityEvents OrgLock MembersService InvitationLifecycle Listings
    GateDemo SessionLifecycle ThrottleFacts AuthDemo RequestSystem EnvConfig WebDialogs
begin

text \<open>
  Omnistock, the inventory manager of this repository, as a library of definitions and theorems: the rules
  of \<open>packages/core-domain\<close>, the database layer of \<open>packages/db\<close>, the configuration of \<open>packages/config\<close>,
  the API of \<open>apps/api\<close> and the client-side decisions of \<open>apps/web\<close>.

  The program. A request reaches the API through a middleware that verifies the bearer token and reads the
  organization of the request, a guard that demands the tier of the route (public, user, organization), a
  guard that demands the capability of the route, and a quota. Its handler calls a service. A service reads
  and writes the database through a client that confines every statement to the organization of the request,
  and takes a row lock on the organization for every write that decides on membership. Sessions are families
  of rotating refresh tokens with a short-lived access token. What fails is thrown, and one filter turns it
  into the body of the response.

  Theories and sources.

  \<^item> \<open>Prelude\<close>, \<open>Instants\<close>, \<open>IsoDates\<close>, \<open>Encoding\<close>, \<open>Json\<close>: what the sources use of JavaScript. Strings are lists
    of UTF-16 code units, numbers are rationals with NaN and the infinities, instants are integers of
    milliseconds, request bodies are the values of \<open>JSON.parse\<close>. A thrown value is \<open>Inl\<close>, an answer \<open>Inr\<close>.

  \<^item> \<open>Authz\<close>, \<open>OwnerInvariant\<close>, \<open>AdminReset\<close>, \<open>InvitationPolicy\<close>, \<open>SessionPolicy\<close>, \<open>Credentials\<close>, \<open>OrgProfile\<close>,
    \<open>TaxId\<close>, \<open>WeightedAverage\<close>: the pure rules of \<open>packages/core-domain/src\<close> (\<open>auth\<close>, \<open>orgs\<close>, \<open>cost\<close>), one
    definition per function, named as the function.

  \<^item> \<open>Errors\<close>, \<open>SecurityEvents\<close>: \<open>apps/api/src/common\<close> (error registry, typed exception, filter) and the audit
    events with the keys each type may carry.

  \<^item> \<open>OrgDb\<close>, \<open>OrgLock\<close>, \<open>Tenancy\<close>: the tables of \<open>schema.prisma\<close> as a record of lists of rows with their unique
    and foreign keys, \<open>org-lock.ts\<close> (the context of a request, the lock, the transaction and the mapping of
    driver errors), \<open>tenancy.ts\<close> (the scope every query and every write passes through). \<open>DemoDb\<close> is the small
    database on which the theorems are applied.

  \<^item> \<open>MembersService\<close>, \<open>InvitationsService\<close>, \<open>OrgProvisioning\<close>, \<open>OrgProfileService\<close>, \<open>Listings\<close>, \<open>Cursor\<close>: the services of
    \<open>apps/api/src/orgs\<close>. A service method is a function from its arguments, the snapshot its first reads see and
    the database it writes to, to the result, the new database and the audit events. \<open>InvitationLifecycle\<close> holds
    the theorems on invitations, \<open>OrgHandlers\<close> the handlers of the controllers over these services.

  \<^item> \<open>Sessions\<close>, \<open>SessionLifecycle\<close>, \<open>Throttle\<close>, \<open>ThrottleFacts\<close>, \<open>ClientIp\<close>: \<open>refresh-token.service.ts\<close>,
    \<open>throttle.service.ts\<close>, \<open>org-rate-limit.guard.ts\<close> and the address key of the quotas. The server of the
    counters is a record of functions whose documented behaviour is the contract of a locale, with the in-memory
    interpretation that shows the contract can hold.

  \<^item> \<open>Requests\<close>, \<open>AuthService\<close>, \<open>AuthApi\<close>, \<open>AuthFacts\<close>, \<open>PasswordFacts\<close>, \<open>AuthJourneys\<close>, \<open>AuthDemo\<close>: the
    authentication services and endpoints over one state (users, refresh tokens, counters), and their theorems.

  \<^item> \<open>RouteRegistry\<close>, \<open>RouteTable\<close>, \<open>AccessGate\<close>, \<open>GateDemo\<close>: the registry of routes, the routes as the decorators of
    the controllers declare them, the middleware and the guards.

  \<^item> \<open>EnvConfig\<close>: \<open>packages/config/src/env.ts\<close>, the validation at start and the values the services read later.

  \<^item> \<open>WebFailures\<close>, \<open>WebOrg\<close>, \<open>WebSession\<close>, \<open>WebForms\<close>, \<open>WebDialogs\<close>: what the browser decides (\<open>apps/web/src\<close>). \<open>WebFailures\<close> turns the
    answer of the API into the failure the screens read (\<open>lib/api/error.ts\<close>, \<open>query-client.ts\<close>,
    \<open>lib/org/org-access.ts\<close>, \<open>features/org/leave-org.ts\<close>, \<open>create-org-error.ts\<close>, \<open>features/invite/invite-error.ts\<close>),
    \<open>WebOrg\<close> has the actions, cards and expiry lines of the organization screens (\<open>features/org\<close>, \<open>lib/org\<close>,
    \<open>lib/validation.ts\<close>), \<open>WebSession\<close> the clients (\<open>lib/auth-client.ts\<close>, \<open>csrf.ts\<close>, \<open>token-store.ts\<close>,
    \<open>lib/api/clients.ts\<close>), the state of the page (\<open>lib/session\<close>) and the step relations \<open>tab_step\<close> (the requests of
    a page share one refresh) and \<open>device_step\<close> (a page, its cookie and the rows of the server, with the answers
    that get lost on the way). \<open>WebForms\<close> has the forms of the sign-in pages, the list of devices with its loads
    and removals (\<open>devices_step\<close>) and the link of an invitation (\<open>app/login\<close>, \<open>app/signup\<close>, \<open>features/auth\<close>,
    \<open>features/invite\<close>), \<open>WebDialogs\<close> the dialogs of the organization screens
    (\<open>features/org/components\<close>): a form is a record, a handler is split at the answer it waits for.

  \<^item> \<open>OrgSystem\<close>, \<open>RequestSystem\<close>: the composition. \<open>api_write\<close> is the step relation of the database under every
    handler that writes; the locale \<open>db_relation\<close> states what a relation on databases needs so that a whole
    request of the authentication API is a sequence of its steps, and \<open>api\<close> interprets it on \<open>api_write\<close>.

  What the lemmas show. Every write keeps the well-formedness \<open>db_ok\<close> of the tables and, for the membership
  writes, an active Owner in every organization that had one; over all reachable databases every organization
  is complete. A request without the tier, membership or capability its route declares reaches no handler. A
  scoped statement reads the rows of its organization only, and the rows it writes itself stay there; the nested
  writes of a create are passed on as sent. A refresh token rotates once, a replay ends the session, a session
  ends ninety days after its login, and the live sessions of a user stay within the cap when logins do not
  overlap. A login answers alike for unknown accounts and wrong passwords and counts every failure for its
  account, a changed password ends the other sessions. A link works once, only while it is live, and not for a member removed after it was
  issued. Lists are walked without repetition or omission. A quota admits at most its limit in a window. What a screen
  offers is what the service grants, and what it says of a refusal follows from the database by a stated rule.

  Bounds and fuel. \<open>JSON.parse\<close> runs on fuel twice the length of the text plus two, which the lemmas on the
  fuel show to be enough: no larger fuel gives another answer. A client walking a list needs at most one
  request per row and one more. Loops over characters, addresses and digits are structural. A retry loop that
  the sources bound (one silent refresh, one repeated request) is bounded the same way.

  Interleaving. A service method with a transaction reads twice: a snapshot before it and the database inside.
  Both are arguments, so that another request may commit in between. Inside the organization lock the
  transaction is one step. A statement outside a transaction is one step of its own. Read Committed is modelled
  where the sources depend on it: two rotations of one token, and a revocation that misses a row inserted
  meanwhile.

  Parameters. Password hashing, HMAC, the JWT library, random bytes, generated identifiers and creation times,
  Unicode case folding, \<open>Date.parse\<close> of texts that are no ISO instants, the URL parser, the matching of the
  framework's router, Redis, the list of common passwords and the semantics of Prisma filters the scope does
  not inspect. What a theorem uses of one of them is a hypothesis of the theorem or of its locale, and its
  instance on a concrete function is proved beside it. One request reads one clock. A statement outside a
  transaction is answered.

  Not modelled.
  \<^item> The rendering of the pages and components of \<open>apps/web\<close>, the cache of queries, the texts of the interface.
  \<^item> The class validators on the DTOs and the global validation pipe: the handlers take the fields after them.
  \<^item> The generated database client and contracts, and the files that only re-export.
  \<^item> Start-up, dependency injection, health probes and Redis connections: wiring of the framework.
  \<^item> Seeds, acceptance and test-support scripts: run once against a live database or in tests only.
  \<^item> The back office and the marketplace connectors, placeholders at this commit.
\<close>

end
